(* ===== verification/Prelude.thy ===== *)
theory Prelude
  imports Main "HOL-Library.Word"
begin

text \<open>
  Shared vocabulary of the development.

  \<^item> Bytes are 8-bit words; a Rust \<open>String\<close> or \<open>&str\<close> is a \<open>string\<close> with one character per
    byte of its UTF-8 encoding, so \<open>length\<close> is Rust's \<open>len()\<close>.
  \<^item> An effectful Rust function is an action: a function from the state to a result and the
    next state. A result is \<open>Inr\<close> of the value or \<open>Inl\<close> of the error; an error does not undo
    the effects made before it. \<open>bind\<close> is the \<open>?\<close> operator, \<open>attempt\<close> turns the result into
    a value (a \<open>match\<close> on a \<open>Result\<close>), \<open>map_err\<close> is Rust's method of that name.
  \<^item> The collections \<open>act_simps\<close> (results of composed actions) and \<open>keeps_intros\<close>
    (preservation of a state predicate by composed actions) carry the component proofs.
\<close>

named_theorems act_simps
named_theorems keeps_intros

section \<open>Bytes and strings\<close>

type_synonym byte = "8 word"

definition as_bytes :: "string \<Rightarrow> byte list" where
  "as_bytes s = map of_char s"

fun is_prefix :: "'a list \<Rightarrow> 'a list \<Rightarrow> bool" where
  "is_prefix [] ys = True"
| "is_prefix (x # xs) [] = False"
| "is_prefix (x # xs) (y # ys) = (x = y \<and> is_prefix xs ys)"

definition starts_with :: "string \<Rightarrow> string \<Rightarrow> bool" where
  "starts_with s p = is_prefix p s"

definition ends_with :: "string \<Rightarrow> string \<Rightarrow> bool" where
  "ends_with s p = is_prefix (rev p) (rev s)"

text \<open>\<open>str::contains\<close> with a string pattern.\<close>

fun contains :: "string \<Rightarrow> string \<Rightarrow> bool" where
  "contains [] p = (p = [])"
| "contains (c # cs) p = (is_prefix p (c # cs) \<or> contains cs p)"

text \<open>\<open>str::split\<close> on a set of separator characters: always at least one piece.\<close>

fun split_on :: "(char \<Rightarrow> bool) \<Rightarrow> string \<Rightarrow> string list" where
  "split_on sep [] = [[]]"
| "split_on sep (c # cs) =
     (if sep c then [] # split_on sep cs
      else (case split_on sep cs of [] \<Rightarrow> [[c]] | p # ps \<Rightarrow> (c # p) # ps))"

fun join_with :: "char \<Rightarrow> string list \<Rightarrow> string" where
  "join_with c [] = []"
| "join_with c [p] = p"
| "join_with c (p # q # ps) = p @ c # join_with c (q # ps)"

text \<open>ASCII case mapping: \<open>to_ascii_lowercase\<close>.\<close>

definition char_code :: "char \<Rightarrow> nat" where
  "char_code c = of_char c"

definition ascii_upper :: "char \<Rightarrow> bool" where
  "ascii_upper c = (65 \<le> char_code c \<and> char_code c \<le> 90)"

definition ascii_lower :: "char \<Rightarrow> bool" where
  "ascii_lower c = (97 \<le> char_code c \<and> char_code c \<le> 122)"

definition ascii_digit :: "char \<Rightarrow> bool" where
  "ascii_digit c = (48 \<le> char_code c \<and> char_code c \<le> 57)"

definition ascii_alphanumeric :: "char \<Rightarrow> bool" where
  "ascii_alphanumeric c = (ascii_upper c \<or> ascii_lower c \<or> ascii_digit c)"

definition ascii_hexdigit :: "char \<Rightarrow> bool" where
  "ascii_hexdigit c = (ascii_digit c \<or> (65 \<le> char_code c \<and> char_code c \<le> 70) \<or>
     (97 \<le> char_code c \<and> char_code c \<le> 102))"

definition to_lower :: "char \<Rightarrow> char" where
  "to_lower c = (if ascii_upper c then char_of (char_code c + 32) else c)"

definition to_ascii_lowercase :: "string \<Rightarrow> string" where
  "to_ascii_lowercase s = map to_lower s"

text \<open>
  \<open>str::trim\<close> removes Unicode white space. The table lists the UTF-8 encodings of the
  characters with the \<open>White_Space\<close> property. UTF-8 is self-synchronising, so on valid UTF-8
  matching encoded characters at either end of the byte string is matching characters.
\<close>

definition ws_encodings :: "string list" where
  "ws_encodings =
     [[CHR 0x09], [CHR 0x0A], [CHR 0x0B], [CHR 0x0C], [CHR 0x0D], [CHR 0x20],
      [CHR 0xC2, CHR 0x85], [CHR 0xC2, CHR 0xA0], [CHR 0xE1, CHR 0x9A, CHR 0x80],
      [CHR 0xE2, CHR 0x80, CHR 0x80], [CHR 0xE2, CHR 0x80, CHR 0x81],
      [CHR 0xE2, CHR 0x80, CHR 0x82], [CHR 0xE2, CHR 0x80, CHR 0x83],
      [CHR 0xE2, CHR 0x80, CHR 0x84], [CHR 0xE2, CHR 0x80, CHR 0x85],
      [CHR 0xE2, CHR 0x80, CHR 0x86], [CHR 0xE2, CHR 0x80, CHR 0x87],
      [CHR 0xE2, CHR 0x80, CHR 0x88], [CHR 0xE2, CHR 0x80, CHR 0x89],
      [CHR 0xE2, CHR 0x80, CHR 0x8A], [CHR 0xE2, CHR 0x80, CHR 0xA8],
      [CHR 0xE2, CHR 0x80, CHR 0xA9], [CHR 0xE2, CHR 0x80, CHR 0xAF],
      [CHR 0xE2, CHR 0x81, CHR 0x9F], [CHR 0xE3, CHR 0x80, CHR 0x80]]"

fun match_any :: "string list \<Rightarrow> string \<Rightarrow> nat" where
  "match_any [] s = 0"
| "match_any (p # ps) s = (if is_prefix p s then length p else match_any ps s)"

fun strip_front :: "string list \<Rightarrow> nat \<Rightarrow> string \<Rightarrow> string" where
  "strip_front ps 0 s = s"
| "strip_front ps (Suc n) s =
     (case match_any ps s of 0 \<Rightarrow> s | Suc k \<Rightarrow> strip_front ps n (drop (Suc k) s))"

definition trim_start :: "string \<Rightarrow> string" where
  "trim_start s = strip_front ws_encodings (length s) s"

definition trim_end :: "string \<Rightarrow> string" where
  "trim_end s = rev (strip_front (map rev ws_encodings) (length s) (rev s))"

definition trim :: "string \<Rightarrow> string" where
  "trim s = trim_end (trim_start s)"

text \<open>\<open>chars().all(char::is_whitespace)\<close>.\<close>

definition all_whitespace :: "string \<Rightarrow> bool" where
  "all_whitespace s = (trim_start s = [])"

text \<open>Decimal rendering of numbers in messages.\<close>

fun show_nat :: "nat \<Rightarrow> string" where
  "show_nat n = (if n < 10 then [char_of (48 + n)]
                 else show_nat (n div 10) @ [char_of (48 + n mod 10)])"

declare show_nat.simps [simp del]

text \<open>The em dash of the source's messages, in UTF-8.\<close>

definition em_dash :: string where
  "em_dash = [CHR 0xE2, CHR 0x80, CHR 0x94]"

section \<open>Rust's unsigned 64-bit arithmetic on numbers\<close>

definition u64_max :: nat where "u64_max = 2 ^ 64 - 1"
definition u32_max :: nat where "u32_max = 2 ^ 32 - 1"

definition sat_add64 :: "nat \<Rightarrow> nat \<Rightarrow> nat" where
  "sat_add64 a b = min u64_max (a + b)"

definition sat_mul64 :: "nat \<Rightarrow> nat \<Rightarrow> nat" where
  "sat_mul64 a b = min u64_max (a * b)"

definition sat_add32 :: "nat \<Rightarrow> nat \<Rightarrow> nat" where
  "sat_add32 a b = min u32_max (a + b)"

section \<open>Actions\<close>

type_synonym ('w, 'e, 'a) act = "'w \<Rightarrow> ('e + 'a) \<times> 'w"

definition ret :: "'a \<Rightarrow> ('w, 'e, 'a) act" where
  "ret x = (\<lambda>w. (Inr x, w))"

definition throw :: "'e \<Rightarrow> ('w, 'e, 'a) act" where
  "throw e = (\<lambda>w. (Inl e, w))"

definition bind :: "('w, 'e, 'a) act \<Rightarrow> ('a \<Rightarrow> ('w, 'e, 'b) act) \<Rightarrow> ('w, 'e, 'b) act" where
  "bind m k = (\<lambda>w. case m w of (Inl e, w') \<Rightarrow> (Inl e, w') | (Inr x, w') \<Rightarrow> k x w')"

definition attempt :: "('w, 'e, 'a) act \<Rightarrow> ('w, 'f, 'e + 'a) act" where
  "attempt m = (\<lambda>w. case m w of (r, w') \<Rightarrow> (Inr r, w'))"

definition map_err :: "('e \<Rightarrow> 'f) \<Rightarrow> ('w, 'e, 'a) act \<Rightarrow> ('w, 'f, 'a) act" where
  "map_err f m = (\<lambda>w. case m w of (Inl e, w') \<Rightarrow> (Inl (f e), w') | (Inr x, w') \<Rightarrow> (Inr x, w'))"

definition lift :: "'e + 'a \<Rightarrow> ('w, 'e, 'a) act" where
  "lift r = (\<lambda>w. (r, w))"

definition gets :: "('w \<Rightarrow> 'a) \<Rightarrow> ('w, 'e, 'a) act" where
  "gets f = (\<lambda>w. (Inr (f w), w))"

definition modify :: "('w \<Rightarrow> 'w) \<Rightarrow> ('w, 'e, unit) act" where
  "modify f = (\<lambda>w. (Inr (), f w))"

text \<open>\<open>if cond { return Err(e) }\<close>, and \<open>opt.ok_or(e)?\<close>.\<close>

definition reject_if :: "bool \<Rightarrow> 'e \<Rightarrow> ('w, 'e, unit) act" where
  "reject_if b e = (if b then throw e else ret ())"

definition ok_or :: "'e \<Rightarrow> 'a option \<Rightarrow> ('w, 'e, 'a) act" where
  "ok_or e r = (case r of None \<Rightarrow> throw e | Some x \<Rightarrow> ret x)"

text \<open>\<open>let _ = m\<close>: the result is dropped, the effects stay.\<close>

definition ignore :: "('w, 'e, 'a) act \<Rightarrow> ('w, 'f, unit) act" where
  "ignore m = (\<lambda>w. (Inr (), snd (m w)))"

fun for_each :: "'a list \<Rightarrow> ('a \<Rightarrow> ('w, 'e, unit) act) \<Rightarrow> ('w, 'e, unit) act" where
  "for_each [] f = ret ()"
| "for_each (x # xs) f = bind (f x) (\<lambda>_. for_each xs f)"

subsection \<open>Results of actions\<close>

lemma ret_apply [simp, act_simps]: "ret x w = (Inr x, w)"
  by (simp add: ret_def)

lemma throw_apply [simp, act_simps]: "throw e w = (Inl e, w)"
  by (simp add: throw_def)

lemma lift_apply [simp, act_simps]: "lift r w = (r, w)"
  by (simp add: lift_def)

lemma gets_apply [simp, act_simps]: "gets f w = (Inr (f w), w)"
  by (simp add: gets_def)

lemma modify_apply [simp, act_simps]: "modify f w = (Inr (), f w)"
  by (simp add: modify_def)

lemma ignore_apply [simp, act_simps]: "ignore m w = (Inr (), snd (m w))"
  by (simp add: ignore_def)

lemma reject_if_apply [simp]: "reject_if b e w = (if b then Inl e else Inr (), w)"
  by (simp add: reject_if_def)

lemma ok_or_apply [simp]:
  "ok_or e r w = (case r of None \<Rightarrow> (Inl e, w) | Some x \<Rightarrow> (Inr x, w))"
  by (simp add: ok_or_def split: option.splits)

lemma run_fst: "fst (m w) = r \<Longrightarrow> m w = (r, snd (m w))"
  by (metis prod.collapse)

lemma bind_InrI: "m w = (Inr x, w1) \<Longrightarrow> bind m k w = k x w1"
  by (simp add: bind_def)

lemma bind_map_err_InrI: "m w = (Inr x, w1) \<Longrightarrow> bind (map_err f m) k w = k x w1"
  by (simp add: bind_def map_err_def)

lemma bind_map_err_InlI: "m w = (Inl e, w1) \<Longrightarrow> bind (map_err f m) k w = (Inl (f e), w1)"
  by (simp add: bind_def map_err_def)

lemma bind_InlI: "m w = (Inl e, w1) \<Longrightarrow> bind m k w = (Inl e, w1)"
  by (simp add: bind_def)

lemma bind_simps [simp]:
  "bind (ret x) k = k x"
  "bind (throw e) k = throw e"
  "bind (lift (Inr x)) k = k x"
  "bind (lift (Inl e)) k = throw e"
  by (auto simp: bind_def ret_def throw_def lift_def)

lemma bind_gets [simp]: "bind (gets f) k w = k (f w) w"
  by (simp add: bind_def)

lemma bind_modify [simp]: "bind (modify f) k w = k () (f w)"
  by (simp add: bind_def)

lemma bind_reject_if [simp]:
  "bind (reject_if b e) k w = (if b then (Inl e, w) else k () w)"
  by (simp add: bind_def)

lemma bind_ok_or [simp]:
  "bind (ok_or e r) k w = (case r of None \<Rightarrow> (Inl e, w) | Some x \<Rightarrow> k x w)"
  by (simp add: bind_def split: option.splits)

lemma bind_ignore [simp]: "bind (ignore m) k w = k () (snd (m w))"
  by (simp add: bind_def)

lemma bind_attempt [simp]:
  "bind (attempt m) k w = k (fst (m w)) (snd (m w))"
  by (simp add: bind_def attempt_def split: prod.splits)

lemma bind_Inr_iff:
  "bind m k w = (Inr y, w') \<longleftrightarrow> (\<exists>x w1. m w = (Inr x, w1) \<and> k x w1 = (Inr y, w'))"
  by (auto simp: bind_def split: prod.splits sum.splits)

lemma map_err_Inr_iff [simp]:
  "map_err f m w = (Inr y, w') \<longleftrightarrow> m w = (Inr y, w')"
  by (auto simp: map_err_def split: prod.splits sum.splits)

lemma snd_map_err [simp]: "snd (map_err f m w) = snd (m w)"
  by (auto simp: map_err_def split: prod.splits sum.splits)

lemma snd_attempt [simp]: "snd (attempt m w) = snd (m w)"
  by (auto simp: attempt_def split: prod.splits)

lemma attempt_Inr_iff [simp]: "attempt m w = (Inr r, w') \<longleftrightarrow> m w = (r, w')"
  by (auto simp: attempt_def split: prod.splits)

lemma bind_InrE:
  assumes "bind m k w = (Inr y, w')"
  obtains x w1 where "m w = (Inr x, w1)" "k x w1 = (Inr y, w')"
  using assms by (auto simp: bind_Inr_iff)

subsection \<open>Preservation\<close>

text \<open>
  \<open>keeps R m\<close>: whatever the result, the state after \<open>m\<close> is related to the one before.
  With a preorder \<open>R\<close> (a frame, "only this part may change"), or with \<open>R w w'\<close> an
  implication between invariants, it composes along \<open>bind\<close>.
\<close>

definition keeps :: "('w \<Rightarrow> 'w \<Rightarrow> bool) \<Rightarrow> ('w, 'e, 'a) act \<Rightarrow> bool" where
  "keeps R m = (\<forall>w. R w (snd (m w)))"

locale frame_rel =
  fixes R :: "'w \<Rightarrow> 'w \<Rightarrow> bool"
  assumes R_refl: "R w w"
    and R_trans: "R w1 w2 \<Longrightarrow> R w2 w3 \<Longrightarrow> R w1 w3"
begin

lemma keeps_ret: "keeps R (ret x)"
  by (simp add: keeps_def R_refl)

lemma keeps_throw: "keeps R (throw e)"
  by (simp add: keeps_def R_refl)

lemma keeps_lift: "keeps R (lift r)"
  by (simp add: keeps_def R_refl)

lemma keeps_gets: "keeps R (gets f)"
  by (simp add: keeps_def R_refl)

lemma keeps_reject_if: "keeps R (reject_if b e)"
  by (simp add: keeps_def R_refl)

lemma keeps_ok_or: "keeps R (ok_or e r)"
  by (simp add: keeps_def R_refl split: option.splits)

lemma keeps_bind:
  assumes "keeps R m" "\<And>x. keeps R (k x)"
  shows "keeps R (bind m k)"
  unfolding keeps_def
proof
  fix w
  obtain r w1 where m: "m w = (r, w1)" by fastforce
  from assms(1) m have "R w w1" by (auto simp: keeps_def dest: spec [of _ w])
  then show "R w (snd (bind m k w))"
    using m assms(2) by (cases r) (auto simp: bind_def keeps_def intro: R_trans)
qed

lemma keeps_attempt: "keeps R m \<Longrightarrow> keeps R (attempt m)"
  by (simp add: keeps_def)

lemma keeps_map_err: "keeps R m \<Longrightarrow> keeps R (map_err f m)"
  by (simp add: keeps_def)

lemma keeps_ignore: "keeps R m \<Longrightarrow> keeps R (ignore m)"
  by (simp add: keeps_def)

lemma keeps_for_each: "(\<And>x. keeps R (f x)) \<Longrightarrow> keeps R (for_each xs f)"
  by (induction xs) (auto intro: keeps_ret keeps_bind)

lemma keeps_if: "\<lbrakk>b \<Longrightarrow> keeps R m; \<not> b \<Longrightarrow> keeps R n\<rbrakk> \<Longrightarrow> keeps R (if b then m else n)"
  by simp

lemma keeps_case_option:
  "\<lbrakk>keeps R m; \<And>x. keeps R (k x)\<rbrakk> \<Longrightarrow> keeps R (case r of None \<Rightarrow> m | Some x \<Rightarrow> k x)"
  by (simp split: option.splits)

lemma keeps_case_sum:
  "\<lbrakk>\<And>e. keeps R (h e); \<And>x. keeps R (k x)\<rbrakk> \<Longrightarrow> keeps R (case r of Inl e \<Rightarrow> h e | Inr x \<Rightarrow> k x)"
  by (simp split: sum.splits)

lemma keeps_case_prod: "(\<And>a b. keeps R (f a b)) \<Longrightarrow> keeps R (case x of (a, b) \<Rightarrow> f a b)"
  by (cases x) simp

lemma keeps_Let: "keeps R (f x) \<Longrightarrow> keeps R (let y = x in f y)"
  by simp

lemmas keeps_rules =
  keeps_ret keeps_throw keeps_lift keeps_gets keeps_reject_if keeps_ok_or
  keeps_bind keeps_attempt keeps_map_err keeps_ignore keeps_for_each
  keeps_if keeps_case_option keeps_case_sum keeps_case_prod keeps_Let

end

lemma keepsD: "keeps R m \<Longrightarrow> m w = (r, w') \<Longrightarrow> R w w'"
  by (auto simp: keeps_def dest: spec [of _ w])

section \<open>Generic lemmas on strings and lists\<close>

lemma is_prefix_iff: "is_prefix xs ys \<longleftrightarrow> (\<exists>zs. ys = xs @ zs)"
  by (induction xs ys rule: is_prefix.induct) auto

lemma is_prefix_Nil_right: "is_prefix xs [] \<longleftrightarrow> xs = []"
  by (auto simp: is_prefix_iff)

lemma is_prefix_Cons_right:
  "is_prefix xs (y # ys) \<longleftrightarrow> xs = [] \<or> (\<exists>zs. xs = y # zs \<and> is_prefix zs ys)"
  by (cases xs) auto

lemma is_prefix_refl [simp]: "is_prefix xs xs"
  by (simp add: is_prefix_iff)

lemma is_prefix_append [simp]: "is_prefix xs (xs @ ys)"
  by (simp add: is_prefix_iff)

lemma is_prefix_trans: "is_prefix xs ys \<Longrightarrow> is_prefix ys zs \<Longrightarrow> is_prefix xs zs"
  by (auto simp: is_prefix_iff)

lemma is_prefix_antisym: "is_prefix xs ys \<Longrightarrow> is_prefix ys xs \<Longrightarrow> xs = ys"
  by (auto simp: is_prefix_iff)

lemma is_prefix_comparable: "is_prefix xs zs \<Longrightarrow> is_prefix ys zs \<Longrightarrow> is_prefix xs ys \<or> is_prefix ys xs"
  by (auto simp: is_prefix_iff append_eq_append_conv2)

lemma is_prefix_length: "is_prefix xs ys \<Longrightarrow> length xs \<le> length ys"
  by (auto simp: is_prefix_iff)

lemma is_prefix_snoc: "is_prefix xs (ys @ [y]) \<longleftrightarrow> xs = ys @ [y] \<or> is_prefix xs ys"
  by (auto simp: is_prefix_iff append_eq_append_conv2 append_eq_Cons_conv Cons_eq_append_conv)

lemma split_on_nonempty [simp]: "split_on sep s \<noteq> []"
  by (induction s) (auto split: list.splits)

lemma split_on_no_sep: "p \<in> set (split_on sep s) \<Longrightarrow> c \<in> set p \<Longrightarrow> \<not> sep c"
proof (induction s arbitrary: p)
  case Nil
  then show ?case by simp
next
  case (Cons a s)
  show ?case
  proof (cases "sep a")
    case True
    with Cons show ?thesis by auto
  next
    case False
    obtain q qs where q: "split_on sep s = q # qs"
      by (cases "split_on sep s") auto
    with False Cons.prems consider "p = a # q" | "p \<in> set qs" by auto
    then show ?thesis
    proof cases
      case 1
      with False Cons.prems Cons.IH [of q] q show ?thesis by auto
    next
      case 2
      with Cons.prems Cons.IH [of p] q show ?thesis by auto
    qed
  qed
qed

text \<open>A piece list joined with its separator splits back into the same pieces.\<close>

lemma split_on_no_sep_id: "\<forall>c \<in> set s. \<not> sep c \<Longrightarrow> split_on sep s = [s]"
  by (induction s) auto

lemma split_on_append_sep:
  "\<forall>c \<in> set s. \<not> sep c \<Longrightarrow> sep d \<Longrightarrow> split_on sep (s @ d # t) = s # split_on sep t"
  by (induction s) auto

lemma split_join_with:
  assumes "sep d" "ps \<noteq> []" "\<And>p c. p \<in> set ps \<Longrightarrow> c \<in> set p \<Longrightarrow> \<not> sep c"
  shows "split_on sep (join_with d ps) = ps"
  using assms
proof (induction d ps rule: join_with.induct)
  case (1 c)
  then show ?case by simp
next
  case (2 c p)
  then show ?case by (simp add: split_on_no_sep_id)
next
  case (3 c p q ps)
  then have "split_on sep (join_with c (q # ps)) = q # ps" by auto
  moreover have "\<forall>x \<in> set p. \<not> sep x" using 3 by auto
  ultimately show ?case using 3 by (simp add: split_on_append_sep)
qed

lemma length_as_bytes [simp]: "length (as_bytes s) = length s"
  by (simp add: as_bytes_def)

end
