(* ===== verification/Os.thy ===== *)
theory Os
  imports Prelude
begin

text \<open>
  The part of Rust's standard library the program runs on: the file system, the clock and
  the random generator, as an explicit state.

  A file system is an association list from absolute paths (lists of names from the root) to
  inodes; the list's order is the order in which \<open>read_dir\<close> reports entries. Path resolution
  (\<open>walk\<close>) follows symbolic links, as POSIX does, at most 40 of them. Every system call first
  consults \<open>faults\<close> at the current tick: the environment may let any call fail with an error
  that is none of the kinds the code tests for (no space, no permission, an I/O error), so a
  theorem about an action holds for every pattern of such failures. A read may be short
  (\<open>caps\<close>). Requests are atomic: the model does not interleave two actions.
\<close>

section \<open>Errors\<close>

datatype io_error =
    IoNotFound | IoAlreadyExists | IoNotADirectory | IoIsADirectory | IoDirectoryNotEmpty
  | IoInvalidInput | IoLoop | IoUnexpectedEof | IoOther string

fun io_display :: "io_error \<Rightarrow> string" where
  "io_display IoNotFound = ''No such file or directory (os error 2)''"
| "io_display IoAlreadyExists = ''File exists (os error 17)''"
| "io_display IoNotADirectory = ''Not a directory (os error 20)''"
| "io_display IoIsADirectory = ''Is a directory (os error 21)''"
| "io_display IoInvalidInput = ''Invalid argument (os error 22)''"
| "io_display IoDirectoryNotEmpty = ''Directory not empty (os error 39)''"
| "io_display IoLoop = ''Too many levels of symbolic links (os error 40)''"
| "io_display IoUnexpectedEof = ''early eof''"
| "io_display (IoOther m) = m"

section \<open>Paths and the directory tree\<close>

type_synonym path = "string list"

datatype inode = Reg "byte list" | Dir | Link string

type_synonym tree = "(path \<times> inode) list"

definition lookup :: "tree \<Rightarrow> path \<Rightarrow> inode option" where
  "lookup t p = (if p = [] then Some Dir else map_of t p)"

definition path_sep :: "char \<Rightarrow> bool" where
  "path_sep c = (c = CHR ''/'')"

text \<open>\<open>Path::join\<close> / \<open>PathBuf::push\<close> with a string: an absolute string replaces the path.\<close>

definition path_join :: "path \<Rightarrow> string \<Rightarrow> path" where
  "path_join p s =
     (let cs = filter (\<lambda>c. c \<noteq> []) (split_on path_sep s)
      in if starts_with s ''/'' then cs else p @ cs)"

definition file_name :: "path \<Rightarrow> string option" where
  "file_name p = (if p = [] \<or> last p = ''..'' then None else Some (last p))"

definition parent :: "path \<Rightarrow> path option" where
  "parent p = (if p = [] then None else Some (butlast p))"

text \<open>
  Path resolution. The result says whether the path exists; when only its last component is
  missing, it is the place where that component would be created.
\<close>

fun walk :: "nat \<Rightarrow> tree \<Rightarrow> path \<Rightarrow> string list \<Rightarrow> io_error + (bool \<times> path)" where
  "walk n t cur [] = Inr (True, cur)"
| "walk n t cur (c # cs) =
     (if c = [] \<or> c = ''.'' then walk n t cur cs
      else if c = ''..'' then walk n t (butlast cur) cs
      else (case lookup t (cur @ [c]) of
              None \<Rightarrow> if cs = [] then Inr (False, cur @ [c]) else Inl IoNotFound
            | Some (Reg d) \<Rightarrow> if cs = [] then Inr (True, cur @ [c]) else Inl IoNotADirectory
            | Some Dir \<Rightarrow> walk n t (cur @ [c]) cs
            | Some (Link s) \<Rightarrow>
                (case n of 0 \<Rightarrow> Inl IoLoop
                 | Suc m \<Rightarrow> walk m t (if starts_with s ''/'' then [] else cur)
                                   (split_on path_sep s @ cs))))"

definition max_symlinks :: nat where "max_symlinks = 40"

definition resolve :: "tree \<Rightarrow> path \<Rightarrow> io_error + (bool \<times> path)" where
  "resolve t p = walk max_symlinks t [] p"

text \<open>\<open>fs::canonicalize\<close>: the path must exist.\<close>

definition canon_path :: "tree \<Rightarrow> path \<Rightarrow> io_error + path" where
  "canon_path t p =
     (case resolve t p of Inl e \<Rightarrow> Inl e
      | Inr (True, q) \<Rightarrow> Inr q
      | Inr (False, q) \<Rightarrow> Inl IoNotFound)"

text \<open>Resolution of everything but the last component (calls that do not follow a final link).\<close>

definition resolve_parent :: "tree \<Rightarrow> path \<Rightarrow> io_error + path" where
  "resolve_parent t p =
     (if p = [] \<or> last p = ''.'' \<or> last p = ''..'' then canon_path t p
      else (case canon_path t (butlast p) of Inl e \<Rightarrow> Inl e
            | Inr d \<Rightarrow> if lookup t d = Some Dir then Inr (d @ [last p]) else Inl IoNotADirectory))"

record meta =
  is_dir :: bool
  is_file :: bool
  is_symlink :: bool
  len :: nat
  modified :: "nat option"

definition inode_meta :: "inode \<Rightarrow> nat option \<Rightarrow> meta" where
  "inode_meta i m =
     (case i of Reg d \<Rightarrow> \<lparr>is_dir = False, is_file = True, is_symlink = False, len = length d, modified = m\<rparr>
      | Dir \<Rightarrow> \<lparr>is_dir = True, is_file = False, is_symlink = False, len = 0, modified = m\<rparr>
      | Link s \<Rightarrow> \<lparr>is_dir = False, is_file = False, is_symlink = True, len = length s, modified = m\<rparr>)"

section \<open>Tree updates\<close>

definition put :: "path \<Rightarrow> inode \<Rightarrow> tree \<Rightarrow> tree" where
  "put p i t = (if map_of t p = None then t @ [(p, i)]
                else map (\<lambda>(q, j). if q = p then (q, i) else (q, j)) t)"

definition remove_subtree :: "path \<Rightarrow> tree \<Rightarrow> tree" where
  "remove_subtree p t = filter (\<lambda>(q, i). \<not> is_prefix p q) t"

definition move_subtree :: "path \<Rightarrow> path \<Rightarrow> tree \<Rightarrow> tree" where
  "move_subtree p q t = map (\<lambda>(r, i). if is_prefix p r then (q @ drop (length p) r, i) else (r, i)) t"

definition children :: "tree \<Rightarrow> path \<Rightarrow> (string \<times> inode) list" where
  "children t d = map (\<lambda>(p, i). (last p, i)) (filter (\<lambda>(p, i). p \<noteq> [] \<and> butlast p = d) t)"

text \<open>\<open>fs::create_dir_all\<close>.\<close>

fun mkdirs :: "tree \<Rightarrow> path \<Rightarrow> string list \<Rightarrow> io_error + tree" where
  "mkdirs t cur [] = Inr t"
| "mkdirs t cur (c # cs) =
     (case canon_path t (cur @ [c]) of
        Inr q \<Rightarrow> (case lookup t q of
            Some Dir \<Rightarrow> mkdirs t q cs
          | _ \<Rightarrow> Inl (if cs = [] then IoAlreadyExists else IoNotADirectory))
      | Inl IoNotFound \<Rightarrow>
          (if lookup t (cur @ [c]) = None then mkdirs (put (cur @ [c]) Dir t) (cur @ [c]) cs
           else Inl IoAlreadyExists)
      | Inl e \<Rightarrow> Inl e)"

section \<open>The state of the operating system\<close>

record os =
  tree :: tree
  ticks :: nat
  faults :: "nat \<Rightarrow> string option"
  caps :: "nat \<Rightarrow> nat"
  mtimes :: "path \<Rightarrow> nat option"
  clock :: int
  rng :: "nat \<Rightarrow> byte"
  rng_pos :: nat
  uuids :: "nat \<Rightarrow> string"
  uuid_pos :: nat

type_synonym ('z, 'a) io = "('z os_scheme, io_error, 'a) act"

definition tick :: "'z os_scheme \<Rightarrow> 'z os_scheme" where
  "tick w = w\<lparr>ticks := Suc (ticks w)\<rparr>"

definition syscall :: "(tree \<Rightarrow> io_error + ('a \<times> tree)) \<Rightarrow> ('z, 'a) io" where
  "syscall f = (\<lambda>w.
     (case faults w (ticks w) of
        Some m \<Rightarrow> (Inl (IoOther m), tick w)
      | None \<Rightarrow> (case f (tree w) of
            Inl e \<Rightarrow> (Inl e, tick w)
          | Inr (x, t) \<Rightarrow> (Inr x, tick (w\<lparr>tree := t\<rparr>)))))"

definition query :: "(tree \<Rightarrow> io_error + 'a) \<Rightarrow> ('z, 'a) io" where
  "query f = syscall (\<lambda>t. case f t of Inl e \<Rightarrow> Inl e | Inr x \<Rightarrow> Inr (x, t))"

definition mutate :: "(tree \<Rightarrow> io_error + tree) \<Rightarrow> ('z, unit) io" where
  "mutate f = syscall (\<lambda>t. case f t of Inl e \<Rightarrow> Inl e | Inr t' \<Rightarrow> Inr ((), t'))"

section \<open>System calls\<close>

definition fs_canonicalize :: "path \<Rightarrow> ('z, path) io" where
  "fs_canonicalize p = query (\<lambda>t. canon_path t p)"

definition stat_inode :: "tree \<Rightarrow> path \<Rightarrow> io_error + (path \<times> inode)" where
  "stat_inode t p =
     (case canon_path t p of Inl e \<Rightarrow> Inl e
      | Inr q \<Rightarrow> (case lookup t q of None \<Rightarrow> Inl IoNotFound | Some i \<Rightarrow> Inr (q, i)))"

definition lstat_inode :: "tree \<Rightarrow> path \<Rightarrow> io_error + (path \<times> inode)" where
  "lstat_inode t p =
     (case resolve_parent t p of Inl e \<Rightarrow> Inl e
      | Inr q \<Rightarrow> (case lookup t q of None \<Rightarrow> Inl IoNotFound | Some i \<Rightarrow> Inr (q, i)))"

definition with_meta :: "(tree \<Rightarrow> io_error + (path \<times> inode)) \<Rightarrow> ('z, meta) io" where
  "with_meta f = bind (query f) (\<lambda>(q, i). gets (\<lambda>w. inode_meta i (mtimes w q)))"

definition fs_metadata :: "path \<Rightarrow> ('z, meta) io" where
  "fs_metadata p = with_meta (\<lambda>t. stat_inode t p)"

definition fs_symlink_metadata :: "path \<Rightarrow> ('z, meta) io" where
  "fs_symlink_metadata p = with_meta (\<lambda>t. lstat_inode t p)"

definition fs_try_exists :: "path \<Rightarrow> ('z, bool) io" where
  "fs_try_exists p = query (\<lambda>t. case stat_inode t p of
      Inr _ \<Rightarrow> Inr True | Inl IoNotFound \<Rightarrow> Inr False | Inl e \<Rightarrow> Inl e)"

text \<open>\<open>try_exists(..).unwrap_or(false)\<close>.\<close>

definition exists_or_false :: "path \<Rightarrow> ('z os_scheme, 'e, bool) act" where
  "exists_or_false p = bind (attempt (fs_try_exists p))
     (\<lambda>r. ret (case r of Inr b \<Rightarrow> b | Inl e \<Rightarrow> False))"

definition fs_create_dir_all :: "path \<Rightarrow> ('z, unit) io" where
  "fs_create_dir_all p = mutate (\<lambda>t. mkdirs t [] p)"

text \<open>A directory's entries: name and metadata, links not followed.\<close>

definition fs_read_dir :: "path \<Rightarrow> ('z, (string \<times> path) list) io" where
  "fs_read_dir p = query (\<lambda>t. case stat_inode t p of Inl e \<Rightarrow> Inl e
      | Inr (q, Dir) \<Rightarrow> Inr (map (\<lambda>(n, i). (n, p @ [n])) (children t q))
      | Inr _ \<Rightarrow> Inl IoNotADirectory)"

definition fs_read :: "path \<Rightarrow> ('z, byte list) io" where
  "fs_read p = query (\<lambda>t. case stat_inode t p of Inl e \<Rightarrow> Inl e
      | Inr (q, Reg d) \<Rightarrow> Inr d
      | Inr _ \<Rightarrow> Inl IoIsADirectory)"

text \<open>
  \<open>File::create\<close>: truncates an existing file, creates a missing one; the handle is its
  resolved path. \<open>OpenOptions::create_new\<close> never opens an existing entry.
\<close>

definition create_target :: "tree \<Rightarrow> path \<Rightarrow> io_error + path" where
  "create_target t p =
     (case resolve t p of Inl e \<Rightarrow> Inl e
      | Inr (False, q) \<Rightarrow> Inr q
      | Inr (True, q) \<Rightarrow> (case lookup t q of Some (Reg d) \<Rightarrow> Inr q | _ \<Rightarrow> Inl IoIsADirectory))"

definition fs_create :: "path \<Rightarrow> ('z, path) io" where
  "fs_create p = syscall (\<lambda>t. case create_target t p of Inl e \<Rightarrow> Inl e
      | Inr q \<Rightarrow> Inr (q, put q (Reg []) t))"

definition fs_create_new :: "path \<Rightarrow> ('z, path) io" where
  "fs_create_new p = syscall (\<lambda>t. case resolve_parent t p of Inl e \<Rightarrow> Inl e
      | Inr q \<Rightarrow> (case lookup t q of Some i \<Rightarrow> Inl IoAlreadyExists
                | None \<Rightarrow> Inr (q, put q (Reg []) t)))"

definition append_to :: "path \<Rightarrow> byte list \<Rightarrow> tree \<Rightarrow> tree" where
  "append_to q bs t = (case lookup t q of Some (Reg d) \<Rightarrow> put q (Reg (d @ bs)) t | _ \<Rightarrow> t)"

definition fs_write_all :: "path \<Rightarrow> byte list \<Rightarrow> ('z, unit) io" where
  "fs_write_all h bs = mutate (\<lambda>t. Inr (append_to h bs t))"

definition fs_flush :: "path \<Rightarrow> ('z, unit) io" where
  "fs_flush h = query (\<lambda>t. Inr ())"

definition fs_sync_data :: "path \<Rightarrow> ('z, unit) io" where
  "fs_sync_data h = query (\<lambda>t. Inr ())"

text \<open>\<open>fs::write\<close>: create and write in one call.\<close>

definition fs_write :: "path \<Rightarrow> byte list \<Rightarrow> ('z, unit) io" where
  "fs_write p bs = bind (fs_create p) (\<lambda>h. fs_write_all h bs)"

definition fs_remove_file :: "path \<Rightarrow> ('z, unit) io" where
  "fs_remove_file p = mutate (\<lambda>t. case lstat_inode t p of Inl e \<Rightarrow> Inl e
      | Inr (q, Dir) \<Rightarrow> Inl IoIsADirectory
      | Inr (q, i) \<Rightarrow> Inr (remove_subtree q t))"

definition fs_remove_dir_all :: "path \<Rightarrow> ('z, unit) io" where
  "fs_remove_dir_all p = mutate (\<lambda>t. case lstat_inode t p of Inl e \<Rightarrow> Inl e
      | Inr (q, Reg d) \<Rightarrow> Inl IoNotADirectory
      | Inr (q, i) \<Rightarrow> if q = [] then Inl IoInvalidInput else Inr (remove_subtree q t))"

definition rename_tree :: "tree \<Rightarrow> path \<Rightarrow> path \<Rightarrow> io_error + tree" where
  "rename_tree t p q =
     (case lstat_inode t p of Inl e \<Rightarrow> Inl e
      | Inr (a, i) \<Rightarrow>
         (case resolve_parent t q of Inl e \<Rightarrow> Inl e
          | Inr b \<Rightarrow>
             if a = b then Inr t
             else if a = [] \<or> is_prefix a b then Inl IoInvalidInput
             else (case lookup t b of
                 None \<Rightarrow> Inr (move_subtree a b t)
               | Some Dir \<Rightarrow> (if i \<noteq> Dir then Inl IoIsADirectory
                             else if children t b \<noteq> [] then Inl IoDirectoryNotEmpty
                             else Inr (move_subtree a b (remove_subtree b t)))
               | Some _ \<Rightarrow> (if i = Dir then Inl IoNotADirectory
                           else Inr (move_subtree a b (remove_subtree b t))))))"

definition fs_rename :: "path \<Rightarrow> path \<Rightarrow> ('z, unit) io" where
  "fs_rename p q = mutate (\<lambda>t. rename_tree t p q)"

subsection \<open>Reading through a handle\<close>

text \<open>A read handle is the content not read yet.\<close>

definition fs_open :: "path \<Rightarrow> ('z, byte list) io" where
  "fs_open p = fs_read p"

definition fs_read_some :: "nat \<Rightarrow> byte list \<Rightarrow> ('z, byte list \<times> byte list) io" where
  "fs_read_some k h = (\<lambda>w.
     (let n = min k (max 1 (caps w (ticks w)))
      in query (\<lambda>t. Inr (take n h, drop n h)) w))"

definition fs_read_exact :: "nat \<Rightarrow> byte list \<Rightarrow> ('z, byte list \<times> byte list) io" where
  "fs_read_exact k h = query (\<lambda>t. if length h < k then Inl IoUnexpectedEof else Inr (take k h, drop k h))"

subsection \<open>Random bytes, identifiers, time\<close>

definition fill_bytes :: "nat \<Rightarrow> ('z os_scheme, 'e, byte list) act" where
  "fill_bytes n = (\<lambda>w. (Inr (map (\<lambda>i. rng w (rng_pos w + i)) [0..<n]), w\<lparr>rng_pos := rng_pos w + n\<rparr>))"

definition new_uuid :: "('z os_scheme, 'e, string) act" where
  "new_uuid = (\<lambda>w. (Inr (uuids w (uuid_pos w)), w\<lparr>uuid_pos := Suc (uuid_pos w)\<rparr>))"

end
