(* ===== verification/Errors.thy ===== *)
theory Errors
  imports Os
begin

text \<open>
  The program's error type (\<open>src/src/errors.rs\<close>): its variants, their display strings, the HTTP
  status each maps to and the message a client sees.
\<close>

section \<open>The error type\<close>

datatype sqlx_error = UniqueViolation string | ForeignKeyViolation string | RowNotFound | SqlOther string

datatype app_error =
    NotFound | Unauthorized | Forbidden | Conflict string | QuotaExceeded | Locked
  | RecoveryNotAvailable | Validation string | BadPassphrase | Internal string
  | Sqlx sqlx_error | Io io_error

fun sqlx_display :: "sqlx_error \<Rightarrow> string" where
  "sqlx_display (UniqueViolation m) = ''error returned from database: '' @ m"
| "sqlx_display (ForeignKeyViolation m) = ''error returned from database: '' @ m"
| "sqlx_display RowNotFound = ''no rows returned by a query that expected to return at least one row''"
| "sqlx_display (SqlOther m) = m"

fun display_error :: "app_error \<Rightarrow> string" where
  "display_error NotFound = ''not found''"
| "display_error Unauthorized = ''unauthorized''"
| "display_error Forbidden = ''forbidden''"
| "display_error (Conflict m) = ''conflict: '' @ m"
| "display_error QuotaExceeded = ''quota exceeded''"
| "display_error Locked = ''library/space is locked '' @ em_dash @ '' unlock first''"
| "display_error RecoveryNotAvailable = ''recovery not available for this encryption mode''"
| "display_error (Validation m) = ''validation error: '' @ m"
| "display_error BadPassphrase = ''incorrect passphrase''"
| "display_error (Internal m) = ''internal error: '' @ m"
| "display_error (Sqlx e) = sqlx_display e"
| "display_error (Io e) = io_display e"

section \<open>The HTTP response\<close>

fun status :: "app_error \<Rightarrow> nat" where
  "status NotFound = 404"
| "status Unauthorized = 401"
| "status Forbidden = 403"
| "status (Conflict m) = 409"
| "status QuotaExceeded = 413"
| "status Locked = 423"
| "status RecoveryNotAvailable = 422"
| "status (Validation m) = 400"
| "status BadPassphrase = 401"
| "status (Internal m) = 500"
| "status (Sqlx e) = 500"
| "status (Io e) = 500"

fun client_message :: "app_error \<Rightarrow> string" where
  "client_message NotFound = ''The requested resource was not found.''"
| "client_message Unauthorized = ''Authentication required.''"
| "client_message Forbidden = ''You do not have permission to perform this action.''"
| "client_message (Conflict m) = m"
| "client_message QuotaExceeded = ''Storage quota exceeded.''"
| "client_message Locked = ''Library or space is locked. Unlock it first.''"
| "client_message RecoveryNotAvailable = ''Recovery is not available for this encryption mode.''"
| "client_message (Validation m) = m"
| "client_message BadPassphrase = ''Incorrect passphrase.''"
| "client_message (Internal m) = ''An internal server error occurred.''"
| "client_message (Sqlx e) = ''An internal server error occurred.''"
| "client_message (Io e) = ''An internal server error occurred.''"

text \<open>\<open>respond_to\<close>: the status code and description of the JSON body.\<close>

definition respond_to :: "app_error \<Rightarrow> nat \<times> string" where
  "respond_to e = (status e, client_message e)"

text \<open>\<open>?\<close> on an I/O result inside a function that returns \<open>AppError\<close>.\<close>

definition io :: "('z, 'a) io \<Rightarrow> ('z os_scheme, app_error, 'a) act" where
  "io m = map_err Io m"

type_synonym ('z, 'a) app = "('z os_scheme, app_error, 'a) act"

lemma io_Inr_iff [simp]: "io m w = (Inr x, w') \<longleftrightarrow> m w = (Inr x, w')"
  by (simp add: io_def)

lemma snd_io [simp]: "snd (io m w) = snd (m w)"
  by (simp add: io_def)

text \<open>No internal detail reaches the client: a 500 response carries the same text always.\<close>

lemma server_error_message:
  "status e = 500 \<Longrightarrow> client_message e = ''An internal server error occurred.''"
  by (cases e) auto

end
