(* ===== verification/OsFacts.thy ===== *)
theory OsFacts
  imports Os
begin

text \<open>
  Facts about the file-system model: lookups after tree updates, well-formed trees and their
  preservation by every system call, canonical paths and their resolution, and the frame
  "only entries under \<open>r\<close> change" in which the isolation theorems are stated.
\<close>

section \<open>Lookups after updates\<close>

lemma lookup_Nil [simp]: "lookup t [] = Some Dir"
  by (simp add: lookup_def)

lemma map_of_put: "map_of (put p i t) q = (if q = p then Some i else map_of t q)"
proof -
  have upd: "map_of (map (\<lambda>(q, j). if q = p then (q, i) else (q, j)) u) r
      = (if r = p then map_option (\<lambda>_. i) (map_of u r) else map_of u r)" for u :: tree and r
    by (induction u) auto
  show ?thesis
  proof (cases "map_of t p")
    case None
    then show ?thesis by (auto simp: put_def map_add_def split: option.splits)
  next
    case (Some j)
    then show ?thesis using upd [of t q] by (cases "q = p") (simp_all add: put_def)
  qed
qed

lemma lookup_put: "p \<noteq> [] \<Longrightarrow> lookup (put p i t) q = (if q = p then Some i else lookup t q)"
  by (simp add: lookup_def map_of_put)

lemma map_of_filter_key:
  "map_of (filter (\<lambda>(k, v). P k) t) q = (if P q then map_of t q else None)"
  by (induction t) auto

lemma lookup_remove_subtree:
  "lookup (remove_subtree p t) q = (if q \<noteq> [] \<and> is_prefix p q then None else lookup t q)"
  using map_of_filter_key [of "\<lambda>q. \<not> is_prefix p q" t q]
  by (simp add: lookup_def remove_subtree_def)

lemma lookup_move_other:
  "\<not> is_prefix p r \<Longrightarrow> \<not> is_prefix q r \<Longrightarrow> lookup (move_subtree p q t) r = lookup t r"
proof -
  assume p: "\<not> is_prefix p r" and q: "\<not> is_prefix q r"
  have "map_of (move_subtree p q t) r = map_of t r"
    using p q unfolding move_subtree_def
    by (induction t) (auto simp: is_prefix_iff)
  then show ?thesis by (simp add: lookup_def)
qed

lemma lookup_move_source:
  assumes "is_prefix p r" "\<not> is_prefix q r" "r \<noteq> []"
  shows "lookup (move_subtree p q t) r = None"
proof -
  have "map_of (move_subtree p q t) r = None"
    unfolding move_subtree_def
  proof (induction t)
    case Nil
    then show ?case by simp
  next
    case (Cons e t)
    obtain a i where e: "e = (a, i)" by fastforce
    have "r \<noteq> q @ drop (length p) a" using assms(2) by auto
    moreover have "\<not> is_prefix p a \<Longrightarrow> r \<noteq> a" using assms(1) by auto
    ultimately show ?case using Cons.IH e by simp
  qed
  then show ?thesis using assms(3) by (simp add: lookup_def)
qed

lemma lookup_move_dest:
  assumes none: "\<And>r. is_prefix q r \<Longrightarrow> map_of t r = None" and ne: "p \<noteq> []" "q \<noteq> []"
  shows "lookup (move_subtree p q t) (q @ s) = lookup t (p @ s)"
proof -
  have "map_of (move_subtree p q t) (q @ s) = map_of t (p @ s)"
    using none unfolding move_subtree_def
  proof (induction t)
    case Nil
    then show ?case by simp
  next
    case (Cons e t)
    obtain r i where e: "e = (r, i)" by fastforce
    have r: "\<not> is_prefix q r" using Cons.prems [of r] e by (auto split: if_splits)
    have t: "map_of t r' = None" if "is_prefix q r'" for r'
      using Cons.prems [OF that] e by (auto split: if_splits)
    show ?case using Cons.IH [OF t] e r
      by (auto simp: is_prefix_iff)
  qed
  then show ?thesis using ne by (simp add: lookup_def)
qed

section \<open>Well-formed trees\<close>

definition name_ok :: "string \<Rightarrow> bool" where
  "name_ok c = (c \<noteq> [] \<and> c \<noteq> ''.'' \<and> c \<noteq> ''..'')"

definition wf_tree :: "tree \<Rightarrow> bool" where
  "wf_tree t = (\<forall>p. p \<noteq> [] \<and> lookup t p \<noteq> None \<longrightarrow>
      name_ok (last p) \<and> lookup t (butlast p) = Some Dir)"

text \<open>A canonical path: it exists, passes through directories only and ends at no link.\<close>

definition canon :: "tree \<Rightarrow> path \<Rightarrow> bool" where
  "canon t p = (lookup t p \<noteq> None \<and> (\<forall>s. lookup t p \<noteq> Some (Link s)))"

lemma wf_parent_dir: "wf_tree t \<Longrightarrow> lookup t (p @ [c]) \<noteq> None \<Longrightarrow> lookup t p = Some Dir"
  by (auto simp: wf_tree_def dest: spec [of _ "p @ [c]"])

lemma wf_name: "wf_tree t \<Longrightarrow> lookup t (p @ [c]) \<noteq> None \<Longrightarrow> name_ok c"
  by (auto simp: wf_tree_def dest: spec [of _ "p @ [c]"])

lemma wf_prefix_dir:
  "wf_tree t \<Longrightarrow> lookup t (p @ q) \<noteq> None \<Longrightarrow> q \<noteq> [] \<Longrightarrow> lookup t p = Some Dir"
proof (induction q rule: rev_induct)
  case Nil
  then show ?case by simp
next
  case (snoc x q)
  then have "lookup t (p @ q) = Some Dir"
    using wf_parent_dir [of t "p @ q" x] by simp
  with snoc show ?case by (cases "q = []") auto
qed

lemma wf_names: "wf_tree t \<Longrightarrow> lookup t p \<noteq> None \<Longrightarrow> c \<in> set p \<Longrightarrow> name_ok c"
proof (induction p rule: rev_induct)
  case Nil
  then show ?case by simp
next
  case (snoc x p)
  then have "lookup t p = Some Dir" "name_ok x"
    using wf_parent_dir wf_name by blast+
  with snoc show ?case by auto
qed

lemma wf_below_missing: "wf_tree t \<Longrightarrow> lookup t p = None \<Longrightarrow> lookup t (p @ q) = None"
proof (cases "q = []")
  case False
  assume "wf_tree t" "lookup t p = None"
  then show ?thesis using wf_prefix_dir [of t p q] False by (cases "lookup t (p @ q)") auto
qed simp

lemma canon_Nil [simp]: "canon t []"
  by (simp add: canon_def)

lemma canon_dir: "lookup t p = Some Dir \<Longrightarrow> canon t p"
  by (simp add: canon_def)

lemma canon_prefix_dir: "wf_tree t \<Longrightarrow> canon t (p @ q) \<Longrightarrow> q \<noteq> [] \<Longrightarrow> lookup t p = Some Dir"
  by (rule wf_prefix_dir) (auto simp: canon_def)

section \<open>Path resolution\<close>

lemma walk_dirs:
  "\<lbrakk>wf_tree t; lookup t (p @ q) = Some Dir\<rbrakk> \<Longrightarrow> walk n t p (q @ r) = walk n t (p @ q) r"
proof (induction q arbitrary: p)
  case Nil
  then show ?case by simp
next
  case (Cons c q)
  have dir: "lookup t (p @ [c]) = Some Dir"
  proof (cases "q = []")
    case True
    with Cons.prems(2) show ?thesis by simp
  next
    case False
    with Cons.prems show ?thesis by (intro wf_prefix_dir [of t "p @ [c]" q]) simp_all
  qed
  then have c: "c \<noteq> []" "c \<noteq> ''.''" "c \<noteq> ''..''"
    using wf_name [OF Cons.prems(1), of p c] by (auto simp: name_ok_def)
  have "walk n t p ((c # q) @ r) = walk n t (p @ [c]) (q @ r)"
    using c dir by simp
  also have "\<dots> = walk n t ((p @ [c]) @ q) r"
    using Cons.IH [of "p @ [c]"] Cons.prems by simp
  finally show ?case by simp
qed

lemma walk_down:
  "name_ok c \<Longrightarrow> walk n t cur (c # cs) =
     (case lookup t (cur @ [c]) of
        None \<Rightarrow> if cs = [] then Inr (False, cur @ [c]) else Inl IoNotFound
      | Some (Reg d) \<Rightarrow> if cs = [] then Inr (True, cur @ [c]) else Inl IoNotADirectory
      | Some Dir \<Rightarrow> walk n t (cur @ [c]) cs
      | Some (Link s) \<Rightarrow>
          (case n of 0 \<Rightarrow> Inl IoLoop
           | Suc m \<Rightarrow> walk m t (if starts_with s ''/'' then [] else cur)
                             (split_on path_sep s @ cs)))"
  by (simp add: name_ok_def)

declare walk.simps(2) [simp del]

lemma walk_canon:
  assumes wf: "wf_tree t" and c: "canon t (p @ q)"
  shows "walk n t p q = Inr (True, p @ q)"
proof (cases q rule: rev_cases)
  case Nil
  then show ?thesis by simp
next
  case (snoc qs x)
  have d: "lookup t (p @ qs) = Some Dir"
    using canon_prefix_dir [OF wf, of "p @ qs" "[x]"] c snoc by simp
  have "lookup t (p @ (qs @ [x])) \<noteq> None" using c snoc by (simp add: canon_def)
  then have "name_ok x" using wf_name [OF wf, of "p @ qs" x] by simp
  then have last: "walk n t (p @ qs) [x] = Inr (True, p @ q)"
    using c snoc by (auto simp: canon_def walk_down split: option.splits inode.splits)
  have "walk n t p (qs @ [x]) = walk n t (p @ qs) [x]"
    using walk_dirs [OF wf d] .
  then show ?thesis using last snoc by simp
qed

lemma canon_path_canon: "wf_tree t \<Longrightarrow> canon t p \<Longrightarrow> canon_path t p = Inr p"
  using walk_canon [of t "[]" p] by (simp add: canon_path_def resolve_def)

lemma lookup_butlast_dir:
  assumes "wf_tree t" "lookup t p = Some Dir"
  shows "lookup t (butlast p) = Some Dir"
  using assms by (cases p rule: rev_cases) (auto dest: wf_parent_dir)

text \<open>What resolution returns is canonical, or the missing child of a directory.\<close>

lemma walk_found_canon:
  "\<lbrakk>wf_tree t; walk n t cur cs = Inr (True, q); lookup t cur = Some Dir\<rbrakk> \<Longrightarrow> canon t q"
proof (induction n t cur cs arbitrary: q rule: walk.induct)
  case (1 n t cur)
  then show ?case by (simp add: canon_dir)
next
  case (2 n t cur c cs)
  consider (skip) "c = [] \<or> c = ''.''" | (up) "c = ''..''" | (down) "name_ok c"
    by (auto simp: name_ok_def)
  then show ?case
  proof cases
    case skip
    then have "walk n t cur (c # cs) = walk n t cur cs" by (simp add: walk.simps(2))
    with 2(1) [OF skip] 2(5-7) show ?thesis by simp
  next
    case up
    then have "walk n t cur (c # cs) = walk n t (butlast cur) cs" by (simp add: walk.simps(2))
    with 2(2) [OF _ up] 2(5-7) up show ?thesis by (simp add: lookup_butlast_dir)
  next
    case down
    show ?thesis
    proof (cases "lookup t (cur @ [c])")
      case None
      then show ?thesis using 2(6) down by (simp add: walk_down split: if_splits)
    next
      case (Some i)
      then show ?thesis
      proof (cases i)
        case (Reg d)
        then show ?thesis using 2(6) down Some
          by (auto simp: walk_down canon_def split: if_splits)
      next
        case Dir
        have "walk n t cur (c # cs) = walk n t (cur @ [c]) cs"
          using down Some Dir by (simp add: walk_down)
        with 2(3) [OF _ _ Some Dir] 2(5-7) down Some Dir show ?thesis by (simp add: name_ok_def)
      next
        case (Link s)
        then obtain m where n: "n = Suc m" and
          w: "walk n t cur (c # cs) = walk m t (if starts_with s ''/'' then [] else cur)
                (split_on path_sep s @ cs)"
          using 2(6) down Some by (cases n) (simp_all add: walk_down)
        show ?thesis
          using 2(4) [OF _ _ Some Link n] 2(5-7) down w by (simp add: name_ok_def)
      qed
    qed
  qed
qed

lemma walk_missing:
  "\<lbrakk>wf_tree t; walk n t cur cs = Inr (False, q); lookup t cur = Some Dir\<rbrakk>
   \<Longrightarrow> q \<noteq> [] \<and> name_ok (last q) \<and> lookup t (butlast q) = Some Dir \<and> lookup t q = None"
proof (induction n t cur cs arbitrary: q rule: walk.induct)
  case (1 n t cur)
  then show ?case by simp
next
  case (2 n t cur c cs)
  consider (skip) "c = [] \<or> c = ''.''" | (up) "c = ''..''" | (down) "name_ok c"
    by (auto simp: name_ok_def)
  then show ?case
  proof cases
    case skip
    then have "walk n t cur (c # cs) = walk n t cur cs" by (simp add: walk.simps(2))
    with 2(1) [OF skip] 2(5-7) show ?thesis by simp
  next
    case up
    then have "walk n t cur (c # cs) = walk n t (butlast cur) cs" by (simp add: walk.simps(2))
    with 2(2) [OF _ up] 2(5-7) up show ?thesis by (simp add: lookup_butlast_dir)
  next
    case down
    show ?thesis
    proof (cases "lookup t (cur @ [c])")
      case None
      then show ?thesis using 2(6,7) down by (auto simp: walk_down split: if_splits)
    next
      case (Some i)
      then show ?thesis
      proof (cases i)
        case (Reg d)
        then show ?thesis using 2(6) down Some
          by (auto simp: walk_down split: if_splits)
      next
        case Dir
        have "walk n t cur (c # cs) = walk n t (cur @ [c]) cs"
          using down Some Dir by (simp add: walk_down)
        with 2(3) [OF _ _ Some Dir] 2(5-7) down Some Dir show ?thesis by (simp add: name_ok_def)
      next
        case (Link s)
        then obtain m where n: "n = Suc m" and
          w: "walk n t cur (c # cs) = walk m t (if starts_with s ''/'' then [] else cur)
                (split_on path_sep s @ cs)"
          using 2(6) down Some by (cases n) (simp_all add: walk_down)
        show ?thesis
          using 2(4) [OF _ _ Some Link n] 2(5-7) down w by (simp add: name_ok_def)
      qed
    qed
  qed
qed

lemma canon_path_is_canon: "wf_tree t \<Longrightarrow> canon_path t p = Inr q \<Longrightarrow> canon t q"
  using walk_found_canon [of t max_symlinks "[]" p q]
  by (auto simp: canon_path_def resolve_def split: sum.splits prod.splits bool.splits)

text \<open>
  A path is \<open>linkfree\<close> when its names are proper and no entry along it is a symbolic link: it
  resolves to itself or not at all, whatever exists. Nothing the program does creates a link,
  so a link-free path stays link-free while a request works on it.
\<close>

definition linkfree :: "tree \<Rightarrow> path \<Rightarrow> bool" where
  "linkfree t p = ((\<forall>x \<in> set p. name_ok x) \<and>
     (\<forall>d s. is_prefix d p \<longrightarrow> lookup t d \<noteq> Some (Link s)))"

lemma linkfree_prefix: "linkfree t (p @ q) \<Longrightarrow> linkfree t p"
  unfolding linkfree_def by (metis UnCI append_assoc is_prefix_iff set_append)

lemma linkfree_name: "linkfree t (p @ [x]) \<Longrightarrow> name_ok x"
  by (simp add: linkfree_def)

lemma canon_linkfree:
  assumes wf: "wf_tree t" and c: "canon t p"
  shows "linkfree t p"
  unfolding linkfree_def
proof (intro conjI ballI allI impI)
  fix x assume "x \<in> set p"
  then show "name_ok x" using wf_names [OF wf] c by (auto simp: canon_def)
next
  fix d s assume "is_prefix d p"
  then obtain q where p: "p = d @ q" by (auto simp: is_prefix_iff)
  show "lookup t d \<noteq> Some (Link s)"
  proof (cases "q = []")
    case True
    then show ?thesis using p c by (simp add: canon_def)
  next
    case False
    then show ?thesis using canon_prefix_dir [OF wf, of d q] c p by simp
  qed
qed

text \<open>Below a directory that lacks the next component, every path is link-free.\<close>

lemma linkfree_missing:
  assumes wf: "wf_tree t" and d: "linkfree t p" and none: "lookup t (p @ [c]) = None"
    and ok: "\<And>x. x \<in> set (c # s) \<Longrightarrow> name_ok x"
  shows "linkfree t (p @ c # s)"
  unfolding linkfree_def
proof (intro conjI ballI allI impI)
  fix x assume "x \<in> set (p @ c # s)"
  then show "name_ok x" using d ok by (auto simp: linkfree_def)
next
  fix q l assume "is_prefix q (p @ c # s)"
  then consider "is_prefix q p" | "is_prefix (p @ [c]) q"
    by (auto simp: is_prefix_iff append_eq_append_conv2 append_eq_Cons_conv Cons_eq_append_conv)
  then show "lookup t q \<noteq> Some (Link l)"
  proof cases
    case 1
    then show ?thesis using d by (simp add: linkfree_def)
  next
    case 2
    then show ?thesis using wf_below_missing [OF wf none] by (auto simp: is_prefix_iff)
  qed
qed

lemma linkfree_walk:
  "linkfree t (cur @ cs) \<Longrightarrow> walk n t cur cs = Inr (b, q) \<Longrightarrow> q = cur @ cs"
proof (induction cs arbitrary: cur)
  case Nil
  then show ?case by simp
next
  case (Cons c cs)
  have ok: "name_ok c" using Cons.prems(1) by (simp add: linkfree_def)
  have "lookup t (cur @ [c]) \<noteq> Some (Link s)" for s
    using Cons.prems(1) is_prefix_append [of "cur @ [c]" cs] by (simp add: linkfree_def)
  then show ?case
    using Cons.IH [of "cur @ [c]"] Cons.prems ok
    by (auto simp: walk_down split: option.splits inode.splits if_splits)
qed

lemma linkfree_resolve: "linkfree t p \<Longrightarrow> resolve t p = Inr (b, q) \<Longrightarrow> q = p"
  using linkfree_walk [of t "[]" p] by (simp add: resolve_def)

lemma linkfree_canon_path: "linkfree t p \<Longrightarrow> canon_path t p = Inr q \<Longrightarrow> q = p"
  by (auto simp: canon_path_def dest: linkfree_resolve split: sum.splits prod.splits bool.splits)

lemma linkfree_butlast: "linkfree t p \<Longrightarrow> linkfree t (butlast p)"
  by (cases p rule: rev_cases) (auto dest: linkfree_prefix)

lemma linkfree_last: "linkfree t p \<Longrightarrow> p \<noteq> [] \<Longrightarrow> name_ok (last p)"
  by (simp add: linkfree_def)

lemma linkfree_resolve_parent:
  assumes "linkfree t p" "resolve_parent t p = Inr q"
  shows "q = p \<and> (p \<noteq> [] \<longrightarrow> lookup t (butlast p) = Some Dir)"
proof (cases "p = []")
  case True
  then show ?thesis using assms by (simp add: resolve_parent_def canon_path_def resolve_def)
next
  case False
  have "name_ok (last p)" using assms(1) False by (simp add: linkfree_def)
  then show ?thesis
    using assms(2) linkfree_canon_path [OF linkfree_butlast [OF assms(1)]] False
    by (auto simp: resolve_parent_def name_ok_def split: sum.splits if_splits)
qed

lemma linkfree_put:
  assumes "linkfree t p" "q \<noteq> []" "\<And>s. i \<noteq> Link s"
  shows "linkfree (put q i t) p"
  using assms by (auto simp: linkfree_def lookup_put)

lemma linkfree_remove: "linkfree t p \<Longrightarrow> linkfree (remove_subtree q t) p"
  by (simp add: linkfree_def lookup_remove_subtree)

section \<open>Preservation of well-formedness\<close>

lemma wf_put:
  assumes "wf_tree t" "p \<noteq> []" "name_ok (last p)" "lookup t (butlast p) = Some Dir"
    and "lookup t p = Some Dir \<longrightarrow> i = Dir"
  shows "wf_tree (put p i t)"
proof -
  have "butlast p \<noteq> p" using assms(2) by (cases p rule: rev_cases) auto
  moreover have "lookup t (butlast q) = Some Dir \<and> name_ok (last q)"
    if "q \<noteq> []" "lookup t q \<noteq> None" for q
    using assms(1) that by (auto simp: wf_tree_def)
  ultimately show ?thesis
    using assms by (auto simp: wf_tree_def lookup_put split: if_splits)
qed

lemma wf_remove_subtree:
  assumes "wf_tree t"
  shows "wf_tree (remove_subtree p t)"
  unfolding wf_tree_def
proof (intro allI impI)
  fix q assume q: "q \<noteq> [] \<and> lookup (remove_subtree p t) q \<noteq> None"
  then have np: "\<not> is_prefix p q" and ex: "lookup t q \<noteq> None"
    by (auto simp: lookup_remove_subtree split: if_splits)
  have "\<not> is_prefix p (butlast q)"
    using np q is_prefix_snoc [of p "butlast q" "last q"] by auto
  then show "name_ok (last q) \<and> lookup (remove_subtree p t) (butlast q) = Some Dir"
    using assms ex q by (auto simp: wf_tree_def lookup_remove_subtree)
qed

lemma wf_move_subtree:
  assumes wf: "wf_tree t" and p: "p \<noteq> []" and q: "q \<noteq> []" "name_ok (last q)"
    and d: "lookup t (butlast q) = Some Dir" and none: "lookup t q = None"
    and np: "\<not> is_prefix p q" and src: "lookup t p \<noteq> None"
  shows "wf_tree (move_subtree p q t)"
  unfolding wf_tree_def
proof (intro allI impI)
  fix r assume r: "r \<noteq> [] \<and> lookup (move_subtree p q t) r \<noteq> None"
  have dest: "lookup (move_subtree p q t) (q @ s) = lookup t (p @ s)" for s
  proof (rule lookup_move_dest [OF _ p q(1)])
    fix r' assume "is_prefix q r'"
    then have "lookup t r' = None" "r' \<noteq> []"
      using wf_below_missing [OF wf none] q by (auto simp: is_prefix_iff)
    then show "map_of t r' = None" by (simp add: lookup_def)
  qed
  have nb: "\<not> is_prefix p (butlast q)"
    using np q(1) is_prefix_snoc [of p "butlast q" "last q"] by auto
  have nq: "\<not> is_prefix q (butlast q)"
    using q(1) is_prefix_length [of q "butlast q"] by (cases q) auto
  show "name_ok (last r) \<and> lookup (move_subtree p q t) (butlast r) = Some Dir"
  proof (cases "is_prefix q r")
    case True
    then obtain s where s: "r = q @ s" by (auto simp: is_prefix_iff)
    show ?thesis
    proof (cases s rule: rev_cases)
      case Nil
      then show ?thesis using s q d lookup_move_other [OF nb nq] by simp
    next
      case (snoc s' x)
      then have "lookup t ((p @ s') @ [x]) \<noteq> None" using r s dest [of s] by simp
      then have "name_ok x" "lookup t (p @ s') = Some Dir"
        using wf_name [OF wf] wf_parent_dir [OF wf] by blast+
      then show ?thesis using s snoc dest [of s'] by (simp add: butlast_append)
    qed
  next
    case False
    then have rp: "\<not> is_prefix p r"
      using r lookup_move_source [of p r q t] by auto
    then have ex: "lookup t r \<noteq> None"
      using r False lookup_move_other [of p r q t] by simp
    then have "name_ok (last r)" "lookup t (butlast r) = Some Dir"
      using wf r by (auto simp: wf_tree_def)
    moreover have "\<not> is_prefix p (butlast r)" "\<not> is_prefix q (butlast r)"
      using rp False r is_prefix_snoc [of p "butlast r" "last r"]
        is_prefix_snoc [of q "butlast r" "last r"] by auto
    ultimately show ?thesis by (simp add: lookup_move_other)
  qed
qed

lemma mkdirs_props:
  "\<lbrakk>wf_tree t; lookup t cur = Some Dir; mkdirs t cur cs = Inr t'\<rbrakk> \<Longrightarrow> wf_tree t'"
proof (induction t cur cs arbitrary: t' rule: mkdirs.induct)
  case (1 t cur)
  then show ?case by simp
next
  case (2 t cur c cs)
  show ?case
  proof (cases "canon_path t (cur @ [c])")
    case (Inr q)
    then show ?thesis using 2 by (auto split: option.splits inode.splits)
  next
    case (Inl e)
    have step: "e = IoNotFound" "lookup t (cur @ [c]) = None"
      "mkdirs (put (cur @ [c]) Dir t) (cur @ [c]) cs = Inr t'"
      using 2(5) Inl by (auto split: io_error.splits if_splits)
    have "walk max_symlinks t [] (cur @ [c]) = walk max_symlinks t cur [c]"
      using walk_dirs [OF 2(3), of "[]" cur max_symlinks "[c]"] 2(4) by simp
    then have "name_ok c"
      using Inl step(1,2) 2(3,4) lookup_butlast_dir [OF 2(3,4)]
      by (auto simp: canon_path_def resolve_def name_ok_def walk.simps(2) split: if_splits)
    then have "wf_tree (put (cur @ [c]) Dir t)"
      using 2(3,4) step(2) by (intro wf_put) auto
    moreover have "lookup (put (cur @ [c]) Dir t) (cur @ [c]) = Some Dir"
      by (simp add: lookup_put)
    ultimately show ?thesis
      using 2(1) Inl step by blast
  qed
qed

text \<open>On a link-free path \<open>create_dir_all\<close> makes exactly the missing directories of the path.\<close>

lemma mkdirs_lookup:
  "\<lbrakk>linkfree t (cur @ cs); lookup t cur = Some Dir; mkdirs t cur cs = Inr t'\<rbrakk>
   \<Longrightarrow> lookup t' q = (if is_prefix cur q \<and> is_prefix q (cur @ cs) then Some Dir else lookup t q)"
proof (induction t cur cs arbitrary: t' rule: mkdirs.induct)
  case (1 t cur)
  then show ?case by (auto dest: is_prefix_antisym)
next
  case (2 t cur c cs)
  have pre: "linkfree t (cur @ [c])"
    using linkfree_prefix [of t "cur @ [c]" cs] 2(3) by simp
  have rest: "linkfree t ((cur @ [c]) @ cs)" using 2(3) by simp
  have split: "is_prefix cur q \<and> is_prefix q (cur @ c # cs) \<longleftrightarrow>
      q = cur \<or> (is_prefix (cur @ [c]) q \<and> is_prefix q (cur @ c # cs))" for q
    by (auto simp: is_prefix_iff append_eq_append_conv2 append_eq_Cons_conv Cons_eq_append_conv)
  show ?case
  proof (cases "canon_path t (cur @ [c])")
    case (Inr r)
    then have r: "r = cur @ [c]" using linkfree_canon_path [OF pre] by blast
    have dir: "lookup t r = Some Dir" and m: "mkdirs t r cs = Inr t'"
      using 2(5) Inr by (auto split: option.splits inode.splits)
    show ?thesis
      using 2(2) [OF Inr dir refl _ dir m] rest r split [of q] 2(4) by auto
  next
    case (Inl e)
    have step: "e = IoNotFound" "lookup t (cur @ [c]) = None"
      "mkdirs (put (cur @ [c]) Dir t) (cur @ [c]) cs = Inr t'"
      using 2(5) Inl by (auto split: io_error.splits if_splits)
    have "linkfree (put (cur @ [c]) Dir t) ((cur @ [c]) @ cs)"
      using rest by (intro linkfree_put) auto
    then have "lookup t' q = (if is_prefix (cur @ [c]) q \<and> is_prefix q ((cur @ [c]) @ cs)
        then Some Dir else lookup (put (cur @ [c]) Dir t) q)"
      using 2(1) [OF Inl step(1,2) _ _ step(3)] by (simp add: lookup_put)
    moreover have "is_prefix (cur @ [c]) (cur @ c # cs)"
      using is_prefix_append [of "cur @ [c]" cs] by simp
    ultimately show ?thesis using split [of q] 2(4) by (auto simp: lookup_put)
  qed
qed

lemma mkdirs_keeps: "mkdirs t cur cs = Inr t' \<Longrightarrow> lookup t q \<noteq> None \<Longrightarrow> lookup t' q = lookup t q"
proof (induction t cur cs arbitrary: t' rule: mkdirs.induct)
  case (1 t cur)
  then show ?case by simp
next
  case (2 t cur c cs)
  show ?case
  proof (cases "canon_path t (cur @ [c])")
    case (Inr r)
    then show ?thesis using 2(2) [OF Inr _ refl] 2(3,4) by (auto split: option.splits inode.splits)
  next
    case (Inl e)
    have step: "e = IoNotFound" "lookup t (cur @ [c]) = None"
      "mkdirs (put (cur @ [c]) Dir t) (cur @ [c]) cs = Inr t'"
      using 2(3) Inl by (auto split: io_error.splits if_splits)
    then have "q \<noteq> cur @ [c]" using 2(4) by auto
    then show ?thesis using 2(1) [OF Inl step] 2(4) by (simp add: lookup_put)
  qed
qed

section \<open>Trees that only grow\<close>

text \<open>
  \<open>grows t t'\<close>: every entry of \<open>t\<close> is still there, at most a file's content is different. What a
  path resolved to before, it still resolves to.
\<close>

definition grows :: "tree \<Rightarrow> tree \<Rightarrow> bool" where
  "grows t t' = (\<forall>q i. lookup t q = Some i \<longrightarrow>
     (lookup t' q = Some i \<or> (\<exists>d d'. i = Reg d \<and> lookup t' q = Some (Reg d'))))"

lemma grows_walk: "grows t t' \<Longrightarrow> walk n t cur cs = Inr (True, q) \<Longrightarrow> walk n t' cur cs = Inr (True, q)"
proof (induction n t cur cs arbitrary: q rule: walk.induct)
  case (1 n t cur)
  then show ?case by simp
next
  case (2 n t cur c cs)
  consider (skip) "c = [] \<or> c = ''.''" | (up) "c = ''..''" | (down) "name_ok c"
    by (auto simp: name_ok_def)
  then show ?case
  proof cases
    case skip
    then show ?thesis using 2(1) [OF skip 2(5)] 2(6) by (simp add: walk.simps(2))
  next
    case up
    then show ?thesis using 2(2) [OF _ up 2(5)] 2(6) by (simp add: walk.simps(2))
  next
    case down
    then have n: "\<not> (c = [] \<or> c = ''.'')" "c \<noteq> ''..''" by (auto simp: name_ok_def)
    obtain i where i: "lookup t (cur @ [c]) = Some i"
      using 2(6) down by (cases "lookup t (cur @ [c])") (auto simp: walk_down split: if_splits)
    show ?thesis
    proof (cases i)
      case (Reg d)
      then obtain d' where "lookup t' (cur @ [c]) = Some (Reg d')"
        using 2(5) i unfolding grows_def by blast
      then show ?thesis using 2(6) down i Reg by (simp add: walk_down split: if_splits)
    next
      case Dir
      then have "lookup t' (cur @ [c]) = Some Dir" using 2(5) i unfolding grows_def by blast
      then show ?thesis using 2(3) [OF n i Dir 2(5)] 2(6) down i Dir by (simp add: walk_down)
    next
      case (Link s)
      then have t': "lookup t' (cur @ [c]) = Some (Link s)" using 2(5) i unfolding grows_def by blast
      obtain m where m: "n = Suc m" using 2(6) down i Link by (cases n) (simp_all add: walk_down)
      then have "walk m t (if starts_with s ''/'' then [] else cur) (split_on path_sep s @ cs) = Inr (True, q)"
        using 2(6) down i Link by (simp add: walk_down)
      then show ?thesis using 2(4) [OF n i Link m 2(5)] down t' m by (simp add: walk_down)
    qed
  qed
qed

lemma grows_canon_path: "grows t t' \<Longrightarrow> canon_path t p = Inr q \<Longrightarrow> canon_path t' p = Inr q"
  using grows_walk [of t t' max_symlinks "[]" p q]
  by (auto simp: canon_path_def resolve_def split: sum.splits prod.splits bool.splits)

lemma grows_exists: "grows t t' \<Longrightarrow> lookup t q \<noteq> None \<Longrightarrow> lookup t' q \<noteq> None"
  by (fastforce simp: grows_def)

lemma grows_dir: "grows t t' \<Longrightarrow> lookup t q = Some Dir \<Longrightarrow> lookup t' q = Some Dir"
  by (fastforce simp: grows_def)

lemma grows_canon: "grows t t' \<Longrightarrow> canon t q \<Longrightarrow> canon t' q"
  by (cases "lookup t q") (fastforce simp: grows_def canon_def)+

lemma grows_trans: "grows t u \<Longrightarrow> grows u v \<Longrightarrow> grows t v"
  unfolding grows_def by (metis inode.inject(1))

section \<open>Confinement\<close>

text \<open>
  \<open>confined t0 r P w\<close>: relative to the tree \<open>t0\<close> only entries under the directory \<open>r\<close> have
  changed, and the paths in \<open>P\<close> are link-free. \<open>within t0 r P\<close> is its preservation, the
  relation in which the isolation theorems are proved call by call.
\<close>

definition confined :: "tree \<Rightarrow> path \<Rightarrow> path set \<Rightarrow> 'z os_scheme \<Rightarrow> bool" where
  "confined t0 r P w = (wf_tree (tree w) \<and> (\<forall>p \<in> P. linkfree (tree w) p) \<and>
     lookup (tree w) (butlast r) = Some Dir \<and>
     (\<forall>q. \<not> is_prefix r q \<longrightarrow> lookup (tree w) q = lookup t0 q))"

definition within :: "tree \<Rightarrow> path \<Rightarrow> path set \<Rightarrow> 'z os_scheme \<Rightarrow> 'z os_scheme \<Rightarrow> bool" where
  "within t0 r P w w' = (confined t0 r P w \<longrightarrow> confined t0 r P w')"

interpretation within: frame_rel "within t0 r P"
  by unfold_locales (auto simp: within_def)

lemma confined_start:
  "\<lbrakk>wf_tree (tree w); lookup (tree w) r \<noteq> None; \<And>p. p \<in> P \<Longrightarrow> linkfree (tree w) p\<rbrakk>
   \<Longrightarrow> confined (tree w) r P w"
  by (cases "r = []") (auto simp: confined_def wf_tree_def)

lemma butlast_above: "r \<noteq> [] \<Longrightarrow> is_prefix r p \<Longrightarrow> \<not> is_prefix p (butlast r)"
  by (cases r rule: rev_cases) (auto dest!: is_prefix_length)

lemma confined_tree: "tree w' = tree w \<Longrightarrow> confined t0 r P w \<Longrightarrow> confined t0 r P w'"
  by (simp add: confined_def)

lemma keeps_within_same: "(\<And>w. tree (snd (m w)) = tree w) \<Longrightarrow> keeps (within t0 r P) m"
  by (auto simp: keeps_def within_def intro: confined_tree)

lemma keeps_within_syscall:
  assumes "\<And>(w :: 'z os_scheme) x t. \<lbrakk>confined t0 r P w; f (tree w) = Inr (x, t)\<rbrakk>
    \<Longrightarrow> confined t0 r P (w\<lparr>tree := t\<rparr>)"
  shows "keeps (within t0 r P) (syscall f :: ('z, 'a) io)"
  unfolding keeps_def within_def
proof (intro allI impI)
  fix w :: "'z os_scheme" assume c: "confined t0 r P w"
  show "confined t0 r P (snd (syscall f w))"
  proof (cases "faults w (ticks w)")
    case (Some m)
    then show ?thesis by (auto simp: syscall_def tick_def intro: confined_tree [OF _ c])
  next
    case None
    show ?thesis
    proof (cases "f (tree w)")
      case (Inl e)
      with None show ?thesis by (auto simp: syscall_def tick_def intro: confined_tree [OF _ c])
    next
      case (Inr y)
      then obtain x t where f: "f (tree w) = Inr (x, t)" by (cases y) auto
      have "snd (syscall f w) = tick (w\<lparr>tree := t\<rparr>)" using None f by (simp add: syscall_def)
      then show ?thesis
        using confined_tree [OF _ assms [OF c f], of "tick (w\<lparr>tree := t\<rparr>)"]
        by (simp add: tick_def)
    qed
  qed
qed

lemma tree_query [simp]: "tree (snd (query f w)) = tree w"
  by (auto simp: query_def syscall_def tick_def split: option.splits sum.splits)

lemma keeps_query: "keeps (within t0 r P) (query f)"
  by (rule keeps_within_same) simp

lemma confined_put:
  assumes c: "confined t0 r P w" and p: "is_prefix r p" "p \<noteq> []" "name_ok (last p)"
    and d: "lookup (tree w) (butlast p) = Some Dir" and i: "\<And>s. i \<noteq> Link s"
    and dir: "lookup (tree w) p \<noteq> Some Dir"
  shows "confined t0 r P (w\<lparr>tree := put p i (tree w)\<rparr>)"
proof -
  have "p \<noteq> butlast r"
    using butlast_above [of r p] p by (cases "r = []") auto
  then show ?thesis
    using c p d i dir wf_put [of "tree w" p i]
    by (auto simp: confined_def lookup_put intro: linkfree_put)
qed

lemma confined_remove:
  assumes "confined t0 r P w" "is_prefix r p" "p \<noteq> []"
  shows "confined t0 r P (w\<lparr>tree := remove_subtree p (tree w)\<rparr>)"
  using assms wf_remove_subtree [of "tree w" p] butlast_above [of r p]
  by (cases "r = []")
     (auto simp: confined_def lookup_remove_subtree linkfree_remove dest: is_prefix_trans)

lemma within_bind:
  fixes m :: "('z os_scheme, 'e, 'a) act"
  assumes "keeps (within t0 r P) m"
    and "\<And>x w w'. confined t0 r P w \<Longrightarrow> m w = (Inr x, w') \<Longrightarrow> keeps (within t0 r P) (k x)"
  shows "keeps (within t0 r P) (bind m k)"
  unfolding keeps_def within_def
proof (intro allI impI)
  fix w :: "'z os_scheme" assume c: "confined t0 r P w"
  obtain y w1 where m: "m w = (y, w1)" by fastforce
  have c1: "confined t0 r P w1" using assms(1) c m by (auto simp: within_def dest: keepsD)
  show "confined t0 r P (snd (bind m k w))"
  proof (cases y)
    case (Inl e)
    then show ?thesis using m c1 by (simp add: bind_def)
  next
    case (Inr x)
    then have "keeps (within t0 r P) (k x)" using assms(2) [OF c] m by simp
    then show ?thesis using m Inr c1 by (simp add: bind_def keeps_def within_def)
  qed
qed

text \<open>A path a request may write: link-free and under the root.\<close>

definition below :: "path \<Rightarrow> path set \<Rightarrow> path \<Rightarrow> bool" where
  "below r P p = (p \<in> P \<and> is_prefix r p)"

lemma confined_linkfree: "confined t0 r P w \<Longrightarrow> below r P p \<Longrightarrow> linkfree (tree w) p"
  by (simp add: confined_def below_def)

lemma confined_put_below:
  assumes c: "confined t0 r P w" and b: "below r P p"
    and d: "lookup (tree w) (butlast p) = Some Dir" and dir: "lookup (tree w) p \<noteq> Some Dir"
  shows "confined t0 r P (w\<lparr>tree := put p (Reg d') (tree w)\<rparr>)"
proof -
  have "p \<noteq> []" using dir by auto
  then show ?thesis
    using confined_put [OF c _ _ _ d _ dir, of "Reg d'"] b
      linkfree_last [OF confined_linkfree [OF c b]]
    by (simp add: below_def)
qed

lemma create_target_linkfree:
  assumes wf: "wf_tree t" and l: "linkfree t p" and c: "create_target t p = Inr q"
  shows "q = p \<and> lookup t (butlast p) = Some Dir \<and> lookup t p \<noteq> Some Dir"
proof (cases "resolve t p")
  case (Inl e)
  then show ?thesis using c by (simp add: create_target_def)
next
  case (Inr y)
  then obtain b where y: "resolve t p = Inr (b, p)"
    using linkfree_resolve [OF l] by (cases y) auto
  show ?thesis
  proof (cases b)
    case True
    then have "q = p" and ex: "lookup t p \<noteq> None" "lookup t p \<noteq> Some Dir"
      using c y by (auto simp: create_target_def split: option.splits inode.splits)
    moreover have "p \<noteq> []" using ex by auto
    ultimately show ?thesis using wf by (auto simp: wf_tree_def)
  next
    case False
    then have "q = p" "lookup t p = None" "lookup t (butlast p) = Some Dir"
      using c y walk_missing [OF wf, of max_symlinks "[]" p p]
      by (auto simp: create_target_def resolve_def)
    then show ?thesis by simp
  qed
qed

lemma keeps_create:
  assumes b: "below r P p"
  shows "keeps (within t0 r P) (fs_create p :: ('z, path) io)"
  unfolding fs_create_def
proof (rule keeps_within_syscall)
  fix w :: "'z os_scheme" and x t
  assume c: "confined t0 r P w" and f: "(case create_target (tree w) p of Inl e \<Rightarrow> Inl e
      | Inr q \<Rightarrow> Inr (q, put q (Reg []) (tree w))) = Inr (x, t)"
  then obtain q where q: "create_target (tree w) p = Inr q" "t = put q (Reg []) (tree w)"
    by (auto split: sum.splits)
  then show "confined t0 r P (w\<lparr>tree := t\<rparr>)"
    using create_target_linkfree [OF _ confined_linkfree [OF c b] q(1)] c
      confined_put_below [OF c b] by (auto simp: confined_def)
qed

lemma create_handle:
  assumes "wf_tree (tree w)" "linkfree (tree w) p" "fs_create p w = (Inr h, w')"
  shows "h = p"
  using assms create_target_linkfree [OF assms(1,2)]
  by (auto simp: fs_create_def syscall_def split: option.splits sum.splits)

lemma keeps_create_new:
  assumes b: "below r P p"
  shows "keeps (within t0 r P) (fs_create_new p :: ('z, path) io)"
  unfolding fs_create_new_def
proof (rule keeps_within_syscall)
  fix w :: "'z os_scheme" and x t
  assume c: "confined t0 r P w" and f: "(case resolve_parent (tree w) p of Inl e \<Rightarrow> Inl e
      | Inr q \<Rightarrow> (case lookup (tree w) q of Some i \<Rightarrow> Inl IoAlreadyExists
                | None \<Rightarrow> Inr (q, put q (Reg []) (tree w)))) = Inr (x, t)"
  then obtain q where q: "resolve_parent (tree w) p = Inr q" "t = put q (Reg []) (tree w)"
    "lookup (tree w) q = None"
    by (auto split: sum.splits option.splits)
  then show "confined t0 r P (w\<lparr>tree := t\<rparr>)"
    using linkfree_resolve_parent [OF confined_linkfree [OF c b] q(1)]
      confined_put_below [OF c b] by (cases "p = []") auto
qed

lemma create_new_handle:
  assumes "linkfree (tree w) p" "fs_create_new p w = (Inr h, w')"
  shows "h = p"
  using assms linkfree_resolve_parent [OF assms(1)]
  by (auto simp: fs_create_new_def syscall_def split: option.splits sum.splits)

lemma keeps_write_all:
  assumes b: "below r P p"
  shows "keeps (within t0 r P) (fs_write_all p bs :: ('z, unit) io)"
  unfolding fs_write_all_def mutate_def
proof (rule keeps_within_syscall)
  fix w :: "'z os_scheme" and x t
  assume c: "confined t0 r P w" and f: "(case Inr (append_to p bs (tree w)) of Inl e \<Rightarrow> Inl e
      | Inr t' \<Rightarrow> Inr ((), t')) = Inr (x, t)"
  then have t: "t = append_to p bs (tree w)" by simp
  show "confined t0 r P (w\<lparr>tree := t\<rparr>)"
  proof (cases "\<exists>d. lookup (tree w) p = Some (Reg d)")
    case True
    then obtain d where d: "lookup (tree w) p = Some (Reg d)" by blast
    then have "lookup (tree w) (butlast p) = Some Dir"
      using c by (cases "p = []") (auto simp: confined_def wf_tree_def)
    then show ?thesis
      using confined_put_below [OF c b, of "d @ bs"] d t by (simp add: append_to_def)
  next
    case False
    then have "t = tree w" using t by (auto simp: append_to_def split: option.splits inode.splits)
    then show ?thesis using c by simp
  qed
qed

lemma keeps_fs_write:
  assumes b: "below r P p"
  shows "keeps (within t0 r P) (fs_write p bs :: ('z, unit) io)"
  unfolding fs_write_def
proof (rule within_bind [OF keeps_create [OF b]])
  fix x and w w' :: "'z os_scheme"
  assume c: "confined t0 r P w" and m: "fs_create p w = (Inr x, w')"
  then have "x = p" using create_handle [OF _ confined_linkfree [OF c b] m]
    by (simp add: confined_def)
  then show "keeps (within t0 r P) (fs_write_all x bs)" using keeps_write_all [OF b] by simp
qed

lemma lstat_linkfree:
  assumes "linkfree t p" "lstat_inode t p = Inr (q, i)"
  shows "q = p \<and> lookup t p = Some i"
  using assms linkfree_resolve_parent [OF assms(1)]
  by (auto simp: lstat_inode_def split: sum.splits option.splits)

lemma stat_linkfree:
  assumes "linkfree t p" "stat_inode t p = Inr (q, i)"
  shows "q = p \<and> lookup t p = Some i"
  using assms linkfree_canon_path [OF assms(1)]
  by (auto simp: stat_inode_def split: sum.splits option.splits)

lemma keeps_remove:
  assumes b: "below r P p"
    and f: "\<And>t t'. f t = Inr t' \<Longrightarrow> \<exists>q i. lstat_inode t p = Inr (q, i) \<and> t' = remove_subtree q t \<and> (i = Dir \<longrightarrow> q \<noteq> [])"
  shows "keeps (within t0 r P) (mutate f :: ('z, unit) io)"
  unfolding mutate_def
proof (rule keeps_within_syscall)
  fix w :: "'z os_scheme" and x t
  assume c: "confined t0 r P w" and s: "(case f (tree w) of Inl e \<Rightarrow> Inl e
      | Inr t' \<Rightarrow> Inr ((), t')) = Inr (x, t)"
  then obtain q i where q: "lstat_inode (tree w) p = Inr (q, i)" "t = remove_subtree q (tree w)"
    "i = Dir \<longrightarrow> q \<noteq> []"
    using f [of "tree w" t] by (auto split: sum.splits)
  then have "q = p" "p \<noteq> []" using lstat_linkfree [OF confined_linkfree [OF c b] q(1)] by auto
  then show "confined t0 r P (w\<lparr>tree := t\<rparr>)"
    using confined_remove [OF c, of p] b q by (simp add: below_def)
qed

lemma keeps_remove_file:
  assumes b: "below r P p"
  shows "keeps (within t0 r P) (fs_remove_file p :: ('z, unit) io)"
  unfolding fs_remove_file_def
  by (rule keeps_remove [OF b]) (auto split: sum.splits inode.splits)

lemma keeps_remove_dir_all:
  assumes b: "below r P p"
  shows "keeps (within t0 r P) (fs_remove_dir_all p :: ('z, unit) io)"
  unfolding fs_remove_dir_all_def
  by (rule keeps_remove [OF b]) (auto split: sum.splits inode.splits if_splits)

lemma keeps_create_dir_all:
  assumes p: "p \<in> P" "is_prefix r p \<or> is_prefix p r"
  shows "keeps (within t0 r P) (fs_create_dir_all p :: ('z, unit) io)"
  unfolding fs_create_dir_all_def mutate_def
proof (rule keeps_within_syscall)
  fix w :: "'z os_scheme" and x t
  assume c: "confined t0 r P w" and s: "(case mkdirs (tree w) [] p of Inl e \<Rightarrow> Inl e
      | Inr t' \<Rightarrow> Inr ((), t')) = Inr (x, t)"
  then have m: "mkdirs (tree w) [] p = Inr t" by (auto split: sum.splits)
  have l: "linkfree (tree w) ([] @ p)" and wf: "wf_tree (tree w)"
    and r: "lookup (tree w) (butlast r) = Some Dir" using c p by (auto simp: confined_def)
  have lk: "lookup t q = (if is_prefix q p then Some Dir else lookup (tree w) q)" for q
    using mkdirs_lookup [OF l _ m, of q] by (simp add: is_prefix_iff)
  have old: "lookup (tree w) q = Some Dir" if "is_prefix q p" "\<not> is_prefix r q" for q
  proof -
    have "is_prefix q r \<and> q \<noteq> r"
      using that p(2) is_prefix_comparable [of q p r] is_prefix_trans [of q p r] by auto
    then obtain s where s: "r = q @ s" "s \<noteq> []" by (auto simp: is_prefix_iff)
    then have "butlast r = q @ butlast s" by (simp add: butlast_append)
    then show ?thesis using wf_prefix_dir [OF wf, of q "butlast s"] r by (cases "butlast s = []") auto
  qed
  show "confined t0 r P (w\<lparr>tree := t\<rparr>)"
    using c mkdirs_props [OF wf _ m] r lk old by (auto simp: confined_def linkfree_def)
qed

text \<open>
  A rename inside the root stays inside it. It may move links, so the link-freeness of other
  paths is only kept when it fails or the moved entry is a file.
\<close>

lemma confined_move:
  assumes c: "confined t0 r P w" and p: "is_prefix r p" "p \<noteq> []" and q: "is_prefix r q" "q \<noteq> []"
    and src: "lookup (tree w) p \<noteq> None" and dst: "lookup (tree w) q = None"
    and d: "lookup (tree w) (butlast q) = Some Dir" and n: "name_ok (last q)"
    and np: "\<not> is_prefix p q"
    and keep: "P' \<noteq> {} \<Longrightarrow> P' \<subseteq> P \<and> (\<exists>b. lookup (tree w) p = Some (Reg b))"
  shows "confined t0 r P' (w\<lparr>tree := move_subtree p q (tree w)\<rparr>)"
proof -
  note ne = p(2) q(2)
  have wf: "wf_tree (tree w)" and r: "lookup (tree w) (butlast r) = Some Dir" using c by (auto simp: confined_def)
  have none: "map_of (tree w) x = None" if "is_prefix q x" for x
    using wf_below_missing [OF wf dst] that ne by (auto simp: is_prefix_iff lookup_def)
  have same: "lookup (move_subtree p q (tree w)) x = lookup (tree w) x" if "\<not> is_prefix r x" for x
  proof (rule lookup_move_other)
    show "\<not> is_prefix p x" "\<not> is_prefix q x"
      using that p q by (auto dest: is_prefix_trans)
  qed
  moreover have "lookup (move_subtree p q (tree w)) (butlast r) = Some Dir"
    using same [of "butlast r"] butlast_above [of r r] r by (cases "r = []") auto
  moreover have "linkfree (move_subtree p q (tree w)) a" if a: "a \<in> P'" for a
  proof -
    have l: "linkfree (tree w) a" and reg: "\<exists>b. lookup (tree w) p = Some (Reg b)"
      using keep a c by (auto simp: confined_def)
    have "lookup (move_subtree p q (tree w)) x \<noteq> Some (Link s)" if "is_prefix x a" for x s
    proof (cases "is_prefix q x")
      case True
      then obtain y where y: "x = q @ y" by (auto simp: is_prefix_iff)
      have "lookup (tree w) (p @ y) \<noteq> Some (Link s)"
        using reg wf_prefix_dir [OF wf, of p y] by (cases "y = []") auto
      then show ?thesis using lookup_move_dest [OF none ne, of y] y by simp
    next
      case False
      then show ?thesis
        using lookup_move_other [of p x q "tree w"] lookup_move_source [of p x q "tree w"] l that
        by (cases "is_prefix p x"; cases "x = []") (auto simp: linkfree_def)
    qed
    then show ?thesis using l by (auto simp: linkfree_def)
  qed
  moreover have "wf_tree (move_subtree p q (tree w))"
    by (rule wf_move_subtree [OF wf ne n d dst np src])
  ultimately show ?thesis using c by (simp add: confined_def)
qed

lemma in_set_ne: "x \<in> set xs \<Longrightarrow> xs \<noteq> []"
  by auto

lemma children_nonempty:
  assumes wf: "wf_tree t" and ex: "lookup t (d @ c # s) \<noteq> None"
  shows "children t d \<noteq> []"
proof -
  have "lookup t (d @ [c]) \<noteq> None"
    using ex wf_below_missing [OF wf, of "d @ [c]" s] by (cases "lookup t (d @ [c])") auto
  then obtain i where "map_of t (d @ [c]) = Some i"
    by (cases "map_of t (d @ [c])") (simp_all add: lookup_def)
  then have "(d @ [c], i) \<in> set t" by (rule map_of_SomeD)
  then have "(d @ [c], i) \<in> set (filter (\<lambda>(p, i). p \<noteq> [] \<and> butlast p = d) t)" by simp
  then have "filter (\<lambda>(p, i). p \<noteq> [] \<and> butlast p = d) t \<noteq> []" by (rule in_set_ne)
  then show ?thesis by (simp only: children_def map_is_Nil_conv not_False_eq_True)
qed

lemma rename_tree_cases:
  assumes wf: "wf_tree t" and l: "linkfree t p" "linkfree t q" and res: "rename_tree t p q = Inr t'"
  obtains (same) "t' = t"
  | (moved) i u where "lookup t p = Some i" "p \<noteq> []" "q \<noteq> []" "\<not> is_prefix p q" "\<not> is_prefix q p"
      "lookup t (butlast q) = Some Dir" "t' = move_subtree p q u"
      "u = (if lookup t q = None then t else remove_subtree q t)"
proof -
  obtain a i where a: "lstat_inode t p = Inr (a, i)"
    using res by (auto simp: rename_tree_def split: sum.splits)
  obtain b where b: "resolve_parent t q = Inr b"
    using res a by (auto simp: rename_tree_def split: sum.splits)
  have p: "a = p" "lookup t p = Some i" using lstat_linkfree [OF l(1) a] by auto
  have q: "b = q" "q \<noteq> [] \<Longrightarrow> lookup t (butlast q) = Some Dir"
    using linkfree_resolve_parent [OF l(2) b] by auto
  show ?thesis
  proof (cases "p = q")
    case True
    then show ?thesis using res a b p q same by (simp add: rename_tree_def)
  next
    case False
    have np: "p \<noteq> []" "\<not> is_prefix p q"
      using res a b p q False by (auto simp: rename_tree_def split: if_splits)
    have kids: "children t q = []" if "lookup t q = Some Dir"
      using res a b p q False that by (auto simp: rename_tree_def split: if_splits)
    have nq: "\<not> is_prefix q p"
    proof
      assume "is_prefix q p"
      then obtain z where z: "p = q @ z" by (auto simp: is_prefix_iff)
      then obtain c s where pq: "p = q @ c # s" using False by (cases z) auto
      then have "lookup t q = Some Dir" using wf_prefix_dir [OF wf, of q "c # s"] p by simp
      then show False using kids children_nonempty [OF wf, of q c s] pq p by simp
    qed
    then have "q \<noteq> []" by auto
    moreover have "t' = move_subtree p q (if lookup t q = None then t else remove_subtree q t)"
      using res a b p q False np
      by (auto simp: rename_tree_def split: option.splits inode.splits if_splits)
    ultimately show ?thesis using moved [OF p(2) np(1) _ np(2) nq] q by blast
  qed
qed

lemma rename_confined:
  assumes c: "confined t0 r P w" and p: "below r P p" and q: "below r P q"
    and run: "fs_rename p q w = (x, w')"
  shows "confined t0 r (if (\<exists>e. x = Inl e) \<or> (\<exists>b. lookup (tree w) p = Some (Reg b)) then P else {}) w'"
proof (cases x)
  case (Inl e)
  then have "tree w' = tree w"
    using run by (auto simp: fs_rename_def mutate_def syscall_def tick_def split: option.splits sum.splits)
  then show ?thesis using c Inl by (simp add: confined_tree)
next
  case (Inr y)
  have weaker: "confined t0 r {} v" if "confined t0 r P v" for v :: "'a os_scheme"
    using that by (simp add: confined_def)
  obtain t' where t': "rename_tree (tree w) p q = Inr t'" "tree w' = t'"
    using run Inr by (auto simp: fs_rename_def mutate_def syscall_def tick_def split: option.splits sum.splits)
  have wf: "wf_tree (tree w)" using c by (simp add: confined_def)
  note l = confined_linkfree [OF c p] confined_linkfree [OF c q]
  define P' where "P' = (if \<exists>b. lookup (tree w) p = Some (Reg b) then P else {})"
  have "confined t0 r P' (w\<lparr>tree := t'\<rparr>)"
    using wf l t'(1)
  proof (cases rule: rename_tree_cases)
    case same
    then show ?thesis using c weaker [OF c] by (simp add: P'_def)
  next
    case (moved i u)
    let ?v = "w\<lparr>tree := u\<rparr>"
    have cv: "confined t0 r P ?v"
      using moved(3,8) c confined_remove [OF c, of q] q by (auto simp: below_def)
    have nb: "\<not> is_prefix q (butlast q)"
      using moved(3) is_prefix_length [of q "butlast q"] by (cases q) auto
    have src: "lookup u p = Some i" and dst: "lookup u q = None"
      and d: "lookup u (butlast q) = Some Dir"
      using moved nb by (auto simp: lookup_remove_subtree)
    have "confined t0 r P' (?v\<lparr>tree := move_subtree p q (tree ?v)\<rparr>)"
      using cv p q src dst d moved linkfree_last [OF l(2) moved(3)]
      by (intro confined_move [OF cv]) (auto simp: below_def P'_def split: if_splits)
    then show ?thesis using moved(7) by simp
  qed
  then have "confined t0 r P' w'" by (rule confined_tree [rotated]) (use t'(2) in simp)
  then show ?thesis using Inr by (simp add: P'_def)
qed

lemmas within_calls =
  keeps_create keeps_create_new keeps_write_all keeps_fs_write keeps_remove_file
  keeps_remove_dir_all keeps_create_dir_all

section \<open>Results of system calls\<close>

definition calm :: "'z os_scheme \<Rightarrow> bool" where
  "calm w = (\<forall>n. faults w n = None)"

lemma calm_tick [simp]: "calm (tick w) = calm w"
  by (simp add: calm_def tick_def)

lemma tree_tick [simp]: "tree (tick w) = tree w"
  by (simp add: tick_def)

lemma query_Inr: "query f w = (Inr x, w') \<Longrightarrow> f (tree w) = Inr x \<and> w' = tick w"
  by (auto simp: query_def syscall_def split: option.splits sum.splits)

lemma query_Inl:
  "query f w = (Inl e, w') \<Longrightarrow> w' = tick w \<and> (f (tree w) = Inl e \<or> (\<exists>m. e = IoOther m))"
  by (auto simp: query_def syscall_def split: option.splits sum.splits)

lemma query_calm: "calm w \<Longrightarrow> query f w = (f (tree w), tick w)"
  by (auto simp: query_def syscall_def calm_def tick_def split: sum.splits)

lemma mutate_calm:
  "calm w \<Longrightarrow> mutate f w = (case f (tree w) of Inl e \<Rightarrow> (Inl e, tick w)
     | Inr t \<Rightarrow> (Inr (), tick (w\<lparr>tree := t\<rparr>)))"
  by (auto simp: mutate_def syscall_def calm_def tick_def split: sum.splits)

lemma mutate_Inr: "mutate f w = (Inr u, w') \<Longrightarrow> f (tree w) = Inr (tree w')"
  by (auto simp: mutate_def syscall_def tick_def split: option.splits sum.splits)

lemma mutate_Inl: "mutate f w = (Inl e, w') \<Longrightarrow> tree w' = tree w"
  by (auto simp: mutate_def syscall_def tick_def split: option.splits sum.splits)

lemma snd_query: "snd (query f w) = tick w"
  by (auto simp: query_def syscall_def tick_def split: option.splits sum.splits)

lemma tree_with_meta [simp]: "tree (snd (with_meta f w)) = tree w"
  by (auto simp: with_meta_def bind_def dest: query_Inr query_Inl split: prod.splits sum.splits)

section \<open>Reading and writing files\<close>

text \<open>Actions that leave the tree alone (and, as all do, the clock and the schedule of failures).\<close>

lemma faults_query [simp]: "faults (snd (query f w)) = faults w" "clock (snd (query f w)) = clock w"
  by (auto simp: query_def syscall_def tick_def split: option.splits sum.splits)

lemma faults_with_meta [simp]:
  "faults (snd (with_meta f w)) = faults w" "clock (snd (with_meta f w)) = clock w"
  by (auto simp: with_meta_def bind_def tick_def dest: query_Inr query_Inl split: prod.splits sum.splits)

definition readonly :: "'z os_scheme \<Rightarrow> 'z os_scheme \<Rightarrow> bool" where
  "readonly w w' = (tree w' = tree w \<and> faults w' = faults w \<and> clock w' = clock w)"

interpretation readonly: frame_rel readonly
  by unfold_locales (auto simp: readonly_def)

lemma readonly_query: "keeps readonly (query f)"
  by (simp add: keeps_def readonly_def)

lemma readonly_with_meta: "keeps readonly (with_meta f)"
  by (simp add: keeps_def readonly_def)

lemma readonly_fill_bytes: "keeps readonly (fill_bytes n)"
  by (simp add: keeps_def readonly_def fill_bytes_def)

lemma readonly_new_uuid: "keeps readonly new_uuid"
  by (simp add: keeps_def readonly_def new_uuid_def)

lemma readonly_read_some: "keeps readonly (fs_read_some k h)"
  by (simp add: keeps_def readonly_def fs_read_some_def Let_def)

lemma readonly_calls:
  "keeps readonly (fs_canonicalize p)" "keeps readonly (fs_metadata p)"
  "keeps readonly (fs_symlink_metadata p)" "keeps readonly (fs_try_exists p)"
  "keeps readonly (fs_read_dir p)" "keeps readonly (fs_read p)" "keeps readonly (fs_open p)"
  "keeps readonly (fs_flush p)" "keeps readonly (fs_sync_data p)"
  "keeps readonly (fs_read_exact k h)"
  by (simp_all add: fs_canonicalize_def fs_metadata_def fs_symlink_metadata_def fs_try_exists_def
      fs_read_dir_def fs_read_def fs_open_def fs_flush_def fs_sync_data_def fs_read_exact_def
      readonly_query readonly_with_meta)

lemma readonly_exists_or_false: "keeps readonly (exists_or_false p)"
  unfolding exists_or_false_def
  by (intro readonly.keeps_rules readonly_calls)

lemmas readonly_rules = readonly_calls readonly_query readonly_with_meta readonly_fill_bytes
  readonly_new_uuid readonly_read_some readonly_exists_or_false readonly.keeps_rules

lemma readonlyD: "keeps readonly m \<Longrightarrow> m w = (x, w') \<Longrightarrow> tree w' = tree w"
  by (auto simp: readonly_def dest: keepsD)

lemma readonly_calm: "keeps readonly m \<Longrightarrow> m w = (x, w') \<Longrightarrow> calm w \<Longrightarrow> calm w'"
  by (auto simp: readonly_def calm_def dest: keepsD)

lemma readonly_clock: "keeps readonly m \<Longrightarrow> m w = (x, w') \<Longrightarrow> clock w' = clock w"
  by (auto simp: readonly_def dest: keepsD)

lemma keeps_within_readonly: "keeps readonly m \<Longrightarrow> keeps (within t0 r P) m"
  by (auto simp: keeps_def readonly_def within_def intro: confined_tree)

lemma put_put: "put p i (put p j t) = put p i t"
proof (cases "map_of t p")
  case None
  then have "map (\<lambda>(q, j). if q = p then (q, i) else (q, j)) t = t"
    by (intro map_idI) (force simp: map_of_eq_None_iff)
  then show ?thesis using None by (auto simp: put_def map_add_def)
next
  case (Some k)
  then have "map_of (put p j t) p \<noteq> None" by (simp add: map_of_put)
  then show ?thesis using Some by (auto simp: put_def comp_def)
qed

lemma append_to_put: "p \<noteq> [] \<Longrightarrow> append_to p bs (put p (Reg d) t) = put p (Reg (d @ bs)) t"
  by (simp add: append_to_def lookup_put put_put)

lemma write_all_Inr: "fs_write_all h bs w = (Inr u, w') \<Longrightarrow> tree w' = append_to h bs (tree w)"
  by (auto simp: fs_write_all_def dest: mutate_Inr)

lemma create_Inr:
  assumes wf: "wf_tree (tree w)" and l: "linkfree (tree w) p" and run: "fs_create p w = (Inr h, w')"
  shows "h = p \<and> p \<noteq> [] \<and> tree w' = put p (Reg []) (tree w) \<and> wf_tree (tree w')"
proof -
  obtain q where q: "create_target (tree w) p = Inr q" "tree w' = put q (Reg []) (tree w)" "h = q"
    using run by (auto simp: fs_create_def syscall_def tick_def split: option.splits sum.splits)
  then have t: "q = p" "lookup (tree w) (butlast p) = Some Dir" "lookup (tree w) p \<noteq> Some Dir"
    using create_target_linkfree [OF wf l] by auto
  then have ne: "p \<noteq> []" by auto
  then show ?thesis
    using q t wf_put [OF wf ne linkfree_last [OF l ne], of "Reg []"] by simp
qed

lemma read_file:
  assumes "wf_tree (tree w)" "lookup (tree w) p = Some (Reg d)"
  shows "fs_read p w = (case faults w (ticks w) of Some m \<Rightarrow> Inl (IoOther m) | None \<Rightarrow> Inr d, tick w)"
proof -
  have "canon_path (tree w) p = Inr p"
    using assms by (intro canon_path_canon) (auto simp: canon_def)
  then show ?thesis
    using assms by (auto simp: fs_read_def query_def syscall_def stat_inode_def tick_def split: option.splits)
qed

lemma read_file_Inr:
  "\<lbrakk>wf_tree (tree w); lookup (tree w) p = Some (Reg d); fs_read p w = (Inr x, w')\<rbrakk> \<Longrightarrow> x = d"
  by (auto simp: read_file split: option.splits)

lemma read_file_calm:
  "\<lbrakk>calm w; wf_tree (tree w); lookup (tree w) p = Some (Reg d)\<rbrakk> \<Longrightarrow> fs_read p w = (Inr d, tick w)"
  by (simp add: read_file calm_def)

lemma open_file_calm:
  "\<lbrakk>calm w; wf_tree (tree w); lookup (tree w) p = Some (Reg d)\<rbrakk> \<Longrightarrow> fs_open p w = (Inr d, tick w)"
  by (simp add: fs_open_def read_file_calm)

lemma metadata_file:
  assumes "wf_tree (tree w)" "lookup (tree w) p = Some i" "\<And>s. i \<noteq> Link s"
  shows "fs_metadata p w = (case faults w (ticks w) of Some m \<Rightarrow> Inl (IoOther m)
     | None \<Rightarrow> Inr (inode_meta i (mtimes w p)), tick w)"
proof -
  have "canon_path (tree w) p = Inr p"
    using assms by (intro canon_path_canon) (auto simp: canon_def)
  then show ?thesis
    using assms by (auto simp: fs_metadata_def with_meta_def bind_def query_def syscall_def stat_inode_def
        tick_def split: option.splits)
qed

lemma metadata_file_calm:
  "\<lbrakk>calm w; wf_tree (tree w); lookup (tree w) p = Some (Reg d)\<rbrakk>
    \<Longrightarrow> fs_metadata p w = (Inr (inode_meta (Reg d) (mtimes w p)), tick w)"
  by (simp add: metadata_file calm_def)

lemma read_exact_calm:
  "calm w \<Longrightarrow> fs_read_exact k h w =
     (if length h < k then Inl IoUnexpectedEof else Inr (take k h, drop k h), tick w)"
  by (simp add: fs_read_exact_def query_calm)

section \<open>Concrete states\<close>

lemma wf_treeI:
  "list_all (\<lambda>(p, i). p \<noteq> [] \<and> name_ok (last p) \<and> lookup t (butlast p) = Some Dir) t \<Longrightarrow> wf_tree t"
  unfolding wf_tree_def
proof (intro allI impI)
  fix p
  assume all: "list_all (\<lambda>(p, i). p \<noteq> [] \<and> name_ok (last p) \<and> lookup t (butlast p) = Some Dir) t"
    and p: "p \<noteq> [] \<and> lookup t p \<noteq> None"
  then obtain i where "(p, i) \<in> set t"
    by (cases "map_of t p") (auto simp: lookup_def dest: map_of_SomeD)
  then show "name_ok (last p) \<and> lookup t (butlast p) = Some Dir"
    using all by (auto simp: list_all_iff)
qed

text \<open>A quiet machine with a given tree, on which the properties' hypotheses are instantiated.\<close>

definition machine :: "tree \<Rightarrow> os" where
  "machine t = \<lparr>tree = t, ticks = 0, faults = (\<lambda>n. None), caps = (\<lambda>n. 4096), mtimes = (\<lambda>p. None),
     clock = 1000, rng = (\<lambda>n. word_of_nat n), rng_pos = 0, uuids = (\<lambda>n. show_nat n), uuid_pos = 0\<rparr>"

lemma machine_calm [simp]: "calm (machine t)"
  by (simp add: machine_def calm_def)

lemma machine_tree [simp]: "tree (machine t) = t"
  by (simp add: machine_def)

end
