(* ===== verification/PathSafety.thy ===== *)
theory PathSafety
  imports Errors OsFacts
begin

text \<open>
  User-supplied paths (\<open>src/src/utils/path_safety.rs\<close>): the component rules and \<open>safe_join\<close>,
  which walks the components from the canonical root, resolving every entry that exists.
\<close>

section \<open>Limits\<close>

definition MAX_PATH_BYTES :: nat where "MAX_PATH_BYTES = 4096"
definition MAX_COMPONENT_BYTES :: nat where "MAX_COMPONENT_BYTES = 255"
definition MAX_DEPTH :: nat where "MAX_DEPTH = 128"

section \<open>Operations\<close>

definition control_char :: "char \<Rightarrow> bool" where
  "control_char c = (char_code c < 32 \<or> char_code c = 127)"

definition validate_component :: "string \<Rightarrow> app_error + unit" where
  "validate_component c =
     (if c = [] then Inl (Validation ''Path contains empty components (double slashes or trailing slash).'')
      else if length c > MAX_COMPONENT_BYTES then
        Inl (Validation (''Path component exceeds maximum length of '' @ show_nat MAX_COMPONENT_BYTES @ '' bytes.''))
      else if CHR 0x00 \<in> set c then Inl (Validation ''Path contains null bytes.'')
      else if list_ex control_char c then Inl (Validation ''Path contains control characters.'')
      else if c = ''.'' then Inl (Validation (''Path contains '' @ [CHR 0x27] @ ''.'' @ [CHR 0x27] @ '' component.''))
      else if c = ''..'' then
        Inl (Validation (''Path traversal ('' @ [CHR 0x27] @ ''..'' @ [CHR 0x27] @ '') is not allowed.''))
      else if starts_with c ''.'' then Inl (Validation ''Dot-prefixed path components are not allowed.'')
      else if c \<noteq> trim c then Inl (Validation ''Path component has leading or trailing whitespace.'')
      else if all_whitespace c then Inl (Validation ''Path component is whitespace-only.'')
      else Inr ())"

definition either_sep :: "char \<Rightarrow> bool" where
  "either_sep c = (c = CHR ''/'' \<or> c = CHR 0x5C)"

fun validate_all :: "string list \<Rightarrow> app_error + unit" where
  "validate_all [] = Inr ()"
| "validate_all (c # cs) = (case validate_component c of Inl e \<Rightarrow> Inl e | Inr u \<Rightarrow> validate_all cs)"

text \<open>Steps 1 to 4 of \<open>safe_join\<close>: the components of an acceptable user path.\<close>

definition checked_components :: "string \<Rightarrow> app_error + string list" where
  "checked_components u =
     (if u = [] then Inl (Validation ''Path must not be empty.'')
      else if length u > MAX_PATH_BYTES then
        Inl (Validation (''Path exceeds maximum length of '' @ show_nat MAX_PATH_BYTES @ '' bytes.''))
      else if starts_with u ''/'' \<or> starts_with u [CHR 0x5C] \<or> contains u '':'' then
        Inl (Validation ''Absolute paths are not allowed.'')
      else (let cs = split_on either_sep u
            in if length cs > MAX_DEPTH then
                 Inl (Validation (''Path exceeds maximum nesting depth of '' @ show_nat MAX_DEPTH @ ''.''))
               else (case validate_all cs of Inl e \<Rightarrow> Inl e | Inr v \<Rightarrow> Inr cs)))"

text \<open>Step 6: the walk from the canonical root.\<close>

fun safe_walk :: "path \<Rightarrow> path \<Rightarrow> string list \<Rightarrow> ('z, path) app" where
  "safe_walk root cur [] = ret cur"
| "safe_walk root cur (c # cs) =
     (let cur = path_join cur c
      in bind (attempt (fs_symlink_metadata cur)) (\<lambda>r. case r of
           Inr meta \<Rightarrow>
             bind (map_err (\<lambda>e. Validation (''Cannot resolve path component: '' @ io_display e))
                     (fs_canonicalize cur)) (\<lambda>resolved.
               if \<not> is_prefix root resolved then
                 (if is_symlink meta then
                    throw (Validation ''Path escapes the root directory via symlink.'')
                  else throw (Validation ''Path escapes the root directory.''))
               else safe_walk root resolved cs)
         | Inl IoNotFound \<Rightarrow> ret (foldl path_join cur cs)
         | Inl e \<Rightarrow> throw (Validation (''Cannot read metadata for path component: '' @ io_display e))))"

definition safe_join :: "path \<Rightarrow> string \<Rightarrow> ('z, path) app" where
  "safe_join root user_path =
     bind (lift (checked_components user_path)) (\<lambda>components.
     bind (map_err (\<lambda>e. Validation (''Root path cannot be resolved: '' @ io_display e))
             (fs_canonicalize root)) (\<lambda>canonical_root.
     bind (safe_walk canonical_root canonical_root components) (\<lambda>current.
       if \<not> is_prefix canonical_root current then
         throw (Validation ''Path escapes the root directory.'')
       else ret current)))"

section \<open>Component rules\<close>

definition component_ok :: "string \<Rightarrow> bool" where
  "component_ok c = (c \<noteq> [] \<and> length c \<le> 255 \<and> (\<forall>x \<in> set c. \<not> control_char x) \<and>
     hd c \<noteq> CHR ''.'' \<and> trim c = c)"

definition path_ok :: "string \<Rightarrow> bool" where
  "path_ok u = (u \<noteq> [] \<and> length u \<le> 4096 \<and> CHR '':'' \<notin> set u \<and>
     length (split_on either_sep u) \<le> 128 \<and> (\<forall>c \<in> set (split_on either_sep u). component_ok c))"

lemma contains_char: "contains s [c] = (c \<in> set s)"
  by (induction s) (auto simp: is_prefix_iff)

lemma starts_with_char: "starts_with s [c] = (s \<noteq> [] \<and> hd s = c)"
  by (cases s) (auto simp: starts_with_def)

lemma trim_all_whitespace: "all_whitespace s \<Longrightarrow> trim s = []"
  by (simp add: all_whitespace_def trim_def trim_end_def)

lemma control_nul: "control_char (CHR 0x00)"
  by (simp add: control_char_def char_code_def)

lemma validate_component_ok: "validate_component c = Inr u \<longleftrightarrow> component_ok c"
  using control_nul trim_all_whitespace [of c]
  by (auto simp: validate_component_def component_ok_def MAX_COMPONENT_BYTES_def starts_with_char
      list_ex_iff split: if_splits)

lemma validate_all_ok: "validate_all cs = Inr u \<longleftrightarrow> (\<forall>c \<in> set cs. component_ok c)"
proof (induction cs)
  case (Cons c cs)
  then show ?case using validate_component_ok [of c] by (cases "validate_component c") auto
qed simp

lemma checked_components_ok:
  "checked_components u = Inr cs \<longleftrightarrow> path_ok u \<and> cs = split_on either_sep u"
proof -
  have "\<not> starts_with u ''/''" "\<not> starts_with u [CHR 0x5C]"
    if "\<forall>c \<in> set (split_on either_sep u). component_ok c"
    using that by (cases u; auto simp: starts_with_char either_sep_def component_ok_def)+
  then show ?thesis
    using validate_all_ok [of "split_on either_sep u"]
    by (cases "validate_all (split_on either_sep u)")
      (auto simp: checked_components_def path_ok_def MAX_PATH_BYTES_def MAX_DEPTH_def contains_char Let_def)
qed

text \<open>A checked component is one proper name for \<open>Path::push\<close>.\<close>

definition plain_name :: "string \<Rightarrow> bool" where
  "plain_name c = (name_ok c \<and> CHR ''/'' \<notin> set c)"

lemma path_join_plain: "plain_name c \<Longrightarrow> path_join p c = p @ [c]"
proof -
  assume c: "plain_name c"
  then have "split_on path_sep c = [c]"
    by (intro split_on_no_sep_id) (auto simp: plain_name_def path_sep_def)
  then show ?thesis using c
    by (cases c) (auto simp: path_join_def plain_name_def name_ok_def starts_with_char)
qed

lemma foldl_join_plain: "\<forall>c \<in> set cs. plain_name c \<Longrightarrow> foldl path_join p cs = p @ cs"
  by (induction cs arbitrary: p) (auto simp: path_join_plain)

lemma path_ok_plain: "path_ok u \<Longrightarrow> c \<in> set (split_on either_sep u) \<Longrightarrow> plain_name c"
  using split_on_no_sep [of c either_sep u]
  by (fastforce simp: path_ok_def component_ok_def plain_name_def name_ok_def either_sep_def)

section \<open>Containment\<close>

lemma with_meta_Inr: "with_meta f w = (Inr m, w') \<Longrightarrow>
    w' = tick w \<and> (\<exists>q i. f (tree w) = Inr (q, i) \<and> m = inode_meta i (mtimes w q))"
  by (auto simp: with_meta_def bind_Inr_iff tick_def dest!: query_Inr)

lemma with_meta_Inl: "with_meta f w = (Inl e, w') \<Longrightarrow>
    w' = tick w \<and> (f (tree w) = Inl e \<or> (\<exists>m. e = IoOther m))"
  by (auto simp: with_meta_def bind_def split: prod.splits sum.splits dest: query_Inl)

lemma lstat_below:
  assumes "wf_tree t" "canon t d" "plain_name c"
  shows "lstat_inode t (d @ [c]) = (if lookup t d = Some Dir
      then (case lookup t (d @ [c]) of None \<Rightarrow> Inl IoNotFound | Some i \<Rightarrow> Inr (d @ [c], i))
      else Inl IoNotADirectory)"
  using assms
  by (auto simp: lstat_inode_def resolve_parent_def plain_name_def name_ok_def canon_path_canon
      split: option.splits)

lemma safe_walk_contained:
  "\<lbrakk>wf_tree (tree w); canon (tree w) cur; is_prefix root cur; \<forall>c \<in> set cs. plain_name c;
    safe_walk root cur cs w = (Inr p, w')\<rbrakk>
   \<Longrightarrow> tree w' = tree w \<and> is_prefix root p \<and> linkfree (tree w) p"
proof (induction cs arbitrary: cur w)
  case Nil
  then show ?case by (simp add: canon_linkfree)
next
  case (Cons c cs)
  have c: "plain_name c" using Cons.prems by simp
  obtain r w1 where m: "fs_symlink_metadata (cur @ [c]) w = (r, w1)" by fastforce
  show ?case
  proof (cases r)
    case (Inr meta)
    then have w1: "w1 = tick w" using m by (auto simp: fs_symlink_metadata_def dest: with_meta_Inr)
    obtain q w2 where q: "fs_canonicalize (cur @ [c]) w1 = (Inr q, w2)" "is_prefix root q"
      "safe_walk root q cs w2 = (Inr p, w')"
      using Cons.prems(5) m Inr
      by (auto simp: path_join_plain [OF c] Let_def bind_Inr_iff split: if_splits)
    then have "canon_path (tree w) (cur @ [c]) = Inr q" "tree w2 = tree w"
      using w1 by (auto simp: fs_canonicalize_def dest!: query_Inr)
    then show ?thesis
      using Cons.IH [of w2 q] canon_path_is_canon Cons.prems(1,4) q by auto
  next
    case (Inl e)
    then have w1: "w1 = tick w" and e: "lstat_inode (tree w) (cur @ [c]) = Inl e \<or> (\<exists>m. e = IoOther m)"
      using m by (auto simp: fs_symlink_metadata_def dest: with_meta_Inl)
    have nf: "e = IoNotFound" "p = (cur @ [c]) @ cs" "w' = w1"
      using Cons.prems(4,5) m Inl
      by (auto simp: path_join_plain [OF c] Let_def foldl_join_plain split: io_error.splits)
    then have "lookup (tree w) (cur @ [c]) = None"
      using e lstat_below [OF Cons.prems(1,2) c] by (auto split: if_splits option.splits)
    then have "linkfree (tree w) (cur @ c # cs)"
      using Cons.prems by (intro linkfree_missing canon_linkfree) (auto simp: plain_name_def)
    then show ?thesis using nf w1 Cons.prems(3) by (auto simp: is_prefix_iff)
  qed
qed

lemma safe_join_contains:
  assumes wf: "wf_tree (tree w)" and run: "safe_join root u w = (Inr p, w')"
  shows "\<exists>r. canon_path (tree w) root = Inr r \<and> is_prefix r p \<and> linkfree (tree w) p \<and>
    (\<forall>b q. resolve (tree w) p = Inr (b, q) \<longrightarrow> q = p) \<and> tree w' = tree w \<and> path_ok u"
proof -
  obtain cs r w1 where cs: "checked_components u = Inr cs"
    and r: "fs_canonicalize root w = (Inr r, w1)" and walk: "safe_walk r r cs w1 = (Inr p, w')"
    using run by (auto simp: safe_join_def bind_Inr_iff split: if_splits)
  have c: "canon_path (tree w) root = Inr r" "tree w1 = tree w"
    using r by (auto simp: fs_canonicalize_def dest!: query_Inr)
  have ok: "path_ok u" "\<forall>c \<in> set cs. plain_name c"
    using cs checked_components_ok path_ok_plain by auto
  have "tree w' = tree w1 \<and> is_prefix r p \<and> linkfree (tree w1) p"
    using safe_walk_contained [OF _ _ _ ok(2) walk] wf c canon_path_is_canon [OF wf c(1)] by simp
  then show ?thesis using c ok linkfree_resolve by auto
qed

text \<open>
  C1. Whatever user string and whatever links the tree holds, a path returned by \<open>safe_join\<close>
  starts with the canonical root and passes through no symbolic link: resolving it, now or for
  creating it, gives the path itself. The call changes nothing in the tree.
\<close>

theorem safe_join_contained:
  assumes wf: "wf_tree (tree w)" and run: "safe_join root u w = (Inr p, w')"
  shows "\<exists>r. canon_path (tree w) root = Inr r \<and> is_prefix r p \<and> linkfree (tree w) p \<and>
    (\<forall>b q. resolve (tree w) p = Inr (b, q) \<longrightarrow> q = p) \<and> tree w' = tree w \<and> path_ok u"
  by (rule safe_join_contains [OF assms])

definition sample_tree :: tree where
  "sample_tree = [([''data''], Dir), ([''data'', ''docs''], Dir), ([''etc''], Dir),
     ([''data'', ''out''], Link ''/etc''), ([''data'', ''alias''], Link ''docs'')]"

lemma wf_sample_tree: "wf_tree sample_tree"
  by (rule wf_treeI) code_simp

theorem safe_join_contained_witness:
  "is_prefix [''data''] [''data'', ''docs'', ''a.txt''] \<and>
   linkfree sample_tree [''data'', ''docs'', ''a.txt'']"
proof -
  have "\<exists>w'. safe_join [''data''] ''alias/a.txt'' (machine sample_tree) =
      (Inr [''data'', ''docs'', ''a.txt''], w')"
    by (rule exI [of _ "snd (safe_join [''data''] ''alias/a.txt'' (machine sample_tree))"], rule prod_eqI)
      (code_simp, simp)
  then obtain w' where "safe_join [''data''] ''alias/a.txt'' (machine sample_tree) =
      (Inr [''data'', ''docs'', ''a.txt''], w')" by blast
  moreover have "canon_path sample_tree [''data''] = Inr [''data'']" by code_simp
  ultimately show ?thesis
    using safe_join_contained [of "machine sample_tree" "[''data'']"] wf_sample_tree by fastforce
qed

section \<open>Acceptance\<close>

lemma safe_walk_plain:
  "\<lbrakk>calm w; wf_tree (tree w); canon (tree w) cur; is_prefix root cur; \<forall>c \<in> set cs. plain_name c;
    linkfree (tree w) (cur @ cs);
    \<And>d. is_prefix cur d \<Longrightarrow> is_prefix d (cur @ cs) \<Longrightarrow> d \<noteq> cur @ cs \<Longrightarrow> lookup (tree w) d \<noteq> None
      \<Longrightarrow> lookup (tree w) d = Some Dir\<rbrakk>
   \<Longrightarrow> \<exists>w'. safe_walk root cur cs w = (Inr (cur @ cs), w')"
proof (induction cs arbitrary: cur w)
  case Nil
  then show ?case by simp
next
  case (Cons c cs)
  have c: "plain_name c" using Cons.prems by simp
  have dir: "lookup (tree w) cur = Some Dir"
    using Cons.prems(7) [of cur] Cons.prems(3) by (simp add: canon_def)
  note st = lstat_below [OF Cons.prems(2,3) c]
  show ?case
  proof (cases "lookup (tree w) (cur @ [c])")
    case None
    have "fst (fs_symlink_metadata (cur @ [c]) w) = Inl IoNotFound"
      using st dir None Cons.prems(1)
      by (simp add: fs_symlink_metadata_def with_meta_def query_calm bind_def)
    then show ?thesis
      using Cons.prems(5)
      by (auto simp: path_join_plain [OF c] Let_def foldl_join_plain intro: surj_pair)
  next
    case (Some i)
    have lf: "linkfree (tree w) (cur @ [c])"
      using linkfree_prefix [of "tree w" "cur @ [c]" cs] Cons.prems(6) by simp
    then have cn: "canon (tree w) (cur @ [c])"
      using Some by (auto simp: canon_def linkfree_def)
    obtain m where m: "fs_symlink_metadata (cur @ [c]) w = (Inr m, tick w)"
      using st dir Some Cons.prems(1)
      by (auto simp: fs_symlink_metadata_def with_meta_def query_calm bind_def)
    have k: "fs_canonicalize (cur @ [c]) (tick w) = (Inr (cur @ [c]), tick (tick w))"
      using Cons.prems(1) canon_path_canon [OF Cons.prems(2) cn]
      by (simp add: fs_canonicalize_def query_calm)
    have pre: "is_prefix root (cur @ [c])"
      using Cons.prems(4) by (auto simp: is_prefix_iff)
    have "\<exists>w'. safe_walk root (cur @ [c]) cs (tick (tick w)) = (Inr ((cur @ [c]) @ cs), w')"
    proof (rule Cons.IH)
      fix d assume d: "is_prefix (cur @ [c]) d" "is_prefix d ((cur @ [c]) @ cs)"
        "d \<noteq> (cur @ [c]) @ cs" "lookup (tree (tick (tick w))) d \<noteq> None"
      have "is_prefix cur d" using d(1) by (auto simp: is_prefix_iff)
      then show "lookup (tree (tick (tick w))) d = Some Dir"
        using Cons.prems(7) [of d] d by simp
    qed (use Cons.prems cn pre in auto)
    then show ?thesis
      using m pre by (auto simp: path_join_plain [OF c] Let_def
          bind_map_err_InrI [of "fs_canonicalize (cur @ [c])", OF k])
  qed
qed

section \<open>Stability\<close>

text \<open>
  Once the path \<open>safe_join\<close> returned has been created, and nothing that existed has gone away,
  the same user string leads to the same path, links included.
\<close>

lemma safe_walk_again:
  "\<lbrakk>safe_walk root cur cs w = (Inr p, w'); wf_tree (tree w); canon (tree w) cur; is_prefix root cur;
    \<forall>c \<in> set cs. plain_name c; grows (tree w) (tree v); wf_tree (tree v); canon (tree v) p; calm v\<rbrakk>
   \<Longrightarrow> \<exists>v'. safe_walk root cur cs v = (Inr p, v')"
proof (induction cs arbitrary: cur w v)
  case Nil
  then show ?case by simp
next
  case (Cons c cs)
  have c: "plain_name c" using Cons.prems by simp
  obtain r w1 where m: "fs_symlink_metadata (cur @ [c]) w = (r, w1)" by fastforce
  show ?case
  proof (cases r)
    case (Inr meta)
    then have w1: "w1 = tick w" and ex: "lookup (tree w) (cur @ [c]) \<noteq> None" "lookup (tree w) cur = Some Dir"
      using m lstat_below [OF Cons.prems(2,3) c]
      by (auto simp: fs_symlink_metadata_def dest!: with_meta_Inr split: if_splits option.splits)
    obtain q w2 where q: "fs_canonicalize (cur @ [c]) w1 = (Inr q, w2)" "is_prefix root q"
      "safe_walk root q cs w2 = (Inr p, w')"
      using Cons.prems(1) m Inr
      by (auto simp: path_join_plain [OF c] Let_def bind_Inr_iff split: if_splits)
    then have cp: "canon_path (tree w) (cur @ [c]) = Inr q" "tree w2 = tree w"
      using w1 by (auto simp: fs_canonicalize_def dest!: query_Inr)
    have "lookup (tree v) (cur @ [c]) \<noteq> None" "lookup (tree v) cur = Some Dir"
      using grows_exists grows_dir ex Cons.prems(6) by blast+
    then obtain m' where m': "fs_symlink_metadata (cur @ [c]) v = (Inr m', tick v)"
      using lstat_below [OF Cons.prems(7) _ c] canon_dir Cons.prems(9)
      by (auto simp: fs_symlink_metadata_def with_meta_def query_calm bind_def)
    have k: "fs_canonicalize (cur @ [c]) (tick v) = (Inr q, tick (tick v))"
      using Cons.prems(9) grows_canon_path [OF Cons.prems(6) cp(1)] by (simp add: fs_canonicalize_def query_calm)
    have "\<exists>v'. safe_walk root q cs (tick (tick v)) = (Inr p, v')"
      by (rule Cons.IH [OF q(3)]) (use Cons.prems cp q canon_path_is_canon [OF Cons.prems(2) cp(1)] in auto)
    then show ?thesis
      using m' q(2) by (auto simp: path_join_plain [OF c] Let_def
          bind_map_err_InrI [of "fs_canonicalize (cur @ [c])", OF k])
  next
    case (Inl e)
    then have p: "p = cur @ c # cs"
      using Cons.prems(1,5) m
      by (auto simp: path_join_plain [OF c] Let_def foldl_join_plain split: io_error.splits)
    have "\<exists>v'. safe_walk root cur (c # cs) v = (Inr (cur @ c # cs), v')"
    proof (rule safe_walk_plain)
      show "linkfree (tree v) (cur @ c # cs)" using canon_linkfree Cons.prems(7,8) p by blast
      fix d assume d: "is_prefix d (cur @ c # cs)" "d \<noteq> cur @ c # cs"
      then obtain z where "cur @ c # cs = d @ z" by (auto simp: is_prefix_iff)
      then show "lookup (tree v) d = Some Dir"
        using canon_prefix_dir [OF Cons.prems(7), of d z] Cons.prems(8) p d by auto
    qed (use Cons.prems grows_canon in auto)
    then show ?thesis using p by simp
  qed
qed

lemma safe_join_again:
  assumes run: "safe_join root u w = (Inr p, w')" and wf: "wf_tree (tree w)"
    and g: "grows (tree w) (tree v)" and wfv: "wf_tree (tree v)" and c: "canon (tree v) p" and calm: "calm v"
  shows "\<exists>v'. safe_join root u v = (Inr p, v')"
proof -
  obtain cs r w1 where cs: "checked_components u = Inr cs"
    and r: "fs_canonicalize root w = (Inr r, w1)" and walk: "safe_walk r r cs w1 = (Inr p, w')"
    and pre: "is_prefix r p"
    using run by (auto simp: safe_join_def bind_Inr_iff split: if_splits)
  have cr: "canon_path (tree w) root = Inr r" "tree w1 = tree w"
    using r by (auto simp: fs_canonicalize_def dest!: query_Inr)
  have k: "fs_canonicalize root v = (Inr r, tick v)"
    using calm grows_canon_path [OF g cr(1)] by (simp add: fs_canonicalize_def query_calm)
  have "\<exists>v'. safe_walk r r cs (tick v) = (Inr p, v')"
    by (rule safe_walk_again [OF walk])
      (use wf cr g wfv c calm canon_path_is_canon [OF wf cr(1)] cs checked_components_ok path_ok_plain in auto)
  then obtain v' where v': "safe_walk r r cs (tick v) = (Inr p, v')" by blast
  have "safe_join root u v = (Inr p, v')"
    using pre by (simp add: safe_join_def cs bind_map_err_InrI [of "fs_canonicalize root", OF k]
        bind_InrI [of "safe_walk r r _", OF v'])
  then show ?thesis by blast
qed

text \<open>Without links on the way, the walk can only end at the root followed by the components.\<close>

lemma safe_walk_result:
  "\<lbrakk>safe_walk root cur cs w = (Inr p, w'); wf_tree (tree w); canon (tree w) cur; is_prefix root cur;
    \<forall>c \<in> set cs. plain_name c; \<And>q s. is_prefix root q \<Longrightarrow> lookup (tree w) q \<noteq> Some (Link s)\<rbrakk>
   \<Longrightarrow> p = cur @ cs"
proof (induction cs arbitrary: cur w)
  case (Cons c cs)
  have c: "plain_name c" using Cons.prems by simp
  obtain r w1 where m: "fs_symlink_metadata (cur @ [c]) w = (r, w1)" by fastforce
  show ?case
  proof (cases r)
    case (Inr meta)
    then have w1: "w1 = tick w" and ex: "lookup (tree w) (cur @ [c]) \<noteq> None"
      using m lstat_below [OF Cons.prems(2,3) c]
      by (auto simp: fs_symlink_metadata_def dest!: with_meta_Inr split: if_splits option.splits)
    obtain q w2 where q: "fs_canonicalize (cur @ [c]) w1 = (Inr q, w2)" "is_prefix root q"
      "safe_walk root q cs w2 = (Inr p, w')"
      using Cons.prems(1) m Inr
      by (auto simp: path_join_plain [OF c] Let_def bind_Inr_iff split: if_splits)
    then have cp: "canon_path (tree w) (cur @ [c]) = Inr q" "tree w2 = tree w"
      using w1 by (auto simp: fs_canonicalize_def dest!: query_Inr)
    have pre: "is_prefix root (cur @ [c])" using Cons.prems(4) by (auto simp: is_prefix_iff)
    have "canon (tree w) (cur @ [c])"
      using ex Cons.prems(6) [OF pre] by (auto simp: canon_def)
    then have "q = cur @ [c]" using canon_path_canon [OF Cons.prems(2)] cp(1) by simp
    then show ?thesis
      using Cons.IH [OF q(3)] Cons.prems(2,5,6) cp canon_path_is_canon [OF Cons.prems(2) cp(1)] q(2) by simp
  next
    case (Inl e)
    then show ?thesis
      using Cons.prems(1,5) m
      by (auto simp: path_join_plain [OF c] Let_def foldl_join_plain split: io_error.splits)
  qed
qed simp

lemma safe_join_result:
  assumes run: "safe_join root u w = (Inr p, w')" and wf: "wf_tree (tree w)"
    and root: "canon_path (tree w) root = Inr r"
    and free: "\<And>q s. is_prefix r q \<Longrightarrow> lookup (tree w) q \<noteq> Some (Link s)"
  shows "path_ok u \<and> p = r @ split_on either_sep u"
proof -
  obtain cs r' w1 where cs: "checked_components u = Inr cs"
    and r: "fs_canonicalize root w = (Inr r', w1)" and walk: "safe_walk r' r' cs w1 = (Inr p, w')"
    using run by (auto simp: safe_join_def bind_Inr_iff split: if_splits)
  have w1: "r' = r" "tree w1 = tree w" using r root by (auto simp: fs_canonicalize_def dest!: query_Inr)
  have ok: "path_ok u" "cs = split_on either_sep u" using cs checked_components_ok [of u cs] by auto
  have "p = r @ cs"
    by (rule safe_walk_result [OF walk [unfolded w1(1)]])
      (use wf w1 free canon_path_is_canon [OF wf root] ok path_ok_plain in auto)
  then show ?thesis using ok by simp
qed

lemma safe_join_plain:
  assumes calm: "calm w" and wf: "wf_tree (tree w)" and root: "canon_path (tree w) root = Inr r"
    and free: "\<And>d s. is_prefix d (r @ split_on either_sep u) \<Longrightarrow> lookup (tree w) d \<noteq> Some (Link s)"
    and dirs: "\<And>d. is_prefix r d \<Longrightarrow> is_prefix d (r @ split_on either_sep u) \<Longrightarrow>
      d \<noteq> r @ split_on either_sep u \<Longrightarrow> lookup (tree w) d \<in> {None, Some Dir}"
  shows "(\<exists>w'. safe_join root u w = (Inr p, w')) \<longleftrightarrow> path_ok u \<and> p = r @ split_on either_sep u"
proof (cases "path_ok u")
  case False
  then have "\<exists>e. checked_components u = Inl e"
    using checked_components_ok [of u] by (cases "checked_components u") auto
  then show ?thesis using False by (auto simp: safe_join_def)
next
  case True
  let ?cs = "split_on either_sep u"
  have cs: "checked_components u = Inr ?cs" using True checked_components_ok by blast
  have plain: "\<forall>c \<in> set ?cs. plain_name c" using True path_ok_plain by blast
  have cr: "canon (tree w) r" using canon_path_is_canon [OF wf root] .
  have lf: "linkfree (tree w) (r @ ?cs)"
    using canon_linkfree [OF wf cr] plain free by (auto simp: linkfree_def plain_name_def)
  have k: "fs_canonicalize root w = (Inr r, tick w)"
    using calm root by (simp add: fs_canonicalize_def query_calm)
  have "lookup (tree (tick w)) d = Some Dir" if "is_prefix r d" "is_prefix d (r @ ?cs)"
      "d \<noteq> r @ ?cs" "lookup (tree (tick w)) d \<noteq> None" for d
    using dirs [OF that(1-3)] that(4) by auto
  then have "\<exists>w'. safe_walk r r ?cs (tick w) = (Inr (r @ ?cs), w')"
    by (intro safe_walk_plain) (simp_all add: calm wf cr plain lf)
  then obtain w' where w': "safe_walk r r ?cs (tick w) = (Inr (r @ ?cs), w')" by blast
  then have "safe_join root u w = (Inr (r @ ?cs), w')"
    by (simp add: safe_join_def cs bind_map_err_InrI [of "fs_canonicalize root", OF k]
        bind_InrI [of "safe_walk r r _", OF w'])
  then show ?thesis using True by auto
qed

text \<open>
  C2. With no failing call, no link on the way and no file where a directory is needed,
  \<open>safe_join\<close> accepts exactly the user strings made of at most 128 proper components, and
  returns the root followed by those components, existing or not.
\<close>

theorem safe_join_accepts:
  assumes calm: "calm w" and wf: "wf_tree (tree w)" and root: "canon_path (tree w) root = Inr r"
    and free: "\<And>d s. is_prefix d (r @ split_on either_sep u) \<Longrightarrow> lookup (tree w) d \<noteq> Some (Link s)"
    and dirs: "\<And>d. is_prefix r d \<Longrightarrow> is_prefix d (r @ split_on either_sep u) \<Longrightarrow>
      d \<noteq> r @ split_on either_sep u \<Longrightarrow> lookup (tree w) d \<in> {None, Some Dir}"
  shows "(\<exists>w'. safe_join root u w = (Inr p, w')) \<longleftrightarrow> path_ok u \<and> p = r @ split_on either_sep u"
  using safe_join_plain [OF assms] .

theorem safe_join_accepts_witness:
  "\<exists>w'. safe_join [''data''] ''docs/new/b.txt'' (machine sample_tree) =
     (Inr [''data'', ''docs'', ''new'', ''b.txt''], w')"
proof -
  have u: "split_on either_sep ''docs/new/b.txt'' = [''docs'', ''new'', ''b.txt'']" "path_ok ''docs/new/b.txt''"
    by code_simp+
  have root: "canon_path sample_tree [''data''] = Inr [''data'']" by code_simp
  have pre: "d = [] \<or> d = [''data''] \<or> d = [''data'', ''docs''] \<or> d = [''data'', ''docs'', ''new''] \<or>
      d = [''data'', ''docs'', ''new'', ''b.txt'']"
    if "is_prefix d ([''data''] @ split_on either_sep ''docs/new/b.txt'')" for d
    using that unfolding u by (auto simp: is_prefix_Cons_right is_prefix_Nil_right)
  have free: "lookup (tree (machine sample_tree)) d \<noteq> Some (Link s)"
    if "is_prefix d ([''data''] @ split_on either_sep ''docs/new/b.txt'')" for d s
    using pre [OF that] by (auto simp: lookup_def sample_tree_def)
  have dirs: "lookup (tree (machine sample_tree)) d \<in> {None, Some Dir}"
    if "is_prefix [''data''] d" "is_prefix d ([''data''] @ split_on either_sep ''docs/new/b.txt'')"
      "d \<noteq> [''data''] @ split_on either_sep ''docs/new/b.txt''" for d
    using pre [OF that(2)] by (auto simp: lookup_def sample_tree_def)
  have "(\<exists>w'. safe_join [''data''] ''docs/new/b.txt'' (machine sample_tree) =
      (Inr [''data'', ''docs'', ''new'', ''b.txt''], w')) \<longleftrightarrow> path_ok ''docs/new/b.txt'' \<and>
      [''data'', ''docs'', ''new'', ''b.txt''] = [''data''] @ split_on either_sep ''docs/new/b.txt''"
    by (rule safe_join_accepts; (erule (2) dirs | erule free | simp only: machine_calm machine_tree wf_sample_tree root))
  then show ?thesis unfolding u(1) using u(2) by simp
qed

end
