(* ===== verification/Crypto.thy ===== *)
theory Crypto
  imports PathSafety
begin

text \<open>
  Encrypted files (\<open>src/src/services/crypto_service.rs\<close>): key wrapping, the single-shot and
  STREAM formats, the trailing SHA-256 hash and the integrity checks. The primitives (AES-256-GCM,
  the STREAM construction over it, SHA-256, base64) come from crates, so they are the fields of
  the record \<open>crypto\<close>, a parameter of every operation. What the program relies on is
  \<open>crypto_ok\<close>. Incremental hashing is modelled by the bytes fed so far.
\<close>

unbundle bit_operations_syntax

section \<open>The primitives\<close>

text \<open>
  \<open>gcm_encrypt\<close> returns ciphertext and tag (detached); the attached form is their concatenation.
  \<open>stream_seal\<close> and \<open>stream_open\<close> take the segment counter and the last-segment flag.
\<close>

record crypto =
  sha256 :: "byte list \<Rightarrow> byte list"
  gcm_encrypt :: "byte list \<Rightarrow> byte list \<Rightarrow> byte list \<Rightarrow> (byte list \<times> byte list) option"
  gcm_decrypt :: "byte list \<Rightarrow> byte list \<Rightarrow> byte list \<Rightarrow> byte list option"
  stream_seal :: "byte list \<Rightarrow> byte list \<Rightarrow> nat \<Rightarrow> bool \<Rightarrow> byte list \<Rightarrow> byte list option"
  stream_open :: "byte list \<Rightarrow> byte list \<Rightarrow> nat \<Rightarrow> bool \<Rightarrow> byte list \<Rightarrow> byte list option"
  base64_decode :: "string \<Rightarrow> string + byte list"

definition crypto_ok :: "crypto \<Rightarrow> bool" where
  "crypto_ok C =
     ((\<forall>d. length (sha256 C d) = 32) \<and>
      (\<forall>k n p c t. gcm_encrypt C k n p = Some (c, t) \<longrightarrow>
         length c = length p \<and> length t = 16 \<and> gcm_decrypt C k n (c @ t) = Some p) \<and>
      (\<forall>k n i l p c. stream_seal C k n i l p = Some c \<longrightarrow>
         length c = length p + 16 \<and> stream_open C k n i l c = Some p))"

text \<open>The display string of the AEAD error.\<close>

definition aead_error :: string where
  "aead_error = ''aead::Error''"

definition internal_ctx :: "string \<Rightarrow> io_error \<Rightarrow> app_error" where
  "internal_ctx m e = Internal (m @ '': '' @ io_display e)"

section \<open>Constants\<close>

definition MASTER_KEY_DB_KEY :: string where "MASTER_KEY_DB_KEY = ''master_key_encrypted''"
definition NONCE_LEN :: nat where "NONCE_LEN = 12"
definition KEY_LEN :: nat where "KEY_LEN = 32"
definition TAG_LEN :: nat where "TAG_LEN = 16"
definition WRAPPED_KEY_LEN :: nat where "WRAPPED_KEY_LEN = NONCE_LEN + KEY_LEN + TAG_LEN"
definition HASH_BUF_SIZE :: nat where "HASH_BUF_SIZE = 64 * 1024"
definition STREAM_MAGIC :: "byte list" where "STREAM_MAGIC = [0x49, 0x44, 0x02]"
definition STREAM_NONCE_LEN :: nat where "STREAM_NONCE_LEN = 7"
definition STREAM_SEGMENT_HEADER_LEN :: nat where "STREAM_SEGMENT_HEADER_LEN = 4"
definition SINGLE_MAGIC :: "byte list" where "SINGLE_MAGIC = [0x49, 0x44, 0x01]"
definition FILE_HASH_LEN :: nat where "FILE_HASH_LEN = 32"
definition MAGIC_LEN :: nat where "MAGIC_LEN = 3"
definition MIN_SINGLE_FILE_LEN :: nat where
  "MIN_SINGLE_FILE_LEN = MAGIC_LEN + NONCE_LEN + TAG_LEN + FILE_HASH_LEN"
definition MIN_STREAM_FILE_LEN :: nat where
  "MIN_STREAM_FILE_LEN = MAGIC_LEN + STREAM_NONCE_LEN + FILE_HASH_LEN"

lemmas len_defs = NONCE_LEN_def KEY_LEN_def TAG_LEN_def WRAPPED_KEY_LEN_def STREAM_NONCE_LEN_def
  STREAM_SEGMENT_HEADER_LEN_def FILE_HASH_LEN_def MAGIC_LEN_def MIN_SINGLE_FILE_LEN_def
  MIN_STREAM_FILE_LEN_def

section \<open>Keys\<close>

text \<open>\<open>DataKey::from_bytes\<close>; \<open>None\<close> is the panic on a wrong length.\<close>

definition data_key_from_bytes :: "byte list \<Rightarrow> byte list option" where
  "data_key_from_bytes bs = (if length bs = KEY_LEN then Some bs else None)"

definition generate_data_key :: "('z, byte list) app" where
  "generate_data_key = fill_bytes KEY_LEN"

definition generate_master_key :: "('z, byte list) app" where
  "generate_master_key = fill_bytes KEY_LEN"

definition aes_gcm_wrap :: "crypto \<Rightarrow> byte list \<Rightarrow> byte list \<Rightarrow> ('z, byte list) app" where
  "aes_gcm_wrap C wrapping_key plaintext =
     bind (fill_bytes NONCE_LEN) (\<lambda>nonce.
       case gcm_encrypt C wrapping_key nonce plaintext of
         None \<Rightarrow> throw (Internal (''AES-256-GCM encrypt failed: '' @ aead_error))
       | Some (c, t) \<Rightarrow> ret (nonce @ c @ t))"

definition aes_gcm_unwrap :: "crypto \<Rightarrow> byte list \<Rightarrow> byte list \<Rightarrow> app_error + byte list" where
  "aes_gcm_unwrap C wrapping_key blob =
     (if length blob \<noteq> WRAPPED_KEY_LEN then
        Inl (Internal (''Wrapped key blob has wrong size ('' @ show_nat (length blob) @
              '' bytes, expected exactly '' @ show_nat WRAPPED_KEY_LEN @ '')''))
      else (case gcm_decrypt C wrapping_key (take NONCE_LEN blob) (drop NONCE_LEN blob) of
          None \<Rightarrow> Inl (Internal (''AES-256-GCM decrypt failed '' @ em_dash @ '' wrong key or corrupt data''))
        | Some plaintext \<Rightarrow>
            if length plaintext \<noteq> KEY_LEN then
              Inl (Internal (''Unwrapped key has wrong length: expected '' @ show_nat KEY_LEN @
                    '', got '' @ show_nat (length plaintext)))
            else Inr plaintext))"

definition wrap_data_key :: "crypto \<Rightarrow> byte list \<Rightarrow> byte list \<Rightarrow> ('z, byte list) app" where
  "wrap_data_key C master_key data_key = aes_gcm_wrap C master_key data_key"

definition unwrap_data_key :: "crypto \<Rightarrow> byte list \<Rightarrow> byte list \<Rightarrow> app_error + byte list" where
  "unwrap_data_key C master_key blob = aes_gcm_unwrap C master_key blob"

definition decode_secret_key :: "crypto \<Rightarrow> string \<Rightarrow> app_error + byte list" where
  "decode_secret_key C secret_key_b64 =
     (case base64_decode C (trim secret_key_b64) of
        Inl e \<Rightarrow> Inl (Internal (''IRONDRIVE_SECRET_KEY is not valid base64: '' @ e))
      | Inr bytes \<Rightarrow>
          if length bytes \<noteq> KEY_LEN then
            Inl (Internal (''IRONDRIVE_SECRET_KEY must decode to exactly '' @ show_nat KEY_LEN @
                  '' bytes, got '' @ show_nat (length bytes)))
          else Inr bytes)"

section \<open>Single-shot files in memory\<close>

definition encrypt_file_bytes :: "crypto \<Rightarrow> byte list \<Rightarrow> byte list \<Rightarrow> ('z, byte list) app" where
  "encrypt_file_bytes C data_key plaintext =
     bind (fill_bytes NONCE_LEN) (\<lambda>nonce.
       case gcm_encrypt C data_key nonce plaintext of
         None \<Rightarrow> throw (Internal (''File encryption failed: '' @ aead_error))
       | Some (c, t) \<Rightarrow> (let blob = SINGLE_MAGIC @ nonce @ c @ t in ret (blob @ sha256 C blob)))"

datatype decrypt_outcome = DecOk "byte list" | DecFailed string | DecHashMismatch

definition decrypt_file_bytes_inner :: "crypto \<Rightarrow> byte list \<Rightarrow> byte list \<Rightarrow> decrypt_outcome" where
  "decrypt_file_bytes_inner C data_key blob =
     (if length blob < MIN_SINGLE_FILE_LEN then
        DecFailed (''Encrypted file too small ('' @ show_nat (length blob) @ '' bytes, minimum '' @
                   show_nat MIN_SINGLE_FILE_LEN @ '')'')
      else if take MAGIC_LEN blob \<noteq> SINGLE_MAGIC then
        DecFailed ''Not a single-shot encrypted file (bad magic bytes)''
      else (let content = take (length blob - FILE_HASH_LEN) blob;
                stored_hash = drop (length blob - FILE_HASH_LEN) blob
            in if sha256 C content \<noteq> stored_hash then DecHashMismatch
               else (let nonce = take NONCE_LEN (drop MAGIC_LEN content);
                         ciphertext_and_tag = drop (MAGIC_LEN + NONCE_LEN) content
                     in case gcm_decrypt C data_key nonce ciphertext_and_tag of
                          None \<Rightarrow> DecFailed (''File decryption failed '' @ em_dash @
                                     '' wrong key or tampered ciphertext'')
                        | Some plaintext \<Rightarrow> DecOk plaintext)))"

definition hash_mismatch_msg :: string where
  "hash_mismatch_msg = ''File hash mismatch '' @ em_dash @ '' data on disk may be corrupted''"

definition decrypt_file_bytes :: "crypto \<Rightarrow> byte list \<Rightarrow> byte list \<Rightarrow> app_error + byte list" where
  "decrypt_file_bytes C data_key blob =
     (case decrypt_file_bytes_inner C data_key blob of
        DecOk plaintext \<Rightarrow> Inr plaintext
      | DecHashMismatch \<Rightarrow> Inl (Internal hash_mismatch_msg)
      | DecFailed msg \<Rightarrow> Inl (Internal msg))"

datatype integrity_status = StatusOk | FileHashMismatch | DecryptionFailed string

definition verify_file_integrity :: "crypto \<Rightarrow> byte list \<Rightarrow> byte list \<Rightarrow> integrity_status" where
  "verify_file_integrity C data_key blob =
     (case decrypt_file_bytes_inner C data_key blob of
        DecOk plaintext \<Rightarrow> StatusOk
      | DecHashMismatch \<Rightarrow> FileHashMismatch
      | DecFailed msg \<Rightarrow> DecryptionFailed msg)"

section \<open>Hashing and the key-free check\<close>

text \<open>
  \<open>sha256_file\<close> reads until a read returns nothing; every other read shortens the handle, so the
  loop ends whatever the length of the reads.
\<close>

function sha256_loop :: "byte list \<Rightarrow> byte list \<Rightarrow> ('z, byte list) app" where
  "sha256_loop h acc w =
     (case map_err (internal_ctx ''Failed to read file for hashing'') (fs_read_some HASH_BUF_SIZE h) w of
        (Inl e, w') \<Rightarrow> (Inl e, w')
      | (Inr (bs, h'), w') \<Rightarrow>
          if bs = [] then (Inr acc, w') else sha256_loop h' (acc @ bs) w')"
  by pat_completeness auto

lemma fs_read_some_Inr:
  "fs_read_some k h w = (Inr (bs, h'), w') \<Longrightarrow>
     bs @ h' = h \<and> length bs \<le> k \<and> tree w' = tree w \<and> (bs = [] \<and> k \<noteq> 0 \<longrightarrow> h = [])"
  by (auto simp: fs_read_some_def Let_def dest!: query_Inr split: if_splits)

lemma fs_read_some_shorter:
  assumes "(Inr (bs, h'), y) = map_err f (fs_read_some k h) w" "bs \<noteq> []"
  shows "length h' < length h"
proof -
  have "fs_read_some k h w = (Inr (bs, h'), y)" using assms(1) [symmetric] by simp
  then have "h = bs @ h'" by (auto dest: fs_read_some_Inr)
  then show ?thesis using assms(2) by simp
qed

termination sha256_loop
  by (relation "measure (\<lambda>(h, acc, w). length h)") (auto intro: fs_read_some_shorter)

definition sha256_file :: "crypto \<Rightarrow> path \<Rightarrow> ('z, byte list) app" where
  "sha256_file C p =
     bind (map_err (internal_ctx ''Failed to open file for hashing'') (fs_open p)) (\<lambda>file.
     bind (sha256_loop file []) (\<lambda>fed. ret (sha256 C fed)))"

definition too_small_msg :: "nat \<Rightarrow> string" where
  "too_small_msg n = ''File too small for integrity check ('' @ show_nat n @ '' bytes, need at least '' @
     show_nat (MAGIC_LEN + FILE_HASH_LEN) @ '')''"

definition verify_file_hash_bytes :: "crypto \<Rightarrow> byte list \<Rightarrow> app_error + unit" where
  "verify_file_hash_bytes C blob =
     (if length blob < MAGIC_LEN + FILE_HASH_LEN then Inl (Internal (too_small_msg (length blob)))
      else if sha256 C (take (length blob - FILE_HASH_LEN) blob) \<noteq> drop (length blob - FILE_HASH_LEN) blob
      then Inl (Internal hash_mismatch_msg)
      else Inr ())"

text \<open>The read loop of \<open>verify_file_hash\<close>: the bytes fed to the hasher and the handle behind them.\<close>

function verify_loop :: "nat \<Rightarrow> byte list \<Rightarrow> byte list \<Rightarrow> ('z, byte list \<times> byte list) app" where
  "verify_loop remaining h acc =
     (if 0 < remaining then
        bind (map_err (internal_ctx ''Failed to read file for integrity check'')
                (fs_read_some (min remaining HASH_BUF_SIZE) h)) (\<lambda>(bs, h').
          if bs = [] then throw (Internal ''Unexpected EOF during integrity check'')
          else verify_loop (remaining - length bs) h' (acc @ bs))
      else ret (acc, h))"
  by pat_completeness auto

termination verify_loop
  by (relation "measure (\<lambda>(remaining, h, acc). remaining)") auto

declare sha256_loop.simps [simp del] verify_loop.simps [simp del]

definition verify_file_hash :: "crypto \<Rightarrow> path \<Rightarrow> ('z, unit) app" where
  "verify_file_hash C p =
     bind (map_err (internal_ctx ''Failed to stat file for integrity check'') (fs_metadata p)) (\<lambda>meta.
     let file_len = len meta in
     bind (reject_if (file_len < MAGIC_LEN + FILE_HASH_LEN) (Internal (too_small_msg file_len))) (\<lambda>_.
     bind (map_err (internal_ctx ''Failed to open file for integrity check'') (fs_open p)) (\<lambda>file.
     bind (verify_loop (file_len - FILE_HASH_LEN) file []) (\<lambda>(fed, file).
     bind (map_err (internal_ctx ''Failed to read file hash tail'') (fs_read_exact FILE_HASH_LEN file))
       (\<lambda>(stored_hash, file).
     reject_if (sha256 C fed \<noteq> stored_hash) (Internal hash_mismatch_msg))))))"

section \<open>Writing single-shot files\<close>

definition encrypt_and_write_file_owned ::
  "crypto \<Rightarrow> byte list \<Rightarrow> byte list \<Rightarrow> path \<Rightarrow> bool \<Rightarrow> ('z, unit) app" where
  "encrypt_and_write_file_owned C data_key plaintext dest write_verify =
     bind (fill_bytes NONCE_LEN) (\<lambda>nonce.
     bind (ok_or (Internal (''File encryption failed: '' @ aead_error)) (gcm_encrypt C data_key nonce plaintext))
       (\<lambda>(plaintext, tag).
     bind (map_err (internal_ctx ''Failed to write encrypted file'') (fs_create dest)) (\<lambda>file.
     bind (map_err (internal_ctx ''Failed to write encrypted file magic'') (fs_write_all file SINGLE_MAGIC)) (\<lambda>_.
     let hasher = SINGLE_MAGIC in
     bind (map_err (internal_ctx ''Failed to write encrypted file nonce'') (fs_write_all file nonce)) (\<lambda>_.
     let hasher = hasher @ nonce in
     bind (map_err (internal_ctx ''Failed to write encrypted file body'') (fs_write_all file plaintext)) (\<lambda>_.
     let hasher = hasher @ plaintext in
     bind (map_err (internal_ctx ''Failed to write encrypted file tag'') (fs_write_all file tag)) (\<lambda>_.
     let hasher = hasher @ tag; file_hash = sha256 C hasher in
     bind (map_err (internal_ctx ''Failed to write encrypted file hash'') (fs_write_all file file_hash)) (\<lambda>_.
     bind (map_err (internal_ctx ''Failed to flush encrypted file'') (fs_flush file)) (\<lambda>_.
     bind (map_err (internal_ctx ''Failed to sync encrypted file to disk'') (fs_sync_data file)) (\<lambda>_.
       if write_verify then
         bind (map_err (\<lambda>e. Internal (''Write-verify failed: '' @ display_error e)) (verify_file_hash C dest)) (\<lambda>_.
         bind (map_err (internal_ctx ''Write-verify: failed to read back file'') (fs_read dest)) (\<lambda>readback.
         bind (lift (decrypt_file_bytes C data_key readback)) (\<lambda>_. ret ())))
       else ret ()))))))))))"

definition encrypt_and_write_file ::
  "crypto \<Rightarrow> byte list \<Rightarrow> byte list \<Rightarrow> path \<Rightarrow> bool \<Rightarrow> ('z, unit) app" where
  "encrypt_and_write_file C data_key plaintext dest write_verify =
     encrypt_and_write_file_owned C data_key plaintext dest write_verify"

section \<open>STREAM files\<close>

text \<open>\<open>u32::to_le_bytes\<close> and \<open>u32::from_le_bytes\<close>.\<close>

definition to_le_bytes :: "32 word \<Rightarrow> byte list" where
  "to_le_bytes w = [ucast w, ucast (drop_bit 8 w), ucast (drop_bit 16 w), ucast (drop_bit 24 w)]"

fun from_le_bytes :: "byte list \<Rightarrow> 32 word" where
  "from_le_bytes [] = 0"
| "from_le_bytes (b # bs) = ucast b OR push_bit 8 (from_le_bytes bs)"

text \<open>
  The chunk loop of \<open>stream_encrypt_chunks_to_file\<close> from chunk \<open>i\<close> of \<open>n_chunks\<close>; the encryptor's
  counter is the chunk index. It returns the bytes read and the bytes fed to the hasher.
\<close>

fun stream_chunks ::
  "crypto \<Rightarrow> byte list \<Rightarrow> byte list \<Rightarrow> path \<Rightarrow> nat \<Rightarrow> nat \<Rightarrow> path list \<Rightarrow> nat \<Rightarrow> byte list
    \<Rightarrow> ('z, nat \<times> byte list) app" where
  "stream_chunks C k nonce out n_chunks i [] bytes_read hasher = ret (bytes_read, hasher)"
| "stream_chunks C k nonce out n_chunks i (p # ps) bytes_read hasher =
     bind (map_err (\<lambda>_. Validation (''Missing chunk '' @ show_nat i @ ''.'')) (fs_read p)) (\<lambda>buf.
     let bytes_read = bytes_read + length buf; is_last = (i + 1 = n_chunks) in
     bind (ok_or (Internal ((if is_last then ''STREAM encrypt last segment failed: ''
                             else ''STREAM encrypt segment '' @ show_nat i @ '' failed: '') @ aead_error))
             (stream_seal C k nonce i is_last buf)) (\<lambda>buf.
     let seg_len_bytes = to_le_bytes (word_of_nat (length buf)) in
     bind (map_err (internal_ctx ''Failed to write segment header'') (fs_write_all out seg_len_bytes)) (\<lambda>_.
     let hasher = hasher @ seg_len_bytes in
     bind (map_err (internal_ctx ''Failed to write segment body'') (fs_write_all out buf)) (\<lambda>_.
     stream_chunks C k nonce out n_chunks (i + 1) ps bytes_read (hasher @ buf)))))"

definition stream_encrypt_chunks_to_file ::
  "crypto \<Rightarrow> byte list \<Rightarrow> path list \<Rightarrow> nat \<Rightarrow> path \<Rightarrow> bool \<Rightarrow> ('z, unit) app" where
  "stream_encrypt_chunks_to_file C data_key chunk_paths total_plaintext_bytes dest write_verify =
     bind (fill_bytes STREAM_NONCE_LEN) (\<lambda>stream_nonce.
     bind (map_err (internal_ctx ''Failed to create encrypted file'') (fs_create dest)) (\<lambda>out.
     bind (map_err (internal_ctx ''Failed to write STREAM magic'') (fs_write_all out STREAM_MAGIC)) (\<lambda>_.
     bind (map_err (internal_ctx ''Failed to write STREAM nonce'') (fs_write_all out stream_nonce)) (\<lambda>_.
     bind (stream_chunks C data_key stream_nonce out (length chunk_paths) 0 chunk_paths 0
             (STREAM_MAGIC @ stream_nonce)) (\<lambda>(bytes_read, hasher).
     bind (reject_if (bytes_read \<noteq> total_plaintext_bytes)
             (Internal (''Chunk size mismatch: expected '' @ show_nat total_plaintext_bytes @
                '' bytes, read '' @ show_nat bytes_read))) (\<lambda>_.
     bind (map_err (internal_ctx ''Failed to write file hash'') (fs_write_all out (sha256 C hasher))) (\<lambda>_.
     bind (map_err (internal_ctx ''Failed to flush encrypted file'') (fs_flush out)) (\<lambda>_.
     bind (map_err (internal_ctx ''Failed to sync encrypted file to disk'') (fs_sync_data out)) (\<lambda>_.
       if write_verify then verify_file_hash C dest else ret ())))))))))"

text \<open>
  The segment loop of \<open>stream_decrypt_file_inner\<close> over the file's bytes. A segment is decrypted
  once the next one has been read, so only the last is opened with the last-segment flag; \<open>ctr\<close>
  is the decryptor's counter.
\<close>

function decrypt_segments ::
  "crypto \<Rightarrow> byte list \<Rightarrow> byte list \<Rightarrow> byte list \<Rightarrow> nat \<Rightarrow> nat \<Rightarrow> nat \<Rightarrow> byte list option \<Rightarrow> byte list
    \<Rightarrow> app_error + byte list" where
  "decrypt_segments C k nonce raw segments_end pos ctr pending plaintext =
     (if pos < segments_end then
        (if pos + STREAM_SEGMENT_HEADER_LEN > segments_end then
           Inl (Internal ''STREAM file truncated inside segment header'')
         else (let seg_len = unat (from_le_bytes (take 4 (drop pos raw)));
                   pos = pos + STREAM_SEGMENT_HEADER_LEN
               in if pos + seg_len > segments_end then
                    Inl (Internal ''STREAM file truncated inside segment body'')
                  else (let seg_data = take seg_len (drop pos raw); pos = pos + seg_len
                        in case pending of
                             None \<Rightarrow> decrypt_segments C k nonce raw segments_end pos ctr (Some seg_data) plaintext
                           | Some prev \<Rightarrow> (case stream_open C k nonce ctr False prev of
                                 None \<Rightarrow> Inl (Internal (''STREAM decrypt segment failed '' @ em_dash @
                                           '' wrong key or tampered data''))
                               | Some pt \<Rightarrow> decrypt_segments C k nonce raw segments_end pos (ctr + 1)
                                             (Some seg_data) (plaintext @ pt)))))
      else (case pending of
              None \<Rightarrow> Inr plaintext
            | Some seg \<Rightarrow> (case stream_open C k nonce ctr True seg of
                  None \<Rightarrow> Inl (Internal (''STREAM decrypt last segment failed '' @ em_dash @
                            '' wrong key or tampered data''))
                | Some pt \<Rightarrow> Inr (plaintext @ pt))))"
  by pat_completeness auto

termination decrypt_segments
  by (relation "measure (\<lambda>(C, k, nonce, raw, segments_end, pos, ctr, pending, plaintext). segments_end - pos)")
    (auto simp: STREAM_SEGMENT_HEADER_LEN_def)

definition stream_decrypt_bytes :: "crypto \<Rightarrow> byte list \<Rightarrow> byte list \<Rightarrow> app_error + byte list" where
  "stream_decrypt_bytes C data_key raw =
     (if length raw < MIN_STREAM_FILE_LEN then
        Inl (Internal ''STREAM file too small to contain header + file hash'')
      else (case verify_file_hash_bytes C raw of
          Inl e \<Rightarrow> Inl e
        | Inr _ \<Rightarrow>
            if take MAGIC_LEN raw \<noteq> STREAM_MAGIC then Inl (Internal ''STREAM file has wrong magic bytes'')
            else decrypt_segments C data_key (take STREAM_NONCE_LEN (drop MAGIC_LEN raw)) raw
                   (length raw - FILE_HASH_LEN) (MAGIC_LEN + STREAM_NONCE_LEN) 0 None []))"

definition stream_decrypt_file :: "crypto \<Rightarrow> byte list \<Rightarrow> path \<Rightarrow> ('z, byte list) app" where
  "stream_decrypt_file C data_key p =
     bind (map_err (internal_ctx ''Failed to read STREAM encrypted file'') (fs_read p)) (\<lambda>raw.
       lift (stream_decrypt_bytes C data_key raw))"

text \<open>The segment loop of \<open>stream_verify_decryption\<close>, reading through a file handle.\<close>

function verify_segments ::
  "crypto \<Rightarrow> byte list \<Rightarrow> byte list \<Rightarrow> nat \<Rightarrow> nat \<Rightarrow> byte list \<Rightarrow> nat \<Rightarrow> byte list option \<Rightarrow> ('z, unit) app"
where
  "verify_segments C k nonce segments_end pos h ctr pending =
     (if pos < segments_end then
        bind (map_err (internal_ctx ''STREAM verify: truncated segment header'') (fs_read_exact 4 h))
          (\<lambda>(seg_len_buf, h).
        let pos = pos + 4; seg_len = unat (from_le_bytes seg_len_buf) in
        bind (map_err (internal_ctx ''STREAM verify: truncated segment body'') (fs_read_exact seg_len h))
          (\<lambda>(seg_data, h).
        let pos = pos + seg_len in
        case pending of
          None \<Rightarrow> verify_segments C k nonce segments_end pos h ctr (Some seg_data)
        | Some prev \<Rightarrow> (case stream_open C k nonce ctr False prev of
              None \<Rightarrow> throw (Internal ''STREAM verify: decrypt segment failed'')
            | Some pt \<Rightarrow> verify_segments C k nonce segments_end pos h (ctr + 1) (Some seg_data))))
      else (case pending of
              None \<Rightarrow> ret ()
            | Some seg \<Rightarrow> (case stream_open C k nonce ctr True seg of
                  None \<Rightarrow> throw (Internal ''STREAM verify: decrypt last segment failed'')
                | Some pt \<Rightarrow> ret ())))"
  by pat_completeness auto

termination verify_segments
  by (relation "measure (\<lambda>(C, k, nonce, segments_end, pos, h, ctr, pending). segments_end - pos)") auto

declare decrypt_segments.simps [simp del] verify_segments.simps [simp del]

definition stream_verify_decryption :: "crypto \<Rightarrow> byte list \<Rightarrow> path \<Rightarrow> ('z, unit) app" where
  "stream_verify_decryption C data_key p =
     bind (map_err (internal_ctx ''Failed to open STREAM file for verify'') (fs_open p)) (\<lambda>file.
     bind (map_err (internal_ctx ''Failed to stat STREAM file'') (fs_metadata p)) (\<lambda>meta.
     let file_len = len meta in
     bind (verify_file_hash C p) (\<lambda>_.
     bind (map_err (internal_ctx ''Failed to re-open STREAM file'') (fs_open p)) (\<lambda>file.
     let header_len = MAGIC_LEN + STREAM_NONCE_LEN in
     bind (map_err (\<lambda>_. Internal ''STREAM file too small to contain header'') (fs_read_exact header_len file))
       (\<lambda>(header_buf, file).
     bind (reject_if (take MAGIC_LEN header_buf \<noteq> STREAM_MAGIC)
             (Internal ''STREAM file has wrong magic bytes'')) (\<lambda>_.
     verify_segments C data_key (take STREAM_NONCE_LEN (drop MAGIC_LEN header_buf))
       (file_len - FILE_HASH_LEN) header_len file 0 None))))))"

section \<open>Any encrypted file\<close>

definition is_stream_format :: "path \<Rightarrow> ('z os_scheme, 'e, bool) act" where
  "is_stream_format p =
     bind (attempt (fs_open p)) (\<lambda>r. case r of
         Inl e \<Rightarrow> ret False
       | Inr file \<Rightarrow>
           bind (attempt (fs_read_exact 3 file)) (\<lambda>m. case m of
               Inl e \<Rightarrow> ret False
             | Inr (magic, rest) \<Rightarrow> ret (magic = STREAM_MAGIC)))"

definition verify_file_integrity_async ::
  "crypto \<Rightarrow> byte list option \<Rightarrow> path \<Rightarrow> ('z os_scheme, 'e, integrity_status) act" where
  "verify_file_integrity_async C data_key p =
     bind (attempt (verify_file_hash C p)) (\<lambda>tier1. case tier1 of
       Inl e \<Rightarrow> ret FileHashMismatch
     | Inr _ \<Rightarrow> (case data_key of
         None \<Rightarrow> ret StatusOk
       | Some dk \<Rightarrow>
           bind (is_stream_format p) (\<lambda>stream.
             if stream then
               bind (attempt (stream_verify_decryption C dk p)) (\<lambda>r. case r of
                   Inr _ \<Rightarrow> ret StatusOk
                 | Inl e \<Rightarrow> ret (DecryptionFailed (display_error e)))
             else
               bind (attempt (fs_read p)) (\<lambda>r. case r of
                   Inr blob \<Rightarrow> ret (verify_file_integrity C dk blob)
                 | Inl e \<Rightarrow> ret (DecryptionFailed (''read error: '' @ io_display e))))))"

definition read_and_decrypt_file :: "crypto \<Rightarrow> byte list \<Rightarrow> path \<Rightarrow> ('z, byte list) app" where
  "read_and_decrypt_file C data_key p =
     bind (is_stream_format p) (\<lambda>stream.
       if stream then stream_decrypt_file C data_key p
       else bind (map_err (internal_ctx ''Failed to read encrypted file'') (fs_read p)) (\<lambda>blob.
              lift (decrypt_file_bytes C data_key blob)))"

end
