(* ===== verification/CryptoFacts.thy ===== *)
theory CryptoFacts
  imports Crypto
begin

text \<open>
  What the encrypted formats promise: wrapped keys unwrap, a written file decrypts to what was
  written in both formats, the key-free check by streaming agrees with the check in memory and
  guards every decryption, and the integrity check agrees with reading the file.
\<close>

section \<open>Reading the hypothesis on the primitives\<close>

lemma crypto_hash: "crypto_ok C \<Longrightarrow> length (sha256 C d) = 32"
  by (simp add: crypto_ok_def)

lemma crypto_gcm:
  "crypto_ok C \<Longrightarrow> gcm_encrypt C k n p = Some (c, t) \<Longrightarrow>
     length c = length p \<and> length t = 16 \<and> gcm_decrypt C k n (c @ t) = Some p"
  by (simp add: crypto_ok_def)

lemma crypto_stream:
  "crypto_ok C \<Longrightarrow> stream_seal C k n i l p = Some c \<Longrightarrow>
     length c = length p + 16 \<and> stream_open C k n i l c = Some p"
  by (simp add: crypto_ok_def)

lemma length_fill_bytes: "fill_bytes n w = (Inr bs, w') \<Longrightarrow> length bs = n"
  by (auto simp: fill_bytes_def)

lemma tree_fill_bytes: "fill_bytes n w = (r, w') \<Longrightarrow> tree w' = tree w"
  by (auto simp: fill_bytes_def)

section \<open>Key wrapping\<close>

lemma aes_gcm_wrap_Inr:
  assumes "aes_gcm_wrap C k p w = (Inr blob, w')"
  obtains n c t where "length n = 12" "gcm_encrypt C k n p = Some (c, t)" "blob = n @ c @ t"
  using assms
  by (auto simp: aes_gcm_wrap_def bind_Inr_iff NONCE_LEN_def split: option.splits dest!: length_fill_bytes)

lemma wrapped_key:
  assumes ok: "crypto_ok C" and len: "length data_key = 32"
    and run: "wrap_data_key C master_key data_key w = (Inr blob, w')"
  shows "length blob = 60 \<and> unwrap_data_key C master_key blob = Inr data_key"
proof -
  obtain n c t where b: "length n = 12" "gcm_encrypt C master_key n data_key = Some (c, t)" "blob = n @ c @ t"
    using run aes_gcm_wrap_Inr unfolding wrap_data_key_def by metis
  then show ?thesis
    using crypto_gcm [OF ok b(2)] len
    by (simp add: unwrap_data_key_def aes_gcm_unwrap_def len_defs)
qed

text \<open>
  C3. A data key wrapped with the master key is recovered by unwrapping the stored blob, which is
  60 bytes long.
\<close>

theorem wrap_unwrap_data_key:
  assumes ok: "crypto_ok C" and len: "length data_key = 32"
    and run: "wrap_data_key C master_key data_key w = (Inr blob, w')"
  shows "length blob = 60 \<and> unwrap_data_key C master_key blob = Inr data_key"
  using wrapped_key [OF ok len run] .

section \<open>The trailing hash\<close>

definition hashed :: "crypto \<Rightarrow> byte list \<Rightarrow> byte list" where
  "hashed C b = b @ sha256 C b"

lemma hashed_parts:
  assumes "crypto_ok C"
  shows "length (hashed C b) = length b + 32"
    and "take (length (hashed C b) - 32) (hashed C b) = b"
    and "drop (length (hashed C b) - 32) (hashed C b) = sha256 C b"
    and "n \<le> length b \<Longrightarrow> take n (hashed C b) = take n b"
    and "n + m \<le> length b \<Longrightarrow> take m (drop n (hashed C b)) = take m (drop n b)"
  using assms by (simp_all add: hashed_def crypto_hash)

lemma hashed_verifies: "crypto_ok C \<Longrightarrow> 3 \<le> length b \<Longrightarrow> verify_file_hash_bytes C (hashed C b) = Inr ()"
  using hashed_parts(1-3) [of C b] by (simp add: verify_file_hash_bytes_def len_defs)

section \<open>The single-shot format\<close>

definition single_blob :: "crypto \<Rightarrow> byte list \<Rightarrow> byte list \<Rightarrow> byte list \<Rightarrow> byte list" where
  "single_blob C n c t = hashed C (SINGLE_MAGIC @ n @ c @ t)"

text \<open>The blob is a valid single-shot encryption of \<open>p\<close> under \<open>k\<close>.\<close>

definition single_of :: "crypto \<Rightarrow> byte list \<Rightarrow> byte list \<Rightarrow> byte list \<Rightarrow> bool" where
  "single_of C k p blob = (\<exists>n c t. length n = 12 \<and> gcm_encrypt C k n p = Some (c, t) \<and>
     blob = single_blob C n c t)"

lemma encrypt_file_bytes_Inr:
  "encrypt_file_bytes C k p w = (Inr blob, w') \<Longrightarrow> single_of C k p blob"
  by (auto simp: encrypt_file_bytes_def bind_Inr_iff single_of_def single_blob_def hashed_def NONCE_LEN_def
      Let_def split: option.splits dest!: length_fill_bytes)

lemma length_SINGLE_MAGIC [simp]: "length SINGLE_MAGIC = 3"
  by (simp add: SINGLE_MAGIC_def)

lemma length_STREAM_MAGIC [simp]: "length STREAM_MAGIC = 3"
  by (simp add: STREAM_MAGIC_def)

lemma magics_differ: "SINGLE_MAGIC \<noteq> STREAM_MAGIC"
  by (simp add: SINGLE_MAGIC_def STREAM_MAGIC_def)

lemma single_ofE:
  assumes ok: "crypto_ok C" and s: "single_of C k p blob"
  obtains n c t where "length n = 12" "length c = length p" "length t = 16"
    "gcm_decrypt C k n (c @ t) = Some p" "blob = hashed C (SINGLE_MAGIC @ n @ c @ t)"
  using s crypto_gcm [OF ok] unfolding single_of_def single_blob_def by metis

lemma single_length:
  assumes "crypto_ok C" "single_of C k p blob"
  shows "length blob = length p + 63"
  by (rule single_ofE [OF assms]) (simp add: hashed_parts hashed_verifies assms(1))

lemma single_magic:
  assumes "crypto_ok C" "single_of C k p blob"
  shows "take 3 blob = SINGLE_MAGIC"
  by (rule single_ofE [OF assms]) (simp add: hashed_parts hashed_verifies assms(1))

lemma single_hash_ok:
  assumes "crypto_ok C" "single_of C k p blob"
  shows "verify_file_hash_bytes C blob = Inr ()"
  by (rule single_ofE [OF assms]) (simp add: hashed_parts hashed_verifies assms(1))

lemma single_decrypt:
  assumes ok: "crypto_ok C" and s: "single_of C k p blob"
  shows "decrypt_file_bytes_inner C k blob = DecOk p"
proof -
  obtain n c t where b: "length n = 12" "length c = length p" "length t = 16"
    "gcm_decrypt C k n (c @ t) = Some p" "blob = hashed C (SINGLE_MAGIC @ n @ c @ t)"
    using single_ofE [OF ok s] by metis
  note parts = hashed_parts(2,3) [OF ok, of "SINGLE_MAGIC @ n @ c @ t", folded b(5)]
  show ?thesis
    using single_length [OF ok s] single_magic [OF ok s] b(1-4) parts
    by (simp add: decrypt_file_bytes_inner_def len_defs)
qed

lemma single_decrypt_bytes:
  "crypto_ok C \<Longrightarrow> single_of C k p blob \<Longrightarrow> decrypt_file_bytes C k blob = Inr p"
  by (simp add: decrypt_file_bytes_def single_decrypt)

section \<open>Segment lengths\<close>

lemma from_to_le_bytes: "from_le_bytes (to_le_bytes w) = w"
  unfolding to_le_bytes_def
proof (rule bit_word_eqI)
  fix n assume n: "n < LENGTH(32)"
  then consider "n < 8" | "8 \<le> n" "n < 16" | "16 \<le> n" "n < 24" | "24 \<le> n" by linarith
  then show "bit (from_le_bytes [ucast w, ucast (drop_bit 8 w), ucast (drop_bit 16 w), ucast (drop_bit 24 w)]) n
      = bit w n"
    using n by cases (auto simp: bit_simps)
qed

lemma segment_length: "n < 2 ^ 32 \<Longrightarrow> unat (from_le_bytes (to_le_bytes (word_of_nat n))) = n"
  by (simp add: from_to_le_bytes unat_of_nat)

lemma length_to_le_bytes [simp]: "length (to_le_bytes w) = 4"
  by (simp add: to_le_bytes_def)

section \<open>Writing a single-shot file\<close>

lemma readonly_verify_loop: "keeps readonly (verify_loop n h acc)"
proof (induction n h acc rule: verify_loop.induct)
  case (1 n h acc)
  show ?case
    unfolding verify_loop.simps [of n h acc]
    by (intro readonly_rules) (auto intro: 1)
qed

lemma readonly_verify_file_hash: "keeps readonly (verify_file_hash C p)"
  unfolding verify_file_hash_def
  by (intro readonly_rules readonly_verify_loop)

lemma readonly_decrypted: "keeps readonly (stream_decrypt_file C k p)"
  "keeps readonly (is_stream_format p)" "keeps readonly (read_and_decrypt_file C k p)"
proof -
  show s: "keeps readonly (stream_decrypt_file C k p)"
    unfolding stream_decrypt_file_def by (intro readonly_rules)
  show i: "keeps readonly (is_stream_format p)" for p
    unfolding is_stream_format_def by (intro readonly_rules)
  show "keeps readonly (read_and_decrypt_file C k p)"
    unfolding read_and_decrypt_file_def by (intro readonly_rules s i)
qed

lemma encrypt_write_Inr:
  fixes w :: "'z os_scheme"
  assumes wf: "wf_tree (tree w)" and l: "linkfree (tree w) dest"
    and run: "encrypt_and_write_file_owned C k p dest v w = (Inr u, w')"
  shows "\<exists>blob. single_of C k p blob \<and> tree w' = put dest (Reg blob) (tree w) \<and> dest \<noteq> []"
proof -
  obtain n c t h w1 w2 w3 w4 w5 w6 w7 w8 w9 where
    n: "(fill_bytes NONCE_LEN :: ('z, byte list) app) w = (Inr n, w1)" and ct: "gcm_encrypt C k n p = Some (c, t)"
    and h: "fs_create dest w1 = (Inr h, w2)"
    and s: "fs_write_all h SINGLE_MAGIC w2 = (Inr (), w3)" "fs_write_all h n w3 = (Inr (), w4)"
      "fs_write_all h c w4 = (Inr (), w5)" "fs_write_all h t w5 = (Inr (), w6)"
      "fs_write_all h (sha256 C (SINGLE_MAGIC @ n @ c @ t)) w6 = (Inr (), w7)"
    and f: "fs_flush h w7 = (Inr (), w8)" "fs_sync_data h w8 = (Inr (), w9)"
    and tl: "tree w' = tree w9"
    using run unfolding encrypt_and_write_file_owned_def Let_def
    by (cases v) (auto simp: bind_Inr_iff split: option.splits
        dest!: readonlyD [OF readonly_verify_file_hash] readonlyD [OF readonly_calls(6)])
  have w1: "tree w1 = tree w" "length n = 12"
    using n by (auto simp: NONCE_LEN_def dest: tree_fill_bytes length_fill_bytes)
  have d: "h = dest" "dest \<noteq> []" "tree w2 = put dest (Reg []) (tree w)"
    using create_Inr [OF _ _ h] wf l w1 by auto
  have "tree w7 = put dest (Reg (SINGLE_MAGIC @ n @ c @ t @ sha256 C (SINGLE_MAGIC @ n @ c @ t))) (tree w)"
    using s [THEN write_all_Inr] d by (simp add: append_to_put)
  moreover have "tree w9 = tree w7"
    using f readonlyD [OF readonly_calls(8)] readonlyD [OF readonly_calls(9)] by metis
  moreover have "single_of C k p (SINGLE_MAGIC @ n @ c @ t @ sha256 C (SINGLE_MAGIC @ n @ c @ t))"
    using w1 ct by (auto simp: single_of_def single_blob_def hashed_def)
  ultimately show ?thesis using d tl by auto
qed

lemma wf_put_created:
  assumes wf: "wf_tree t" "wf_tree (put p (Reg []) t)" and ne: "p \<noteq> []"
  shows "wf_tree (put p (Reg d) t)"
proof -
  have p: "lookup (put p (Reg []) t) p = Some (Reg [])" using ne by (simp add: lookup_put)
  then have "name_ok (last p) \<and> lookup (put p (Reg []) t) (butlast p) = Some Dir"
    using wf(2) ne unfolding wf_tree_def by blast
  then have "wf_tree (put p (Reg d) (put p (Reg []) t))"
    using p by (intro wf_put [OF wf(2) ne]) auto
  then show ?thesis by (simp add: put_put)
qed

lemma keeps_wf_encrypt_write:
  fixes w :: "'z os_scheme"
  assumes wf: "wf_tree (tree w)" and l: "linkfree (tree w) dest"
    and run: "encrypt_and_write_file_owned C k p dest v w = (Inr u, w')"
  shows "wf_tree (tree w')"
proof -
  obtain n w1 h w2 where n: "(fill_bytes NONCE_LEN :: ('z, byte list) app) w = (Inr n, w1)"
    and h: "fs_create dest w1 = (Inr h, w2)"
    using run unfolding encrypt_and_write_file_owned_def Let_def
    by (auto simp: bind_Inr_iff split: option.splits)
  have "tree w1 = tree w" using n by (rule tree_fill_bytes)
  then have "wf_tree (put dest (Reg []) (tree w))" "dest \<noteq> []"
    using create_Inr [OF _ _ h] wf l by auto
  then show ?thesis using encrypt_write_Inr [OF assms] wf_put_created [OF wf] by auto
qed

section \<open>Reading an encrypted file\<close>

text \<open>What a file holds when its content is an encryption of \<open>p\<close> under \<open>k\<close>, in either format.\<close>

definition read_bytes :: "crypto \<Rightarrow> byte list \<Rightarrow> byte list \<Rightarrow> app_error + byte list" where
  "read_bytes C k blob =
     (if take 3 blob = STREAM_MAGIC then stream_decrypt_bytes C k blob else decrypt_file_bytes C k blob)"

lemma is_stream_format_file:
  assumes "calm w" "wf_tree (tree w)" "lookup (tree w) p = Some (Reg blob)"
  shows "fst (is_stream_format p w) = Inr (take 3 blob = STREAM_MAGIC) \<and>
    tree (snd (is_stream_format p w)) = tree w \<and> calm (snd (is_stream_format p w))"
proof -
  have o: "fs_open p w = (Inr blob, tick w)"
    using assms by (rule open_file_calm)
  have "take 3 blob \<noteq> STREAM_MAGIC" if "length blob < 3"
    using that by (auto simp: STREAM_MAGIC_def dest: arg_cong [of _ _ length])
  then show ?thesis using o assms(1) by (simp add: is_stream_format_def read_exact_calm)
qed

text \<open>Reading any encrypted file is the pure function \<open>read_bytes\<close> of its content.\<close>

lemma read_and_decrypt_file_bytes:
  fixes w :: "'z os_scheme"
  assumes "calm w" "wf_tree (tree w)" "lookup (tree w) p = Some (Reg blob)"
  shows "fst (read_and_decrypt_file C k p w) = read_bytes C k blob"
proof -
  obtain w1 where w1: "(is_stream_format p :: ('z, bool) app) w = (Inr (take 3 blob = STREAM_MAGIC), w1)" "calm w1"
    "tree w1 = tree w"
    using is_stream_format_file [OF assms, where 'b = app_error] by (metis prod.collapse)
  have r: "fs_read p w1 = (Inr blob, tick w1)"
    by (rule read_file_calm) (simp_all add: assms w1)
  show ?thesis
    using w1 r
    by (simp add: read_and_decrypt_file_def bind_InrI [of "is_stream_format p", OF w1(1)] stream_decrypt_file_def read_bytes_def
        bind_map_err_InrI [of "fs_read p", OF r])
qed

section \<open>The STREAM format\<close>

definition segment :: "byte list \<Rightarrow> byte list" where
  "segment c = to_le_bytes (word_of_nat (length c)) @ c"

lemma length_segment [simp]: "length (segment c) = 4 + length c"
  by (simp add: segment_def)

text \<open>The ciphertext segments of the plaintext chunks, counted from \<open>i\<close> up to \<open>m\<close>.\<close>

fun sealed :: "crypto \<Rightarrow> byte list \<Rightarrow> byte list \<Rightarrow> nat \<Rightarrow> nat \<Rightarrow> byte list list \<Rightarrow> byte list list \<Rightarrow> bool" where
  "sealed C k n m i [] [] = True"
| "sealed C k n m i (p # ps) (c # cs) = (stream_seal C k n i (i + 1 = m) p = Some c \<and> sealed C k n m (i + 1) ps cs)"
| "sealed C k n m i _ _ = False"

definition stream_of :: "crypto \<Rightarrow> byte list \<Rightarrow> byte list list \<Rightarrow> byte list \<Rightarrow> bool" where
  "stream_of C k ps blob = (\<exists>n cs. length n = 7 \<and> sealed C k n (length ps) 0 ps cs \<and>
     blob = hashed C (STREAM_MAGIC @ n @ concat (map segment cs)))"

lemma sealed_lengths:
  "crypto_ok C \<Longrightarrow> sealed C k n m i ps cs \<Longrightarrow> length cs = length ps \<and>
     length (concat (map segment cs)) = length (concat ps) + 20 * length ps"
  by (induction C k n m i ps cs rule: sealed.induct) (auto dest: crypto_stream)

lemma sealed_small:
  "crypto_ok C \<Longrightarrow> sealed C k n m i ps cs \<Longrightarrow> \<forall>p \<in> set ps. length p + 16 < 2 ^ 32 \<Longrightarrow>
     \<forall>c \<in> set cs. length c < 2 ^ 32"
  by (induction C k n m i ps cs rule: sealed.induct) (auto dest: crypto_stream)

lemma stream_length:
  assumes "crypto_ok C" "stream_of C k ps blob"
  shows "length blob = length (concat ps) + 20 * length ps + 42"
  using assms sealed_lengths [OF assms(1)] by (auto simp: stream_of_def hashed_parts)

text \<open>The decryption loop, one segment pending, on the rest of a well-formed segment area.\<close>

lemma decrypt_segments_step:
  assumes raw: "raw = pre @ segment c @ post" and pos: "pos = length pre"
    and e: "pos + 4 + length c \<le> send" and small: "length c < 2 ^ 32"
  shows "decrypt_segments C k n raw send pos ctr pending acc =
    (case pending of None \<Rightarrow> decrypt_segments C k n raw send (pos + 4 + length c) ctr (Some c) acc
     | Some prev \<Rightarrow> (case stream_open C k n ctr False prev of
           None \<Rightarrow> Inl (Internal (''STREAM decrypt segment failed '' @ em_dash @ '' wrong key or tampered data''))
         | Some pt \<Rightarrow> decrypt_segments C k n raw send (pos + 4 + length c) (ctr + 1) (Some c) (acc @ pt)))"
proof -
  have "take 4 (drop pos raw) = to_le_bytes (word_of_nat (length c))"
    "take (length c) (drop (pos + 4) raw) = c"
    using raw pos by (simp_all add: segment_def)
  then show ?thesis
    using e segment_length [OF small]
    by (subst decrypt_segments.simps) (simp add: STREAM_SEGMENT_HEADER_LEN_def Let_def)
qed

lemma decrypt_segments_end:
  "decrypt_segments C k n raw send send ctr pending acc =
    (case pending of None \<Rightarrow> Inr acc
     | Some seg \<Rightarrow> (case stream_open C k n ctr True seg of
           None \<Rightarrow> Inl (Internal (''STREAM decrypt last segment failed '' @ em_dash @
                     '' wrong key or tampered data''))
         | Some pt \<Rightarrow> Inr (acc @ pt)))"
  by (subst decrypt_segments.simps) simp

lemma decrypt_sealed_pending:
  assumes ok: "crypto_ok C" and m: "m = ctr + 1 + length ps"
    and c: "stream_seal C k n ctr (ps = []) p = Some c" and s: "sealed C k n m (ctr + 1) ps cs"
    and raw: "raw = pre @ concat (map segment cs) @ post"
    and send: "send = length pre + length (concat (map segment cs))"
    and small: "\<forall>c \<in> set cs. length c < 2 ^ 32"
  shows "decrypt_segments C k n raw send (length pre) ctr (Some c) acc = Inr (acc @ p @ concat ps)"
  using m c s raw send small
proof (induction ps arbitrary: ctr p c cs pre acc)
  case Nil
  then have "cs = []" by (cases cs) auto
  then show ?case using Nil crypto_stream [OF ok] by (auto simp: decrypt_segments_end)
next
  case (Cons q qs)
  then obtain d ds where cs: "cs = d # ds" by (cases cs) auto
  have d: "stream_seal C k n (ctr + 1) (qs = []) q = Some d" "sealed C k n m (ctr + 1 + 1) qs ds"
    using Cons.prems(1,3) cs by auto
  have op: "stream_open C k n ctr False c = Some p" using Cons.prems(2) crypto_stream [OF ok] by auto
  have "decrypt_segments C k n raw send (length pre) ctr (Some c) acc =
      decrypt_segments C k n raw send (length pre + 4 + length d) (ctr + 1) (Some d) (acc @ p)"
    using Cons.prems(4-6) cs op
    by (subst decrypt_segments_step [where pre = pre and c = d and post = "concat (map segment ds) @ post"])
      auto
  also have "length pre + 4 + length d = length (pre @ segment d)" by simp
  also have "decrypt_segments C k n raw send (length (pre @ segment d)) (ctr + 1) (Some d) (acc @ p) =
      Inr ((acc @ p) @ q @ concat qs)"
    by (rule Cons.IH) (use Cons.prems cs d in auto)
  finally show ?case by simp
qed

lemma stream_decrypt:
  assumes ok: "crypto_ok C" and s: "stream_of C k ps blob" and small: "\<forall>p \<in> set ps. length p + 16 < 2 ^ 32"
  shows "stream_decrypt_bytes C k blob = Inr (concat ps)"
proof -
  obtain n cs where n: "length n = 7" and cs: "sealed C k n (length ps) 0 ps cs"
    and blob: "blob = hashed C (STREAM_MAGIC @ n @ concat (map segment cs))"
    using s by (auto simp: stream_of_def)
  have smallc: "\<forall>c \<in> set cs. length c < 2 ^ 32" by (rule sealed_small [OF ok cs small])
  let ?pre = "STREAM_MAGIC @ n"
  have dec: "decrypt_segments C k n blob (10 + length (concat (map segment cs))) 10 0 None [] = Inr (concat ps)"
  proof (cases ps)
    case Nil
    then have "cs = []" using cs by (cases cs) auto
    then show ?thesis using Nil by (simp add: decrypt_segments_end)
  next
    case (Cons p qs)
    then obtain d ds where d: "cs = d # ds" using cs by (cases cs) auto
    have "decrypt_segments C k n blob (10 + length (concat (map segment cs))) 10 0 None [] =
        decrypt_segments C k n blob (10 + length (concat (map segment cs))) (10 + 4 + length d) 0 (Some d) []"
      using n d smallc
      by (subst decrypt_segments_step [where pre = ?pre and c = d
            and post = "concat (map segment ds) @ sha256 C (STREAM_MAGIC @ n @ concat (map segment cs))"])
        (auto simp: blob hashed_def)
    also have "10 + 4 + length d = length (?pre @ segment d)" using n by simp
    also have "decrypt_segments C k n blob (10 + length (concat (map segment cs)))
        (length (?pre @ segment d)) 0 (Some d) [] = Inr ([] @ p @ concat qs)"
      by (rule decrypt_sealed_pending [OF ok, where m = "length ps" and cs = ds
            and post = "sha256 C (STREAM_MAGIC @ n @ concat (map segment cs))"])
        (use Cons cs d n smallc in \<open>auto simp: blob hashed_def\<close>)
    finally show ?thesis using Cons by simp
  qed
  have len: "length blob = 42 + length (concat (map segment cs))"
    using n by (simp add: blob hashed_parts [OF ok])
  have "take 3 blob = STREAM_MAGIC" "take 7 (drop 3 blob) = n"
    using n by (simp_all add: blob hashed_def)
  moreover have "verify_file_hash_bytes C blob = Inr ()"
    unfolding blob by (rule hashed_verifies [OF ok]) simp
  ultimately show ?thesis using dec len by (simp add: stream_decrypt_bytes_def len_defs)
qed

section \<open>Writing a STREAM file\<close>

lemma stream_chunks_Inr:
  assumes ne: "dest \<noteq> []" and wf: "\<And>d. wf_tree (put dest (Reg d) t0)"
    and chunks: "list_all2 (\<lambda>p d. p \<noteq> dest \<and> lookup t0 p = Some (Reg d)) ps ds"
    and base: "tree w = put dest (Reg d) t0"
    and run: "stream_chunks C k n dest m i ps br h w = (Inr (br', h'), w')"
  shows "\<exists>cs. sealed C k n m i ds cs \<and> br' = br + length (concat ds) \<and>
    h' = h @ concat (map segment cs) \<and> tree w' = put dest (Reg (d @ concat (map segment cs))) t0"
  using chunks base run
proof (induction ps arbitrary: ds i br h d w)
  case Nil
  then show ?case by (intro exI [of _ "[]"]) auto
next
  case (Cons p ps)
  obtain x xs where ds: "ds = x # xs" and p: "p \<noteq> dest" "lookup t0 p = Some (Reg x)"
    and rest: "list_all2 (\<lambda>p d. p \<noteq> dest \<and> lookup t0 p = Some (Reg d)) ps xs"
    using Cons.prems(1) by (cases ds) auto
  obtain buf c w1 w2 w3 where r: "fs_read p w = (Inr buf, w1)"
    and c: "stream_seal C k n i (i + 1 = m) buf = Some c"
    and s: "fs_write_all dest (to_le_bytes (word_of_nat (length c))) w1 = (Inr (), w2)"
      "fs_write_all dest c w2 = (Inr (), w3)"
    and step: "stream_chunks C k n dest m (i + 1) ps (br + length buf)
        ((h @ to_le_bytes (word_of_nat (length c))) @ c) w3 = (Inr (br', h'), w')"
    using Cons.prems(3) by (auto simp: bind_Inr_iff Let_def split: option.splits)
  have "lookup (tree w) p = Some (Reg x)" using Cons.prems(2) p ne by (simp add: lookup_put)
  then have buf: "buf = x" using read_file_Inr [OF _ _ r] wf [of d] Cons.prems(2) by simp
  have "tree w1 = tree w" using readonlyD [OF readonly_calls(6) r] .
  then have w3: "tree w3 = put dest (Reg (d @ segment c)) t0"
    using s [THEN write_all_Inr] Cons.prems(2) ne by (simp add: append_to_put segment_def)
  obtain cs where "sealed C k n m (i + 1) xs cs" "br' = br + length buf + length (concat xs)"
    "h' = (h @ segment c) @ concat (map segment cs)"
    "tree w' = put dest (Reg ((d @ segment c) @ concat (map segment cs))) t0"
    using Cons.IH [OF rest w3 step [unfolded append_assoc, folded segment_def]] by auto
  then show ?case using ds c buf by (intro exI [of _ "c # cs"]) simp
qed

lemma stream_encrypt_Inr:
  fixes w :: "'z os_scheme"
  assumes wf: "wf_tree (tree w)" and l: "linkfree (tree w) dest"
    and chunks: "list_all2 (\<lambda>p d. p \<noteq> dest \<and> lookup (tree w) p = Some (Reg d)) ps ds"
    and run: "stream_encrypt_chunks_to_file C k ps sz dest v w = (Inr u, w')"
  shows "\<exists>blob. stream_of C k ds blob \<and> tree w' = put dest (Reg blob) (tree w) \<and> dest \<noteq> [] \<and>
    sz = length (concat ds) \<and> wf_tree (tree w')"
proof -
  obtain n h br fed w1 w2 w3 w4 w5 w6 w7 w8 where
    n: "(fill_bytes STREAM_NONCE_LEN :: ('z, byte list) app) w = (Inr n, w1)"
    and h: "fs_create dest w1 = (Inr h, w2)"
    and s: "fs_write_all h STREAM_MAGIC w2 = (Inr (), w3)" "fs_write_all h n w3 = (Inr (), w4)"
    and c: "stream_chunks C k n h (length ps) 0 ps 0 (STREAM_MAGIC @ n) w4 = (Inr (br, fed), w5)"
    and br: "br = sz"
    and e: "fs_write_all h (sha256 C fed) w5 = (Inr (), w6)"
    and f: "fs_flush h w6 = (Inr (), w7)" "fs_sync_data h w7 = (Inr (), w8)"
    and tl: "tree w' = tree w8"
    using run unfolding stream_encrypt_chunks_to_file_def
    by (cases v) (auto simp: bind_Inr_iff split: if_splits
        dest!: readonlyD [OF readonly_verify_file_hash])
  have w1: "tree w1 = tree w" "length n = 7"
    using n by (auto simp: STREAM_NONCE_LEN_def dest: tree_fill_bytes length_fill_bytes)
  have d: "h = dest" "dest \<noteq> []" "tree w2 = put dest (Reg []) (tree w)" "wf_tree (tree w2)"
    using create_Inr [OF _ _ h] wf l w1 by auto
  have wfp: "wf_tree (put dest (Reg x) (tree w))" for x
    using wf_put_created [OF wf _ d(2)] d(3,4) by simp
  have len: "length ps = length ds" using chunks by (rule list_all2_lengthD)
  have w4: "tree w4 = put dest (Reg (STREAM_MAGIC @ n)) (tree w)"
    using s [THEN write_all_Inr] d by (simp add: append_to_put)
  obtain cs where cs: "sealed C k n (length ds) 0 ds cs" "br = length (concat ds)"
    "fed = (STREAM_MAGIC @ n) @ concat (map segment cs)"
    "tree w5 = put dest (Reg ((STREAM_MAGIC @ n) @ concat (map segment cs))) (tree w)"
    using stream_chunks_Inr [OF d(2) wfp chunks w4 c [unfolded d(1)]] len by auto
  have "tree w6 = put dest (Reg (hashed C ((STREAM_MAGIC @ n) @ concat (map segment cs)))) (tree w)"
    using write_all_Inr [OF e] d cs by (simp add: append_to_put hashed_def)
  moreover have "tree w8 = tree w6"
    using f readonlyD [OF readonly_calls(8)] readonlyD [OF readonly_calls(9)] by metis
  moreover have "stream_of C k ds (hashed C ((STREAM_MAGIC @ n) @ concat (map segment cs)))"
    using w1 cs by (auto simp: stream_of_def)
  ultimately show ?thesis using d tl br cs(2) wfp by auto
qed

section \<open>Properties of written files\<close>

text \<open>
  C4. A small file written through \<open>encrypt_and_write_file_owned\<close> reads back as its plaintext
  under the same key, occupies 63 bytes more than it, and nothing else in the tree changes,
  whatever system calls failed or were verified on the way, as long as the write reported success.
\<close>

theorem single_shot_roundtrip:
  assumes ok: "crypto_ok C" and wf: "wf_tree (tree w)" and free: "linkfree (tree w) dest"
    and run: "encrypt_and_write_file_owned C k p dest v w = (Inr u, w')"
    and later: "tree w2 = tree w'" "calm w2"
  shows "fst (read_and_decrypt_file C k dest w2) = Inr p \<and>
    (\<exists>blob. lookup (tree w') dest = Some (Reg blob) \<and> length blob = length p + 63) \<and>
    (\<forall>q. q \<noteq> dest \<longrightarrow> lookup (tree w') q = lookup (tree w) q)"
proof -
  obtain blob where b: "single_of C k p blob" "tree w' = put dest (Reg blob) (tree w)" "dest \<noteq> []"
    using encrypt_write_Inr [OF wf free run] by blast
  have wf2: "wf_tree (tree w2)"
    using keeps_wf_encrypt_write [OF wf free run] later by simp
  have lk: "lookup (tree w2) dest = Some (Reg blob)" using b later by (simp add: lookup_put)
  have "fst (read_and_decrypt_file C k dest w2) = read_bytes C k blob"
    by (rule read_and_decrypt_file_bytes [OF later(2) wf2 lk])
  also have "\<dots> = Inr p"
    using single_magic [OF ok b(1)] single_decrypt_bytes [OF ok b(1)] magics_differ
    by (simp add: read_bytes_def)
  finally show ?thesis
    using b single_length [OF ok b(1)] by (auto simp: lookup_put)
qed

text \<open>
  C5. A file assembled from chunk files by \<open>stream_encrypt_chunks_to_file\<close> reads back as the
  concatenation of the chunks, in order, and its plaintext has the announced size; each of the
  \<open>k\<close> segments costs 20 bytes on disk, the header and hash 42.
\<close>

theorem stream_roundtrip:
  assumes ok: "crypto_ok C" and wf: "wf_tree (tree w)" and free: "linkfree (tree w) dest"
    and chunks: "list_all2 (\<lambda>p d. p \<noteq> dest \<and> lookup (tree w) p = Some (Reg d)) ps ds"
    and small: "\<forall>d \<in> set ds. length d + 16 < 2 ^ 32"
    and run: "stream_encrypt_chunks_to_file C k ps sz dest v w = (Inr u, w')"
    and later: "tree w2 = tree w'" "calm w2"
  shows "fst (read_and_decrypt_file C k dest w2) = Inr (concat ds) \<and> sz = length (concat ds) \<and>
    (\<exists>blob. lookup (tree w') dest = Some (Reg blob) \<and> length blob = sz + 20 * length ds + 42) \<and>
    (\<forall>q. q \<noteq> dest \<longrightarrow> lookup (tree w') q = lookup (tree w) q)"
proof -
  obtain blob where b: "stream_of C k ds blob" "tree w' = put dest (Reg blob) (tree w)" "dest \<noteq> []"
    "sz = length (concat ds)" "wf_tree (tree w')"
    using stream_encrypt_Inr [OF wf free chunks run] by blast
  have lk: "lookup (tree w2) dest = Some (Reg blob)" using b later by (simp add: lookup_put)
  have m: "take 3 blob = STREAM_MAGIC" using b(1) by (auto simp: stream_of_def hashed_def)
  have "fst (read_and_decrypt_file C k dest w2) = read_bytes C k blob"
    using read_and_decrypt_file_bytes [OF later(2) _ lk] b(5) later by simp
  also have "\<dots> = Inr (concat ds)" using m stream_decrypt [OF ok b(1) small] by (simp add: read_bytes_def)
  finally show ?thesis
    using b stream_length [OF ok b(1)] by (auto simp: lookup_put)
qed

section \<open>The key-free check\<close>

lemma read_some_calm:
  "calm w \<Longrightarrow> \<exists>n. (0 < k \<longrightarrow> 0 < n) \<and> n \<le> k \<and> fs_read_some k h w = (Inr (take n h, drop n h), tick w)"
  by (intro exI [of _ "min k (max 1 (caps w (ticks w)))"]) (auto simp: fs_read_some_def Let_def query_calm)

lemma verify_loop_calm:
  "calm w \<Longrightarrow> r \<le> length h \<Longrightarrow>
     \<exists>w'. verify_loop r h acc w = (Inr (acc @ take r h, drop r h), w') \<and> calm w' \<and> tree w' = tree w"
proof (induction r arbitrary: h acc w rule: less_induct)
  case (less r)
  show ?case
  proof (cases "r = 0")
    case True
    then show ?thesis using less.prems by (simp add: verify_loop.simps)
  next
    case False
    obtain n where n: "0 < n" "n \<le> min r HASH_BUF_SIZE"
      "fs_read_some (min r HASH_BUF_SIZE) h w = (Inr (take n h, drop n h), tick w)"
      using read_some_calm [OF less.prems(1), of "min r HASH_BUF_SIZE" h] False
      by (auto simp: HASH_BUF_SIZE_def)
    have len: "length (take n h) = n" "take n h \<noteq> []" using n less.prems False by auto
    obtain w' where w': "verify_loop (r - n) (drop n h) (acc @ take n h) (tick w) =
        (Inr ((acc @ take n h) @ take (r - n) (drop n h), drop (r - n) (drop n h)), w')"
      "calm w'" "tree w' = tree w"
      using less.IH [of "r - n" "tick w" "drop n h" "acc @ take n h"] n less.prems False
        diff_le_mono [OF less.prems(2), of n] by auto
    have "take n h @ take (r - n) (drop n h) = take r h"
      using n by (simp flip: take_add)
    then show ?thesis
      using w' n len False
      by (subst verify_loop.simps) (simp add: bind_map_err_InrI [of "fs_read_some _ _", OF n(3)])
  qed
qed

lemma verify_file_hash_stream_eq:
  assumes calm: "calm w" and wf: "wf_tree (tree w)" and content: "lookup (tree w) p = Some (Reg blob)"
  shows "fst (verify_file_hash C p w) = verify_file_hash_bytes C blob"
proof -
  let ?n = "length blob"
  have md: "fs_metadata p w = (Inr (inode_meta (Reg blob) (mtimes w p)), tick w)"
    by (rule metadata_file_calm [OF calm wf content])
  have op: "fs_open p (tick w) = (Inr blob, tick (tick w))"
    by (rule open_file_calm) (simp_all add: calm wf content)
  show ?thesis
  proof (cases "?n < 35")
    case True
    then show ?thesis
      by (simp add: verify_file_hash_def verify_file_hash_bytes_def bind_map_err_InrI [of "fs_metadata p", OF md]
          inode_meta_def len_defs Let_def)
  next
    case False
    obtain w1 where w1: "verify_loop (?n - 32) blob [] (tick (tick w)) =
        (Inr (take (?n - 32) blob, drop (?n - 32) blob), w1)" "calm w1"
      using verify_loop_calm [of "tick (tick w)" "?n - 32" blob "[]"] calm by auto
    have rd: "fs_read_exact 32 (drop (?n - 32) blob) w1 = (Inr (drop (?n - 32) blob, []), tick w1)"
      using False w1(2) by (simp add: read_exact_calm)
    show ?thesis
      using False
      by (simp add: verify_file_hash_def verify_file_hash_bytes_def bind_map_err_InrI [of "fs_metadata p", OF md]
          inode_meta_def len_defs bind_map_err_InrI [of "fs_open p", OF op]
          bind_InrI [of "verify_loop _ _ _", OF w1(1)] Let_def bind_map_err_InrI [of "fs_read_exact _ _", OF rd])
  qed
qed

text \<open>
  C6. The streaming check of a file on disk, with its 64 KiB buffer and whatever short reads the
  system makes, decides exactly what the check of the whole file in memory decides, with the
  same error message.
\<close>

theorem verify_file_hash_streaming:
  assumes calm: "calm w" and wf: "wf_tree (tree w)" and content: "lookup (tree w) p = Some (Reg blob)"
  shows "fst (verify_file_hash C p w) = verify_file_hash_bytes C blob"
  using verify_file_hash_stream_eq [OF assms] .

lemma corrupted_rejected:
  fixes w :: "'z os_scheme"
  assumes calm: "calm w" and wf: "wf_tree (tree w)" and content: "lookup (tree w) p = Some (Reg blob)"
    and bad: "verify_file_hash_bytes C blob \<noteq> Inr ()"
  shows "(\<exists>e. fst (read_and_decrypt_file C k p w) = Inl e) \<and>
    fst ((verify_file_integrity_async C key p :: ('z, integrity_status) app) w) = Inr FileHashMismatch"
proof -
  obtain e where e: "verify_file_hash_bytes C blob = Inl e"
    using bad by (cases "verify_file_hash_bytes C blob") auto
  have "sha256 C (take (length blob - 32) blob) \<noteq> drop (length blob - 32) blob" if "\<not> length blob < 35"
    using e that by (auto simp: verify_file_hash_bytes_def len_defs split: if_splits)
  then have "\<exists>e. read_bytes C k blob = Inl e"
    using e by (auto simp: read_bytes_def stream_decrypt_bytes_def decrypt_file_bytes_def
        decrypt_file_bytes_inner_def len_defs Let_def)
  moreover have "fst (verify_file_hash C p w) = Inl e"
    using verify_file_hash_stream_eq [OF calm wf content] e by simp
  ultimately show ?thesis
    using read_and_decrypt_file_bytes [OF calm wf content]
    by (simp add: verify_file_integrity_async_def)
qed

text \<open>
  C7. A file whose trailing hash does not match is rejected whatever the key: reading it fails
  and the integrity check reports a hash mismatch, with or without a key.
\<close>

theorem corrupted_file_rejected:
  fixes w :: "'z os_scheme"
  assumes calm: "calm w" and wf: "wf_tree (tree w)" and content: "lookup (tree w) p = Some (Reg blob)"
    and bad: "verify_file_hash_bytes C blob \<noteq> Inr ()"
  shows "(\<exists>e. fst (read_and_decrypt_file C k p w) = Inl e) \<and>
    fst ((verify_file_integrity_async C key p :: ('z, integrity_status) app) w) = Inr FileHashMismatch"
  by (rule corrupted_rejected [OF assms])

section \<open>The integrity check against reading\<close>

text \<open>
  What reading a STREAM file checks and its integrity check does not: between the header and the
  hash there is a sequence of segments, each after its length in four bytes, and nothing else.
\<close>

inductive framed :: "byte list \<Rightarrow> bool" where
  framed_end: "framed []"
| framed_segment: "\<lbrakk>length h = 4; unat (from_le_bytes h) = length s; framed rest\<rbrakk> \<Longrightarrow> framed (h @ s @ rest)"

lemma framed_step:
  assumes "pos < send" "send \<le> length raw"
  defines "l \<equiv> unat (from_le_bytes (take 4 (drop pos raw)))"
  shows "framed (take (send - pos) (drop pos raw)) \<longleftrightarrow>
    pos + 4 + l \<le> send \<and> framed (take (send - (pos + 4 + l)) (drop (pos + 4 + l) raw))"
proof
  assume "framed (take (send - pos) (drop pos raw))"
  then show "pos + 4 + l \<le> send \<and> framed (take (send - (pos + 4 + l)) (drop (pos + 4 + l) raw))"
  proof (cases rule: framed.cases)
    case framed_end
    then show ?thesis using assms by simp
  next
    case (framed_segment h s rest)
    let ?b = "take (send - pos) (drop pos raw)"
    have len: "send - pos = 4 + length s + length rest"
      using arg_cong [OF framed_segment(1), of length] framed_segment(2) assms by simp
    have "h = take 4 ?b" using framed_segment(1,2) by simp
    also have "\<dots> = take 4 (drop pos raw)" using len by (simp add: min_def)
    finally have l: "l = length s" using framed_segment(3) by (simp add: l_def)
    have "rest = drop (4 + l) ?b" using framed_segment(1,2) l by simp
    also have "\<dots> = take (send - (pos + 4 + l)) (drop (pos + 4 + l) raw)"
      by (simp add: drop_take add.commute add.left_commute)
    finally show ?thesis using framed_segment(4) len l by simp
  qed
next
  assume h: "pos + 4 + l \<le> send \<and> framed (take (send - (pos + 4 + l)) (drop (pos + 4 + l) raw))"
  have "take (send - pos) (drop pos raw) =
      take 4 (drop pos raw) @ take l (drop (pos + 4) raw) @ take (send - (pos + 4 + l)) (drop (pos + 4 + l) raw)"
    (is "?lhs = ?rhs")
  proof -
    have "send - pos = 4 + (l + (send - (pos + 4 + l)))" using h by simp
    then have "?lhs = take (4 + (l + (send - (pos + 4 + l)))) (drop pos raw)" by presburger
    also have "\<dots> = ?rhs" by (simp only: take_add drop_drop) (simp add: add.commute add.left_commute)
    finally show ?thesis .
  qed
  moreover have "framed \<dots>"
    by (rule framed_segment) (use h assms(2) in \<open>auto simp: l_def min_def\<close>)
  ultimately show "framed (take (send - pos) (drop pos raw))" by simp
qed

lemma verify_segments_agrees:
  "\<lbrakk>pos \<le> send; send \<le> length raw; calm w\<rbrakk>
   \<Longrightarrow> (\<exists>pt. decrypt_segments C k n raw send pos ctr pending acc = Inr pt) \<longleftrightarrow>
     framed (take (send - pos) (drop pos raw)) \<and>
     fst (verify_segments C k n send pos (drop pos raw) ctr pending w) = Inr ()"
proof (induction "send - pos" arbitrary: pos ctr pending acc w rule: less_induct)
  case less
  note run = decrypt_segments.simps [of C k n raw send pos ctr pending acc]
  show ?case
  proof (cases "pos < send")
    case False
    then show ?thesis using less.prems(1) unfolding run
      by (subst verify_segments.simps) (auto simp: framed_end split: option.splits)
  next
    case True
    let ?l = "unat (from_le_bytes (take 4 (drop pos raw)))"
    note frame = framed_step [OF True less.prems(2)]
    show ?thesis
    proof (cases "pos + 4 + ?l \<le> send")
      case False
      then show ?thesis using True frame unfolding run by (auto simp: STREAM_SEGMENT_HEADER_LEN_def Let_def)
    next
      case b: True
      let ?seg = "take ?l (drop (pos + 4) raw)"
      have r1: "fs_read_exact 4 (drop pos raw) w = (Inr (take 4 (drop pos raw), drop (pos + 4) raw), tick w)"
        using b less.prems(2,3) by (simp add: read_exact_calm add.commute)
      have r2: "fs_read_exact ?l (drop (pos + 4) raw) (tick w) =
          (Inr (?seg, drop (pos + 4 + ?l) raw), tick (tick w))"
        using b less.prems(2,3) by (simp add: read_exact_calm add.commute)
      have step: "verify_segments C k n send pos (drop pos raw) ctr pending w =
          (case pending of
             None \<Rightarrow> verify_segments C k n send (pos + 4 + ?l) (drop (pos + 4 + ?l) raw) ctr (Some ?seg)
           | Some prev \<Rightarrow> (case stream_open C k n ctr False prev of
                 None \<Rightarrow> throw (Internal ''STREAM verify: decrypt segment failed'')
               | Some pt \<Rightarrow> verify_segments C k n send (pos + 4 + ?l) (drop (pos + 4 + ?l) raw) (ctr + 1) (Some ?seg)))
            (tick (tick w))"
        using True
        by (subst verify_segments.simps) (simp add: bind_map_err_InrI [of "fs_read_exact 4 _", OF r1]
            bind_map_err_InrI [of "fs_read_exact ?l _", OF r2] Let_def)
      have IH: "(\<exists>pt. decrypt_segments C k n raw send (pos + 4 + ?l) c pd ac = Inr pt) \<longleftrightarrow>
          framed (take (send - (pos + 4 + ?l)) (drop (pos + 4 + ?l) raw)) \<and>
          fst (verify_segments C k n send (pos + 4 + ?l) (drop (pos + 4 + ?l) raw) c pd (tick (tick w))) = Inr ()" for c pd ac
        by (rule less.hyps) (use True b less.prems(2,3) in simp_all)
      show ?thesis
        using True b unfolding step frame run
        by (simp add: STREAM_SEGMENT_HEADER_LEN_def Let_def IH split: option.splits)
    qed
  qed
qed

definition stream_framed :: "byte list \<Rightarrow> bool" where
  "stream_framed blob = (MIN_STREAM_FILE_LEN \<le> length blob \<and> framed (take (length blob - MIN_STREAM_FILE_LEN) (drop 10 blob)))"

lemma stream_verify_agrees:
  assumes calm: "calm w" and wf: "wf_tree (tree w)" and content: "lookup (tree w) p = Some (Reg blob)"
    and h: "verify_file_hash_bytes C blob = Inr ()" and m: "take 3 blob = STREAM_MAGIC"
  shows "(\<exists>pt. stream_decrypt_bytes C k blob = Inr pt) \<longleftrightarrow> stream_framed blob \<and> fst (stream_verify_decryption C k p w) = Inr ()"
proof (cases "42 \<le> length blob")
  case False
  then show ?thesis by (auto simp: stream_decrypt_bytes_def stream_framed_def len_defs)
next
  case len: True
  have o1: "fs_open p w = (Inr blob, tick w)" by (rule open_file_calm [OF calm wf content])
  have md: "fs_metadata p (tick w) = (Inr (inode_meta (Reg blob) (mtimes (tick w) p)), tick (tick w))"
    by (rule metadata_file_calm) (simp_all add: calm wf content)
  obtain r w1 where v: "verify_file_hash C p (tick (tick w)) = (r, w1)" by fastforce
  have r: "r = Inr ()"
    using verify_file_hash_stream_eq [of "tick (tick w)" p blob C] calm wf content h v by simp
  have w1: "calm w1" "tree w1 = tree w"
    using readonly_calm [OF readonly_verify_file_hash v] readonlyD [OF readonly_verify_file_hash v] calm
    by simp_all
  have o2: "fs_open p w1 = (Inr blob, tick w1)"
    by (rule open_file_calm) (simp_all add: w1 wf content)
  have rd: "fs_read_exact 10 blob (tick w1) = (Inr (take 10 blob, drop 10 blob), tick (tick w1))"
    using len w1 by (simp add: read_exact_calm)
  have magic: "take 3 (take 10 blob) = STREAM_MAGIC" "take 7 (drop 3 (take 10 blob)) = take 7 (drop 3 blob)"
    using m by (simp_all add: drop_take)
  have "fst (stream_verify_decryption C k p w) =
      fst (verify_segments C k (take 7 (drop 3 blob)) (length blob - 32) 10 (drop 10 blob) 0 None (tick (tick w1)))"
    using magic
    by (simp add: stream_verify_decryption_def len_defs Let_def inode_meta_def
        bind_map_err_InrI [of "fs_open p" w, OF o1] bind_map_err_InrI [of "fs_metadata p", OF md]
        bind_InrI [of "verify_file_hash C p", OF v [unfolded r]]
        bind_map_err_InrI [of "fs_open p" w1, OF o2] bind_map_err_InrI [of "fs_read_exact 10 blob", OF rd])
  moreover have "stream_decrypt_bytes C k blob = decrypt_segments C k (take 7 (drop 3 blob)) blob (length blob - 32) 10 0 None []"
    using len h m by (simp add: stream_decrypt_bytes_def len_defs)
  moreover have "length blob - MIN_STREAM_FILE_LEN = length blob - 32 - 10" by (simp add: len_defs)
  ultimately show ?thesis
    using verify_segments_agrees [of 10 "length blob - 32" blob "tick (tick w1)" C k "take 7 (drop 3 blob)" 0 None "[]"] len w1
    by (simp add: stream_framed_def len_defs)
qed

lemma integrity_async_single:
  fixes w :: "'z os_scheme"
  assumes calm: "calm w" and wf: "wf_tree (tree w)" and content: "lookup (tree w) p = Some (Reg blob)"
    and h: "verify_file_hash_bytes C blob = Inr ()"
  shows "fst ((verify_file_integrity_async C (Some k) p :: ('z, integrity_status) app) w) = Inr
    (if take 3 blob = STREAM_MAGIC
     then (case fst (stream_verify_decryption C k p
               (snd ((is_stream_format p :: ('z, bool) app) (snd (verify_file_hash C p w))))) of
             Inr u \<Rightarrow> StatusOk | Inl e \<Rightarrow> DecryptionFailed (display_error e))
     else verify_file_integrity C k blob)"
proof -
  obtain r w1 where v: "verify_file_hash C p w = (r, w1)" by fastforce
  have r: "r = Inr ()" using verify_file_hash_stream_eq [OF calm wf content, of C] h v by simp
  have w1: "calm w1" "tree w1 = tree w"
    using readonly_calm [OF readonly_verify_file_hash v] readonlyD [OF readonly_verify_file_hash v] calm
    by simp_all
  have c1: "lookup (tree w1) p = Some (Reg blob)" and wf1: "wf_tree (tree w1)" using w1 wf content by simp_all
  obtain w2 where w2: "(is_stream_format p :: ('z, bool) app) w1 = (Inr (take 3 blob = STREAM_MAGIC), w2)"
    "calm w2" "tree w2 = tree w1"
    using is_stream_format_file [OF w1(1) wf1 c1, where 'b = app_error] by (metis prod.collapse)
  have rd: "fs_read p w2 = (Inr blob, tick w2)"
    by (rule read_file_calm) (simp_all add: w2 wf1 c1)
  show ?thesis
    using v r w2(1) rd
    by (simp add: verify_file_integrity_async_def bind_InrI [of "is_stream_format p", OF w2(1)] split: sum.splits)
qed

text \<open>
  C8. The integrity check with a key against reading. A file that is not in the STREAM format is
  reported intact exactly when it can be read. A STREAM file can be read exactly when it is reported
  intact and, besides, is long enough for its header and hash and cut into segments without rest:
  the check runs past the end of the segments and does not notice a file without them.
\<close>

theorem integrity_agrees_with_reading:
  fixes w :: "'z os_scheme"
  assumes calm: "calm w" and wf: "wf_tree (tree w)" and content: "lookup (tree w) p = Some (Reg blob)"
  shows "(\<exists>pt. fst (read_and_decrypt_file C k p w) = Inr pt) \<longleftrightarrow>
    fst ((verify_file_integrity_async C (Some k) p :: ('z, integrity_status) app) w) = Inr StatusOk \<and>
    (take 3 blob = STREAM_MAGIC \<longrightarrow> stream_framed blob)"
proof (cases "verify_file_hash_bytes C blob = Inr ()")
  case False
  then show ?thesis
    using corrupted_rejected [OF calm wf content False, of k "Some k"] by auto
next
  case True
  note eval = integrity_async_single [OF calm wf content True, of k]
    read_and_decrypt_file_bytes [OF calm wf content, of C k]
  show ?thesis
  proof (cases "take 3 blob = STREAM_MAGIC")
    case stream: True
    let ?w1 = "snd (verify_file_hash C p w)"
    let ?w2 = "snd ((is_stream_format p :: ('z, bool) app) ?w1)"
    have w2: "calm ?w2" "wf_tree (tree ?w2)" "lookup (tree ?w2) p = Some (Reg blob)"
      using readonly_calm [OF readonly_verify_file_hash] readonlyD [OF readonly_verify_file_hash]
        readonly_calm [OF readonly_decrypted(2)] readonlyD [OF readonly_decrypted(2)] calm wf content
      by (metis prod.collapse)+
    show ?thesis
      using eval stream stream_verify_agrees [OF w2 True stream, of k]
      by (auto simp: read_bytes_def split: sum.splits)
  next
    case False
    then show ?thesis
      using eval by (auto simp: read_bytes_def decrypt_file_bytes_def verify_file_integrity_def
          split: decrypt_outcome.splits)
  qed
qed

section \<open>Instances\<close>

text \<open>A concrete provider of the primitives: it authenticates but does not hide.\<close>

definition toy_tag :: "byte list \<Rightarrow> byte list" where
  "toy_tag k = take 16 (k @ replicate 16 0)"

definition toy_open :: "byte list \<Rightarrow> byte list \<Rightarrow> byte list option" where
  "toy_open k c = (if drop (length c - 16) c = toy_tag k then Some (take (length c - 16) c) else None)"

definition toy_crypto :: crypto where
  "toy_crypto = \<lparr>sha256 = (\<lambda>d. take 32 (d @ replicate 32 0)),
     gcm_encrypt = (\<lambda>k n p. Some (p, toy_tag k)), gcm_decrypt = (\<lambda>k n c. toy_open k c),
     stream_seal = (\<lambda>k n i l p. Some (p @ toy_tag k)), stream_open = (\<lambda>k n i l c. toy_open k c),
     base64_decode = (\<lambda>s. Inr (as_bytes s))\<rparr>"

lemma toy_crypto_ok: "crypto_ok toy_crypto"
  by (auto simp: crypto_ok_def toy_crypto_def toy_open_def toy_tag_def min_def)

definition toy_key :: "byte list" where "toy_key = replicate 32 7"

theorem wrap_unwrap_data_key_witness:
  "\<exists>blob. length blob = 60 \<and> unwrap_data_key toy_crypto toy_key blob = Inr (replicate 32 9)"
proof -
  obtain blob w' where run: "wrap_data_key toy_crypto toy_key (replicate 32 9) (machine []) = (Inr blob, w')"
    by (simp add: wrap_data_key_def aes_gcm_wrap_def fill_bytes_def bind_def toy_crypto_def)
  show ?thesis
    using wrap_unwrap_data_key [OF toy_crypto_ok _ run] by auto
qed

theorem single_shot_roundtrip_witness:
  "fst (read_and_decrypt_file toy_crypto toy_key [''data'', ''f'']
     (machine (tree (snd (encrypt_and_write_file_owned toy_crypto toy_key [1, 2, 3] [''data'', ''f''] False
        (machine sample_tree)))))) = Inr [1, 2, 3]"
proof -
  let ?m = "encrypt_and_write_file_owned toy_crypto toy_key [1, 2, 3] [''data'', ''f''] False"
  have "fst (?m (machine sample_tree)) = Inr ()" by code_simp
  note run = run_fst [of ?m, OF this]
  have "linkfree (tree (machine sample_tree)) [''data'', ''f'']"
    using wf_sample_tree linkfree_missing [of sample_tree "[''data'']" "''f''" "[]"]
      canon_linkfree [of sample_tree "[''data'']"]
    by (simp add: sample_tree_def lookup_def canon_def name_ok_def)
  then show ?thesis
    using single_shot_roundtrip [OF toy_crypto_ok _ _ run, of "machine (tree (snd (?m (machine sample_tree))))"]
      wf_sample_tree by simp
qed

definition chunk_tree :: tree where
  "chunk_tree = [([''data''], Dir), ([''data'', ''c0''], Reg [1, 2, 3]), ([''data'', ''c1''], Reg [4, 5]),
     ([''data'', ''good''], Reg (hashed toy_crypto [9, 9, 9])), ([''data'', ''bad''], Reg (replicate 40 1))]"

lemma wf_chunk_tree: "wf_tree chunk_tree"
  by (rule wf_treeI) code_simp

theorem stream_roundtrip_witness:
  "fst (read_and_decrypt_file toy_crypto toy_key [''data'', ''f'']
     (machine (tree (snd (stream_encrypt_chunks_to_file toy_crypto toy_key [[''data'', ''c0''], [''data'', ''c1'']]
        5 [''data'', ''f''] False (machine chunk_tree)))))) = Inr [1, 2, 3, 4, 5]"
proof -
  let ?m = "stream_encrypt_chunks_to_file toy_crypto toy_key [[''data'', ''c0''], [''data'', ''c1'']]
    5 [''data'', ''f''] False"
  have "fst (?m (machine chunk_tree)) = Inr ()" by code_simp
  note run = run_fst [of ?m, OF this]
  have free: "linkfree (tree (machine chunk_tree)) [''data'', ''f'']"
    using wf_chunk_tree linkfree_missing [of chunk_tree "[''data'']" "''f''" "[]"]
      canon_linkfree [of chunk_tree "[''data'']"]
    by (simp add: chunk_tree_def lookup_def canon_def name_ok_def)
  have "list_all2 (\<lambda>p d. p \<noteq> [''data'', ''f''] \<and> lookup (tree (machine chunk_tree)) p = Some (Reg d))
      [[''data'', ''c0''], [''data'', ''c1'']] [[1, 2, 3], [4, 5]]"
    by (simp add: chunk_tree_def lookup_def)
  from stream_roundtrip [OF toy_crypto_ok _ free this _ run,
      of "machine (tree (snd (?m (machine chunk_tree))))"] wf_chunk_tree
  show ?thesis by simp
qed

lemma chunk_tree_files:
  "lookup (tree (machine chunk_tree)) [''data'', ''good''] = Some (Reg (hashed toy_crypto [9, 9, 9]))"
  "lookup (tree (machine chunk_tree)) [''data'', ''bad''] = Some (Reg (replicate 40 1))"
  by (simp_all add: chunk_tree_def lookup_def)

theorem verify_file_hash_streaming_witness:
  "fst (verify_file_hash toy_crypto [''data'', ''good''] (machine chunk_tree)) = Inr () \<and>
   verify_file_hash_bytes toy_crypto (hashed toy_crypto [9, 9, 9]) = Inr ()"
  using verify_file_hash_streaming [OF machine_calm _ chunk_tree_files(1), of toy_crypto] wf_chunk_tree
    hashed_verifies [OF toy_crypto_ok, of "[9, 9, 9]"] by simp

lemma bad_file: "verify_file_hash_bytes toy_crypto (replicate 40 1) \<noteq> Inr ()"
  by code_simp

theorem corrupted_file_rejected_witness:
  "fst ((verify_file_integrity_async toy_crypto None [''data'', ''bad''] :: (unit, integrity_status) app)
     (machine chunk_tree)) = Inr FileHashMismatch"
  using corrupted_file_rejected [OF machine_calm _ chunk_tree_files(2) bad_file, of toy_key None] wf_chunk_tree
  by simp

definition unframed :: "byte list" where
  "unframed = hashed toy_crypto (STREAM_MAGIC @ replicate 7 0 @ [1, 0, 0, 0, 9, 1, 0])"

definition report_tree :: tree where
  "report_tree = [([''data''], Dir), ([''data'', ''bad''], Reg (replicate 40 1)), ([''data'', ''rest''], Reg unframed)]"

theorem integrity_agrees_with_reading_witness:
  "\<not> (\<exists>pt. fst (read_and_decrypt_file toy_crypto toy_key [''data'', ''rest''] (machine report_tree)) = Inr pt) \<and>
   \<not> stream_framed unframed"
proof -
  have content: "lookup (tree (machine report_tree)) [''data'', ''rest''] = Some (Reg unframed)"
    by (simp add: report_tree_def lookup_def)
  have "wf_tree report_tree" by (rule wf_treeI) code_simp
  note char = integrity_agrees_with_reading [OF machine_calm _ content, of toy_crypto toy_key]
  have "take (length unframed - MIN_STREAM_FILE_LEN) (drop 10 unframed) = [1, 0, 0, 0, 9, 1, 0]" by code_simp
  moreover have "\<not> framed [1, 0, 0, 0, 9, 1, 0]"
    using framed_step [of 0 7 "[1, 0, 0, 0, 9, 1, 0]"] framed_step [of 5 7 "[1, 0, 0, 0, 9, 1, 0]"] by simp
  ultimately have "\<not> stream_framed unframed" by (simp add: stream_framed_def)
  moreover have "take 3 unframed = STREAM_MAGIC" by code_simp
  ultimately show ?thesis using char \<open>wf_tree report_tree\<close> by simp
qed

end
