(* ===== verification/Db.thy ===== *)
theory Db
  imports CryptoFacts "HOL-Library.List_Lexorder" "HOL-Library.Char_ord"
begin

text \<open>
  The database: the tables of \<open>src/migrations/\<close>, SQL statements as actions, and the storage of
  the master key (\<open>bootstrap_master_key\<close> of \<open>src/src/services/crypto_service.rs\<close>).

  SQLite is part of the environment. A table is the list of its rows in insertion order; a
  statement runs as one atomic action, enforces the PRIMARY KEY, UNIQUE and REFERENCES clauses
  of the schema (\<open>PRAGMA foreign_keys = ON\<close>) with SQLite's messages, applies ON DELETE CASCADE, and
  may fail with an error of the environment (\<open>faults\<close>). Rows come back in insertion order where
  the statement has no ORDER BY, which no caller relies on. \<open>datetime_text\<close> renders a time as
  \<open>%Y-%m-%d %H:%M:%S\<close>, the format both of \<open>datetime('now')\<close> and of the program's chrono calls,
  and \<open>parse_datetime\<close> reads it.
\<close>

section \<open>Rows\<close>

record user =
  u_id :: string
  u_username :: string
  u_email :: string
  u_role :: string
  u_quota_bytes :: int
  u_is_active :: bool
  u_setup_complete :: bool
  u_created_at :: string
  u_updated_at :: string

text \<open>A row of \<open>users\<close> has one column more than the \<open>User\<close> struct.\<close>

record user_row = user +
  u_password_hash :: string

record group_row =
  g_id :: string
  g_name :: string
  g_description :: "string option"
  g_created_by :: string
  g_created_at :: string

record group_member =
  gm_group_id :: string
  gm_user_id :: string
  gm_role :: string
  gm_joined_at :: string

record space =
  s_id :: string
  s_name :: string
  s_owner_type :: string
  s_owner_id :: string
  s_encryption_mode :: string
  s_encrypted_data_key :: "byte list"
  s_salt :: "byte list option"
  s_verify_blob :: "byte list option"
  s_recovery_blob :: "byte list option"
  s_created_at :: string

record space_access =
  sa_space_id :: string
  sa_grantee_type :: string
  sa_grantee_id :: string
  sa_permission :: string
  sa_granted_at :: string

record session =
  se_id :: string
  se_user_id :: string
  se_token_hash :: string
  se_expires_at :: string
  se_created_at :: string

record personal_library =
  pl_id :: string
  pl_user_id :: string
  pl_encryption_mode :: string
  pl_encrypted_data_key :: "byte list"
  pl_salt :: "byte list option"
  pl_verify_blob :: "byte list option"
  pl_recovery_blob :: "byte list option"
  pl_created_at :: string

record integrity_event =
  ie_id :: string
  ie_target_type :: string
  ie_target_id :: string
  ie_file_path :: string
  ie_event_type :: string
  ie_details :: "string option"
  ie_detected_by :: string
  ie_acknowledged :: "32 word"
  ie_created_at :: string

record upload_row =
  cu_id :: string
  cu_user_id :: string
  cu_target_type :: string
  cu_target_id :: string
  cu_target_path :: string
  cu_filename :: string
  cu_total_chunks :: int
  cu_received_chunks :: int
  cu_total_bytes :: int
  cu_checksum :: "string option"
  cu_expires_at :: string
  cu_created_at :: string

record tables =
  t_users :: "user_row list"
  t_libraries :: "personal_library list"
  t_groups :: "group_row list"
  t_group_members :: "group_member list"
  t_spaces :: "space list"
  t_space_access :: "space_access list"
  t_sessions :: "session list"
  t_uploads :: "upload_row list"
  t_events :: "integrity_event list"
  t_config :: "(string \<times> byte list) list"

record db = os +
  tb :: tables
  datetime_text :: "int \<Rightarrow> string"
  parse_datetime :: "string \<Rightarrow> int option"

type_synonym ('z, 'a) svc = "('z db_scheme, app_error, 'a) act"
type_synonym ('z, 'a) stmt = "('z db_scheme, sqlx_error, 'a) act"

section \<open>Statements\<close>

text \<open>A query reads the tables; an execution changes them and returns the number of rows affected.\<close>

definition select :: "(tables \<Rightarrow> 'a) \<Rightarrow> ('z, 'a) stmt" where
  "select g = (\<lambda>w. case faults w (ticks w) of
      Some m \<Rightarrow> (Inl (SqlOther m), tick w)
    | None \<Rightarrow> (Inr (g (tb w)), tick w))"

definition exec :: "(string \<Rightarrow> tables \<Rightarrow> sqlx_error + (nat \<times> tables)) \<Rightarrow> ('z, nat) stmt" where
  "exec f = (\<lambda>w. case faults w (ticks w) of
      Some m \<Rightarrow> (Inl (SqlOther m), tick w)
    | None \<Rightarrow> (case f (datetime_text w (clock w)) (tb w) of
          Inl e \<Rightarrow> (Inl e, tick w)
        | Inr (n, t) \<Rightarrow> (Inr n, tick (w\<lparr>tb := t\<rparr>))))"

text \<open>A statement with a RETURNING clause.\<close>

definition exec_returning :: "(string \<Rightarrow> tables \<Rightarrow> sqlx_error + ('a \<times> tables)) \<Rightarrow> ('z, 'a) stmt" where
  "exec_returning f = (\<lambda>w. case faults w (ticks w) of
      Some m \<Rightarrow> (Inl (SqlOther m), tick w)
    | None \<Rightarrow> (case f (datetime_text w (clock w)) (tb w) of
          Inl e \<Rightarrow> (Inl e, tick w)
        | Inr (x, t) \<Rightarrow> (Inr x, tick (w\<lparr>tb := t\<rparr>))))"

text \<open>\<open>?\<close> on a database result in a function that returns \<open>AppError\<close>.\<close>

definition sqlx :: "('z, 'a) stmt \<Rightarrow> ('z, 'a) svc" where
  "sqlx m = map_err Sqlx m"

definition unique_failed :: "string \<Rightarrow> sqlx_error" where
  "unique_failed cols = UniqueViolation (''UNIQUE constraint failed: '' @ cols)"

definition foreign_key_failed :: sqlx_error where
  "foreign_key_failed = ForeignKeyViolation ''FOREIGN KEY constraint failed''"

text \<open>
  \<open>is_unique_violation\<close> (\<open>src/src/db.rs\<close>). SQLite's extended result codes: 2067 for UNIQUE (1555
  for a primary key, whose message passes the first test too), 787 for a foreign key.
\<close>

definition db_error :: "sqlx_error \<Rightarrow> (string \<times> string) option" where
  "db_error err = (case err of UniqueViolation m \<Rightarrow> Some (m, ''2067'')
    | ForeignKeyViolation m \<Rightarrow> Some (m, ''787'') | _ \<Rightarrow> None)"

definition is_unique_violation :: "sqlx_error \<Rightarrow> bool" where
  "is_unique_violation err = (case db_error err of
      Some (message, code) \<Rightarrow> contains (to_ascii_lowercase message) ''unique constraint'' \<or> code = ''2067''
    | None \<Rightarrow> False)"

definition update_where :: "('r \<Rightarrow> bool) \<Rightarrow> ('r \<Rightarrow> 'r) \<Rightarrow> 'r list \<Rightarrow> 'r list" where
  "update_where P f rows = map (\<lambda>r. if P r then f r else r) rows"

definition count_where :: "('r \<Rightarrow> bool) \<Rightarrow> 'r list \<Rightarrow> nat" where
  "count_where P rows = length (filter P rows)"

text \<open>\<open>x LIKE p\<close>: \<open>%\<close> is any run, \<open>_\<close> any character, letters match in either ASCII case.\<close>

fun like :: "string \<Rightarrow> string \<Rightarrow> bool" where
  "like [] [] = True"
| "like [] (x # xs) = False"
| "like (p # ps) [] = (p = CHR ''%'' \<and> like ps [])"
| "like (p # ps) (x # xs) =
     (if p = CHR ''%'' then like ps (x # xs) \<or> like (p # ps) xs
      else if p = CHR ''_'' then like ps xs
      else to_lower p = to_lower x \<and> like ps xs)"

section \<open>The master key\<close>

definition load_encrypted_master_key :: "('z, byte list option) svc" where
  "load_encrypted_master_key = sqlx (select (\<lambda>t. map_of (t_config t) MASTER_KEY_DB_KEY))"

definition store_encrypted_master_key :: "byte list \<Rightarrow> ('z, unit) svc" where
  "store_encrypted_master_key blob =
     bind (sqlx (exec (\<lambda>now t.
        if map_of (t_config t) MASTER_KEY_DB_KEY \<noteq> None then Inr (0, t)
        else Inr (1, t\<lparr>t_config := t_config t @ [(MASTER_KEY_DB_KEY, blob)]\<rparr>)))) (\<lambda>_.
     bind load_encrypted_master_key (\<lambda>row.
     bind (ok_or (Internal ''Master key row missing after INSERT'') row) (\<lambda>stored.
     reject_if (stored \<noteq> blob)
       (Internal (''Another process stored a different master key '' @ em_dash @ '' restart to load it'')))))"

definition bootstrap_master_key :: "crypto \<Rightarrow> string \<Rightarrow> ('z, byte list) svc" where
  "bootstrap_master_key C secret_key_b64 =
     bind (lift (decode_secret_key C secret_key_b64)) (\<lambda>wk.
     bind load_encrypted_master_key (\<lambda>row. case row of
         Some blob \<Rightarrow> lift (aes_gcm_unwrap C wk blob)
       | None \<Rightarrow>
           bind generate_master_key (\<lambda>key.
           bind (aes_gcm_wrap C wk key) (\<lambda>blob.
           bind (store_encrypted_master_key blob) (\<lambda>_.
           ret key)))))"

section \<open>Facts about statements\<close>

lemma bind_runE:
  assumes "bind m k w = (r, w')"
  obtains e where "m w = (Inl e, w')" "r = Inl e" | x w1 where "m w = (Inr x, w1)" "k x w1 = (r, w')"
  using assms by (auto simp: bind_def split: prod.splits sum.splits)

lemma foreign_key_text: "\<not> contains (to_ascii_lowercase ''FOREIGN KEY constraint failed'') ''unique constraint''"
  by code_simp

lemma unique_violations [simp]:
  "is_unique_violation (unique_failed cols)" "\<not> is_unique_violation foreign_key_failed"
  "\<not> is_unique_violation (SqlOther m)"
  by (simp_all add: is_unique_violation_def db_error_def unique_failed_def foreign_key_failed_def
      foreign_key_text)

lemma select_calm: "calm w \<Longrightarrow> select g w = (Inr (g (tb w)), tick w)"
  by (simp add: select_def calm_def)

lemma select_Inr: "select g w = (Inr x, w') \<Longrightarrow> x = g (tb w) \<and> w' = tick w"
  by (simp add: select_def split: option.splits)

lemma exec_Inr: "exec f w = (Inr n, w') \<Longrightarrow>
   \<exists>t. f (datetime_text w (clock w)) (tb w) = Inr (n, t) \<and> w' = tick (w\<lparr>tb := t\<rparr>)"
  by (auto simp: exec_def split: option.splits sum.splits)

lemma exec_returning_Inr: "exec_returning f w = (Inr x, w') \<Longrightarrow>
   \<exists>t. f (datetime_text w (clock w)) (tb w) = Inr (x, t) \<and> w' = tick (w\<lparr>tb := t\<rparr>)"
  by (auto simp: exec_returning_def split: option.splits sum.splits)

lemma exec_calm: "calm w \<Longrightarrow> exec f w =
   (case f (datetime_text w (clock w)) (tb w) of
      Inl e \<Rightarrow> (Inl e, tick w) | Inr (n, t) \<Rightarrow> (Inr n, tick (w\<lparr>tb := t\<rparr>)))"
  by (simp add: exec_def calm_def)

lemma sqlx_Inr [simp]: "sqlx m w = (Inr x, w') \<longleftrightarrow> m w = (Inr x, w')"
  by (simp add: sqlx_def)

lemma snd_sqlx [simp]: "snd (sqlx m w) = snd (m w)"
  by (simp add: sqlx_def)

lemma tick_fields [simp]:
  "tb (tick w) = tb w" "datetime_text (tick w) = datetime_text w" "parse_datetime (tick w) = parse_datetime w"
  "clock (tick v) = clock v" "uuids (tick v) = uuids v" "uuid_pos (tick v) = uuid_pos v"
  by (simp_all add: tick_def)

lemma readonly_select: "keeps readonly (select g)"
  by (simp add: keeps_def readonly_def select_def tick_def split: option.splits)

lemma readonly_exec: "keeps readonly (exec f)"
  by (auto simp: keeps_def readonly_def exec_def tick_def split: option.splits sum.splits)

lemma readonly_exec_returning: "keeps readonly (exec_returning f)"
  by (auto simp: keeps_def readonly_def exec_returning_def tick_def split: option.splits sum.splits)

lemma readonly_sqlx: "keeps readonly m \<Longrightarrow> keeps readonly (sqlx m)"
  by (simp add: keeps_def)

text \<open>
  What actions that do not touch the database do to it: nothing. \<open>same_db\<close> is proved for the
  operating system calls once, and composes.
\<close>

definition same_db :: "'z db_scheme \<Rightarrow> 'z db_scheme \<Rightarrow> bool" where
  "same_db w w' = (tb w' = tb w \<and> clock w' = clock w \<and> datetime_text w' = datetime_text w \<and>
     parse_datetime w' = parse_datetime w)"

interpretation same_db: frame_rel same_db
  by unfold_locales (auto simp: same_db_def)

lemma same_db_syscall: "keeps same_db (syscall f)"
  by (auto simp: keeps_def same_db_def syscall_def tick_def split: option.splits sum.splits)

lemma same_db_query: "keeps same_db (query f)"
  by (simp add: query_def same_db_syscall)

lemma same_db_mutate: "keeps same_db (mutate f)"
  by (simp add: mutate_def same_db_syscall)

lemma same_db_select: "keeps same_db (select g)"
  by (simp add: keeps_def same_db_def select_def split: option.splits)

lemma same_db_fill_bytes: "keeps same_db (fill_bytes n)"
  by (simp add: keeps_def same_db_def fill_bytes_def)

lemma same_db_new_uuid: "keeps same_db new_uuid"
  by (simp add: keeps_def same_db_def new_uuid_def)

lemma same_db_sqlx: "keeps same_db m \<Longrightarrow> keeps same_db (sqlx m)"
  by (simp add: keeps_def)

lemmas same_db_rules = same_db.keeps_rules same_db_syscall same_db_query same_db_mutate
  same_db_select same_db_fill_bytes same_db_new_uuid same_db_sqlx

section \<open>The master key survives\<close>

definition master_row :: "'z db_scheme \<Rightarrow> byte list option" where
  "master_row w = map_of (t_config (tb w)) MASTER_KEY_DB_KEY"

lemma master_row_tick [simp]: "master_row (tick w) = master_row w"
  by (simp add: master_row_def)

definition keeps_master :: "'z db_scheme \<Rightarrow> 'z db_scheme \<Rightarrow> bool" where
  "keeps_master w w' = (master_row w \<noteq> None \<longrightarrow> master_row w' = master_row w)"

interpretation keeps_master: frame_rel keeps_master
  by unfold_locales (auto simp: keeps_master_def)

lemma keeps_master_same: "keeps same_db m \<Longrightarrow> keeps keeps_master m"
  by (auto simp: keeps_def same_db_def keeps_master_def master_row_def)

lemma keeps_master_store: "keeps keeps_master (store_encrypted_master_key blob)"
proof -
  have ins: "keeps keeps_master (sqlx (exec (\<lambda>now t.
        if map_of (t_config t) MASTER_KEY_DB_KEY \<noteq> None then Inr (0, t)
        else Inr (1, t\<lparr>t_config := t_config t @ [(MASTER_KEY_DB_KEY, blob)]\<rparr>))))"
    by (auto simp: keeps_def keeps_master_def master_row_def exec_def split: option.splits)
  have load: "keeps keeps_master load_encrypted_master_key"
    unfolding load_encrypted_master_key_def by (intro keeps_master_same same_db_rules)
  show ?thesis
    unfolding store_encrypted_master_key_def by (intro keeps_master.keeps_rules ins load)
qed

lemma keeps_master_bootstrap: "keeps keeps_master (bootstrap_master_key C sk)"
proof -
  have load: "keeps keeps_master load_encrypted_master_key"
    unfolding load_encrypted_master_key_def by (intro keeps_master_same same_db_rules)
  have gen: "keeps keeps_master (generate_master_key :: ('z db_ext, byte list) app)"
    unfolding generate_master_key_def by (intro keeps_master_same same_db_rules)
  have wrap: "keeps keeps_master (aes_gcm_wrap C wk k :: ('z db_ext, byte list) app)" for wk k
    unfolding aes_gcm_wrap_def
    by (intro keeps_master.keeps_rules keeps_master_same [OF same_db_fill_bytes])
  show ?thesis
    unfolding bootstrap_master_key_def
    by (intro keeps_master.keeps_rules load gen wrap keeps_master_store)
qed

lemma readonly_bootstrap: "keeps readonly (bootstrap_master_key C sk)"
  unfolding bootstrap_master_key_def store_encrypted_master_key_def load_encrypted_master_key_def
    generate_master_key_def aes_gcm_wrap_def
  by (intro readonly_rules readonly_sqlx readonly_select readonly_exec)

lemma store_master_Inr:
  assumes "store_encrypted_master_key blob w = (Inr u, w')"
  shows "master_row w' = Some blob"
  using assms unfolding store_encrypted_master_key_def load_encrypted_master_key_def
  by (elim bind_InrE) (auto dest!: exec_Inr select_Inr split: if_splits option.splits simp: master_row_def)

lemma bootstrap_Inr:
  assumes ok: "crypto_ok C" and run: "bootstrap_master_key C sk w = (Inr k, w')"
  shows "\<exists>wk blob. decode_secret_key C sk = Inr wk \<and> master_row w' = Some blob \<and> aes_gcm_unwrap C wk blob = Inr k"
proof -
  obtain wk row w1 where wk: "decode_secret_key C sk = Inr wk"
    and load: "load_encrypted_master_key w = (Inr row, w1)"
    and rest: "(case row of Some blob \<Rightarrow> lift (aes_gcm_unwrap C wk blob)
       | None \<Rightarrow> bind generate_master_key (\<lambda>key. bind (aes_gcm_wrap C wk key) (\<lambda>blob.
           bind (store_encrypted_master_key blob) (\<lambda>_. ret key)))) w1 = (Inr k, w')"
    using run unfolding bootstrap_master_key_def by (elim bind_InrE) auto
  have row: "row = master_row w" "w1 = tick w"
    using load by (auto simp: load_encrypted_master_key_def master_row_def dest: select_Inr)
  show ?thesis
  proof (cases row)
    case (Some blob)
    then show ?thesis using rest row wk by auto
  next
    case None
    then obtain blob w2 w3 where gen: "generate_master_key w1 = (Inr k, w2)"
      and wrap: "aes_gcm_wrap C wk k w2 = (Inr blob, w3)" and st: "store_encrypted_master_key blob w3 = (Inr (), w')"
      using rest by (auto elim!: bind_InrE)
    obtain n c t where b: "length n = 12" "gcm_encrypt C wk n k = Some (c, t)" "blob = n @ c @ t"
      using wrap aes_gcm_wrap_Inr by metis
    have "length k = 32" using gen by (auto simp: generate_master_key_def fill_bytes_def len_defs)
    then have "aes_gcm_unwrap C wk blob = Inr k"
      using crypto_gcm [OF ok b(2)] b by (simp add: aes_gcm_unwrap_def len_defs)
    then show ?thesis using wk store_master_Inr [OF st] by blast
  qed
qed

text \<open>
  The master key survives restarts: once a boot succeeds with key \<open>k\<close>, every later boot with
  the same secret that finds the row (whatever happened in between) gets \<open>k\<close> again and writes
  nothing; and no boot, successful or failing anywhere, changes a stored key.
\<close>

theorem master_key_survives:
  assumes ok: "crypto_ok C" and run: "bootstrap_master_key C sk w = (Inr k, w')"
    and later: "master_row w2 = master_row w'" "calm w2"
  shows "bootstrap_master_key C sk w2 = (Inr k, tick w2) \<and>
    (\<forall>sk' v blob. master_row v = Some blob \<longrightarrow> master_row (snd (bootstrap_master_key C sk' v)) = Some blob)"
proof -
  obtain wk blob where *: "decode_secret_key C sk = Inr wk" "master_row w' = Some blob" "aes_gcm_unwrap C wk blob = Inr k"
    using bootstrap_Inr [OF ok run] by blast
  then have "load_encrypted_master_key w2 = (Inr (Some blob), tick w2)"
    using later by (simp add: load_encrypted_master_key_def select_calm master_row_def)
  then have "bootstrap_master_key C sk w2 = (Inr k, tick w2)"
    using * by (simp add: bootstrap_master_key_def bind_InrI)
  then show ?thesis
    using keeps_master_bootstrap unfolding keeps_def keeps_master_def by fastforce
qed

section \<open>A quiet server\<close>

definition no_tables :: tables where
  "no_tables = \<lparr>t_users = [], t_libraries = [], t_groups = [], t_group_members = [], t_spaces = [],
     t_space_access = [], t_sessions = [], t_uploads = [], t_events = [], t_config = []\<rparr>"

text \<open>Times are rendered as twelve decimal digits, which keeps their order.\<close>

definition toy_text :: "int \<Rightarrow> string" where
  "toy_text n = (let s = show_nat (nat n) in replicate (12 - length s) (CHR ''0'') @ s)"

definition toy_parse :: "string \<Rightarrow> int option" where
  "toy_parse s = (if list_all ascii_digit s \<and> s \<noteq> [] then Some (foldl (\<lambda>n c. 10 * n + int (char_code c - 48)) 0 s) else None)"

definition server :: "tree \<Rightarrow> tables \<Rightarrow> db" where
  "server t tabs = \<lparr>tree = t, ticks = 0, faults = (\<lambda>n. None), caps = (\<lambda>n. 4096), mtimes = (\<lambda>p. None),
     clock = 1000, rng = (\<lambda>n. word_of_nat n), rng_pos = 0, uuids = (\<lambda>n. show_nat n), uuid_pos = 0,
     tb = tabs, datetime_text = toy_text, parse_datetime = toy_parse\<rparr>"

lemma server_simps [simp]:
  "calm (server t tabs)" "tree (server t tabs) = t" "tb (server t tabs) = tabs"
  by (simp_all add: server_def calm_def)

lemma toy_gcm: "gcm_encrypt toy_crypto k n p = Some (p, toy_tag k)"
  by (simp add: toy_crypto_def)

lemma toy_secret: "decode_secret_key toy_crypto (replicate 32 (CHR ''k'')) = Inr (replicate 32 107)"
  by code_simp

theorem master_key_survives_witness:
  "let m = bootstrap_master_key toy_crypto (replicate 32 (CHR ''k''));
       w = snd (m (server [] no_tables))
   in fst (m w) = fst (m (server [] no_tables)) \<and> (\<exists>k. fst (m w) = Inr k)"
proof -
  let ?m = "bootstrap_master_key toy_crypto (replicate 32 (CHR ''k''))"
  let ?start = "server [] no_tables"
  let ?w = "snd (?m ?start)"
  have "\<not> isl (fst (?m ?start))"
    by (simp add: bootstrap_master_key_def toy_secret toy_gcm load_encrypted_master_key_def
        store_encrypted_master_key_def bind_def sqlx_def map_err_def select_def exec_def server_def
        no_tables_def tick_def generate_master_key_def fill_bytes_def aes_gcm_wrap_def ok_or_def
        split: option.splits)
  then obtain k where run: "?m ?start = (Inr k, ?w)" using run_fst by (metis sum.collapse(2))
  have "calm ?w"
    by (rule readonly_calm [OF readonly_bootstrap run]) simp
  then have "?m ?w = (Inr k, tick ?w)"
    by (rule conjunct1 [OF master_key_survives [OF toy_crypto_ok run refl]])
  then have "fst (?m ?w) = Inr k" by (metis fst_conv)
  then show ?thesis using arg_cong [OF run, of fst] by (simp add: Let_def)
qed

end
