(* ===== verification/UnlockState.thy ===== *)
theory UnlockState
  imports Crypto "HOL-Library.AList"
begin

text \<open>
  The store of decrypted data keys (\<open>src/src/services/unlock_state.rs\<close>): two concurrent maps from
  identifiers to keys, one for libraries and one for spaces. Each \<open>DashMap\<close> is an association
  list without repeated keys. \<open>DataKey::from_bytes\<close> would panic on a key that is not 32 bytes
  long; keys enter the store only as \<open>DataKey\<close> values, and \<open>keys_wf\<close> is the invariant under
  which that panic (modelled as \<open>None\<close>) cannot happen.
\<close>

section \<open>State and operations\<close>

record unlock_state =
  libraries :: "(string \<times> byte list) list"
  spaces :: "(string \<times> byte list) list"

definition new_unlock_state :: unlock_state where
  "new_unlock_state = \<lparr>libraries = [], spaces = []\<rparr>"

definition insert_library_key :: "string \<Rightarrow> byte list \<Rightarrow> unlock_state \<Rightarrow> unlock_state" where
  "insert_library_key library_id key u = u\<lparr>libraries := AList.update library_id key (libraries u)\<rparr>"

definition get_library_key :: "unlock_state \<Rightarrow> string \<Rightarrow> byte list option" where
  "get_library_key u library_id =
     (case map_of (libraries u) library_id of None \<Rightarrow> None | Some entry \<Rightarrow> data_key_from_bytes entry)"

definition remove_library_key :: "string \<Rightarrow> unlock_state \<Rightarrow> bool \<times> unlock_state" where
  "remove_library_key library_id u =
     (map_of (libraries u) library_id \<noteq> None, u\<lparr>libraries := AList.delete library_id (libraries u)\<rparr>)"

definition is_library_unlocked :: "unlock_state \<Rightarrow> string \<Rightarrow> bool" where
  "is_library_unlocked u library_id = (map_of (libraries u) library_id \<noteq> None)"

definition unlocked_library_count :: "unlock_state \<Rightarrow> nat" where
  "unlocked_library_count u = length (libraries u)"

definition insert_space_key :: "string \<Rightarrow> byte list \<Rightarrow> unlock_state \<Rightarrow> unlock_state" where
  "insert_space_key space_id key u = u\<lparr>spaces := AList.update space_id key (spaces u)\<rparr>"

definition get_space_key :: "unlock_state \<Rightarrow> string \<Rightarrow> byte list option" where
  "get_space_key u space_id =
     (case map_of (spaces u) space_id of None \<Rightarrow> None | Some entry \<Rightarrow> data_key_from_bytes entry)"

definition remove_space_key :: "string \<Rightarrow> unlock_state \<Rightarrow> bool \<times> unlock_state" where
  "remove_space_key space_id u =
     (map_of (spaces u) space_id \<noteq> None, u\<lparr>spaces := AList.delete space_id (spaces u)\<rparr>)"

definition is_space_unlocked :: "unlock_state \<Rightarrow> string \<Rightarrow> bool" where
  "is_space_unlocked u space_id = (map_of (spaces u) space_id \<noteq> None)"

definition unlocked_space_count :: "unlock_state \<Rightarrow> nat" where
  "unlocked_space_count u = length (spaces u)"

definition clear_all :: "unlock_state \<Rightarrow> unlock_state" where
  "clear_all u = u\<lparr>libraries := [], spaces := []\<rparr>"

section \<open>The contract of a key store\<close>

text \<open>
  What the services rely on: a key that was inserted is found until it is removed, identifiers do
  not interfere, and the status queries agree with the lookups.
\<close>

locale key_store =
  fixes inv :: "'s \<Rightarrow> bool"
    and insert :: "string \<Rightarrow> byte list \<Rightarrow> 's \<Rightarrow> 's"
    and get :: "'s \<Rightarrow> string \<Rightarrow> byte list option"
    and remove :: "string \<Rightarrow> 's \<Rightarrow> bool \<times> 's"
    and unlocked :: "'s \<Rightarrow> string \<Rightarrow> bool"
    and count :: "'s \<Rightarrow> nat"
  assumes inv_insert: "inv s \<Longrightarrow> length k = 32 \<Longrightarrow> inv (insert i k s)"
    and inv_remove: "inv s \<Longrightarrow> inv (snd (remove i s))"
    and get_insert: "inv s \<Longrightarrow> length k = 32 \<Longrightarrow> get (insert i k s) j = (if j = i then Some k else get s j)"
    and get_remove: "inv s \<Longrightarrow> get (snd (remove i s)) j = (if j = i then None else get s j)"
    and removed: "inv s \<Longrightarrow> fst (remove i s) = (get s i \<noteq> None)"
    and unlocked_iff: "inv s \<Longrightarrow> unlocked s i = (get s i \<noteq> None)"
    and count_card: "inv s \<Longrightarrow> count s = card {i. get s i \<noteq> None} \<and> finite {i. get s i \<noteq> None}"
    and get_length: "inv s \<Longrightarrow> get s i = Some k \<Longrightarrow> length k = 32"
begin

lemma unlock_then_locked:
  "inv s \<Longrightarrow> length k = 32 \<Longrightarrow>
     fst (remove i (insert i k s)) \<and> \<not> unlocked (snd (remove i (insert i k s))) i"
  by (simp add: removed inv_insert inv_remove get_insert get_remove unlocked_iff)

lemma remove_twice: "inv s \<Longrightarrow> \<not> fst (remove i (snd (remove i s)))"
  by (simp add: removed inv_remove get_remove)

lemma count_insert:
  assumes "inv s" "length k = 32"
  shows "count (insert i k s) = (if unlocked s i then count s else count s + 1)"
proof -
  have "{j. get (insert i k s) j \<noteq> None} = (if get s i \<noteq> None then {j. get s j \<noteq> None}
      else Set.insert i {j. get s j \<noteq> None})"
    using assms by (auto simp: get_insert)
  then show ?thesis using assms count_card [OF assms(1)]
    by (simp add: count_card [OF inv_insert] unlocked_iff card_insert_if)
qed

lemma count_remove:
  assumes "inv s"
  shows "count (snd (remove i s)) = (if unlocked s i then count s - 1 else count s)"
proof -
  have "{j. get (snd (remove i s)) j \<noteq> None} = {j. get s j \<noteq> None} - {i}"
    using assms by (auto simp: get_remove)
  then show ?thesis using assms
    by (simp add: count_card inv_remove unlocked_iff card_Diff_singleton_if)
qed

end

section \<open>The code's two stores\<close>

definition entries_wf :: "(string \<times> byte list) list \<Rightarrow> bool" where
  "entries_wf xs = (distinct (map fst xs) \<and> (\<forall>k \<in> set (map snd xs). length k = 32))"

definition keys_wf :: "unlock_state \<Rightarrow> bool" where
  "keys_wf u = (entries_wf (libraries u) \<and> entries_wf (spaces u))"

lemma entries_wf_update: "entries_wf xs \<Longrightarrow> length k = 32 \<Longrightarrow> entries_wf (AList.update i k xs)"
proof (induction xs)
  case (Cons x xs)
  then show ?case
    by (cases x) (auto simp: entries_wf_def dom_update image_iff dest: distinct_update [of xs i k])
qed (simp add: entries_wf_def)

lemma entries_wf_delete: "entries_wf xs \<Longrightarrow> entries_wf (AList.delete i xs)"
  by (auto simp: entries_wf_def distinct_delete AList.delete_eq image_iff
      intro!: distinct_map_filter)

lemma entries_wf_lookup: "entries_wf xs \<Longrightarrow> map_of xs i = Some k \<Longrightarrow> length k = 32"
  by (force simp: entries_wf_def dest: map_of_SomeD)

lemma keys_wf_new: "keys_wf new_unlock_state"
  by (simp add: keys_wf_def new_unlock_state_def entries_wf_def)

lemma data_key_wf: "length k = 32 \<Longrightarrow> data_key_from_bytes k = Some k"
  by (simp add: data_key_from_bytes_def KEY_LEN_def)

text \<open>Under the invariant a lookup is the map's lookup: the panic is unreachable.\<close>

lemma get_library_key_wf: "keys_wf u \<Longrightarrow> get_library_key u i = map_of (libraries u) i"
  by (auto simp: get_library_key_def keys_wf_def data_key_wf split: option.splits dest: entries_wf_lookup)

lemma get_space_key_wf: "keys_wf u \<Longrightarrow> get_space_key u i = map_of (spaces u) i"
  by (auto simp: get_space_key_def keys_wf_def data_key_wf split: option.splits dest: entries_wf_lookup)

lemma entries_count:
  assumes "entries_wf xs"
  shows "length xs = card {i. map_of xs i \<noteq> None} \<and> finite {i. map_of xs i \<noteq> None}"
proof -
  have "{i. map_of xs i \<noteq> None} = set (map fst xs)" by (auto simp: map_of_eq_None_iff)
  then show ?thesis using assms distinct_card [of "map fst xs"] by (simp add: entries_wf_def)
qed

interpretation lib_keys: key_store keys_wf insert_library_key get_library_key remove_library_key
  is_library_unlocked unlocked_library_count
proof unfold_locales
  fix s :: unlock_state and i and k :: "byte list"
  assume w: "keys_wf s" and k: "length k = 32"
  show i: "keys_wf (insert_library_key i k s)"
    using w k by (simp add: keys_wf_def insert_library_key_def entries_wf_update)
  fix j
  show "get_library_key (insert_library_key i k s) j = (if j = i then Some k else get_library_key s j)"
    using w i by (simp add: get_library_key_wf insert_library_key_def update_conv')
next
  fix s :: unlock_state and i
  assume w: "keys_wf s"
  show r: "keys_wf (snd (remove_library_key i s))"
    using w by (simp add: keys_wf_def remove_library_key_def entries_wf_delete)
  show "get_library_key (snd (remove_library_key i s)) j = (if j = i then None else get_library_key s j)" for j
    using w r by (simp add: get_library_key_wf remove_library_key_def delete_conv')
  show "fst (remove_library_key i s) = (get_library_key s i \<noteq> None)"
    using w by (simp add: get_library_key_wf remove_library_key_def)
  show "is_library_unlocked s i = (get_library_key s i \<noteq> None)"
    using w by (simp add: get_library_key_wf is_library_unlocked_def)
  show "unlocked_library_count s = card {i. get_library_key s i \<noteq> None} \<and> finite {i. get_library_key s i \<noteq> None}"
    using w entries_count [of "libraries s"]
    by (simp add: get_library_key_wf unlocked_library_count_def keys_wf_def)
  show "length k = 32" if "get_library_key s i = Some k" for k
    using w that entries_wf_lookup [of "libraries s" i k] by (simp add: get_library_key_wf keys_wf_def)
qed

interpretation space_keys: key_store keys_wf insert_space_key get_space_key remove_space_key
  is_space_unlocked unlocked_space_count
proof unfold_locales
  fix s :: unlock_state and i and k :: "byte list"
  assume w: "keys_wf s" and k: "length k = 32"
  show i: "keys_wf (insert_space_key i k s)"
    using w k by (simp add: keys_wf_def insert_space_key_def entries_wf_update)
  fix j
  show "get_space_key (insert_space_key i k s) j = (if j = i then Some k else get_space_key s j)"
    using w i by (simp add: get_space_key_wf insert_space_key_def update_conv')
next
  fix s :: unlock_state and i
  assume w: "keys_wf s"
  show r: "keys_wf (snd (remove_space_key i s))"
    using w by (simp add: keys_wf_def remove_space_key_def entries_wf_delete)
  show "get_space_key (snd (remove_space_key i s)) j = (if j = i then None else get_space_key s j)" for j
    using w r by (simp add: get_space_key_wf remove_space_key_def delete_conv')
  show "fst (remove_space_key i s) = (get_space_key s i \<noteq> None)"
    using w by (simp add: get_space_key_wf remove_space_key_def)
  show "is_space_unlocked s i = (get_space_key s i \<noteq> None)"
    using w by (simp add: get_space_key_wf is_space_unlocked_def)
  show "unlocked_space_count s = card {i. get_space_key s i \<noteq> None} \<and> finite {i. get_space_key s i \<noteq> None}"
    using w entries_count [of "spaces s"]
    by (simp add: get_space_key_wf unlocked_space_count_def keys_wf_def)
  show "length k = 32" if "get_space_key s i = Some k" for k
    using w that entries_wf_lookup [of "spaces s" i k] by (simp add: get_space_key_wf keys_wf_def)
qed

section \<open>Any sequence of operations\<close>

datatype key_op =
    InsertLibrary string "byte list" | RemoveLibrary string
  | InsertSpace string "byte list" | RemoveSpace string | ClearAll

fun apply_op :: "unlock_state \<Rightarrow> key_op \<Rightarrow> unlock_state" where
  "apply_op u (InsertLibrary i k) = insert_library_key i k u"
| "apply_op u (RemoveLibrary i) = snd (remove_library_key i u)"
| "apply_op u (InsertSpace i k) = insert_space_key i k u"
| "apply_op u (RemoveSpace i) = snd (remove_space_key i u)"
| "apply_op u ClearAll = clear_all u"

text \<open>The specification: a pair of maps.\<close>

type_synonym key_maps = "(string \<rightharpoonup> byte list) \<times> (string \<rightharpoonup> byte list)"

fun spec_op :: "key_maps \<Rightarrow> key_op \<Rightarrow> key_maps" where
  "spec_op (l, s) (InsertLibrary i k) = (l(i \<mapsto> k), s)"
| "spec_op (l, s) (RemoveLibrary i) = (l(i := None), s)"
| "spec_op (l, s) (InsertSpace i k) = (l, s(i \<mapsto> k))"
| "spec_op (l, s) (RemoveSpace i) = (l, s(i := None))"
| "spec_op (l, s) ClearAll = (Map.empty, Map.empty)"

fun op_key_ok :: "key_op \<Rightarrow> bool" where
  "op_key_ok (InsertLibrary i k) = (length k = 32)"
| "op_key_ok (InsertSpace i k) = (length k = 32)"
| "op_key_ok _ = True"

definition abs_keys :: "unlock_state \<Rightarrow> key_maps" where
  "abs_keys u = (get_library_key u, get_space_key u)"

lemma library_ops_space:
  "get_space_key (insert_library_key i k u) = get_space_key u"
  "get_space_key (snd (remove_library_key i u)) = get_space_key u"
  by (auto simp: get_space_key_def insert_library_key_def remove_library_key_def)

lemma space_ops_library:
  "get_library_key (insert_space_key i k u) = get_library_key u"
  "get_library_key (snd (remove_space_key i u)) = get_library_key u"
  by (auto simp: get_library_key_def insert_space_key_def remove_space_key_def)

lemma clear_all_keys: "keys_wf (clear_all u)" "get_library_key (clear_all u) = Map.empty"
  "get_space_key (clear_all u) = Map.empty"
  by (auto simp: clear_all_def keys_wf_def entries_wf_def get_library_key_def get_space_key_def)

lemma apply_op_refines:
  "keys_wf u \<Longrightarrow> op_key_ok p \<Longrightarrow> keys_wf (apply_op u p) \<and> abs_keys (apply_op u p) = spec_op (abs_keys u) p"
  by (cases p) (auto simp: abs_keys_def library_ops_space space_ops_library clear_all_keys
      lib_keys.inv_insert lib_keys.inv_remove lib_keys.get_insert lib_keys.get_remove
      space_keys.inv_insert space_keys.inv_remove space_keys.get_insert space_keys.get_remove)

lemma ops_refine:
  "keys_wf u \<Longrightarrow> list_all op_key_ok ps \<Longrightarrow>
     keys_wf (foldl apply_op u ps) \<and> abs_keys (foldl apply_op u ps) = foldl spec_op (abs_keys u) ps"
proof (induction ps arbitrary: u)
  case (Cons p ps)
  then show ?case using apply_op_refines [of u p] by simp
qed simp

text \<open>
  C9. The key store implements two independent maps: after any sequence of inserts, removals and
  clears of 32-byte keys, starting from the empty store, each lookup returns what the maps hold,
  the reported counts are the numbers of keys held, and a status query answers whether there is
  a key.
\<close>

theorem unlock_state_refines_maps:
  assumes "list_all op_key_ok ps"
  shows "let u = foldl apply_op new_unlock_state ps;
      (l, s) = foldl spec_op (Map.empty, Map.empty) ps
    in get_library_key u = l \<and> get_space_key u = s \<and>
       unlocked_library_count u = card (dom l) \<and> unlocked_space_count u = card (dom s) \<and>
       (\<forall>i. is_library_unlocked u i = (i \<in> dom l)) \<and> (\<forall>i. is_space_unlocked u i = (i \<in> dom s))"
proof -
  let ?u = "foldl apply_op new_unlock_state ps"
  have start: "abs_keys new_unlock_state = (Map.empty, Map.empty)"
    by (auto simp: abs_keys_def new_unlock_state_def get_library_key_def get_space_key_def)
  have u: "keys_wf ?u" "abs_keys ?u = foldl spec_op (Map.empty, Map.empty) ps"
    using ops_refine [OF keys_wf_new assms] start by auto
  show ?thesis
    using u(2) lib_keys.count_card [OF u(1)] space_keys.count_card [OF u(1)]
      lib_keys.unlocked_iff [OF u(1)] space_keys.unlocked_iff [OF u(1)]
    by (auto simp: abs_keys_def Let_def dom_def split: prod.splits)
qed

theorem unlock_state_refines_maps_witness:
  "get_library_key (foldl apply_op new_unlock_state
     [InsertLibrary ''a'' (replicate 32 1), InsertSpace ''a'' (replicate 32 2), RemoveSpace ''a'',
      InsertLibrary ''a'' (replicate 32 3)]) ''a'' = Some (replicate 32 3)"
  using unlock_state_refines_maps [of "[InsertLibrary ''a'' (replicate 32 1), InsertSpace ''a'' (replicate 32 2),
      RemoveSpace ''a'', InsertLibrary ''a'' (replicate 32 3)]"]
  by (simp add: Let_def)

end
