(* ===== verification/FsService.thy ===== *)
theory FsService
  imports UnlockState "HOL-Library.Product_Lexorder" "HOL-Library.List_Lexorder" "HOL-Library.Char_ord"
begin

text \<open>
  File operations on libraries and spaces (\<open>src/src/services/fs_service.rs\<close>). The library and the
  space functions are separate code with separate roots and key lookups, and are modelled
  separately. \<open>AppConfig\<close> (\<open>src/src/config.rs\<close>) is the record \<open>app_config\<close>; its directory strings
  are paths. Crates and Unicode tables used here are the fields of \<open>ext\<close>: the MIME guess by
  file name, hexadecimal encoding and \<open>str::to_lowercase\<close>. Logging is left out.
\<close>

section \<open>Configuration and external functions\<close>

record app_config =
  secret_key :: string
  data_dir :: path
  db_dir :: path
  default_quota_bytes :: nat
  max_upload_bytes :: nat
  session_expiry_hours :: nat
  chunk_size_bytes :: nat
  chunk_upload_expiry_hours :: nat
  max_parallel_chunks :: nat
  integrity_scan_enabled :: bool
  integrity_scan_interval_hours :: nat

record ext =
  mime_guess :: "string \<Rightarrow> string option"
  hex_encode :: "byte list \<Rightarrow> string"
  to_lowercase :: "string \<Rightarrow> string"

definition mime_from_filename :: "ext \<Rightarrow> string \<Rightarrow> string option" where
  "mime_from_filename E filename = mime_guess E filename"

section \<open>Results\<close>

record fs_entry =
  e_name :: string
  e_path :: string
  e_is_dir :: bool
  e_size :: "nat option"
  e_disk_size :: "nat option"
  e_mime_type :: "string option"
  e_modified :: "string option"
  e_integrity :: "string option"

record upload_result =
  up_path :: string
  up_size :: nat
  up_disk_size :: nat
  up_checksum_sha256 :: string
  up_mime_type :: "string option"

record download_result =
  dl_data :: "byte list"
  dl_checksum_sha256 :: string
  dl_mime_type :: "string option"
  dl_filename :: string

record usage_result =
  us_disk_bytes :: nat
  us_file_count :: nat
  us_dir_count :: nat

record rename_result =
  rn_old_path :: string
  rn_new_path :: string

section \<open>Helpers\<close>

definition INTERNAL_META_FILENAME :: string where "INTERNAL_META_FILENAME = ''.irondrive.meta''"

definition library_root :: "app_config \<Rightarrow> string \<Rightarrow> path" where
  "library_root config library_id = path_join (path_join (data_dir config) ''libraries'') library_id"

definition space_root :: "app_config \<Rightarrow> string \<Rightarrow> path" where
  "space_root config space_id = path_join (path_join (data_dir config) ''spaces'') space_id"

definition require_data_key :: "unlock_state \<Rightarrow> string \<Rightarrow> ('z, byte list) app" where
  "require_data_key unlock_state library_id = ok_or Locked (get_library_key unlock_state library_id)"

definition try_data_key :: "unlock_state \<Rightarrow> string \<Rightarrow> byte list option" where
  "try_data_key unlock_state library_id = get_library_key unlock_state library_id"

definition require_space_key :: "unlock_state \<Rightarrow> string \<Rightarrow> ('z, byte list) app" where
  "require_space_key unlock_state space_id = ok_or Locked (get_space_key unlock_state space_id)"

definition try_space_key :: "unlock_state \<Rightarrow> string \<Rightarrow> byte list option" where
  "try_space_key unlock_state space_id = get_space_key unlock_state space_id"

definition relative_display_path :: "path \<Rightarrow> path \<Rightarrow> string" where
  "relative_display_path root full =
     map (\<lambda>c. if c = CHR 0x5C then CHR ''/'' else c)
       (if is_prefix root full then join_with (CHR ''/'') (drop (length root) full)
        else CHR ''/'' # join_with (CHR ''/'') full)"

text \<open>\<open>{:04}\<close> and \<open>{:02}\<close>.\<close>

definition show_padded :: "nat \<Rightarrow> nat \<Rightarrow> string" where
  "show_padded width n = (let s = show_nat n in replicate (width - length s) (CHR ''0'') @ s)"

definition days_to_ymd :: "nat \<Rightarrow> nat \<times> nat \<times> nat" where
  "days_to_ymd days =
     (let z = int days + 719468;
          era = (if z \<ge> 0 then z else z - 146096) div 146097;
          doe = nat (z - era * 146097);
          yoe = (doe - doe div 1460 + doe div 36524 - doe div 146096) div 365;
          y = int yoe + era * 400;
          doy = doe - (365 * yoe + yoe div 4 - yoe div 100);
          mp = (5 * doy + 2) div 153;
          d = doy - (153 * mp + 2) div 5 + 1;
          m = (if mp < 10 then mp + 3 else mp - 9);
          y = (if m \<le> 2 then y + 1 else y)
      in (nat (max y 0), m, d))"

definition format_system_time :: "nat \<Rightarrow> string" where
  "format_system_time secs =
     (let days_since_epoch = secs div 86400;
          time_of_day = secs mod 86400;
          hours = time_of_day div 3600;
          minutes = (time_of_day mod 3600) div 60;
          seconds = time_of_day mod 60;
          (year, month, day) = days_to_ymd days_since_epoch
      in show_padded 4 year @ ''-'' @ show_padded 2 month @ ''-'' @ show_padded 2 day @ ''T'' @
         show_padded 2 hours @ '':'' @ show_padded 2 minutes @ '':'' @ show_padded 2 seconds @ ''Z'')"

definition is_internal_file :: "string \<Rightarrow> bool" where
  "is_internal_file name = (name = INTERNAL_META_FILENAME)"

definition ENCRYPTION_OVERHEAD :: nat where "ENCRYPTION_OVERHEAD = 3 + 12 + 16 + 32"

definition plaintext_size_from_disk :: "nat \<Rightarrow> nat" where
  "plaintext_size_from_disk disk_size = disk_size - ENCRYPTION_OVERHEAD"

definition safe_join_async :: "path \<Rightarrow> string \<Rightarrow> ('z, path) app" where
  "safe_join_async root user_path = safe_join root user_path"

definition canonicalize_async :: "path \<Rightarrow> ('z, path) app" where
  "canonicalize_async p = map_err (internal_ctx ''Cannot resolve path'') (fs_canonicalize p)"

definition format_integrity_status :: "integrity_status \<Rightarrow> string" where
  "format_integrity_status st =
     (case st of StatusOk \<Rightarrow> ''ok'' | FileHashMismatch \<Rightarrow> ''file_hash_mismatch''
      | DecryptionFailed msg \<Rightarrow> ''decryption_failed: '' @ msg)"

text \<open>The error arm shared by the metadata lookups.\<close>

definition not_found_or :: "string \<Rightarrow> io_error \<Rightarrow> app_error" where
  "not_found_or ctx e = (if e = IoNotFound then NotFound else internal_ctx ctx e)"

text \<open>\<open>target.file_name().map(..).unwrap_or_default()\<close>, and creating a parent.\<close>

definition file_name_or_default :: "path \<Rightarrow> string" where
  "file_name_or_default p = (case file_name p of None \<Rightarrow> [] | Some n \<Rightarrow> n)"

definition ensure_parent :: "string \<Rightarrow> path \<Rightarrow> ('z, unit) app" where
  "ensure_parent ctx target =
     (case parent target of None \<Rightarrow> ret ()
      | Some p \<Rightarrow> map_err (internal_ctx ctx) (fs_create_dir_all p))"

section \<open>Listing\<close>

text \<open>
  \<open>read_dir\<close> yields the entries one call at a time, each of which may fail; the body of the loop
  is the same code in both listings. \<open>DirEntry::metadata\<close> does not follow links.
\<close>

definition next_entry :: "('z, unit) io" where
  "next_entry = query (\<lambda>t. Inr ())"

definition quoted :: "string \<Rightarrow> string" where
  "quoted s = [CHR 0x27] @ s @ [CHR 0x27]"

fun list_entries ::
  "crypto \<Rightarrow> ext \<Rightarrow> path \<Rightarrow> bool \<Rightarrow> byte list option \<Rightarrow> (string \<times> path) list \<Rightarrow> fs_entry list
    \<Rightarrow> ('z, fs_entry list) app"
where
  "list_entries C E canonical_root check_integrity data_key [] entries =
     bind (map_err (internal_ctx ''Error reading directory entry'') next_entry) (\<lambda>_. ret entries)"
| "list_entries C E canonical_root check_integrity data_key ((name, entry_path) # rest) entries =
     bind (map_err (internal_ctx ''Error reading directory entry'') next_entry) (\<lambda>_.
     if is_internal_file name then list_entries C E canonical_root check_integrity data_key rest entries
     else if starts_with name ''.'' then list_entries C E canonical_root check_integrity data_key rest entries
     else
       bind (map_err (internal_ctx (''Cannot read metadata for '' @ quoted name))
               (fs_symlink_metadata entry_path)) (\<lambda>entry_meta.
       let dir = is_dir entry_meta;
           disk_size = (if dir then None else Some (len entry_meta));
           sz = (if dir then None else Some (plaintext_size_from_disk (len entry_meta)));
           mime_type = (if dir then None else mime_from_filename E name);
           modif = map_option format_system_time (modified entry_meta);
           rel_path = relative_display_path canonical_root entry_path
       in bind (if check_integrity \<and> \<not> dir then
                  bind (verify_file_integrity_async C data_key entry_path) (\<lambda>st.
                    ret (Some (format_integrity_status st)))
                else ret None) (\<lambda>integrity.
            list_entries C E canonical_root check_integrity data_key rest
              (entries @ [\<lparr>e_name = name, e_path = rel_path, e_is_dir = dir, e_size = sz,
                 e_disk_size = disk_size, e_mime_type = mime_type, e_modified = modif,
                 e_integrity = integrity\<rparr>]))))"

definition entry_key :: "ext \<Rightarrow> fs_entry \<Rightarrow> bool \<times> string" where
  "entry_key E e = (\<not> e_is_dir e, to_lowercase E (e_name e))"

definition list_directory ::
  "crypto \<Rightarrow> ext \<Rightarrow> app_config \<Rightarrow> unlock_state \<Rightarrow> string \<Rightarrow> string \<Rightarrow> bool \<Rightarrow> ('z, fs_entry list) app"
where
  "list_directory C E config unlock_state library_id user_path check_integrity =
     (let data_key = (if check_integrity then try_data_key unlock_state library_id else None);
          root = library_root config library_id
      in bind (canonicalize_async root) (\<lambda>canonical_root.
         bind (if user_path = [] then ret canonical_root else safe_join_async root user_path) (\<lambda>target.
         bind (map_err (not_found_or ''Cannot read directory metadata'') (fs_metadata target)) (\<lambda>meta.
         bind (reject_if (\<not> is_dir meta) (Validation ''The specified path is not a directory.'')) (\<lambda>_.
         bind (map_err (internal_ctx ''Cannot read directory'') (fs_read_dir target)) (\<lambda>read_dir.
         bind (list_entries C E canonical_root check_integrity data_key read_dir []) (\<lambda>entries.
         ret (sort_key (entry_key E) entries))))))))"

section \<open>Library operations\<close>

definition create_directory :: "app_config \<Rightarrow> string \<Rightarrow> string \<Rightarrow> ('z, string) app" where
  "create_directory config library_id user_path =
     bind (reject_if (user_path = []) (Validation ''Directory path must not be empty.'')) (\<lambda>_.
     let root = library_root config library_id in
     bind (safe_join_async root user_path) (\<lambda>target.
     bind (attempt (fs_create_dir_all target)) (\<lambda>r. case r of
         Inr _ \<Rightarrow> ret user_path
       | Inl e \<Rightarrow> bind (attempt (fs_metadata target)) (\<lambda>m. case m of
             Inr meta \<Rightarrow> if \<not> is_dir meta then throw (Conflict ''A file already exists at this path.'')
                         else ret user_path
           | Inl _ \<Rightarrow> throw (internal_ctx ''Failed to create directory'' e)))))"

definition upload_file_owned ::
  "crypto \<Rightarrow> ext \<Rightarrow> app_config \<Rightarrow> unlock_state \<Rightarrow> string \<Rightarrow> string \<Rightarrow> byte list \<Rightarrow> bool
    \<Rightarrow> ('z, upload_result) app"
where
  "upload_file_owned C E config unlock_state library_id user_path data write_verify =
     bind (reject_if (user_path = []) (Validation ''File path must not be empty.'')) (\<lambda>_.
     bind (require_data_key unlock_state library_id) (\<lambda>data_key.
     let root = library_root config library_id in
     bind (safe_join_async root user_path) (\<lambda>target.
     bind (ensure_parent ''Failed to create parent directories'' target) (\<lambda>_.
     let checksum_hex = hex_encode E (sha256 C data); plaintext_size = length data in
     bind (attempt (encrypt_and_write_file_owned C data_key data target write_verify)) (\<lambda>r.
     bind (case r of
             Inr _ \<Rightarrow> ret ()
           | Inl e \<Rightarrow> bind (attempt (fs_metadata target)) (\<lambda>m. case m of
                 Inr meta \<Rightarrow> if is_dir meta then throw (Conflict ''A directory already exists at this path.'')
                             else throw e
               | Inl _ \<Rightarrow> throw e)) (\<lambda>_.
     bind (map_err (internal_ctx ''Failed to stat written file'') (fs_metadata target)) (\<lambda>disk_meta.
     ret \<lparr>up_path = user_path, up_size = plaintext_size, up_disk_size = len disk_meta,
         up_checksum_sha256 = checksum_hex,
         up_mime_type = mime_from_filename E (file_name_or_default target)\<rparr>)))))))"

definition upload_file ::
  "crypto \<Rightarrow> ext \<Rightarrow> app_config \<Rightarrow> unlock_state \<Rightarrow> string \<Rightarrow> string \<Rightarrow> byte list \<Rightarrow> bool
    \<Rightarrow> ('z, upload_result) app"
where
  "upload_file C E config unlock_state library_id user_path data write_verify =
     upload_file_owned C E config unlock_state library_id user_path data write_verify"

definition upload_file_streaming ::
  "crypto \<Rightarrow> ext \<Rightarrow> app_config \<Rightarrow> unlock_state \<Rightarrow> string \<Rightarrow> string \<Rightarrow> path list \<Rightarrow> nat \<Rightarrow> bool
    \<Rightarrow> ('z, upload_result) app"
where
  "upload_file_streaming C E config unlock_state library_id user_path chunk_paths total_plaintext_bytes
     write_verify =
     bind (reject_if (user_path = []) (Validation ''File path must not be empty.'')) (\<lambda>_.
     bind (require_data_key unlock_state library_id) (\<lambda>data_key.
     let root = library_root config library_id in
     bind (safe_join_async root user_path) (\<lambda>target.
     bind (ensure_parent ''Failed to create parent directories'' target) (\<lambda>_.
     bind (stream_encrypt_chunks_to_file C data_key chunk_paths total_plaintext_bytes target write_verify) (\<lambda>_.
     bind (map_err (internal_ctx ''Failed to stat written file'') (fs_metadata target)) (\<lambda>disk_meta.
     ret \<lparr>up_path = user_path, up_size = total_plaintext_bytes, up_disk_size = len disk_meta,
         up_checksum_sha256 = [],
         up_mime_type = mime_from_filename E (file_name_or_default target)\<rparr>))))))"

definition download_file ::
  "crypto \<Rightarrow> ext \<Rightarrow> app_config \<Rightarrow> unlock_state \<Rightarrow> string \<Rightarrow> string \<Rightarrow> ('z, download_result) app"
where
  "download_file C E config unlock_state library_id user_path =
     bind (reject_if (user_path = []) (Validation ''File path must not be empty.'')) (\<lambda>_.
     bind (require_data_key unlock_state library_id) (\<lambda>data_key.
     let root = library_root config library_id in
     bind (safe_join_async root user_path) (\<lambda>target.
     bind (map_err (not_found_or ''Cannot read file metadata'') (fs_metadata target)) (\<lambda>meta.
     bind (reject_if (is_dir meta) (Validation ''The specified path is a directory, not a file.'')) (\<lambda>_.
     bind (read_and_decrypt_file C data_key target) (\<lambda>plaintext.
     let filename = file_name_or_default target in
     ret \<lparr>dl_data = plaintext, dl_checksum_sha256 = hex_encode E (sha256 C plaintext),
         dl_mime_type = mime_from_filename E filename, dl_filename = filename\<rparr>))))))"

definition delete_entry :: "app_config \<Rightarrow> string \<Rightarrow> string \<Rightarrow> ('z, unit) app" where
  "delete_entry config library_id user_path =
     bind (reject_if (user_path = []) (Validation ''Cannot delete the library root.'')) (\<lambda>_.
     let root = library_root config library_id in
     bind (safe_join_async root user_path) (\<lambda>target.
     bind (map_err (not_found_or ''Cannot read entry metadata'') (fs_metadata target)) (\<lambda>meta.
     bind (canonicalize_async root) (\<lambda>canonical_root.
     bind (canonicalize_async target) (\<lambda>canonical_target.
     bind (reject_if (\<not> is_prefix canonical_root canonical_target \<or> canonical_target = canonical_root)
             (Validation ''Path escapes the library root.'')) (\<lambda>_.
       if is_dir meta then map_err (internal_ctx ''Failed to remove directory'') (fs_remove_dir_all target)
       else map_err (internal_ctx ''Failed to remove file'') (fs_remove_file target)))))))"

definition rename_entry ::
  "app_config \<Rightarrow> string \<Rightarrow> string \<Rightarrow> string \<Rightarrow> ('z, rename_result) app"
where
  "rename_entry config library_id old_path new_path =
     bind (reject_if (old_path = []) (Validation ''Cannot rename the library root.'')) (\<lambda>_.
     bind (reject_if (new_path = []) (Validation ''New path must not be empty.'')) (\<lambda>_.
     let root = library_root config library_id in
     bind (safe_join_async root old_path) (\<lambda>source.
     bind (safe_join_async root new_path) (\<lambda>dest.
     bind (exists_or_false source) (\<lambda>source_exists.
     bind (reject_if (\<not> source_exists) NotFound) (\<lambda>_.
     bind (exists_or_false dest) (\<lambda>dest_exists.
     bind (reject_if dest_exists (Conflict ''An entry already exists at the destination path.'')) (\<lambda>_.
     bind (ensure_parent ''Failed to create destination parent directories'' dest) (\<lambda>_.
     bind (map_err (internal_ctx ''Failed to rename entry'') (fs_rename source dest)) (\<lambda>_.
     ret \<lparr>rn_old_path = old_path, rn_new_path = new_path\<rparr>))))))))))"

definition get_entry_info ::
  "crypto \<Rightarrow> ext \<Rightarrow> app_config \<Rightarrow> unlock_state \<Rightarrow> string \<Rightarrow> string \<Rightarrow> bool \<Rightarrow> ('z, fs_entry) app"
where
  "get_entry_info C E config unlock_state library_id user_path check_integrity =
     (let root = library_root config library_id
      in bind (canonicalize_async root) (\<lambda>canonical_root.
         bind (if user_path = [] then ret canonical_root else safe_join_async root user_path) (\<lambda>target.
         bind (map_err (not_found_or ''Cannot read entry metadata'') (fs_metadata target)) (\<lambda>meta.
         let dir = is_dir meta;
             disk_size = (if dir then None else Some (len meta));
             sz = (if dir then None else Some (plaintext_size_from_disk (len meta)));
             name = file_name_or_default target;
             mime_type = (if dir then None else mime_from_filename E name);
             modif = map_option format_system_time (modified meta);
             rel_path = relative_display_path canonical_root target
         in bind (if check_integrity \<and> \<not> dir then
                    bind (verify_file_integrity_async C (try_data_key unlock_state library_id) target) (\<lambda>st.
                      ret (Some (format_integrity_status st)))
                  else ret None) (\<lambda>integrity.
            ret \<lparr>e_name = name, e_path = rel_path, e_is_dir = dir, e_size = sz,
                e_disk_size = disk_size, e_mime_type = mime_type, e_modified = modif,
                e_integrity = integrity\<rparr>)))))"

text \<open>
  The walk of \<open>calculate_usage\<close>. The stack is a list with its top first. Each round takes one
  unit of fuel; \<open>None\<close> is a walk that has not ended. A directory that cannot be read, the rest of
  one whose iteration fails, and an entry without metadata are skipped.
\<close>

fun usage_entries ::
  "(string \<times> path) list \<Rightarrow> path list \<Rightarrow> nat \<times> nat \<times> nat \<Rightarrow> ('z, path list \<times> (nat \<times> nat \<times> nat)) app"
where
  "usage_entries [] stack u = bind (attempt next_entry) (\<lambda>_. ret (stack, u))"
| "usage_entries ((name, entry_path) # rest) stack (disk_bytes, file_count, dir_count) =
     bind (attempt next_entry) (\<lambda>n. case n of
         Inl _ \<Rightarrow> ret (stack, (disk_bytes, file_count, dir_count))
       | Inr _ \<Rightarrow>
           if is_internal_file name \<or> starts_with name ''.'' then
             usage_entries rest stack (disk_bytes, file_count, dir_count)
           else
             bind (attempt (fs_symlink_metadata entry_path)) (\<lambda>m. case m of
                 Inl _ \<Rightarrow> usage_entries rest stack (disk_bytes, file_count, dir_count)
               | Inr entry_meta \<Rightarrow>
                   if is_dir entry_meta then
                     usage_entries rest (entry_path # stack)
                       (disk_bytes, file_count, sat_add64 dir_count 1)
                   else if is_file entry_meta then
                     usage_entries rest stack
                       (sat_add64 disk_bytes (len entry_meta), sat_add64 file_count 1, dir_count)
                   else usage_entries rest stack (disk_bytes, file_count, dir_count)))"

fun usage_loop :: "nat \<Rightarrow> path list \<Rightarrow> nat \<times> nat \<times> nat \<Rightarrow> ('z, (nat \<times> nat \<times> nat) option) app" where
  "usage_loop fuel [] u = ret (Some u)"
| "usage_loop 0 (d # stack) u = ret None"
| "usage_loop (Suc fuel) (d # stack) u =
     bind (attempt (fs_read_dir d)) (\<lambda>r. case r of
         Inl _ \<Rightarrow> usage_loop fuel stack u
       | Inr entries \<Rightarrow> bind (usage_entries entries stack u) (\<lambda>(stack, u). usage_loop fuel stack u))"

definition calculate_usage :: "app_config \<Rightarrow> string \<Rightarrow> string \<Rightarrow> ('z, usage_result option) app" where
  "calculate_usage config library_id user_path =
     (let root = library_root config library_id
      in bind (if user_path = [] then canonicalize_async root else safe_join_async root user_path) (\<lambda>target.
         bind (map_err (not_found_or ''Cannot read entry metadata'') (fs_metadata target)) (\<lambda>meta.
         if \<not> is_dir meta then
           ret (Some \<lparr>us_disk_bytes = len meta, us_file_count = 1, us_dir_count = 0\<rparr>)
         else
           bind (gets (\<lambda>w. Suc (length (tree w)))) (\<lambda>fuel.
           bind (usage_loop fuel [target] (0, 0, 0)) (\<lambda>r. case r of
               None \<Rightarrow> ret None
             | Some (disk_bytes, file_count, dir_count) \<Rightarrow>
                 ret (Some \<lparr>us_disk_bytes = disk_bytes, us_file_count = file_count,
                            us_dir_count = dir_count\<rparr>))))))"

section \<open>Space operations\<close>

definition list_space_directory ::
  "crypto \<Rightarrow> ext \<Rightarrow> app_config \<Rightarrow> unlock_state \<Rightarrow> string \<Rightarrow> string \<Rightarrow> bool \<Rightarrow> ('z, fs_entry list) app"
where
  "list_space_directory C E config unlock_state space_id user_path check_integrity =
     (let data_key = (if check_integrity then try_space_key unlock_state space_id else None);
          root = space_root config space_id
      in bind (canonicalize_async root) (\<lambda>canonical_root.
         bind (if user_path = [] then ret canonical_root else safe_join_async root user_path) (\<lambda>target.
         bind (map_err (not_found_or ''Cannot read directory metadata'') (fs_metadata target)) (\<lambda>meta.
         bind (reject_if (\<not> is_dir meta) (Validation ''The specified path is not a directory.'')) (\<lambda>_.
         bind (map_err (internal_ctx ''Cannot read directory'') (fs_read_dir target)) (\<lambda>read_dir.
         bind (list_entries C E canonical_root check_integrity data_key read_dir []) (\<lambda>entries.
         ret (sort_key (entry_key E) entries))))))))"

definition create_space_directory :: "app_config \<Rightarrow> string \<Rightarrow> string \<Rightarrow> ('z, string) app" where
  "create_space_directory config space_id user_path =
     bind (reject_if (user_path = []) (Validation ''Directory path must not be empty.'')) (\<lambda>_.
     let root = space_root config space_id in
     bind (safe_join_async root user_path) (\<lambda>target.
     bind (attempt (fs_create_dir_all target)) (\<lambda>r. case r of
         Inr _ \<Rightarrow> ret user_path
       | Inl e \<Rightarrow> bind (attempt (fs_metadata target)) (\<lambda>m. case m of
             Inr meta \<Rightarrow> if \<not> is_dir meta then throw (Conflict ''A file already exists at this path.'')
                         else ret user_path
           | Inl _ \<Rightarrow> throw (internal_ctx ''Failed to create directory'' e)))))"

definition upload_space_file ::
  "crypto \<Rightarrow> ext \<Rightarrow> app_config \<Rightarrow> unlock_state \<Rightarrow> string \<Rightarrow> string \<Rightarrow> byte list \<Rightarrow> bool
    \<Rightarrow> ('z, upload_result) app"
where
  "upload_space_file C E config unlock_state space_id user_path data write_verify =
     bind (reject_if (user_path = []) (Validation ''File path must not be empty.'')) (\<lambda>_.
     bind (require_space_key unlock_state space_id) (\<lambda>data_key.
     let root = space_root config space_id in
     bind (safe_join_async root user_path) (\<lambda>target.
     bind (ensure_parent ''Failed to create parent directories'' target) (\<lambda>_.
     let checksum_hex = hex_encode E (sha256 C data); plaintext_size = length data in
     bind (attempt (encrypt_and_write_file_owned C data_key data target write_verify)) (\<lambda>r.
     bind (case r of
             Inr _ \<Rightarrow> ret ()
           | Inl e \<Rightarrow> bind (attempt (fs_metadata target)) (\<lambda>m. case m of
                 Inr meta \<Rightarrow> if is_dir meta then throw (Conflict ''A directory already exists at this path.'')
                             else throw e
               | Inl _ \<Rightarrow> throw e)) (\<lambda>_.
     bind (map_err (internal_ctx ''Failed to stat written file'') (fs_metadata target)) (\<lambda>disk_meta.
     ret \<lparr>up_path = user_path, up_size = plaintext_size, up_disk_size = len disk_meta,
         up_checksum_sha256 = checksum_hex,
         up_mime_type = mime_from_filename E (file_name_or_default target)\<rparr>)))))))"

definition upload_space_file_streaming ::
  "crypto \<Rightarrow> ext \<Rightarrow> app_config \<Rightarrow> unlock_state \<Rightarrow> string \<Rightarrow> string \<Rightarrow> path list \<Rightarrow> nat \<Rightarrow> bool
    \<Rightarrow> ('z, upload_result) app"
where
  "upload_space_file_streaming C E config unlock_state space_id user_path chunk_paths total_plaintext_bytes
     write_verify =
     bind (reject_if (user_path = []) (Validation ''File path must not be empty.'')) (\<lambda>_.
     bind (require_space_key unlock_state space_id) (\<lambda>data_key.
     let root = space_root config space_id in
     bind (safe_join_async root user_path) (\<lambda>target.
     bind (ensure_parent ''Failed to create parent directories'' target) (\<lambda>_.
     bind (stream_encrypt_chunks_to_file C data_key chunk_paths total_plaintext_bytes target write_verify) (\<lambda>_.
     bind (map_err (internal_ctx ''Failed to stat written file'') (fs_metadata target)) (\<lambda>disk_meta.
     ret \<lparr>up_path = user_path, up_size = total_plaintext_bytes, up_disk_size = len disk_meta,
         up_checksum_sha256 = [],
         up_mime_type = mime_from_filename E (file_name_or_default target)\<rparr>))))))"

definition download_space_file ::
  "crypto \<Rightarrow> ext \<Rightarrow> app_config \<Rightarrow> unlock_state \<Rightarrow> string \<Rightarrow> string \<Rightarrow> ('z, download_result) app"
where
  "download_space_file C E config unlock_state space_id user_path =
     bind (reject_if (user_path = []) (Validation ''File path must not be empty.'')) (\<lambda>_.
     bind (require_space_key unlock_state space_id) (\<lambda>data_key.
     let root = space_root config space_id in
     bind (safe_join_async root user_path) (\<lambda>target.
     bind (map_err (not_found_or ''Cannot read file metadata'') (fs_metadata target)) (\<lambda>meta.
     bind (reject_if (is_dir meta) (Validation ''The specified path is a directory, not a file.'')) (\<lambda>_.
     bind (read_and_decrypt_file C data_key target) (\<lambda>plaintext.
     let filename = file_name_or_default target in
     ret \<lparr>dl_data = plaintext, dl_checksum_sha256 = hex_encode E (sha256 C plaintext),
         dl_mime_type = mime_from_filename E filename, dl_filename = filename\<rparr>))))))"

definition delete_space_entry :: "app_config \<Rightarrow> string \<Rightarrow> string \<Rightarrow> ('z, unit) app" where
  "delete_space_entry config space_id user_path =
     bind (reject_if (user_path = []) (Validation ''Cannot delete the space root.'')) (\<lambda>_.
     let root = space_root config space_id in
     bind (safe_join_async root user_path) (\<lambda>target.
     bind (map_err (not_found_or ''Cannot read entry metadata'') (fs_metadata target)) (\<lambda>meta.
     bind (canonicalize_async root) (\<lambda>canonical_root.
     bind (canonicalize_async target) (\<lambda>canonical_target.
     bind (reject_if (\<not> is_prefix canonical_root canonical_target \<or> canonical_target = canonical_root)
             (Validation ''Path escapes the space root.'')) (\<lambda>_.
       if is_dir meta then map_err (internal_ctx ''Failed to remove directory'') (fs_remove_dir_all target)
       else map_err (internal_ctx ''Failed to remove file'') (fs_remove_file target)))))))"

definition rename_space_entry ::
  "app_config \<Rightarrow> string \<Rightarrow> string \<Rightarrow> string \<Rightarrow> ('z, rename_result) app"
where
  "rename_space_entry config space_id old_path new_path =
     bind (reject_if (old_path = []) (Validation ''Cannot rename the space root.'')) (\<lambda>_.
     bind (reject_if (new_path = []) (Validation ''New path must not be empty.'')) (\<lambda>_.
     let root = space_root config space_id in
     bind (safe_join_async root old_path) (\<lambda>source.
     bind (safe_join_async root new_path) (\<lambda>dest.
     bind (exists_or_false source) (\<lambda>source_exists.
     bind (reject_if (\<not> source_exists) NotFound) (\<lambda>_.
     bind (exists_or_false dest) (\<lambda>dest_exists.
     bind (reject_if dest_exists (Conflict ''An entry already exists at the destination path.'')) (\<lambda>_.
     bind (ensure_parent ''Failed to create destination parent directories'' dest) (\<lambda>_.
     bind (map_err (internal_ctx ''Failed to rename entry'') (fs_rename source dest)) (\<lambda>_.
     ret \<lparr>rn_old_path = old_path, rn_new_path = new_path\<rparr>))))))))))"

definition get_space_entry_info ::
  "crypto \<Rightarrow> ext \<Rightarrow> app_config \<Rightarrow> unlock_state \<Rightarrow> string \<Rightarrow> string \<Rightarrow> bool \<Rightarrow> ('z, fs_entry) app"
where
  "get_space_entry_info C E config unlock_state space_id user_path check_integrity =
     (let root = space_root config space_id
      in bind (canonicalize_async root) (\<lambda>canonical_root.
         bind (if user_path = [] then ret canonical_root else safe_join_async root user_path) (\<lambda>target.
         bind (map_err (not_found_or ''Cannot read entry metadata'') (fs_metadata target)) (\<lambda>meta.
         let dir = is_dir meta;
             disk_size = (if dir then None else Some (len meta));
             sz = (if dir then None else Some (plaintext_size_from_disk (len meta)));
             name = file_name_or_default target;
             mime_type = (if dir then None else mime_from_filename E name);
             modif = map_option format_system_time (modified meta);
             rel_path = relative_display_path canonical_root target
         in bind (if check_integrity \<and> \<not> dir then
                    bind (verify_file_integrity_async C (try_space_key unlock_state space_id) target) (\<lambda>st.
                      ret (Some (format_integrity_status st)))
                  else ret None) (\<lambda>integrity.
            ret \<lparr>e_name = name, e_path = rel_path, e_is_dir = dir, e_size = sz,
                e_disk_size = disk_size, e_mime_type = mime_type, e_modified = modif,
                e_integrity = integrity\<rparr>)))))"

definition calculate_space_usage :: "app_config \<Rightarrow> string \<Rightarrow> string \<Rightarrow> ('z, usage_result option) app" where
  "calculate_space_usage config space_id user_path =
     (let root = space_root config space_id
      in bind (if user_path = [] then canonicalize_async root else safe_join_async root user_path) (\<lambda>target.
         bind (map_err (not_found_or ''Cannot read entry metadata'') (fs_metadata target)) (\<lambda>meta.
         if \<not> is_dir meta then
           ret (Some \<lparr>us_disk_bytes = len meta, us_file_count = 1, us_dir_count = 0\<rparr>)
         else
           bind (gets (\<lambda>w. Suc (length (tree w)))) (\<lambda>fuel.
           bind (usage_loop fuel [target] (0, 0, 0)) (\<lambda>r. case r of
               None \<Rightarrow> ret None
             | Some (disk_bytes, file_count, dir_count) \<Rightarrow>
                 ret (Some \<lparr>us_disk_bytes = disk_bytes, us_file_count = file_count,
                            us_dir_count = dir_count\<rparr>))))))"

end
