(* ===== verification/FsFacts.thy ===== *)
theory FsFacts
  imports FsService CryptoFacts
begin

text \<open>
  What the file operations promise: every mutating operation changes entries under its own root
  only, whatever the caller's path, the links in the tree and the failures of the environment;
  an upload is what a later download returns; a locked realm reads and writes nothing.
\<close>

section \<open>Confinement of the writers\<close>

lemmas within_rules = within.keeps_rules within_calls
  keeps_within_readonly [OF readonly_calls(1)] keeps_within_readonly [OF readonly_calls(2)]
  keeps_within_readonly [OF readonly_calls(3)] keeps_within_readonly [OF readonly_calls(4)]
  keeps_within_readonly [OF readonly_calls(5)] keeps_within_readonly [OF readonly_calls(6)]
  keeps_within_readonly [OF readonly_calls(7)] keeps_within_readonly [OF readonly_calls(8)]
  keeps_within_readonly [OF readonly_calls(9)] keeps_within_readonly [OF readonly_calls(10)]
  keeps_within_readonly [OF readonly_fill_bytes] keeps_within_readonly [OF readonly_new_uuid]
  keeps_within_readonly [OF readonly_exists_or_false] keeps_within_readonly [OF readonly_verify_file_hash]

lemma keeps_created:
  fixes k :: "path \<Rightarrow> ('z, 'a) app"
  assumes b: "below r P p" and k: "keeps (within t0 r P) (k p)"
  shows "keeps (within t0 r P) (bind (map_err f (fs_create p)) k)"
proof (rule within_bind)
  show "keeps (within t0 r P) (map_err f (fs_create p) :: ('z, path) app)"
    by (intro within.keeps_rules keeps_create [OF b])
  fix x and w w' :: "'z os_scheme"
  assume c: "confined t0 r P w" and m: "map_err f (fs_create p) w = (Inr x, w')"
  have "x = p"
    using create_handle [of w p x w'] confined_linkfree [OF c b] c m by (simp add: confined_def)
  then show "keeps (within t0 r P) (k x)" using k by simp
qed

lemma keeps_encrypt_write:
  "below r P p \<Longrightarrow> keeps (within t0 r P) (encrypt_and_write_file_owned C k d p v)"
  unfolding encrypt_and_write_file_owned_def
  by (intro within_rules keeps_created) 

lemma keeps_stream_chunks:
  "below r P out \<Longrightarrow> keeps (within t0 r P) (stream_chunks C k n out m i ps br h)"
  by (induction ps arbitrary: i br h) (auto intro!: within_rules)

lemma keeps_stream_encrypt:
  "below r P p \<Longrightarrow> keeps (within t0 r P) (stream_encrypt_chunks_to_file C k ps sz p v)"
  unfolding stream_encrypt_chunks_to_file_def
  by (intro within_rules keeps_created keeps_stream_chunks)

section \<open>Confinement of an operation\<close>

text \<open>
  Whatever the action returns, it keeps the tree well formed, and every entry that differs
  afterwards lies under the directory the root resolves to.
\<close>

definition changes_only_under :: "path \<Rightarrow> ('z, 'a) app \<Rightarrow> bool" where
  "changes_only_under root m = (\<forall>w. wf_tree (tree w) \<longrightarrow> wf_tree (tree (snd (m w))) \<and>
     (\<forall>q. lookup (tree (snd (m w))) q \<noteq> lookup (tree w) q \<longrightarrow>
        (\<exists>r. canon_path (tree w) root = Inr r \<and> is_prefix r q)))"

lemma changes_readonly: "keeps readonly m \<Longrightarrow> changes_only_under root m"
  by (simp add: changes_only_under_def keeps_def readonly_def)

lemma changes_bind_readonly:
  fixes m :: "('z, 'b) app" and k :: "'b \<Rightarrow> ('z, 'a) app"
  assumes m: "keeps readonly m" and k: "\<And>x. changes_only_under root (k x)"
  shows "changes_only_under root (bind m k)"
  unfolding changes_only_under_def
proof (intro allI impI)
  fix w :: "'z os_scheme" assume wf: "wf_tree (tree w)"
  obtain y w1 where run: "m w = (y, w1)" by fastforce
  have t: "tree w1 = tree w" using readonlyD [OF m run] .
  show "wf_tree (tree (snd (bind m k w))) \<and> (\<forall>q. lookup (tree (snd (bind m k w))) q \<noteq> lookup (tree w) q \<longrightarrow>
      (\<exists>r. canon_path (tree w) root = Inr r \<and> is_prefix r q))"
  proof (cases y)
    case (Inl e)
    then show ?thesis using run t wf by (simp add: bind_def)
  next
    case (Inr x)
    then have "bind m k w = k x w1" using run by (simp add: bind_def)
    then show ?thesis using k [of x] t wf unfolding changes_only_under_def by metis
  qed
qed

lemma readonly_safe_walk: "keeps readonly (safe_walk root cur cs)"
proof (induction cs arbitrary: cur)
  case (Cons c cs)
  show ?case
    unfolding safe_walk.simps Let_def
    by (intro readonly.keeps_bind readonly.keeps_attempt readonly_calls)
      (auto intro!: readonly_rules Cons split: sum.splits io_error.splits)
qed (simp add: readonly.keeps_ret)

lemma readonly_safe_join: "keeps readonly (safe_join root u)"
  unfolding safe_join_def
  by (intro readonly_rules readonly_safe_walk)

lemma readonly_safe_join_async: "keeps readonly (safe_join_async root u)"
  by (simp add: safe_join_async_def readonly_safe_join)

lemma readonly_canonicalize_async: "keeps readonly (canonicalize_async p)"
  unfolding canonicalize_async_def by (intro readonly_rules)

text \<open>
  The pattern of every operation: a checked path, then calls on it. The paths the calls may use
  are the checked one and its parent.
\<close>

lemma safe_join_facts:
  assumes wf: "wf_tree (tree w)" and run: "safe_join_async root u w = (Inr p, w')"
  obtains r where "canon_path (tree w) root = Inr r" "is_prefix r p" "linkfree (tree w) p"
    "tree w' = tree w" "canon (tree w) r"
  using safe_join_contains [OF wf run [unfolded safe_join_async_def]] canon_path_is_canon [OF wf] by blast

lemma butlast_below: "is_prefix r p \<Longrightarrow> is_prefix r (butlast p) \<or> is_prefix (butlast p) r"
  by (cases p rule: rev_cases) (auto simp: is_prefix_snoc)

lemma changes_safe_join:
  fixes k :: "path \<Rightarrow> ('z, 'a) app"
  assumes k: "\<And>t0 r p. is_prefix r p \<Longrightarrow> keeps (within t0 r {p, butlast p}) (k p)"
  shows "changes_only_under root (bind (safe_join_async root u) k)"
  unfolding changes_only_under_def
proof (intro allI impI)
  fix w :: "'z os_scheme" assume wf: "wf_tree (tree w)"
  obtain y w1 where run: "safe_join_async root u w = (y, w1)" by fastforce
  show "wf_tree (tree (snd (bind (safe_join_async root u) k w))) \<and>
      (\<forall>q. lookup (tree (snd (bind (safe_join_async root u) k w))) q \<noteq> lookup (tree w) q \<longrightarrow>
      (\<exists>r. canon_path (tree w) root = Inr r \<and> is_prefix r q))"
  proof (cases y)
    case (Inl e)
    then show ?thesis
      using run readonlyD [OF readonly_safe_join_async run] wf by (simp add: bind_def)
  next
    case (Inr p)
    obtain r where r: "canon_path (tree w) root = Inr r" "is_prefix r p" "linkfree (tree w) p"
      "tree w1 = tree w" "canon (tree w) r"
      using safe_join_facts [OF wf run [unfolded Inr]] by metis
    have "confined (tree w) r {p, butlast p} w1"
      using r wf linkfree_butlast confined_start [of w1 r "{p, butlast p}"] by (auto simp: canon_def)
    then have "confined (tree w) r {p, butlast p} (snd (k p w1))"
      using k [OF r(2), of "tree w"] by (simp add: keeps_def within_def)
    moreover have "bind (safe_join_async root u) k w = k p w1" using run Inr by (simp add: bind_def)
    ultimately show ?thesis using r(1) by (auto simp: confined_def)
  qed
qed

lemma keeps_ensure_parent_in:
  assumes "is_prefix r p" "butlast p \<in> P"
  shows "keeps (within t0 r P) (ensure_parent ctx p)"
  unfolding ensure_parent_def parent_def
  using butlast_below [OF assms(1)] assms(2)
  by (auto intro!: within.keeps_rules keeps_create_dir_all)

lemma keeps_ensure_parent:
  "is_prefix r p \<Longrightarrow> keeps (within t0 r {p, butlast p}) (ensure_parent ctx p)"
  by (rule keeps_ensure_parent_in) auto

lemma keeps_target_dir:
  "is_prefix r p \<Longrightarrow> keeps (within t0 r {p, butlast p}) (fs_create_dir_all p :: ('z, unit) io)"
  by (rule keeps_create_dir_all) auto

lemma below_target: "is_prefix r p \<Longrightarrow> below r {p, butlast p} p"
  by (simp add: below_def)

lemmas op_rules = within.keeps_rules keeps_ensure_parent keeps_target_dir
  keeps_encrypt_write [OF below_target] keeps_stream_encrypt [OF below_target]
  keeps_remove_file [OF below_target] keeps_remove_dir_all [OF below_target]
  keeps_within_readonly [OF readonly_calls(2)] keeps_within_readonly [OF readonly_canonicalize_async]
  keeps_within_readonly [OF readonly_exists_or_false]

lemmas op_start = changes_bind_readonly [OF readonly.keeps_reject_if]
  changes_bind_readonly [OF readonly.keeps_ok_or] changes_safe_join

lemma changes_create_directory: "changes_only_under (library_root c i) (create_directory c i p)"
  unfolding create_directory_def Let_def
  by (intro op_start) (intro op_rules; assumption?)

lemma changes_upload: "changes_only_under (library_root c i) (upload_file_owned C E c u i p d v)"
  unfolding upload_file_owned_def Let_def require_data_key_def
  by (intro op_start) (intro op_rules; assumption?)

lemma changes_upload_streaming:
  "changes_only_under (library_root c i) (upload_file_streaming C E c u i p ps sz v)"
  unfolding upload_file_streaming_def Let_def require_data_key_def
  by (intro op_start) (intro op_rules; assumption?)

lemma changes_delete: "changes_only_under (library_root c i) (delete_entry c i p)"
  unfolding delete_entry_def Let_def
  by (intro op_start) (intro op_rules; assumption?)

lemma changes_create_space_directory: "changes_only_under (space_root c i) (create_space_directory c i p)"
  unfolding create_space_directory_def Let_def
  by (intro op_start) (intro op_rules; assumption?)

lemma changes_space_upload: "changes_only_under (space_root c i) (upload_space_file C E c u i p d v)"
  unfolding upload_space_file_def Let_def require_space_key_def
  by (intro op_start) (intro op_rules; assumption?)

lemma changes_space_upload_streaming:
  "changes_only_under (space_root c i) (upload_space_file_streaming C E c u i p ps sz v)"
  unfolding upload_space_file_streaming_def Let_def require_space_key_def
  by (intro op_start) (intro op_rules; assumption?)

lemma changes_space_delete: "changes_only_under (space_root c i) (delete_space_entry c i p)"
  unfolding delete_space_entry_def Let_def
  by (intro op_start) (intro op_rules; assumption?)

subsection \<open>Renaming\<close>

lemma confined_weaker: "confined t0 r P w \<Longrightarrow> P' \<subseteq> P \<Longrightarrow> confined t0 r P' w"
  by (auto simp: confined_def)

lemma within_then:
  fixes m :: "('z, 'b) app" and k :: "'b \<Rightarrow> ('z, 'a) app"
  assumes c: "confined t0 r P w" and m: "keeps (within t0 r P) m"
    and k: "\<And>x w. confined t0 r P w \<Longrightarrow> confined t0 r {} (snd (k x w))"
  shows "confined t0 r {} (snd (bind m k w))"
proof -
  obtain y w1 where run: "m w = (y, w1)" by fastforce
  have "confined t0 r P w1" using keepsD [OF m run] c by (simp add: within_def)
  then show ?thesis using run k confined_weaker [of t0 r P w1 "{}"] by (cases y) (auto simp: bind_def)
qed

lemma changes_safe_join2:
  fixes k :: "path \<Rightarrow> path \<Rightarrow> ('z, 'a) app"
  assumes k: "\<And>t0 r p q w. \<lbrakk>is_prefix r p; is_prefix r q; confined t0 r {p, q, butlast q} w\<rbrakk>
      \<Longrightarrow> confined t0 r {} (snd (k p q w))"
  shows "changes_only_under root
    (bind (safe_join_async root u) (\<lambda>p. bind (safe_join_async root v) (\<lambda>q. k p q)))" (is "changes_only_under root ?m")
  unfolding changes_only_under_def
proof (intro allI impI)
  fix w :: "'z os_scheme" assume wf: "wf_tree (tree w)"
  obtain y w1 where run: "safe_join_async root u w = (y, w1)" by fastforce
  obtain z w2 where run2: "safe_join_async root v w1 = (z, w2)" by fastforce
  have t: "tree w1 = tree w" "tree w2 = tree w"
    using readonlyD [OF readonly_safe_join_async run] readonlyD [OF readonly_safe_join_async run2] by auto
  show "wf_tree (tree (snd (?m w))) \<and> (\<forall>q. lookup (tree (snd (?m w))) q \<noteq> lookup (tree w) q \<longrightarrow>
      (\<exists>r. canon_path (tree w) root = Inr r \<and> is_prefix r q))"
  proof (cases "\<exists>p q. y = Inr p \<and> z = Inr q")
    case False
    then have "tree (snd (?m w)) = tree w"
      using run run2 t by (cases y; cases z) (auto simp: bind_def)
    then show ?thesis using wf by simp
  next
    case True
    then obtain p q where y: "y = Inr p" "z = Inr q" by blast
    obtain r where r: "canon_path (tree w) root = Inr r" "is_prefix r p" "linkfree (tree w) p" "canon (tree w) r"
      using safe_join_facts [OF wf run [unfolded y]] by metis
    have wf1: "wf_tree (tree w1)" using wf t by simp
    obtain r' where r': "canon_path (tree w) root = Inr r'" "is_prefix r' q" "linkfree (tree w) q"
      using safe_join_facts [OF wf1 run2 [unfolded y]] t by metis
    have "confined (tree w) r {p, q, butlast q} w2"
      using r r' t wf linkfree_butlast confined_start [of w2 r "{p, q, butlast q}"] by (auto simp: canon_def)
    then have "confined (tree w) r {} (snd (k p q w2))"
      using r r' by (intro k) auto
    moreover have "?m w = k p q w2" using run run2 y by (simp add: bind_def)
    ultimately show ?thesis using r(1) by (auto simp: confined_def)
  qed
qed

lemma rename_leaves_confined:
  assumes c: "confined t0 r {p, q, butlast q} w" and p: "is_prefix r p" "is_prefix r q"
  shows "confined t0 r {} (snd (bind (map_err f (fs_rename p q)) (\<lambda>_. ret x) w))"
proof -
  obtain y w1 where run: "fs_rename p q w = (y, w1)" by fastforce
  have "confined t0 r {} w1"
    using rename_confined [OF c _ _ run] p confined_weaker by (fastforce simp: below_def)
  then show ?thesis using run by (cases y) (auto simp: bind_def map_err_def)
qed

lemmas rename_steps = changes_safe_join2 changes_bind_readonly [OF readonly.keeps_reject_if]

lemma changes_rename: "changes_only_under (library_root c i) (rename_entry c i p q)"
  unfolding rename_entry_def Let_def
  by (intro rename_steps;
      rule within_then, assumption, rule keeps_within_readonly [OF readonly_exists_or_false];
      rule within_then, assumption, rule within.keeps_reject_if;
      rule within_then, assumption, rule keeps_within_readonly [OF readonly_exists_or_false];
      rule within_then, assumption, rule within.keeps_reject_if;
      rule within_then, assumption, rule keeps_ensure_parent_in, assumption, simp;
      rule rename_leaves_confined; assumption)

lemma changes_space_rename: "changes_only_under (space_root c i) (rename_space_entry c i p q)"
  unfolding rename_space_entry_def Let_def
  by (intro rename_steps;
      rule within_then, assumption, rule keeps_within_readonly [OF readonly_exists_or_false];
      rule within_then, assumption, rule within.keeps_reject_if;
      rule within_then, assumption, rule keeps_within_readonly [OF readonly_exists_or_false];
      rule within_then, assumption, rule within.keeps_reject_if;
      rule within_then, assumption, rule keeps_ensure_parent_in, assumption, simp;
      rule rename_leaves_confined; assumption)

section \<open>Isolation\<close>

text \<open>
  C11. Library isolation. No operation on a library changes anything outside the directory the
  library's root resolves to: for every user path, every tree with whatever symbolic links,
  every pattern of failing system calls, and whether the operation succeeds or not.
\<close>

theorem library_isolation:
  "changes_only_under (library_root c i) (create_directory c i p) \<and>
   changes_only_under (library_root c i) (upload_file C E c u i p d v) \<and>
   changes_only_under (library_root c i) (upload_file_streaming C E c u i p ps sz v) \<and>
   changes_only_under (library_root c i) (delete_entry c i p) \<and>
   changes_only_under (library_root c i) (rename_entry c i p q)"
  by (simp add: upload_file_def changes_create_directory changes_upload changes_upload_streaming
      changes_delete changes_rename)

text \<open>The same for the operations on spaces.\<close>

theorem space_isolation:
  "changes_only_under (space_root c i) (create_space_directory c i p) \<and>
   changes_only_under (space_root c i) (upload_space_file C E c u i p d v) \<and>
   changes_only_under (space_root c i) (upload_space_file_streaming C E c u i p ps sz v) \<and>
   changes_only_under (space_root c i) (delete_space_entry c i p) \<and>
   changes_only_under (space_root c i) (rename_space_entry c i p q)"
  by (simp add: changes_create_space_directory changes_space_upload changes_space_upload_streaming
      changes_space_delete changes_space_rename)

section \<open>Uploading and downloading\<close>

text \<open>
  The part of an upload and a download behind the key lookup, common to libraries and spaces. The
  equations below show that each service function is this part at its own root and key.
\<close>

definition upload_to ::
  "crypto \<Rightarrow> ext \<Rightarrow> path \<Rightarrow> byte list \<Rightarrow> string \<Rightarrow> byte list \<Rightarrow> bool \<Rightarrow> ('z, upload_result) app"
where
  "upload_to C E root data_key user_path data write_verify =
     bind (safe_join_async root user_path) (\<lambda>target.
     bind (ensure_parent ''Failed to create parent directories'' target) (\<lambda>_.
     bind (attempt (encrypt_and_write_file_owned C data_key data target write_verify)) (\<lambda>r.
     bind (case r of
             Inr _ \<Rightarrow> ret ()
           | Inl e \<Rightarrow> bind (attempt (fs_metadata target)) (\<lambda>m. case m of
                 Inr meta \<Rightarrow> if is_dir meta then throw (Conflict ''A directory already exists at this path.'')
                             else throw e
               | Inl _ \<Rightarrow> throw e)) (\<lambda>_.
     bind (map_err (internal_ctx ''Failed to stat written file'') (fs_metadata target)) (\<lambda>disk_meta.
     ret \<lparr>up_path = user_path, up_size = length data, up_disk_size = len disk_meta,
         up_checksum_sha256 = hex_encode E (sha256 C data),
         up_mime_type = mime_from_filename E (file_name_or_default target)\<rparr>)))))"

definition download_from :: "crypto \<Rightarrow> ext \<Rightarrow> path \<Rightarrow> byte list \<Rightarrow> string \<Rightarrow> ('z, download_result) app" where
  "download_from C E root data_key user_path =
     bind (safe_join_async root user_path) (\<lambda>target.
     bind (map_err (not_found_or ''Cannot read file metadata'') (fs_metadata target)) (\<lambda>meta.
     bind (reject_if (is_dir meta) (Validation ''The specified path is a directory, not a file.'')) (\<lambda>_.
     bind (read_and_decrypt_file C data_key target) (\<lambda>plaintext.
     ret \<lparr>dl_data = plaintext, dl_checksum_sha256 = hex_encode E (sha256 C plaintext),
         dl_mime_type = mime_from_filename E (file_name_or_default target),
         dl_filename = file_name_or_default target\<rparr>))))"

lemma upload_file_owned_eq:
  "upload_file_owned C E c u i p d v =
     (if p = [] then throw (Validation ''File path must not be empty.'')
      else case get_library_key u i of None \<Rightarrow> throw Locked
           | Some k \<Rightarrow> upload_to C E (library_root c i) k p d v)"
  by (rule ext) (simp add: upload_file_owned_def require_data_key_def upload_to_def Let_def split: option.split)

lemma upload_space_file_eq:
  "upload_space_file C E c u i p d v =
     (if p = [] then throw (Validation ''File path must not be empty.'')
      else case get_space_key u i of None \<Rightarrow> throw Locked
           | Some k \<Rightarrow> upload_to C E (space_root c i) k p d v)"
  by (rule ext) (simp add: upload_space_file_def require_space_key_def upload_to_def Let_def split: option.split)

lemma download_file_eq:
  "download_file C E c u i p =
     (if p = [] then throw (Validation ''File path must not be empty.'')
      else case get_library_key u i of None \<Rightarrow> throw Locked
           | Some k \<Rightarrow> download_from C E (library_root c i) k p)"
  by (rule ext) (simp add: download_file_def require_data_key_def download_from_def Let_def split: option.split)

lemma download_space_file_eq:
  "download_space_file C E c u i p =
     (if p = [] then throw (Validation ''File path must not be empty.'')
      else case get_space_key u i of None \<Rightarrow> throw Locked
           | Some k \<Rightarrow> download_from C E (space_root c i) k p)"
  by (rule ext) (simp add: download_space_file_def require_space_key_def download_from_def Let_def split: option.split)

lemma ensure_parent_Inr:
  assumes wf: "wf_tree (tree w)" and run: "ensure_parent ctx p w = (Inr x, w')"
  shows "wf_tree (tree w') \<and> grows (tree w) (tree w')"
proof (cases "parent p")
  case None
  then show ?thesis using run wf by (simp add: ensure_parent_def grows_def)
next
  case (Some d)
  then have m: "mkdirs (tree w) [] d = Inr (tree w')"
    using run by (auto simp: ensure_parent_def fs_create_dir_all_def dest: mutate_Inr)
  then show ?thesis
    using mkdirs_props [OF wf _ m] mkdirs_keeps [of "tree w" "[]" d] by (auto simp: grows_def)
qed

lemma ensure_parent_linkfree:
  assumes l: "linkfree (tree w) p" and run: "ensure_parent ctx p w = (Inr x, w')"
  shows "linkfree (tree w') p"
proof (cases "parent p")
  case None
  then show ?thesis using run l by (simp add: ensure_parent_def)
next
  case (Some d)
  then have m: "mkdirs (tree w) [] d = Inr (tree w')"
    using run by (auto simp: ensure_parent_def fs_create_dir_all_def dest: mutate_Inr)
  have "linkfree (tree w) ([] @ d)" using l Some linkfree_butlast by (auto simp: parent_def split: if_splits)
  then show ?thesis using l mkdirs_lookup [OF _ _ m] by (auto simp: linkfree_def)
qed

lemma upload_to_Inr:
  assumes wf: "wf_tree (tree w)" and run: "upload_to C E root k p d v w = (Inr res, w')"
  obtains target blob w1 where "safe_join root p w = (Inr target, w1)" "single_of C k d blob"
    "lookup (tree w') target = Some (Reg blob)" "grows (tree w) (tree w')" "wf_tree (tree w')"
    "up_path res = p" "up_size res = length d" "up_disk_size res = length blob"
    "up_checksum_sha256 res = hex_encode E (sha256 C d)"
    "up_mime_type res = mime_from_filename E (file_name_or_default target)"
proof -
  obtain target w1 w2 w3 m w4 u where
    j: "safe_join_async root p w = (Inr target, w1)"
    and e: "ensure_parent ''Failed to create parent directories'' target w1 = (Inr u, w2)"
    and c: "encrypt_and_write_file_owned C k d target v w2 = (Inr (), w3)"
    and m: "fs_metadata target w3 = (Inr m, w')"
    and res: "res = \<lparr>up_path = p, up_size = length d, up_disk_size = len m,
         up_checksum_sha256 = hex_encode E (sha256 C d),
         up_mime_type = mime_from_filename E (file_name_or_default target)\<rparr>"
    using run unfolding upload_to_def
    by (elim bind_InrE) (auto split: sum.splits if_splits)
  have l: "linkfree (tree w) target" "tree w1 = tree w"
    using safe_join_facts [OF wf j] by metis+
  have wf2: "wf_tree (tree w2)" "grows (tree w) (tree w2)" and l2: "linkfree (tree w2) target"
    using ensure_parent_Inr [OF _ e] ensure_parent_linkfree [OF _ e] wf l by auto
  obtain blob where b: "single_of C k d blob" "tree w3 = put target (Reg blob) (tree w2)" "target \<noteq> []"
    using encrypt_write_Inr [OF wf2(1) l2 c] by blast
  have wf3: "wf_tree (tree w3)" by (rule keeps_wf_encrypt_write [OF wf2(1) l2 c])
  have w': "tree w' = tree w3" using readonlyD [OF readonly_calls(2) m] .
  have lk: "lookup (tree w3) target = Some (Reg blob)" using b by (simp add: lookup_put)
  have len: "len m = length blob"
    using m metadata_file [OF wf3 lk] by (auto simp: inode_meta_def split: option.splits)
  obtain n h wa wb where "(fill_bytes NONCE_LEN :: (_, byte list) app) w2 = (Inr n, wa)"
    and h: "fs_create target wa = (Inr h, wb)"
    using c unfolding encrypt_and_write_file_owned_def Let_def
    by (auto simp: bind_Inr_iff split: option.splits)
  then have "tree wa = tree w2" by (auto dest: tree_fill_bytes)
  then obtain q where q: "create_target (tree w2) target = Inr q"
    using h by (auto simp: fs_create_def syscall_def split: option.splits sum.splits)
  have "lookup (tree w2) target \<noteq> Some Dir" "\<And>s. lookup (tree w2) target \<noteq> Some (Link s)"
    using create_target_linkfree [OF wf2(1) l2 q] l2 by (auto simp: linkfree_def)
  then have "\<exists>d. i = Reg d" if "lookup (tree w2) target = Some i" for i
    using that by (cases i) auto
  then have "grows (tree w2) (tree w3)"
    using b by (auto simp: grows_def lookup_put)
  then have "grows (tree w) (tree w')" using wf2(2) w' grows_trans by simp
  then show ?thesis
    using that j b(1) lk wf3 w' res len by (simp add: safe_join_async_def)
qed

text \<open>What a download returns depends on the bytes of the file at the checked path alone.\<close>

lemma download_from_bytes:
  assumes j: "safe_join root p w = (Inr target, w1)" and wf: "wf_tree (tree w)"
    and calm: "calm w" and lk: "lookup (tree w) target = Some (Reg blob)" and rb: "read_bytes C k blob = Inr d"
  shows "fst (download_from C E root k p w) = Inr \<lparr>dl_data = d, dl_checksum_sha256 = hex_encode E (sha256 C d),
    dl_mime_type = mime_from_filename E (file_name_or_default target), dl_filename = file_name_or_default target\<rparr>"
proof -
  have t: "tree w1 = tree w" and c1: "calm w1"
    using readonlyD [OF readonly_safe_join j] readonly_calm [OF readonly_safe_join j calm] by auto
  have md: "fs_metadata target w1 = (Inr (inode_meta (Reg blob) (mtimes w1 target)), tick w1)"
    by (rule metadata_file_calm) (simp_all add: c1 t wf lk)
  have "fst (read_and_decrypt_file C k target (tick w1)) = read_bytes C k blob"
    by (rule read_and_decrypt_file_bytes) (simp_all add: c1 t wf lk)
  then obtain w2 where r: "read_and_decrypt_file C k target (tick w1) = (Inr d, w2)"
    using rb by (metis prod.collapse)
  show ?thesis
    by (simp add: download_from_def safe_join_async_def bind_InrI [of "safe_join root p", OF j]
        bind_map_err_InrI [of "fs_metadata target", OF md] inode_meta_def
        bind_InrI [of "read_and_decrypt_file C k target", OF r])
qed

lemma download_from_file:
  assumes ok: "crypto_ok C" and j: "safe_join root p w = (Inr target, w1)" and wf: "wf_tree (tree w)"
    and calm: "calm w" and lk: "lookup (tree w) target = Some (Reg blob)" and s: "single_of C k d blob"
  shows "\<exists>dl. fst (download_from C E root k p w) = Inr dl \<and> dl_data dl = d \<and>
    dl_checksum_sha256 dl = hex_encode E (sha256 C d) \<and>
    dl_mime_type dl = mime_from_filename E (file_name_or_default target)"
proof -
  have "read_bytes C k blob = Inr d"
    using single_magic [OF ok s] single_decrypt_bytes [OF ok s] magics_differ by (simp add: read_bytes_def)
  then show ?thesis using download_from_bytes [OF j wf calm lk] by simp
qed

lemma download_from_Inr:
  assumes wf: "wf_tree (tree w)" and calm: "calm w" and run: "download_from C E root k p w = (Inr dl, w')"
  obtains target w1 blob where "safe_join root p w = (Inr target, w1)" "lookup (tree w) target = Some (Reg blob)"
    "read_bytes C k blob = Inr (dl_data dl)" "tree w' = tree w" "calm w'"
proof -
  obtain target w1 m w2 d where j: "safe_join_async root p w = (Inr target, w1)"
    and m: "fs_metadata target w1 = (Inr m, w2)" "\<not> is_dir m"
    and d: "read_and_decrypt_file C k target w2 = (Inr d, w')" "dl_data dl = d"
    using run unfolding download_from_def by (elim bind_InrE) (auto split: if_splits)
  have l: "linkfree (tree w) target" "tree w1 = tree w" using safe_join_facts [OF wf j] by metis+
  have calm1: "calm w1" "calm w2" "tree w2 = tree w"
    using readonly_calm [OF readonly_safe_join_async j calm] readonly_calm [OF readonly_calls(2) m(1)]
      readonlyD [OF readonly_calls(2) m(1)] l by auto
  obtain q i where "stat_inode (tree w) target = Inr (q, i)" and im: "m = inode_meta i (mtimes w1 q)"
    using m(1) l(2) by (auto simp: fs_metadata_def dest!: with_meta_Inr)
  then have i: "lookup (tree w) target = Some i" using stat_linkfree [OF l(1)] by blast
  obtain blob where b: "i = Reg blob"
    using m(2) im i l(1) by (cases i) (auto simp: inode_meta_def linkfree_def)
  have "fst (read_and_decrypt_file C k target w2) = read_bytes C k blob"
    by (rule read_and_decrypt_file_bytes) (use calm1 wf i b in auto)
  then have "read_bytes C k blob = Inr (dl_data dl)" using d by simp
  moreover have "tree w' = tree w" "calm w'"
    using readonlyD [OF readonly_decrypted(3) d(1)] readonly_calm [OF readonly_decrypted(3) d(1)] calm1 by auto
  ultimately show ?thesis using that j i b by (simp add: safe_join_async_def)
qed

lemma upload_then_download:
  assumes ok: "crypto_ok C" and wf: "wf_tree (tree w)"
    and run: "upload_to C E root k p d v w = (Inr res, w')"
    and later: "tree w2 = tree w'" "calm w2"
  shows "\<exists>dl. fst (download_from C E root k p w2) = Inr dl \<and> dl_data dl = d \<and>
    dl_checksum_sha256 dl = up_checksum_sha256 res \<and> dl_mime_type dl = up_mime_type res \<and>
    up_path res = p \<and> up_size res = length d \<and> up_disk_size res = length d + 63"
proof -
  obtain target blob w1 where f: "safe_join root p w = (Inr target, w1)" "single_of C k d blob"
    "lookup (tree w') target = Some (Reg blob)" "grows (tree w) (tree w')" "wf_tree (tree w')"
    "up_path res = p" "up_size res = length d" "up_disk_size res = length blob"
    "up_checksum_sha256 res = hex_encode E (sha256 C d)"
    "up_mime_type res = mime_from_filename E (file_name_or_default target)"
    using upload_to_Inr [OF wf run] by metis
  have "canon (tree w2) target" using f(3) later(1) by (simp add: canon_def)
  then obtain v' where "safe_join root p w2 = (Inr target, v')"
    using safe_join_again [OF f(1) wf, of w2] f(4,5) later by auto
  then show ?thesis
    using download_from_file [OF ok _ _ later(2) _ f(2), of root p target v' E] f later single_length [OF ok f(2)]
    by auto
qed

text \<open>The same for an upload assembled from chunk files.\<close>

definition assemble_to ::
  "crypto \<Rightarrow> ext \<Rightarrow> path \<Rightarrow> byte list \<Rightarrow> string \<Rightarrow> path list \<Rightarrow> nat \<Rightarrow> bool \<Rightarrow> ('z, upload_result) app"
where
  "assemble_to C E root data_key user_path chunk_paths total_plaintext_bytes write_verify =
     bind (safe_join_async root user_path) (\<lambda>target.
     bind (ensure_parent ''Failed to create parent directories'' target) (\<lambda>_.
     bind (stream_encrypt_chunks_to_file C data_key chunk_paths total_plaintext_bytes target write_verify) (\<lambda>_.
     bind (map_err (internal_ctx ''Failed to stat written file'') (fs_metadata target)) (\<lambda>disk_meta.
     ret \<lparr>up_path = user_path, up_size = total_plaintext_bytes, up_disk_size = len disk_meta,
         up_checksum_sha256 = [],
         up_mime_type = mime_from_filename E (file_name_or_default target)\<rparr>))))"

lemma upload_file_streaming_eq:
  "upload_file_streaming C E c u i p ps sz v =
     (if p = [] then throw (Validation ''File path must not be empty.'')
      else case get_library_key u i of None \<Rightarrow> throw Locked
           | Some k \<Rightarrow> assemble_to C E (library_root c i) k p ps sz v)"
  by (rule ext) (simp add: upload_file_streaming_def require_data_key_def assemble_to_def Let_def split: option.split)

lemma upload_space_file_streaming_eq:
  "upload_space_file_streaming C E c u i p ps sz v =
     (if p = [] then throw (Validation ''File path must not be empty.'')
      else case get_space_key u i of None \<Rightarrow> throw Locked
           | Some k \<Rightarrow> assemble_to C E (space_root c i) k p ps sz v)"
  by (rule ext) (simp add: upload_space_file_streaming_def require_space_key_def assemble_to_def Let_def
      split: option.split)

lemma created_not_dir:
  assumes wf: "wf_tree t" and l: "linkfree t p" and q: "create_target t p = Inr q"
    and i: "lookup t p = Some i"
  shows "\<exists>d. i = Reg d"
proof -
  have "lookup t p \<noteq> Some Dir" "\<And>s. lookup t p \<noteq> Some (Link s)"
    using create_target_linkfree [OF wf l q] l by (auto simp: linkfree_def)
  then show ?thesis using i by (cases i) auto
qed

lemma stream_encrypt_target:
  assumes "stream_encrypt_chunks_to_file C k ps sz dest v w = (Inr u, w')"
  shows "\<exists>q. create_target (tree w) dest = Inr q"
  using assms unfolding stream_encrypt_chunks_to_file_def Let_def
  by (auto simp: bind_Inr_iff fs_create_def syscall_def split: option.splits sum.splits if_splits
      dest!: tree_fill_bytes)

lemma assemble_to_Inr:
  assumes wf: "wf_tree (tree w)" and run: "assemble_to C E root k p ps sz v w = (Inr res, w')"
    and root: "canon_path (tree w) root = Inr r"
    and chunks: "list_all2 (\<lambda>p d. \<not> is_prefix r p \<and> lookup (tree w) p = Some (Reg d)) ps ds"
  obtains target blob w1 where "safe_join root p w = (Inr target, w1)" "stream_of C k ds blob"
    "lookup (tree w') target = Some (Reg blob)" "grows (tree w) (tree w')" "wf_tree (tree w')"
    "is_prefix r target" "sz = length (concat ds)" "up_size res = sz" "up_path res = p"
    "up_disk_size res = length blob"
proof -
  obtain target w1 w2 w3 m u1 u2 where
    j: "safe_join_async root p w = (Inr target, w1)"
    and e: "ensure_parent ''Failed to create parent directories'' target w1 = (Inr u1, w2)"
    and c: "stream_encrypt_chunks_to_file C k ps sz target v w2 = (Inr u2, w3)"
    and m: "fs_metadata target w3 = (Inr m, w')"
    and res: "up_path res = p" "up_size res = sz" "up_disk_size res = len m"
    using run unfolding assemble_to_def by (elim bind_InrE) auto
  have l: "linkfree (tree w) target" "tree w1 = tree w" "is_prefix r target"
    using safe_join_facts [OF wf j] root by (metis sum.inject(2))+
  have wf2: "wf_tree (tree w2)" "grows (tree w) (tree w2)" and l2: "linkfree (tree w2) target"
    using ensure_parent_Inr [OF _ e] ensure_parent_linkfree [OF _ e] wf l by auto
  have keep: "lookup (tree w2) q = lookup (tree w) q" if "lookup (tree w) q \<noteq> None" for q
  proof (cases "parent target")
    case None
    then show ?thesis using e l(2) by (simp add: ensure_parent_def)
  next
    case (Some d)
    then have "mkdirs (tree w) [] d = Inr (tree w2)"
      using e l(2) by (auto simp: ensure_parent_def fs_create_dir_all_def dest!: mutate_Inr)
    then show ?thesis using mkdirs_keeps that by blast
  qed
  have "list_all2 (\<lambda>p d. p \<noteq> target \<and> lookup (tree w2) p = Some (Reg d)) ps ds"
    using chunks by (rule list_all2_mono) (use l(3) keep in auto)
  then obtain blob where b: "stream_of C k ds blob" "tree w3 = put target (Reg blob) (tree w2)" "target \<noteq> []"
    "sz = length (concat ds)" "wf_tree (tree w3)"
    using stream_encrypt_Inr [OF wf2(1) l2 _ c] by blast
  have w': "tree w' = tree w3" using readonlyD [OF readonly_calls(2) m] .
  have lk: "lookup (tree w3) target = Some (Reg blob)" using b by (simp add: lookup_put)
  have len: "len m = length blob"
    using m metadata_file [OF b(5) lk] by (auto simp: inode_meta_def split: option.splits)
  obtain q where "create_target (tree w2) target = Inr q" using stream_encrypt_target [OF c] by blast
  then have "grows (tree w2) (tree w3)"
    using b created_not_dir [OF wf2(1) l2] by (auto simp: grows_def lookup_put)
  then have "grows (tree w) (tree w')" using wf2(2) w' grows_trans by simp
  then show ?thesis
    using that j b lk w' res len l(3) by (simp add: safe_join_async_def)
qed

text \<open>
  C13. What is uploaded to a library is what is downloaded: after a successful upload (with any
  failures before it, with or without the write-verify pass, through whatever links lead to the
  path), a download of the same path with the same key returns the uploaded bytes, with the
  checksum and MIME type the upload reported; the upload's sizes are right.
\<close>

theorem upload_download_library:
  assumes ok: "crypto_ok C" and wf: "wf_tree (tree w)"
    and run: "upload_file C E c u i p d v w = (Inr res, w')"
    and later: "tree w2 = tree w'" "calm w2"
  shows "\<exists>dl. fst (download_file C E c u i p w2) = Inr dl \<and> dl_data dl = d \<and>
    dl_checksum_sha256 dl = up_checksum_sha256 res \<and> dl_mime_type dl = up_mime_type res \<and>
    up_path res = p \<and> up_size res = length d \<and> up_disk_size res = length d + 63"
proof -
  obtain k where k: "p \<noteq> []" "get_library_key u i = Some k"
    "upload_to C E (library_root c i) k p d v w = (Inr res, w')"
    using run by (auto simp: upload_file_def upload_file_owned_eq split: if_splits option.splits)
  then show ?thesis
    using upload_then_download [OF ok wf k(3) later] by (simp add: download_file_eq)
qed

text \<open>The same for a space, whose upload and download are separate code.\<close>

theorem upload_download_space:
  assumes ok: "crypto_ok C" and wf: "wf_tree (tree w)"
    and run: "upload_space_file C E c u i p d v w = (Inr res, w')"
    and later: "tree w2 = tree w'" "calm w2"
  shows "\<exists>dl. fst (download_space_file C E c u i p w2) = Inr dl \<and> dl_data dl = d \<and>
    dl_checksum_sha256 dl = up_checksum_sha256 res \<and> dl_mime_type dl = up_mime_type res \<and>
    up_path res = p \<and> up_size res = length d \<and> up_disk_size res = length d + 63"
proof -
  obtain k where k: "p \<noteq> []" "get_space_key u i = Some k"
    "upload_to C E (space_root c i) k p d v w = (Inr res, w')"
    using run by (auto simp: upload_space_file_eq split: if_splits option.splits)
  then show ?thesis
    using upload_then_download [OF ok wf k(3) later] by (simp add: download_space_file_eq)
qed

section \<open>Instances\<close>

definition toy_hex :: "byte list \<Rightarrow> string" where
  "toy_hex bs = concat (map (\<lambda>b. [char_of (97 + unat b div 16), char_of (97 + unat b mod 16)]) bs)"

definition toy_ext :: ext where
  "toy_ext = \<lparr>mime_guess = (\<lambda>n. None), hex_encode = toy_hex,
     to_lowercase = to_ascii_lowercase\<rparr>"

definition toy_config :: app_config where
  "toy_config = \<lparr>secret_key = ''k'', data_dir = [''srv''], db_dir = [''db''], default_quota_bytes = 1000,
     max_upload_bytes = 1000, session_expiry_hours = 168, chunk_size_bytes = 8,
     chunk_upload_expiry_hours = 24, max_parallel_chunks = 4, integrity_scan_enabled = True,
     integrity_scan_interval_hours = 168\<rparr>"

definition realm_tree :: tree where
  "realm_tree = [([''srv''], Dir), ([''srv'', ''libraries''], Dir), ([''srv'', ''spaces''], Dir),
     ([''srv'', ''libraries'', ''L''], Dir), ([''srv'', ''spaces'', ''S''], Dir),
     ([''srv'', ''libraries'', ''L'', ''link''], Link ''sub'')]"

definition toy_keys :: unlock_state where
  "toy_keys = insert_space_key ''S'' toy_key (insert_library_key ''L'' toy_key new_unlock_state)"

lemma wf_realm_tree: "wf_tree realm_tree"
  by (rule wf_treeI) code_simp

theorem upload_download_library_witness:
  "\<exists>dl. fst (download_file toy_crypto toy_ext toy_config toy_keys ''L'' ''a/b.txt''
     (machine (tree (snd (upload_file toy_crypto toy_ext toy_config toy_keys ''L'' ''a/b.txt'' [1, 2, 3] False
        (machine realm_tree)))))) = Inr dl \<and> dl_data dl = [1, 2, 3]"
proof -
  let ?m = "upload_file toy_crypto toy_ext toy_config toy_keys ''L'' ''a/b.txt'' [1, 2, 3] False"
  have "\<exists>res. fst (?m (machine realm_tree)) = Inr res"
    by (rule exI [of _ "projr (fst (?m (machine realm_tree)))"]) code_simp
  then obtain res where "fst (?m (machine realm_tree)) = Inr res" by blast
  note run = run_fst [of ?m, OF this]
  show ?thesis
    using upload_download_library [OF toy_crypto_ok _ run, of "machine (tree (snd (?m (machine realm_tree))))"]
      wf_realm_tree by auto
qed

theorem upload_download_space_witness:
  "\<exists>dl. fst (download_space_file toy_crypto toy_ext toy_config toy_keys ''S'' ''a/b.txt''
     (machine (tree (snd (upload_space_file toy_crypto toy_ext toy_config toy_keys ''S'' ''a/b.txt'' [1, 2] False
        (machine realm_tree)))))) = Inr dl \<and> dl_data dl = [1, 2]"
proof -
  let ?m = "upload_space_file toy_crypto toy_ext toy_config toy_keys ''S'' ''a/b.txt'' [1, 2] False"
  have "\<exists>res. fst (?m (machine realm_tree)) = Inr res"
    by (rule exI [of _ "projr (fst (?m (machine realm_tree)))"]) code_simp
  then obtain res where "fst (?m (machine realm_tree)) = Inr res" by blast
  note run = run_fst [of ?m, OF this]
  show ?thesis
    using upload_download_space [OF toy_crypto_ok _ run, of "machine (tree (snd (?m (machine realm_tree))))"]
      wf_realm_tree by auto
qed

end
