(* ===== verification/ChunkService.thy ===== *)
theory ChunkService
  imports Db FsFacts
begin

text \<open>
  Chunked transfers (\<open>src/src/services/chunk_service.rs\<close>): upload sessions staged as one file per
  chunk and assembled on completion, signed download tokens, ranged downloads and the clean-up of
  expired sessions. \<open>u32\<close> values are 32-bit words; \<open>u64\<close> values are numbers, with the saturating
  operations and the casts written out. UUID syntax, HMAC-SHA-256, hexadecimal and URL-safe base64
  decoding and the JSON form of a token come from crates: they are the fields of \<open>tools\<close>. A
  panic (division by a chunk size of zero) is the 500 response the server makes of it.
\<close>

section \<open>External functions and data\<close>

text \<open>The token payload as JSON gives it: \<open>typ\<close> may be missing.\<close>

record token_payload =
  p_v :: string
  p_uid :: string
  p_lib :: string
  p_path :: string
  p_exp :: int
  p_nonce :: string
  p_typ :: string

record raw_payload =
  rp_v :: string
  rp_uid :: string
  rp_lib :: string
  rp_path :: string
  rp_exp :: int
  rp_nonce :: string
  rp_typ :: "string option"

record tools =
  uuid_valid :: "string \<Rightarrow> bool"
  hmac_sha256 :: "byte list \<Rightarrow> byte list \<Rightarrow> string + byte list"
  hex_decode :: "string \<Rightarrow> byte list option"
  url64_encode :: "byte list \<Rightarrow> string"
  url64_decode :: "string \<Rightarrow> byte list option"
  payload_to_json :: "token_payload \<Rightarrow> string + byte list"
  payload_from_json :: "byte list \<Rightarrow> raw_payload option"

definition DOWNLOAD_TOKEN_VERSION :: string where "DOWNLOAD_TOKEN_VERSION = ''v1''"
definition DOWNLOAD_TOKEN_TTL_MINUTES :: int where "DOWNLOAD_TOKEN_TTL_MINUTES = 10"

record init_upload_params =
  ip_user_id :: string
  ip_target_id :: string
  ip_target_type :: string
  ip_target_path :: string
  ip_total_chunks :: "32 word"
  ip_total_bytes :: nat
  ip_checksum_sha256 :: "string option"

record init_upload_result =
  iu_upload_id :: string
  iu_chunk_size_bytes :: nat
  iu_total_chunks :: "32 word"
  iu_total_bytes :: nat
  iu_expires_at :: string

record receive_chunk_result =
  rc_upload_id :: string
  rc_chunk_index :: "32 word"
  rc_received_chunks :: "32 word"
  rc_total_chunks :: "32 word"

record init_download_result =
  id_token :: string
  id_filename :: string
  id_mime_type :: "string option"
  id_chunk_size_bytes :: nat
  id_total_chunks :: "32 word"
  id_total_bytes :: nat
  id_expires_at :: string

record chunk_download_result =
  cd_data :: "byte list"
  cd_mime_type :: "string option"
  cd_checksum_sha256 :: string
  cd_chunk_index :: "32 word"
  cd_total_chunks :: "32 word"
  cd_total_bytes :: nat

section \<open>Helpers\<close>

definition default_target_type :: string where "default_target_type = ''library''"

definition payload_of :: "raw_payload \<Rightarrow> token_payload" where
  "payload_of r = \<lparr>p_v = rp_v r, p_uid = rp_uid r, p_lib = rp_lib r, p_path = rp_path r, p_exp = rp_exp r,
     p_nonce = rp_nonce r,
     p_typ = (case rp_typ r of None \<Rightarrow> default_target_type | Some typ \<Rightarrow> typ)\<rparr>"

definition as_i64 :: "nat \<Rightarrow> int" where
  "as_i64 n = (if n < 2 ^ 63 then int n else int n - 2 ^ 64)"

definition as_u64 :: "int \<Rightarrow> nat" where
  "as_u64 i = nat (i mod 2 ^ 64)"

definition validate_upload_id :: "tools \<Rightarrow> string \<Rightarrow> app_error + unit" where
  "validate_upload_id T upload_id = (if uuid_valid T upload_id then Inr () else Inl NotFound)"

definition chunks_dir :: "app_config \<Rightarrow> path" where
  "chunks_dir config = path_join (data_dir config) ''.chunks''"

definition staging_dir :: "app_config \<Rightarrow> string \<Rightarrow> path" where
  "staging_dir config upload_id = path_join (chunks_dir config) upload_id"

definition chunk_path :: "app_config \<Rightarrow> string \<Rightarrow> 32 word \<Rightarrow> path" where
  "chunk_path config upload_id chunk_index =
     path_join (staging_dir config upload_id) (show_padded 8 (unat chunk_index) @ ''.chunk'')"

text \<open>\<open>None\<close>: division by zero.\<close>

definition expected_total_chunks :: "nat \<Rightarrow> nat \<Rightarrow> 32 word option" where
  "expected_total_chunks total_bytes chunk_size =
     (if total_bytes = 0 then Some 1
      else if chunk_size = 0 then None
      else Some (word_of_nat ((total_bytes + chunk_size - 1) div chunk_size)))"

definition expected_chunk_len :: "nat \<Rightarrow> nat \<Rightarrow> 32 word \<Rightarrow> 32 word \<Rightarrow> nat" where
  "expected_chunk_len total_bytes chunk_size total_chunks index =
     (if index + 1 < total_chunks then chunk_size
      else total_bytes - sat_mul64 chunk_size (unat total_chunks - 1))"

definition normalize_hex :: "string \<Rightarrow> string" where
  "normalize_hex s = to_ascii_lowercase (trim s)"

definition is_valid_sha256_hex :: "string \<Rightarrow> bool" where
  "is_valid_sha256_hex s = (let normalized = normalize_hex s
     in length normalized = 64 \<and> list_all ascii_hexdigit normalized)"

definition format_bytes :: "nat \<Rightarrow> string" where
  "format_bytes bytes =
     (let KIB = 1024; MIB = 1024 * KIB; GIB = 1024 * MIB; TIB = 1024 * GIB
      in if bytes \<ge> TIB \<and> bytes mod TIB = 0 then show_nat (bytes div TIB) @ '' TiB''
         else if bytes \<ge> GIB \<and> bytes mod GIB = 0 then show_nat (bytes div GIB) @ '' GiB''
         else if bytes \<ge> MIB \<and> bytes mod MIB = 0 then show_nat (bytes div MIB) @ '' MiB''
         else if bytes \<ge> KIB \<and> bytes mod KIB = 0 then show_nat (bytes div KIB) @ '' KiB''
         else show_nat bytes @ '' B'')"

definition div_zero_panic :: app_error where
  "div_zero_panic = Internal ''attempt to divide by zero''"

definition load_upload_row :: "string \<Rightarrow> string \<Rightarrow> ('z, upload_row option) svc" where
  "load_upload_row upload_id target_type =
     sqlx (select (\<lambda>t. List.find (\<lambda>r. cu_id r = upload_id \<and> cu_target_type r = target_type) (t_uploads t)))"

text \<open>The loop over the staging directory's entries.\<close>

fun count_chunks :: "(string \<times> path) list \<Rightarrow> 32 word \<Rightarrow> ('z, 32 word) app" where
  "count_chunks [] count =
     bind (map_err (internal_ctx ''Failed to read staging dir entry'') next_entry) (\<lambda>_. ret count)"
| "count_chunks ((name, p) # rest) count =
     bind (map_err (internal_ctx ''Failed to read staging dir entry'') next_entry) (\<lambda>_.
     count_chunks rest (if ends_with name ''.chunk'' then word_of_nat (sat_add32 (unat count) 1) else count))"

definition count_uploaded_chunks :: "app_config \<Rightarrow> string \<Rightarrow> ('z, 32 word) app" where
  "count_uploaded_chunks config upload_id =
     (let dir = staging_dir config upload_id
      in bind (exists_or_false dir) (\<lambda>found.
         if \<not> found then ret 0
         else bind (map_err (internal_ctx ''Failed to list staging dir'') (fs_read_dir dir)) (\<lambda>rd.
              count_chunks rd 0)))"

definition is_expired :: "string \<Rightarrow> ('z db_scheme, 'e, bool) act" where
  "is_expired expires_at = gets (\<lambda>w. case parse_datetime w expires_at of
      None \<Rightarrow> True | Some dt \<Rightarrow> clock w \<ge> dt)"

section \<open>Download tokens\<close>

definition sign_payload :: "ext \<Rightarrow> tools \<Rightarrow> string \<Rightarrow> string \<Rightarrow> app_error + string" where
  "sign_payload E T secret payload_b64 =
     (case hmac_sha256 T (as_bytes secret) (as_bytes payload_b64) of
        Inl e \<Rightarrow> Inl (Internal (''Failed to initialize HMAC signer: '' @ e))
      | Inr mac \<Rightarrow> Inr (hex_encode E mac))"

definition build_download_token ::
  "ext \<Rightarrow> tools \<Rightarrow> string \<Rightarrow> string \<Rightarrow> string \<Rightarrow> string \<Rightarrow> string \<Rightarrow> ('z, string \<times> string) svc"
where
  "build_download_token E T secret user_id target_id target_type path =
     bind (gets clock) (\<lambda>now.
     let expires_at = now + 60 * DOWNLOAD_TOKEN_TTL_MINUTES in
     bind new_uuid (\<lambda>nonce.
     let payload = \<lparr>p_v = DOWNLOAD_TOKEN_VERSION, p_uid = user_id, p_lib = target_id, p_path = path,
                    p_exp = expires_at, p_nonce = nonce, p_typ = target_type\<rparr> in
     bind (case payload_to_json T payload of
             Inl e \<Rightarrow> throw (Internal (''Failed to serialize token payload: '' @ e))
           | Inr j \<Rightarrow> ret j) (\<lambda>payload_json.
     let payload_b64 = url64_encode T payload_json in
     bind (lift (sign_payload E T secret payload_b64)) (\<lambda>sig.
     bind (gets (\<lambda>w. datetime_text w expires_at)) (\<lambda>text.
     ret (payload_b64 @ ''.'' @ sig, text))))))"

text \<open>\<open>token.splitn(2, '.')\<close>: the part before the first dot, and the rest if there is a dot.\<close>

fun split_dot :: "string \<Rightarrow> string \<times> string option" where
  "split_dot [] = ([], None)"
| "split_dot (c # cs) = (if c = CHR ''.'' then ([], Some cs)
     else (case split_dot cs of (a, b) \<Rightarrow> (c # a, b)))"

definition verify_download_token :: "tools \<Rightarrow> string \<Rightarrow> string \<Rightarrow> ('z, token_payload) svc" where
  "verify_download_token T secret token =
     (case split_dot token of (payload_b64, rest) \<Rightarrow>
      bind (ok_or (Validation ''Invalid download token.'') rest) (\<lambda>sig.
      bind (ok_or (Validation ''Invalid download token signature.'') (hex_decode T (normalize_hex sig))) (\<lambda>provided_sig.
      bind (case hmac_sha256 T (as_bytes secret) (as_bytes payload_b64) of
              Inl e \<Rightarrow> throw (Internal (''Failed to initialize HMAC verifier: '' @ e))
            | Inr mac \<Rightarrow> ret mac) (\<lambda>mac.
      bind (reject_if (mac \<noteq> provided_sig) (Validation ''Invalid download token signature.'')) (\<lambda>_.
      bind (ok_or (Validation ''Invalid download token payload.'') (url64_decode T payload_b64)) (\<lambda>payload_bytes.
      bind (ok_or (Validation ''Invalid download token payload.'') (payload_from_json T payload_bytes)) (\<lambda>raw.
      let payload = payload_of raw in
      bind (reject_if (p_v payload \<noteq> DOWNLOAD_TOKEN_VERSION) (Validation ''Unsupported download token version.'')) (\<lambda>_.
      bind (gets clock) (\<lambda>now.
      bind (reject_if (now \<ge> p_exp payload) (Validation ''Download token expired.'')) (\<lambda>_.
      ret payload))))))))))"

text \<open>\<open>Path::new(path).file_name()\<close>, or a fixed name.\<close>

definition filename_from_target_path :: "string \<Rightarrow> string" where
  "filename_from_target_path path =
     (case file_name (filter (\<lambda>c. c \<noteq> [] \<and> c \<noteq> ''.'') (split_on path_sep path)) of
        None \<Rightarrow> ''file.bin'' | Some n \<Rightarrow> n)"

section \<open>Upload sessions\<close>

definition init_upload :: "app_config \<Rightarrow> init_upload_params \<Rightarrow> ('z, init_upload_result) svc" where
  "init_upload config params =
     bind (reject_if (trim (ip_target_path params) = []) (Validation ''Target path must not be empty.'')) (\<lambda>_.
     bind (reject_if (ends_with (ip_target_path params) ''/'')
             (Validation ''Target path must include a filename, not a directory.'')) (\<lambda>_.
     bind (reject_if (ip_total_chunks params = 0) (Validation ''total_chunks must be greater than zero.'')) (\<lambda>_.
     bind (reject_if (ip_total_bytes params \<le> chunk_size_bytes config)
             (Validation ''File is small enough for single-request upload; use /api/v1/library/upload instead.'')) (\<lambda>_.
     bind (reject_if (ip_total_bytes params > max_upload_bytes config)
             (Validation (''File exceeds maximum allowed upload size of '' @
                          format_bytes (max_upload_bytes config) @ ''.''))) (\<lambda>_.
     bind (reject_if (case ip_checksum_sha256 params of None \<Rightarrow> False | Some checksum \<Rightarrow> \<not> is_valid_sha256_hex checksum)
             (Validation ''checksum_sha256 must be a 64-character SHA-256 hex string.'')) (\<lambda>_.
     bind (ok_or div_zero_panic (expected_total_chunks (ip_total_bytes params) (chunk_size_bytes config))) (\<lambda>expected_chunks.
     bind (reject_if (ip_total_chunks params \<noteq> expected_chunks)
             (Validation (''total_chunks mismatch: expected '' @ show_nat (unat expected_chunks) @ '', got '' @
                          show_nat (unat (ip_total_chunks params)) @ ''.''))) (\<lambda>_.
     bind new_uuid (\<lambda>upload_id.
     bind (gets (\<lambda>w. datetime_text w (clock w + 3600 * int (chunk_upload_expiry_hours config)))) (\<lambda>expires_at_str.
     let filename = filename_from_target_path (ip_target_path params) in
     bind (map_err (internal_ctx ''Failed to create staging directory'')
             (fs_create_dir_all (staging_dir config upload_id))) (\<lambda>_.
     bind (sqlx (exec (\<lambda>now t.
             if upload_id \<in> cu_id ` set (t_uploads t) then Inl (unique_failed ''chunked_uploads.id'')
             else if ip_user_id params \<notin> u_id ` set (t_users t) then Inl foreign_key_failed
             else Inr (1, t\<lparr>t_uploads := t_uploads t @
               [\<lparr>cu_id = upload_id, cu_user_id = ip_user_id params, cu_target_type = ip_target_type params,
                 cu_target_id = ip_target_id params, cu_target_path = ip_target_path params,
                 cu_filename = filename, cu_total_chunks = int (unat (ip_total_chunks params)),
                 cu_received_chunks = 0, cu_total_bytes = as_i64 (ip_total_bytes params),
                 cu_checksum = map_option normalize_hex (ip_checksum_sha256 params),
                 cu_expires_at = expires_at_str, cu_created_at = now\<rparr>]\<rparr>)))) (\<lambda>_.
     ret \<lparr>iu_upload_id = upload_id, iu_chunk_size_bytes = chunk_size_bytes config,
         iu_total_chunks = ip_total_chunks params, iu_total_bytes = ip_total_bytes params,
         iu_expires_at = expires_at_str\<rparr>))))))))))))"

text \<open>\<open>DELETE FROM chunked_uploads WHERE id = ?\<close>\<close>

definition delete_upload_row :: "string \<Rightarrow> ('z, nat) stmt" where
  "delete_upload_row upload_id = exec (\<lambda>now t. Inr (count_where (\<lambda>r. cu_id r = upload_id) (t_uploads t),
     t\<lparr>t_uploads := filter (\<lambda>r. cu_id r \<noteq> upload_id) (t_uploads t)\<rparr>))"

text \<open>The checks shared by the three handlers of a session.\<close>

definition load_own_row :: "tools \<Rightarrow> string \<Rightarrow> string \<Rightarrow> string \<Rightarrow> string \<Rightarrow> ('z, upload_row) svc" where
  "load_own_row T user_id target_id target_type upload_id =
     bind (lift (validate_upload_id T upload_id)) (\<lambda>_.
     bind (load_upload_row upload_id target_type) (\<lambda>found.
     bind (ok_or NotFound found) (\<lambda>row.
     bind (reject_if (cu_user_id row \<noteq> user_id \<or> cu_target_id row \<noteq> target_id) NotFound) (\<lambda>_.
     ret row))))"

definition receive_chunk ::
  "tools \<Rightarrow> app_config \<Rightarrow> string \<Rightarrow> string \<Rightarrow> string \<Rightarrow> string \<Rightarrow> 32 word \<Rightarrow> byte list
    \<Rightarrow> ('z, receive_chunk_result) svc"
where
  "receive_chunk T config user_id target_id target_type upload_id chunk_index data =
     bind (load_own_row T user_id target_id target_type upload_id) (\<lambda>row.
     bind (is_expired (cu_expires_at row)) (\<lambda>expired.
     bind (reject_if expired (Validation ''Upload session has expired.'')) (\<lambda>_.
     let total_chunks = (word_of_int (cu_total_chunks row) :: 32 word) in
     bind (reject_if (chunk_index \<ge> total_chunks) (Validation ''chunk_index out of range.'')) (\<lambda>_.
     let expected_len = expected_chunk_len (as_u64 (cu_total_bytes row)) (chunk_size_bytes config) total_chunks chunk_index in
     bind (reject_if (length data \<noteq> expected_len)
             (Validation (''Chunk size mismatch for index '' @ show_nat (unat chunk_index) @ '': expected '' @
                show_nat expected_len @ '' bytes, got '' @ show_nat (length data) @ '' bytes.''))) (\<lambda>_.
     bind (map_err (internal_ctx ''Failed to ensure staging directory'')
             (fs_create_dir_all (staging_dir config upload_id))) (\<lambda>_.
     let path = chunk_path config upload_id chunk_index in
     bind (map_err (\<lambda>e. if e = IoAlreadyExists then Conflict ''Chunk already uploaded.''
                         else internal_ctx ''Failed to create chunk file'' e) (fs_create_new path)) (\<lambda>file.
     bind (map_err (internal_ctx ''Failed to write chunk'') (fs_write_all file data)) (\<lambda>_.
     bind (map_err (internal_ctx ''Failed to flush chunk'') (fs_flush file)) (\<lambda>_.
     bind (map_err (internal_ctx ''Failed to sync chunk to disk'') (fs_sync_data file)) (\<lambda>_.
     bind (count_uploaded_chunks config upload_id) (\<lambda>received_chunks.
     bind (sqlx (exec (\<lambda>now t. Inr (count_where (\<lambda>r. cu_id r = upload_id) (t_uploads t),
             t\<lparr>t_uploads := update_where (\<lambda>r. cu_id r = upload_id)
               (\<lambda>r. r\<lparr>cu_received_chunks := int (unat received_chunks)\<rparr>) (t_uploads t)\<rparr>)))) (\<lambda>_.
     ret \<lparr>rc_upload_id = upload_id, rc_chunk_index = chunk_index, rc_received_chunks = received_chunks,
         rc_total_chunks = total_chunks\<rparr>))))))))))))"

text \<open>Every chunk file must be present; \<open>idx\<close> counts up from the first.\<close>

fun require_chunks :: "nat \<Rightarrow> path list \<Rightarrow> ('z, unit) app" where
  "require_chunks idx [] = ret ()"
| "require_chunks idx (p # ps) =
     bind (exists_or_false p) (\<lambda>found.
     bind (reject_if (\<not> found) (Validation (''Missing chunk '' @ show_nat idx @ ''.''))) (\<lambda>_.
     require_chunks (Suc idx) ps))"

definition complete_upload ::
  "crypto \<Rightarrow> ext \<Rightarrow> tools \<Rightarrow> app_config \<Rightarrow> unlock_state \<Rightarrow> string \<Rightarrow> string \<Rightarrow> string \<Rightarrow> string \<Rightarrow> bool
    \<Rightarrow> ('z, upload_result) svc"
where
  "complete_upload C E T config unlock_state user_id target_id target_type upload_id write_verify =
     bind (load_own_row T user_id target_id target_type upload_id) (\<lambda>row.
     bind (is_expired (cu_expires_at row)) (\<lambda>expired.
     bind (reject_if expired (Validation ''Upload session has expired.'')) (\<lambda>_.
     let total_chunks = (word_of_int (cu_total_chunks row) :: 32 word);
         total_bytes = as_u64 (cu_total_bytes row);
         chunk_paths = map (\<lambda>idx. chunk_path config upload_id (word_of_nat idx)) [0..<unat total_chunks] in
     bind (require_chunks 0 chunk_paths) (\<lambda>_.
     bind (if target_type = ''space'' then
             upload_space_file_streaming C E config unlock_state target_id (cu_target_path row) chunk_paths
               total_bytes write_verify
           else
             upload_file_streaming C E config unlock_state target_id (cu_target_path row) chunk_paths
               total_bytes write_verify) (\<lambda>upload.
     bind (ignore (fs_remove_dir_all (staging_dir config upload_id))) (\<lambda>_.
     bind (ignore (delete_upload_row upload_id)) (\<lambda>_.
     ret upload)))))))"

definition cancel_upload :: "tools \<Rightarrow> app_config \<Rightarrow> string \<Rightarrow> string \<Rightarrow> string \<Rightarrow> string \<Rightarrow> ('z, unit) svc" where
  "cancel_upload T config user_id target_id target_type upload_id =
     bind (load_own_row T user_id target_id target_type upload_id) (\<lambda>row.
     bind (ignore (fs_remove_dir_all (staging_dir config upload_id))) (\<lambda>_.
     bind (sqlx (delete_upload_row upload_id)) (\<lambda>_.
     ret ())))"

section \<open>Ranged downloads\<close>

definition init_download ::
  "crypto \<Rightarrow> ext \<Rightarrow> tools \<Rightarrow> app_config \<Rightarrow> unlock_state \<Rightarrow> string \<Rightarrow> string \<Rightarrow> string \<Rightarrow> string
    \<Rightarrow> ('z, init_download_result) svc"
where
  "init_download C E T config unlock_state user_id target_id target_type path =
     bind (if target_type = ''space'' then download_space_file C E config unlock_state target_id path
           else download_file C E config unlock_state target_id path) (\<lambda>download.
     let total_bytes = length (dl_data download) in
     bind (ok_or div_zero_panic (expected_total_chunks (max total_bytes 1) (chunk_size_bytes config))) (\<lambda>total_chunks.
     bind (build_download_token E T (secret_key config) user_id target_id target_type path) (\<lambda>(token, expires_at).
     ret \<lparr>id_token = token, id_filename = dl_filename download, id_mime_type = dl_mime_type download,
         id_chunk_size_bytes = chunk_size_bytes config, id_total_chunks = total_chunks,
         id_total_bytes = total_bytes, id_expires_at = expires_at\<rparr>)))"

definition serve_chunk ::
  "crypto \<Rightarrow> ext \<Rightarrow> tools \<Rightarrow> app_config \<Rightarrow> unlock_state \<Rightarrow> string \<Rightarrow> string \<Rightarrow> 32 word
    \<Rightarrow> ('z, chunk_download_result) svc"
where
  "serve_chunk C E T config unlock_state user_id token chunk_index =
     bind (verify_download_token T (secret_key config) token) (\<lambda>payload.
     bind (reject_if (p_uid payload \<noteq> user_id) Forbidden) (\<lambda>_.
     bind (if p_typ payload = ''space'' then download_space_file C E config unlock_state (p_lib payload) (p_path payload)
           else download_file C E config unlock_state (p_lib payload) (p_path payload)) (\<lambda>download.
     let data = dl_data download; total_bytes = length data in
     bind (ok_or div_zero_panic (expected_total_chunks (max total_bytes 1) (chunk_size_bytes config))) (\<lambda>total_chunks.
     bind (reject_if (chunk_index \<ge> total_chunks) (Validation ''chunk_index out of range.'')) (\<lambda>_.
     let start = sat_mul64 (unat chunk_index) (chunk_size_bytes config);
         end_pos = min (start + chunk_size_bytes config) (length data);
         chunk = (if start \<ge> length data then [] else take (end_pos - start) (drop start data)) in
     ret \<lparr>cd_data = chunk, cd_mime_type = dl_mime_type download,
         cd_checksum_sha256 = dl_checksum_sha256 download, cd_chunk_index = chunk_index,
         cd_total_chunks = total_chunks, cd_total_bytes = total_bytes\<rparr>)))))"

section \<open>Clean-up\<close>

fun cleanup_loop :: "app_config \<Rightarrow> string list \<Rightarrow> nat \<Rightarrow> ('z, nat) svc" where
  "cleanup_loop config [] cleaned = ret cleaned"
| "cleanup_loop config (upload_id # rest) cleaned =
     (let dir = staging_dir config upload_id
      in bind (exists_or_false dir) (\<lambda>found.
         bind (if found then ignore (fs_remove_dir_all dir) else ret ()) (\<lambda>_.
         bind (ignore (delete_upload_row upload_id)) (\<lambda>_.
         cleanup_loop config rest (cleaned + 1)))))"

definition cleanup_expired_uploads :: "app_config \<Rightarrow> ('z, nat) svc" where
  "cleanup_expired_uploads config =
     bind (gets (\<lambda>w. datetime_text w (clock w))) (\<lambda>now.
     bind (sqlx (select (\<lambda>t. map cu_id (filter (\<lambda>r. cu_expires_at r < now) (t_uploads t))))) (\<lambda>rows.
     cleanup_loop config rows 0))"

end
