(* ===== verification/ChunkFacts.thy ===== *)
theory ChunkFacts
  imports ChunkService
begin

text \<open>
  What chunked transfers guarantee: the announced chunk lengths partition the file; a download
  token carries exactly what was signed, for ten minutes, for one user; the served chunks put
  together are the file; and a completed upload session stores the chunks, in order, whatever
  else happens on the server meanwhile.
\<close>

section \<open>Chunk arithmetic\<close>

lemma ceil_bounds:
  assumes "0 < cs" "0 < (sz :: nat)" "n = (sz + cs - 1) div cs"
  shows "(n - 1) * cs < sz" "sz \<le> n * cs" "0 < n"
proof -
  have n: "n * cs \<le> sz + cs - 1" "sz + cs - 1 < n * cs + cs"
    using assms(1,3) div_times_less_eq_dividend [of "sz + cs - 1" cs]
      dividend_less_div_times [of cs "sz + cs - 1"] by (simp_all add: add.commute mult.commute)
  show u: "sz \<le> n * cs" using n assms by linarith
  show p: "0 < n" using u assms by (cases n) auto
  show "(n - 1) * cs < sz" using n(1) p assms(1,2) by (cases n) simp_all
qed

lemma ceil_le:
  assumes "0 < cs" "sz \<le> m * cs"
  shows "(sz + cs - 1) div cs \<le> (m :: nat)"
proof -
  have "sz + cs - 1 < m * cs + cs" using assms by linarith
  then have "(sz + cs - 1) div cs < Suc m"
    using assms(1) by (subst div_less_iff_less_mult) (simp_all add: algebra_simps)
  then show ?thesis by simp
qed

lemma expected_total_value:
  assumes "0 < cs" "0 < sz" "sz \<le> u32_max * cs" "expected_total_chunks sz cs = Some n"
  shows "unat n = (sz + cs - 1) div cs"
proof -
  have "(sz + cs - 1) div cs \<le> u32_max" by (rule ceil_le) (use assms in auto)
  moreover have "n = word_of_nat ((sz + cs - 1) div cs)"
    using assms by (simp add: expected_total_chunks_def)
  ultimately show ?thesis by (simp add: u32_max_def unat_of_nat)
qed

lemma next_index_less:
  assumes "i < unat (n :: 32 word)"
  shows "(word_of_nat i :: 32 word) + 1 < n \<longleftrightarrow> Suc i < unat n"
proof -
  have b: "unat n < 2 ^ 32" using unsigned_less [of n, where ?'a = nat] by simp
  then have "unat ((word_of_nat i :: 32 word) + 1) = Suc i"
    using assms by (simp add: unat_word_ariths unat_of_nat)
  then show ?thesis by (simp add: word_less_nat_alt)
qed

lemma chunk_len_value:
  assumes "0 < cs" "0 < sz" "sz < 2 ^ 64" "unat n = (sz + cs - 1) div cs" "i < unat n"
  shows "expected_chunk_len sz cs n (word_of_nat i) = min cs (sz - i * cs)"
proof -
  note b = ceil_bounds [OF assms(1,2,4)]
  show ?thesis
  proof (cases "Suc i < unat n")
    case True
    then have "Suc i * cs \<le> (unat n - 1) * cs" by (intro mult_le_mono1) simp
    then have "cs \<le> sz - i * cs" using b(1) by simp
    then show ?thesis using True next_index_less [OF assms(5)] by (simp add: expected_chunk_len_def)
  next
    case False
    then have i: "i = unat n - 1" using assms(5) by simp
    have "sat_mul64 cs (unat n - 1) = i * cs"
      using b(1) assms(3) i by (simp add: sat_mul64_def u64_max_def mult.commute)
    moreover have "sz - i * cs \<le> cs" using b(2,3) i by (cases "unat n") (auto simp: algebra_simps)
    ultimately show ?thesis
      using False next_index_less [OF assms(5)] i by (simp add: expected_chunk_len_def)
  qed
qed

lemma sum_chunk_lens:
  assumes "0 < (cs :: nat)"
  shows "(\<Sum>i<m. min cs (sz - i * cs)) = min sz (m * cs)"
  by (induction m) (auto simp: min_def algebra_simps)

text \<open>
  The chunk lengths the server demands partition the file: for every size and chunk size
  for which the chunk count fits its 32 bits, the demanded lengths are positive, at most a chunk,
  and add up to the file's size.
\<close>

theorem chunk_lengths_partition:
  assumes "0 < cs" "0 < sz" "sz < 2 ^ 64" "sz \<le> u32_max * cs"
    and n: "expected_total_chunks sz cs = Some n"
  shows "(\<Sum>i<unat n. expected_chunk_len sz cs n (word_of_nat i)) = sz \<and>
    (\<forall>i<unat n. 0 < expected_chunk_len sz cs n (word_of_nat i) \<and>
       expected_chunk_len sz cs n (word_of_nat i) \<le> cs)"
proof -
  have u: "unat n = (sz + cs - 1) div cs" using expected_total_value [OF assms(1,2,4) n] .
  note len = chunk_len_value [OF assms(1-3) u]
  have "(\<Sum>i<unat n. expected_chunk_len sz cs n (word_of_nat i)) = (\<Sum>i<unat n. min cs (sz - i * cs))"
    by (rule sum.cong) (auto simp: len)
  also have "\<dots> = sz" using sum_chunk_lens [OF assms(1)] ceil_bounds [OF assms(1,2) u] by simp
  finally have "(\<Sum>i<unat n. expected_chunk_len sz cs n (word_of_nat i)) = sz" .
  moreover have "0 < expected_chunk_len sz cs n (word_of_nat i) \<and>
      expected_chunk_len sz cs n (word_of_nat i) \<le> cs" if "i < unat n" for i
  proof -
    have "i * cs \<le> (unat n - 1) * cs" using that by (intro mult_le_mono1) simp
    then have "i * cs < sz" using ceil_bounds(1) [OF assms(1,2) u] by (rule order_le_less_trans)
    then show ?thesis using len [OF that] assms(1) by simp
  qed
  ultimately show ?thesis by blast
qed

theorem chunk_lengths_partition_witness:
  "(\<Sum>i<3. expected_chunk_len 20 8 3 (word_of_nat i)) = 20"
  using chunk_lengths_partition [of 8 20 3] by (simp add: expected_total_chunks_def u32_max_def)

section \<open>Slices\<close>

lemma concat_slices: "concat (map (\<lambda>i. take cs (drop (i * cs) d)) [0..<n]) = take (n * cs) d"
  by (induction n) (simp_all add: take_add [symmetric] add.commute)

section \<open>Download tokens\<close>

definition raw_of :: "token_payload \<Rightarrow> raw_payload" where
  "raw_of p = \<lparr>rp_v = p_v p, rp_uid = p_uid p, rp_lib = p_lib p, rp_path = p_path p, rp_exp = p_exp p,
     rp_nonce = p_nonce p, rp_typ = Some (p_typ p)\<rparr>"

definition tools_ok :: "ext \<Rightarrow> tools \<Rightarrow> bool" where
  "tools_ok E T =
     ((\<forall>b. url64_decode T (url64_encode T b) = Some b \<and> CHR ''.'' \<notin> set (url64_encode T b)) \<and>
      (\<forall>b. hex_decode T (hex_encode E b) = Some b \<and> normalize_hex (hex_encode E b) = hex_encode E b) \<and>
      (\<forall>p j. payload_to_json T p = Inr j \<longrightarrow> payload_from_json T j = Some (raw_of p)))"

lemma payload_of_raw [simp]: "payload_of (raw_of p) = p"
  by (simp add: payload_of_def raw_of_def)

lemma split_dot_append: "CHR ''.'' \<notin> set a \<Longrightarrow> split_dot (a @ CHR ''.'' # b) = (a, Some b)"
  by (induction a) auto

lemma split_dot_Some: "split_dot t = (a, Some b) \<Longrightarrow> t = a @ CHR ''.'' # b"
  by (induction t arbitrary: a) (auto split: if_splits prod.splits)

lemma build_token_Inr:
  assumes run: "build_download_token E T sk uid tid ty p w = (Inr (token, text), w')"
  obtains payload b64 sig where "token = b64 @ ''.'' @ sig"
    "p_v payload = DOWNLOAD_TOKEN_VERSION" "p_uid payload = uid" "p_lib payload = tid" "p_path payload = p"
    "p_exp payload = clock w + 600" "p_typ payload = ty"
    "\<exists>j. payload_to_json T payload = Inr j \<and> b64 = url64_encode T j"
    "\<exists>mac. hmac_sha256 T (as_bytes sk) (as_bytes b64) = Inr mac \<and> sig = hex_encode E mac"
proof -
  let ?p = "\<lparr>p_v = DOWNLOAD_TOKEN_VERSION, p_uid = uid, p_lib = tid, p_path = p,
      p_exp = clock w + 600, p_nonce = uuids w (uuid_pos w), p_typ = ty\<rparr>"
  note run' = run [unfolded build_download_token_def DOWNLOAD_TOKEN_TTL_MINUTES_def Let_def]
  obtain j where j: "payload_to_json T ?p = Inr j"
    using run' by (cases "payload_to_json T ?p") (auto simp: bind_Inr_iff new_uuid_def)
  obtain b64 sig where b64: "b64 = url64_encode T j" and sig: "sign_payload E T sk b64 = Inr sig"
    and t: "token = b64 @ ''.'' @ sig"
    using run' j by (auto simp: bind_Inr_iff new_uuid_def)
  have "\<exists>mac. hmac_sha256 T (as_bytes sk) (as_bytes b64) = Inr mac \<and> sig = hex_encode E mac"
    using sig by (auto simp: sign_payload_def split: sum.splits)
  then show ?thesis by (intro that [OF t, of ?p]) (use j b64 in simp_all)
qed

lemma verify_built_token:
  assumes ok: "tools_ok E T" and run: "build_download_token E T sk uid tid ty p w = (Inr (token, text), w')"
  shows "\<exists>payload. p_uid payload = uid \<and> p_lib payload = tid \<and> p_path payload = p \<and> p_typ payload = ty \<and>
    verify_download_token T sk token v =
      (if clock v < clock w + 600 then Inr payload else Inl (Validation ''Download token expired.''), v)"
proof -
  obtain payload b64 sig j mac where t: "token = b64 @ ''.'' @ sig"
    and pl: "p_v payload = DOWNLOAD_TOKEN_VERSION" "p_uid payload = uid" "p_lib payload = tid"
      "p_path payload = p" "p_exp payload = clock w + 600" "p_typ payload = ty"
    and j: "payload_to_json T payload = Inr j" "b64 = url64_encode T j"
    and m: "hmac_sha256 T (as_bytes sk) (as_bytes b64) = Inr mac" "sig = hex_encode E mac"
    using build_token_Inr [OF run] by metis
  have s: "split_dot token = (b64, Some sig)"
    using t j(2) ok split_dot_append [of b64 sig] by (simp add: tools_ok_def)
  have "verify_download_token T sk token v =
      (if clock v < clock w + 600 then Inr payload else Inl (Validation ''Download token expired.''), v)"
    unfolding verify_download_token_def s prod.case
    using ok m j pl by (simp add: tools_ok_def Let_def)
  then show ?thesis using pl by blast
qed

lemma verify_token_Inr:
  assumes "verify_download_token T sk token v = (Inr payload, v')"
  shows "\<exists>b64 sig mac raw. token = b64 @ ''.'' @ sig \<and> hmac_sha256 T (as_bytes sk) (as_bytes b64) = Inr mac \<and>
    hex_decode T (normalize_hex sig) = Some mac \<and>
    Option.bind (url64_decode T b64) (payload_from_json T) = Some raw \<and> payload = payload_of raw \<and>
    clock v < p_exp payload \<and> v' = v"
proof -
  obtain b64 rest where s: "split_dot token = (b64, rest)" by fastforce
  note run = assms [unfolded verify_download_token_def s prod.case Let_def]
  obtain sig where sig: "rest = Some sig" using run by (cases rest) auto
  obtain mac where mac: "hex_decode T (normalize_hex sig) = Some mac"
    using run sig by (cases "hex_decode T (normalize_hex sig)") auto
  have m: "hmac_sha256 T (as_bytes sk) (as_bytes b64) = Inr mac"
    using run sig mac by (cases "hmac_sha256 T (as_bytes sk) (as_bytes b64)") (auto split: if_splits)
  obtain raw where "Option.bind (url64_decode T b64) (payload_from_json T) = Some raw"
    "payload = payload_of raw" "clock v < p_exp payload" "v' = v"
    using run sig mac m by (auto split: option.splits if_splits)
  moreover have "token = b64 @ ''.'' @ sig" using split_dot_Some s sig by simp
  ultimately show ?thesis using mac m by metis
qed

text \<open>
  C17. Download tokens. A token that was built is accepted with exactly the user, target and path
  it was built for until ten minutes have passed, and then rejected as expired; and any token
  accepted at any time carries, before its dot, the payload returned, and after it the MAC of
  that text under the server's secret.
\<close>

theorem download_token_bound:
  assumes ok: "tools_ok E T" and run: "build_download_token E T sk uid tid ty p w = (Inr (token, text), w')"
  shows "(\<exists>payload. p_uid payload = uid \<and> p_lib payload = tid \<and> p_path payload = p \<and> p_typ payload = ty \<and>
      fst (verify_download_token T sk token v) =
        (if clock v < clock w + 600 then Inr payload else Inl (Validation ''Download token expired.''))) \<and>
    (\<forall>token' payload'. fst (verify_download_token T sk token' v) = Inr payload' \<longrightarrow>
      (\<exists>b64 sig mac raw. token' = b64 @ ''.'' @ sig \<and> hmac_sha256 T (as_bytes sk) (as_bytes b64) = Inr mac \<and>
        hex_decode T (normalize_hex sig) = Some mac \<and>
        Option.bind (url64_decode T b64) (payload_from_json T) = Some raw \<and> payload' = payload_of raw))"
proof (intro conjI allI impI)
  show "\<exists>payload. p_uid payload = uid \<and> p_lib payload = tid \<and> p_path payload = p \<and> p_typ payload = ty \<and>
      fst (verify_download_token T sk token v) =
        (if clock v < clock w + 600 then Inr payload else Inl (Validation ''Download token expired.''))"
    using verify_built_token [OF ok run, of v] by auto
next
  fix token' payload' assume "fst (verify_download_token T sk token' v) = Inr payload'"
  then have "verify_download_token T sk token' v = (Inr payload', snd (verify_download_token T sk token' v))"
    by (metis prod.collapse)
  from verify_token_Inr [OF this]
  show "\<exists>b64 sig mac raw. token' = b64 @ ''.'' @ sig \<and> hmac_sha256 T (as_bytes sk) (as_bytes b64) = Inr mac \<and>
        hex_decode T (normalize_hex sig) = Some mac \<and>
        Option.bind (url64_decode T b64) (payload_from_json T) = Some raw \<and> payload' = payload_of raw"
    by blast
qed

section \<open>Ranged downloads\<close>

definition download_any ::
  "crypto \<Rightarrow> ext \<Rightarrow> app_config \<Rightarrow> unlock_state \<Rightarrow> string \<Rightarrow> string \<Rightarrow> string \<Rightarrow> ('z, download_result) app"
where
  "download_any C E c u ty tid p =
     (if ty = ''space'' then download_space_file C E c u tid p else download_file C E c u tid p)"

lemma readonly_download_any: "keeps readonly (download_any C E c u ty tid p)"
  unfolding download_any_def download_file_def download_space_file_def require_data_key_def require_space_key_def Let_def
  by (intro readonly.keeps_rules readonly_calls readonly_safe_join_async readonly_decrypted)

lemma download_from_again:
  assumes wf: "wf_tree (tree w)" and calm: "calm w" and run: "download_from C E root k p w = (Inr dl, w')"
    and v: "tree v = tree w" "calm v"
  shows "fst (download_from C E root k p v) = Inr dl"
proof -
  obtain target w1 blob where j: "safe_join root p w = (Inr target, w1)"
    and f: "lookup (tree w) target = Some (Reg blob)" "read_bytes C k blob = Inr (dl_data dl)"
    using download_from_Inr [OF wf calm run] by metis
  have "canon (tree v) target" using f(1) v(1) by (simp add: canon_def)
  then obtain v1 where "safe_join root p v = (Inr target, v1)"
    using safe_join_again [OF j wf, of v] v wf by (auto simp: grows_def)
  then show ?thesis
    using download_from_bytes [OF j wf calm f, of E] download_from_bytes [of root p v target v1 blob C k _ E]
      f v wf run by simp
qed

lemma download_any_again:
  assumes "wf_tree (tree w)" "calm w" "download_any C E c u ty tid p w = (Inr dl, w')" "tree v = tree w" "calm v"
  shows "fst (download_any C E c u ty tid p v) = Inr dl"
  using assms download_from_again
  by (auto simp: download_any_def download_file_eq download_space_file_eq split: if_splits option.splits)

lemma serve_chunk_value:
  assumes ok: "tools_ok E T"
    and b: "build_download_token E T (secret_key c) uid tid ty p w = (Inr (token, text), w')"
    and dl: "fst (download_any C E c u ty tid p v) = Inr dl" and time: "clock v < clock w + 600"
    and n: "expected_total_chunks (max (length (dl_data dl)) 1) (chunk_size_bytes c) = Some n"
    and i: "i < n" and fit: "unat i * chunk_size_bytes c \<le> u64_max"
  shows "fst (serve_chunk C E T c u uid token i v) = Inr
    \<lparr>cd_data = take (chunk_size_bytes c) (drop (unat i * chunk_size_bytes c) (dl_data dl)),
     cd_mime_type = dl_mime_type dl, cd_checksum_sha256 = dl_checksum_sha256 dl, cd_chunk_index = i,
     cd_total_chunks = n, cd_total_bytes = length (dl_data dl)\<rparr>"
proof -
  obtain payload where pl: "p_uid payload = uid" "p_lib payload = tid" "p_path payload = p" "p_typ payload = ty"
    and v: "verify_download_token T (secret_key c) token v = (Inr payload, v)"
    using verify_built_token [OF ok b, of v] time by auto
  obtain v1 where dl': "download_any C E c u ty tid p v = (Inr dl, v1)" using dl by (metis prod.collapse)
  have cut: "(if length d \<le> s then [] else take (min (s + k) (length d) - s) (drop s d)) = take k (drop s d)"
    for d :: "byte list" and s k
    by (auto simp: min_def)
  show ?thesis
    unfolding serve_chunk_def bind_InrI [of "verify_download_token T (secret_key c) token", OF v] pl
      download_any_def [symmetric]
    using i fit cut
    by (simp add: n bind_InrI [of "download_any C E c u ty tid p", OF dl'] Let_def sat_mul64_def min_absorb2 not_le
        del: One_nat_def)
qed

lemma served_slices:
  assumes ok: "tools_ok E T" and wf: "wf_tree (tree w)" and calm: "calm w"
    and d: "download_any C E c u ty tid p w = (Inr dl, w1)"
    and n: "expected_total_chunks (max (length (dl_data dl)) 1) (chunk_size_bytes c) = Some n"
    and b: "build_download_token E T (secret_key c) uid tid ty p w1 = (Inr (token, stamp), w')"
    and fit: "length (dl_data dl) < 2 ^ 64" "length (dl_data dl) \<le> u32_max * chunk_size_bytes c"
    and later: "tree v = tree w" "calm v" "clock v < clock w1 + 600"
  shows "length (dl_data dl) \<le> unat n * chunk_size_bytes c"
    "i < unat n \<Longrightarrow> fst (serve_chunk C E T c u uid token (word_of_nat i) v) = Inr
      \<lparr>cd_data = take (chunk_size_bytes c) (drop (i * chunk_size_bytes c) (dl_data dl)), cd_mime_type = dl_mime_type dl,
       cd_checksum_sha256 = dl_checksum_sha256 dl, cd_chunk_index = word_of_nat i,
       cd_total_chunks = n, cd_total_bytes = length (dl_data dl)\<rparr>"
proof -
  let ?cs = "chunk_size_bytes c"
  have cs: "0 < ?cs" using n by (auto simp: expected_total_chunks_def split: if_splits)
  have big: "max (length (dl_data dl)) 1 \<le> u32_max * ?cs" using fit cs by (auto simp: u32_max_def)
  have u: "unat n = (max (length (dl_data dl)) 1 + ?cs - 1) div ?cs" using expected_total_value [OF cs _ big n] by simp
  note bounds = ceil_bounds [OF cs _ u]
  show "length (dl_data dl) \<le> unat n * ?cs" using bounds(2) by simp
  assume i: "i < unat n"
  then have un: "unat (word_of_nat i :: 32 word) = i"
    using unsigned_less [of n, where ?'a = nat] by (simp add: unat_of_nat)
  have "i * ?cs \<le> (unat n - 1) * ?cs" using i by (intro mult_le_mono1) simp
  also have "\<dots> < max (length (dl_data dl)) 1" using bounds by simp
  finally have le: "i * ?cs \<le> u64_max" using fit(1) by (simp add: u64_max_def)
  show "fst (serve_chunk C E T c u uid token (word_of_nat i) v) = Inr
      \<lparr>cd_data = take ?cs (drop (i * ?cs) (dl_data dl)), cd_mime_type = dl_mime_type dl,
       cd_checksum_sha256 = dl_checksum_sha256 dl, cd_chunk_index = word_of_nat i,
       cd_total_chunks = n, cd_total_bytes = length (dl_data dl)\<rparr>"
    using serve_chunk_value [OF ok b download_any_again [OF wf calm d later(1,2)] later(3) n, of "word_of_nat i"] i le un
    by (simp add: word_less_nat_alt)
qed

lemma foreign_chunk_refused:
  assumes ok: "tools_ok E T" and b: "build_download_token E T (secret_key c) uid tid ty p w = (Inr (token, stamp), w')"
    and other: "uid' \<noteq> uid" and time: "clock v < clock w + 600"
  shows "fst (serve_chunk C E T c u uid' token k v) = Inl Forbidden"
proof -
  obtain payload where "p_uid payload = uid" and "verify_download_token T (secret_key c) token v = (Inr payload, v)"
    using verify_built_token [OF ok b, of v] time by auto
  then show ?thesis using other by (simp add: serve_chunk_def bind_InrI [of "verify_download_token T (secret_key c) token"])
qed

text \<open>
  C18. Ranged downloads reassemble the file. When \<open>init_download\<close> answers, the chunks that
  \<open>serve_chunk\<close> hands out for its token to the same user within ten minutes, in any order and at
  any times, are the consecutive pieces of what a plain download returns: put together in index
  order they are the file. Another user is refused.
\<close>

theorem ranged_download:
  assumes ok: "tools_ok E T" and wf: "wf_tree (tree w)" and calm: "calm w"
    and run: "init_download C E T c u uid tid ty p w = (Inr res, w')"
    and fit: "id_total_bytes res < 2 ^ 64" "id_total_bytes res \<le> u32_max * chunk_size_bytes c"
    and later: "\<And>i. tree (v i) = tree w" "\<And>i. calm (v i)" "\<And>i. clock (v i) < clock w' + 600"
  shows "\<exists>dl. fst (download_any C E c u ty tid p w) = Inr dl \<and>
    concat (map (\<lambda>i. cd_data (projr (fst (serve_chunk C E T c u uid (id_token res) (word_of_nat i) (v i)))))
      [0..<unat (id_total_chunks res)]) = dl_data dl \<and>
    (\<forall>i < unat (id_total_chunks res).
      \<not> isl (fst (serve_chunk C E T c u uid (id_token res) (word_of_nat i) (v i)))) \<and>
    (\<forall>uid' i k. uid' \<noteq> uid \<longrightarrow> fst (serve_chunk C E T c u uid' (id_token res) k (v i)) = Inl Forbidden)"
proof -
  let ?cs = "chunk_size_bytes c"
  obtain dl w1 n stamp where d: "download_any C E c u ty tid p w = (Inr dl, w1)"
    and n: "expected_total_chunks (max (length (dl_data dl)) 1) ?cs = Some n"
    and b: "build_download_token E T (secret_key c) uid tid ty p w1 = (Inr (id_token res, stamp), w')"
    and res: "id_total_chunks res = n" "id_total_bytes res = length (dl_data dl)"
    using run unfolding init_download_def download_any_def Let_def
    by (elim bind_InrE) (auto split: option.splits elim!: bind_InrE)
  have clk: "clock w1 = clock w'"
    using b unfolding build_download_token_def Let_def
    by (auto simp: bind_Inr_iff new_uuid_def split: sum.splits)
  note parts = served_slices [OF ok wf calm d n b fit [unfolded res(2)] later(1,2)]
  have serve: "fst (serve_chunk C E T c u uid (id_token res) (word_of_nat i) (v i)) = Inr
    \<lparr>cd_data = take ?cs (drop (i * ?cs) (dl_data dl)), cd_mime_type = dl_mime_type dl,
     cd_checksum_sha256 = dl_checksum_sha256 dl, cd_chunk_index = word_of_nat i,
     cd_total_chunks = n, cd_total_bytes = length (dl_data dl)\<rparr>" if "i < unat n" for i
    using parts(2) that later(3) clk by simp
  have "concat (map (\<lambda>i. cd_data (projr (fst (serve_chunk C E T c u uid (id_token res) (word_of_nat i) (v i)))))
      [0..<unat n]) = concat (map (\<lambda>i. take ?cs (drop (i * ?cs) (dl_data dl))) [0..<unat n])"
    by (rule arg_cong [of _ _ concat]) (auto simp: serve)
  also have "\<dots> = dl_data dl" using concat_slices [of ?cs "dl_data dl" "unat n"] parts(1) [of 0] later(3) clk by simp
  finally have whole: "concat (map (\<lambda>i. cd_data (projr (fst (serve_chunk C E T c u uid (id_token res)
      (word_of_nat i) (v i))))) [0..<unat n]) = dl_data dl" .
  have "fst (serve_chunk C E T c u uid' (id_token res) k (v i)) = Inl Forbidden" if "uid' \<noteq> uid" for uid' i k
    by (rule foreign_chunk_refused [OF ok b that]) (use later(3) clk in simp)
  then show ?thesis using d res serve whole by auto
qed

section \<open>Instances\<close>

definition letter :: "char \<Rightarrow> bool" where
  "letter c = (97 \<le> char_code c \<and> char_code c \<le> 122)"

lemma match_any_none: "\<forall>p \<in> set ps. p \<noteq> [] \<and> \<not> letter (hd p) \<Longrightarrow> s = [] \<or> letter (hd s) \<Longrightarrow> match_any ps s = 0"
proof (induction ps)
  case (Cons p ps)
  then have "\<not> is_prefix p s" by (cases p; cases s) auto
  then show ?case using Cons by simp
qed simp

lemma ws_not_letters:
  "\<forall>p \<in> set ws_encodings. p \<noteq> [] \<and> \<not> letter (hd p)"
  "\<forall>p \<in> set (map rev ws_encodings). p \<noteq> [] \<and> \<not> letter (hd p)"
  by code_simp+

lemma strip_front_none: "match_any ps s = 0 \<Longrightarrow> strip_front ps n s = s"
  by (cases n) auto

lemma normalize_letters:
  assumes "\<forall>c \<in> set s. letter c"
  shows "normalize_hex s = s"
proof -
  have "match_any ws_encodings s = 0"
    by (rule match_any_none [OF ws_not_letters(1)]) (use assms in \<open>cases s; simp\<close>)
  moreover have "match_any (map rev ws_encodings) (rev s) = 0"
    by (rule match_any_none [OF ws_not_letters(2)]) (use assms in \<open>cases s rule: rev_cases; simp\<close>)
  ultimately have "trim s = s" by (simp add: trim_def trim_start_def trim_end_def strip_front_none)
  moreover have "to_lower c = c" if "c \<in> set s" for c
    using assms that by (auto simp: to_lower_def ascii_upper_def letter_def)
  ultimately show ?thesis by (simp add: normalize_hex_def to_ascii_lowercase_def map_idI)
qed

fun toy_unhex :: "string \<Rightarrow> byte list option" where
  "toy_unhex [] = Some []"
| "toy_unhex [a] = None"
| "toy_unhex (a # b # cs) =
     map_option (\<lambda>bs. word_of_nat (16 * (char_code a - 97) + (char_code b - 97)) # bs) (toy_unhex cs)"

lemma char_code_of: "n < 256 \<Longrightarrow> char_code (char_of n) = n"
  by (simp add: char_code_def)

lemma nibbles: "unat (b :: byte) div 16 < 16" "unat b mod 16 < 16"
  using unsigned_less [of b, where ?'a = nat] by (simp_all add: div_less_iff_less_mult)

lemma toy_unhex_hex: "toy_unhex (toy_hex bs) = Some bs"
proof (induction bs)
  case (Cons b bs)
  have "unat b div 16 + 97 < 256" "unat b mod 16 + 97 < 256" using nibbles [of b] by linarith+
  then have "16 * (char_code (char_of (97 + unat b div 16)) - 97) + (char_code (char_of (97 + unat b mod 16)) - 97)
      = unat b"
    by (simp only: char_code_of add.commute [of 97] add_diff_cancel_right') (simp add: mult.commute)
  then show ?case using Cons.IH by (simp add: toy_hex_def)
qed (simp add: toy_hex_def)

lemma toy_hex_letters: "c \<in> set (toy_hex bs) \<Longrightarrow> letter c"
proof -
  have "letter (char_of (97 + n))" if "n < 16" for n :: nat
    using that char_code_of [of "97 + n"] by (simp add: letter_def)
  then show "c \<in> set (toy_hex bs) \<Longrightarrow> letter c"
    using nibbles by (auto simp: toy_hex_def)
qed

text \<open>Tools whose JSON knows one payload, with any nonce.\<close>

definition toy_tools :: "token_payload \<Rightarrow> tools" where
  "toy_tools P = \<lparr>uuid_valid = (\<lambda>s. s \<noteq> []), hmac_sha256 = (\<lambda>k m. Inr (take 32 (k @ m))),
     hex_decode = toy_unhex, url64_encode = toy_hex, url64_decode = toy_unhex,
     payload_to_json = (\<lambda>p. if p\<lparr>p_nonce := []\<rparr> = P then Inr (as_bytes (p_nonce p)) else Inl ''unsupported''),
     payload_from_json = (\<lambda>b. Some (raw_of (P\<lparr>p_nonce := map (\<lambda>x. char_of (unat x)) b\<rparr>)))\<rparr>"

lemma char_of_bytes: "map (\<lambda>x. char_of (unat x)) (as_bytes s) = s"
proof -
  have "unat (of_char c :: byte) = of_char c" for c
    using unat_of_nat [of "of_char c", where ?'a = 8] nat_of_char_less_256 [of c] by (simp only: of_nat_of_char) simp
  then show ?thesis by (simp add: as_bytes_def comp_def)
qed

lemma toy_tools_ok: "tools_ok toy_ext (toy_tools P)"
proof -
  have "\<not> letter (CHR ''.'')" by code_simp
  then show ?thesis
    using toy_hex_letters normalize_letters
    by (auto simp: tools_ok_def toy_tools_def toy_ext_def toy_unhex_hex char_of_bytes)
qed

definition toy_payload :: token_payload where
  "toy_payload = \<lparr>p_v = ''v1'', p_uid = ''alice'', p_lib = ''L'', p_path = ''big.bin'', p_exp = 1600,
     p_nonce = [], p_typ = ''library''\<rparr>"

definition expired_server :: "db" where
  "expired_server = (server [] no_tables)\<lparr>clock := 1600\<rparr>"

theorem download_token_bound_witness:
  "let r = build_download_token toy_ext (toy_tools toy_payload) ''k'' ''alice'' ''L'' ''library'' ''big.bin''
         (server [] no_tables);
       token = fst (projr (fst r))
   in (\<exists>payload. p_uid payload = ''alice'' \<and>
         fst (verify_download_token (toy_tools toy_payload) ''k'' token (server [] no_tables)) = Inr payload) \<and>
      fst (verify_download_token (toy_tools toy_payload) ''k'' token expired_server) =
         Inl (Validation ''Download token expired.'')"
proof -
  let ?m = "build_download_token toy_ext (toy_tools toy_payload) ''k'' ''alice'' ''L'' ''library'' ''big.bin''"
  let ?s = "server [] no_tables"
  have "\<not> isl (fst (?m ?s))" by code_simp
  then obtain token stamp where f: "fst (?m ?s) = Inr (token, stamp)"
    by (metis sum.collapse(2) prod.collapse)
  then have run: "?m ?s = (Inr (token, stamp), snd (?m ?s))" by (metis prod.collapse)
  have clk: "clock ?s = 1000" "clock expired_server = 1600"
    by (simp_all add: expired_server_def server_def)
  show ?thesis
    using conjunct1 [OF download_token_bound [OF toy_tools_ok run, of ?s]]
      conjunct1 [OF download_token_bound [OF toy_tools_ok run, of expired_server]] f clk
    by (auto simp: Let_def)
qed

text \<open>A server with a file of ten bytes, served in chunks of eight.\<close>

definition ten_bytes :: "byte list" where "ten_bytes = [1, 2, 3, 4, 5, 6, 7, 8, 9, 10]"

definition served_blob :: "byte list" where
  "served_blob = (let b = SINGLE_MAGIC @ replicate 12 0 @ ten_bytes @ replicate 16 7 in b @ take 32 b)"

definition served_tree :: tree where
  "served_tree = [([''srv''], Dir), ([''srv'', ''libraries''], Dir), ([''srv'', ''libraries'', ''L''], Dir),
     ([''srv'', ''libraries'', ''L'', ''big.bin''], Reg served_blob)]"

lemma served_lookup:
  "wf_tree served_tree" "lookup served_tree [''srv'', ''libraries'', ''L'', ''big.bin''] = Some (Reg served_blob)"
  "read_bytes toy_crypto toy_key served_blob = Inr ten_bytes"
  by (rule wf_treeI, code_simp) (simp add: served_tree_def lookup_def, code_simp)

lemma served_join:
  "fst (safe_join [''srv'', ''libraries'', ''L''] ''big.bin'' (server served_tree no_tables)) =
     Inr [''srv'', ''libraries'', ''L'', ''big.bin'']"
  by code_simp

lemma toy_library: "library_root toy_config ''L'' = [''srv'', ''libraries'', ''L'']"
  "get_library_key toy_keys ''L'' = Some toy_key"
  by code_simp+

lemma served_download:
  "\<exists>s'. download_any toy_crypto toy_ext toy_config toy_keys ''library'' ''L'' ''big.bin'' (server served_tree no_tables) =
     (Inr \<lparr>dl_data = ten_bytes, dl_checksum_sha256 = hex_encode toy_ext (sha256 toy_crypto ten_bytes),
       dl_mime_type = mime_from_filename toy_ext ''big.bin'', dl_filename = ''big.bin''\<rparr>, s')"
proof -
  have "file_name_or_default [''srv'', ''libraries'', ''L'', ''big.bin''] = ''big.bin''"
    by (simp add: file_name_or_default_def file_name_def)
  then have "fst (download_from toy_crypto toy_ext [''srv'', ''libraries'', ''L''] toy_key ''big.bin''
      (server served_tree no_tables)) = Inr \<lparr>dl_data = ten_bytes,
        dl_checksum_sha256 = hex_encode toy_ext (sha256 toy_crypto ten_bytes),
        dl_mime_type = mime_from_filename toy_ext ''big.bin'', dl_filename = ''big.bin''\<rparr>"
    using download_from_bytes [OF run_fst [of "safe_join _ _", OF served_join] _ _ _ served_lookup(3), of toy_ext]
      served_lookup(1,2) by simp
  then show ?thesis
    by (simp add: download_any_def download_file_eq toy_library) (metis prod.collapse)
qed

theorem ranged_download_witness:
  "let s = server served_tree no_tables;
       r = projr (fst (init_download toy_crypto toy_ext (toy_tools toy_payload) toy_config toy_keys ''alice'' ''L''
             ''library'' ''big.bin'' s))
   in id_total_chunks r = 2 \<and>
      concat (map (\<lambda>i. cd_data (projr (fst (serve_chunk toy_crypto toy_ext (toy_tools toy_payload) toy_config
        toy_keys ''alice'' (id_token r) (word_of_nat i) s)))) [0..<2]) = ten_bytes"
proof -
  let ?m = "init_download toy_crypto toy_ext (toy_tools toy_payload) toy_config toy_keys ''alice'' ''L''
     ''library'' ''big.bin''"
  let ?s = "server served_tree no_tables"
  obtain s1 where d: "download_any toy_crypto toy_ext toy_config toy_keys ''library'' ''L'' ''big.bin'' ?s =
     (Inr \<lparr>dl_data = ten_bytes, dl_checksum_sha256 = hex_encode toy_ext (sha256 toy_crypto ten_bytes),
       dl_mime_type = mime_from_filename toy_ext ''big.bin'', dl_filename = ''big.bin''\<rparr>, s1)"
    using served_download by blast
  then have "clock s1 = 1000"
    using readonly_clock [OF readonly_download_any d] by (simp add: server_def)
  let ?r = "projr (fst (?m ?s))"
  have num: "length ten_bytes = 10" "chunk_size_bytes toy_config = 8" "clock ?s = 1000"
    by (simp_all add: ten_bytes_def toy_config_def server_def)
  have m: "\<not> isl (fst (?m ?s))" "id_total_chunks ?r = 2" "id_total_bytes ?r = 10" "clock (snd (?m ?s)) = 1000"
    using \<open>clock s1 = 1000\<close>
    by (simp_all add: init_download_def num Let_def
        d [unfolded download_any_def, simplified]
        expected_total_chunks_def build_download_token_def DOWNLOAD_TOKEN_TTL_MINUTES_def bind_def new_uuid_def
        toy_tools_def toy_payload_def DOWNLOAD_TOKEN_VERSION_def sign_payload_def)
  then have run: "?m ?s = (Inr ?r, snd (?m ?s))" by (metis prod.collapse sum.collapse(2))
  show ?thesis
    using ranged_download [OF toy_tools_ok _ _ run, of "\<lambda>_. ?s"] served_lookup(1) m d num
    by (auto simp: Let_def u32_max_def)
qed

end
