(* ===== verification/ChunkSession.thy ===== *)
theory ChunkSession
  imports ChunkFacts
begin

text \<open>
  Upload sessions as a state machine. Between the start of a session and its completion the
  owner submits chunks in any order and any number of times, other users try to, any system call
  and statement may fail, and the rest of the server runs. The invariant is that a chunk file is
  empty (its write failed) or holds what the owner submitted under its index; a completion that
  succeeds then stores exactly the owner's file.
\<close>

section \<open>Names of chunk files\<close>

definition dec :: "string \<Rightarrow> nat" where
  "dec s = foldl (\<lambda>n c. 10 * n + (char_code c - 48)) 0 s"

lemma char_code_digit: "n < 10 \<Longrightarrow> char_code (char_of (48 + n)) = 48 + n"
  by (rule char_code_of) simp

lemma dec_show_nat: "dec (show_nat n) = n"
proof (induction n rule: less_induct)
  case (less n)
  show ?case
  proof (cases "n < 10")
    case True
    then show ?thesis using char_code_digit [of n] by (simp add: show_nat.simps [of n] dec_def)
  next
    case False
    then have "dec (show_nat (n div 10)) = n div 10" by (intro less) simp
    then show ?thesis
      using False char_code_digit [of "n mod 10"] by (simp add: show_nat.simps [of n] dec_def)
  qed
qed

lemma dec_zeros: "dec (replicate k (CHR ''0'') @ s) = dec s"
proof -
  have "foldl (\<lambda>n c. 10 * n + (char_code c - 48)) 0 (replicate k (CHR ''0'')) = 0"
    by (induction k) (simp_all add: char_code_def)
  then show ?thesis by (simp add: dec_def)
qed

lemma show_nat_digits: "c \<in> set (show_nat n) \<Longrightarrow> 48 \<le> char_code c \<and> char_code c \<le> 57"
proof (induction n rule: less_induct)
  case (less n)
  show ?case
  proof (cases "n < 10")
    case True
    then show ?thesis using less.prems char_code_digit [of n] by (auto simp: show_nat.simps [of n])
  next
    case False
    then consider "c \<in> set (show_nat (n div 10))" | "c = char_of (48 + n mod 10)"
      using less.prems by (auto simp: show_nat.simps [of n])
    then show ?thesis
      using less.IH [of "n div 10"] False char_code_digit [of "n mod 10"] by cases auto
  qed
qed

definition chunk_name :: "nat \<Rightarrow> string" where
  "chunk_name i = show_padded 8 i @ ''.chunk''"

lemma chunk_name_inj: "chunk_name i = chunk_name j \<Longrightarrow> i = j"
proof -
  assume "chunk_name i = chunk_name j"
  then have "dec (show_padded 8 i) = dec (show_padded 8 j)" by (simp add: chunk_name_def)
  then show "i = j" by (simp add: show_padded_def Let_def dec_zeros dec_show_nat)
qed

lemma chunk_name_plain: "plain_name (chunk_name i)"
proof -
  have "c \<noteq> CHR ''/''" if "c \<in> set (show_padded 8 i)" for c
    using that show_nat_digits [of c i] by (auto simp: show_padded_def Let_def char_code_def)
  then have "CHR ''/'' \<notin> set (chunk_name i)" by (auto simp: chunk_name_def)
  moreover have "6 \<le> length (chunk_name i)" by (simp add: chunk_name_def)
  ultimately show ?thesis by (auto simp: plain_name_def name_ok_def)
qed

lemma chunk_path_name: "chunk_path c sid i = staging_dir c sid @ [chunk_name (unat i)]"
  using path_join_plain [OF chunk_name_plain] by (simp add: chunk_path_def chunk_name_def)

section \<open>Runs\<close>

lemma map_err_run: "map_err f m w = (r, w') \<Longrightarrow>
    (\<exists>e. m w = (Inl e, w') \<and> r = Inl (f e)) \<or> (\<exists>x. m w = (Inr x, w') \<and> r = Inr x)"
  by (auto simp: map_err_def split: prod.splits sum.splits)

lemma mkdirs_existing:
  "wf_tree t \<Longrightarrow> lookup t (cur @ cs) = Some Dir \<Longrightarrow> mkdirs t cur cs = Inr t"
proof (induction cs arbitrary: cur)
  case (Cons c cs)
  have "lookup t (cur @ [c]) = Some Dir"
    using Cons.prems wf_prefix_dir [of t "cur @ [c]" cs] by (cases cs) auto
  then show ?case
    using Cons.IH [of "cur @ [c]"] Cons.prems canon_path_canon [OF Cons.prems(1) canon_dir] by simp
qed simp

lemma create_dir_existing:
  assumes "wf_tree (tree w)" "lookup (tree w) p = Some Dir" "fs_create_dir_all p w = (r, w')"
  shows "tree w' = tree w"
proof (cases r)
  case (Inl e)
  then show ?thesis using assms(3) by (auto simp: fs_create_dir_all_def dest: mutate_Inl)
next
  case (Inr u)
  then have "mkdirs (tree w) [] p = Inr (tree w')"
    using assms(3) by (auto simp: fs_create_dir_all_def dest: mutate_Inr)
  then show ?thesis using mkdirs_existing [of "tree w" "[]" p] assms(1,2) by simp
qed

lemma create_new_in_dir:
  assumes wf: "wf_tree (tree w)" and d: "lookup (tree w) s = Some Dir" and n: "name_ok a"
    and run: "fs_create_new (s @ [a]) w = (r, w')"
  shows "(\<exists>e. r = Inl e) \<and> tree w' = tree w \<or>
    r = Inr (s @ [a]) \<and> lookup (tree w) (s @ [a]) = None \<and> tree w' = put (s @ [a]) (Reg []) (tree w)"
proof -
  have "resolve_parent (tree w) (s @ [a]) = Inr (s @ [a])"
    using canon_path_canon [OF wf canon_dir [OF d]] d n by (simp add: resolve_parent_def name_ok_def)
  then show ?thesis
    using run by (auto simp: fs_create_new_def syscall_def tick_def split: option.splits)
qed

lemma write_run:
  assumes "p \<noteq> []" "tree w = put p (Reg []) t" "fs_write_all p d w = (r, w')"
  shows "tree w' = put p (Reg []) t \<or> tree w' = put p (Reg d) t"
proof (cases r)
  case (Inl e)
  then show ?thesis using assms by (auto simp: fs_write_all_def dest: mutate_Inl)
next
  case (Inr u)
  then show ?thesis using assms write_all_Inr [of p d w u w'] by (simp add: append_to_put)
qed

section \<open>The row of a session\<close>

definition session_row :: "string \<Rightarrow> string \<Rightarrow> 'z db_scheme \<Rightarrow> upload_row option" where
  "session_row sid ty w = map_option (\<lambda>r. r\<lparr>cu_received_chunks := 0\<rparr>)
     (List.find (\<lambda>r. cu_id r = sid \<and> cu_target_type r = ty) (t_uploads (tb w)))"

definition same_row :: "string \<Rightarrow> string \<Rightarrow> 'z db_scheme \<Rightarrow> 'z db_scheme \<Rightarrow> bool" where
  "same_row sid ty w w' = (session_row sid ty w' = session_row sid ty w)"

interpretation same_row: frame_rel "same_row sid ty"
  by unfold_locales (auto simp: same_row_def)

lemma same_row_db: "keeps same_db m \<Longrightarrow> keeps (same_row sid ty) m"
  by (auto simp: keeps_def same_db_def same_row_def session_row_def)

lemma find_update:
  assumes "\<And>r. P (f r) = P r" "\<And>r. g (f r) = g r"
  shows "map_option g (List.find P (update_where Q f rows)) = map_option g (List.find P rows)"
  using assms by (induction rows) (auto simp: update_where_def)

lemma same_row_received:
  "keeps (same_row sid ty) (sqlx (exec (\<lambda>now t. Inr (n t, t\<lparr>t_uploads := update_where (\<lambda>r. cu_id r = sid')
      (\<lambda>r. r\<lparr>cu_received_chunks := k\<rparr>) (t_uploads t)\<rparr>))))"
  by (auto simp: keeps_def same_row_def session_row_def exec_def find_update split: option.splits)

lemma same_db_calls:
  "keeps same_db (fs_canonicalize p)" "keeps same_db (fs_create_dir_all p)" "keeps same_db (fs_create_new p)"
  "keeps same_db (fs_write_all p d)" "keeps same_db (fs_flush p)" "keeps same_db (fs_sync_data p)"
  "keeps same_db (fs_try_exists p)" "keeps same_db (fs_read_dir p)" "keeps same_db next_entry"
  "keeps same_db (fs_remove_dir_all p)"
  by (simp_all add: fs_canonicalize_def fs_create_dir_all_def fs_create_new_def fs_write_all_def fs_flush_def
      fs_sync_data_def fs_try_exists_def fs_read_dir_def next_entry_def fs_remove_dir_all_def same_db_syscall
      same_db_query same_db_mutate)

lemma same_db_exists: "keeps same_db (exists_or_false p)"
  unfolding exists_or_false_def by (intro same_db.keeps_rules same_db_calls)

lemma same_db_count: "keeps same_db (count_uploaded_chunks c sid)"
proof -
  have "keeps same_db (count_chunks rd n)" for rd n
    by (induction rd n rule: count_chunks.induct) (auto intro!: same_db.keeps_rules same_db_calls)
  then show ?thesis
    unfolding count_uploaded_chunks_def Let_def by (intro same_db.keeps_rules same_db_calls same_db_exists)
qed

lemma same_db_load: "keeps same_db (load_own_row T uid tid ty sid)"
  unfolding load_own_row_def load_upload_row_def by (intro same_db_rules)

lemma same_db_expired: "keeps same_db (is_expired e)"
  unfolding is_expired_def by (intro same_db_rules)

lemma same_row_receive: "keeps (same_row sid ty) (receive_chunk T c uid tid ty' sid' i d)"
  unfolding receive_chunk_def Let_def
  by (intro same_row.keeps_rules same_row_received same_db_load [THEN same_row_db]
      same_db_expired [THEN same_row_db] same_db_calls [THEN same_row_db] same_db_count [THEN same_row_db])

section \<open>Where an action leads a tree\<close>

definition leads :: "tree \<Rightarrow> ('z os_scheme, 'e, 'a) act \<Rightarrow> tree set \<Rightarrow> bool" where
  "leads t m Q = (\<forall>w. tree w = t \<longrightarrow> tree (snd (m w)) \<in> Q)"

lemma leads_readonly: "keeps readonly m \<Longrightarrow> t \<in> Q \<Longrightarrow> leads t m Q"
  by (auto simp: leads_def keeps_def readonly_def)

lemma leads_skip:
  assumes "leads t m {t}" "t \<in> Q" "\<And>x. leads t (k x) Q"
  shows "leads t (bind m k) Q"
  unfolding leads_def
proof (intro allI impI)
  fix w :: "'a os_scheme" assume t: "tree w = t"
  obtain y w1 where m: "m w = (y, w1)" by fastforce
  have "tree (snd (m w)) \<in> {t}" using assms(1) t unfolding leads_def by blast
  then have "tree w1 = t" using m by simp
  then show "tree (snd (bind m k w)) \<in> Q"
    using m assms(2,3) by (cases y) (auto simp: bind_def leads_def)
qed

lemmas leads_step = leads_skip [OF leads_readonly, OF _ insertI1]

lemma leads_mkdirs:
  assumes "wf_tree t" "lookup t p = Some Dir"
  shows "leads t (map_err f (fs_create_dir_all p)) {t}"
  unfolding leads_def snd_map_err
proof (intro allI impI)
  fix w :: "'a os_scheme" assume "tree w = t"
  then show "tree (snd (fs_create_dir_all p w)) \<in> {t}"
    using create_dir_existing [of w p "fst (fs_create_dir_all p w)" "snd (fs_create_dir_all p w)"] assms by simp
qed

lemma leads_create:
  assumes wf: "wf_tree t" and d: "lookup t s = Some Dir" and n: "name_ok a" and q: "t \<in> Q"
    and k: "lookup t (s @ [a]) = None \<Longrightarrow> leads (put (s @ [a]) (Reg []) t) (k (s @ [a])) Q"
  shows "leads t (bind (map_err f (fs_create_new (s @ [a]))) k) Q"
  unfolding leads_def
proof (intro allI impI)
  fix w :: "'a os_scheme" assume t: "tree w = t"
  obtain y w1 where m: "fs_create_new (s @ [a]) w = (y, w1)" by fastforce
  show "tree (snd (bind (map_err f (fs_create_new (s @ [a]))) k w)) \<in> Q"
    using create_new_in_dir [OF _ _ n m] wf d t m q k
    by (cases y) (auto simp: bind_map_err_InlI bind_map_err_InrI leads_def)
qed

lemma leads_write:
  assumes p: "p \<noteq> []" and q: "put p (Reg []) t \<in> Q" "put p (Reg d) t \<in> Q"
    and k: "\<And>x. leads (put p (Reg d) t) (k x) Q"
  shows "leads (put p (Reg []) t) (bind (map_err f (fs_write_all p d)) k) Q"
  unfolding leads_def
proof (intro allI impI)
  fix w :: "'a os_scheme" assume t: "tree w = put p (Reg []) t"
  obtain y w1 where m: "fs_write_all p d w = (y, w1)" by fastforce
  show "tree (snd (bind (map_err f (fs_write_all p d)) k w)) \<in> Q"
  proof (cases y)
    case (Inl e)
    then show ?thesis using write_run [OF p t m] m q by (auto simp: bind_map_err_InlI)
  next
    case (Inr u)
    then have "tree w1 = put p (Reg d) t"
      using write_all_Inr [of p d w u w1] m t p by (simp add: append_to_put)
    then show ?thesis using m Inr k [of u] by (simp add: bind_map_err_InrI leads_def)
  qed
qed

section \<open>Receiving a chunk\<close>

lemma load_own_row_Inr:
  assumes "load_own_row T uid tid ty sid w = (Inr row, w')"
  shows "session_row sid ty w = Some (row\<lparr>cu_received_chunks := 0\<rparr>) \<and> cu_user_id row = uid \<and>
    cu_target_id row = tid"
proof -
  obtain found w1 where "load_upload_row sid ty w = (Inr found, w1)" and "found = Some row"
    "cu_user_id row = uid" "cu_target_id row = tid"
    using assms unfolding load_own_row_def
    by (elim bind_InrE) (auto split: option.splits if_splits)
  then show ?thesis by (auto simp: load_upload_row_def session_row_def dest!: select_Inr [THEN conjunct1, THEN sym])
qed

lemma readonly_load: "keeps readonly (load_own_row T uid tid ty sid)"
  unfolding load_own_row_def load_upload_row_def by (intro readonly_rules readonly_sqlx readonly_select)

lemma readonly_expired: "keeps readonly (is_expired e)"
  unfolding is_expired_def by (intro readonly_rules)

lemma readonly_count: "keeps readonly (count_uploaded_chunks c sid)"
proof -
  have "keeps readonly (count_chunks rd n)" for rd n
    by (induction rd n rule: count_chunks.induct) (auto intro!: readonly_rules simp: next_entry_def)
  then show ?thesis
    unfolding count_uploaded_chunks_def Let_def by (intro readonly_rules)
qed

text \<open>What \<open>receive_chunk\<close> can do to the tree, whether it succeeds or not.\<close>

lemma receive_chunk_leads:
  assumes wf: "wf_tree t" and st: "lookup t (staging_dir c sid) = Some Dir"
  shows "leads t (receive_chunk T c uid tid ty sid i d) (insert t
    (if lookup t (chunk_path c sid i) = None
     then {put (chunk_path c sid i) (Reg []) t, put (chunk_path c sid i) (Reg d) t} else {}))"
proof -
  have n: "name_ok (chunk_name (unat i))" using chunk_name_plain by (simp add: plain_name_def)
  show ?thesis
    unfolding receive_chunk_def Let_def chunk_path_name
    apply (rule leads_step [OF readonly_load insertI1])
    apply (rule leads_step [OF readonly_expired insertI1])
    apply (rule leads_step [OF readonly.keeps_reject_if insertI1])+
    apply (rule leads_skip [OF leads_mkdirs [OF wf st] insertI1])
    apply (rule leads_create [OF wf st n insertI1])
    apply (rule leads_write; simp)
    apply (rule leads_readonly)
     apply (intro readonly_rules readonly_count readonly_sqlx readonly_exec)
    apply simp
    done
qed

lemma receive_chunk_foreign:
  assumes own: "\<And>row. session_row sid ty w = Some row \<Longrightarrow> cu_user_id row \<noteq> uid \<or> cu_target_id row \<noteq> tid"
    and run: "receive_chunk T c uid tid ty sid i d w = (y, w')"
  shows "tree w' = tree w"
proof (rule bind_runE [OF run [unfolded receive_chunk_def]])
  fix e assume "load_own_row T uid tid ty sid w = (Inl e, w')"
  then show ?thesis using readonlyD [OF readonly_load] by blast
next
  fix row w1 assume "load_own_row T uid tid ty sid w = (Inr row, w1)"
  from load_own_row_Inr [OF this] show ?thesis using own [of "row\<lparr>cu_received_chunks := 0\<rparr>"] by auto
qed

section \<open>Sessions\<close>

text \<open>
  \<open>upload_session\<close> relates the states a session with identifier \<open>sid\<close> passes through to the chunks
  the owner has submitted so far, accepted or not. Between two requests the rest of the server may
  do anything that leaves the session's row and staging directory alone.
\<close>

inductive upload_session ::
  "tools \<Rightarrow> app_config \<Rightarrow> string \<Rightarrow> string \<Rightarrow> string \<Rightarrow> string \<Rightarrow> 'z db_scheme
    \<Rightarrow> 'z db_scheme \<Rightarrow> (nat \<times> byte list) set \<Rightarrow> bool"
  for T c uid tid ty sid w0
where
  started: "upload_session T c uid tid ty sid w0 w0 {}"
| submitted: "\<lbrakk>upload_session T c uid tid ty sid w0 w S; receive_chunk T c uid tid ty sid i d w = (y, w')\<rbrakk>
    \<Longrightarrow> upload_session T c uid tid ty sid w0 w' (insert (unat i, d) S)"
| foreign: "\<lbrakk>upload_session T c uid tid ty sid w0 w S; receive_chunk T c uid' tid' ty sid i d w = (y, w');
    uid' \<noteq> uid \<or> tid' \<noteq> tid\<rbrakk> \<Longrightarrow> upload_session T c uid tid ty sid w0 w' S"
| elsewhere: "\<lbrakk>upload_session T c uid tid ty sid w0 w S; wf_tree (tree w');
    \<And>q. is_prefix (staging_dir c sid) q \<Longrightarrow> lookup (tree w') q = lookup (tree w) q;
    session_row sid ty w' = session_row sid ty w\<rbrakk> \<Longrightarrow> upload_session T c uid tid ty sid w0 w' S"

definition staged :: "app_config \<Rightarrow> string \<Rightarrow> tree \<Rightarrow> (nat \<times> byte list) set \<Rightarrow> bool" where
  "staged c sid t S = (wf_tree t \<and> lookup t (staging_dir c sid) = Some Dir \<and>
     (\<forall>(i :: 32 word) x. lookup t (chunk_path c sid i) = Some x \<longrightarrow>
        (\<exists>d. x = Reg d \<and> (d = [] \<or> (unat i, d) \<in> S))))"

lemma staged_mono: "staged c sid t S \<Longrightarrow> S \<subseteq> S' \<Longrightarrow> staged c sid t S'"
  unfolding staged_def by blast

lemma chunk_path_eq: "chunk_path c sid i = chunk_path c sid j \<longleftrightarrow> i = j"
  using chunk_name_inj [of "unat i" "unat j"] by (auto simp: chunk_path_name word_unat_eq_iff)

lemma staged_put:
  assumes st: "staged c sid t S" and none: "lookup t (chunk_path c sid i) = None"
    and d: "d = [] \<or> (unat i, d) \<in> S"
  shows "staged c sid (put (chunk_path c sid i) (Reg d) t) S"
proof -
  have p: "chunk_path c sid i \<noteq> []" "staging_dir c sid \<noteq> chunk_path c sid i"
    "butlast (chunk_path c sid i) = staging_dir c sid" "name_ok (last (chunk_path c sid i))"
    using chunk_name_plain [of "unat i"] by (auto simp: chunk_path_name plain_name_def)
  have "wf_tree (put (chunk_path c sid i) (Reg d) t)"
    by (rule wf_put) (use st none p in \<open>auto simp: staged_def\<close>)
  then show ?thesis
    using st d p by (auto simp: staged_def lookup_put chunk_path_eq)
qed

lemma session_staged:
  assumes "upload_session T c uid tid ty sid w0 w S"
    and start: "staged c sid (tree w0) {}" "session_row sid ty w0 = Some row"
    and own: "cu_user_id row = uid" "cu_target_id row = tid"
  shows "staged c sid (tree w) S \<and> session_row sid ty w = Some row"
  using assms(1)
proof induction
  case started
  then show ?case using start by simp
next
  case (submitted w S i d y w')
  have "leads (tree w) (receive_chunk T c uid tid ty sid i d) (insert (tree w)
    (if lookup (tree w) (chunk_path c sid i) = None
     then {put (chunk_path c sid i) (Reg []) (tree w), put (chunk_path c sid i) (Reg d) (tree w)} else {}))"
    by (rule receive_chunk_leads) (use submitted.IH in \<open>auto simp: staged_def\<close>)
  then have "tree w' = tree w \<or> lookup (tree w) (chunk_path c sid i) = None \<and>
      (tree w' = put (chunk_path c sid i) (Reg []) (tree w) \<or> tree w' = put (chunk_path c sid i) (Reg d) (tree w))"
    using submitted.hyps(2) unfolding leads_def
    by (auto dest!: spec [of _ w] split: if_splits)
  moreover have "staged c sid (tree w) (insert (unat i, d) S)"
    using submitted.IH staged_mono by blast
  ultimately have "staged c sid (tree w') (insert (unat i, d) S)" using staged_put by fastforce
  moreover have "session_row sid ty w' = session_row sid ty w"
    using keepsD [OF same_row_receive submitted.hyps(2)] by (simp add: same_row_def)
  ultimately show ?case using submitted.IH by simp
next
  case (foreign w S uid' tid' i d y w')
  have "tree w' = tree w"
    by (rule receive_chunk_foreign [OF _ foreign.hyps(2)]) (use foreign own in auto)
  moreover have "session_row sid ty w' = session_row sid ty w"
    using keepsD [OF same_row_receive foreign.hyps(2)] by (simp add: same_row_def)
  ultimately show ?case using foreign.IH by simp
next
  case (elsewhere w S w')
  then show ?case by (simp add: staged_def chunk_path_name)
qed

section \<open>Starting a session\<close>

lemma find_append: "List.find P (xs @ ys) = (case List.find P xs of None \<Rightarrow> List.find P ys | r \<Rightarrow> r)"
  by (induction xs) auto

lemma init_upload_Inr:
  assumes wf: "wf_tree (tree w)" and dir: "lookup (tree w) (chunks_dir c) = Some Dir"
    and sid: "plain_name (uuids w (uuid_pos w))"
    and free: "lookup (tree w) (staging_dir c (uuids w (uuid_pos w))) = None"
    and run: "init_upload c ps w = (Inr res, w')"
  shows "iu_upload_id res = uuids w (uuid_pos w) \<and> staged c (uuids w (uuid_pos w)) (tree w') {} \<and>
    (\<exists>row. session_row (uuids w (uuid_pos w)) (ip_target_type ps) w' = Some row \<and>
      cu_user_id row = ip_user_id ps \<and> cu_target_id row = ip_target_id ps \<and>
      cu_target_path row = ip_target_path ps \<and> cu_total_chunks row = int (unat (ip_total_chunks ps)) \<and>
      cu_total_bytes row = as_i64 (ip_total_bytes ps)) \<and>
    expected_total_chunks (ip_total_bytes ps) (chunk_size_bytes c) = Some (ip_total_chunks ps) \<and>
    chunk_size_bytes c < ip_total_bytes ps \<and> ip_total_bytes ps \<le> max_upload_bytes c"
proof -
  let ?sid = "uuids w (uuid_pos w)"
  obtain n w1 w2 w3 e k where n: "expected_total_chunks (ip_total_bytes ps) (chunk_size_bytes c) = Some n"
      "ip_total_chunks ps = n"
    and small: "chunk_size_bytes c < ip_total_bytes ps" "ip_total_bytes ps \<le> max_upload_bytes c"
    and u: "new_uuid w = (Inr ?sid, w1)" "w1 = w\<lparr>uuid_pos := Suc (uuid_pos w)\<rparr>"
    and m: "fs_create_dir_all (staging_dir c ?sid) w1 = (Inr (), w2)"
    and ins: "exec (\<lambda>now t.
             if ?sid \<in> cu_id ` set (t_uploads t) then Inl (unique_failed ''chunked_uploads.id'')
             else if ip_user_id ps \<notin> u_id ` set (t_users t) then Inl foreign_key_failed
             else Inr (1, t\<lparr>t_uploads := t_uploads t @
               [\<lparr>cu_id = ?sid, cu_user_id = ip_user_id ps, cu_target_type = ip_target_type ps,
                 cu_target_id = ip_target_id ps, cu_target_path = ip_target_path ps,
                 cu_filename = filename_from_target_path (ip_target_path ps),
                 cu_total_chunks = int (unat (ip_total_chunks ps)),
                 cu_received_chunks = 0, cu_total_bytes = as_i64 (ip_total_bytes ps),
                 cu_checksum = map_option normalize_hex (ip_checksum_sha256 ps),
                 cu_expires_at = e, cu_created_at = now\<rparr>]\<rparr>)) w2 = (Inr k, w')"
    and res: "iu_upload_id res = ?sid"
    using run unfolding init_upload_def
    by (auto simp: bind_Inr_iff new_uuid_def split: if_splits option.splits)
  have st: "staging_dir c ?sid = chunks_dir c @ [?sid]" using path_join_plain [OF sid] by (simp add: staging_dir_def)
  have mk: "mkdirs (tree w) [] (staging_dir c ?sid) = Inr (tree w2)"
    using m u(2) by (auto simp: fs_create_dir_all_def dest: mutate_Inr)
  have lf: "linkfree (tree w) ([] @ staging_dir c ?sid)"
    using linkfree_missing [OF wf canon_linkfree [OF wf canon_dir [OF dir]], of ?sid "[]"] free sid
    by (simp add: st plain_name_def)
  have lk: "lookup (tree w2) q = (if is_prefix q (staging_dir c ?sid) then Some Dir else lookup (tree w) q)" for q
    using mkdirs_lookup [OF lf _ mk, of q] by simp
  have below: "lookup (tree w2) (chunk_path c ?sid i) = None" for i
    using lk [of "chunk_path c ?sid i"] wf_below_missing [OF wf free, of "[chunk_name (unat i)]"]
    by (auto simp: chunk_path_name is_prefix_iff)
  obtain t where t: "w' = tick (w2\<lparr>tb := t\<rparr>)" and tabs: "?sid \<notin> cu_id ` set (t_uploads (tb w2))"
    "t_uploads t = t_uploads (tb w2) @ [\<lparr>cu_id = ?sid, cu_user_id = ip_user_id ps, cu_target_type = ip_target_type ps,
                 cu_target_id = ip_target_id ps, cu_target_path = ip_target_path ps,
                 cu_filename = filename_from_target_path (ip_target_path ps),
                 cu_total_chunks = int (unat (ip_total_chunks ps)),
                 cu_received_chunks = 0, cu_total_bytes = as_i64 (ip_total_bytes ps),
                 cu_checksum = map_option normalize_hex (ip_checksum_sha256 ps),
                 cu_expires_at = e, cu_created_at = datetime_text w2 (clock w2)\<rparr>]"
    using exec_Inr [OF ins] by (auto split: if_splits)
  have "wf_tree (tree w2)" using mkdirs_props [OF wf _ mk] by simp
  then have "staged c ?sid (tree w') {}"
    using below lk [of "staging_dir c ?sid"] t by (simp add: staged_def)
  moreover have "List.find (\<lambda>r. cu_id r = ?sid \<and> cu_target_type r = ip_target_type ps) (t_uploads (tb w2)) = None"
    using tabs(1) by (force simp: find_None_iff)
  ultimately show ?thesis
    using res n small t tabs(2) by (simp add: session_row_def find_append)
qed

section \<open>Completing a session\<close>

definition realm_root :: "app_config \<Rightarrow> string \<Rightarrow> string \<Rightarrow> path" where
  "realm_root c ty tid = (if ty = ''space'' then space_root c tid else library_root c tid)"

definition realm_key :: "unlock_state \<Rightarrow> string \<Rightarrow> string \<Rightarrow> byte list option" where
  "realm_key u ty tid = (if ty = ''space'' then get_space_key u tid else get_library_key u tid)"

lemma streaming_any_eq:
  "(if ty = ''space'' then upload_space_file_streaming C E c u tid p ps sz v
    else upload_file_streaming C E c u tid p ps sz v) =
   (if p = [] then throw (Validation ''File path must not be empty.'')
    else case realm_key u ty tid of None \<Rightarrow> throw Locked
         | Some k \<Rightarrow> assemble_to C E (realm_root c ty tid) k p ps sz v)"
  by (simp add: realm_key_def realm_root_def upload_file_streaming_eq upload_space_file_streaming_eq
      split: option.split)

lemma download_any_eq:
  "download_any C E c u ty tid p =
   (if p = [] then throw (Validation ''File path must not be empty.'')
    else case realm_key u ty tid of None \<Rightarrow> throw Locked
         | Some k \<Rightarrow> download_from C E (realm_root c ty tid) k p)"
  by (simp add: download_any_def realm_key_def realm_root_def download_file_eq download_space_file_eq
      split: option.split)

lemma realm_root_plain:
  assumes "plain_name tid"
  shows "realm_root c ty tid = data_dir c @ [if ty = ''space'' then ''spaces'' else ''libraries'', tid]"
proof -
  have "plain_name ''spaces''" "plain_name ''libraries''" by code_simp+
  then show ?thesis
    using assms by (simp add: realm_root_def space_root_def library_root_def path_join_plain)
qed

lemma staging_plain:
  assumes "plain_name sid"
  shows "staging_dir c sid = data_dir c @ [''.chunks'', sid]"
proof -
  have "plain_name ''.chunks''" by code_simp
  then show ?thesis using assms by (simp add: staging_dir_def chunks_dir_def path_join_plain)
qed

lemma realm_not_staging:
  assumes "plain_name tid" "plain_name sid"
  shows "\<not> is_prefix (realm_root c ty tid) (staging_dir c sid @ q)"
    "\<not> is_prefix (staging_dir c sid) (realm_root c ty tid @ q)"
  using assms by (auto simp: realm_root_plain staging_plain is_prefix_iff)

lemma require_chunks_Inr:
  "require_chunks idx ps w = (Inr u, w') \<Longrightarrow> p \<in> set ps \<Longrightarrow> \<exists>q i. stat_inode (tree w) p = Inr (q, i)"
proof (induction idx ps arbitrary: w rule: require_chunks.induct)
  case (2 idx p0 ps)
  obtain w1 where e: "exists_or_false p0 w = (Inr True :: app_error + bool, w1)" and r: "require_chunks (Suc idx) ps w1 = (Inr u, w')"
    using 2(2) by (auto simp: bind_Inr_iff split: if_splits)
  have t: "tree w1 = tree w" using readonlyD [OF readonly_exists_or_false e] .
  obtain y w2 where "fs_try_exists p0 w = (y, w2)" by fastforce
  then have "\<exists>q i. stat_inode (tree w) p0 = Inr (q, i)"
    using e by (cases y) (auto simp: exists_or_false_def fs_try_exists_def dest!: query_Inr
        split: sum.splits io_error.splits)
  then show ?case using 2(1) [OF r] 2(3) t by auto
qed simp

lemma readonly_require: "keeps readonly (require_chunks idx ps)"
proof (induction idx ps rule: require_chunks.induct)
  case (1 idx)
  then show ?case by (simp add: keeps_def readonly_def)
next
  case (2 idx p ps)
  then show ?case by (auto intro!: readonly_rules)
qed

lemma remove_staging:
  assumes wf: "wf_tree (tree w)" and d: "lookup (tree w) p = Some Dir"
  shows "tree (snd (fs_remove_dir_all p w)) \<in> {tree w, remove_subtree p (tree w)}"
proof -
  obtain y w' where m: "fs_remove_dir_all p w = (y, w')" by fastforce
  show ?thesis
  proof (cases y)
    case (Inl e)
    then show ?thesis using m mutate_Inl [of _ w e w'] by (auto simp: fs_remove_dir_all_def)
  next
    case (Inr u)
    then obtain q i where "lstat_inode (tree w) p = Inr (q, i)" "tree w' = remove_subtree q (tree w)"
      using m by (auto simp: fs_remove_dir_all_def dest!: mutate_Inr split: sum.splits prod.splits inode.splits if_splits)
    then show ?thesis using lstat_linkfree canon_linkfree [OF wf canon_dir [OF d]] m by auto
  qed
qed

lemma staged_linkfree:
  assumes "staged c sid t S"
  shows "linkfree t (chunk_path c sid i)"
proof (cases "lookup t (chunk_path c sid i)")
  case None
  have wf: "wf_tree t" and d: "canon t (staging_dir c sid)"
    using assms by (simp_all add: staged_def canon_dir)
  show ?thesis
    using linkfree_missing [OF wf canon_linkfree [OF wf d], of "chunk_name (unat i)" "[]"] None
      chunk_name_plain [of "unat i"] by (simp add: chunk_path_name plain_name_def)
next
  case (Some x)
  then have "canon t (chunk_path c sid i)" using assms by (auto simp: staged_def canon_def)
  then show ?thesis using canon_linkfree assms by (auto simp: staged_def)
qed

lemma complete_upload_Inr:
  fixes w :: "'z db_scheme"
  assumes st: "staged c sid (tree w) S" and row: "session_row sid ty w = Some row"
    and run: "complete_upload C E T c u uid tid ty sid v w = (Inr up, w')"
  obtains k and w1 w2 :: "'z db_scheme" where "realm_key u ty tid = Some k" "cu_target_path row \<noteq> []" "tree w1 = tree w"
    "assemble_to C E (realm_root c ty tid) k (cu_target_path row)
       (map (\<lambda>i. chunk_path c sid (word_of_nat i)) [0..<unat (word_of_int (cu_total_chunks row) :: 32 word)])
       (as_u64 (cu_total_bytes row)) v w1 = (Inr up, w2)"
    "tree w' = tree (snd (fs_remove_dir_all (staging_dir c sid) w2))"
    "\<And>i. i < unat (word_of_int (cu_total_chunks row) :: 32 word) \<Longrightarrow>
       \<exists>d. lookup (tree w) (chunk_path c sid (word_of_nat i)) = Some (Reg d) \<and> (d = [] \<or> (i, d) \<in> S)"
proof -
  let ?cps = "\<lambda>r. map (\<lambda>i. chunk_path c sid (word_of_nat i)) [0..<unat (word_of_int (cu_total_chunks r) :: 32 word)]"
  let ?up = "\<lambda>r. if ty = ''space'' then upload_space_file_streaming C E c u tid (cu_target_path r) (?cps r)
      (as_u64 (cu_total_bytes r)) v
    else upload_file_streaming C E c u tid (cu_target_path r) (?cps r) (as_u64 (cu_total_bytes r)) v"
  obtain r w1 where load: "load_own_row T uid tid ty sid w = (Inr r, w1)"
    and run1: "bind (is_expired (cu_expires_at r)) (\<lambda>expired.
     bind (reject_if expired (Validation ''Upload session has expired.'')) (\<lambda>_.
     bind (require_chunks 0 (?cps r)) (\<lambda>_. bind (?up r) (\<lambda>upload.
     bind (ignore (fs_remove_dir_all (staging_dir c sid))) (\<lambda>_.
     bind (ignore (delete_upload_row sid)) (\<lambda>_. ret upload)))))) w1 = (Inr up, w')"
    using run unfolding complete_upload_def Let_def by (rule bind_InrE)
  obtain ex w2 where exp: "(is_expired (cu_expires_at r) :: ('z db_scheme, app_error, bool) act) w1 = (Inr ex, w2)"
    and run2: "bind (reject_if ex (Validation ''Upload session has expired.'')) (\<lambda>_.
     bind (require_chunks 0 (?cps r)) (\<lambda>_. bind (?up r) (\<lambda>upload.
     bind (ignore (fs_remove_dir_all (staging_dir c sid))) (\<lambda>_.
     bind (ignore (delete_upload_row sid)) (\<lambda>_. ret upload))))) w2 = (Inr up, w')"
    using run1 by (rule bind_InrE)
  obtain w3 where req: "require_chunks 0 (?cps r) w2 = (Inr (), w3)"
    and run3: "bind (?up r) (\<lambda>upload. bind (ignore (fs_remove_dir_all (staging_dir c sid))) (\<lambda>_.
     bind (ignore (delete_upload_row sid)) (\<lambda>_. ret upload))) w3 = (Inr up, w')"
  proof (rule bind_InrE)
    show "bind (require_chunks 0 (?cps r)) (\<lambda>_. bind (?up r) (\<lambda>upload.
       bind (ignore (fs_remove_dir_all (staging_dir c sid))) (\<lambda>_.
       bind (ignore (delete_upload_row sid)) (\<lambda>_. ret upload)))) w2 = (Inr up, w')"
      using run2 unfolding bind_reject_if by (cases ex) simp_all
  qed simp
  from load_own_row_Inr [OF load] row
  have r: "cu_target_path r = cu_target_path row" "cu_total_chunks r = cu_total_chunks row"
    "cu_total_bytes r = cu_total_bytes row" by auto
  have t: "tree w1 = tree w" "tree w2 = tree w" "tree w3 = tree w"
    using readonlyD [OF readonly_load load] readonlyD [OF readonly_expired exp]
      readonlyD [OF readonly_require req] by simp_all
  obtain w4 where up: "?up r w3 = (Inr up, w4)"
    and last: "bind (ignore (fs_remove_dir_all (staging_dir c sid))) (\<lambda>_.
     bind (ignore (delete_upload_row sid)) (\<lambda>_. ret up)) w4 = (Inr up, w')"
    using run3 by (rule bind_InrE) auto
  have gone: "tree w' = tree (snd (fs_remove_dir_all (staging_dir c sid) w4))"
    using last by (auto simp: delete_upload_row_def ret_def exec_def tick_def split: option.splits)
  have chunks: "\<exists>d. lookup (tree w) (chunk_path c sid (word_of_nat i)) = Some (Reg d) \<and> (d = [] \<or> (i, d) \<in> S)"
    if i: "i < unat (word_of_int (cu_total_chunks row) :: 32 word)" for i
  proof -
    have "unat (word_of_nat i :: 32 word) = i"
      using less_trans [OF i unsigned_less] by (simp add: unat_of_nat)
    moreover have "\<exists>q x. stat_inode (tree w) (chunk_path c sid (word_of_nat i)) = Inr (q, x)"
      using require_chunks_Inr [OF req, of "chunk_path c sid (word_of_nat i)"] i t r by auto
    ultimately show ?thesis
      using stat_linkfree [OF staged_linkfree [OF st, of "word_of_nat i"]] st unfolding staged_def by metis
  qed
  obtain k where path: "cu_target_path row \<noteq> []" and key: "realm_key u ty tid = Some k"
    and asm: "assemble_to C E (realm_root c ty tid) k (cu_target_path row) (?cps row)
       (as_u64 (cu_total_bytes row)) v w3 = (Inr up, w4)"
    using up unfolding streaming_any_eq r by (auto split: if_splits option.splits simp: throw_def)
  show thesis by (rule that [OF key path t(3) asm gone], rule chunks)
qed

section \<open>From session to file\<close>

lemma as_u64_i64: "n < 2 ^ 63 \<Longrightarrow> as_u64 (as_i64 n) = n"
  by (simp add: as_u64_def as_i64_def)

text \<open>Slices of the right total length are all the slices.\<close>

lemma slices_complete:
  assumes len: "length (concat (map f [0..<n])) = length d" and n: "(n - 1) * cs < length d" "length d \<le> n * cs"
    and f: "\<And>i. i < n \<Longrightarrow> f i = [] \<or> f i = take cs (drop (i * cs) d)" and i: "i < n"
  shows "f i = take cs (drop (i * cs) d)"
proof (rule ccontr)
  let ?s = "\<lambda>i. take cs (drop (i * cs) d)"
  assume ne: "f i \<noteq> ?s i"
  have le: "length (f j) \<le> length (?s j)" if "j < n" for j using f [OF that] by auto
  have "i * cs \<le> (n - 1) * cs" using i by (intro mult_le_mono1) simp
  then have "0 < length (?s i)" using n i by (cases cs) auto
  moreover have "f i = []" using f [OF i] ne by blast
  ultimately have lt: "length (f i) < length (?s i)" by simp
  have "length (concat (map f [0..<n])) = (\<Sum>j<n. length (f j))"
    by (simp add: length_concat sum_list_sum_nth atLeast0LessThan)
  also have "\<dots> < (\<Sum>j<n. length (?s j))"
    by (rule sum_strict_mono_ex1) (use i lt le in auto)
  also have "\<dots> = length (concat (map ?s [0..<n]))"
    by (simp add: length_concat sum_list_sum_nth atLeast0LessThan)
  also have "\<dots> = length d" using concat_slices [of cs d n] n by simp
  finally show False using len by simp
qed

lemma stream_read:
  assumes ok: "crypto_ok C" and blob: "stream_of C k ds blob" and small: "\<forall>x \<in> set ds. length x + 16 < 2 ^ 32"
  shows "read_bytes C k blob = Inr (concat ds)"
proof -
  have "take 3 blob = STREAM_MAGIC" using blob by (auto simp: stream_of_def hashed_def)
  then show ?thesis using stream_decrypt [OF ok blob small] by (simp add: read_bytes_def)
qed

lemma stored_download:
  assumes wf: "wf_tree (tree w)" and calm: "calm w" and root: "lookup (tree w) (realm_root c ty tid) = Some Dir"
    and key: "realm_key u ty tid = Some k" and p: "p \<noteq> []" "path_ok p"
    and lk: "lookup (tree w) (realm_root c ty tid @ split_on either_sep p) = Some (Reg blob)"
    and rb: "read_bytes C k blob = Inr d"
  shows "\<exists>dl. fst (download_any C E c u ty tid p w) = Inr dl \<and> dl_data dl = d"
proof -
  let ?r = "realm_root c ty tid" and ?target = "realm_root c ty tid @ split_on either_sep p"
  have pre: "lookup (tree w) q = Some Dir" if pq: "is_prefix q ?target" "q \<noteq> ?target" for q
  proof -
    obtain zs where "zs \<noteq> []" "?target = q @ zs" using pq by (auto simp: is_prefix_iff)
    then show ?thesis using wf_prefix_dir [OF wf, of q zs] lk by simp
  qed
  have "\<exists>w'. safe_join ?r p w = (Inr ?target, w')"
  proof (subst safe_join_plain [OF calm wf canon_path_canon [OF wf canon_dir [OF root]]])
    show "lookup (tree w) q \<noteq> Some (Link l)" if "is_prefix q ?target" for q l
      using pre [OF that] lk by (cases "q = ?target") auto
    show "lookup (tree w) q \<in> {None, Some Dir}" if "is_prefix q ?target" "q \<noteq> ?target" for q
      using pre [OF that] by simp
  qed (simp add: p)
  then obtain w' where "safe_join ?r p w = (Inr ?target, w')" by blast
  from download_from_bytes [OF this wf calm lk rb] show ?thesis
    by (simp add: download_any_eq p key)
qed

lemma slices_whole:
  assumes cs: "0 < cs" and n: "n = (length d + cs - 1) div cs" and d: "0 < length d" "length d = length (concat (map f [0..<n]))"
    and f: "\<forall>i<n. f i = [] \<or> (i, f i) \<in> S" and S: "\<forall>i x. (i, x) \<in> S \<longrightarrow> x = take cs (drop (i * cs) d)"
  shows "concat (map f [0..<n]) = d" "i < n \<Longrightarrow> f i = take cs (drop (i * cs) d)" "i < n \<Longrightarrow> (i, take cs (drop (i * cs) d)) \<in> S"
proof -
  let ?s = "\<lambda>i. take cs (drop (i * cs) d)"
  note bounds = ceil_bounds [OF cs d(1) n]
  show whole: "f i = ?s i" if "i < n" for i
  proof (rule slices_complete [OF d(2) [symmetric] bounds(1,2) _ that])
    show "f j = [] \<or> f j = ?s j" if "j < n" for j using f S that by blast
  qed
  have "concat (map f [0..<n]) = concat (map ?s [0..<n])" using whole by (intro arg_cong [of _ _ concat]) simp
  then show "concat (map f [0..<n]) = d" using concat_slices [of cs d n] bounds by simp
  assume i: "i < n"
  then have "i * cs \<le> (n - 1) * cs" by (intro mult_le_mono1) simp
  then have "i * cs < length d" using bounds(1) by linarith
  then have "?s i \<noteq> []" using cs by simp
  then show "(i, ?s i) \<in> S" using f i whole [OF i] by auto
qed

lemma realm_after_removal:
  assumes wf: "wf_tree (tree w)" and plain: "plain_name tid" "plain_name sid" and dir: "lookup (tree w) (staging_dir c sid) = Some Dir"
    and t: "t = tree (snd (fs_remove_dir_all (staging_dir c sid) w))"
  shows "wf_tree t" "lookup t (realm_root c ty tid @ q) = lookup (tree w) (realm_root c ty tid @ q)"
proof -
  have "t = tree w \<or> t = remove_subtree (staging_dir c sid) (tree w)" using remove_staging [OF wf dir] t by auto
  then show "wf_tree t" "lookup t (realm_root c ty tid @ q) = lookup (tree w) (realm_root c ty tid @ q)"
    using wf wf_remove_subtree realm_not_staging(2) [OF plain] by (auto simp: lookup_remove_subtree)
qed

text \<open>
  C19. A chunked upload stores exactly the owner's file. Take a session started at a server where
  its identifier is fresh, any history of requests on it, and let everything the owner submitted
  be the right slice of the file \<open>d\<close>. If the completion is answered with success, every slice was
  submitted, the reported size is that of \<open>d\<close>, and any later download of the target path from
  the same tree returns \<open>d\<close>.
\<close>

theorem chunked_upload_end_to_end:
  fixes w0 w1 w2 w3 w4 :: "'z db_scheme"
  assumes ok: "crypto_ok C"
    and wf: "wf_tree (tree w0)" "lookup (tree w0) (chunks_dir c) = Some Dir"
    and fresh: "sid = uuids w0 (uuid_pos w0)" "plain_name sid" "lookup (tree w0) (staging_dir c sid) = None"
    and init: "init_upload c ps w0 = (Inr res, w1)"
    and limits: "max_upload_bytes c < 2 ^ 63" "max_upload_bytes c \<le> u32_max * chunk_size_bytes c"
      "0 < chunk_size_bytes c" "chunk_size_bytes c + 16 < 2 ^ 32"
    and session: "upload_session T c (ip_user_id ps) (ip_target_id ps) (ip_target_type ps) sid w1 w2 S"
    and slices: "length d = ip_total_bytes ps"
      "\<And>i x. (i, x) \<in> S \<Longrightarrow> x = take (chunk_size_bytes c) (drop (i * chunk_size_bytes c) d)"
    and finish: "complete_upload C E T c u (ip_user_id ps) (ip_target_id ps) (ip_target_type ps) sid v w2 = (Inr up, w3)"
    and realm: "plain_name (ip_target_id ps)"
      "lookup (tree w2) (realm_root c (ip_target_type ps) (ip_target_id ps)) = Some Dir"
      "\<And>q l. is_prefix (realm_root c (ip_target_type ps) (ip_target_id ps)) q \<Longrightarrow> lookup (tree w2) q \<noteq> Some (Link l)"
    and later: "tree w4 = tree w3" "calm w4"
  shows "(\<exists>dl. fst (download_any C E c u (ip_target_type ps) (ip_target_id ps) (ip_target_path ps) w4) = Inr dl \<and>
      dl_data dl = d) \<and> up_size up = length d \<and>
    (\<forall>i < unat (ip_total_chunks ps). (i, take (chunk_size_bytes c) (drop (i * chunk_size_bytes c) d)) \<in> S)"
proof -
  let ?cs = "chunk_size_bytes c" and ?n = "unat (ip_total_chunks ps)" and ?r = "realm_root c (ip_target_type ps) (ip_target_id ps)"
  let ?cp = "\<lambda>i. chunk_path c sid (word_of_nat i)"
  obtain row where row: "session_row sid (ip_target_type ps) w1 = Some row" "cu_user_id row = ip_user_id ps"
      "cu_target_id row = ip_target_id ps" "cu_target_path row = ip_target_path ps"
      "cu_total_chunks row = int ?n" "cu_total_bytes row = as_i64 (ip_total_bytes ps)"
    and st1: "staged c sid (tree w1) {}"
    and n: "expected_total_chunks (length d) ?cs = Some (ip_total_chunks ps)"
    and big: "?cs < length d" "length d \<le> max_upload_bytes c"
    using init_upload_Inr [OF wf fresh(2,3) [unfolded fresh(1)] init] fresh(1) slices(1) by auto
  have nn: "unat (word_of_int (cu_total_chunks row) :: 32 word) = ?n" by (simp add: row)
  have bytes: "as_u64 (cu_total_bytes row) = length d"
    using as_u64_i64 big(2) limits(1) slices(1) by (simp add: row)
  have st: "staged c sid (tree w2) S" "session_row sid (ip_target_type ps) w2 = Some row"
    using session_staged [OF session st1 row(1-3)] by auto
  obtain k and w5 w6 :: "'z db_scheme" where key: "realm_key u (ip_target_type ps) (ip_target_id ps) = Some k"
    and path: "ip_target_path ps \<noteq> []" and t5: "tree w5 = tree w2"
    and asm: "assemble_to C E ?r k (ip_target_path ps) (map ?cp [0..<?n]) (length d) v w5 = (Inr up, w6)"
    and gone: "tree w3 = tree (snd (fs_remove_dir_all (staging_dir c sid) w6))"
    and chunks: "\<And>i. i < ?n \<Longrightarrow> \<exists>x. lookup (tree w2) (?cp i) = Some (Reg x) \<and> (x = [] \<or> (i, x) \<in> S)"
    by (rule complete_upload_Inr [OF st finish, unfolded nn bytes row(4)]) (rule that)
  obtain f where f: "\<And>i. i < ?n \<Longrightarrow> lookup (tree w2) (?cp i) = Some (Reg (f i)) \<and> (f i = [] \<or> (i, f i) \<in> S)"
    using chunks by metis
  have wf2: "wf_tree (tree w2)" using st(1) by (simp add: staged_def)
  have root: "canon_path (tree w5) ?r = Inr ?r" using canon_path_canon [OF wf2 canon_dir] realm(2) t5 by simp
  have outside: "\<not> is_prefix ?r (?cp i)" for i
    using realm_not_staging [OF realm(1) fresh(2)] by (simp add: chunk_path_name)
  have "list_all2 (\<lambda>p x. \<not> is_prefix ?r p \<and> lookup (tree w5) p = Some (Reg x)) (map ?cp [0..<?n]) (map f [0..<?n])"
    using f outside t5 by (simp add: list_all2_conv_all_nth)
  note asm' = assemble_to_Inr [OF _ asm root this]
  obtain target blob w7 where j: "safe_join ?r (ip_target_path ps) w5 = (Inr target, w7)"
    and blob: "stream_of C k (map f [0..<?n]) blob" and lk: "lookup (tree w6) target = Some (Reg blob)"
    and w6: "grows (tree w5) (tree w6)" "wf_tree (tree w6)" "length d = length (concat (map f [0..<?n]))"
    and up: "up_size up = length d" by (rule asm') (use wf2 t5 that in simp_all)
  have "?n = (length d + ?cs - 1) div ?cs" "0 < length d"
    using expected_total_value [OF limits(3) _ _ n] big limits by linarith+
  moreover have "\<forall>i<?n. f i = [] \<or> (i, f i) \<in> S" "\<forall>i x. (i, x) \<in> S \<longrightarrow> x = take ?cs (drop (i * ?cs) d)"
    using f slices(2) by blast+
  ultimately have parts: "concat (map f [0..<?n]) = d" "\<And>i. i < ?n \<Longrightarrow> f i = take ?cs (drop (i * ?cs) d)"
    "\<And>i. i < ?n \<Longrightarrow> (i, take ?cs (drop (i * ?cs) d)) \<in> S"
    using slices_whole [OF limits(3) _ _ w6(3)] by blast+
  have path_ok: "path_ok (ip_target_path ps)" and target: "target = ?r @ split_on either_sep (ip_target_path ps)"
    using safe_join_result [OF j _ root] wf2 realm(3) t5 by auto
  have "lookup (tree w6) (staging_dir c sid) = Some Dir"
    using st(1) w6(1) t5 by (fastforce simp: staged_def grows_def)
  note kept = realm_after_removal [OF w6(2) realm(1) fresh(2) this gone]
  have "wf_tree (tree w4)" "lookup (tree w4) (?r @ split_on either_sep (ip_target_path ps)) = Some (Reg blob)"
    using kept lk target by (simp_all add: later)
  moreover have "lookup (tree w4) ?r = Some Dir"
    using kept(2) [of "ip_target_type ps" "[]"] w6(1) realm(2) t5 by (fastforce simp: grows_def later)
  moreover have "length (f i) + 16 < 2 ^ 32" if "i < ?n" for i using parts(2) [OF that] limits(4) by simp
  then have "read_bytes C k blob = Inr d" using stream_read [OF ok blob] parts(1) by simp
  ultimately have "\<exists>dl. fst (download_any C E c u (ip_target_type ps) (ip_target_id ps) (ip_target_path ps) w4) = Inr dl \<and>
      dl_data dl = d"
    using stored_download [OF _ later(2) _ key path path_ok] by blast
  then show ?thesis using parts(3) up by blast
qed

lemma as_i64_code [code]: "as_i64 n = (let i = int n in if i < 2 ^ 63 then i else i - 2 ^ 64)"
  by (simp add: as_i64_def Let_def)

lemma sat_mul64_code [code]: "sat_mul64 a b = nat (min (int a * int b) (2 ^ 64 - 1))"
  by (auto simp: sat_mul64_def u64_max_def min_def nat_mult_distrib simp flip: of_nat_mult)

lemma sat_add32_code [code]: "sat_add32 a b = nat (min (int a + int b) (2 ^ 32 - 1))"
  by (simp add: sat_add32_def u32_max_def)

lemma format_bytes_code [code]: "format_bytes n =
    (let b = int n in
     if b \<ge> 2 ^ 40 \<and> b mod 2 ^ 40 = 0 then show_nat (nat (b div 2 ^ 40)) @ '' TiB''
     else if b \<ge> 2 ^ 30 \<and> b mod 2 ^ 30 = 0 then show_nat (nat (b div 2 ^ 30)) @ '' GiB''
     else if b \<ge> 2 ^ 20 \<and> b mod 2 ^ 20 = 0 then show_nat (nat (b div 2 ^ 20)) @ '' MiB''
     else if b \<ge> 2 ^ 10 \<and> b mod 2 ^ 10 = 0 then show_nat (nat (b div 2 ^ 10)) @ '' KiB''
     else show_nat n @ '' B'')"
proof -
  have le: "numeral m \<le> int n \<longleftrightarrow> numeral m \<le> n"
    and md: "int n mod numeral m = 0 \<longleftrightarrow> n mod numeral m = 0"
    and dv: "nat (int n div numeral m) = n div numeral m" for m
    using of_nat_mod [of n "numeral m", where ?'a = int] of_nat_div [of n "numeral m", where ?'a = int] by auto
  show ?thesis by (simp add: format_bytes_def Let_def le md dv)
qed

text \<open>A server with an empty library and a file of three bytes, sent in chunks of two.\<close>

definition small_config :: app_config where
  "small_config = toy_config\<lparr>chunk_size_bytes := 2, max_upload_bytes := 10, chunk_upload_expiry_hours := 0\<rparr>"

definition empty_server :: "db" where
  "empty_server = (server [([''srv''], Dir), ([''srv'', ''libraries''], Dir), ([''srv'', ''libraries'', ''L''], Dir),
     ([''srv'', ''.chunks''], Dir)] no_tables)\<lparr>clock := 0, datetime_text := \<lambda>_. [], parse_datetime := \<lambda>_. Some 1,
     tb := no_tables\<lparr>t_users := [\<lparr>u_id = ''alice'',
       u_username = ''alice'', u_email = [], u_role = ''user'', u_quota_bytes = 0, u_is_active = True,
       u_setup_complete = True, u_created_at = [], u_updated_at = [], u_password_hash = []\<rparr>]\<rparr>\<rparr>"

definition small_file :: init_upload_params where
  "small_file = \<lparr>ip_user_id = ''alice'', ip_target_id = ''L'', ip_target_type = ''library'', ip_target_path = ''f'',
     ip_total_chunks = 2, ip_total_bytes = 3, ip_checksum_sha256 = None\<rparr>"

definition small_sent :: "db" where
  "small_sent = (let T = toy_tools toy_payload; send = receive_chunk T small_config ''alice'' ''L'' ''library'' ''0'' in
     snd (send 0 [1, 2] (snd (send 1 [3] (snd (init_upload small_config small_file empty_server))))))"

theorem chunked_upload_end_to_end_witness:
  "let r = complete_upload toy_crypto toy_ext (toy_tools toy_payload) small_config toy_keys ''alice'' ''L'' ''library''
         ''0'' False small_sent
   in (\<exists>dl. fst (download_any toy_crypto toy_ext small_config toy_keys ''library'' ''L'' ''f''
         (server (tree (snd r)) no_tables)) = Inr dl \<and> dl_data dl = [1, 2, 3])"
proof -
  let ?T = "toy_tools toy_payload"
  let ?send = "receive_chunk ?T small_config ''alice'' ''L'' ''library'' ''0''"
  let ?init = "init_upload small_config small_file"
  let ?done = "complete_upload toy_crypto toy_ext ?T small_config toy_keys ''alice'' ''L'' ''library'' ''0'' False"
  let ?S = "{(0, [1, 2]), (1, [3])} :: (nat \<times> byte list) set"
  have "\<not> isl (fst (?init empty_server))" "\<not> isl (fst (?done small_sent))" by code_simp+
  then obtain res up where init: "?init empty_server = (Inr res, snd (?init empty_server))"
    and fin: "?done small_sent = (Inr up, snd (?done small_sent))"
    by (metis prod.collapse sum.collapse(2))
  have "upload_session ?T small_config ''alice'' ''L'' ''library'' ''0'' (snd (?init empty_server)) small_sent
      (insert (unat (0 :: 32 word), [1, 2]) (insert (unat (1 :: 32 word), [3]) {}))"
    unfolding small_sent_def Let_def
    by (rule submitted, rule submitted, rule started) (rule prod.collapse [symmetric])+
  then have session: "upload_session ?T small_config (ip_user_id small_file) (ip_target_id small_file)
      (ip_target_type small_file) ''0'' (snd (?init empty_server)) small_sent ?S"
    by (simp add: small_file_def)
  have "plain_name (uuids empty_server (uuid_pos empty_server))" "uuids empty_server (uuid_pos empty_server) = ''0''"
    by code_simp+
  then have sid: "''0'' = uuids empty_server (uuid_pos empty_server)" "plain_name ''0''" by simp_all
  have wf: "wf_tree (tree empty_server)" by (simp add: empty_server_def) (rule wf_treeI, code_simp)
  have dirs: "lookup (tree empty_server) (chunks_dir small_config) = Some Dir"
    "lookup (tree empty_server) (staging_dir small_config ''0'') = None"
    "lookup (tree small_sent) (realm_root small_config ''library'' ''L'') = Some Dir" "plain_name ''L''"
    by code_simp+
  have "list_all (\<lambda>(p, i). \<forall>l \<in> set (case i of Link l \<Rightarrow> [l] | _ \<Rightarrow> []). False) (tree small_sent)" by code_simp
  then have "i \<noteq> Link l" if "(q, i) \<in> set (tree small_sent)" for q i l
    using that by (auto simp: list_all_iff)
  then have free: "lookup (tree small_sent) q \<noteq> Some (Link l)" for q l
    by (auto simp: lookup_def dest: map_of_SomeD)
  have slice: "x = take (chunk_size_bytes small_config) (drop (i * chunk_size_bytes small_config) [1, 2, 3])"
    if "(i, x) \<in> ?S" for i x using that by (auto simp: small_config_def)
  have "\<exists>dl. fst (download_any toy_crypto toy_ext small_config toy_keys (ip_target_type small_file)
      (ip_target_id small_file) (ip_target_path small_file) (server (tree (snd (?done small_sent))) no_tables)) = Inr dl \<and>
      dl_data dl = [1, 2, 3]"
    by (rule chunked_upload_end_to_end [OF toy_crypto_ok wf dirs(1) sid dirs(2) init _ _ _ _ session _ slice _ _ _ free,
          THEN conjunct1])
      (use fin dirs in \<open>simp_all add: small_config_def small_file_def u32_max_def toy_config_def\<close>)
  then show ?thesis by (simp add: small_file_def Let_def)
qed

end
