(* ===== verification/RateLimit.thy ===== *)
theory RateLimit
  imports Prelude
begin

text \<open>
  The in-memory rate limiter (\<open>src/src/services/rate_limit.rs\<close>). An \<open>Instant\<close> is a number of
  nanoseconds; \<open>duration_since\<close> saturates at zero, as subtraction on \<open>nat\<close> does. Counters are
  \<open>u32\<close>.
\<close>

section \<open>State and operation\<close>

type_synonym limiter = "string \<rightharpoonup> 32 word \<times> nat"

definition new_limiter :: limiter where
  "new_limiter = Map.empty"

definition as_secs :: "nat \<Rightarrow> nat" where
  "as_secs d = d div 1000000000"

definition check :: "limiter \<Rightarrow> string \<Rightarrow> 32 word \<Rightarrow> nat \<Rightarrow> nat \<Rightarrow> bool \<times> limiter" where
  "check attempts key max_attempts window_secs now =
     (let (count, start) = (case attempts key of None \<Rightarrow> (0, now) | Some e \<Rightarrow> e)
      in if as_secs (now - start) > window_secs then (True, attempts(key \<mapsto> (1, now)))
         else if count < max_attempts then (True, attempts(key \<mapsto> (count + 1, start)))
         else (False, attempts(key \<mapsto> (count, start))))"

text \<open>A run of requests (key, time); the answers in order.\<close>

fun run_checks :: "limiter \<Rightarrow> 32 word \<Rightarrow> nat \<Rightarrow> (string \<times> nat) list \<Rightarrow> bool list" where
  "run_checks a m win [] = []"
| "run_checks a m win ((k, t) # rs) = (let (b, a') = check a k m win t in b # run_checks a' m win rs)"

text \<open>How many requests for \<open>key\<close> were let through.\<close>

fun granted :: "string \<Rightarrow> (string \<times> nat) list \<Rightarrow> bool list \<Rightarrow> nat" where
  "granted key ((k, t) # rs) (b # bs) = (if k = key \<and> b then 1 else 0) + granted key rs bs"
| "granted key _ _ = 0"

section \<open>How many requests pass\<close>

lemma check_other: "k \<noteq> key \<Longrightarrow> snd (check a k m win t) key = a key"
  by (auto simp: check_def Let_def split: option.splits prod.splits)

lemma unat_Suc_lt: "(c :: 32 word) < m \<Longrightarrow> unat (c + 1) = unat c + 1"
  using unsigned_less [of m, where ?'a = nat]
  by (simp add: unat_word_ariths word_less_nat_alt)

text \<open>While the window of a key cannot end, at most its remaining budget passes.\<close>

lemma granted_same_window:
  "\<lbrakk>a key = Some (c, s); \<forall>(k, t) \<in> set rs. as_secs (t - s) \<le> win\<rbrakk>
   \<Longrightarrow> granted key rs (run_checks a m win rs) \<le> unat m - unat c"
proof (induction rs arbitrary: a c)
  case (Cons r rs)
  obtain k t where r: "r = (k, t)" by fastforce
  show ?case
  proof (cases "k = key")
    case False
    then have "snd (check a k m win t) key = Some (c, s)" using check_other Cons.prems by metis
    then show ?thesis
      using Cons.IH [of "snd (check a k m win t)" c] Cons.prems(2) r False by (auto simp: case_prod_beta Let_def)
  next
    case True
    have fresh: "\<not> as_secs (t - s) > win" using Cons.prems(2) r by auto
    show ?thesis
    proof (cases "c < m")
      case lt: True
      have "check a k m win t = (True, a(key \<mapsto> (c + 1, s)))"
        using fresh lt True Cons.prems(1) by (simp add: check_def Let_def)
      moreover have "granted key rs (run_checks (a(key \<mapsto> (c + 1, s))) m win rs) \<le> unat m - unat (c + 1)"
        by (rule Cons.IH) (use Cons.prems(2) r in auto)
      ultimately show ?thesis
        using r True unat_Suc_lt [OF lt] lt by (simp add: word_less_nat_alt)
    next
      case ge: False
      have "check a k m win t = (False, a(key \<mapsto> (c, s)))"
        using fresh ge True Cons.prems(1) by (simp add: check_def Let_def)
      moreover have "granted key rs (run_checks (a(key \<mapsto> (c, s))) m win rs) \<le> unat m - unat c"
        by (rule Cons.IH) (use Cons.prems(2) r in auto)
      ultimately show ?thesis using r True by simp
    qed
  qed
qed simp

definition budget :: "limiter \<Rightarrow> string \<Rightarrow> 32 word \<Rightarrow> nat" where
  "budget a key m = (case a key of None \<Rightarrow> 0 | Some (c, s) \<Rightarrow> unat m - unat c)"

lemma granted_window:
  "\<lbrakk>0 < m; \<forall>(k, t) \<in> set rs. t0 \<le> t \<and> as_secs (t - t0) \<le> win\<rbrakk>
   \<Longrightarrow> granted key rs (run_checks a m win rs) \<le> budget a key m + unat m"
proof (induction rs arbitrary: a)
  case (Cons r rs)
  obtain k t where r: "r = (k, t)" by fastforce
  have m: "1 \<le> unat m" using Cons.prems(1) by (simp add: word_less_nat_alt)
  have later: "as_secs (t' - t) \<le> win" if "(k', t') \<in> set rs" for k' t'
  proof -
    have "as_secs (t' - t0) \<le> win" "t0 \<le> t" using Cons.prems(2) r that by auto
    moreover have "as_secs (t' - t) \<le> as_secs (t' - t0)"
      using \<open>t0 \<le> t\<close> by (simp add: as_secs_def div_le_mono)
    ultimately show ?thesis by simp
  qed
  have new: "granted key rs (run_checks (a(key \<mapsto> (1, t))) m win rs) \<le> unat m - 1"
    using granted_same_window [of "a(key \<mapsto> (1, t))" key 1 t rs win m] later by auto
  show ?case
  proof (cases "k = key")
    case False
    then have "budget (snd (check a k m win t)) key m = budget a key m"
      using check_other [OF False] by (simp add: budget_def)
    then show ?thesis
      using Cons.IH [OF Cons.prems(1), of "snd (check a k m win t)"] Cons.prems(2) r False
      by (auto simp: case_prod_beta Let_def)
  next
    case key: True
    show ?thesis
    proof (cases "a key")
      case None
      then have "check a k m win t = (True, a(key \<mapsto> (1, t)))"
        using key Cons.prems(1) by (simp add: check_def as_secs_def)
      then show ?thesis using new r key m by (simp add: Let_def budget_def None)
    next
      case (Some e)
      then obtain c s where e: "a key = Some (c, s)" by (cases e) auto
      consider (expired) "as_secs (t - s) > win" | (allowed) "\<not> as_secs (t - s) > win" "c < m"
        | (denied) "\<not> as_secs (t - s) > win" "\<not> c < m" by blast
      then show ?thesis
      proof cases
        case expired
        then have "check a k m win t = (True, a(key \<mapsto> (1, t)))"
          using key e by (simp add: check_def)
        then show ?thesis using new r key m by (simp add: Let_def)
      next
        case allowed
        then have "check a k m win t = (True, a(key \<mapsto> (c + 1, s)))"
          using key e by (simp add: check_def)
        moreover have "granted key rs (run_checks (a(key \<mapsto> (c + 1, s))) m win rs)
            \<le> budget (a(key \<mapsto> (c + 1, s))) key m + unat m"
          by (rule Cons.IH) (use Cons.prems r in auto)
        ultimately show ?thesis
          using r key unat_Suc_lt [OF allowed(2)] allowed(2) e
          by (simp add: budget_def word_less_nat_alt)
      next
        case denied
        then have "check a k m win t = (False, a(key \<mapsto> (c, s)))"
          using key e by (simp add: check_def)
        moreover have "granted key rs (run_checks (a(key \<mapsto> (c, s))) m win rs)
            \<le> budget (a(key \<mapsto> (c, s))) key m + unat m"
          by (rule Cons.IH) (use Cons.prems r in auto)
        ultimately show ?thesis using r key e by (simp add: budget_def)
      qed
    qed
  qed
qed simp

text \<open>Requests under other keys do not matter.\<close>

lemma granted_own_key:
  "a key = b key \<Longrightarrow> granted key rs (run_checks a m win rs) =
     granted key (filter (\<lambda>(k, t). k = key) rs) (run_checks b m win (filter (\<lambda>(k, t). k = key) rs))"
proof (induction rs arbitrary: a b)
  case (Cons r rs)
  obtain k t where r: "r = (k, t)" by fastforce
  show ?case
  proof (cases "k = key")
    case False
    then show ?thesis
      using Cons.IH [of "snd (check a k m win t)" b] check_other [OF False, of a m win t] Cons.prems r
      by (simp add: case_prod_beta Let_def)
  next
    case True
    have "fst (check a k m win t) = fst (check b k m win t)"
      "snd (check a k m win t) key = snd (check b k m win t) key"
      using Cons.prems True by (auto simp: check_def Let_def split: option.splits prod.splits)
    then show ?thesis
      using Cons.IH [of "snd (check a k m win t)" "snd (check b k m win t)"] r True
      by (simp add: case_prod_beta Let_def)
  qed
qed simp

text \<open>
  C10. In any period of the window's length at most twice the limit passes for one key, at most
  the limit if the key was not known before, and requests under other keys do not change how
  many pass.
\<close>

theorem rate_limit_bound:
  assumes "0 < m" "\<forall>(k, t) \<in> set rs. t0 \<le> t \<and> as_secs (t - t0) \<le> win"
  shows "granted key rs (run_checks a m win rs) \<le> 2 * unat m \<and>
    (a key = None \<longrightarrow> granted key rs (run_checks a m win rs) \<le> unat m) \<and>
    granted key rs (run_checks a m win rs) =
      granted key (filter (\<lambda>(k, t). k = key) rs) (run_checks a m win (filter (\<lambda>(k, t). k = key) rs))"
proof -
  have "budget a key m \<le> unat m" "a key = None \<Longrightarrow> budget a key m = 0"
    by (auto simp: budget_def split: option.splits)
  then show ?thesis
    using granted_window [OF assms, of key a] granted_own_key [of a key a rs m win] by fastforce
qed

text \<open>
  The windows are fixed, not sliding: with two attempts per 60 seconds, three pass within one
  second around the end of a window.
\<close>

theorem rate_limit_bound_witness:
  "let a = snd (check new_limiter ''ip'' 2 60 0);
       burst = [(''ip'', 60000000000), (''ip'', 61000000000), (''ip'', 61000000000), (''ip'', 61000000000)]
   in granted ''ip'' burst (run_checks a 2 60 burst) = 3 \<and>
      granted ''ip'' burst (run_checks a 2 60 burst) \<le> 4"
proof -
  let ?a = "snd (check new_limiter ''ip'' 2 60 0)"
  let ?b = "[(''ip'', 60000000000), (''ip'', 61000000000), (''ip'', 61000000000), (''ip'', 61000000000)]"
  have "granted ''ip'' ?b (run_checks ?a 2 60 ?b) = 3"
    by (simp add: check_def new_limiter_def as_secs_def)
  moreover have "granted ''ip'' ?b (run_checks ?a 2 60 ?b) \<le> 2 * unat (2 :: 32 word)"
    using rate_limit_bound [of 2 ?b 60000000000 60 "''ip''" ?a] by (simp add: as_secs_def)
  ultimately show ?thesis by (simp add: Let_def)
qed

end
