(* ===== verification/Tables.thy ===== *)
theory Tables
  imports Db
begin

text \<open>
  The constraints of \<open>src/migrations/\<close> as an invariant of the tables, and how statements keep it:
  the primary keys, the UNIQUE columns and the REFERENCES clauses of every table.
\<close>

section \<open>The constraints\<close>

definition member_key :: "group_member \<Rightarrow> string \<times> string" where
  "member_key m = (gm_group_id m, gm_user_id m)"

definition access_key :: "space_access \<Rightarrow> string \<times> string \<times> string" where
  "access_key a = (sa_space_id a, sa_grantee_type a, sa_grantee_id a)"

definition user_ids :: "tables \<Rightarrow> string set" where
  "user_ids t = u_id ` set (t_users t)"

definition group_ids :: "tables \<Rightarrow> string set" where
  "group_ids t = g_id ` set (t_groups t)"

definition space_ids :: "tables \<Rightarrow> string set" where
  "space_ids t = s_id ` set (t_spaces t)"

definition users_ok :: "tables \<Rightarrow> bool" where
  "users_ok t = (distinct (map u_id (t_users t)) \<and> distinct (map u_username (t_users t)) \<and>
     distinct (map u_email (t_users t)))"

definition libraries_ok :: "tables \<Rightarrow> bool" where
  "libraries_ok t = (distinct (map pl_id (t_libraries t)) \<and> distinct (map pl_user_id (t_libraries t)) \<and>
     pl_user_id ` set (t_libraries t) \<subseteq> user_ids t)"

definition groups_ok :: "tables \<Rightarrow> bool" where
  "groups_ok t = (distinct (map g_id (t_groups t)) \<and> distinct (map g_name (t_groups t)) \<and>
     g_created_by ` set (t_groups t) \<subseteq> user_ids t)"

definition members_ok :: "tables \<Rightarrow> bool" where
  "members_ok t = (distinct (map member_key (t_group_members t)) \<and>
     gm_group_id ` set (t_group_members t) \<subseteq> group_ids t \<and>
     gm_user_id ` set (t_group_members t) \<subseteq> user_ids t)"

definition spaces_ok :: "tables \<Rightarrow> bool" where
  "spaces_ok t = (distinct (map s_id (t_spaces t)) \<and> distinct (map access_key (t_space_access t)) \<and>
     sa_space_id ` set (t_space_access t) \<subseteq> space_ids t)"

definition sessions_ok :: "tables \<Rightarrow> bool" where
  "sessions_ok t = (distinct (map se_id (t_sessions t)) \<and> distinct (map se_token_hash (t_sessions t)) \<and>
     se_user_id ` set (t_sessions t) \<subseteq> user_ids t)"

definition uploads_ok :: "tables \<Rightarrow> bool" where
  "uploads_ok t = (distinct (map cu_id (t_uploads t)) \<and> cu_user_id ` set (t_uploads t) \<subseteq> user_ids t)"

definition tables_ok :: "tables \<Rightarrow> bool" where
  "tables_ok t = (users_ok t \<and> libraries_ok t \<and> groups_ok t \<and> members_ok t \<and> spaces_ok t \<and>
     sessions_ok t \<and> uploads_ok t \<and> distinct (map ie_id (t_events t)) \<and> distinct (map fst (t_config t)))"

lemmas table_ids = user_ids_def group_ids_def space_ids_def
lemmas table_parts = users_ok_def libraries_ok_def groups_ok_def members_ok_def spaces_ok_def
  sessions_ok_def uploads_ok_def
lemmas tables_ok_defs = tables_ok_def table_parts table_ids

lemma no_tables_ok: "tables_ok no_tables"
  by (simp add: tables_ok_defs no_tables_def)

section \<open>Rows of a table\<close>

lemma map_update_where:
  assumes "\<And>r. g (f r) = g r"
  shows "map g (update_where P f rows) = map g rows"
  using assms by (simp add: update_where_def)

lemma image_update_where:
  assumes "\<And>r. g (f r) = g r"
  shows "g ` set (update_where P f rows) = g ` set rows"
  using map_update_where [of g f P rows] assms by (metis list.set_map)

lemma distinct_map_filter_rows: "distinct (map g rows) \<Longrightarrow> distinct (map g (filter P rows))"
  by (induction rows) auto

lemma distinct_update_unique:
  assumes "distinct (map k rows)" "distinct (map g rows)" "\<And>r. r \<in> set rows \<Longrightarrow> k r \<noteq> i \<Longrightarrow> g r \<noteq> v" "\<And>r. g (f r) = v"
  shows "distinct (map g (update_where (\<lambda>r. k r = i) f rows))"
  using assms
proof (induction rows)
  case (Cons r rows)
  have none: "update_where (\<lambda>r. k r = i) f rows = rows" if "k r = i"
    using Cons.prems(1) that by (auto simp: update_where_def image_iff intro!: map_idI)
  have "g r \<notin> g ` set (update_where (\<lambda>r. k r = i) f rows)" if "k r \<noteq> i"
    using Cons.prems that by (auto simp: update_where_def image_iff)
  moreover have "g x \<noteq> v" if "k r = i" "x \<in> set rows" for x
    using Cons.prems(1) Cons.prems(3) [of x] that by (auto simp: image_iff)
  moreover have "distinct (map g (update_where (\<lambda>r. k r = i) f rows))" using Cons by simp
  ultimately show ?case using none Cons.prems(2,4) by (cases "k r = i") (auto simp: update_where_def)
qed (simp add: update_where_def)

lemma key_unique: "distinct (map g rows) \<Longrightarrow> r \<in> set rows \<Longrightarrow> r' \<in> set rows \<Longrightarrow> g r = g r' \<Longrightarrow> r = r'"
  by (induction rows) (auto simp: image_iff)

lemma find_by_key: "distinct (map g rows) \<Longrightarrow> r \<in> set rows \<Longrightarrow> List.find (\<lambda>x. g x = g r) rows = Some r"
  by (induction rows) (auto simp: image_iff)

lemma find_Some_mem: "List.find P rows = Some r \<Longrightarrow> r \<in> set rows \<and> P r"
  by (induction rows) (auto split: if_splits)

lemma find_some_iff: "List.find P rows \<noteq> None \<longleftrightarrow> (\<exists>r \<in> set rows. P r)"
  by (induction rows) auto

lemma find_snoc: "List.find P (xs @ [x]) = (case List.find P xs of Some y \<Rightarrow> Some y | None \<Rightarrow> if P x then Some x else None)"
  by (induction xs) auto

lemma update_where_none: "\<forall>r \<in> set rows. \<not> P r \<Longrightarrow> update_where P f rows = rows"
  by (auto simp: update_where_def intro!: map_idI)

lemma find_last: "\<forall>r \<in> set rows. \<not> P r \<Longrightarrow> P x \<Longrightarrow> List.find P (rows @ [x]) = Some x"
  by (induction rows) auto

lemma find_filter_in: "(\<And>x. P x \<Longrightarrow> Q x) \<Longrightarrow> List.find P (filter Q xs) = List.find P xs"
  by (induction xs) auto

lemma find_filter_out: "(\<And>x. P x \<Longrightarrow> \<not> Q x) \<Longrightarrow> List.find P (filter Q xs) = None"
  by (induction xs) auto

lemma count_where_0: "count_where P rows = 0 \<longleftrightarrow> (\<forall>r \<in> set rows. \<not> P r)"
  by (auto simp: count_where_def filter_empty_conv)

lemma set_update_where: "set (update_where P f rows) = (\<lambda>r. if P r then f r else r) ` set rows"
  by (simp add: update_where_def)

section \<open>Preservation\<close>

definition keeps_ok :: "'z db_scheme \<Rightarrow> 'z db_scheme \<Rightarrow> bool" where
  "keeps_ok w w' = (tables_ok (tb w) \<longrightarrow> tables_ok (tb w'))"

interpretation keeps_ok: frame_rel keeps_ok
  by unfold_locales (auto simp: keeps_ok_def)

lemma keeps_ok_same: "keeps same_db m \<Longrightarrow> keeps keeps_ok m"
  by (auto simp: keeps_def same_db_def keeps_ok_def)

lemma keeps_ok_exec:
  assumes "\<And>now t n t'. tables_ok t \<Longrightarrow> f now t = Inr (n, t') \<Longrightarrow> tables_ok t'"
  shows "keeps keeps_ok (exec f)"
  using assms by (auto simp: keeps_def keeps_ok_def exec_def split: option.splits sum.splits)

lemma keeps_ok_exec_returning:
  assumes "\<And>now t x t'. tables_ok t \<Longrightarrow> f now t = Inr (x, t') \<Longrightarrow> tables_ok t'"
  shows "keeps keeps_ok (exec_returning f)"
  using assms by (auto simp: keeps_def keeps_ok_def exec_returning_def split: option.splits sum.splits)

lemma keeps_sqlx: "keeps R m \<Longrightarrow> keeps R (sqlx m)"
  by (simp add: keeps_def)

lemma same_db_sqlx_select: "keeps same_db (sqlx (select g))"
  by (intro same_db_rules)

lemma tb_modify_os [simp]: "keeps same_db (gets f)"
  by (rule same_db.keeps_gets)

lemmas keeps_ok_rules = keeps_ok.keeps_rules keeps_sqlx keeps_ok_same [OF same_db_select]
  keeps_ok_same [OF same_db_new_uuid] keeps_ok_same [OF same_db_fill_bytes] keeps_ok_same [OF same_db_syscall]
  keeps_ok_same [OF same_db_query] keeps_ok_same [OF same_db_mutate]

section \<open>Running statements\<close>

text \<open>One case per outcome; with these an operation unfolds to the cases of its run.\<close>

lemma run_select:
  "sqlx (select g) w = (case faults w (ticks w) of Some m \<Rightarrow> (Inl (Sqlx (SqlOther m)), tick w)
     | None \<Rightarrow> (Inr (g (tb w)), tick w))"
  by (simp add: sqlx_def map_err_def select_def split: option.splits)

lemma bind_select:
  "bind (sqlx (select g)) k w = (case faults w (ticks w) of Some m \<Rightarrow> (Inl (Sqlx (SqlOther m)), tick w)
     | None \<Rightarrow> k (g (tb w)) (tick w))"
  by (simp add: bind_def run_select split: option.splits)

lemma bind_exec:
  "bind (map_err h (exec f)) k w = (case faults w (ticks w) of Some m \<Rightarrow> (Inl (h (SqlOther m)), tick w)
     | None \<Rightarrow> (case f (datetime_text w (clock w)) (tb w) of Inl e \<Rightarrow> (Inl (h e), tick w)
         | Inr (n, t) \<Rightarrow> k n (tick (w\<lparr>tb := t\<rparr>))))"
  by (simp add: bind_def map_err_def exec_def split: option.splits sum.splits prod.splits)

lemma bind_uuid: "bind new_uuid k w = k (uuids w (uuid_pos w)) (w\<lparr>uuid_pos := Suc (uuid_pos w)\<rparr>)"
  by (simp add: bind_def new_uuid_def)

lemma bind_assoc: "bind (bind m k) h = bind m (\<lambda>x. bind (k x) h)"
  by (rule ext) (simp add: bind_def split: prod.splits sum.splits)

lemma bind_sqlx_exec: "bind (sqlx (exec f)) = bind (map_err Sqlx (exec f))"
  by (simp add: sqlx_def)

lemmas run_rules = bind_select run_select bind_exec bind_uuid bind_assoc bind_sqlx_exec

subsection \<open>Reading actions\<close>

text \<open>
  \<open>reads f m\<close>: the action \<open>m\<close> computes \<open>f\<close> of the tables and changes nothing; only the
  environment can make it fail otherwise. It turns a chain of queries and checks into a function
  of the tables.
\<close>

definition same_world :: "'z db_scheme \<Rightarrow> 'z db_scheme \<Rightarrow> bool" where
  "same_world w w' = (tb w' = tb w \<and> clock w' = clock w \<and> datetime_text w' = datetime_text w \<and>
     parse_datetime w' = parse_datetime w \<and> tree w' = tree w \<and> faults w' = faults w \<and>
     uuids w' = uuids w \<and> uuid_pos w' = uuid_pos w)"

lemma same_world_calm: "same_world w w' \<Longrightarrow> calm w' = calm w"
  by (simp add: same_world_def calm_def)

definition reads :: "(tables \<Rightarrow> 'e + 'a) \<Rightarrow> ('z db_scheme, 'e, 'a) act \<Rightarrow> bool" where
  "reads f m = (\<forall>w. same_world w (snd (m w)) \<and> (fst (m w) = f (tb w) \<or> (\<not> calm w \<and> isl (fst (m w)))))"

definition then_read :: "(tables \<Rightarrow> 'e + 'a) \<Rightarrow> ('a \<Rightarrow> tables \<Rightarrow> 'e + 'b) \<Rightarrow> tables \<Rightarrow> 'e + 'b" where
  "then_read f g t = (case f t of Inl e \<Rightarrow> Inl e | Inr x \<Rightarrow> g x t)"

lemma reads_select: "reads (\<lambda>t. Inr (g t)) (sqlx (select g))"
  by (auto simp: reads_def same_world_def run_select calm_def tick_def split: option.splits)

lemma reads_pure:
  "reads (\<lambda>t. Inr x) (ret x)" "reads (\<lambda>t. Inl e) (throw e)" "reads (\<lambda>t. r) (lift r)"
  "reads (\<lambda>t. if b then Inl e else Inr ()) (reject_if b e)"
  "reads (\<lambda>t. case found of None \<Rightarrow> Inl e | Some x \<Rightarrow> Inr x) (ok_or e found)"
  by (auto simp: reads_def same_world_def split: option.splits)

lemma reads_run:
  assumes "reads f m" "m w = (r, w')"
  shows "same_world w w'" "r = f (tb w) \<or> (\<not> calm w \<and> isl r)"
  using assms by (auto simp: reads_def dest: spec [of _ w])

lemma reads_bind:
  assumes m: "reads f m" and k: "\<And>x. reads (g x) (k x)"
  shows "reads (then_read f g) (bind m k)"
  unfolding reads_def
proof
  fix w
  obtain r w1 where run: "m w = (r, w1)" by fastforce
  note 1 = reads_run [OF m run]
  show "same_world w (snd (bind m k w)) \<and>
      (fst (bind m k w) = then_read f g (tb w) \<or> (\<not> calm w \<and> isl (fst (bind m k w))))"
  proof (cases r)
    case (Inl e)
    then show ?thesis using 1 run by (auto simp: bind_def then_read_def split: sum.splits)
  next
    case (Inr x)
    obtain r2 w2 where run2: "k x w1 = (r2, w2)" by fastforce
    have "bind m k w = (r2, w2)" using run run2 Inr by (simp add: bind_def)
    moreover have "then_read f g (tb w) = g x (tb w)" using 1(2) Inr by (auto simp: then_read_def split: sum.splits)
    moreover have "same_world w w2" using 1(1) reads_run(1) [OF k run2] by (simp add: same_world_def)
    moreover have "tb w1 = tb w" using 1(1) by (simp add: same_world_def)
    ultimately show ?thesis
      using reads_run(2) [OF k run2] same_world_calm [OF 1(1)] by auto
  qed
qed

lemma reads_if: "(b \<Longrightarrow> reads f m) \<Longrightarrow> (\<not> b \<Longrightarrow> reads g n) \<Longrightarrow> reads (if b then f else g) (if b then m else n)"
  by simp

lemmas reads_rules = reads_select reads_pure reads_bind reads_if

lemma reads_eq: "reads f m \<Longrightarrow> f = g \<Longrightarrow> reads g m"
  by simp

subsection \<open>Writing actions\<close>

text \<open>
  \<open>implements F m\<close>: with \<open>now\<close> the time and \<open>i\<close> the next fresh identifier, \<open>m\<close> computes
  \<open>F now i\<close> of the tables: the result and the tables after. When the environment makes a
  statement fail, the result is an error and the tables are those before or those after.
\<close>

definition implements :: "(string \<Rightarrow> string \<Rightarrow> tables \<Rightarrow> ('e + 'a) \<times> tables) \<Rightarrow> ('z db_scheme, 'e, 'a) act \<Rightarrow> bool" where
  "implements F m = (\<forall>w. let (r, w') = m w; (r0, t0) = F (datetime_text w (clock w)) (uuids w (uuid_pos w)) (tb w) in
     tree w' = tree w \<and> faults w' = faults w \<and>
     (r = r0 \<and> tb w' = t0 \<or> \<not> calm w \<and> isl r \<and> (tb w' = tb w \<or> tb w' = t0)))"

lemma implements_run:
  assumes "implements F m" "m w = (r, w')" "F (datetime_text w (clock w)) (uuids w (uuid_pos w)) (tb w) = (r0, t0)"
  shows "tree w' = tree w" "faults w' = faults w"
    "r = r0 \<and> tb w' = t0 \<or> \<not> calm w \<and> isl r \<and> (tb w' = tb w \<or> tb w' = t0)"
  using assms by (auto simp: implements_def dest!: spec [of _ w])

lemma implements_Inr:
  assumes "implements F m" "m w = (Inr x, w')"
  shows "F (datetime_text w (clock w)) (uuids w (uuid_pos w)) (tb w) = (Inr x, tb w')"
proof -
  obtain r0 t0 where F: "F (datetime_text w (clock w)) (uuids w (uuid_pos w)) (tb w) = (r0, t0)" by fastforce
  show ?thesis using implements_run(3) [OF assms F] F by auto
qed

lemma implements_either:
  assumes "implements F m" "m w = (r, w')"
  defines "out \<equiv> F (datetime_text w (clock w)) (uuids w (uuid_pos w)) (tb w)"
  shows "r = fst out \<and> tb w' = snd out \<or> \<not> calm w \<and> isl r \<and> (tb w' = tb w \<or> tb w' = snd out)"
  using implements_run(3) [OF assms(1,2), of "fst out" "snd out"] by (simp add: out_def)

lemma implementsI:
  assumes "\<And>w r w' r0 t0. m w = (r, w') \<Longrightarrow> F (datetime_text w (clock w)) (uuids w (uuid_pos w)) (tb w) = (r0, t0) \<Longrightarrow>
    tree w' = tree w \<and> faults w' = faults w \<and>
    (r = r0 \<and> tb w' = t0 \<or> \<not> calm w \<and> isl r \<and> (tb w' = tb w \<or> tb w' = t0))"
  shows "implements F m"
  using assms by (auto simp: implements_def split: prod.splits)

lemma implements_reads: "reads f m \<Longrightarrow> implements (\<lambda>now i t. (f t, t)) m"
  by (rule implementsI) (auto dest: reads_run simp: same_world_def)

lemma implements_bind:
  assumes m: "reads f m" and k: "\<And>x. implements (G x) (k x)"
  shows "implements (\<lambda>now i t. case f t of Inl e \<Rightarrow> (Inl e, t) | Inr x \<Rightarrow> G x now i t) (bind m k)"
proof (rule implementsI, goal_cases)
  case (1 w r w' r0 t0)
  obtain y w1 where run: "m w = (y, w1)" by fastforce
  note m1 = reads_run [OF m run]
  show ?case
  proof (cases y)
    case (Inl e)
    then show ?thesis using m1 1 run by (auto simp: bind_def same_world_def split: sum.splits)
  next
    case (Inr x)
    have "k x w1 = (r, w')" using 1(1) run Inr by (simp add: bind_def)
    moreover have "f (tb w) = Inr x" using m1 Inr by auto
    ultimately show ?thesis
      using implements_run [OF k, of x w1 r w' r0 t0] m1(1) 1(2) same_world_calm [OF m1(1)]
      by (auto simp: same_world_def)
  qed
qed

lemma implements_uuid:
  assumes "\<And>i. implements (\<lambda>now _. G i now) (k i)"
  shows "implements (\<lambda>now i. G i now) (bind new_uuid k)"
proof (rule implementsI, goal_cases)
  case (1 w r w' r0 t0)
  then show ?case
    using implements_run [OF assms, of "uuids w (uuid_pos w)" "w\<lparr>uuid_pos := Suc (uuid_pos w)\<rparr>" r w' r0 t0]
    by (simp add: bind_uuid calm_def)
qed

lemma implements_exec:
  assumes k: "\<And>n. reads (g n) (k n)"
  shows "implements (\<lambda>now i t. case f now t of Inl e \<Rightarrow> (Inl (h e), t) | Inr (n, t') \<Rightarrow> (g n t', t'))
    (bind (map_err h (exec f)) k)"
proof (rule implementsI, goal_cases)
  case (1 w r w' r0 t0)
  show ?case
  proof (cases "faults w (ticks w)")
    case (Some m)
    then have "\<not> calm w" by (auto simp: calm_def)
    then show ?thesis using 1 Some by (auto simp: bind_exec tick_def)
  next
    case None
    show ?thesis
    proof (cases "f (datetime_text w (clock w)) (tb w)")
      case (Inl e)
      then show ?thesis using 1 None by (auto simp: bind_exec tick_def)
    next
      case (Inr x)
      obtain n t where x: "x = (n, t)" by fastforce
      then have "k n (tick (w\<lparr>tb := t\<rparr>)) = (r, w')" using 1 None Inr by (simp add: bind_exec)
      from reads_run [OF k this] show ?thesis
        using 1 Inr x by (auto simp: same_world_def calm_def tick_def)
    qed
  qed
qed

lemma implements_if:
  "(b \<Longrightarrow> implements F m) \<Longrightarrow> (\<not> b \<Longrightarrow> implements G n) \<Longrightarrow>
   implements (if b then F else G) (if b then m else n)"
  by simp

lemma implements_eq: "implements F m \<Longrightarrow> F = G \<Longrightarrow> implements G m"
  by simp

lemmas implements_rules = implements_uuid implements_exec implements_bind implements_reads

text \<open>\<open>LIMIT n\<close>: a negative limit is no limit.\<close>

definition limit_rows :: "int \<Rightarrow> 'r list \<Rightarrow> 'r list" where
  "limit_rows n rows = (if n < 0 then rows else take (nat n) rows)"

text \<open>What a UNIQUE violation becomes in the model layer.\<close>

definition conflict_or_sqlx :: "string \<Rightarrow> sqlx_error \<Rightarrow> app_error" where
  "conflict_or_sqlx msg e = (if is_unique_violation e then Conflict msg else Sqlx e)"

end
