(* ===== verification/Users.thy ===== *)
theory Users
  imports Tables
begin

text \<open>
  The \<open>users\<close> and \<open>sessions\<close> tables: \<open>src/src/models/user.rs\<close> and \<open>src/src/models/session.rs\<close>.
  The functions keep their names with the model's name in front. A \<open>User\<close> is a row without its
  password hash.
\<close>

section \<open>Users\<close>

record create_user_params =
  cup_username :: string
  cup_email :: string
  cup_password_hash :: string
  cup_role :: string
  cup_quota_bytes :: int

definition find_user :: "(user_row \<Rightarrow> bool) \<Rightarrow> ('z, user option) svc" where
  "find_user P = sqlx (select (\<lambda>t. map_option user.truncate (List.find P (t_users t))))"

definition user_find_by_id :: "string \<Rightarrow> ('z, user option) svc" where
  "user_find_by_id i = find_user (\<lambda>u. u_id u = i)"

definition user_find_by_username :: "string \<Rightarrow> ('z, user option) svc" where
  "user_find_by_username username = find_user (\<lambda>u. u_username u = username)"

definition user_find_by_email :: "string \<Rightarrow> ('z, user option) svc" where
  "user_find_by_email email = find_user (\<lambda>u. u_email u = email)"

definition get_password_hash :: "string \<Rightarrow> ('z, (string \<times> string) option) svc" where
  "get_password_hash username = sqlx (select (\<lambda>t.
     map_option (\<lambda>u. (u_id u, u_password_hash u)) (List.find (\<lambda>u. u_username u = username) (t_users t))))"

definition user_search_by_prefix :: "string \<Rightarrow> int \<Rightarrow> ('z, user list) svc" where
  "user_search_by_prefix prefix limit =
     (let pattern = prefix @ ''%'' in
      sqlx (select (\<lambda>t. limit_rows limit (sort_key u_username (map user.truncate
        (filter (\<lambda>u. like pattern (u_username u) \<and> u_is_active u) (t_users t)))))))"

text \<open>The row an INSERT adds, with the defaults of the schema.\<close>

definition insert_user :: "string \<Rightarrow> create_user_params \<Rightarrow> string \<Rightarrow> tables \<Rightarrow> sqlx_error + (nat \<times> tables)" where
  "insert_user i params now t =
     (if i \<in> user_ids t then Inl (unique_failed ''users.id'')
      else if cup_username params \<in> u_username ` set (t_users t) then Inl (unique_failed ''users.username'')
      else if cup_email params \<in> u_email ` set (t_users t) then Inl (unique_failed ''users.email'')
      else Inr (1, t\<lparr>t_users := t_users t @
        [\<lparr>u_id = i, u_username = cup_username params, u_email = cup_email params, u_role = cup_role params,
          u_quota_bytes = cup_quota_bytes params, u_is_active = True, u_setup_complete = False,
          u_created_at = now, u_updated_at = now, u_password_hash = cup_password_hash params\<rparr>]\<rparr>))"

definition user_create :: "create_user_params \<Rightarrow> ('z, user) svc" where
  "user_create params =
     bind new_uuid (\<lambda>i.
     bind (user_find_by_username (cup_username params)) (\<lambda>same_name.
     bind (reject_if (same_name \<noteq> None) (Conflict ''A user with that username already exists.'')) (\<lambda>_.
     bind (user_find_by_email (cup_email params)) (\<lambda>same_email.
     bind (reject_if (same_email \<noteq> None) (Conflict ''A user with that email already exists.'')) (\<lambda>_.
     bind (map_err (conflict_or_sqlx ''A user with that username or email already exists.'')
             (exec (insert_user i params))) (\<lambda>_.
     bind (user_find_by_id i) (\<lambda>found.
     ok_or (Internal ''User was inserted but could not be read back'') found)))))))"

definition mark_setup_complete :: "string \<Rightarrow> ('z, unit) svc" where
  "mark_setup_complete user_id =
     bind (sqlx (exec (\<lambda>now t. Inr (count_where (\<lambda>u. u_id u = user_id) (t_users t),
             t\<lparr>t_users := update_where (\<lambda>u. u_id u = user_id)
               (\<lambda>u. u\<lparr>u_setup_complete := True, u_updated_at := now\<rparr>) (t_users t)\<rparr>)))) (\<lambda>rows_affected.
     reject_if (rows_affected = 0) NotFound)"

definition is_admin :: "'z user_scheme \<Rightarrow> bool" where
  "is_admin u = (u_role u = ''admin'')"

section \<open>Sessions\<close>

text \<open>These return the database's errors unchanged.\<close>

definition insert_session :: "session \<Rightarrow> tables \<Rightarrow> sqlx_error + (session \<times> tables)" where
  "insert_session r t =
     (if se_id r \<in> se_id ` set (t_sessions t) then Inl (unique_failed ''sessions.id'')
      else if se_token_hash r \<in> se_token_hash ` set (t_sessions t) then Inl (unique_failed ''sessions.token_hash'')
      else if se_user_id r \<notin> user_ids t then Inl foreign_key_failed
      else Inr (r, t\<lparr>t_sessions := t_sessions t @ [r]\<rparr>))"

definition session_create :: "string \<Rightarrow> string \<Rightarrow> int \<Rightarrow> ('z, session) stmt" where
  "session_create user_id token_hash expires_at =
     bind new_uuid (\<lambda>i.
     bind (gets (\<lambda>w. datetime_text w expires_at)) (\<lambda>expires_at_str.
     exec_returning (\<lambda>now. insert_session
       \<lparr>se_id = i, se_user_id = user_id, se_token_hash = token_hash, se_expires_at = expires_at_str,
        se_created_at = now\<rparr>)))"

definition find_by_token_hash :: "string \<Rightarrow> ('z, session option) stmt" where
  "find_by_token_hash token_hash = select (\<lambda>t. List.find (\<lambda>r. se_token_hash r = token_hash) (t_sessions t))"

definition session_is_expired :: "session \<Rightarrow> ('z db_scheme, 'e, bool) act" where
  "session_is_expired s = gets (\<lambda>w. case parse_datetime w (se_expires_at s) of
      Some exp \<Rightarrow> clock w \<ge> exp | None \<Rightarrow> True)"

definition delete_sessions :: "(session \<Rightarrow> bool) \<Rightarrow> ('z, nat) stmt" where
  "delete_sessions P = exec (\<lambda>now t. Inr (count_where P (t_sessions t),
     t\<lparr>t_sessions := filter (\<lambda>r. \<not> P r) (t_sessions t)\<rparr>))"

definition session_delete :: "string \<Rightarrow> ('z, bool) stmt" where
  "session_delete session_id = bind (delete_sessions (\<lambda>r. se_id r = session_id)) (\<lambda>n. ret (n > 0))"

definition session_validate :: "string \<Rightarrow> ('z, session option) stmt" where
  "session_validate token_hash =
     bind (find_by_token_hash token_hash) (\<lambda>found. case found of
         None \<Rightarrow> ret None
       | Some session \<Rightarrow>
           bind (session_is_expired session) (\<lambda>expired.
           if expired then bind (ignore (session_delete (se_id session))) (\<lambda>_. ret None)
           else ret (Some session)))"

definition delete_by_user_and_token :: "string \<Rightarrow> string \<Rightarrow> ('z, bool) stmt" where
  "delete_by_user_and_token user_id token_hash =
     bind (delete_sessions (\<lambda>r. se_user_id r = user_id \<and> se_token_hash r = token_hash)) (\<lambda>n. ret (n > 0))"

definition delete_all_for_user :: "string \<Rightarrow> ('z, nat) stmt" where
  "delete_all_for_user user_id = delete_sessions (\<lambda>r. se_user_id r = user_id)"

text \<open>The comparison is SQLite's, of the texts.\<close>

definition delete_expired :: "('z, nat) stmt" where
  "delete_expired = bind (gets (\<lambda>w. datetime_text w (clock w))) (\<lambda>now.
     delete_sessions (\<lambda>r. se_expires_at r \<le> now))"

section \<open>The constraints are kept\<close>

lemma insert_user_ok: "tables_ok t \<Longrightarrow> insert_user i params now t = Inr (n, t') \<Longrightarrow> tables_ok t'"
  by (clarsimp simp: insert_user_def tables_ok_defs subset_insertI2 split: if_splits)

lemma keeps_ok_find_user: "keeps keeps_ok (find_user P)"
  unfolding find_user_def by (intro keeps_ok_rules)

lemmas keeps_ok_find_users = keeps_ok_find_user [of "\<lambda>u. u_id u = i" for i, folded user_find_by_id_def]
  keeps_ok_find_user [of "\<lambda>u. u_username u = n" for n, folded user_find_by_username_def]
  keeps_ok_find_user [of "\<lambda>u. u_email u = e" for e, folded user_find_by_email_def]

lemma keeps_ok_user_create: "keeps keeps_ok (user_create params)"
  unfolding user_create_def
  by (intro keeps_ok_rules keeps_ok_find_users keeps_ok_exec) (erule (1) insert_user_ok)

lemma update_users_ok:
  assumes "tables_ok t" "\<And>u. u_id (f u) = u_id u" "\<And>u. u_username (f u) = u_username u" "\<And>u. u_email (f u) = u_email u"
  shows "tables_ok (t\<lparr>t_users := update_where P f (t_users t)\<rparr>)"
  using assms by (simp add: tables_ok_defs map_update_where image_update_where)

lemma keeps_ok_mark_setup_complete: "keeps keeps_ok (mark_setup_complete i)"
  unfolding mark_setup_complete_def
  by (intro keeps_ok_rules keeps_ok_exec) (auto intro: update_users_ok)

lemma keeps_ok_session_create: "keeps keeps_ok (session_create uid h e)"
  unfolding session_create_def
  by (intro keeps_ok_rules keeps_ok_exec_returning) (auto simp: insert_session_def tables_ok_defs split: if_splits)

lemma keeps_ok_delete_sessions: "keeps keeps_ok (delete_sessions P)"
  unfolding delete_sessions_def
  by (intro keeps_ok_exec) (auto simp: tables_ok_defs distinct_map_filter_rows)

lemma keeps_ok_session_validate: "keeps keeps_ok (session_validate h)"
  unfolding session_validate_def find_by_token_hash_def session_is_expired_def session_delete_def
  by (intro keeps_ok_rules keeps_ok_delete_sessions)

lemma keeps_ok_session_deletes:
  "keeps keeps_ok (session_delete i)" "keeps keeps_ok (delete_by_user_and_token uid h)"
  "keeps keeps_ok (delete_all_for_user uid)" "keeps keeps_ok delete_expired"
  unfolding session_delete_def delete_by_user_and_token_def delete_all_for_user_def delete_expired_def
  by (intro keeps_ok_rules keeps_ok_delete_sessions)+

section \<open>Sample rows\<close>

definition sample_user :: "string \<Rightarrow> string \<Rightarrow> user_row" where
  "sample_user i role = \<lparr>u_id = i, u_username = i, u_email = i @ ''@example.com'', u_role = role, u_quota_bytes = 1000,
     u_is_active = True, u_setup_complete = True, u_created_at = ''0'', u_updated_at = ''0'', u_password_hash = ''h''\<rparr>"

definition two_users :: tables where
  "two_users = no_tables\<lparr>t_users := [sample_user ''alice'' ''admin'', sample_user ''bob'' ''user'']\<rparr>"

lemma two_users_ok: "tables_ok two_users"
  by (simp add: two_users_def no_tables_def tables_ok_defs sample_user_def)

end
