(* ===== verification/World.thy ===== *)
theory World
  imports Users FsService
begin

text \<open>
  The whole server: the machine, the database and the keys in memory (the \<open>UnlockState\<close> that
  Rocket manages). The services that touch all three run on this state.
\<close>

record world = db +
  unlocked :: unlock_state

definition display_path :: "path \<Rightarrow> string" where
  "display_path p = CHR ''/'' # join_with (CHR ''/'') p"

definition quoted :: "string \<Rightarrow> string" where
  "quoted s = CHR 0x27 # s @ [CHR 0x27]"

definition META_FILENAME :: string where "META_FILENAME = ''.irondrive.meta''"

text \<open>\<open>type = "<kind>"\<close>, \<open>id = "<id>"\<close>, \<open>created_by = "irondrive"\<close>, each on a line.\<close>

definition meta_line :: "string \<Rightarrow> string \<Rightarrow> string" where
  "meta_line key v = key @ '' = '' @ CHR 0x22 # v @ [CHR 0x22, CHR 0x0A]"

definition meta_content :: "string \<Rightarrow> string \<Rightarrow> byte list" where
  "meta_content kind i =
     as_bytes (meta_line ''type'' kind @ meta_line ''id'' i @ meta_line ''created_by'' ''irondrive'')"

text \<open>The part common to \<open>create_library_directory\<close> and \<open>create_space_directory\<close>.\<close>

definition create_realm_directory :: "string \<Rightarrow> path \<Rightarrow> string \<Rightarrow> ('z, unit) app" where
  "create_realm_directory kind dir i =
     bind (map_err (internal_ctx (''Failed to create '' @ kind @ '' directory '' @ quoted (display_path dir)))
             (fs_create_dir_all dir)) (\<lambda>_.
     let meta_path = path_join dir META_FILENAME in
     map_err (internal_ctx (''Failed to write meta file '' @ quoted (display_path meta_path)))
       (fs_write meta_path (meta_content kind i)))"

text \<open>Actions on the keys in memory.\<close>

definition keep_space_key :: "string \<Rightarrow> byte list \<Rightarrow> ('z world_scheme, 'e, unit) act" where
  "keep_space_key i key = modify (\<lambda>w. w\<lparr>unlocked := insert_space_key i key (unlocked w)\<rparr>)"

definition drop_space_key :: "string \<Rightarrow> ('z world_scheme, 'e, unit) act" where
  "drop_space_key i = modify (\<lambda>w. w\<lparr>unlocked := snd (remove_space_key i (unlocked w))\<rparr>)"

definition keep_library_key :: "string \<Rightarrow> byte list \<Rightarrow> ('z world_scheme, 'e, unit) act" where
  "keep_library_key i key = modify (\<lambda>w. w\<lparr>unlocked := insert_library_key i key (unlocked w)\<rparr>)"

definition drop_library_key :: "string \<Rightarrow> ('z world_scheme, 'e, unit) act" where
  "drop_library_key i = modify (\<lambda>w. w\<lparr>unlocked := snd (remove_library_key i (unlocked w))\<rparr>)"

end
