(* ===== verification/LibraryService.thy ===== *)
theory LibraryService
  imports World
begin

text \<open>
  Personal libraries: \<open>src/src/models/library.rs\<close> (prefix \<open>library_\<close>) and
  \<open>src/src/services/library_service.rs\<close>.
\<close>

section \<open>Queries\<close>

record create_library_params =
  clp_user_id :: string
  clp_encryption_mode :: string
  clp_encrypted_data_key :: "byte list"
  clp_salt :: "byte list option"
  clp_verify_blob :: "byte list option"
  clp_recovery_blob :: "byte list option"

definition library_find_by_id :: "string \<Rightarrow> ('z, personal_library option) svc" where
  "library_find_by_id i = sqlx (select (\<lambda>t. List.find (\<lambda>l. pl_id l = i) (t_libraries t)))"

definition library_find_by_user :: "string \<Rightarrow> ('z, personal_library option) svc" where
  "library_find_by_user user_id = sqlx (select (\<lambda>t. List.find (\<lambda>l. pl_user_id l = user_id) (t_libraries t)))"

definition new_library :: "string \<Rightarrow> create_library_params \<Rightarrow> string \<Rightarrow> personal_library" where
  "new_library i params now = \<lparr>pl_id = i, pl_user_id = clp_user_id params,
     pl_encryption_mode = clp_encryption_mode params, pl_encrypted_data_key = clp_encrypted_data_key params,
     pl_salt = clp_salt params, pl_verify_blob = clp_verify_blob params,
     pl_recovery_blob = clp_recovery_blob params, pl_created_at = now\<rparr>"

definition insert_library :: "string \<Rightarrow> create_library_params \<Rightarrow> string \<Rightarrow> tables \<Rightarrow> sqlx_error + (nat \<times> tables)" where
  "insert_library i params now t =
     (if i \<in> pl_id ` set (t_libraries t) then Inl (unique_failed ''personal_libraries.id'')
      else if clp_user_id params \<in> pl_user_id ` set (t_libraries t)
        then Inl (unique_failed ''personal_libraries.user_id'')
      else if clp_user_id params \<notin> user_ids t then Inl foreign_key_failed
      else Inr (1, t\<lparr>t_libraries := t_libraries t @ [new_library i params now]\<rparr>))"

definition library_create :: "create_library_params \<Rightarrow> ('z, personal_library) svc" where
  "library_create params =
     bind new_uuid (\<lambda>i.
     bind (library_find_by_user (clp_user_id params)) (\<lambda>existing.
     bind (reject_if (existing \<noteq> None) (Conflict ''This user already has a personal library.'')) (\<lambda>_.
     bind (map_err (conflict_or_sqlx ''This user already has a personal library.'')
             (exec (insert_library i params))) (\<lambda>_.
     bind (library_find_by_id i) (\<lambda>found.
     ok_or (Internal ''Library was inserted but could not be read back'') found)))))"

definition delete_library_rows :: "string \<Rightarrow> tables \<Rightarrow> nat \<times> tables" where
  "delete_library_rows i t = (count_where (\<lambda>l. pl_id l = i) (t_libraries t),
     t\<lparr>t_libraries := filter (\<lambda>l. pl_id l \<noteq> i) (t_libraries t)\<rparr>)"

definition library_delete_by_id :: "string \<Rightarrow> ('z, unit) svc" where
  "library_delete_by_id i = bind (sqlx (exec (\<lambda>now t. Inr (delete_library_rows i t)))) (\<lambda>rows_affected. ret ())"

section \<open>The service\<close>

definition library_dir :: "app_config \<Rightarrow> string \<Rightarrow> path" where
  "library_dir config library_id = path_join (data_dir config) (''libraries/'' @ library_id)"

definition create_library_directory :: "path \<Rightarrow> string \<Rightarrow> ('z, unit) app" where
  "create_library_directory lib_dir library_id = create_realm_directory ''library'' lib_dir library_id"

text \<open>The undoing of a creation whose last step failed; each step is best effort.\<close>

definition undo_library :: "path \<Rightarrow> string \<Rightarrow> ('z world_scheme, app_error, unit) act" where
  "undo_library lib_dir library_id =
     bind (drop_library_key library_id) (\<lambda>_.
     bind (ignore (fs_remove_dir_all lib_dir)) (\<lambda>_.
     ignore (library_delete_by_id library_id)))"

definition setup_library ::
  "crypto \<Rightarrow> app_config \<Rightarrow> byte list \<Rightarrow> string \<Rightarrow> ('z world_scheme, app_error, personal_library) act"
where
  "setup_library C config master_key user_id =
     bind (user_find_by_id user_id) (\<lambda>found.
     bind (ok_or NotFound found) (\<lambda>user.
     bind (reject_if (u_setup_complete user) (Conflict ''Setup has already been completed for this user.'')) (\<lambda>_.
     bind (library_find_by_user user_id) (\<lambda>existing.
     bind (reject_if (existing \<noteq> None) (Conflict ''This user already has a personal library.'')) (\<lambda>_.
     bind generate_data_key (\<lambda>data_key.
     bind (wrap_data_key C master_key data_key) (\<lambda>encrypted_data_key.
     bind (library_create \<lparr>clp_user_id = user_id, clp_encryption_mode = ''server'',
             clp_encrypted_data_key = encrypted_data_key, clp_salt = None, clp_verify_blob = None,
             clp_recovery_blob = None\<rparr>) (\<lambda>library.
     let lib_dir = library_dir config (pl_id library) in
     bind (attempt (create_library_directory lib_dir (pl_id library))) (\<lambda>made. case made of
         Inl e \<Rightarrow> bind (ignore (library_delete_by_id (pl_id library))) (\<lambda>_. throw e)
       | Inr _ \<Rightarrow>
           bind (keep_library_key (pl_id library) data_key) (\<lambda>_.
           bind (attempt (mark_setup_complete user_id)) (\<lambda>marked. case marked of
               Inl e \<Rightarrow> bind (undo_library lib_dir (pl_id library)) (\<lambda>_. throw e)
             | Inr _ \<Rightarrow> ret library)))))))))))"

text \<open>Boot: the keys of the server-mode libraries; a key that does not unwrap is skipped.\<close>

fun load_library_keys :: "crypto \<Rightarrow> byte list \<Rightarrow> personal_library list \<Rightarrow> nat \<Rightarrow> ('z world_scheme, 'e, nat) act" where
  "load_library_keys C master_key [] loaded = ret loaded"
| "load_library_keys C master_key (l # ls) loaded =
     (case unwrap_data_key C master_key (pl_encrypted_data_key l) of
        Inr data_key \<Rightarrow> bind (keep_library_key (pl_id l) data_key) (\<lambda>_. load_library_keys C master_key ls (loaded + 1))
      | Inl e \<Rightarrow> load_library_keys C master_key ls loaded)"

definition load_server_mode_library_keys :: "crypto \<Rightarrow> byte list \<Rightarrow> ('z world_scheme, app_error, nat) act" where
  "load_server_mode_library_keys C master_key =
     bind (sqlx (select (\<lambda>t. filter (\<lambda>l. pl_encryption_mode l = ''server'') (t_libraries t)))) (\<lambda>rows.
     load_library_keys C master_key rows 0)"

section \<open>The constraints are kept\<close>

lemma insert_library_ok: "tables_ok t \<Longrightarrow> insert_library i params now t = Inr (n, t') \<Longrightarrow> tables_ok t'"
  by (clarsimp simp: insert_library_def new_library_def tables_ok_defs split: if_splits)

lemma delete_library_ok: "tables_ok t \<Longrightarrow> tables_ok (snd (delete_library_rows i t))"
  by (auto simp: delete_library_rows_def tables_ok_defs distinct_map_filter_rows)

lemma keeps_ok_library_create: "keeps keeps_ok (library_create params)"
  unfolding library_create_def library_find_by_user_def library_find_by_id_def
  by (intro keeps_ok_rules keeps_ok_exec) (erule (1) insert_library_ok)

lemma keeps_ok_library_delete: "keeps keeps_ok (library_delete_by_id i)"
  unfolding library_delete_by_id_def
  by (intro keeps_ok_rules keeps_ok_exec) (auto dest: delete_library_ok [of _ i])

end
