(* ===== verification/GroupService.thy ===== *)
theory GroupService
  imports World
begin

text \<open>
  Groups and their members: the queries of \<open>src/src/models/group.rs\<close> and the rules of
  \<open>src/src/services/group_service.rs\<close>. Query functions carry the prefix \<open>group_\<close> or \<open>member_\<close>;
  service functions keep their names.
\<close>

section \<open>Group queries\<close>

record create_group_params =
  cgp_name :: string
  cgp_description :: "string option"
  cgp_created_by :: string

record update_group_params =
  ugp_name :: string
  ugp_description :: "string option"

record group_member_detail = group_member +
  gmd_username :: string
  gmd_email :: string

record group_with_meta =
  gw_group :: group_row
  gw_member_count :: int
  gw_user_role :: string

definition group_find_by_id :: "string \<Rightarrow> ('z, group_row option) svc" where
  "group_find_by_id i = sqlx (select (\<lambda>t. List.find (\<lambda>g. g_id g = i) (t_groups t)))"

definition group_find_by_name :: "string \<Rightarrow> ('z, group_row option) svc" where
  "group_find_by_name name = sqlx (select (\<lambda>t. List.find (\<lambda>g. g_name g = name) (t_groups t)))"

definition group_search_by_name_prefix :: "string \<Rightarrow> int \<Rightarrow> ('z, group_row list) svc" where
  "group_search_by_name_prefix prefix limit =
     (let pattern = prefix @ ''%'' in
      sqlx (select (\<lambda>t. limit_rows limit (sort_key g_name (filter (\<lambda>g. like pattern (g_name g)) (t_groups t))))))"

definition insert_group :: "string \<Rightarrow> create_group_params \<Rightarrow> string \<Rightarrow> tables \<Rightarrow> sqlx_error + (nat \<times> tables)" where
  "insert_group i params now t =
     (if i \<in> group_ids t then Inl (unique_failed ''groups.id'')
      else if cgp_name params \<in> g_name ` set (t_groups t) then Inl (unique_failed ''groups.name'')
      else if cgp_created_by params \<notin> user_ids t then Inl foreign_key_failed
      else Inr (1, t\<lparr>t_groups := t_groups t @
        [\<lparr>g_id = i, g_name = cgp_name params, g_description = cgp_description params,
          g_created_by = cgp_created_by params, g_created_at = now\<rparr>]\<rparr>))"

definition group_name_taken :: string where
  "group_name_taken = ''A group with that name already exists.''"

definition group_create :: "create_group_params \<Rightarrow> ('z, group_row) svc" where
  "group_create params =
     bind new_uuid (\<lambda>i.
     bind (group_find_by_name (cgp_name params)) (\<lambda>same_name.
     bind (reject_if (same_name \<noteq> None) (Conflict group_name_taken)) (\<lambda>_.
     bind (map_err (conflict_or_sqlx group_name_taken) (exec (insert_group i params))) (\<lambda>_.
     bind (group_find_by_id i) (\<lambda>found.
     ok_or (Internal ''Group was inserted but could not be read back'') found)))))"

text \<open>The rows of \<open>groups g INNER JOIN group_members gm\<close> for a user.\<close>

definition groups_of_user :: "string \<Rightarrow> tables \<Rightarrow> group_with_meta list" where
  "groups_of_user user_id t =
     [\<lparr>gw_group = g, gw_member_count = int (count_where (\<lambda>m. gm_group_id m = g_id g) (t_group_members t)),
       gw_user_role = gm_role m\<rparr>.
      g \<leftarrow> t_groups t, m \<leftarrow> t_group_members t, gm_group_id m = g_id g \<and> gm_user_id m = user_id]"

definition group_find_for_user :: "string \<Rightarrow> string \<Rightarrow> ('z, group_with_meta option) svc" where
  "group_find_for_user user_id group_id =
     sqlx (select (\<lambda>t. List.find (\<lambda>r. g_id (gw_group r) = group_id) (groups_of_user user_id t)))"

definition group_find_all_for_user :: "string \<Rightarrow> ('z, group_with_meta list) svc" where
  "group_find_all_for_user user_id =
     sqlx (select (\<lambda>t. sort_key (\<lambda>r. g_name (gw_group r)) (groups_of_user user_id t)))"

definition update_group_row :: "string \<Rightarrow> update_group_params \<Rightarrow> tables \<Rightarrow> sqlx_error + (nat \<times> tables)" where
  "update_group_row i params t =
     (if i \<in> group_ids t \<and> (\<exists>g \<in> set (t_groups t). g_id g \<noteq> i \<and> g_name g = ugp_name params)
      then Inl (unique_failed ''groups.name'')
      else Inr (count_where (\<lambda>g. g_id g = i) (t_groups t),
        t\<lparr>t_groups := update_where (\<lambda>g. g_id g = i)
          (\<lambda>g. g\<lparr>g_name := ugp_name params, g_description := ugp_description params\<rparr>) (t_groups t)\<rparr>))"

definition group_update :: "string \<Rightarrow> update_group_params \<Rightarrow> ('z, group_row) svc" where
  "group_update i params =
     bind (group_find_by_name (ugp_name params)) (\<lambda>existing.
     bind (reject_if (case existing of None \<Rightarrow> False | Some g \<Rightarrow> g_id g \<noteq> i) (Conflict group_name_taken)) (\<lambda>_.
     bind (map_err (conflict_or_sqlx group_name_taken) (exec (\<lambda>now. update_group_row i params))) (\<lambda>rows_affected.
     bind (reject_if (rows_affected = 0) NotFound) (\<lambda>_.
     bind (group_find_by_id i) (ok_or NotFound)))))"

text \<open>\<open>DELETE FROM groups\<close>; the schema's ON DELETE CASCADE removes the members.\<close>

definition delete_group_rows :: "string \<Rightarrow> tables \<Rightarrow> nat \<times> tables" where
  "delete_group_rows i t = (count_where (\<lambda>g. g_id g = i) (t_groups t),
     t\<lparr>t_groups := filter (\<lambda>g. g_id g \<noteq> i) (t_groups t),
       t_group_members := filter (\<lambda>m. gm_group_id m \<noteq> i) (t_group_members t)\<rparr>)"

definition group_delete_by_id :: "string \<Rightarrow> ('z, unit) svc" where
  "group_delete_by_id i =
     bind (sqlx (exec (\<lambda>now t. Inr (delete_group_rows i t)))) (\<lambda>rows_affected.
     reject_if (rows_affected = 0) NotFound)"

section \<open>Member queries\<close>

definition is_membership :: "string \<Rightarrow> string \<Rightarrow> group_member \<Rightarrow> bool" where
  "is_membership group_id user_id m = (gm_group_id m = group_id \<and> gm_user_id m = user_id)"

definition member_find :: "string \<Rightarrow> string \<Rightarrow> ('z, group_member option) svc" where
  "member_find group_id user_id =
     sqlx (select (\<lambda>t. List.find (is_membership group_id user_id) (t_group_members t)))"

definition insert_member :: "group_member \<Rightarrow> tables \<Rightarrow> sqlx_error + (nat \<times> tables)" where
  "insert_member m t =
     (if member_key m \<in> member_key ` set (t_group_members t)
      then Inl (unique_failed ''group_members.group_id, group_members.user_id'')
      else if gm_group_id m \<notin> group_ids t \<or> gm_user_id m \<notin> user_ids t then Inl foreign_key_failed
      else Inr (1, t\<lparr>t_group_members := t_group_members t @ [m]\<rparr>))"

definition member_add :: "string \<Rightarrow> string \<Rightarrow> string \<Rightarrow> ('z, group_member) svc" where
  "member_add group_id user_id role =
     bind (map_err (conflict_or_sqlx ''This user is already a member of the group.'')
             (exec (\<lambda>now. insert_member
               \<lparr>gm_group_id = group_id, gm_user_id = user_id, gm_role = role, gm_joined_at = now\<rparr>))) (\<lambda>_.
     bind (member_find group_id user_id)
       (ok_or (Internal ''Member was inserted but could not be read back'')))"

definition member_remove :: "string \<Rightarrow> string \<Rightarrow> ('z, unit) svc" where
  "member_remove group_id user_id =
     bind (sqlx (exec (\<lambda>now t. Inr (count_where (is_membership group_id user_id) (t_group_members t),
             t\<lparr>t_group_members := filter (\<lambda>m. \<not> is_membership group_id user_id m) (t_group_members t)\<rparr>)))) (\<lambda>rows_affected.
     reject_if (rows_affected = 0) NotFound)"

definition is_member :: "string \<Rightarrow> string \<Rightarrow> ('z, bool) svc" where
  "is_member group_id user_id =
     bind (sqlx (select (\<lambda>t. count_where (is_membership group_id user_id) (t_group_members t)))) (\<lambda>n.
     ret (n > 0))"

definition role_rank :: "string \<Rightarrow> nat" where
  "role_rank role = (if role = ''owner'' then 0 else if role = ''manager'' then 1 else 2)"

definition member_details :: "string \<Rightarrow> tables \<Rightarrow> group_member_detail list" where
  "member_details group_id t =
     [\<lparr>gm_group_id = gm_group_id m, gm_user_id = gm_user_id m, gm_role = gm_role m, gm_joined_at = gm_joined_at m,
       gmd_username = u_username u, gmd_email = u_email u\<rparr>.
      m \<leftarrow> t_group_members t, gm_group_id m = group_id, u \<leftarrow> t_users t, u_id u = gm_user_id m]"

definition member_list_with_details :: "string \<Rightarrow> ('z, group_member_detail list) svc" where
  "member_list_with_details group_id =
     sqlx (select (\<lambda>t. sort_key (\<lambda>d. (role_rank (gm_role d), gmd_username d)) (member_details group_id t)))"

definition member_update_role :: "string \<Rightarrow> string \<Rightarrow> string \<Rightarrow> ('z, group_member) svc" where
  "member_update_role group_id user_id new_role =
     bind (sqlx (exec (\<lambda>now t. Inr (count_where (is_membership group_id user_id) (t_group_members t),
             t\<lparr>t_group_members := update_where (is_membership group_id user_id) (\<lambda>m. m\<lparr>gm_role := new_role\<rparr>)
               (t_group_members t)\<rparr>)))) (\<lambda>rows_affected.
     bind (reject_if (rows_affected = 0) NotFound) (\<lambda>_.
     bind (member_find group_id user_id) (ok_or NotFound)))"

section \<open>Validation\<close>

definition NAME_MIN_LEN :: nat where "NAME_MIN_LEN = 1"
definition NAME_MAX_LEN :: nat where "NAME_MAX_LEN = 100"
definition DESCRIPTION_MAX_LEN :: nat where "DESCRIPTION_MAX_LEN = 500"
definition ROLE_OWNER :: string where "ROLE_OWNER = ''owner''"
definition ROLE_MANAGER :: string where "ROLE_MANAGER = ''manager''"
definition ROLE_MEMBER :: string where "ROLE_MEMBER = ''member''"

definition validate_group_name :: "string \<Rightarrow> app_error + string" where
  "validate_group_name name0 =
     (let name = trim name0 in
      if length name < NAME_MIN_LEN \<or> length name > NAME_MAX_LEN then
        Inl (Validation (''Group name must be between '' @ show_nat NAME_MIN_LEN @ '' and '' @ show_nat NAME_MAX_LEN
          @ '' characters.''))
      else Inr name)"

definition validate_description :: "string option \<Rightarrow> app_error + string option" where
  "validate_description description = (case description of
      Some d0 \<Rightarrow>
        (let d = trim d0 in
         if d = [] then Inr None
         else if length d > DESCRIPTION_MAX_LEN then
           Inl (Validation (''Description must be at most '' @ show_nat DESCRIPTION_MAX_LEN @ '' characters.''))
         else Inr (Some d))
    | None \<Rightarrow> Inr None)"

definition validate_role :: "string \<Rightarrow> app_error + unit" where
  "validate_role role =
     (if role = ROLE_OWNER \<or> role = ROLE_MANAGER \<or> role = ROLE_MEMBER then Inr ()
      else Inl (Validation (''Invalid role '' @ quoted role @ ''. Must be one of: '' @ ROLE_MEMBER @ '', '' @ ROLE_MANAGER @ ''.'')))"

section \<open>The service\<close>

definition require_member :: "string \<Rightarrow> string \<Rightarrow> ('z, unit) svc" where
  "require_member group_id user_id =
     bind (is_member group_id user_id) (\<lambda>found. reject_if (\<not> found) NotFound)"

definition require_manager_or_owner :: "string \<Rightarrow> string \<Rightarrow> ('z, unit) svc" where
  "require_manager_or_owner group_id user_id =
     bind (member_find group_id user_id) (\<lambda>found.
     bind (ok_or NotFound found) (\<lambda>m.
     reject_if (gm_role m \<noteq> ROLE_OWNER \<and> gm_role m \<noteq> ROLE_MANAGER) Forbidden))"

definition create_group :: "string \<Rightarrow> string \<Rightarrow> string option \<Rightarrow> ('z, group_with_meta) svc" where
  "create_group user_id name0 description0 =
     bind (lift (validate_group_name name0)) (\<lambda>name.
     bind (lift (validate_description description0)) (\<lambda>description.
     bind (group_create \<lparr>cgp_name = name, cgp_description = description, cgp_created_by = user_id\<rparr>) (\<lambda>g.
     bind (member_add (g_id g) user_id ROLE_OWNER) (\<lambda>_.
     ret \<lparr>gw_group = g, gw_member_count = 1, gw_user_role = ROLE_OWNER\<rparr>))))"

definition get_group :: "string \<Rightarrow> string \<Rightarrow> ('z, group_with_meta) svc" where
  "get_group user_id group_id = bind (group_find_for_user user_id group_id) (ok_or NotFound)"

definition list_user_groups :: "string \<Rightarrow> ('z, group_with_meta list) svc" where
  "list_user_groups user_id = group_find_all_for_user user_id"

definition update_group :: "string \<Rightarrow> string \<Rightarrow> string \<Rightarrow> string option \<Rightarrow> ('z, group_row) svc" where
  "update_group user_id group_id name0 description0 =
     bind (require_manager_or_owner group_id user_id) (\<lambda>_.
     bind (lift (validate_group_name name0)) (\<lambda>name.
     bind (lift (validate_description description0)) (\<lambda>description.
     group_update group_id \<lparr>ugp_name = name, ugp_description = description\<rparr>)))"

definition delete_group :: "string \<Rightarrow> string \<Rightarrow> ('z, unit) svc" where
  "delete_group user_id group_id =
     bind (group_find_by_id group_id) (\<lambda>found.
     bind (ok_or NotFound found) (\<lambda>g.
     bind (reject_if (g_created_by g \<noteq> user_id) Forbidden) (\<lambda>_.
     group_delete_by_id group_id)))"

definition list_members :: "string \<Rightarrow> string \<Rightarrow> ('z, group_member_detail list) svc" where
  "list_members user_id group_id =
     bind (require_member group_id user_id) (\<lambda>_. member_list_with_details group_id)"

definition add_member :: "string \<Rightarrow> string \<Rightarrow> string \<Rightarrow> string \<Rightarrow> ('z, group_member) svc" where
  "add_member actor_id group_id username role =
     bind (require_manager_or_owner group_id actor_id) (\<lambda>_.
     bind (lift (validate_role role)) (\<lambda>_.
     bind (reject_if (role = ROLE_OWNER)
             (Validation ''Cannot assign the owner role. There can only be one owner.'')) (\<lambda>_.
     bind (user_find_by_username username) (\<lambda>found.
     bind (ok_or NotFound found) (\<lambda>target_user.
     member_add group_id (u_id target_user) role)))))"

definition remove_member :: "string \<Rightarrow> string \<Rightarrow> string \<Rightarrow> ('z, unit) svc" where
  "remove_member actor_id group_id target_user_id =
     bind (group_find_by_id group_id) (\<lambda>found.
     bind (ok_or NotFound found) (\<lambda>g.
     bind (reject_if (target_user_id = g_created_by g) (Validation ''The group owner cannot be removed.'')) (\<lambda>_.
     let is_self = (actor_id = target_user_id) in
     bind (if \<not> is_self then require_manager_or_owner group_id actor_id
           else require_member group_id actor_id) (\<lambda>_.
     member_remove group_id target_user_id))))"

definition update_member_role :: "string \<Rightarrow> string \<Rightarrow> string \<Rightarrow> string \<Rightarrow> ('z, group_member) svc" where
  "update_member_role actor_id group_id target_user_id new_role =
     bind (group_find_by_id group_id) (\<lambda>found.
     bind (ok_or NotFound found) (\<lambda>g.
     bind (reject_if (g_created_by g \<noteq> actor_id) Forbidden) (\<lambda>_.
     bind (reject_if (target_user_id = g_created_by g) (Validation ''Cannot change the owner's role.'')) (\<lambda>_.
     bind (lift (validate_role new_role)) (\<lambda>_.
     bind (reject_if (new_role = ROLE_OWNER) (Validation ''Cannot assign the owner role.'')) (\<lambda>_.
     bind (require_member group_id target_user_id) (\<lambda>_.
     member_update_role group_id target_user_id new_role)))))))"

end
