(* ===== verification/SpaceService.thy ===== *)
theory SpaceService
  imports GroupService
begin

text \<open>
  Shared spaces: the queries of \<open>src/src/models/space.rs\<close> and the rules of
  \<open>src/src/services/space_service.rs\<close>. Query functions carry the prefix \<open>space_\<close> or \<open>access_\<close>;
  service functions keep their names. The CTEs of the permission queries are lists of rows.
\<close>

section \<open>Rows\<close>

record create_space_params =
  csp_name :: string
  csp_owner_type :: string
  csp_owner_id :: string
  csp_encryption_mode :: string
  csp_encrypted_data_key :: "byte list"

record update_space_params =
  usp_name :: string

record space_access_detail = space_access +
  sad_grantee_name :: string

record space_with_meta =
  sw_space :: space
  sw_grantee_count :: int
  sw_user_permission :: string

section \<open>Permission queries\<close>

definition perm_rank :: "string \<Rightarrow> nat" where
  "perm_rank perm = (if perm = ''admin'' then 3 else if perm = ''write'' then 2 else if perm = ''read'' then 1 else 0)"

text \<open>\<open>CASE MAX(...) WHEN 3 THEN 'admin' ...\<close>; the maximum of no rows is NULL.\<close>

definition best_label :: "string list \<Rightarrow> string" where
  "best_label perms = (case perms of [] \<Rightarrow> ''none''
     | p # ps \<Rightarrow> (let best = fold max (map perm_rank ps) (perm_rank p) in
         if best = 3 then ''admin'' else if best = 2 then ''write'' else if best = 1 then ''read'' else ''none''))"

definition user_groups :: "string \<Rightarrow> tables \<Rightarrow> string list" where
  "user_groups user_id t = map gm_group_id (filter (\<lambda>m. gm_user_id m = user_id) (t_group_members t))"

definition owns :: "string \<Rightarrow> space \<Rightarrow> bool" where
  "owns user_id s = (s_owner_type s = ''user'' \<and> s_owner_id s = user_id)"

definition group_owns :: "string \<Rightarrow> tables \<Rightarrow> space \<Rightarrow> bool" where
  "group_owns user_id t s = (s_owner_type s = ''group'' \<and> s_owner_id s \<in> set (user_groups user_id t))"

definition granted_to :: "string \<Rightarrow> space_access \<Rightarrow> bool" where
  "granted_to user_id a = (sa_grantee_type a = ''user'' \<and> sa_grantee_id a = user_id)"

definition granted_to_group :: "string \<Rightarrow> tables \<Rightarrow> space_access \<Rightarrow> bool" where
  "granted_to_group user_id t a = (sa_grantee_type a = ''group'' \<and> sa_grantee_id a \<in> set (user_groups user_id t))"

text \<open>The CTE \<open>perms\<close> of \<open>resolve_user_permission\<close>, a UNION ALL.\<close>

definition perms_on :: "string \<Rightarrow> string \<Rightarrow> tables \<Rightarrow> string list" where
  "perms_on user_id space_id t =
     map (\<lambda>s. ''admin'') (filter (\<lambda>s. s_id s = space_id \<and> owns user_id s) (t_spaces t)) @
     map (\<lambda>s. ''admin'') (filter (\<lambda>s. s_id s = space_id \<and> group_owns user_id t s) (t_spaces t)) @
     map sa_permission (filter (\<lambda>a. sa_space_id a = space_id \<and> granted_to user_id a) (t_space_access t)) @
     map sa_permission (filter (\<lambda>a. sa_space_id a = space_id \<and> granted_to_group user_id t a) (t_space_access t))"

text \<open>The CTE \<open>accessible\<close> of \<open>find_for_user\<close>, a UNION, which drops duplicates.\<close>

definition accessible :: "string \<Rightarrow> string \<Rightarrow> tables \<Rightarrow> string list" where
  "accessible user_id space_id t = remdups (perms_on user_id space_id t)"

text \<open>The CTE \<open>accessible_spaces\<close> of \<open>find_all_for_user\<close>.\<close>

definition accessible_spaces :: "string \<Rightarrow> tables \<Rightarrow> (string \<times> string) list" where
  "accessible_spaces user_id t = remdups (
     map (\<lambda>s. (s_id s, ''admin'')) (filter (owns user_id) (t_spaces t)) @
     map (\<lambda>s. (s_id s, ''admin'')) (filter (group_owns user_id t) (t_spaces t)) @
     map (\<lambda>a. (sa_space_id a, sa_permission a)) (filter (granted_to user_id) (t_space_access t)) @
     map (\<lambda>a. (sa_space_id a, sa_permission a)) (filter (granted_to_group user_id t) (t_space_access t)))"

definition grantee_count :: "tables \<Rightarrow> space \<Rightarrow> int" where
  "grantee_count t s = int (count_where (\<lambda>a. sa_space_id a = s_id s) (t_space_access t))"

definition spaces_of_user :: "string \<Rightarrow> tables \<Rightarrow> space_with_meta list" where
  "spaces_of_user user_id t =
     (let rows = accessible_spaces user_id t;
          perms = (\<lambda>s. map snd (filter (\<lambda>(i, p). i = s_id s) rows))
      in map (\<lambda>s. \<lparr>sw_space = s, sw_grantee_count = grantee_count t s, sw_user_permission = best_label (perms s)\<rparr>)
           (filter (\<lambda>s. perms s \<noteq> []) (t_spaces t)))"

definition space_find_all_for_user :: "string \<Rightarrow> ('z, space_with_meta list) svc" where
  "space_find_all_for_user user_id =
     sqlx (select (\<lambda>t. sort_key (\<lambda>r. s_name (sw_space r)) (spaces_of_user user_id t)))"

definition space_find_for_user :: "string \<Rightarrow> string \<Rightarrow> ('z, space_with_meta option) svc" where
  "space_find_for_user user_id space_id =
     sqlx (select (\<lambda>t. let perm = best_label (accessible user_id space_id t) in
       if perm = ''none'' then None
       else map_option (\<lambda>s. \<lparr>sw_space = s, sw_grantee_count = grantee_count t s, sw_user_permission = perm\<rparr>)
              (List.find (\<lambda>s. s_id s = space_id) (t_spaces t))))"

definition resolve_user_permission :: "string \<Rightarrow> string \<Rightarrow> ('z, string option) svc" where
  "resolve_user_permission user_id space_id =
     sqlx (select (\<lambda>t. let perms = perms_on user_id space_id t in
       if perms = [] then None else Some (best_label perms)))"

section \<open>Space queries\<close>

definition space_find_by_id :: "string \<Rightarrow> ('z, space option) svc" where
  "space_find_by_id i = sqlx (select (\<lambda>t. List.find (\<lambda>s. s_id s = i) (t_spaces t)))"

definition new_space :: "string \<Rightarrow> create_space_params \<Rightarrow> string \<Rightarrow> space" where
  "new_space i params now = \<lparr>s_id = i, s_name = csp_name params, s_owner_type = csp_owner_type params,
     s_owner_id = csp_owner_id params, s_encryption_mode = csp_encryption_mode params,
     s_encrypted_data_key = csp_encrypted_data_key params, s_salt = None, s_verify_blob = None,
     s_recovery_blob = None, s_created_at = now\<rparr>"

definition insert_space :: "string \<Rightarrow> create_space_params \<Rightarrow> string \<Rightarrow> tables \<Rightarrow> sqlx_error + (nat \<times> tables)" where
  "insert_space i params now t =
     (if i \<in> space_ids t then Inl (unique_failed ''spaces.id'')
      else Inr (1, t\<lparr>t_spaces := t_spaces t @ [new_space i params now]\<rparr>))"

definition space_create :: "create_space_params \<Rightarrow> ('z, space) svc" where
  "space_create params =
     bind new_uuid (\<lambda>i.
     bind (map_err Sqlx (exec (insert_space i params))) (\<lambda>_.
     bind (space_find_by_id i) (\<lambda>found.
     ok_or (Internal ''Space was inserted but could not be read back'') found)))"

definition space_update :: "string \<Rightarrow> update_space_params \<Rightarrow> ('z, space) svc" where
  "space_update i params =
     bind (sqlx (exec (\<lambda>now t. Inr (count_where (\<lambda>s. s_id s = i) (t_spaces t),
             t\<lparr>t_spaces := update_where (\<lambda>s. s_id s = i) (\<lambda>s. s\<lparr>s_name := usp_name params\<rparr>) (t_spaces t)\<rparr>)))) (\<lambda>rows_affected.
     bind (reject_if (rows_affected = 0) NotFound) (\<lambda>_.
     bind (space_find_by_id i) (ok_or NotFound)))"

text \<open>\<open>DELETE FROM spaces\<close>; the schema's ON DELETE CASCADE removes the grants.\<close>

definition delete_space_rows :: "string \<Rightarrow> tables \<Rightarrow> nat \<times> tables" where
  "delete_space_rows i t = (count_where (\<lambda>s. s_id s = i) (t_spaces t),
     t\<lparr>t_spaces := filter (\<lambda>s. s_id s \<noteq> i) (t_spaces t),
       t_space_access := filter (\<lambda>a. sa_space_id a \<noteq> i) (t_space_access t)\<rparr>)"

definition space_delete_by_id :: "string \<Rightarrow> ('z, unit) svc" where
  "space_delete_by_id i =
     bind (sqlx (exec (\<lambda>now t. Inr (delete_space_rows i t)))) (\<lambda>rows_affected.
     reject_if (rows_affected = 0) NotFound)"

definition space_find_all_server_mode :: "('z, space list) svc" where
  "space_find_all_server_mode = sqlx (select (\<lambda>t. filter (\<lambda>s. s_encryption_mode s = ''server'') (t_spaces t)))"

section \<open>Access queries\<close>

definition is_grant :: "string \<Rightarrow> string \<Rightarrow> string \<Rightarrow> space_access \<Rightarrow> bool" where
  "is_grant space_id grantee_type grantee_id a =
     (sa_space_id a = space_id \<and> sa_grantee_type a = grantee_type \<and> sa_grantee_id a = grantee_id)"

definition access_find :: "string \<Rightarrow> string \<Rightarrow> string \<Rightarrow> ('z, space_access option) svc" where
  "access_find space_id grantee_type grantee_id =
     sqlx (select (\<lambda>t. List.find (is_grant space_id grantee_type grantee_id) (t_space_access t)))"

definition insert_access :: "space_access \<Rightarrow> tables \<Rightarrow> sqlx_error + (nat \<times> tables)" where
  "insert_access a t =
     (if access_key a \<in> access_key ` set (t_space_access t)
      then Inl (unique_failed ''space_access.space_id, space_access.grantee_type, space_access.grantee_id'')
      else if sa_space_id a \<notin> space_ids t then Inl foreign_key_failed
      else Inr (1, t\<lparr>t_space_access := t_space_access t @ [a]\<rparr>))"

definition access_grant :: "string \<Rightarrow> string \<Rightarrow> string \<Rightarrow> string \<Rightarrow> ('z, space_access) svc" where
  "access_grant space_id grantee_type grantee_id permission =
     bind (map_err (conflict_or_sqlx ''Access already granted to this user or group.'')
             (exec (\<lambda>now. insert_access \<lparr>sa_space_id = space_id, sa_grantee_type = grantee_type,
                sa_grantee_id = grantee_id, sa_permission = permission, sa_granted_at = now\<rparr>))) (\<lambda>_.
     bind (access_find space_id grantee_type grantee_id)
       (ok_or (Internal ''Access grant was inserted but could not be read back'')))"

definition access_revoke :: "string \<Rightarrow> string \<Rightarrow> string \<Rightarrow> ('z, unit) svc" where
  "access_revoke space_id grantee_type grantee_id =
     bind (sqlx (exec (\<lambda>now t. Inr (count_where (is_grant space_id grantee_type grantee_id) (t_space_access t),
             t\<lparr>t_space_access := filter (\<lambda>a. \<not> is_grant space_id grantee_type grantee_id a) (t_space_access t)\<rparr>))))
       (\<lambda>rows_affected. reject_if (rows_affected = 0) NotFound)"

definition access_update_permission :: "string \<Rightarrow> string \<Rightarrow> string \<Rightarrow> string \<Rightarrow> ('z, space_access) svc" where
  "access_update_permission space_id grantee_type grantee_id permission =
     bind (sqlx (exec (\<lambda>now t. Inr (count_where (is_grant space_id grantee_type grantee_id) (t_space_access t),
             t\<lparr>t_space_access := update_where (is_grant space_id grantee_type grantee_id)
               (\<lambda>a. a\<lparr>sa_permission := permission\<rparr>) (t_space_access t)\<rparr>)))) (\<lambda>rows_affected.
     bind (reject_if (rows_affected = 0) NotFound) (\<lambda>_.
     bind (access_find space_id grantee_type grantee_id) (ok_or NotFound)))"

text \<open>Both joins are on a primary key, so they find one row or none.\<close>

definition grantee_name :: "tables \<Rightarrow> space_access \<Rightarrow> string" where
  "grantee_name t a =
     (if sa_grantee_type a = ''user'' then
        (case List.find (\<lambda>u. u_id u = sa_grantee_id a) (t_users t) of Some u \<Rightarrow> u_username u | None \<Rightarrow> ''[deleted user]'')
      else if sa_grantee_type a = ''group'' then
        (case List.find (\<lambda>g. g_id g = sa_grantee_id a) (t_groups t) of Some g \<Rightarrow> g_name g | None \<Rightarrow> ''[deleted group]'')
      else ''[unknown]'')"

definition access_list_with_details :: "string \<Rightarrow> ('z, space_access_detail list) svc" where
  "access_list_with_details space_id = sqlx (select (\<lambda>t.
     sort_key (\<lambda>d. (3 - perm_rank (sa_permission d), sad_grantee_name d))
       (map (\<lambda>a. \<lparr>sa_space_id = sa_space_id a, sa_grantee_type = sa_grantee_type a, sa_grantee_id = sa_grantee_id a,
                sa_permission = sa_permission a, sa_granted_at = sa_granted_at a, sad_grantee_name = grantee_name t a\<rparr>)
         (filter (\<lambda>a. sa_space_id a = space_id) (t_space_access t)))))"

section \<open>Validation\<close>

definition PERM_READ :: string where "PERM_READ = ''read''"
definition PERM_WRITE :: string where "PERM_WRITE = ''write''"
definition PERM_ADMIN :: string where "PERM_ADMIN = ''admin''"

definition permission_level :: "string \<Rightarrow> 8 word" where
  "permission_level perm =
     (if perm = PERM_READ then 1 else if perm = PERM_WRITE then 2 else if perm = PERM_ADMIN then 3 else 0)"

definition validate_space_name :: "string \<Rightarrow> app_error + string" where
  "validate_space_name name0 =
     (let name = trim name0 in
      if length name < NAME_MIN_LEN \<or> length name > NAME_MAX_LEN then
        Inl (Validation (''Space name must be between '' @ show_nat NAME_MIN_LEN @ '' and '' @ show_nat NAME_MAX_LEN
          @ '' characters.''))
      else if list_ex (\<lambda>b. b < 0x20 \<or> b = 0x7F) (as_bytes name) then
        Inl (Validation ''Space name contains invalid control characters.'')
      else Inr name)"

definition validate_permission :: "string \<Rightarrow> app_error + unit" where
  "validate_permission perm =
     (if perm = PERM_READ \<or> perm = PERM_WRITE \<or> perm = PERM_ADMIN then Inr ()
      else Inl (Validation (''Invalid permission '' @ quoted perm @ ''. Must be one of: '' @ PERM_READ @ '', '' @
        PERM_WRITE @ '', '' @ PERM_ADMIN @ ''.'')))"

section \<open>The service\<close>

definition require_permission :: "string \<Rightarrow> string \<Rightarrow> string \<Rightarrow> ('z, unit) svc" where
  "require_permission user_id space_id required =
     bind (resolve_user_permission user_id space_id) (\<lambda>found.
     bind (ok_or NotFound found) (\<lambda>perm.
     reject_if (permission_level perm < permission_level required) Forbidden))"

definition space_dir :: "app_config \<Rightarrow> string \<Rightarrow> path" where
  "space_dir config space_id = path_join (data_dir config) (''spaces/'' @ space_id)"

definition create_space_dir :: "path \<Rightarrow> string \<Rightarrow> ('z, unit) app" where
  "create_space_dir dir space_id = create_realm_directory ''space'' dir space_id"

text \<open>The part \<open>create_space\<close> and \<open>create_group_space\<close> have in common, with the roll-back.\<close>

definition create_owned_space ::
  "crypto \<Rightarrow> app_config \<Rightarrow> byte list \<Rightarrow> string \<Rightarrow> string \<Rightarrow> string \<Rightarrow> ('z world_scheme, app_error, space_with_meta) act"
where
  "create_owned_space C config master_key owner_type owner_id name =
     bind generate_data_key (\<lambda>data_key.
     bind (wrap_data_key C master_key data_key) (\<lambda>encrypted_data_key.
     bind (space_create \<lparr>csp_name = name, csp_owner_type = owner_type, csp_owner_id = owner_id,
             csp_encryption_mode = ''server'', csp_encrypted_data_key = encrypted_data_key\<rparr>) (\<lambda>s.
     let dir = space_dir config (s_id s) in
     bind (attempt (create_space_dir dir (s_id s))) (\<lambda>made. case made of
         Inl e \<Rightarrow> bind (ignore (space_delete_by_id (s_id s))) (\<lambda>_. throw e)
       | Inr _ \<Rightarrow>
           bind (keep_space_key (s_id s) data_key) (\<lambda>_.
           ret \<lparr>sw_space = s, sw_grantee_count = 0, sw_user_permission = PERM_ADMIN\<rparr>)))))"

definition create_space ::
  "crypto \<Rightarrow> app_config \<Rightarrow> byte list \<Rightarrow> string \<Rightarrow> string \<Rightarrow> ('z world_scheme, app_error, space_with_meta) act"
where
  "create_space C config master_key owner_id name0 =
     bind (lift (validate_space_name name0)) (\<lambda>name.
     create_owned_space C config master_key ''user'' owner_id name)"

definition create_group_space ::
  "crypto \<Rightarrow> app_config \<Rightarrow> byte list \<Rightarrow> string \<Rightarrow> string \<Rightarrow> ('z world_scheme, app_error, space_with_meta) act"
where
  "create_group_space C config master_key group_id name0 =
     bind (lift (validate_space_name name0)) (\<lambda>name.
     bind (group_find_by_id group_id) (\<lambda>found.
     bind (ok_or NotFound found) (\<lambda>_.
     create_owned_space C config master_key ''group'' group_id name)))"

definition get_space :: "string \<Rightarrow> string \<Rightarrow> ('z, space_with_meta) svc" where
  "get_space user_id space_id = bind (space_find_for_user user_id space_id) (ok_or NotFound)"

definition list_user_spaces :: "string \<Rightarrow> ('z, space_with_meta list) svc" where
  "list_user_spaces user_id = space_find_all_for_user user_id"

definition update_space :: "string \<Rightarrow> string \<Rightarrow> string \<Rightarrow> ('z, space) svc" where
  "update_space user_id space_id name0 =
     bind (require_permission user_id space_id PERM_ADMIN) (\<lambda>_.
     bind (lift (validate_space_name name0)) (\<lambda>name.
     space_update space_id \<lparr>usp_name = name\<rparr>))"

definition delete_space :: "app_config \<Rightarrow> string \<Rightarrow> string \<Rightarrow> ('z world_scheme, app_error, unit) act" where
  "delete_space config user_id space_id =
     bind (require_permission user_id space_id PERM_ADMIN) (\<lambda>_.
     bind (space_delete_by_id space_id) (\<lambda>_.
     bind (drop_space_key space_id) (\<lambda>_.
     ignore (fs_remove_dir_all (space_dir config space_id)))))"

definition grant_user_access :: "string \<Rightarrow> string \<Rightarrow> string \<Rightarrow> string \<Rightarrow> ('z, space_access) svc" where
  "grant_user_access actor_id space_id target_username permission =
     bind (require_permission actor_id space_id PERM_ADMIN) (\<lambda>_.
     bind (lift (validate_permission permission)) (\<lambda>_.
     bind (user_find_by_username target_username) (\<lambda>found.
     bind (ok_or NotFound found) (\<lambda>target.
     access_grant space_id ''user'' (u_id target) permission))))"

definition grant_group_access :: "string \<Rightarrow> string \<Rightarrow> string \<Rightarrow> string \<Rightarrow> ('z, space_access) svc" where
  "grant_group_access actor_id space_id group_id permission =
     bind (require_permission actor_id space_id PERM_ADMIN) (\<lambda>_.
     bind (lift (validate_permission permission)) (\<lambda>_.
     bind (group_find_by_id group_id) (\<lambda>found.
     bind (ok_or NotFound found) (\<lambda>_.
     access_grant space_id ''group'' group_id permission))))"

definition revoke_access :: "string \<Rightarrow> string \<Rightarrow> string \<Rightarrow> string \<Rightarrow> ('z, unit) svc" where
  "revoke_access actor_id space_id grantee_type grantee_id =
     bind (require_permission actor_id space_id PERM_ADMIN) (\<lambda>_.
     access_revoke space_id grantee_type grantee_id)"

definition update_access_permission ::
  "string \<Rightarrow> string \<Rightarrow> string \<Rightarrow> string \<Rightarrow> string \<Rightarrow> ('z, space_access) svc" where
  "update_access_permission actor_id space_id grantee_type grantee_id permission =
     bind (require_permission actor_id space_id PERM_ADMIN) (\<lambda>_.
     bind (lift (validate_permission permission)) (\<lambda>_.
     access_update_permission space_id grantee_type grantee_id permission))"

definition list_access :: "string \<Rightarrow> string \<Rightarrow> ('z, space_access_detail list) svc" where
  "list_access user_id space_id =
     bind (require_permission user_id space_id PERM_READ) (\<lambda>_. access_list_with_details space_id)"

text \<open>Boot: the keys of the server-mode spaces; a key that does not unwrap is skipped.\<close>

fun load_space_keys :: "crypto \<Rightarrow> byte list \<Rightarrow> space list \<Rightarrow> nat \<Rightarrow> ('z world_scheme, 'e, nat) act" where
  "load_space_keys C master_key [] loaded = ret loaded"
| "load_space_keys C master_key (s # ss) loaded =
     (case unwrap_data_key C master_key (s_encrypted_data_key s) of
        Inr data_key \<Rightarrow> bind (keep_space_key (s_id s) data_key) (\<lambda>_. load_space_keys C master_key ss (loaded + 1))
      | Inl e \<Rightarrow> load_space_keys C master_key ss loaded)"

definition load_server_mode_space_keys :: "crypto \<Rightarrow> byte list \<Rightarrow> ('z world_scheme, app_error, nat) act" where
  "load_server_mode_space_keys C master_key =
     bind space_find_all_server_mode (\<lambda>ss. load_space_keys C master_key ss 0)"

end
