(* ===== verification/Permissions.thy ===== *)
theory Permissions
  imports SpaceService
begin

text \<open>
  Who may do what on a space. The reference is declarative: a user holds a permission by owning
  the space, by belonging to the group that owns it, by a grant, or by a grant to one of their
  groups; the effective permission is the greatest one held. The three permission queries of the
  program, each with its own SQL, are proved to compute it.
\<close>

section \<open>Permissions\<close>

datatype permission = NoPermission | Read | Write | Admin

fun perm_level :: "permission \<Rightarrow> nat" where
  "perm_level NoPermission = 0" | "perm_level Read = 1" | "perm_level Write = 2" | "perm_level Admin = 3"

instantiation permission :: linorder
begin
definition less_eq_permission :: "permission \<Rightarrow> permission \<Rightarrow> bool" where
  "less_eq_permission p q = (perm_level p \<le> perm_level q)"
definition less_permission :: "permission \<Rightarrow> permission \<Rightarrow> bool" where
  "less_permission p q = (perm_level p < perm_level q)"
instance
proof
  fix p q :: permission
  show "p \<le> q \<Longrightarrow> q \<le> p \<Longrightarrow> p = q"
    by (cases p; cases q) (simp_all add: less_eq_permission_def)
qed (auto simp: less_eq_permission_def less_permission_def)
end

definition permission_of :: "string \<Rightarrow> permission" where
  "permission_of s = (if s = ''admin'' then Admin else if s = ''write'' then Write else if s = ''read'' then Read
     else NoPermission)"

fun label :: "permission \<Rightarrow> string" where
  "label NoPermission = ''none''" | "label Read = ''read''" | "label Write = ''write''" | "label Admin = ''admin''"

lemma permission_of_label [simp]: "permission_of (label p) = p"
  by (cases p) (simp_all add: permission_of_def)

lemma label_inject [simp]: "label p = label q \<longleftrightarrow> p = q"
  by (metis permission_of_label)

lemma label_none [simp]: "label p = ''none'' \<longleftrightarrow> p = NoPermission"
  by (cases p) simp_all

section \<open>The reference\<close>

inductive holds :: "tables \<Rightarrow> string \<Rightarrow> string \<Rightarrow> string \<Rightarrow> bool" for t uid sid where
  owner: "\<lbrakk>s \<in> set (t_spaces t); s_id s = sid; s_owner_type s = ''user''; s_owner_id s = uid\<rbrakk>
    \<Longrightarrow> holds t uid sid ''admin''"
| owner_group: "\<lbrakk>s \<in> set (t_spaces t); s_id s = sid; s_owner_type s = ''group''; m \<in> set (t_group_members t);
    gm_user_id m = uid; gm_group_id m = s_owner_id s\<rbrakk> \<Longrightarrow> holds t uid sid ''admin''"
| direct: "\<lbrakk>a \<in> set (t_space_access t); sa_space_id a = sid; sa_grantee_type a = ''user''; sa_grantee_id a = uid\<rbrakk>
    \<Longrightarrow> holds t uid sid (sa_permission a)"
| via_group: "\<lbrakk>a \<in> set (t_space_access t); sa_space_id a = sid; sa_grantee_type a = ''group''; m \<in> set (t_group_members t);
    gm_user_id m = uid; gm_group_id m = sa_grantee_id a\<rbrakk> \<Longrightarrow> holds t uid sid (sa_permission a)"

definition effective :: "tables \<Rightarrow> string \<Rightarrow> string \<Rightarrow> permission option" where
  "effective t uid sid = (if Collect (holds t uid sid) = {} then None
     else Some (Max (permission_of ` Collect (holds t uid sid))))"

section \<open>The queries compute it\<close>

lemma in_user_groups: "g \<in> set (user_groups uid t) \<longleftrightarrow> (\<exists>m \<in> set (t_group_members t). gm_user_id m = uid \<and> gm_group_id m = g)"
  by (auto simp: user_groups_def)

lemma perms_on_holds: "set (perms_on uid sid t) = Collect (holds t uid sid)"
proof -
  have "p \<in> set (perms_on uid sid t) \<Longrightarrow> holds t uid sid p" for p
    by (auto simp: perms_on_def owns_def group_owns_def granted_to_def granted_to_group_def in_user_groups
        intro: holds.intros)
  moreover have "holds t uid sid p \<Longrightarrow> p \<in> set (perms_on uid sid t)" for p
    by (induction rule: holds.induct)
      (force simp: perms_on_def owns_def group_owns_def granted_to_def granted_to_group_def in_user_groups)+
  ultimately show ?thesis by auto
qed

lemma rank_level: "perm_rank s = perm_level (permission_of s)"
  by (simp add: perm_rank_def permission_of_def)

lemma fold_max_level:
  "fold max (map perm_rank ps) (perm_level q) = perm_level (fold max (map permission_of ps) q)"
proof (induction ps arbitrary: q)
  case (Cons p ps)
  have "max (perm_level a) (perm_level b) = perm_level (max a b)" for a b
    by (simp add: max_def less_eq_permission_def)
  then show ?case using Cons [of "max (permission_of p) q"] by (simp add: rank_level)
qed simp

lemma fold_max_Max: "fold max qs (q :: permission) = Max (insert q (set qs))"
  using Max.set_eq_fold [of q qs] by simp

lemma best_label_Max:
  "ps \<noteq> [] \<Longrightarrow> best_label ps = label (Max (permission_of ` set ps))"
proof -
  assume "ps \<noteq> []"
  then obtain p qs where ps: "ps = p # qs" by (cases ps) auto
  have "fold max (map perm_rank qs) (perm_rank p) = perm_level (Max (permission_of ` set ps))"
    by (simp only: rank_level [of p] fold_max_level fold_max_Max) (simp add: ps)
  then show ?thesis
    unfolding ps best_label_def Let_def list.case by (cases "Max (permission_of ` set ps)") (simp_all add: ps)
qed

lemma best_label_effective: "effective t uid sid = Some p \<Longrightarrow> set ps = Collect (holds t uid sid) \<Longrightarrow> best_label ps = label p"
  using best_label_Max [of ps] by (cases ps) (auto simp: effective_def split: if_splits)

lemma effective_empty: "set ps = Collect (holds t uid sid) \<Longrightarrow> ps = [] \<longleftrightarrow> effective t uid sid = None"
  by (cases ps) (auto simp: effective_def)

lemma effective_None: "effective t uid sid = None \<longleftrightarrow> perms_on uid sid t = []"
  using effective_empty [OF perms_on_holds] by blast

lemma effective_code [code]:
  "effective t uid sid = (case perms_on uid sid t of [] \<Rightarrow> None
     | p # ps \<Rightarrow> Some (fold max (map permission_of ps) (permission_of p)))"
proof -
  have "permission_of ` Collect (holds t uid sid) = insert (permission_of p) (set (map permission_of ps))"
    if "perms_on uid sid t = p # ps" for p ps
    using perms_on_holds [of uid sid t] that by (simp flip: perms_on_holds)
  then show ?thesis
    using effective_None [of t uid sid] by (auto simp: effective_def fold_max_Max split: list.splits if_splits)
qed

lemma resolve_effective:
  "(let perms = perms_on uid sid t in if perms = [] then None else Some (best_label perms)) = map_option label (effective t uid sid)"
  using effective_None [of t uid sid] best_label_effective [of t uid sid _ "perms_on uid sid t"] perms_on_holds
  by (cases "effective t uid sid") (auto simp: Let_def)

lemma reads_resolve:
  "reads (\<lambda>t. Inr (map_option label (effective t uid sid))) (resolve_user_permission uid sid)"
  unfolding resolve_user_permission_def resolve_effective by (rule reads_select)

definition space_of :: "tables \<Rightarrow> string \<Rightarrow> space option" where
  "space_of t sid = List.find (\<lambda>s. s_id s = sid) (t_spaces t)"

definition space_view :: "tables \<Rightarrow> string \<Rightarrow> string \<Rightarrow> space_with_meta option" where
  "space_view t uid sid = (case (effective t uid sid, space_of t sid) of
     (Some p, Some s) \<Rightarrow> if p = NoPermission then None
       else Some \<lparr>sw_space = s, sw_grantee_count = grantee_count t s, sw_user_permission = label p\<rparr>
   | _ \<Rightarrow> None)"

lemma accessible_effective:
  "best_label (accessible uid sid t) = (case effective t uid sid of None \<Rightarrow> ''none'' | Some p \<Rightarrow> label p)"
proof (cases "effective t uid sid")
  case None
  then show ?thesis using effective_None [of t uid sid] by (simp add: accessible_def best_label_def)
next
  case (Some p)
  then show ?thesis using best_label_effective [OF Some, of "accessible uid sid t"] perms_on_holds by (simp add: accessible_def)
qed

lemma reads_find_for_user: "reads (\<lambda>t. Inr (space_view t uid sid)) (space_find_for_user uid sid)"
proof -
  have "(let perm = best_label (accessible uid sid t) in if perm = ''none'' then None
       else map_option (\<lambda>s. \<lparr>sw_space = s, sw_grantee_count = grantee_count t s, sw_user_permission = perm\<rparr>)
              (List.find (\<lambda>s. s_id s = sid) (t_spaces t))) = space_view t uid sid" for t
    by (simp add: accessible_effective space_view_def space_of_def split: option.splits)
  then show ?thesis unfolding space_find_for_user_def by (simp add: reads_select)
qed

lemma accessible_spaces_holds: "(sid, p) \<in> set (accessible_spaces uid t) \<longleftrightarrow> holds t uid sid p"
proof -
  have "(sid, p) \<in> set (accessible_spaces uid t) \<longleftrightarrow> p \<in> set (perms_on uid sid t)"
    by (auto simp: accessible_spaces_def perms_on_def)
  then show ?thesis by (simp add: perms_on_holds)
qed

lemma spaces_of_user_effective:
  "spaces_of_user uid t = map (\<lambda>s. \<lparr>sw_space = s, sw_grantee_count = grantee_count t s,
       sw_user_permission = label (the (effective t uid (s_id s)))\<rparr>)
     (filter (\<lambda>s. effective t uid (s_id s) \<noteq> None) (t_spaces t))"
proof -
  let ?perms = "\<lambda>s :: space. map snd (filter (\<lambda>(i, p). i = s_id s) (accessible_spaces uid t))"
  have perms: "set (?perms s) = Collect (holds t uid (s_id s))" for s :: space
    by (force simp: accessible_spaces_holds [symmetric])
  have ne: "(\<lambda>s. ?perms s \<noteq> []) = (\<lambda>s. effective t uid (s_id s) \<noteq> None)"
    by (rule ext) (metis effective_empty [OF perms])
  have "best_label (?perms s) = label (the (effective t uid (s_id s)))" if "effective t uid (s_id s) \<noteq> None" for s :: space
    using best_label_effective [OF _ perms] that by force
  then show ?thesis unfolding spaces_of_user_def Let_def ne by (intro map_cong [OF refl]) simp
qed

text \<open>
  C22. The three permission queries agree with the reference and so with each other. Whatever the
  tables, on a server whose statements run: \<open>resolve_user_permission\<close> answers the greatest
  permission held, or nothing when none is held; \<open>get_space\<close> shows a space exactly to those who
  hold more than \<open>none\<close> on it, with that permission; and \<open>list_user_spaces\<close> lists the spaces on
  which anything is held, with it, ordered by name.
\<close>

theorem permission_queries_agree:
  assumes calm: "calm w"
  shows "fst (resolve_user_permission uid sid w) = Inr (map_option label (effective (tb w) uid sid)) \<and>
    fst (get_space uid sid w) = (case space_view (tb w) uid sid of None \<Rightarrow> Inl NotFound | Some r \<Rightarrow> Inr r) \<and>
    (\<exists>rs. fst (list_user_spaces uid w) = Inr rs \<and> sorted (map (\<lambda>r. s_name (sw_space r)) rs) \<and>
       (\<forall>s p. (\<exists>r \<in> set rs. sw_space r = s \<and> sw_user_permission r = label p) \<longleftrightarrow>
          s \<in> set (t_spaces (tb w)) \<and> effective (tb w) uid (s_id s) = Some p))"
proof (intro conjI)
  show "fst (resolve_user_permission uid sid w) = Inr (map_option label (effective (tb w) uid sid))"
    using reads_resolve [of uid sid] calm unfolding reads_def by blast
  have "reads (then_read (\<lambda>t. Inr (space_view t uid sid)) (\<lambda>r t. case r of None \<Rightarrow> Inl NotFound | Some x \<Rightarrow> Inr x))
      (get_space uid sid)"
    unfolding get_space_def by (intro reads_bind reads_find_for_user reads_pure)
  then have "fst (get_space uid sid w) = then_read (\<lambda>t. Inr (space_view t uid sid))
      (\<lambda>r t. case r of None \<Rightarrow> Inl NotFound | Some x \<Rightarrow> Inr x) (tb w)"
    using calm unfolding reads_def by blast
  then show "fst (get_space uid sid w) = (case space_view (tb w) uid sid of None \<Rightarrow> Inl NotFound | Some r \<Rightarrow> Inr r)"
    by (simp add: then_read_def)
  let ?rs = "sort_key (\<lambda>r. s_name (sw_space r)) (spaces_of_user uid (tb w))"
  have "fst (list_user_spaces uid w) = Inr ?rs"
    using calm by (simp add: list_user_spaces_def space_find_all_for_user_def run_select calm_def)
  moreover have "(\<exists>r \<in> set ?rs. sw_space r = s \<and> sw_user_permission r = label p) \<longleftrightarrow>
      s \<in> set (t_spaces (tb w)) \<and> effective (tb w) uid (s_id s) = Some p" for s p
    by (auto simp: spaces_of_user_effective)
  ultimately show "\<exists>rs. fst (list_user_spaces uid w) = Inr rs \<and> sorted (map (\<lambda>r. s_name (sw_space r)) rs) \<and>
       (\<forall>s p. (\<exists>r \<in> set rs. sw_space r = s \<and> sw_user_permission r = label p) \<longleftrightarrow>
          s \<in> set (t_spaces (tb w)) \<and> effective (tb w) uid (s_id s) = Some p)"
    by (intro exI [of _ ?rs]) simp
qed

section \<open>The checks of the service and of the guards\<close>

definition allowed :: "tables \<Rightarrow> string \<Rightarrow> string \<Rightarrow> permission \<Rightarrow> app_error + unit" where
  "allowed t uid sid p = (case effective t uid sid of None \<Rightarrow> Inl NotFound
     | Some q \<Rightarrow> if q < p then Inl Forbidden else Inr ())"

lemma level_less: "permission_level (label p) < permission_level (label q) \<longleftrightarrow> p < q"
  by (cases p; cases q)
    (simp_all add: permission_level_def less_permission_def PERM_READ_def PERM_WRITE_def PERM_ADMIN_def)

lemma reads_require_permission: "reads (\<lambda>t. allowed t uid sid p) (require_permission uid sid (label p))"
  unfolding require_permission_def
  by (rule reads_eq, (rule reads_resolve reads_rules)+)
    (auto simp: fun_eq_iff then_read_def allowed_def level_less split: option.splits)

end
