(* ===== verification/GroupFacts.thy ===== *)
theory GroupFacts
  imports GroupService
begin

text \<open>
  Properties of groups: the service refines a roster of roles, a group has exactly one owner, its
  creator, and the constraints of the schema survive every request.
\<close>

section \<open>The service as functions of the tables\<close>

definition member_of :: "tables \<Rightarrow> string \<Rightarrow> string \<Rightarrow> group_member option" where
  "member_of t gid uid = List.find (is_membership gid uid) (t_group_members t)"

definition group_of :: "tables \<Rightarrow> string \<Rightarrow> group_row option" where
  "group_of t gid = List.find (\<lambda>g. g_id g = gid) (t_groups t)"

lemma count_membership [simp]:
  "count_where (is_membership gid uid) (t_group_members t) = 0 \<longleftrightarrow> member_of t gid uid = None"
  using count_where_0 [of "is_membership gid uid" "t_group_members t"]
    find_some_iff [of "is_membership gid uid" "t_group_members t"] by (auto simp: member_of_def)

lemma count_group [simp]: "count_where (\<lambda>g. g_id g = gid) (t_groups t) = 0 \<longleftrightarrow> group_of t gid = None"
  using count_where_0 [of "\<lambda>g. g_id g = gid" "t_groups t"]
    find_some_iff [of "\<lambda>g. g_id g = gid" "t_groups t"] by (auto simp: group_of_def)

lemma reads_group_find: "reads (\<lambda>t. Inr (group_of t gid)) (group_find_by_id gid)"
  unfolding group_find_by_id_def group_of_def by (rule reads_select)

lemma reads_member_find: "reads (\<lambda>t. Inr (member_of t gid uid)) (member_find gid uid)"
  unfolding member_find_def member_of_def by (rule reads_select)

definition user_named :: "tables \<Rightarrow> string \<Rightarrow> user option" where
  "user_named t n = map_option user.truncate (List.find (\<lambda>u. u_username u = n) (t_users t))"

lemma reads_user_find: "reads (\<lambda>t. Inr (user_named t n)) (user_find_by_username n)"
  unfolding user_find_by_username_def find_user_def user_named_def by (rule reads_select)

definition check_member :: "string \<Rightarrow> string \<Rightarrow> tables \<Rightarrow> app_error + unit" where
  "check_member gid uid t = (if member_of t gid uid = None then Inl NotFound else Inr ())"

definition check_manager :: "string \<Rightarrow> string \<Rightarrow> tables \<Rightarrow> app_error + unit" where
  "check_manager gid uid t = (case member_of t gid uid of None \<Rightarrow> Inl NotFound
     | Some m \<Rightarrow> if gm_role m \<noteq> ROLE_OWNER \<and> gm_role m \<noteq> ROLE_MANAGER then Inl Forbidden else Inr ())"

lemma reads_require_member: "reads (check_member gid uid) (require_member gid uid)"
  unfolding require_member_def is_member_def
  by (rule reads_eq, (rule reads_rules)+) (auto simp: fun_eq_iff then_read_def check_member_def)

lemma reads_require_manager: "reads (check_manager gid uid) (require_manager_or_owner gid uid)"
  unfolding require_manager_or_owner_def
  by (rule reads_eq, (rule reads_member_find reads_rules)+)
    (auto simp: fun_eq_iff then_read_def check_manager_def split: option.splits)

lemmas group_reads = reads_group_find reads_member_find reads_user_find reads_require_member reads_require_manager

definition without_member :: "string \<Rightarrow> string \<Rightarrow> tables \<Rightarrow> tables" where
  "without_member gid uid t =
     t\<lparr>t_group_members := filter (\<lambda>m. \<not> is_membership gid uid m) (t_group_members t)\<rparr>"

definition with_role :: "string \<Rightarrow> string \<Rightarrow> string \<Rightarrow> tables \<Rightarrow> tables" where
  "with_role gid uid role t = t\<lparr>t_group_members := update_where (is_membership gid uid)
     (\<lambda>m. m\<lparr>gm_role := role\<rparr>) (t_group_members t)\<rparr>"

definition remove_member_tables :: "string \<Rightarrow> string \<Rightarrow> string \<Rightarrow> tables \<Rightarrow> (app_error + unit) \<times> tables" where
  "remove_member_tables a gid x t = (case group_of t gid of None \<Rightarrow> (Inl NotFound, t)
     | Some g \<Rightarrow> if x = g_created_by g then (Inl (Validation ''The group owner cannot be removed.''), t)
        else case (if a = x then check_member gid a t else check_manager gid a t) of
            Inl e \<Rightarrow> (Inl e, t)
          | Inr _ \<Rightarrow> if member_of t gid x = None then (Inl NotFound, t) else (Inr (), without_member gid x t))"

lemma no_member_filter: "member_of t gid uid = None \<Longrightarrow> without_member gid uid t = t"
  using find_some_iff [of "is_membership gid uid" "t_group_members t"]
  by (auto simp: without_member_def member_of_def filter_id_conv)

lemma no_member_role: "member_of t gid uid = None \<Longrightarrow> with_role gid uid role t = t"
  using find_some_iff [of "is_membership gid uid" "t_group_members t"]
  by (auto simp: with_role_def member_of_def update_where_def map_idI)

lemma implements_remove_member: "implements (\<lambda>now i. remove_member_tables a gid x) (remove_member a gid x)"
  unfolding remove_member_def member_remove_def Let_def bind_sqlx_exec
  by (rule implements_eq, (rule implements_rules group_reads reads_rules)+)
    (auto simp: fun_eq_iff remove_member_tables_def no_member_filter
     without_member_def [symmetric] split: option.splits sum.splits)

definition update_role_tables :: "string \<Rightarrow> string \<Rightarrow> string \<Rightarrow> string \<Rightarrow> tables \<Rightarrow> (app_error + group_member) \<times> tables" where
  "update_role_tables a gid x role t = (case group_of t gid of None \<Rightarrow> (Inl NotFound, t)
     | Some g \<Rightarrow> if g_created_by g \<noteq> a then (Inl Forbidden, t)
        else if x = g_created_by g then (Inl (Validation ''Cannot change the owner's role.''), t)
        else case validate_role role of Inl e \<Rightarrow> (Inl e, t)
          | Inr _ \<Rightarrow> if role = ROLE_OWNER then (Inl (Validation ''Cannot assign the owner role.''), t)
             else case member_of t gid x of None \<Rightarrow> (Inl NotFound, t)
               | Some m \<Rightarrow> (Inr (m\<lparr>gm_role := role\<rparr>), with_role gid x role t))"

lemma member_of_with_role:
  "member_of (with_role gid uid role t) gid' uid' =
    map_option (\<lambda>m. if gid' = gid \<and> uid' = uid then m\<lparr>gm_role := role\<rparr> else m) (member_of t gid' uid')"
proof -
  have "List.find (is_membership gid' uid') (update_where (is_membership gid uid) (\<lambda>m. m\<lparr>gm_role := role\<rparr>) ms) =
    map_option (\<lambda>m. if gid' = gid \<and> uid' = uid then m\<lparr>gm_role := role\<rparr> else m) (List.find (is_membership gid' uid') ms)" for ms
    by (induction ms) (auto simp: update_where_def is_membership_def)
  then show ?thesis by (simp add: member_of_def with_role_def)
qed

lemma implements_update_member_role:
  "implements (\<lambda>now i. update_role_tables a gid x role) (update_member_role a gid x role)"
  unfolding update_member_role_def member_update_role_def bind_sqlx_exec
  by (rule implements_eq, (rule implements_rules group_reads reads_rules)+)
    (auto simp: fun_eq_iff update_role_tables_def check_member_def then_read_def member_of_with_role
     with_role_def [symmetric] split: option.splits sum.splits)

definition delete_group_tables :: "string \<Rightarrow> string \<Rightarrow> tables \<Rightarrow> (app_error + unit) \<times> tables" where
  "delete_group_tables a gid t = (case group_of t gid of None \<Rightarrow> (Inl NotFound, t)
     | Some g \<Rightarrow> if g_created_by g \<noteq> a then (Inl Forbidden, t) else (Inr (), snd (delete_group_rows gid t)))"

lemma implements_delete_group: "implements (\<lambda>now i. delete_group_tables a gid) (delete_group a gid)"
  unfolding delete_group_def group_delete_by_id_def bind_sqlx_exec
  by (rule implements_eq, (rule implements_rules group_reads reads_rules)+)
    (auto simp: fun_eq_iff delete_group_tables_def delete_group_rows_def split: option.splits sum.splits)

definition new_member :: "string \<Rightarrow> string \<Rightarrow> string \<Rightarrow> string \<Rightarrow> group_member" where
  "new_member gid uid role now = \<lparr>gm_group_id = gid, gm_user_id = uid, gm_role = role, gm_joined_at = now\<rparr>"

definition member_add_tables :: "string \<Rightarrow> string \<Rightarrow> string \<Rightarrow> string \<Rightarrow> tables \<Rightarrow> (app_error + group_member) \<times> tables" where
  "member_add_tables gid uid role now t =
     (let m = new_member gid uid role now in
      case insert_member m t of
        Inl e \<Rightarrow> (Inl (conflict_or_sqlx ''This user is already a member of the group.'' e), t)
      | Inr (n, t') \<Rightarrow> (Inr m, t'))"

lemma member_key_in: "(gid, uid) \<in> member_key ` set (t_group_members t) \<longleftrightarrow> member_of t gid uid \<noteq> None"
  using find_some_iff [of "is_membership gid uid" "t_group_members t"]
  by (auto simp: member_of_def member_key_def is_membership_def image_iff)

lemma new_member_fields [simp]:
  "gm_role (new_member gid uid role now) = role" "is_membership g x (new_member gid uid role now) = (gid = g \<and> uid = x)"
  by (simp_all add: new_member_def is_membership_def)

lemma insert_new_member:
  "insert_member (new_member gid uid role now) t =
    (if member_of t gid uid \<noteq> None then Inl (unique_failed ''group_members.group_id, group_members.user_id'')
     else if gid \<notin> group_ids t \<or> uid \<notin> user_ids t then Inl foreign_key_failed
     else Inr (1, t\<lparr>t_group_members := t_group_members t @ [new_member gid uid role now]\<rparr>))"
  using member_key_in [of gid uid t] by (simp add: insert_member_def new_member_def member_key_def)

lemma member_of_append:
  "member_of (t\<lparr>t_group_members := t_group_members t @ [m]\<rparr>) gid uid =
     (case member_of t gid uid of Some x \<Rightarrow> Some x
      | None \<Rightarrow> if is_membership gid uid m then Some m else None)"
proof -
  have "List.find P (ms @ [m]) = (case List.find P ms of Some x \<Rightarrow> Some x | None \<Rightarrow> if P m then Some m else None)" for P ms
    by (induction ms) auto
  then show ?thesis by (simp add: member_of_def)
qed

lemma member_of_new:
  "member_of (t\<lparr>t_group_members := t_group_members t @ [new_member gid uid role now]\<rparr>) gid' uid' =
     (if gid' = gid \<and> uid' = uid \<and> member_of t gid uid = None then Some (new_member gid uid role now)
      else member_of t gid' uid')"
  by (auto simp: member_of_append split: option.splits)

lemma implements_member_add: "implements (\<lambda>now i. member_add_tables gid uid role now) (member_add gid uid role)"
  unfolding member_add_def
  by (rule implements_eq, (rule implements_rules group_reads reads_rules)+)
    (auto simp: fun_eq_iff member_add_tables_def then_read_def member_of_append Let_def
      insert_new_member new_member_def [symmetric] split: option.splits sum.splits if_splits)

definition add_member_tables ::
  "string \<Rightarrow> string \<Rightarrow> string \<Rightarrow> string \<Rightarrow> string \<Rightarrow> tables \<Rightarrow> (app_error + group_member) \<times> tables" where
  "add_member_tables a gid name role now t = (case check_manager gid a t of Inl e \<Rightarrow> (Inl e, t)
     | Inr _ \<Rightarrow> (case validate_role role of Inl e \<Rightarrow> (Inl e, t)
     | Inr _ \<Rightarrow> if role = ROLE_OWNER
         then (Inl (Validation ''Cannot assign the owner role. There can only be one owner.''), t)
         else (case user_named t name of None \<Rightarrow> (Inl NotFound, t)
           | Some u \<Rightarrow> member_add_tables gid (u_id u) role now t)))"

lemma implements_add_member: "implements (\<lambda>now i. add_member_tables a gid name role now) (add_member a gid name role)"
  unfolding add_member_def
  by (rule implements_eq, (rule implements_rules implements_member_add group_reads reads_rules)+)
    (auto simp: fun_eq_iff add_member_tables_def split: option.splits sum.splits)

definition group_named :: "tables \<Rightarrow> string \<Rightarrow> group_row option" where
  "group_named t n = List.find (\<lambda>g. g_name g = n) (t_groups t)"

lemma reads_group_named: "reads (\<lambda>t. Inr (group_named t n)) (group_find_by_name n)"
  unfolding group_find_by_name_def group_named_def by (rule reads_select)

definition update_group_tables :: "string \<Rightarrow> string \<Rightarrow> string \<Rightarrow> string option \<Rightarrow> tables \<Rightarrow> (app_error + unit) \<times> tables" where
  "update_group_tables a gid name0 description0 t = (case check_manager gid a t of Inl e \<Rightarrow> (Inl e, t)
     | Inr _ \<Rightarrow> (case validate_group_name name0 of Inl e \<Rightarrow> (Inl e, t)
     | Inr name \<Rightarrow> (case validate_description description0 of Inl e \<Rightarrow> (Inl e, t)
     | Inr description \<Rightarrow> if (case group_named t name of None \<Rightarrow> False | Some g \<Rightarrow> g_id g \<noteq> gid)
         then (Inl (Conflict group_name_taken), t)
         else case update_group_row gid \<lparr>ugp_name = name, ugp_description = description\<rparr> t of
             Inl e \<Rightarrow> (Inl (conflict_or_sqlx group_name_taken e), t)
           | Inr (n, t') \<Rightarrow> if n = 0 then (Inl NotFound, t') else (Inr (), t'))))"

lemma group_of_update:
  assumes "\<And>g. g_id (f g) = g_id g"
  shows "group_of (t\<lparr>t_groups := update_where (\<lambda>g. g_id g = gid) f (t_groups t)\<rparr>) gid' =
    map_option (\<lambda>g. if gid' = gid then f g else g) (group_of t gid')"
proof -
  have "List.find (\<lambda>g. g_id g = gid') (update_where (\<lambda>g. g_id g = gid) f gs) =
    map_option (\<lambda>g. if gid' = gid then f g else g) (List.find (\<lambda>g. g_id g = gid') gs)" for gs
    using assms by (induction gs) (auto simp: update_where_def)
  then show ?thesis by (simp add: group_of_def)
qed

lemma implements_update_group:
  "implements (\<lambda>now i. update_group_tables a gid name d) (bind (update_group a gid name d) (\<lambda>_. ret ()))"
  unfolding update_group_def group_update_def bind_assoc
  by (rule implements_eq, (rule implements_rules reads_group_named group_reads reads_rules)+)
    (auto simp: fun_eq_iff update_group_tables_def then_read_def update_group_row_def group_of_update
      split: option.splits sum.splits if_splits)

section \<open>Rosters\<close>

text \<open>
  What a group is to its users: its creator and the role of each member. The requests of the
  group service are operations on rosters; \<open>users\<close> resolves a username.
\<close>

type_synonym roster = "string \<Rightarrow> (string \<times> (string \<Rightarrow> string option)) option"

datatype group_request =
    UpdateGroup (actor: string) string string "string option"
  | DeleteGroup (actor: string) string
  | AddMember (actor: string) string string string
  | RemoveMember (actor: string) string string
  | UpdateRole (actor: string) string string string

definition unit_of :: "('w, 'e, 'a) act \<Rightarrow> ('w, 'e, unit) act" where
  "unit_of m = bind m (\<lambda>_. ret ())"

fun serve_group :: "group_request \<Rightarrow> ('z, unit) svc" where
  "serve_group (UpdateGroup a gid name d) = unit_of (update_group a gid name d)"
| "serve_group (DeleteGroup a gid) = delete_group a gid"
| "serve_group (AddMember a gid name role) = unit_of (add_member a gid name role)"
| "serve_group (RemoveMember a gid x) = remove_member a gid x"
| "serve_group (UpdateRole a gid x role) = unit_of (update_member_role a gid x role)"

definition roster_of :: "tables \<Rightarrow> roster" where
  "roster_of t gid = map_option (\<lambda>g. (g_created_by g, \<lambda>uid. map_option gm_role (member_of t gid uid))) (group_of t gid)"

definition manages :: "(string \<Rightarrow> string option) \<Rightarrow> string \<Rightarrow> bool" where
  "manages roles a = (roles a = Some ROLE_OWNER \<or> roles a = Some ROLE_MANAGER)"

fun roster_step :: "(string \<Rightarrow> string option) \<Rightarrow> group_request \<Rightarrow> roster \<Rightarrow> roster" where
  "roster_step users (UpdateGroup a gid name d) R = R"
| "roster_step users (DeleteGroup a gid) R = (case R gid of None \<Rightarrow> R
     | Some (c, roles) \<Rightarrow> if a = c then R(gid := None) else R)"
| "roster_step users (AddMember a gid name role) R = (case (R gid, users name) of
       (Some (c, roles), Some x) \<Rightarrow>
         if manages roles a \<and> role \<in> {ROLE_MANAGER, ROLE_MEMBER} \<and> roles x = None
         then R(gid := Some (c, roles(x := Some role))) else R
     | _ \<Rightarrow> R)"
| "roster_step users (RemoveMember a gid x) R = (case R gid of None \<Rightarrow> R
     | Some (c, roles) \<Rightarrow> if x \<noteq> c \<and> (a = x \<or> manages roles a)
         then R(gid := Some (c, roles(x := None))) else R)"
| "roster_step users (UpdateRole a gid x role) R = (case R gid of None \<Rightarrow> R
     | Some (c, roles) \<Rightarrow> if a = c \<and> x \<noteq> c \<and> role \<in> {ROLE_MANAGER, ROLE_MEMBER} \<and> roles x \<noteq> None
         then R(gid := Some (c, roles(x := Some role))) else R)"

definition user_id_named :: "tables \<Rightarrow> string \<Rightarrow> string option" where
  "user_id_named t name = map_option u_id (user_named t name)"

lemmas roles = ROLE_OWNER_def ROLE_MANAGER_def ROLE_MEMBER_def

lemma group_of_same [simp]:
  "group_of (without_member gid uid t) = group_of t" "group_of (with_role gid uid role t) = group_of t"
  "group_of (t\<lparr>t_group_members := ms\<rparr>) = group_of t"
  by (simp_all add: fun_eq_iff group_of_def without_member_def with_role_def)

lemma member_of_without:
  "member_of (without_member gid uid t) gid' uid' = (if gid' = gid \<and> uid' = uid then None else member_of t gid' uid')"
  by (auto simp: member_of_def without_member_def is_membership_def intro!: find_filter_in find_filter_out)

lemma group_of_delete: "group_of (snd (delete_group_rows gid t)) gid' = (if gid' = gid then None else group_of t gid')"
  by (auto simp: group_of_def delete_group_rows_def intro!: find_filter_in find_filter_out)

lemma member_of_delete:
  "gid' \<noteq> gid \<Longrightarrow> member_of (snd (delete_group_rows gid t)) gid' uid = member_of t gid' uid"
  by (auto simp: member_of_def delete_group_rows_def is_membership_def intro!: find_filter_in)

lemma member_has_group: "tables_ok t \<Longrightarrow> member_of t gid uid = Some m \<Longrightarrow> gid \<in> group_ids t \<and> gm_role m = gm_role m"
  by (auto simp: tables_ok_def members_ok_def member_of_def is_membership_def dest!: find_Some_mem)

lemma group_of_iff: "gid \<in> group_ids t \<longleftrightarrow> group_of t gid \<noteq> None"
  using find_some_iff [of "\<lambda>g. g_id g = gid" "t_groups t"] by (auto simp: group_of_def group_ids_def)

lemma user_named_id: "user_named t name = Some u \<Longrightarrow> u_id u \<in> user_ids t"
  by (auto simp: user_named_def user_ids_def user.truncate_def dest!: find_Some_mem)

lemma roster_delete:
  "roster_of (snd (delete_group_tables a gid t)) = roster_step (user_id_named t) (DeleteGroup a gid) (roster_of t)"
  by (auto simp: delete_group_tables_def roster_of_def fun_eq_iff group_of_delete member_of_delete split: option.splits)

lemma roster_remove:
  "roster_of (snd (remove_member_tables a gid x t)) = roster_step (user_id_named t) (RemoveMember a gid x) (roster_of t)"
  by (auto simp: remove_member_tables_def roster_of_def fun_eq_iff member_of_without check_member_def check_manager_def
      manages_def split: option.splits sum.splits)

lemma roster_update_role:
  "roster_of (snd (update_role_tables a gid x role t)) = roster_step (user_id_named t) (UpdateRole a gid x role) (roster_of t)"
  by (auto simp: update_role_tables_def roster_of_def fun_eq_iff member_of_with_role validate_role_def roles option.map_ident
      split: option.splits sum.splits if_splits)

lemma roster_add:
  assumes ok: "tables_ok t"
  shows "roster_of (snd (add_member_tables a gid name role now t)) =
    roster_step (user_id_named t) (AddMember a gid name role) (roster_of t)"
proof -
  have "gid \<in> group_ids t" if "check_manager gid a t = Inr ()"
    using that member_has_group [OF ok] by (auto simp: check_manager_def split: option.splits)
  then show ?thesis
    using user_named_id [of t name]
    by (auto simp: add_member_tables_def member_add_tables_def roster_of_def fun_eq_iff member_of_new
        check_manager_def manages_def user_id_named_def insert_new_member
        validate_role_def roles group_of_iff Let_def split: option.splits sum.splits if_splits)
qed

lemma roster_update_group:
  "roster_of (snd (update_group_tables a gid name d t)) = roster_of t"
proof -
  have same: "roster_of (t\<lparr>t_groups := update_where (\<lambda>g. g_id g = gid) f (t_groups t)\<rparr>) = roster_of t"
    if "\<And>g. g_id (f g) = g_id g" "\<And>g. g_created_by (f g) = g_created_by g" for f
  proof (rule ext)
    fix x
    show "roster_of (t\<lparr>t_groups := update_where (\<lambda>g. g_id g = gid) f (t_groups t)\<rparr>) x = roster_of t x"
      using that by (cases "group_of t x") (auto simp: roster_of_def group_of_update member_of_def)
  qed
  show ?thesis
    by (auto simp: update_group_tables_def update_group_row_def same split: option.splits sum.splits)
qed

definition group_tables :: "group_request \<Rightarrow> string \<Rightarrow> tables \<Rightarrow> (app_error + unit) \<times> tables" where
  "group_tables q now = (case q of
     UpdateGroup a gid name d \<Rightarrow> update_group_tables a gid name d
   | DeleteGroup a gid \<Rightarrow> delete_group_tables a gid
   | AddMember a gid name role \<Rightarrow> (\<lambda>t. case add_member_tables a gid name role now t of (r, t') \<Rightarrow> (map_sum id (\<lambda>_. ()) r, t'))
   | RemoveMember a gid x \<Rightarrow> remove_member_tables a gid x
   | UpdateRole a gid x role \<Rightarrow> (\<lambda>t. case update_role_tables a gid x role t of (r, t') \<Rightarrow> (map_sum id (\<lambda>_. ()) r, t')))"

lemma implements_unit_of:
  assumes "implements F m"
  shows "implements (\<lambda>now i t. case F now i t of (r, t') \<Rightarrow> (map_sum id (\<lambda>_. ()) r, t')) (unit_of m)"
proof (rule implementsI, goal_cases)
  case (1 w r w' r0 t0)
  obtain y w1 where run: "m w = (y, w1)" by fastforce
  obtain r1 t1 where F: "F (datetime_text w (clock w)) (uuids w (uuid_pos w)) (tb w) = (r1, t1)" by fastforce
  show ?case
    using implements_run [OF assms run F] 1 run F by (cases y) (auto simp: unit_of_def bind_def)
qed

lemma implements_serve_group: "implements (\<lambda>now i. group_tables q now) (serve_group q)"
  using implements_update_group implements_delete_group implements_remove_member
    implements_add_member [THEN implements_unit_of] implements_update_member_role [THEN implements_unit_of]
  by (cases q) (simp_all add: group_tables_def unit_of_def)

text \<open>A refused request leaves the tables as they were.\<close>

lemma update_nothing: "group_of t gid = None \<Longrightarrow> update_where (\<lambda>g. g_id g = gid) f (t_groups t) = t_groups t"
  using group_of_iff [of gid t] by (auto simp: update_where_def group_ids_def image_iff intro!: map_idI)

lemma refused_update: "isl (fst (update_group_tables a gid name d t)) \<Longrightarrow> snd (update_group_tables a gid name d t) = t"
  by (auto simp: update_group_tables_def update_group_row_def update_nothing split: option.splits sum.splits if_splits)

lemma refused_delete: "isl (fst (delete_group_tables a gid t)) \<Longrightarrow> snd (delete_group_tables a gid t) = t"
  by (auto simp: delete_group_tables_def split: option.splits if_splits)

lemma refused_add: "isl (fst (add_member_tables a gid name role now t)) \<Longrightarrow> snd (add_member_tables a gid name role now t) = t"
  by (auto simp: add_member_tables_def member_add_tables_def Let_def split: option.splits sum.splits if_splits)

lemma refused_remove: "isl (fst (remove_member_tables a gid x t)) \<Longrightarrow> snd (remove_member_tables a gid x t) = t"
  by (auto simp: remove_member_tables_def split: option.splits sum.splits if_splits)

lemma refused_update_role: "isl (fst (update_role_tables a gid x role t)) \<Longrightarrow> snd (update_role_tables a gid x role t) = t"
  by (auto simp: update_role_tables_def split: option.splits sum.splits if_splits)

lemma group_tables_error: "isl (fst (group_tables q now t)) \<Longrightarrow> snd (group_tables q now t) = t"
  using refused_update refused_delete refused_add refused_remove refused_update_role
  by (cases q) (simp_all add: group_tables_def isl_map_sum case_prod_unfold)

lemma roster_tables:
  "tables_ok t \<Longrightarrow> roster_of (snd (group_tables q now t)) = roster_step (user_id_named t) q (roster_of t)"
  using roster_update_group roster_delete roster_add roster_remove roster_update_role
  by (cases q) (simp_all add: group_tables_def case_prod_unfold)

section \<open>One owner\<close>

definition new_group :: "string \<Rightarrow> create_group_params \<Rightarrow> string \<Rightarrow> group_row" where
  "new_group i params now = \<lparr>g_id = i, g_name = cgp_name params, g_description = cgp_description params,
     g_created_by = cgp_created_by params, g_created_at = now\<rparr>"

definition group_create_tables :: "create_group_params \<Rightarrow> string \<Rightarrow> string \<Rightarrow> tables \<Rightarrow> (app_error + group_row) \<times> tables" where
  "group_create_tables params now i t = (if group_named t (cgp_name params) \<noteq> None then (Inl (Conflict group_name_taken), t)
     else case insert_group i params now t of
         Inl e \<Rightarrow> (Inl (conflict_or_sqlx group_name_taken e), t)
       | Inr (n, t') \<Rightarrow> (Inr (new_group i params now), t'))"

lemma group_of_append: "group_of (t\<lparr>t_groups := t_groups t @ [g]\<rparr>) gid =
    (case group_of t gid of Some x \<Rightarrow> Some x | None \<Rightarrow> if g_id g = gid then Some g else None)"
proof -
  have "List.find P (gs @ [g]) = (case List.find P gs of Some x \<Rightarrow> Some x | None \<Rightarrow> if P g then Some g else None)" for P gs
    by (induction gs) auto
  then show ?thesis by (simp add: group_of_def)
qed

lemma implements_group_create: "implements (group_create_tables params) (group_create params)"
  unfolding group_create_def
  by (rule implements_eq, (rule implements_rules reads_group_named group_reads reads_rules)+)
    (auto simp: fun_eq_iff group_create_tables_def then_read_def insert_group_def group_of_append new_group_def
      group_of_iff split: option.splits sum.splits if_splits)

lemma group_create_cases:
  assumes ok: "tables_ok t" and run: "group_create_tables params now i t = (r, t')"
  shows "(isl r \<and> t' = t) \<or> (r = Inr (new_group i params now) \<and> t' = t\<lparr>t_groups := t_groups t @ [new_group i params now]\<rparr> \<and>
    tables_ok t' \<and> roster_of t i = None \<and> roster_of t' = (roster_of t)(i := Some (cgp_created_by params, \<lambda>uid. None)))"
proof (cases r)
  case (Inl e)
  then show ?thesis
    using run by (auto simp: group_create_tables_def split: option.splits sum.splits if_splits)
next
  case (Inr g)
  then have new: "i \<notin> group_ids t" "cgp_name params \<notin> g_name ` set (t_groups t)" "cgp_created_by params \<in> user_ids t"
    and t': "t' = t\<lparr>t_groups := t_groups t @ [new_group i params now]\<rparr>" "r = Inr (new_group i params now)"
    using run by (auto simp: group_create_tables_def insert_group_def new_group_def split: option.splits sum.splits if_splits)
  have ok': "tables_ok t'" using ok new by (auto simp: t' tables_ok_defs new_group_def)
  have none: "member_of t i uid = None" for uid
    using member_has_group [OF ok, of i uid] new(1) by (cases "member_of t i uid") auto
  have "group_of t i = None" using new(1) group_of_iff by blast
  then have "roster_of t' = (roster_of t)(i := Some (cgp_created_by params, \<lambda>uid. None))"
    using none by (auto simp: fun_eq_iff roster_of_def t' group_of_append member_of_def new_group_def split: option.splits)
  then show ?thesis using t' ok' \<open>group_of t i = None\<close> by (simp add: roster_of_def)
qed

lemma insert_member_ok: "tables_ok t \<Longrightarrow> insert_member m t = Inr (n, t') \<Longrightarrow> tables_ok t'"
  by (clarsimp simp: insert_member_def tables_ok_defs split: if_splits)

lemma delete_group_rows_ok: "tables_ok t \<Longrightarrow> tables_ok (snd (delete_group_rows gid t))"
  by (auto simp: delete_group_rows_def tables_ok_defs distinct_map_filter_rows)

lemma without_member_ok: "tables_ok t \<Longrightarrow> tables_ok (without_member gid uid t)"
  by (auto simp: without_member_def tables_ok_defs distinct_map_filter_rows)

lemma with_role_ok: "tables_ok t \<Longrightarrow> tables_ok (with_role gid uid role t)"
  by (simp add: with_role_def tables_ok_defs map_update_where image_update_where member_key_def)

lemma update_group_row_ok:
  assumes ok: "tables_ok t" and run: "update_group_row gid ps t = Inr (n, t')"
  shows "tables_ok t'"
proof (cases "gid \<in> group_ids t")
  case False
  then have "group_of t gid = None" using group_of_iff by blast
  then show ?thesis using run ok False by (auto simp: update_group_row_def update_nothing)
next
  case True
  have t': "t' = t\<lparr>t_groups := update_where (\<lambda>g. g_id g = gid)
      (\<lambda>g. g\<lparr>g_name := ugp_name ps, g_description := ugp_description ps\<rparr>) (t_groups t)\<rparr>"
    and free: "\<And>g. g \<in> set (t_groups t) \<Longrightarrow> g_id g \<noteq> gid \<Longrightarrow> g_name g \<noteq> ugp_name ps"
    using run True by (auto simp: update_group_row_def split: if_splits)
  have "distinct (map g_name (t_groups t'))"
    unfolding t' by (simp, rule distinct_update_unique [where v = "ugp_name ps"]) (use ok free in \<open>auto simp: tables_ok_defs\<close>)
  then show ?thesis using ok by (simp add: t' tables_ok_defs map_update_where image_update_where)
qed

lemma group_tables_ok:
  assumes ok: "tables_ok t"
  shows "tables_ok (snd (group_tables q now t))"
proof -
  have "tables_ok (snd (update_group_tables a gid name d t))" for a gid name d
    using ok update_group_row_ok [OF ok]
    by (auto simp: update_group_tables_def split: sum.splits option.splits)
  moreover have "tables_ok (snd (delete_group_tables a gid t))" for a gid
    using ok delete_group_rows_ok by (auto simp: delete_group_tables_def split: option.splits)
  moreover have "tables_ok (snd (add_member_tables a gid name role now t))" for a gid name role
    using ok insert_member_ok [OF ok]
    by (auto simp: add_member_tables_def member_add_tables_def Let_def split: sum.splits option.splits)
  moreover have "tables_ok (snd (remove_member_tables a gid x t))" for a gid x
    using ok without_member_ok by (auto simp: remove_member_tables_def split: sum.splits option.splits)
  moreover have "tables_ok (snd (update_role_tables a gid x role t))" for a gid x role
    using ok with_role_ok by (auto simp: update_role_tables_def split: sum.splits option.splits)
  ultimately show ?thesis by (cases q) (simp_all add: group_tables_def case_prod_unfold)
qed

lemma serve_group_ok:
  assumes "tables_ok (tb w)" "serve_group q w = (r, w')"
  shows "tables_ok (tb w')"
proof -
  let ?F = "group_tables q (datetime_text w (clock w)) (tb w)"
  have "tb w' = tb w \<or> tb w' = snd ?F"
    using implements_either [OF implements_serve_group assms(2)] by blast
  then show ?thesis using assms(1) group_tables_ok by metis
qed

lemma roster_new_member:
  assumes "roster_of t gid = Some (c, roles)" "roles uid = None"
  shows "roster_of (t\<lparr>t_group_members := t_group_members t @ [new_member gid uid role now]\<rparr>) =
    (roster_of t)(gid := Some (c, roles(uid := Some role)))"
proof -
  have "member_of t gid uid = None" using assms by (auto simp: roster_of_def)
  then show ?thesis using assms by (auto simp: roster_of_def fun_eq_iff member_of_new)
qed

definition with_group :: "group_row \<Rightarrow> tables \<Rightarrow> tables" where
  "with_group g t = t\<lparr>t_groups := t_groups t @ [g]\<rparr>"

definition with_member :: "group_member \<Rightarrow> tables \<Rightarrow> tables" where
  "with_member m t = t\<lparr>t_group_members := t_group_members t @ [m]\<rparr>"

text \<open>What creating a group does to the tables: nothing, the group alone, or the group with its owner.\<close>

lemma create_group_cases:
  fixes w :: "'z db_scheme"
  assumes ok: "tables_ok (tb w)" and run: "create_group uid name d w = (r, w')"
  defines "i \<equiv> uuids w (uuid_pos w)"
  shows "tables_ok (tb w') \<and>
    (case (validate_group_name name, validate_description d) of
       (Inr n, Inr x) \<Rightarrow>
         (if group_named (tb w) n = None \<and> group_of (tb w) i = None \<and> uid \<in> user_ids (tb w)
          then \<exists>now. let g = new_group i \<lparr>cgp_name = n, cgp_description = x, cgp_created_by = uid\<rparr> now in
            (\<not> calm w \<and> isl r \<and> (tb w' = tb w \<or> tb w' = with_group g (tb w))) \<or>
            ((calm w \<longrightarrow> \<not> isl r) \<and> (\<exists>now'. tb w' = with_member (new_member i uid ROLE_OWNER now') (with_group g (tb w))))
          else isl r \<and> tb w' = tb w)
     | _ \<Rightarrow> isl r \<and> tb w' = tb w)"
proof (cases "validate_group_name name" "validate_description d" rule: sum.exhaust [case_product sum.exhaust])
  case (Inr_Inr n x)
  let ?ps = "\<lparr>cgp_name = n, cgp_description = x, cgp_created_by = uid\<rparr>" and ?now = "datetime_text w (clock w)"
  let ?g = "new_group i ?ps ?now"
  let ?k = "\<lambda>g. bind (member_add (g_id g) uid ROLE_OWNER) (\<lambda>_.
      ret \<lparr>gw_group = g, gw_member_count = 1, gw_user_role = ROLE_OWNER\<rparr>)"
  have run': "bind (group_create ?ps) ?k w = (r, w')" using run Inr_Inr by (simp add: create_group_def)
  obtain r0 t0 where F: "group_create_tables ?ps ?now i (tb w) = (r0, t0)" by fastforce
  have names: "n \<in> g_name ` set (t_groups (tb w)) \<longleftrightarrow> group_named (tb w) n \<noteq> None"
    using find_some_iff [of "\<lambda>g. g_name g = n" "t_groups (tb w)"] by (auto simp: group_named_def)
  have F': "r0 = Inr ?g \<and> t0 = with_group ?g (tb w)" "tables_ok t0" "roster_of t0 i = Some (uid, \<lambda>_. None)"
    if "group_named (tb w) n = None \<and> group_of (tb w) i = None \<and> uid \<in> user_ids (tb w)"
    using group_create_cases [OF ok F] that F names
    by (auto simp: group_create_tables_def insert_group_def new_group_def with_group_def group_of_iff split: if_splits)
  have refused: "isl r0 \<and> t0 = tb w" if "\<not> (group_named (tb w) n = None \<and> group_of (tb w) i = None \<and> uid \<in> user_ids (tb w))"
    using that F names by (auto simp: group_create_tables_def insert_group_def group_of_iff split: if_splits)
  show ?thesis
  proof (rule bind_runE [OF run'])
    fix e assume g: "group_create ?ps w = (Inl e, w')" "r = Inl e"
    note out = implements_run(3) [OF implements_group_create g(1) F [unfolded i_def]]
    show ?thesis
    proof (cases "group_named (tb w) n = None \<and> group_of (tb w) i = None \<and> uid \<in> user_ids (tb w)")
      case True
      then have "\<not> calm w \<and> (tb w' = tb w \<or> tb w' = with_group ?g (tb w))" using out F'(1) by auto
      then show ?thesis using True F' ok g(2) Inr_Inr by (auto simp: Let_def intro: exI [of _ ?now])
    next
      case False
      then have "tb w' = tb w" using out refused by auto
      then show ?thesis using False ok g(2) Inr_Inr by auto
    qed
  next
    fix g w1 assume g: "group_create ?ps w = (Inr g, w1)" and k: "?k g w1 = (r, w')"
    have w1: "r0 = Inr g" "tb w1 = t0" "faults w1 = faults w"
      using implements_run(2,3) [OF implements_group_create g F [unfolded i_def]] by auto
    have free: "group_named (tb w) n = None \<and> group_of (tb w) i = None \<and> uid \<in> user_ids (tb w)"
      by (rule ccontr, drule refused) (simp add: w1(1))
    note new = F' [OF free]
    have gi: "g_id g = i" using new(1) w1(1) by (simp add: new_group_def)
    obtain r1 w2 where m: "member_add i uid ROLE_OWNER w1 = (r1, w2)" by fastforce
    then have r: "w' = w2" "isl r = isl r1" using k gi by (auto simp: bind_def split: sum.splits prod.splits)
    have none: "member_of t0 i uid = None" and g0: "group_of t0 i \<noteq> None" and uid: "uid \<in> user_ids t0"
      using new free by (auto simp: roster_of_def fun_eq_iff with_group_def user_ids_def)
    have ins: "insert_member (new_member i uid ROLE_OWNER now) t0 = Inr (1, with_member (new_member i uid ROLE_OWNER now) t0)" for now
      using none g0 group_of_iff [of i t0] uid by (simp add: insert_new_member with_member_def)
    have F2: "member_add_tables i uid ROLE_OWNER now t0 =
        (Inr (new_member i uid ROLE_OWNER now), with_member (new_member i uid ROLE_OWNER now) t0)" for now
      by (simp add: member_add_tables_def ins Let_def)
    have "tb w2 = t0 \<and> \<not> calm w \<and> isl r1 \<or>
        (calm w \<longrightarrow> \<not> isl r1) \<and> (\<exists>now. tb w2 = with_member (new_member i uid ROLE_OWNER now) t0)"
      using implements_run(3) [OF implements_member_add m, unfolded w1(2), OF F2] w1(3) by (auto simp: calm_def)
    moreover have "tables_ok (with_member (new_member i uid ROLE_OWNER now) t0)" for now
      using insert_member_ok [OF new(2) ins] .
    ultimately show ?thesis
      using free new(1,2) r Inr_Inr by (auto simp: Let_def intro: exI [of _ ?now])
  qed
qed (use run ok in \<open>auto simp: create_group_def\<close>)

lemma roster_with_group:
  assumes "tables_ok t" "group_of t (g_id g) = None"
  shows "roster_of (with_group g t) = (roster_of t)(g_id g := Some (g_created_by g, \<lambda>_. None))"
proof -
  have "member_of t (g_id g) uid = None" for uid
    using member_has_group [OF assms(1), of "g_id g" uid] group_of_iff [of "g_id g" t] assms(2)
    by (cases "member_of t (g_id g) uid") auto
  then show ?thesis
    using assms(2) by (auto simp: fun_eq_iff roster_of_def with_group_def group_of_append member_of_def split: option.splits)
qed

lemma roster_with_owner:
  assumes "tables_ok t" "group_of t (g_id g) = None"
  shows "roster_of (with_member (new_member (g_id g) uid role now) (with_group g t)) =
    (roster_of t)(g_id g := Some (g_created_by g, [uid \<mapsto> role]))"
  using roster_new_member [of "with_group g t" "g_id g" "g_created_by g" "\<lambda>_. None" uid role now] roster_with_group [OF assms]
  by (simp add: with_member_def)

lemma create_group_roster:
  fixes w :: "'z db_scheme"
  assumes ok: "tables_ok (tb w)" and run: "create_group uid name d w = (r, w')"
  shows "tables_ok (tb w') \<and> (roster_of (tb w') = roster_of (tb w) \<and> isl r \<or>
    (\<exists>i. roster_of (tb w) i = None \<and>
      (roster_of (tb w') = (roster_of (tb w))(i := Some (uid, \<lambda>_. None)) \<and> \<not> calm w \<and> isl r \<or>
       roster_of (tb w') = (roster_of (tb w))(i := Some (uid, [uid \<mapsto> ROLE_OWNER])))))"
proof -
  let ?i = "uuids w (uuid_pos w)"
  have new: "roster_of (with_group g (tb w)) = (roster_of (tb w))(?i := Some (uid, \<lambda>_. None))"
      "roster_of (with_member (new_member ?i uid ROLE_OWNER now') (with_group g (tb w))) = (roster_of (tb w))(?i := Some (uid, [uid \<mapsto> ROLE_OWNER]))"
    if "g = new_group ?i \<lparr>cgp_name = n, cgp_description = x, cgp_created_by = uid\<rparr> now" "group_of (tb w) ?i = None" for g n x now now'
    using roster_with_group [OF ok, of g] roster_with_owner [OF ok, of g] that by (simp_all add: new_group_def)
  have "roster_of (tb w) ?i = None" if "group_of (tb w) ?i = None" using that by (simp add: roster_of_def)
  then show ?thesis
    using create_group_cases [OF ok run] new [OF refl] by (auto simp: Let_def split: sum.splits if_splits)
qed

text \<open>
  Any number of requests, in any order, from any users, some of them failing anywhere, with the
  rest of the server running in between.
\<close>

inductive group_run :: "'z db_scheme \<Rightarrow> 'z db_scheme \<Rightarrow> bool" for w0 where
  start: "group_run w0 w0"
| request: "group_run w0 w \<Longrightarrow> serve_group q w = (r, w') \<Longrightarrow> group_run w0 w'"
| creation: "group_run w0 w \<Longrightarrow> create_group uid name d w = (r, w') \<Longrightarrow> group_run w0 w'"
| elsewhere: "group_run w0 w \<Longrightarrow> tables_ok (tb w') \<Longrightarrow> roster_of (tb w') = roster_of (tb w) \<Longrightarrow> group_run w0 w'"

definition owners_ok :: "roster \<Rightarrow> bool" where
  "owners_ok R = (\<forall>gid c roles uid. R gid = Some (c, roles) \<longrightarrow> roles uid = Some ROLE_OWNER \<longrightarrow> uid = c)"

lemma owners_step: "owners_ok R \<Longrightarrow> owners_ok (roster_step users q R)"
  by (cases q) (auto simp: owners_ok_def roles split: option.splits if_splits)

lemma owner_stays:
  assumes "R gid = Some (c, rs)" "rs c = Some ROLE_OWNER"
  shows "q = DeleteGroup c gid \<or> (\<exists>rs'. roster_step users q R gid = Some (c, rs') \<and> rs' c = Some ROLE_OWNER)"
  using assms by (cases q) (auto simp: roles split: option.splits)

lemma serve_group_roster:
  assumes ok: "tables_ok (tb w)" and run: "serve_group q w = (r, w')"
  shows "roster_of (tb w') \<in> {roster_of (tb w), roster_step (user_id_named (tb w)) q (roster_of (tb w))}"
proof -
  let ?F = "group_tables q (datetime_text w (clock w)) (tb w)"
  have "tb w' = tb w \<or> tb w' = snd ?F"
    using implements_either [OF implements_serve_group run] by blast
  then show ?thesis using roster_tables [OF ok] by auto
qed

lemma group_run_ok:
  assumes "group_run w0 w" "tables_ok (tb w0)" "owners_ok (roster_of (tb w0))"
  shows "tables_ok (tb w) \<and> owners_ok (roster_of (tb w))"
  using assms(1)
proof induction
  case (request w q r w')
  then show ?case using serve_group_ok serve_group_roster owners_step by fastforce
next
  case (creation w uid name d r w')
  have upd: "owners_ok (R(i := Some (uid, \<lambda>_. None)))" "owners_ok (R(i := Some (uid, [uid \<mapsto> ROLE_OWNER])))"
    if "owners_ok R" for R i
    using that by (auto simp: owners_ok_def)
  have ok: "tables_ok (tb w)" "owners_ok (roster_of (tb w))" using creation.IH by auto
  from create_group_roster [OF ok(1) creation.hyps(2)] ok(2) show ?case
    by (elim conjE disjE exE) (simp, metis upd, metis upd)
qed (use assms in auto)

text \<open>
  C21. A group has one owner, its creator: after any history of requests whoever holds the role
  \<open>owner\<close> in a group is its creator, so that there are never two; and an owner stays owner whatever
  request comes next, their own \<open>delete_group\<close> excepted.
\<close>

theorem group_owner_is_creator:
  assumes run: "group_run w0 w" and start: "tables_ok (tb w0)" "owners_ok (roster_of (tb w0))"
    and g: "roster_of (tb w) gid = Some (c, rs)"
  shows "(\<forall>uid. rs uid = Some ROLE_OWNER \<longrightarrow> uid = c) \<and>
    (\<forall>q r w'. serve_group q w = (r, w') \<longrightarrow> rs c = Some ROLE_OWNER \<longrightarrow> q \<noteq> DeleteGroup c gid \<longrightarrow>
       (\<exists>rs'. roster_of (tb w') gid = Some (c, rs') \<and> rs' c = Some ROLE_OWNER))"
proof (intro conjI allI impI)
  note ok = group_run_ok [OF run start]
  show "uid = c" if "rs uid = Some ROLE_OWNER" for uid
    using ok g that by (auto simp: owners_ok_def)
  show "\<exists>rs'. roster_of (tb w') gid = Some (c, rs') \<and> rs' c = Some ROLE_OWNER"
    if "serve_group q w = (r, w')" "rs c = Some ROLE_OWNER" "q \<noteq> DeleteGroup c gid" for q r w'
    using serve_group_roster [OF _ that(1)] ok owner_stays [of "roster_of (tb w)", OF g that(2)] that g by fastforce
qed

section \<open>The directory of groups\<close>

text \<open>
  What the service promises of all groups: their names and descriptions, and their rosters. The
  wanted name or description of a request, if it is valid, is the trimmed one.
\<close>

type_synonym titles = "string \<Rightarrow> (string \<times> string option) option"

datatype directory_request =
    CreateGroup string string "string option"
  | Manage group_request

fun serve_directory :: "directory_request \<Rightarrow> ('z, unit) svc" where
  "serve_directory (CreateGroup a name d) = unit_of (create_group a name d)"
| "serve_directory (Manage q) = serve_group q"

definition titles_of :: "tables \<Rightarrow> titles" where
  "titles_of t gid = map_option (\<lambda>g. (g_name g, g_description g)) (group_of t gid)"

definition directory_of :: "tables \<Rightarrow> titles \<times> roster" where
  "directory_of t = (titles_of t, roster_of t)"

definition wanted_title :: "string \<Rightarrow> string option \<Rightarrow> (string \<times> string option) option" where
  "wanted_title name d =
     (let n = trim name; x = (case map_option trim d of None \<Rightarrow> None | Some s \<Rightarrow> if s = [] then None else Some s) in
      if 1 \<le> length n \<and> length n \<le> 100 \<and> (case x of None \<Rightarrow> True | Some s \<Rightarrow> length s \<le> 500) then Some (n, x) else None)"

definition name_free :: "titles \<Rightarrow> string \<Rightarrow> string \<Rightarrow> bool" where
  "name_free T n gid = (\<forall>j x. j \<noteq> gid \<longrightarrow> T j \<noteq> Some (n, x))"

text \<open>
  One request: \<open>i\<close> is the fresh identifier, \<open>accounts\<close> are the identifiers of the accounts. Creating
  needs a valid, free name; renaming needs, besides, an owner or a manager of the group.
\<close>

fun directory_step ::
  "(string \<Rightarrow> string option) \<Rightarrow> string set \<Rightarrow> string \<Rightarrow> directory_request \<Rightarrow> titles \<times> roster \<Rightarrow> titles \<times> roster" where
  "directory_step users accounts i (CreateGroup a name d) (T, R) = (case wanted_title name d of
       None \<Rightarrow> (T, R)
     | Some title \<Rightarrow> if name_free T (fst title) i \<and> T i = None \<and> a \<in> accounts
         then (T(i := Some title), R(i := Some (a, [a \<mapsto> ROLE_OWNER]))) else (T, R))"
| "directory_step users accounts i (Manage (UpdateGroup a gid name d)) (T, R) = (case (R gid, wanted_title name d) of
       (Some (c, roles), Some title) \<Rightarrow>
         if manages roles a \<and> name_free T (fst title) gid then (T(gid := Some title), R) else (T, R)
     | _ \<Rightarrow> (T, R))"
| "directory_step users accounts i (Manage (DeleteGroup a gid)) (T, R) =
     (case R gid of None \<Rightarrow> (T, R) | Some (c, roles) \<Rightarrow> if a = c then (T(gid := None), R(gid := None)) else (T, R))"
| "directory_step users accounts i (Manage q) (T, R) = (T, roster_step users q R)"

text \<open>A creation that failed between its two insertions: the group is there, but nobody is in it.\<close>

fun ownerless :: "string \<Rightarrow> directory_request \<Rightarrow> titles \<times> roster \<Rightarrow> titles \<times> roster \<Rightarrow> bool" where
  "ownerless i (CreateGroup a name d) (T, R) D' =
     (\<exists>title. wanted_title name d = Some title \<and> T i = None \<and> D' = (T(i := Some title), R(i := Some (a, \<lambda>_. None))))"
| "ownerless i (Manage q) D D' = False"

lemma wanted_validated:
  "wanted_title name d = (case (validate_group_name name, validate_description d) of (Inr n, Inr x) \<Rightarrow> Some (n, x) | _ \<Rightarrow> None)"
  by (auto simp: wanted_title_def validate_group_name_def validate_description_def NAME_MIN_LEN_def NAME_MAX_LEN_def
      DESCRIPTION_MAX_LEN_def Let_def Suc_le_eq split: option.splits)

lemma find_unique: "distinct (map f xs) \<Longrightarrow> x \<in> set xs \<Longrightarrow> List.find (\<lambda>y. f y = f x) xs = Some x"
  by (induction xs) auto

lemma find_unique_iff: "distinct (map f xs) \<Longrightarrow> List.find (\<lambda>y. f y = v) xs = Some x \<longleftrightarrow> x \<in> set xs \<and> f x = v"
  using find_unique by (fastforce dest: find_Some_mem)

lemma group_of_row: "tables_ok t \<Longrightarrow> g \<in> set (t_groups t) \<Longrightarrow> group_of t (g_id g) = Some g"
  unfolding group_of_def by (rule find_unique) (auto simp: tables_ok_defs)

lemma name_free_rows:
  assumes ok: "tables_ok t"
  shows "name_free (titles_of t) n gid \<longleftrightarrow> (\<forall>g \<in> set (t_groups t). g_name g = n \<longrightarrow> g_id g = gid)"
proof -
  have "titles_of t j = Some (n, x) \<longleftrightarrow> (\<exists>g. g \<in> set (t_groups t) \<and> g_id g = j \<and> g_name g = n \<and> g_description g = x)" for j x
    using group_of_row [OF ok] by (fastforce simp: titles_of_def group_of_def dest: find_Some_mem)
  then show ?thesis unfolding name_free_def by metis
qed

lemma name_free_iff:
  assumes ok: "tables_ok t"
  shows "name_free (titles_of t) n gid \<longleftrightarrow> (case group_named t n of None \<Rightarrow> True | Some g \<Rightarrow> g_id g = gid)"
proof -
  have "group_named t n = Some g \<longleftrightarrow> g \<in> set (t_groups t) \<and> g_name g = n" for g
    unfolding group_named_def by (rule find_unique_iff) (use ok in \<open>auto simp: tables_ok_defs\<close>)
  then have "name_free (titles_of t) n gid \<longleftrightarrow> (\<forall>g. group_named t n = Some g \<longrightarrow> g_id g = gid)"
    using name_free_rows [OF ok] by blast
  also have "\<dots> \<longleftrightarrow> (case group_named t n of None \<Rightarrow> True | Some g \<Rightarrow> g_id g = gid)" by (simp split: option.splits)
  finally show ?thesis .
qed

lemma titles_same [simp]:
  "titles_of (without_member gid uid t) = titles_of t" "titles_of (with_role gid uid role t) = titles_of t"
  "titles_of (t\<lparr>t_group_members := ms\<rparr>) = titles_of t"
  by (simp_all add: titles_of_def fun_eq_iff)

lemma directory_update:
  assumes ok: "tables_ok t"
  shows "directory_of (snd (update_group_tables a gid name d t)) =
    directory_step users accounts i (Manage (UpdateGroup a gid name d)) (directory_of t)"
proof -
  have roster: "roster_of (snd (update_group_tables a gid name d t)) = roster_of t" by (rule roster_update_group)
  have managing: "check_manager gid a t = Inr () \<longleftrightarrow> (\<exists>c rs. roster_of t gid = Some (c, rs) \<and> manages rs a)"
    using member_has_group [OF ok, of gid a] group_of_iff [of gid t]
    by (auto simp: check_manager_def roster_of_def manages_def split: option.splits)
  have titles: "titles_of (t\<lparr>t_groups := update_where (\<lambda>g. g_id g = gid) (\<lambda>g. g\<lparr>g_name := n, g_description := x\<rparr>) (t_groups t)\<rparr>) =
      (titles_of t)(gid := Some (n, x))" if "group_of t gid \<noteq> None" for n x
    using that by (auto simp: titles_of_def fun_eq_iff group_of_update option.map_ident)
  show ?thesis
  proof (cases "check_manager gid a t")
    case (Inl e)
    then have "\<not> (\<exists>c rs. roster_of t gid = Some (c, rs) \<and> manages rs a)" using managing by simp
    then show ?thesis using Inl by (auto simp: update_group_tables_def directory_of_def split: option.splits)
  next
    case (Inr u)
    then obtain c rs where g: "roster_of t gid = Some (c, rs)" "manages rs a" using managing by auto
    then have here: "group_of t gid \<noteq> None" by (auto simp: roster_of_def)
    show ?thesis
    proof (cases "validate_group_name name" "validate_description d" rule: sum.exhaust [case_product sum.exhaust])
      case (Inr_Inr n x)
      have free: "(\<exists>g \<in> set (t_groups t). g_id g \<noteq> gid \<and> g_name g = n) \<longleftrightarrow> \<not> name_free (titles_of t) n gid"
        using name_free_rows [OF ok] by blast
      have step: "directory_step users accounts i (Manage (UpdateGroup a gid name d)) (directory_of t) =
          (if name_free (titles_of t) n gid then ((titles_of t)(gid := Some (n, x)), roster_of t) else directory_of t)"
        using Inr_Inr g by (simp add: directory_of_def wanted_validated)
      show ?thesis
      proof (cases "name_free (titles_of t) n gid")
        case True
        then have "snd (update_group_tables a gid name d t) =
            t\<lparr>t_groups := update_where (\<lambda>g. g_id g = gid) (\<lambda>g. g\<lparr>g_name := n, g_description := x\<rparr>) (t_groups t)\<rparr>"
          using Inr Inr_Inr here free name_free_iff [OF ok, of n gid]
          by (auto simp: update_group_tables_def update_group_row_def split: option.splits)
        then show ?thesis using True roster titles [OF here, of x n] unfolding step by (simp add: directory_of_def)
      next
        case False
        then have "snd (update_group_tables a gid name d t) = t"
          using Inr Inr_Inr name_free_iff [OF ok, of n gid] by (simp add: update_group_tables_def split: option.splits)
        then show ?thesis using False unfolding step by simp
      qed
    qed (use Inr g in \<open>auto simp: update_group_tables_def directory_of_def wanted_validated split: option.splits\<close>)
  qed
qed

lemma directory_tables:
  assumes ok: "tables_ok t"
  shows "directory_of (snd (group_tables q now t)) = directory_step (user_id_named t) accounts i (Manage q) (directory_of t)"
proof (cases q)
  case (UpdateGroup a gid name d)
  then show ?thesis using directory_update [OF ok] by (simp add: group_tables_def)
next
  case (DeleteGroup a gid)
  have "titles_of (snd (delete_group_tables a gid t)) = (case roster_of t gid of None \<Rightarrow> titles_of t
      | Some (c, roles) \<Rightarrow> if a = c then (titles_of t)(gid := None) else titles_of t)"
    by (auto simp: delete_group_tables_def titles_of_def roster_of_def fun_eq_iff group_of_delete split: option.splits)
  then show ?thesis using DeleteGroup roster_delete [of a gid t]
    by (auto simp: group_tables_def directory_of_def split: option.splits)
next
  case (AddMember a gid name role)
  have "titles_of (snd (add_member_tables a gid name role now t)) = titles_of t"
    by (auto simp: add_member_tables_def member_add_tables_def insert_new_member Let_def split: option.splits sum.splits)
  then show ?thesis using AddMember roster_add [OF ok] by (simp add: group_tables_def directory_of_def case_prod_unfold)
next
  case (RemoveMember a gid x)
  have "titles_of (snd (remove_member_tables a gid x t)) = titles_of t"
    by (auto simp: remove_member_tables_def split: option.splits sum.splits)
  then show ?thesis using RemoveMember roster_remove by (simp add: group_tables_def directory_of_def)
next
  case (UpdateRole a gid x role)
  have "titles_of (snd (update_role_tables a gid x role t)) = titles_of t"
    by (auto simp: update_role_tables_def split: option.splits sum.splits)
  then show ?thesis using UpdateRole roster_update_role by (simp add: group_tables_def directory_of_def case_prod_unfold)
qed

lemma directory_with_group:
  assumes "tables_ok t" "group_of t i = None"
    and g_def: "g = new_group i \<lparr>cgp_name = n, cgp_description = x, cgp_created_by = uid\<rparr> now"
  shows "directory_of (with_group g t) = ((titles_of t)(i := Some (n, x)), (roster_of t)(i := Some (uid, \<lambda>_. None)))"
    "directory_of (with_member (new_member i uid role now') (with_group g t)) =
       ((titles_of t)(i := Some (n, x)), (roster_of t)(i := Some (uid, [uid \<mapsto> role])))"
proof -
  have "titles_of (with_group g t) = (titles_of t)(i := Some (n, x))"
    using assms(2) by (auto simp: titles_of_def fun_eq_iff with_group_def group_of_append g_def new_group_def split: option.splits)
  moreover have "roster_of (with_group g t) = (roster_of t)(i := Some (uid, \<lambda>_. None))"
      "roster_of (with_member (new_member i uid role now') (with_group g t)) = (roster_of t)(i := Some (uid, [uid \<mapsto> role]))"
    using roster_with_group [OF assms(1), of g] roster_with_owner [OF assms(1), of g] assms(2) by (simp_all add: g_def new_group_def)
  ultimately show "directory_of (with_group g t) = ((titles_of t)(i := Some (n, x)), (roster_of t)(i := Some (uid, \<lambda>_. None)))"
    "directory_of (with_member (new_member i uid role now') (with_group g t)) =
       ((titles_of t)(i := Some (n, x)), (roster_of t)(i := Some (uid, [uid \<mapsto> role])))"
    by (simp_all add: directory_of_def with_member_def)
qed

lemma directory_create:
  fixes w :: "'z db_scheme"
  assumes ok: "tables_ok (tb w)" and run: "create_group a name d w = (r, w')"
  defines "i \<equiv> uuids w (uuid_pos w)" and "D \<equiv> directory_of (tb w)"
  shows "(directory_of (tb w') = directory_step users (user_ids (tb w)) i (CreateGroup a name d) D \<or>
      \<not> calm w \<and> isl r \<and> (directory_of (tb w') = D \<or> ownerless i (CreateGroup a name d) D (directory_of (tb w')))) \<and>
    (calm w \<and> isl r \<longrightarrow> tb w' = tb w)"
proof (cases "validate_group_name name" "validate_description d" rule: sum.exhaust [case_product sum.exhaust])
  case (Inr_Inr n x)
  have D: "D = (titles_of (tb w), roster_of (tb w))" by (simp add: D_def directory_of_def)
  have free: "name_free (titles_of (tb w)) n i \<and> titles_of (tb w) i = None \<longleftrightarrow> group_named (tb w) n = None \<and> group_of (tb w) i = None"
    using name_free_iff [OF ok, of n i] group_of_row [OF ok]
    by (auto simp: titles_of_def group_named_def split: option.splits dest!: find_Some_mem)
  show ?thesis
  proof (cases "group_named (tb w) n = None \<and> group_of (tb w) i = None \<and> a \<in> user_ids (tb w)")
    case True
    then show ?thesis
      using create_group_cases [OF ok run] Inr_Inr free directory_with_group [OF ok _ refl, of i]
      by (auto simp: D wanted_validated Let_def i_def titles_of_def directory_of_def [of "tb w"])
  next
    case False
    then show ?thesis using create_group_cases [OF ok run] Inr_Inr free
      by (auto simp: D wanted_validated i_def directory_of_def split: if_splits)
  qed
qed (use create_group_cases [OF ok run] in \<open>auto simp: D_def directory_of_def wanted_validated\<close>)

text \<open>
  C20. The group service implements the directory of groups: whatever the request, creating a group
  included, afterwards the names, the descriptions and the rosters are those \<open>directory_step\<close> gives (who
  may rename, add, remove, promote and delete, and which names may be taken, is decided there). When the
  environment failed and the request is answered with an error the directory may be the old one or,
  after a creation that failed between its insertions, have the new group without anybody in it. A
  request refused by the service leaves the tables as they were.
\<close>

theorem group_service_refines_roster:
  fixes w :: "'z db_scheme"
  assumes ok: "tables_ok (tb w)" and run: "serve_directory q w = (r, w')"
  defines "i \<equiv> uuids w (uuid_pos w)" and "D \<equiv> directory_of (tb w)"
  shows "(directory_of (tb w') = directory_step (user_id_named (tb w)) (user_ids (tb w)) i q D \<or>
      \<not> calm w \<and> isl r \<and> (directory_of (tb w') = D \<or> ownerless i q D (directory_of (tb w')))) \<and>
    (calm w \<and> isl r \<longrightarrow> tb w' = tb w)"
proof (cases q)
  case (CreateGroup a name d)
  obtain r1 where "create_group a name d w = (r1, w')" "isl r1 = isl r"
    using run CreateGroup by (auto simp: unit_of_def bind_def split: prod.splits sum.splits)
  then show ?thesis using directory_create [OF ok] CreateGroup unfolding i_def D_def by metis
next
  case (Manage gq)
  let ?F = "group_tables gq (datetime_text w (clock w)) (tb w)"
  have "r = fst ?F \<and> tb w' = snd ?F \<or> \<not> calm w \<and> isl r \<and> (tb w' = tb w \<or> tb w' = snd ?F)"
    using implements_either [OF implements_serve_group] run Manage by fastforce
  then show ?thesis using directory_tables [OF ok] group_tables_error Manage unfolding i_def D_def by metis
qed

section \<open>A server with one group\<close>

definition one_group :: tables where
  "one_group = two_users\<lparr>t_groups := [\<lparr>g_id = ''g'', g_name = ''team'', g_description = None, g_created_by = ''alice'',
       g_created_at = ''0''\<rparr>],
     t_group_members := [new_member ''g'' ''alice'' ROLE_OWNER ''0'']\<rparr>"

lemma one_group_ok: "tables_ok one_group"
  using two_users_ok
  by (simp add: one_group_def two_users_def no_tables_def tables_ok_defs sample_user_def new_member_def)

theorem group_service_refines_roster_witness:
  "fst (directory_of (tb (snd (serve_directory (Manage (UpdateGroup ''alice'' ''g'' '' crew '' None)) (server [] one_group))))) ''g'' =
     Some (''crew'', None)"
proof -
  let ?q = "Manage (UpdateGroup ''alice'' ''g'' '' crew '' None)"
  let ?w = "server [] one_group"
  have "directory_of (tb (snd (serve_directory ?q ?w))) =
      directory_step (user_id_named one_group) (user_ids one_group) (uuids ?w (uuid_pos ?w)) ?q (directory_of one_group)"
    using group_service_refines_roster [of ?w ?q] one_group_ok by (metis prod.collapse server_simps)
  moreover have "name_free (titles_of one_group) ''crew'' ''g''"
    by (auto simp: name_free_def titles_of_def group_of_def one_group_def)
  moreover have "wanted_title '' crew '' None = Some (''crew'', None)"
    by code_simp
  moreover have "\<exists>rs. roster_of one_group ''g'' = Some (''alice'', rs) \<and> manages rs ''alice''"
    by (auto simp: roster_of_def group_of_def one_group_def manages_def member_of_def)
  ultimately show ?thesis by (auto simp: directory_of_def)
qed

theorem group_owner_is_creator_witness:
  "snd (the (roster_of one_group ''g'')) ''alice'' = Some ROLE_OWNER \<and>
   snd (the (roster_of one_group ''g'')) ''bob'' \<noteq> Some ROLE_OWNER"
proof -
  have "owners_ok (roster_of one_group)"
    by (auto simp: owners_ok_def roster_of_def group_of_def member_of_def one_group_def)
  moreover have "roster_of one_group ''g'' = Some (''alice'', snd (the (roster_of one_group ''g'')))"
    by (simp add: roster_of_def group_of_def one_group_def)
  ultimately show ?thesis
    using group_owner_is_creator [OF start, of "server [] one_group" "''g''" "''alice''"] one_group_ok
    by (auto simp: roster_of_def group_of_def member_of_def one_group_def)
qed

end
