(* ===== verification/SpaceFacts.thy ===== *)
theory SpaceFacts
  imports Permissions GroupFacts
begin

text \<open>
  Properties of the space service: its requests are operations on access lists that only an admin
  of the space can use, grants take effect and are undone by revocation, spaces are created with
  their directory and key or not at all, deletion leaves nothing, and a restart restores the keys.
\<close>

section \<open>The service as functions of the tables\<close>

definition access_of :: "tables \<Rightarrow> string \<Rightarrow> string \<Rightarrow> string \<Rightarrow> space_access option" where
  "access_of t sid gt gid = List.find (is_grant sid gt gid) (t_space_access t)"

lemma count_access [simp]:
  "count_where (is_grant sid gt gid) (t_space_access t) = 0 \<longleftrightarrow> access_of t sid gt gid = None"
  using count_where_0 [of "is_grant sid gt gid" "t_space_access t"]
    find_some_iff [of "is_grant sid gt gid" "t_space_access t"] by (auto simp: access_of_def)

lemma count_space [simp]: "count_where (\<lambda>s. s_id s = sid) (t_spaces t) = 0 \<longleftrightarrow> space_of t sid = None"
  using count_where_0 [of "\<lambda>s. s_id s = sid" "t_spaces t"]
    find_some_iff [of "\<lambda>s. s_id s = sid" "t_spaces t"] by (auto simp: space_of_def)

lemma space_of_iff: "sid \<in> space_ids t \<longleftrightarrow> space_of t sid \<noteq> None"
  using find_some_iff [of "\<lambda>s. s_id s = sid" "t_spaces t"] by (auto simp: space_of_def space_ids_def)

lemma reads_access_find: "reads (\<lambda>t. Inr (access_of t sid gt gid)) (access_find sid gt gid)"
  unfolding access_find_def access_of_def by (rule reads_select)

lemma reads_space_find: "reads (\<lambda>t. Inr (space_of t sid)) (space_find_by_id sid)"
  unfolding space_find_by_id_def space_of_def by (rule reads_select)

lemma reads_admin: "reads (\<lambda>t. allowed t uid sid Admin) (require_permission uid sid PERM_ADMIN)"
  using reads_require_permission [of uid sid Admin] by (simp add: PERM_ADMIN_def)

lemmas space_reads = reads_access_find reads_space_find reads_admin group_reads

definition new_access :: "string \<Rightarrow> string \<Rightarrow> string \<Rightarrow> string \<Rightarrow> string \<Rightarrow> space_access" where
  "new_access sid gt gid p now = \<lparr>sa_space_id = sid, sa_grantee_type = gt, sa_grantee_id = gid, sa_permission = p,
     sa_granted_at = now\<rparr>"

definition with_access :: "space_access \<Rightarrow> tables \<Rightarrow> tables" where
  "with_access a t = t\<lparr>t_space_access := t_space_access t @ [a]\<rparr>"

definition without_access :: "string \<Rightarrow> string \<Rightarrow> string \<Rightarrow> tables \<Rightarrow> tables" where
  "without_access sid gt gid t = t\<lparr>t_space_access := filter (\<lambda>a. \<not> is_grant sid gt gid a) (t_space_access t)\<rparr>"

definition with_permission :: "string \<Rightarrow> string \<Rightarrow> string \<Rightarrow> string \<Rightarrow> tables \<Rightarrow> tables" where
  "with_permission sid gt gid p t = t\<lparr>t_space_access := update_where (is_grant sid gt gid)
     (\<lambda>a. a\<lparr>sa_permission := p\<rparr>) (t_space_access t)\<rparr>"

lemma new_access_fields [simp]:
  "sa_permission (new_access sid gt gid p now) = p" "sa_space_id (new_access sid gt gid p now) = sid"
  "sa_grantee_type (new_access sid gt gid p now) = gt" "sa_grantee_id (new_access sid gt gid p now) = gid"
  by (simp_all add: new_access_def)

lemma access_of_with:
  "access_of (with_access (new_access sid gt gid p now) t) sid' gt' gid' =
     (if sid' = sid \<and> gt' = gt \<and> gid' = gid \<and> access_of t sid gt gid = None then Some (new_access sid gt gid p now)
      else access_of t sid' gt' gid')"
  by (auto simp: access_of_def with_access_def is_grant_def find_snoc split: option.splits)

lemma access_of_without:
  "access_of (without_access sid gt gid t) sid' gt' gid' =
     (if sid' = sid \<and> gt' = gt \<and> gid' = gid then None else access_of t sid' gt' gid')"
  by (auto simp: access_of_def without_access_def is_grant_def intro!: find_filter_in find_filter_out)

lemma access_of_update:
  "access_of (with_permission sid gt gid p t) sid' gt' gid' =
    map_option (\<lambda>a. if sid' = sid \<and> gt' = gt \<and> gid' = gid then a\<lparr>sa_permission := p\<rparr> else a) (access_of t sid' gt' gid')"
proof -
  have "List.find (is_grant sid' gt' gid') (update_where (is_grant sid gt gid) (\<lambda>a. a\<lparr>sa_permission := p\<rparr>) as) =
    map_option (\<lambda>a. if sid' = sid \<and> gt' = gt \<and> gid' = gid then a\<lparr>sa_permission := p\<rparr> else a) (List.find (is_grant sid' gt' gid') as)" for as
    by (induction as) (auto simp: update_where_def is_grant_def)
  then show ?thesis by (simp add: access_of_def with_permission_def)
qed

lemma no_access_filter: "access_of t sid gt gid = None \<Longrightarrow> without_access sid gt gid t = t"
  using find_some_iff [of "is_grant sid gt gid" "t_space_access t"]
  by (auto simp: without_access_def access_of_def filter_id_conv)

lemma no_access_update: "access_of t sid gt gid = None \<Longrightarrow> with_permission sid gt gid p t = t"
  using find_some_iff [of "is_grant sid gt gid" "t_space_access t"]
  by (auto simp: with_permission_def access_of_def update_where_def map_idI)

lemma access_key_in: "(sid, gt, gid) \<in> access_key ` set (t_space_access t) \<longleftrightarrow> access_of t sid gt gid \<noteq> None"
  using find_some_iff [of "is_grant sid gt gid" "t_space_access t"]
  by (auto simp: access_of_def access_key_def is_grant_def image_iff)

lemma insert_new_access:
  "insert_access (new_access sid gt gid p now) t =
    (if access_of t sid gt gid \<noteq> None
     then Inl (unique_failed ''space_access.space_id, space_access.grantee_type, space_access.grantee_id'')
     else if sid \<notin> space_ids t then Inl foreign_key_failed
     else Inr (1, with_access (new_access sid gt gid p now) t))"
  using access_key_in [of sid gt gid t] by (simp add: insert_access_def access_key_def with_access_def)

definition grant_tables :: "string \<Rightarrow> string \<Rightarrow> string \<Rightarrow> string \<Rightarrow> string \<Rightarrow> tables \<Rightarrow> (app_error + space_access) \<times> tables" where
  "grant_tables sid gt gid p now t = (case insert_access (new_access sid gt gid p now) t of
      Inl e \<Rightarrow> (Inl (conflict_or_sqlx ''Access already granted to this user or group.'' e), t)
    | Inr (n, t') \<Rightarrow> (Inr (new_access sid gt gid p now), t'))"

lemma implements_grant: "implements (\<lambda>now i. grant_tables sid gt gid p now) (access_grant sid gt gid p)"
  unfolding access_grant_def
  by (rule implements_eq, (rule implements_rules space_reads reads_rules)+)
    (auto simp: fun_eq_iff grant_tables_def then_read_def access_of_with insert_new_access new_access_def [symmetric]
      split: option.splits sum.splits if_splits)

definition as_admin :: "tables \<Rightarrow> string \<Rightarrow> string \<Rightarrow> (app_error + 'a) \<times> tables \<Rightarrow> (app_error + 'a) \<times> tables" where
  "as_admin t a sid out = (case allowed t a sid Admin of Inl e \<Rightarrow> (Inl e, t) | Inr _ \<Rightarrow> out)"

definition checked :: "tables \<Rightarrow> string \<Rightarrow> (app_error + 'a) \<times> tables \<Rightarrow> (app_error + 'a) \<times> tables" where
  "checked t p out = (case validate_permission p of Inl e \<Rightarrow> (Inl e, t) | Inr _ \<Rightarrow> out)"

definition grant_user_tables :: "string \<Rightarrow> string \<Rightarrow> string \<Rightarrow> string \<Rightarrow> string \<Rightarrow> tables \<Rightarrow> (app_error + space_access) \<times> tables" where
  "grant_user_tables a sid name p now t = as_admin t a sid (checked t p (case user_named t name of
     None \<Rightarrow> (Inl NotFound, t) | Some u \<Rightarrow> grant_tables sid ''user'' (u_id u) p now t))"

lemma implements_grant_user:
  "implements (\<lambda>now i. grant_user_tables a sid name p now) (grant_user_access a sid name p)"
  unfolding grant_user_access_def
  by (rule implements_eq, (rule implements_rules implements_grant space_reads reads_rules)+)
    (auto simp: fun_eq_iff grant_user_tables_def as_admin_def checked_def split: option.splits sum.splits)

definition grant_group_tables :: "string \<Rightarrow> string \<Rightarrow> string \<Rightarrow> string \<Rightarrow> string \<Rightarrow> tables \<Rightarrow> (app_error + space_access) \<times> tables" where
  "grant_group_tables a sid gid p now t = as_admin t a sid (checked t p (case group_of t gid of
     None \<Rightarrow> (Inl NotFound, t) | Some g \<Rightarrow> grant_tables sid ''group'' gid p now t))"

lemma implements_grant_group:
  "implements (\<lambda>now i. grant_group_tables a sid gid p now) (grant_group_access a sid gid p)"
  unfolding grant_group_access_def
  by (rule implements_eq, (rule implements_rules implements_grant space_reads reads_rules)+)
    (auto simp: fun_eq_iff grant_group_tables_def as_admin_def checked_def split: option.splits sum.splits)

definition revoke_tables :: "string \<Rightarrow> string \<Rightarrow> string \<Rightarrow> string \<Rightarrow> tables \<Rightarrow> (app_error + unit) \<times> tables" where
  "revoke_tables a sid gt gid t = as_admin t a sid (case access_of t sid gt gid of
     None \<Rightarrow> (Inl NotFound, t) | Some x \<Rightarrow> (Inr (), without_access sid gt gid t))"

lemma implements_revoke: "implements (\<lambda>now i. revoke_tables a sid gt gid) (revoke_access a sid gt gid)"
  unfolding revoke_access_def access_revoke_def bind_sqlx_exec
  by (rule implements_eq, (rule implements_rules space_reads reads_rules)+)
    (auto simp: fun_eq_iff revoke_tables_def as_admin_def no_access_filter without_access_def [symmetric]
      split: option.splits sum.splits)

definition update_permission_tables ::
  "string \<Rightarrow> string \<Rightarrow> string \<Rightarrow> string \<Rightarrow> string \<Rightarrow> tables \<Rightarrow> (app_error + space_access) \<times> tables" where
  "update_permission_tables a sid gt gid p t = as_admin t a sid (checked t p (case access_of t sid gt gid of
     None \<Rightarrow> (Inl NotFound, t) | Some x \<Rightarrow> (Inr (x\<lparr>sa_permission := p\<rparr>), with_permission sid gt gid p t)))"

lemma implements_update_permission:
  "implements (\<lambda>now i. update_permission_tables a sid gt gid p) (update_access_permission a sid gt gid p)"
  unfolding update_access_permission_def access_update_permission_def bind_sqlx_exec
  by (rule implements_eq, (rule implements_rules space_reads reads_rules)+)
    (auto simp: fun_eq_iff update_permission_tables_def as_admin_def checked_def then_read_def access_of_update
      no_access_update with_permission_def [symmetric] split: option.splits sum.splits)

definition with_name :: "string \<Rightarrow> string \<Rightarrow> tables \<Rightarrow> tables" where
  "with_name sid name t = t\<lparr>t_spaces := update_where (\<lambda>s. s_id s = sid) (\<lambda>s. s\<lparr>s_name := name\<rparr>) (t_spaces t)\<rparr>"

definition update_space_tables :: "string \<Rightarrow> string \<Rightarrow> string \<Rightarrow> tables \<Rightarrow> (app_error + space) \<times> tables" where
  "update_space_tables a sid name0 t = as_admin t a sid (case validate_space_name name0 of Inl e \<Rightarrow> (Inl e, t)
     | Inr name \<Rightarrow> (case space_of t sid of None \<Rightarrow> (Inl NotFound, t)
         | Some s \<Rightarrow> (Inr (s\<lparr>s_name := name\<rparr>), with_name sid name t)))"

lemma space_of_with_name:
  "space_of (with_name sid name t) sid' = map_option (\<lambda>s. if sid' = sid then s\<lparr>s_name := name\<rparr> else s) (space_of t sid')"
proof -
  have "List.find (\<lambda>s. s_id s = sid') (update_where (\<lambda>s. s_id s = sid) (\<lambda>s. s\<lparr>s_name := name\<rparr>) ss) =
    map_option (\<lambda>s. if sid' = sid then s\<lparr>s_name := name\<rparr> else s) (List.find (\<lambda>s. s_id s = sid') ss)" for ss :: "space list"
    by (induction ss) (auto simp: update_where_def)
  then show ?thesis by (simp add: space_of_def with_name_def)
qed

lemma no_space_rename: "space_of t sid = None \<Longrightarrow> with_name sid name t = t"
  using space_of_iff [of sid t] by (subst with_name_def, subst update_where_none) (auto simp: space_ids_def)

lemma implements_update_space: "implements (\<lambda>now i. update_space_tables a sid name) (update_space a sid name)"
  unfolding update_space_def space_update_def bind_sqlx_exec
  by (rule implements_eq, (rule implements_rules space_reads reads_rules)+)
    (auto simp: fun_eq_iff update_space_tables_def as_admin_def then_read_def space_of_with_name no_space_rename
      with_name_def [symmetric] split: option.splits sum.splits)

section \<open>Access lists\<close>

text \<open>
  What the space service manages: for every space the permission of each grantee, a user or a
  group. \<open>adm\<close> tells who is an admin of which space, \<open>users\<close> resolves a username and \<open>known\<close> a
  group.
\<close>

type_synonym access_list = "string \<Rightarrow> string \<times> string \<Rightarrow> string option"

datatype space_request =
    GrantUser string string string string
  | GrantGroup string string string string
  | Revoke string string string string
  | UpdatePermission string string string string string
  | RenameSpace string string string

fun serve_space :: "space_request \<Rightarrow> ('z, unit) svc" where
  "serve_space (GrantUser a sid name p) = unit_of (grant_user_access a sid name p)"
| "serve_space (GrantGroup a sid gid p) = unit_of (grant_group_access a sid gid p)"
| "serve_space (Revoke a sid gt gid) = revoke_access a sid gt gid"
| "serve_space (UpdatePermission a sid gt gid p) = unit_of (update_access_permission a sid gt gid p)"
| "serve_space (RenameSpace a sid name) = unit_of (update_space a sid name)"

definition access_list_of :: "tables \<Rightarrow> access_list" where
  "access_list_of t sid = (\<lambda>(gt, gid). map_option sa_permission (access_of t sid gt gid))"

definition valid_permission :: "string \<Rightarrow> bool" where
  "valid_permission p = (p \<in> {PERM_READ, PERM_WRITE, PERM_ADMIN})"

definition set_access :: "string \<Rightarrow> string \<times> string \<Rightarrow> string option \<Rightarrow> access_list \<Rightarrow> access_list" where
  "set_access sid k p A = A(sid := (A sid)(k := p))"

fun access_step ::
  "(string \<Rightarrow> string \<Rightarrow> bool) \<Rightarrow> (string \<Rightarrow> string option) \<Rightarrow> (string \<Rightarrow> bool) \<Rightarrow> space_request \<Rightarrow> access_list \<Rightarrow> access_list"
where
  "access_step adm users known (GrantUser a sid name p) A = (case users name of None \<Rightarrow> A
     | Some u \<Rightarrow> if adm a sid \<and> valid_permission p \<and> A sid (''user'', u) = None
         then set_access sid (''user'', u) (Some p) A else A)"
| "access_step adm users known (GrantGroup a sid gid p) A =
     (if adm a sid \<and> valid_permission p \<and> known gid \<and> A sid (''group'', gid) = None
      then set_access sid (''group'', gid) (Some p) A else A)"
| "access_step adm users known (Revoke a sid gt gid) A =
     (if adm a sid then set_access sid (gt, gid) None A else A)"
| "access_step adm users known (UpdatePermission a sid gt gid p) A =
     (if adm a sid \<and> valid_permission p \<and> A sid (gt, gid) \<noteq> None then set_access sid (gt, gid) (Some p) A else A)"
| "access_step adm users known (RenameSpace a sid name) A = A"

definition admin_of :: "tables \<Rightarrow> string \<Rightarrow> string \<Rightarrow> bool" where
  "admin_of t a sid = (effective t a sid = Some Admin)"

definition known_group :: "tables \<Rightarrow> string \<Rightarrow> bool" where
  "known_group t gid = (group_of t gid \<noteq> None)"

lemma allowed_admin: "allowed t a sid Admin = Inr () \<longleftrightarrow> admin_of t a sid"
proof -
  have "\<not> p < Admin \<longleftrightarrow> p = Admin" for p by (cases p) (simp_all add: less_permission_def)
  then show ?thesis by (auto simp: allowed_def admin_of_def split: option.splits)
qed

lemma as_admin_if:
  "snd (as_admin t a sid out) = (if admin_of t a sid then snd out else t)"
  using allowed_admin [of t a sid] by (auto simp: as_admin_def split: sum.splits)

lemma checked_if: "snd (checked t p out) = (if valid_permission p then snd out else t)"
  by (auto simp: checked_def valid_permission_def validate_permission_def)

lemma holds_space:
  assumes "tables_ok t" "holds t uid sid p"
  shows "sid \<in> space_ids t"
  using assms(2,1) by (induction rule: holds.induct) (auto simp: tables_ok_def spaces_ok_def space_ids_def)

lemma admin_space: "tables_ok t \<Longrightarrow> admin_of t a sid \<Longrightarrow> sid \<in> space_ids t"
  using holds_space [of t a sid] by (fastforce simp: admin_of_def effective_def split: if_splits)

lemma access_list_with:
  "access_of t sid gt gid = None \<Longrightarrow>
   access_list_of (with_access (new_access sid gt gid p now) t) = set_access sid (gt, gid) (Some p) (access_list_of t)"
  by (auto simp: fun_eq_iff access_list_of_def set_access_def access_of_with)

lemma access_list_grant:
  assumes "sid \<in> space_ids t"
  shows "access_list_of (snd (grant_tables sid gt gid p now t)) =
    (if access_list_of t sid (gt, gid) = None then set_access sid (gt, gid) (Some p) (access_list_of t) else access_list_of t)"
  using assms access_list_with [of t sid gt gid p now]
  by (auto simp: grant_tables_def insert_new_access access_list_of_def)

lemma access_list_without:
  "access_list_of (without_access sid gt gid t) = set_access sid (gt, gid) None (access_list_of t)"
  by (auto simp: fun_eq_iff access_list_of_def set_access_def access_of_without)

lemma access_list_permission:
  "access_of t sid gt gid \<noteq> None \<Longrightarrow>
   access_list_of (with_permission sid gt gid p t) = set_access sid (gt, gid) (Some p) (access_list_of t)"
  by (auto simp: fun_eq_iff access_list_of_def set_access_def access_of_update option.map_ident)

lemma access_list_same: "t_space_access t' = t_space_access t \<Longrightarrow> access_list_of t' = access_list_of t"
  by (simp add: fun_eq_iff access_list_of_def access_of_def)

definition forget :: "('e + 'a) \<times> 't \<Rightarrow> ('e + unit) \<times> 't" where
  "forget out = (map_sum id (\<lambda>_. ()) (fst out), snd out)"

definition space_tables :: "space_request \<Rightarrow> string \<Rightarrow> tables \<Rightarrow> (app_error + unit) \<times> tables" where
  "space_tables q now = (case q of
     GrantUser a sid name p \<Rightarrow> (\<lambda>t. forget (grant_user_tables a sid name p now t))
   | GrantGroup a sid gid p \<Rightarrow> (\<lambda>t. forget (grant_group_tables a sid gid p now t))
   | Revoke a sid gt gid \<Rightarrow> revoke_tables a sid gt gid
   | UpdatePermission a sid gt gid p \<Rightarrow> (\<lambda>t. forget (update_permission_tables a sid gt gid p t))
   | RenameSpace a sid name \<Rightarrow> (\<lambda>t. forget (update_space_tables a sid name t)))"

lemma implements_serve_space: "implements (\<lambda>now i. space_tables q now) (serve_space q)"
  using implements_grant_user [THEN implements_unit_of] implements_grant_group [THEN implements_unit_of]
    implements_revoke implements_update_permission [THEN implements_unit_of] implements_update_space [THEN implements_unit_of]
  by (cases q) (simp_all add: space_tables_def forget_def case_prod_unfold)

lemma access_list_tables:
  assumes ok: "tables_ok t"
  shows "access_list_of (snd (space_tables q now t)) =
    access_step (admin_of t) (user_id_named t) (known_group t) q (access_list_of t)"
proof (cases q)
  case (GrantUser a sid name p)
  then show ?thesis using admin_space [OF ok, of a sid] access_list_grant [of sid t]
    by (auto simp: space_tables_def forget_def grant_user_tables_def as_admin_if checked_if user_id_named_def split: option.splits)
next
  case (GrantGroup a sid gid p)
  then show ?thesis using admin_space [OF ok, of a sid] access_list_grant [of sid t]
    by (auto simp: space_tables_def forget_def grant_group_tables_def as_admin_if checked_if known_group_def split: option.splits)
next
  case (Revoke a sid gt gid)
  then show ?thesis using access_list_without [of sid gt gid t] no_access_filter [of t sid gt gid]
    by (auto simp: space_tables_def revoke_tables_def as_admin_if split: option.splits)
next
  case (UpdatePermission a sid gt gid p)
  then show ?thesis using access_list_permission [of t sid gt gid p]
    by (auto simp: space_tables_def forget_def update_permission_tables_def as_admin_if checked_if access_list_of_def split: option.splits)
next
  case (RenameSpace a sid name)
  then show ?thesis
    by (auto simp: space_tables_def forget_def update_space_tables_def as_admin_if with_name_def
        intro!: access_list_same split: option.splits sum.splits)
qed

lemma space_tables_refused: "isl (fst (space_tables q now t)) \<Longrightarrow> snd (space_tables q now t) = t"
  by (cases q) (auto simp: space_tables_def forget_def isl_map_sum grant_user_tables_def grant_group_tables_def grant_tables_def
      revoke_tables_def update_permission_tables_def update_space_tables_def as_admin_def checked_def
      split: option.splits sum.splits prod.splits)

fun space_actor :: "space_request \<Rightarrow> string \<times> string" where
  "space_actor (GrantUser a sid name p) = (a, sid)" | "space_actor (GrantGroup a sid gid p) = (a, sid)"
| "space_actor (Revoke a sid gt gid) = (a, sid)" | "space_actor (UpdatePermission a sid gt gid p) = (a, sid)"
| "space_actor (RenameSpace a sid name) = (a, sid)"

lemma as_admin_refused: "\<not> admin_of t a sid \<Longrightarrow> isl (fst (as_admin t a sid out)) \<and> snd (as_admin t a sid out) = t"
  using allowed_admin [of t a sid] by (auto simp: as_admin_def split: sum.splits)

lemma space_tables_not_admin:
  assumes "\<not> admin_of t (fst (space_actor q)) (snd (space_actor q))"
  shows "isl (fst (space_tables q now t)) \<and> snd (space_tables q now t) = t"
  using assms
  by (cases q) (simp_all add: as_admin_refused space_tables_def forget_def isl_map_sum grant_user_tables_def grant_group_tables_def
      revoke_tables_def update_permission_tables_def update_space_tables_def)

text \<open>
  C23. The space service implements the access lists: after any request the list is the one
  \<open>access_step\<close> gives (or, when the environment failed and the request is answered with an error,
  the old one). A request of somebody who is not an admin of the space is refused and leaves the
  tables as they were, and so does every refused request.
\<close>

theorem space_service_refines_access_lists:
  assumes ok: "tables_ok (tb w)" and run: "serve_space q w = (r, w')"
  shows "(access_list_of (tb w') =
       access_step (admin_of (tb w)) (user_id_named (tb w)) (known_group (tb w)) q (access_list_of (tb w)) \<or>
      \<not> calm w \<and> isl r \<and> access_list_of (tb w') = access_list_of (tb w)) \<and>
    (\<not> admin_of (tb w) (fst (space_actor q)) (snd (space_actor q)) \<longrightarrow> isl r \<and> tb w' = tb w) \<and>
    (calm w \<and> isl r \<longrightarrow> tb w' = tb w)"
proof -
  let ?F = "space_tables q (datetime_text w (clock w)) (tb w)"
  have "r = fst ?F \<and> tb w' = snd ?F \<or> \<not> calm w \<and> isl r \<and> (tb w' = tb w \<or> tb w' = snd ?F)"
    using implements_either [OF implements_serve_space run] .
  then show ?thesis
    using access_list_tables [OF ok] space_tables_refused space_tables_not_admin by metis
qed

section \<open>Grants take effect\<close>

lemma holds_with_access:
  "holds (with_access (new_access sid ''user'' u p now) t) x s q \<longleftrightarrow> holds t x s q \<or> x = u \<and> s = sid \<and> q = p"
proof
  assume "holds (with_access (new_access sid ''user'' u p now) t) x s q"
  then show "holds t x s q \<or> x = u \<and> s = sid \<and> q = p"
    by (induction rule: holds.induct) (auto simp: with_access_def intro: holds.intros)
next
  have new: "holds (with_access (new_access sid ''user'' u p now) t) u sid p"
    using holds.direct [of "new_access sid ''user'' u p now" "with_access (new_access sid ''user'' u p now) t" sid u]
    by (simp add: with_access_def)
  have "holds t x s q \<Longrightarrow> holds (with_access (new_access sid ''user'' u p now) t) x s q"
    by (induction rule: holds.induct) (auto simp: with_access_def intro: holds.intros)
  then show "holds t x s q \<or> x = u \<and> s = sid \<and> q = p \<Longrightarrow> holds (with_access (new_access sid ''user'' u p now) t) x s q"
    using new by blast
qed

lemma effective_with_access:
  "effective (with_access (new_access sid ''user'' u p now) t) x s =
    (if x = u \<and> s = sid then Some (case effective t u sid of None \<Rightarrow> permission_of p | Some q \<Rightarrow> max (permission_of p) q)
     else effective t x s)"
proof (cases "x = u \<and> s = sid")
  case True
  then have "holds (with_access (new_access sid ''user'' u p now) t) x s = (\<lambda>q. q = p \<or> holds t u sid q)"
    by (auto simp: fun_eq_iff holds_with_access)
  then have new: "Collect (holds (with_access (new_access sid ''user'' u p now) t) x s) = insert p (Collect (holds t u sid))"
    by auto
  have fin: "finite (Collect (holds t u sid))" by (simp flip: perms_on_holds)
  show ?thesis
  proof (cases "Collect (holds t u sid) = {}")
    case empty: True
    show ?thesis unfolding effective_def new using True by (simp add: empty del: Collect_empty_eq)
  next
    case False
    then show ?thesis unfolding effective_def new using True fin by (simp del: Collect_empty_eq)
  qed
next
  case False
  then have "holds (with_access (new_access sid ''user'' u p now) t) x s = holds t x s"
    by (auto simp: fun_eq_iff holds_with_access)
  then have "effective (with_access (new_access sid ''user'' u p now) t) x s = effective t x s"
    by (simp add: effective_def)
  then show ?thesis by (simp only: False if_False)
qed

lemma grant_user_Inr:
  assumes "grant_user_tables a sid name p now t = (Inr x, t')"
  obtains u where "user_id_named t name = Some u" "access_of t sid ''user'' u = None" "valid_permission p"
    "t' = with_access (new_access sid ''user'' u p now) t" "admin_of t a sid"
  using assms allowed_admin [of t a sid]
  by (auto simp: grant_user_tables_def as_admin_def checked_def grant_tables_def insert_new_access user_id_named_def
      valid_permission_def validate_permission_def split: option.splits sum.splits if_splits)

lemma grant_then_revoke:
  "access_of t sid gt gid = None \<Longrightarrow> without_access sid gt gid (with_access (new_access sid gt gid p now) t) = t"
  using no_access_filter [of t sid gt gid]
  by (simp add: without_access_def with_access_def is_grant_def)

text \<open>
  C24. A granted permission takes effect at once and for nobody else: the grantee's effective
  permission becomes the greater of the old one and the granted one, no other permission of anybody
  on any space changes; and revoking the grant restores exactly the permissions there were before.
\<close>

theorem grant_takes_effect:
  fixes w w' :: "'z db_scheme"
  assumes run: "grant_user_access a sid name p w = (Inr x, w')"
  shows "\<exists>u. user_id_named (tb w) name = Some u \<and>
    effective (tb w') u sid = Some (case effective (tb w) u sid of None \<Rightarrow> permission_of p
       | Some q \<Rightarrow> max (permission_of p) q) \<and>
    (\<forall>v s. v \<noteq> u \<or> s \<noteq> sid \<longrightarrow> effective (tb w') v s = effective (tb w) v s) \<and>
    (\<forall>b (w2 :: 'z db_scheme) w3. tb w2 = tb w' \<longrightarrow> revoke_access b sid ''user'' u w2 = (Inr (), w3) \<longrightarrow> tb w3 = tb w)"
proof -
  let ?F = "grant_user_tables a sid name p (datetime_text w (clock w)) (tb w)"
  have "?F = (Inr x, tb w')" using implements_Inr [OF implements_grant_user run] .
  then obtain u now where u: "user_id_named (tb w) name = Some u" "access_of (tb w) sid ''user'' u = None"
    and t': "tb w' = with_access (new_access sid ''user'' u p now) (tb w)"
    by (rule grant_user_Inr)
  have "tb w3 = tb w" if "tb w2 = tb w'" "revoke_access b sid ''user'' u w2 = (Inr (), w3)" for b and w2 w3 :: "'z db_scheme"
  proof -
    have "revoke_tables b sid ''user'' u (tb w2) = (Inr (), tb w3)"
      using implements_Inr [OF implements_revoke that(2)] .
    then have "tb w3 = without_access sid ''user'' u (tb w')"
      using that(1) by (auto simp: revoke_tables_def as_admin_def split: sum.splits option.splits)
    then show ?thesis using grant_then_revoke [OF u(2)] t' by simp
  qed
  moreover have "effective (tb w') v s = effective (tb w) v s" if "v \<noteq> u \<or> s \<noteq> sid" for v s
    using that by (auto simp: t' effective_with_access)
  moreover have "effective (tb w') u sid = Some (case effective (tb w) u sid of None \<Rightarrow> permission_of p
       | Some q \<Rightarrow> max (permission_of p) q)"
    by (simp add: t' effective_with_access)
  ultimately show ?thesis using u(1) by blast
qed

section \<open>A server with one space\<close>

definition one_space :: tables where
  "one_space = one_group\<lparr>t_spaces := [new_space ''s'' \<lparr>csp_name = ''photos'', csp_owner_type = ''user'', csp_owner_id = ''alice'',
       csp_encryption_mode = ''server'', csp_encrypted_data_key = []\<rparr> ''0'']\<rparr>"

definition shared_space :: tables where
  "shared_space = with_access (new_access ''s'' ''user'' ''bob'' ''read'' ''0'') one_space"

lemma one_space_ok: "tables_ok one_space"
  using one_group_ok
  by (simp add: one_space_def one_group_def two_users_def no_tables_def tables_ok_defs sample_user_def new_member_def new_space_def)

lemma shared_space_ok: "tables_ok shared_space"
  using one_space_ok
  by (simp add: shared_space_def with_access_def new_access_def one_space_def one_group_def two_users_def no_tables_def
      tables_ok_defs sample_user_def new_member_def new_space_def)

theorem permission_queries_agree_witness:
  "fst (resolve_user_permission ''bob'' ''s'' (server [] shared_space)) = Inr (Some ''read'') \<and>
   fst (get_space ''carol'' ''s'' (server [] shared_space)) = Inl NotFound"
proof -
  have "map_option label (effective shared_space ''bob'' ''s'') = Some ''read''" "space_view shared_space ''carol'' ''s'' = None"
    by code_simp+
  then show ?thesis
    using permission_queries_agree [of "server [] shared_space" "''bob''" "''s''"]
      permission_queries_agree [of "server [] shared_space" "''carol''" "''s''"] by simp
qed

theorem space_service_refines_access_lists_witness:
  "access_list_of (tb (snd (serve_space (Revoke ''alice'' ''s'' ''user'' ''bob'') (server [] shared_space)))) ''s''
     (''user'', ''bob'') = None \<and> access_list_of shared_space ''s'' (''user'', ''bob'') = Some ''read''"
proof -
  let ?q = "Revoke ''alice'' ''s'' ''user'' ''bob''"
  have "access_list_of (tb (snd (serve_space ?q (server [] shared_space)))) =
      access_step (admin_of shared_space) (user_id_named shared_space) (known_group shared_space) ?q (access_list_of shared_space)"
    using space_service_refines_access_lists [of "server [] shared_space" ?q] shared_space_ok by (metis prod.collapse server_simps)
  moreover have "admin_of shared_space ''alice'' ''s''" "access_list_of shared_space ''s'' (''user'', ''bob'') = Some ''read''"
    by code_simp+
  ultimately show ?thesis by (simp add: set_access_def)
qed

theorem grant_takes_effect_witness:
  "effective (tb (snd (grant_user_access ''alice'' ''s'' ''bob'' ''write'' (server [] one_space)))) ''bob'' ''s'' = Some Write \<and>
   effective one_space ''bob'' ''s'' = None"
proof -
  let ?m = "grant_user_access ''alice'' ''s'' ''bob'' ''write'' (server [] one_space)"
  let ?F = "grant_user_tables ''alice'' ''s'' ''bob'' ''write'' (datetime_text (server [] one_space) (clock (server [] one_space))) one_space"
  have "fst ?m = fst ?F"
    using implements_either [OF implements_grant_user, of _ _ _ _ "server [] one_space" "fst ?m" "snd ?m"] by simp
  moreover have "\<not> isl (fst ?F)" by code_simp
  ultimately obtain x where "?m = (Inr x, snd ?m)" by (metis prod.collapse sum.collapse(2))
  from grant_takes_effect [OF this]
  have "\<exists>u. user_id_named one_space ''bob'' = Some u \<and> effective (tb (snd ?m)) u ''s'' =
      Some (case effective one_space u ''s'' of None \<Rightarrow> permission_of ''write'' | Some q \<Rightarrow> max (permission_of ''write'') q)"
    by auto
  moreover have "user_id_named one_space ''bob'' = Some ''bob''" "effective one_space ''bob'' ''s'' = None" by code_simp+
  ultimately show ?thesis by (simp add: permission_of_def)
qed

end
