(* ===== verification/Keyring.thy ===== *)
theory Keyring
  imports LibraryService SpaceFacts
begin

text \<open>
  The life of a realm, a space or a personal library: its row, its directory, its data key in
  memory. Creation makes all three or undoes what it did, deletion removes all three, a restart
  restores the keys, and a key in memory is always the one its row holds.
\<close>

section \<open>What the database does not touch\<close>

definition same_keys :: "'z world_scheme \<Rightarrow> 'z world_scheme \<Rightarrow> bool" where
  "same_keys w w' = (unlocked w' = unlocked w \<and> faults w' = faults w)"

interpretation same_keys: frame_rel same_keys
  by unfold_locales (auto simp: same_keys_def)

lemma unlocked_tick [simp]: "unlocked (tick w) = unlocked w" "faults (tick v) = faults v"
  by (simp_all add: tick_def)

lemma same_keys_syscall: "keeps same_keys (syscall f)"
  by (auto simp: keeps_def same_keys_def syscall_def split: option.splits sum.splits)

lemma same_keys_calls:
  "keeps same_keys (query f)" "keeps same_keys (mutate g)" "keeps same_keys (select h)"
  "keeps same_keys (exec e)" "keeps same_keys (fill_bytes n)" "keeps same_keys new_uuid"
  by (simp_all add: query_def mutate_def same_keys_syscall)
    (auto simp: keeps_def same_keys_def select_def exec_def fill_bytes_def new_uuid_def split: option.splits sum.splits)

lemmas same_keys_rules = same_keys.keeps_rules same_keys_syscall same_keys_calls keeps_sqlx

section \<open>Key material\<close>

lemma new_data_key:
  assumes ok: "crypto_ok C"
    and run: "bind generate_data_key (\<lambda>k. bind (wrap_data_key C mk k) (\<lambda>blob. K k blob)) w = (r, w')"
  obtains e n where "r = Inl e" "w' = w\<lparr>rng_pos := n\<rparr>"
    | k blob n where "length k = 32" "unwrap_data_key C mk blob = Inr k" "K k blob (w\<lparr>rng_pos := n\<rparr>) = (r, w')"
proof -
  define k where "k = map (\<lambda>i. rng w (rng_pos w + i)) [0..<KEY_LEN]"
  let ?w = "w\<lparr>rng_pos := rng_pos w + KEY_LEN\<rparr>"
  have k: "length k = 32" by (simp add: k_def KEY_LEN_def)
  have run': "bind (wrap_data_key C mk k) (\<lambda>blob. K k blob) ?w = (r, w')"
    using run by (simp add: bind_def generate_data_key_def fill_bytes_def k_def)
  have rng: "\<exists>n. w1 = w\<lparr>rng_pos := n\<rparr>" if "wrap_data_key C mk k ?w = (y, w1)" for y w1
    using that by (auto simp: wrap_data_key_def aes_gcm_wrap_def bind_def fill_bytes_def split: option.splits)
  from run' show thesis
  proof (rule bind_runE)
    fix e assume "wrap_data_key C mk k ?w = (Inl e, w')" "r = Inl e"
    then show thesis using that(1) rng by blast
  next
    fix blob w1 assume 1: "wrap_data_key C mk k ?w = (Inr blob, w1)" "K k blob w1 = (r, w')"
    then obtain n where "w1 = w\<lparr>rng_pos := n\<rparr>" using rng by blast
    then show thesis using that(2) [of k blob n] k wrapped_key [OF ok k 1(1)] 1(2) by simp
  qed
qed

section \<open>The directory of a realm\<close>

lemma join_meta: "path_join dir META_FILENAME = dir @ [META_FILENAME]"
proof -
  have "filter (\<lambda>c. c \<noteq> []) (split_on path_sep META_FILENAME) = [META_FILENAME]" "\<not> starts_with META_FILENAME ''/''"
    by code_simp+
  then show ?thesis by (simp add: path_join_def)
qed

definition realm_on_disk :: "string \<Rightarrow> path \<Rightarrow> string \<Rightarrow> tree \<Rightarrow> tree \<Rightarrow> bool" where
  "realm_on_disk kind dir i t t' = (wf_tree t' \<and> lookup t' dir = Some Dir \<and>
     lookup t' (dir @ [META_FILENAME]) = Some (Reg (meta_content kind i)) \<and>
     (\<forall>q. \<not> is_prefix q (dir @ [META_FILENAME]) \<longrightarrow> lookup t' q = lookup t q))"

lemma create_realm_directory_run:
  assumes run: "create_realm_directory kind dir i w = (Inr u, w')"
    and wf: "wf_tree (tree w)" and lf: "linkfree (tree w) (dir @ [META_FILENAME])"
  shows "realm_on_disk kind dir i (tree w) (tree w')"
proof -
  let ?p = "dir @ [META_FILENAME]"
  obtain w1 where 1: "fs_create_dir_all dir w = (Inr (), w1)" "fs_write ?p (meta_content kind i) w1 = (Inr (), w')"
    using run by (auto simp: create_realm_directory_def join_meta map_err_def bind_def Let_def split: prod.splits sum.splits)
  have mk: "mkdirs (tree w) [] dir = Inr (tree w1)"
    using 1(1) by (auto simp: fs_create_dir_all_def dest: mutate_Inr)
  have look: "lookup (tree w1) q = (if is_prefix q dir then Some Dir else lookup (tree w) q)" for q
    using mkdirs_lookup [OF _ _ mk, of q] linkfree_prefix [OF lf] by simp
  have wf1: "wf_tree (tree w1)" using mkdirs_props [OF wf _ mk] by simp
  have lf1: "linkfree (tree w1) ?p" using lf look by (auto simp: linkfree_def)
  obtain h w2 where 2: "fs_create ?p w1 = (Inr h, w2)" "fs_write_all h (meta_content kind i) w2 = (Inr (), w')"
    using 1(2) unfolding fs_write_def by (auto elim: bind_runE)
  have c: "h = ?p" "tree w2 = put ?p (Reg []) (tree w1)" "wf_tree (tree w2)"
    using create_Inr [OF wf1 lf1 2(1)] by auto
  have t': "tree w' = put ?p (Reg (meta_content kind i)) (tree w1)"
    using write_all_Inr [OF 2(2)] by (simp add: c append_to_put)
  have "wf_tree (tree w')"
    using lf1 look wf_put [OF c(3), of ?p "Reg (meta_content kind i)"]
    by (simp add: t' c(2) put_put lookup_put linkfree_name)
  then show ?thesis
    by (auto simp: realm_on_disk_def t' lookup_put look is_prefix_iff)
qed

text \<open>What a directory that could not be finished leaves behind: itself and an incomplete meta file.\<close>

definition directory_left :: "path \<Rightarrow> tree \<Rightarrow> tree \<Rightarrow> bool" where
  "directory_left dir t t' = (wf_tree t \<and> linkfree t (dir @ [META_FILENAME]) \<longrightarrow>
     (\<forall>q. lookup t' q = lookup t q \<or> is_prefix q dir \<and> lookup t' q = Some Dir \<or>
        q = dir @ [META_FILENAME] \<and> (\<exists>d. lookup t' q = Some (Reg d))))"

lemma fs_create_Inl: "fs_create p w = (Inl e, w') \<Longrightarrow> tree w' = tree w"
  by (auto simp: fs_create_def syscall_def tick_def split: option.splits sum.splits)

lemma create_realm_directory_failed:
  assumes run: "create_realm_directory kind dir i w = (Inl e, w')"
  shows "directory_left dir (tree w) (tree w')"
proof -
  let ?p = "dir @ [META_FILENAME]"
  obtain r1 w1 where mk: "fs_create_dir_all dir w = (r1, w1)" by fastforce
  show ?thesis
  proof (cases r1)
    case (Inl e1)
    then have "tree w' = tree w"
      using run mk mutate_Inl [of _ w e1 w1]
      by (auto simp: create_realm_directory_def map_err_def bind_def fs_create_dir_all_def)
    then show ?thesis by (simp add: directory_left_def)
  next
    case (Inr u)
    have tree1: "mkdirs (tree w) [] dir = Inr (tree w1)"
      using mk Inr by (auto simp: fs_create_dir_all_def dest: mutate_Inr)
    obtain e2 where wr: "fs_write ?p (meta_content kind i) w1 = (Inl e2, w')"
      using run mk Inr by (auto simp: create_realm_directory_def join_meta map_err_def bind_def Let_def split: prod.splits sum.splits)
    have failed: "tree w' = tree w1 \<or> (\<exists>h w2. fs_create ?p w1 = (Inr h, w2) \<and> tree w' = tree w2)"
      using wr fs_create_Inl by (auto simp: fs_write_def bind_def fs_write_all_def split: prod.splits sum.splits dest: mutate_Inl)
    show ?thesis
      unfolding directory_left_def
    proof (intro impI allI)
      fix q assume h: "wf_tree (tree w) \<and> linkfree (tree w) ?p"
      have look: "lookup (tree w1) q = (if is_prefix q dir then Some Dir else lookup (tree w) q)" for q
        using mkdirs_lookup [OF _ _ tree1, of q] linkfree_prefix [of "tree w" dir "[META_FILENAME]"] h by simp
      have ok1: "wf_tree (tree w1)" "linkfree (tree w1) ?p"
        using mkdirs_props [OF _ _ tree1] h by (simp, auto simp: linkfree_def look)
      from failed show "lookup (tree w') q = lookup (tree w) q \<or> is_prefix q dir \<and> lookup (tree w') q = Some Dir \<or>
          q = ?p \<and> (\<exists>d. lookup (tree w') q = Some (Reg d))"
      proof (elim disjE exE conjE)
        assume "tree w' = tree w1"
        then show ?thesis by (simp add: look)
      next
        fix x w2 assume c: "fs_create ?p w1 = (Inr x, w2)" "tree w' = tree w2"
        have "tree w' = put ?p (Reg []) (tree w1)" using create_Inr [OF ok1 c(1)] c(2) by (elim conjE) (rule trans)
        then show ?thesis by (simp add: look lookup_put)
      qed
    qed
  qed
qed

lemma same_db_realm_directory: "keeps same_db (create_realm_directory kind dir i)"
  unfolding create_realm_directory_def Let_def fs_create_dir_all_def fs_write_def fs_create_def fs_write_all_def
  by (intro same_db_rules)

lemma same_keys_realm_directory: "keeps same_keys (create_realm_directory kind dir i)"
  unfolding create_realm_directory_def Let_def fs_create_dir_all_def fs_write_def fs_create_def fs_write_all_def
  by (intro same_keys_rules)

section \<open>Rows of spaces\<close>

definition with_space :: "space \<Rightarrow> tables \<Rightarrow> tables" where
  "with_space s t = t\<lparr>t_spaces := t_spaces t @ [s]\<rparr>"

lemma space_of_with: "space_of (with_space s t) i =
   (case space_of t i of Some x \<Rightarrow> Some x | None \<Rightarrow> if s_id s = i then Some s else None)"
  by (simp add: space_of_def with_space_def find_snoc)

lemma implements_space_create:
  "implements (\<lambda>now i t. if i \<in> space_ids t then (Inl (Sqlx (unique_failed ''spaces.id'')), t)
     else (Inr (new_space i params now), with_space (new_space i params now) t)) (space_create params)"
  unfolding space_create_def
  by (rule implements_eq, (rule implements_rules reads_space_find reads_rules)+)
    (auto simp: fun_eq_iff then_read_def insert_space_def with_space_def [symmetric] space_of_with space_of_iff new_space_def
      split: option.splits sum.splits if_splits)

lemma implements_space_delete:
  "implements (\<lambda>now i t. (if space_of t sid = None then Inl NotFound else Inr (), snd (delete_space_rows sid t)))
     (space_delete_by_id sid)"
  unfolding space_delete_by_id_def bind_sqlx_exec
  by (rule implements_eq, (rule implements_rules reads_rules)+)
    (auto simp: fun_eq_iff delete_space_rows_def split: option.splits)

lemma delete_new_space:
  assumes "tables_ok t" "s_id s \<notin> space_ids t"
  shows "snd (delete_space_rows (s_id s) (with_space s t)) = t"
proof -
  have "sa_space_id ` set (t_space_access t) \<subseteq> space_ids t"
    using assms(1) by (simp add: tables_ok_def spaces_ok_def)
  then have "\<forall>x \<in> set (t_spaces t). s_id x \<noteq> s_id s" "\<forall>a \<in> set (t_space_access t). sa_space_id a \<noteq> s_id s"
    using assms(2) by (auto simp: space_ids_def image_subset_iff rev_image_eqI)
  then show ?thesis by (simp add: delete_space_rows_def with_space_def)
qed

lemma same_keys_space_create: "keeps same_keys (space_create params)"
  unfolding space_create_def space_find_by_id_def by (intro same_keys_rules)

lemma same_keys_space_delete: "keeps same_keys (space_delete_by_id i)"
  unfolding space_delete_by_id_def by (intro same_keys_rules)

section \<open>Creating a space\<close>

definition space_made :: "crypto \<Rightarrow> app_config \<Rightarrow> byte list \<Rightarrow> string \<Rightarrow> string \<Rightarrow> string \<Rightarrow> 'z world_scheme \<Rightarrow> space \<Rightarrow> 'z world_scheme \<Rightarrow> bool" where
  "space_made C config mk owner_type owner name w s w' =
     (s_name s = name \<and> s_owner_type s = owner_type \<and> s_owner_id s = owner \<and> s_encryption_mode s = ''server'' \<and>
      s_id s \<notin> space_ids (tb w) \<and> tb w' = with_space s (tb w) \<and>
      (\<exists>k. length k = 32 \<and> unwrap_data_key C mk (s_encrypted_data_key s) = Inr k \<and>
         unlocked w' = insert_space_key (s_id s) k (unlocked w)) \<and>
      (wf_tree (tree w) \<and> linkfree (tree w) (space_dir config (s_id s) @ [META_FILENAME]) \<longrightarrow>
         realm_on_disk ''space'' (space_dir config (s_id s)) (s_id s) (tree w) (tree w')))"

text \<open>
  The two ways a space that is not made has gone beyond its row. Its new row could not be read back
  (call number \<open>n\<close>), and nothing removes it. Or its directory could not be made: then the row is
  deleted again by the next call, if that call works, and the directory may stay.
\<close>

definition row_not_read :: "nat \<Rightarrow> 'z world_scheme \<Rightarrow> space \<Rightarrow> 'z world_scheme \<Rightarrow> bool" where
  "row_not_read n w s w' = (faults w n \<noteq> None \<and> tb w' = with_space s (tb w) \<and> tree w' = tree w)"

definition space_rolled_back :: "app_config \<Rightarrow> 'z world_scheme \<Rightarrow> space \<Rightarrow> 'z world_scheme \<Rightarrow> bool" where
  "space_rolled_back config w s w' = (\<exists>(w1 :: 'z world_scheme) e w2. tb w1 = with_space s (tb w) \<and> tree w1 = tree w \<and> faults w1 = faults w \<and>
     create_realm_directory ''space'' (space_dir config (s_id s)) (s_id s) w1 = (Inl e, w2) \<and>
     tb w' = (if faults w (ticks w2) = None then tb w else with_space s (tb w)) \<and>
     directory_left (space_dir config (s_id s)) (tree w) (tree w'))"

definition nothing_made :: "app_config \<Rightarrow> nat \<Rightarrow> 'z world_scheme \<Rightarrow> 'z world_scheme \<Rightarrow> bool" where
  "nothing_made config n w w' = (unlocked w' = unlocked w \<and>
     (tb w' = tb w \<and> tree w' = tree w \<or>
      (\<exists>s. s_id s \<notin> space_ids (tb w) \<and> (row_not_read n w s w' \<or> space_rolled_back config w s w'))))"

lemma nothing_made_tables:
  assumes "nothing_made config n w w'"
  shows "unlocked w' = unlocked w" "tb w' = tb w \<or> (\<exists>s. s_id s \<notin> space_ids (tb w) \<and> tb w' = with_space s (tb w))"
  using assms by (auto simp: nothing_made_def row_not_read_def space_rolled_back_def split: if_splits)

lemma nothing_made_same:
  assumes "tb w1 = tb w" "tree w1 = tree w" "unlocked w1 = unlocked w" "faults w1 = faults w"
  shows "nothing_made config n w1 w' = nothing_made config n w w'"
  by (simp add: nothing_made_def row_not_read_def space_rolled_back_def assms)

lemma space_made_same:
  assumes "tb w1 = tb w" "tree w1 = tree w" "unlocked w1 = unlocked w"
  shows "space_made C config mk ot owner name w1 s w' = space_made C config mk ot owner name w s w'"
  by (simp add: space_made_def assms)

lemma space_delete_tables: "space_delete_by_id sid w = (r, w') \<Longrightarrow>
   tb w' = (if faults w (ticks w) = None then snd (delete_space_rows sid (tb w)) else tb w)"
  by (auto simp: space_delete_by_id_def run_rules delete_space_rows_def reject_if_def ret_def throw_def
      split: option.splits if_splits)

lemma space_after_row:
  fixes w :: "'z world_scheme"
  assumes row: "s_id s \<notin> space_ids (tb w0)" "tb w = with_space s (tb w0)" "unlocked w = unlocked w0" "faults w = faults w0" "tree w = tree w0"
    and ok: "tables_ok (tb w0)"
    and run: "bind (attempt (create_space_dir (space_dir config (s_id s)) (s_id s))) (\<lambda>made. case made of
         Inl e \<Rightarrow> bind (ignore (space_delete_by_id (s_id s))) (\<lambda>_. throw e)
       | Inr _ \<Rightarrow> bind (keep_space_key (s_id s) k) (\<lambda>_. ret x)) w = (r, w')"
  shows "(isl r \<and> nothing_made config n w0 w') \<or>
    (\<exists>w1. r = Inr x \<and> create_realm_directory ''space'' (space_dir config (s_id s)) (s_id s) w = (Inr (), w1) \<and>
      w' = w1\<lparr>unlocked := insert_space_key (s_id s) k (unlocked w0)\<rparr> \<and> tb w1 = tb w)"
proof -
  let ?dir = "space_dir config (s_id s)"
  obtain d w1 where d: "create_realm_directory ''space'' ?dir (s_id s) w = (d, w1)" by fastforce
  have same: "tb w1 = tb w" "unlocked w1 = unlocked w0" "faults w1 = faults w0"
    using keepsD [OF same_db_realm_directory d] keepsD [OF same_keys_realm_directory d] row
    by (simp_all add: same_db_def same_keys_def)
  show ?thesis
  proof (cases d)
    case (Inr u)
    then show ?thesis using run d same
      by (simp add: create_space_dir_def bind_def attempt_def keep_space_key_def modify_def)
  next
    case (Inl e)
    obtain y w2 where del: "space_delete_by_id (s_id s) w1 = (y, w2)" by fastforce
    have out: "r = Inl e" "w' = w2"
      using run d Inl del by (auto simp: create_space_dir_def bind_def attempt_def ignore_def)
    have "tb w2 = (if faults w0 (ticks w1) = None then tb w0 else with_space s (tb w0))"
      using space_delete_tables [OF del] delete_new_space [OF ok row(1)] row(2) same by simp
    moreover have "unlocked w2 = unlocked w0" using keepsD [OF same_keys_space_delete del] same by (simp add: same_keys_def)
    moreover have "directory_left ?dir (tree w0) (tree w2)"
      using create_realm_directory_failed [OF d [unfolded Inl]] row(5) implements_run(1) [OF implements_space_delete del] by simp
    ultimately have "space_rolled_back config w0 s w2"
      unfolding space_rolled_back_def using row d Inl by blast
    then show ?thesis using out row(1) \<open>unlocked w2 = unlocked w0\<close> by (auto simp: nothing_made_def)
  qed
qed

lemma space_create_cases:
  fixes w :: "'z world_scheme"
  assumes run: "space_create params w = (r, w')"
  shows "tree w' = tree w \<and> unlocked w' = unlocked w \<and> faults w' = faults w \<and>
    (case r of Inl e \<Rightarrow> tb w' = tb w \<or> (\<exists>s. s_id s \<notin> space_ids (tb w) \<and> row_not_read (Suc (ticks w)) w s w')
     | Inr s \<Rightarrow> \<exists>i now. s = new_space i params now \<and> i \<notin> space_ids (tb w) \<and> tb w' = with_space s (tb w))"
proof (intro conjI)
  define i where "i = uuids w (uuid_pos w)"
  define s where "s = new_space i params (datetime_text w (clock w))"
  have id: "s_id s = i" by (simp add: s_def new_space_def)
  define F where "F = (if i \<in> space_ids (tb w) then (Inl (Sqlx (unique_failed ''spaces.id'')), tb w) else (Inr s, with_space s (tb w)))"
  note F = implements_run [OF implements_space_create run, folded i_def, folded s_def, folded F_def]
  show "tree w' = tree w" using F(1) [of "fst F" "snd F"] by simp
  show "unlocked w' = unlocked w" "faults w' = faults w"
    using keepsD [OF same_keys_space_create run] by (simp_all add: same_keys_def)
  have new: "\<exists>now. s = new_space i params now" using s_def by blast
  have out: "r = fst F \<and> tb w' = snd F \<or> \<not> calm w \<and> isl r \<and> (tb w' = tb w \<or> tb w' = snd F)"
    using F(3) [of "fst F" "snd F"] by simp
  have unread: "faults w (Suc (ticks w)) \<noteq> None" if "isl r" "tb w' \<noteq> tb w"
    using that run
    by (auto simp: space_create_def space_find_by_id_def run_rules insert_space_def new_space_def ok_or_def ret_def throw_def find_snoc tick_def
        split: option.splits if_splits)
  from out show "case r of Inl e \<Rightarrow> tb w' = tb w \<or> (\<exists>s. s_id s \<notin> space_ids (tb w) \<and> row_not_read (Suc (ticks w)) w s w')
     | Inr s \<Rightarrow> \<exists>i now. s = new_space i params now \<and> i \<notin> space_ids (tb w) \<and> tb w' = with_space s (tb w)"
    using id new unread \<open>tree w' = tree w\<close> by (cases r) (force simp: F_def row_not_read_def split: if_splits)+
qed

lemma create_owned_space_cases:
  fixes w :: "'z world_scheme"
  assumes C: "crypto_ok C" and ok: "tables_ok (tb w)"
    and run: "create_owned_space C config mk owner_type owner name w = (r, w')"
  shows "case r of Inl e \<Rightarrow> nothing_made config (Suc (ticks w)) w w' | Inr m \<Rightarrow> space_made C config mk owner_type owner name w (sw_space m) w'"
  using run unfolding create_owned_space_def
proof (rule new_data_key [OF C])
  fix e n assume "r = Inl e" "w' = w\<lparr>rng_pos := n\<rparr>"
  then show ?thesis by (simp add: nothing_made_def)
next
  fix k blob n
  let ?w = "w\<lparr>rng_pos := n\<rparr>"
  let ?params = "\<lparr>csp_name = name, csp_owner_type = owner_type, csp_owner_id = owner, csp_encryption_mode = ''server'',
       csp_encrypted_data_key = blob\<rparr>"
  assume k: "length k = 32" "unwrap_data_key C mk blob = Inr k"
    and rest: "bind (space_create ?params) (\<lambda>s. let dir = space_dir config (s_id s) in
      bind (attempt (create_space_dir dir (s_id s))) (\<lambda>made. case made of
         Inl e \<Rightarrow> bind (ignore (space_delete_by_id (s_id s))) (\<lambda>_. throw e)
       | Inr _ \<Rightarrow> bind (keep_space_key (s_id s) k) (\<lambda>_.
           ret \<lparr>sw_space = s, sw_grantee_count = 0, sw_user_permission = PERM_ADMIN\<rparr>))) ?w = (r, w')"
  obtain y w1 where create: "space_create ?params ?w = (y, w1)" by fastforce
  note made = space_create_cases [OF create]
  then have keys1: "unlocked w1 = unlocked w" "faults w1 = faults w" and tree1: "tree w1 = tree w" by simp_all
  show ?thesis
  proof (cases y)
    case (Inl e)
    then have "r = Inl e" "w' = w1" using rest create by (simp_all add: bind_def)
    then show ?thesis using made Inl by (auto simp: nothing_made_def row_not_read_def)
  next
    case (Inr s)
    then obtain i now where s: "i \<notin> space_ids (tb w)" "s = new_space i ?params now" "tb w1 = with_space s (tb w)"
      using made by auto
    have sid: "s_id s \<notin> space_ids (tb w)" using s by (simp add: new_space_def)
    from rest create Inr
    have "bind (attempt (create_space_dir (space_dir config (s_id s)) (s_id s))) (\<lambda>made. case made of
         Inl e \<Rightarrow> bind (ignore (space_delete_by_id (s_id s))) (\<lambda>_. throw e)
       | Inr _ \<Rightarrow> bind (keep_space_key (s_id s) k) (\<lambda>_.
           ret \<lparr>sw_space = s, sw_grantee_count = 0, sw_user_permission = PERM_ADMIN\<rparr>)) w1 = (r, w')"
      by (simp add: bind_def Let_def)
    from space_after_row [where n = "Suc (ticks w)", OF sid s(3) keys1 tree1 ok this] show ?thesis
      using create_realm_directory_run [of "''space''" _ "s_id s" w1] s k tree1 sid
      by (auto simp: space_made_def new_space_def isl_def)
  qed
qed

text \<open>
  C25. Creating a space, a user's or a group's, makes everything or nothing. On success there is one
  new row, with a fresh identifier, the owner and the key wrapped under the master key; that key is
  in memory under the identifier, and no other key changed; and the space's directory is on disk
  with its meta file, everything beside it as before. On failure the keys in memory are as before,
  and either tables and files are, too, or: the call that reads the new row back failed (the second
  call, the third for a group), which leaves the row; or the directory or its meta file could not be
  made, and then the row is gone unless the very next call, which deletes it, failed, and of the
  files nothing changed but the directory itself, which may stay. A group's space needs the group.
\<close>

theorem create_space_all_or_nothing:
  fixes w :: "'z world_scheme"
  assumes C: "crypto_ok C" and ok: "tables_ok (tb w)"
    and run: "(if for_group then create_group_space C config mk owner name0 else create_space C config mk owner name0) w = (r, w')"
  shows "case r of
      Inl e \<Rightarrow> nothing_made config (if for_group then ticks w + 2 else ticks w + 1) w w'
    | Inr m \<Rightarrow> (\<exists>name. validate_space_name name0 = Inr name \<and> (for_group \<longrightarrow> group_of (tb w) owner \<noteq> None) \<and>
        space_made C config mk (if for_group then ''group'' else ''user'') owner name w (sw_space m) w')"
proof (cases "validate_space_name name0")
  case (Inl e)
  then show ?thesis using run
    by (auto simp: create_space_def create_group_space_def bind_def nothing_made_def split: if_splits)
next
  case (Inr name)
  show ?thesis
  proof (cases for_group)
    case False
    then have "create_owned_space C config mk ''user'' owner name w = (r, w')"
      using run Inr by (simp add: create_space_def bind_def)
    from create_owned_space_cases [OF C ok this] Inr False show ?thesis by (auto split: sum.splits)
  next
    case True
    then have run': "bind (group_find_by_id owner) (\<lambda>found. bind (ok_or NotFound found) (\<lambda>_.
        create_owned_space C config mk ''group'' owner name)) w = (r, w')"
      using run Inr by (simp add: create_group_space_def bind_def)
    show ?thesis
    proof (cases "faults w (ticks w) = None \<and> group_of (tb w) owner \<noteq> None")
      case found: True
      then have "create_owned_space C config mk ''group'' owner name (tick w) = (r, w')"
        using run' by (auto simp: group_find_by_id_def group_of_def run_rules ok_or_def bind_def ret_def split: option.splits)
      from create_owned_space_cases [OF C _ this] ok found True Inr
        nothing_made_same [of "tick w" w] space_made_same [of "tick w" w]
      show ?thesis by (auto simp: tick_def split: sum.splits)
    next
      case False
      then have "isl r \<and> w' = tick w"
        using run' by (auto simp: group_find_by_id_def group_of_def run_rules ok_or_def bind_def throw_def split: option.splits)
      then show ?thesis by (cases r) (auto simp: nothing_made_def tick_def)
    qed
  qed
qed

end
