(* ===== verification/LibraryFacts.thy ===== *)
theory LibraryFacts
  imports Keyring
begin

text \<open>
  Personal libraries: what each request does to the tables, and setting up a library, which makes
  the row, the directory, the key in memory and the user's mark, or undoes what it did.
\<close>

section \<open>Creating a personal library\<close>

definition with_library :: "personal_library \<Rightarrow> tables \<Rightarrow> tables" where
  "with_library l t = t\<lparr>t_libraries := t_libraries t @ [l]\<rparr>"

definition library_of :: "tables \<Rightarrow> string \<Rightarrow> personal_library option" where
  "library_of t i = List.find (\<lambda>l. pl_id l = i) (t_libraries t)"

definition library_of_user :: "tables \<Rightarrow> string \<Rightarrow> personal_library option" where
  "library_of_user t uid = List.find (\<lambda>l. pl_user_id l = uid) (t_libraries t)"

definition user_of :: "tables \<Rightarrow> string \<Rightarrow> user option" where
  "user_of t i = map_option user.truncate (List.find (\<lambda>u. u_id u = i) (t_users t))"

lemma library_reads:
  "reads (\<lambda>t. Inr (library_of t i)) (library_find_by_id i)"
  "reads (\<lambda>t. Inr (library_of_user t uid)) (library_find_by_user uid)"
  "reads (\<lambda>t. Inr (user_of t uid)) (user_find_by_id uid)"
  unfolding library_find_by_id_def library_of_def library_find_by_user_def library_of_user_def
    user_find_by_id_def find_user_def user_of_def by (rule reads_select)+

lemma library_of_with: "library_of (with_library l t) i =
   (case library_of t i of Some x \<Rightarrow> Some x | None \<Rightarrow> if pl_id l = i then Some l else None)"
  by (simp add: library_of_def with_library_def find_snoc)

lemma library_of_iff: "i \<in> pl_id ` set (t_libraries t) \<longleftrightarrow> library_of t i \<noteq> None"
  using find_some_iff [of "\<lambda>l. pl_id l = i" "t_libraries t"] by (auto simp: library_of_def)

lemma library_of_user_iff: "i \<in> pl_user_id ` set (t_libraries t) \<longleftrightarrow> library_of_user t i \<noteq> None"
  using find_some_iff [of "\<lambda>l. pl_user_id l = i" "t_libraries t"] by (auto simp: library_of_user_def)

definition has_library :: app_error where
  "has_library = Conflict ''This user already has a personal library.''"

lemma implements_library_create:
  "implements (\<lambda>now i t. if library_of_user t (clp_user_id params) \<noteq> None then (Inl has_library, t)
     else if library_of t i \<noteq> None then (Inl has_library, t)
     else if clp_user_id params \<notin> user_ids t then (Inl (Sqlx foreign_key_failed), t)
     else (Inr (new_library i params now), with_library (new_library i params now) t)) (library_create params)"
  unfolding library_create_def
  by (rule implements_eq, (rule implements_rules library_reads reads_rules)+)
    (auto simp: fun_eq_iff then_read_def insert_library_def with_library_def [symmetric] library_of_with library_of_iff
      library_of_user_iff new_library_def has_library_def conflict_or_sqlx_def split: option.splits sum.splits if_splits)

lemma implements_library_delete:
  "implements (\<lambda>now i t. (Inr (), snd (delete_library_rows lid t))) (library_delete_by_id lid)"
  unfolding library_delete_by_id_def bind_sqlx_exec
  by (rule implements_eq, (rule implements_rules reads_rules)+) (auto simp: fun_eq_iff delete_library_rows_def)

definition with_setup_done :: "string \<Rightarrow> string \<Rightarrow> tables \<Rightarrow> tables" where
  "with_setup_done uid now t = t\<lparr>t_users := update_where (\<lambda>u. u_id u = uid)
     (\<lambda>u. u\<lparr>u_setup_complete := True, u_updated_at := now\<rparr>) (t_users t)\<rparr>"

lemma implements_mark_setup:
  "implements (\<lambda>now i t. (if user_of t uid = None then Inl NotFound else Inr (), with_setup_done uid now t))
     (mark_setup_complete uid)"
proof -
  have "count_where (\<lambda>u. u_id u = uid) (t_users t) = 0 \<longleftrightarrow> user_of t uid = None" for t
    using count_where_0 [of "\<lambda>u. u_id u = uid" "t_users t"] find_some_iff [of "\<lambda>u. u_id u = uid" "t_users t"]
    by (auto simp: user_of_def)
  then show ?thesis
    unfolding mark_setup_complete_def bind_sqlx_exec
    by (intro implements_eq [OF implements_exec [OF reads_pure(4)]]) (auto simp: fun_eq_iff with_setup_done_def)
qed

lemma same_keys_library:
  "keeps same_keys (library_create params)" "keeps same_keys (library_delete_by_id i)" "keeps same_keys (mark_setup_complete uid)"
  unfolding library_create_def library_delete_by_id_def mark_setup_complete_def library_find_by_user_def library_find_by_id_def
  by (intro same_keys_rules)+

lemma delete_new_library: "library_of t (pl_id l) = None \<Longrightarrow> snd (delete_library_rows (pl_id l) (with_library l t)) = t"
proof -
  assume "library_of t (pl_id l) = None"
  then have "\<forall>x \<in> set (t_libraries t). pl_id x \<noteq> pl_id l"
    using library_of_iff [of "pl_id l" t] by (auto simp: rev_image_eqI)
  then have "filter (\<lambda>x. pl_id x \<noteq> pl_id l) (t_libraries t) = t_libraries t" by (simp add: filter_id_conv)
  then show ?thesis by (simp add: delete_library_rows_def with_library_def)
qed

text \<open>
  The ways a library that is not made has gone beyond its row. Its new row could not be read back
  (call number \<open>n\<close>), and nothing removes it. Its directory could not be made: the row is deleted by
  the next call, if that call works, and the directory may stay. Or the user could not be marked:
  the next call removes the directory and the one after it the row, each if it works.
\<close>

definition library_not_read :: "nat \<Rightarrow> 'z world_scheme \<Rightarrow> personal_library \<Rightarrow> 'z world_scheme \<Rightarrow> bool" where
  "library_not_read n w l w' = (faults w n \<noteq> None \<and> tb w' = with_library l (tb w) \<and> tree w' = tree w)"

definition library_rolled_back :: "app_config \<Rightarrow> 'z world_scheme \<Rightarrow> personal_library \<Rightarrow> 'z world_scheme \<Rightarrow> bool" where
  "library_rolled_back config w l w' = (\<exists>(w1 :: 'z world_scheme) e w2. tb w1 = with_library l (tb w) \<and> tree w1 = tree w \<and> faults w1 = faults w \<and>
     create_library_directory (library_dir config (pl_id l)) (pl_id l) w1 = (Inl e, w2) \<and>
     tb w' = (if faults w (ticks w2) = None then tb w else with_library l (tb w)) \<and>
     directory_left (library_dir config (pl_id l)) (tree w) (tree w'))"

definition library_undone :: "app_config \<Rightarrow> string \<Rightarrow> 'z world_scheme \<Rightarrow> personal_library \<Rightarrow> 'z world_scheme \<Rightarrow> bool" where
  "library_undone config uid w l w' = (let dir = library_dir config (pl_id l) in
     \<exists>(w1 :: 'z world_scheme) e w2. tb w1 = with_library l (tb w) \<and> faults w1 = faults w \<and>
       mark_setup_complete uid w1 = (Inl e, w2) \<and>
       tb w' = (if faults w (Suc (ticks w2)) = None then tb w else with_library l (tb w)) \<and>
       (wf_tree (tree w) \<and> linkfree (tree w) (dir @ [META_FILENAME]) \<longrightarrow>
          realm_on_disk ''library'' dir (pl_id l) (tree w) (tree w1) \<and>
          (\<forall>q. lookup (tree w') q = (if faults w (ticks w2) = None \<and> is_prefix dir q then None else lookup (tree w1) q))))"

lemma library_create_cases:
  fixes w :: "'z world_scheme"
  assumes run: "library_create params w = (r, w')"
  shows "tree w' = tree w \<and> unlocked w' = unlocked w \<and> faults w' = faults w \<and>
    (case r of Inl e \<Rightarrow> tb w' = tb w \<or> (\<exists>l. library_of (tb w) (pl_id l) = None \<and> library_not_read (ticks w + 2) w l w')
     | Inr l \<Rightarrow> \<exists>i now. l = new_library i params now \<and> library_of (tb w) i = None \<and> tb w' = with_library l (tb w))"
proof (intro conjI)
  define i where "i = uuids w (uuid_pos w)"
  define l where "l = new_library i params (datetime_text w (clock w))"
  have id: "pl_id l = i" and new: "\<exists>now. l = new_library i params now" by (auto simp: l_def new_library_def)
  define F where "F = (if library_of_user (tb w) (clp_user_id params) \<noteq> None then (Inl has_library, tb w)
     else if library_of (tb w) i \<noteq> None then (Inl has_library, tb w)
     else if clp_user_id params \<notin> user_ids (tb w) then (Inl (Sqlx foreign_key_failed), tb w)
     else (Inr l, with_library l (tb w)))"
  note F = implements_run [OF implements_library_create run, folded i_def, folded l_def, folded F_def]
  show "tree w' = tree w" using F(1) [of "fst F" "snd F"] by simp
  show "unlocked w' = unlocked w" "faults w' = faults w"
    using keepsD [OF same_keys_library(1) run] by (simp_all add: same_keys_def)
  have out: "r = fst F \<and> tb w' = snd F \<or> \<not> calm w \<and> isl r \<and> (tb w' = tb w \<or> tb w' = snd F)"
    using F(3) [of "fst F" "snd F"] by simp
  have unread: "faults w (ticks w + 2) \<noteq> None" if "isl r" "tb w' \<noteq> tb w"
    using that run
    by (auto simp: library_create_def library_find_by_user_def library_find_by_id_def run_rules insert_library_def new_library_def
        ok_or_def ret_def throw_def find_snoc tick_def split: option.splits if_splits)
  from out show "case r of Inl e \<Rightarrow> tb w' = tb w \<or> (\<exists>l. library_of (tb w) (pl_id l) = None \<and> library_not_read (ticks w + 2) w l w')
     | Inr l \<Rightarrow> \<exists>i now. l = new_library i params now \<and> library_of (tb w) i = None \<and> tb w' = with_library l (tb w)"
    using id new unread \<open>tree w' = tree w\<close> by (cases r) (force simp: F_def library_not_read_def split: if_splits)+
qed

lemma snd_mutate_ticks: "mutate f w = (r, w') \<Longrightarrow> ticks w' = Suc (ticks w)"
  by (auto simp: mutate_def syscall_def tick_def split: option.splits sum.splits)

section \<open>Setting up a library\<close>

definition library_made :: "crypto \<Rightarrow> app_config \<Rightarrow> byte list \<Rightarrow> string \<Rightarrow> 'z world_scheme \<Rightarrow> personal_library \<Rightarrow> 'z world_scheme \<Rightarrow> bool" where
  "library_made C config mk uid w l w' =
     (pl_user_id l = uid \<and> pl_encryption_mode l = ''server'' \<and> library_of (tb w) (pl_id l) = None \<and>
      (\<exists>now. tb w' = with_setup_done uid now (with_library l (tb w))) \<and>
      (\<exists>k. length k = 32 \<and> unwrap_data_key C mk (pl_encrypted_data_key l) = Inr k \<and>
         unlocked w' = insert_library_key (pl_id l) k (unlocked w)) \<and>
      (wf_tree (tree w) \<and> linkfree (tree w) (library_dir config (pl_id l) @ [META_FILENAME]) \<longrightarrow>
         realm_on_disk ''library'' (library_dir config (pl_id l)) (pl_id l) (tree w) (tree w')))"

text \<open>
  What is left of a library that could not be set up. A key is forgotten with \<open>remove_library_key\<close>,
  so the key of an identifier without row would be, too.
\<close>

definition no_library_made :: "app_config \<Rightarrow> string \<Rightarrow> 'z world_scheme \<Rightarrow> 'z world_scheme \<Rightarrow> bool" where
  "no_library_made config uid w w' = (unlocked w' = unlocked w \<and>
     (tb w' = tb w \<and> tree w' = tree w \<or>
      (\<exists>l. library_of (tb w) (pl_id l) = None \<and>
        (library_not_read (ticks w + 4) w l w' \<or> library_rolled_back config w l w' \<or> library_undone config uid w l w'))))"

lemma no_library_tables:
  assumes "no_library_made config uid w w'"
  shows "unlocked w' = unlocked w" "tb w' = tb w \<or> (\<exists>l. library_of (tb w) (pl_id l) = None \<and> tb w' = with_library l (tb w))"
  using assms
  by (auto simp: no_library_made_def library_not_read_def library_rolled_back_def library_undone_def Let_def split: if_splits)

lemma forget_new_key:
  "map_of (libraries u) i = None \<Longrightarrow> snd (remove_library_key i (insert_library_key i k u)) = u"
proof -
  assume "map_of (libraries u) i = None"
  then have "AList.delete i (AList.update i k (libraries u)) = libraries u"
    by (simp add: delete_update_same map_of_eq_None_iff)
  then show ?thesis by (simp add: remove_library_key_def insert_library_key_def)
qed

lemma mark_setup_Inl:
  assumes run: "mark_setup_complete uid w = (Inl e, w')" and user: "user_of (tb w) uid \<noteq> None"
  shows "tb w' = tb w"
proof -
  have "count_where (\<lambda>u. u_id u = uid) (t_users (tb w)) \<noteq> 0"
    using count_where_0 [of "\<lambda>u. u_id u = uid" "t_users (tb w)"] find_some_iff [of "\<lambda>u. u_id u = uid" "t_users (tb w)"] user
    by (auto simp: user_of_def)
  then show ?thesis
    using run by (auto simp: mark_setup_complete_def run_rules split: option.splits)
qed

lemma library_delete_tables: "library_delete_by_id i w = (r, w') \<Longrightarrow>
   tb w' = (if faults w (ticks w) = None then snd (delete_library_rows i (tb w)) else tb w)"
  by (auto simp: library_delete_by_id_def run_rules delete_library_rows_def ret_def tick_def split: option.splits)

lemma library_dir_nonempty: "library_dir config i \<noteq> []"
proof -
  have "\<exists>cs. split_on path_sep (''libraries/'' @ i) = ''libraries'' # cs" by (simp add: path_sep_def)
  then show ?thesis by (auto simp: library_dir_def path_join_def Let_def)
qed

lemma remove_realm_run:
  assumes disk: "realm_on_disk kind dir i t (tree w)" "dir \<noteq> []" and run: "fs_remove_dir_all dir w = (r, w')"
  shows "lookup (tree w') q = (if faults w (ticks w) = None \<and> is_prefix dir q then None else lookup (tree w) q)"
proof (cases "faults w (ticks w)")
  case None
  have d: "wf_tree (tree w)" "lookup (tree w) dir = Some Dir"
    using disk(1) by (auto simp: realm_on_disk_def dest: wf_parent_dir)
  then have parent: "lookup (tree w) (butlast dir) = Some Dir" "name_ok (last dir)"
    using disk(2) by (simp_all add: wf_tree_def)
  then have "canon_path (tree w) (butlast dir) = Inr (butlast dir)"
    by (intro canon_path_canon canon_dir d)
  then have "lstat_inode (tree w) dir = Inr (dir, Dir)"
    using parent d disk(2) by (auto simp: lstat_inode_def resolve_parent_def name_ok_def)
  then have "tree w' = remove_subtree dir (tree w)"
    using run None disk(2) by (auto simp: fs_remove_dir_all_def mutate_def syscall_def tick_def)
  then show ?thesis using None disk(2) by (auto simp: lookup_remove_subtree is_prefix_Nil_right)
next
  case (Some m)
  then have "tree w' = tree w" using run by (auto simp: fs_remove_dir_all_def mutate_def syscall_def tick_def)
  then show ?thesis using Some by simp
qed

definition finish_library ::
  "app_config \<Rightarrow> string \<Rightarrow> byte list \<Rightarrow> personal_library \<Rightarrow> ('z world_scheme, app_error, personal_library) act"
where
  "finish_library config uid k l =
     bind (attempt (create_library_directory (library_dir config (pl_id l)) (pl_id l))) (\<lambda>made. case made of
         Inl e \<Rightarrow> bind (ignore (library_delete_by_id (pl_id l))) (\<lambda>_. throw e)
       | Inr _ \<Rightarrow> bind (keep_library_key (pl_id l) k) (\<lambda>_. bind (attempt (mark_setup_complete uid)) (\<lambda>marked. case marked of
               Inl e \<Rightarrow> bind (undo_library (library_dir config (pl_id l)) (pl_id l)) (\<lambda>_. throw e)
             | Inr _ \<Rightarrow> ret l)))"

lemma library_after_row:
  fixes w :: "'z world_scheme"
  assumes row: "library_of (tb w0) (pl_id l) = None" "tb w = with_library l (tb w0)" "unlocked w = unlocked w0" "faults w = faults w0" "tree w = tree w0"
    and user: "user_of (tb w0) uid \<noteq> None" and key: "map_of (libraries (unlocked w0)) (pl_id l) = None"
    and run: "finish_library config uid k l w = (r, w')"
  defines "dir \<equiv> library_dir config (pl_id l)"
  shows "(isl r \<and> unlocked w' = unlocked w0 \<and> (library_rolled_back config w0 l w' \<or> library_undone config uid w0 l w')) \<or> (\<exists>w1 now. r = Inr l \<and>
      create_realm_directory ''library'' dir (pl_id l) w = (Inr (), w1) \<and> tree w' = tree w1 \<and>
      unlocked w' = insert_library_key (pl_id l) k (unlocked w0) \<and> tb w' = with_setup_done uid now (with_library l (tb w0)))"
proof -
  obtain d w1 where d: "create_realm_directory ''library'' dir (pl_id l) w = (d, w1)" by fastforce
  have same: "tb w1 = tb w" "unlocked w1 = unlocked w0" "faults w1 = faults w0"
    using keepsD [OF same_db_realm_directory d] keepsD [OF same_keys_realm_directory d] row
    by (simp_all add: same_db_def same_keys_def)
  have undone: "tb w3 = (if faults w0 (ticks w2) = None then tb w0 else with_library l (tb w0))" "unlocked w3 = unlocked w2" "tree w3 = tree w2"
    if "library_delete_by_id (pl_id l) w2 = (y, w3)" "tb w2 = tb w" "faults w2 = faults w0" for y w3 and w2 :: "'z world_scheme"
    using library_delete_tables [OF that(1)] delete_new_library [OF row(1)] row(2) that(2,3)
      keepsD [OF same_keys_library(2) that(1)] implements_run(1) [OF implements_library_delete that(1)]
    by (simp_all add: same_keys_def)
  show ?thesis
  proof (cases d)
    case (Inl e)
    obtain y w2 where del: "library_delete_by_id (pl_id l) w1 = (y, w2)" by fastforce
    have "r = Inl e" "w' = w2"
      using run d Inl del by (auto simp: finish_library_def dir_def create_library_directory_def bind_def attempt_def ignore_def)
    moreover have "library_rolled_back config w0 l w2"
      unfolding library_rolled_back_def create_library_directory_def
      unfolding dir_def [symmetric]
      by (rule exI [of _ w], rule exI [of _ e], rule exI [of _ w1])
        (use undone [OF del] same row d Inl create_realm_directory_failed [OF d [unfolded Inl]] in simp)
    ultimately show ?thesis using undone [OF del] same by simp
  next
    case (Inr u)
    let ?w = "w1\<lparr>unlocked := insert_library_key (pl_id l) k (unlocked w0)\<rparr>"
    obtain m w2 where m: "mark_setup_complete uid ?w = (m, w2)" by fastforce
    have same2: "unlocked w2 = insert_library_key (pl_id l) k (unlocked w0)" "faults w2 = faults w0" "tree w2 = tree w1"
      using keepsD [OF same_keys_library(3) m] same implements_run(1) [OF implements_mark_setup m] by (simp_all add: same_keys_def)
    show ?thesis
    proof (cases m)
      case marked: (Inr _)
      then have "r = Inr l" "w' = w2"
        using run d Inr m same by (simp_all add: finish_library_def dir_def create_library_directory_def bind_def attempt_def keep_library_key_def modify_def)
      moreover have "\<exists>now. tb w2 = with_setup_done uid now (with_library l (tb w0))"
        using implements_Inr [OF implements_mark_setup m [unfolded marked]] same row(2)
        by (intro exI) (auto dest: sym split: if_splits)
      ultimately show ?thesis using d Inr same2 by auto
    next
      case marked: (Inl e)
      then have "bind (undo_library dir (pl_id l)) (\<lambda>_. throw e) w2 = (r, w')"
        using run d Inr m same by (simp add: finish_library_def dir_def create_library_directory_def bind_def attempt_def keep_library_key_def modify_def)
      moreover obtain y w3 where rm: "fs_remove_dir_all dir (w2\<lparr>unlocked := snd (remove_library_key (pl_id l) (unlocked w2))\<rparr>) = (y, w3)"
        by fastforce
      moreover obtain z w4 where w4: "library_delete_by_id (pl_id l) w3 = (z, w4)" by fastforce
      ultimately have out: "r = Inl e" "w' = w4"
        by (simp_all add: undo_library_def drop_library_key_def modify_def ignore_def bind_def)
      have w3: "unlocked w3 = unlocked w0" "tb w3 = tb w2" "faults w3 = faults w0" "ticks w3 = Suc (ticks w2)"
        using snd_mutate_ticks [OF rm [unfolded fs_remove_dir_all_def]] same2 forget_new_key [OF key] keepsD [OF same_keys_calls(2) rm [unfolded fs_remove_dir_all_def]]
          keepsD [OF same_db_mutate rm [unfolded fs_remove_dir_all_def]]
        by (simp_all add: same_keys_def same_db_def)
      have tb2: "tb w2 = tb w"
        using mark_setup_Inl [OF m [unfolded marked]] same row(2) user by (simp add: user_of_def with_library_def)
      have disk: "realm_on_disk ''library'' dir (pl_id l) (tree w0) (tree w1)"
        if "wf_tree (tree w0)" "linkfree (tree w0) (dir @ [META_FILENAME])"
        using create_realm_directory_run [OF d [unfolded Inr]] that row(5) by simp
      have gone: "lookup (tree w3) q = (if faults w0 (ticks w2) = None \<and> is_prefix dir q then None else lookup (tree w1) q)"
        if "wf_tree (tree w0)" "linkfree (tree w0) (dir @ [META_FILENAME])" for q
        using remove_realm_run [OF _ _ rm, of "''library''" "pl_id l" "tree w0" q] disk [OF that] same2(2,3) library_dir_nonempty
        by (simp add: dir_def)
      have "library_undone config uid w0 l w'"
        unfolding library_undone_def Let_def dir_def [symmetric]
        by (rule exI [of _ ?w], rule exI [of _ e], rule exI [of _ w2])
          (use undone [OF w4] w3 tb2 out disk gone m marked row same in auto)
      then show ?thesis using undone [OF w4] w3 tb2 out by simp
    qed
  qed
qed

definition same_all :: "'z world_scheme \<Rightarrow> 'z world_scheme \<Rightarrow> bool" where
  "same_all w w' = (same_world w w' \<and> unlocked w' = unlocked w)"

lemma reads_bindE:
  fixes w :: "'z world_scheme"
  assumes "reads f m" "keeps same_keys m" "bind m k w = (r, w')"
  obtains e where "r = Inl e" "same_all w w'"
    | x w1 where "f (tb w) = Inr x" "same_all w w1" "k x w1 = (r, w')" "m w = (Inr x, w1)"
proof -
  obtain y w1 where m: "m w = (y, w1)" by fastforce
  have "same_all w w1" "y = f (tb w) \<or> isl y"
    using reads_run [OF assms(1) m] keepsD [OF assms(2) m] by (auto simp: same_all_def same_keys_def)
  then show thesis using that assms(3) m by (cases y) (auto simp: bind_def dest: sym)
qed

definition setup_checks :: "string \<Rightarrow> ('z, unit) svc" where
  "setup_checks uid =
     bind (user_find_by_id uid) (\<lambda>found.
     bind (ok_or NotFound found) (\<lambda>user.
     bind (reject_if (u_setup_complete user) (Conflict ''Setup has already been completed for this user.'')) (\<lambda>_.
     bind (library_find_by_user uid) (\<lambda>existing.
     reject_if (existing \<noteq> None) has_library))))"

definition setup_allowed :: "string \<Rightarrow> tables \<Rightarrow> app_error + unit" where
  "setup_allowed uid t = (case user_of t uid of None \<Rightarrow> Inl NotFound | Some u \<Rightarrow>
     if u_setup_complete u then Inl (Conflict ''Setup has already been completed for this user.'')
     else if library_of_user t uid \<noteq> None then Inl has_library else Inr ())"

lemma reads_setup_checks: "reads (setup_allowed uid) (setup_checks uid)"
  unfolding setup_checks_def
  by (rule reads_eq, (rule library_reads reads_rules)+)
    (auto simp: fun_eq_iff then_read_def setup_allowed_def split: option.splits)

lemma same_keys_setup_checks: "keeps same_keys (setup_checks uid)"
  unfolding setup_checks_def user_find_by_id_def find_user_def library_find_by_user_def by (intro same_keys_rules)

lemma setup_checks_calls: "setup_checks uid w = (Inr x, w1) \<Longrightarrow> ticks w1 = ticks w + 2"
  by (auto simp: setup_checks_def user_find_by_id_def find_user_def library_find_by_user_def run_rules tick_def split: option.splits if_splits)

lemma setup_library_cases:
  fixes w :: "'z world_scheme"
  assumes C: "crypto_ok C" and run: "setup_library C config mk uid w = (r, w')"
    and keys: "\<And>i. library_of (tb w) i = None \<Longrightarrow> map_of (libraries (unlocked w)) i = None"
  shows "case r of Inl e \<Rightarrow> no_library_made config uid w w' | Inr l \<Rightarrow> setup_allowed uid (tb w) = Inr () \<and> library_made C config mk uid w l w'"
proof -
  have "setup_library C config mk uid = bind (setup_checks uid) (\<lambda>_.
     bind generate_data_key (\<lambda>data_key.
     bind (wrap_data_key C mk data_key) (\<lambda>blob.
     bind (library_create \<lparr>clp_user_id = uid, clp_encryption_mode = ''server'', clp_encrypted_data_key = blob,
             clp_salt = None, clp_verify_blob = None, clp_recovery_blob = None\<rparr>) (\<lambda>l. finish_library config uid data_key l))))"
    by (simp add: setup_library_def setup_checks_def finish_library_def bind_assoc Let_def has_library_def)
  note run' = run [unfolded this]
  show ?thesis using reads_setup_checks same_keys_setup_checks run'
  proof (rule reads_bindE)
    fix e assume "r = Inl e" "same_all w w'"
    then show ?thesis by (simp add: no_library_made_def same_all_def same_world_def)
  next
    fix x w1
    assume allowed: "setup_allowed uid (tb w) = Inr x" and w1: "same_all w w1"
      and rest: "bind generate_data_key (\<lambda>data_key.
     bind (wrap_data_key C mk data_key) (\<lambda>blob.
     bind (library_create \<lparr>clp_user_id = uid, clp_encryption_mode = ''server'', clp_encrypted_data_key = blob,
             clp_salt = None, clp_verify_blob = None, clp_recovery_blob = None\<rparr>) (\<lambda>l. finish_library config uid data_key l))) w1 = (r, w')"
      and checks: "setup_checks uid w = (Inr x, w1)"
    have user: "user_of (tb w) uid \<noteq> None" using allowed by (auto simp: setup_allowed_def split: option.splits)
    have eqs: "tb w1 = tb w" "unlocked w1 = unlocked w" "faults w1 = faults w" "tree w1 = tree w" "ticks w1 = ticks w + 2"
      using w1 setup_checks_calls [OF checks] by (simp_all add: same_all_def same_world_def)
    from C rest show ?thesis
    proof (rule new_data_key)
      fix e n assume "r = Inl e" "w' = w1\<lparr>rng_pos := n\<rparr>"
      then show ?thesis by (simp add: no_library_made_def eqs)
    next
      fix k blob n
      let ?w = "w1\<lparr>rng_pos := n\<rparr>"
      let ?params = "\<lparr>clp_user_id = uid, clp_encryption_mode = ''server'', clp_encrypted_data_key = blob,
             clp_salt = None, clp_verify_blob = None, clp_recovery_blob = None\<rparr>"
      assume k: "length k = 32" "unwrap_data_key C mk blob = Inr k"
        and tail: "bind (library_create ?params) (\<lambda>l. finish_library config uid k l) ?w = (r, w')"
      obtain y w2 where create: "library_create ?params ?w = (y, w2)" by fastforce
      note made = library_create_cases [OF create]
      then have eqs2: "unlocked w2 = unlocked w" "faults w2 = faults w" "tree w2 = tree w" by (simp_all add: eqs)
      show ?thesis
      proof (cases y)
        case (Inl e)
        then have "r = Inl e" "w' = w2" using tail create by (simp_all add: bind_def)
        then show ?thesis using made Inl by (auto simp: no_library_made_def library_not_read_def eqs numeral_eq_Suc)
      next
        case (Inr l)
        then obtain i now where l: "l = new_library i ?params now" "library_of (tb w) i = None" "tb w2 = with_library l (tb w)"
          using made by (auto simp: eqs)
        then have lid: "library_of (tb w) (pl_id l) = None" by (simp add: new_library_def)
        from tail create Inr have "finish_library config uid k l w2 = (r, w')" by (simp add: bind_def)
        from library_after_row [OF lid l(3) eqs2 user keys [OF lid] this] show ?thesis
          using create_realm_directory_run [of "''library''" _ "pl_id l" w2] l k eqs2 lid allowed
          by (elim disjE) (auto simp: library_made_def no_library_made_def isl_def intro!: exI [of _ l], simp_all add: new_library_def)
      qed
    qed
  qed
qed

end
