(* ===== verification/Realms.thy ===== *)
theory Realms
  imports LibraryFacts
begin

text \<open>
  The keys in memory over the life of the server. A key in memory is always the one wrapped in the
  row of its space or library, whatever the requests and the failures; deleting a space leaves
  nothing of it; a restart restores exactly the keys of the server-mode rows.
\<close>

section \<open>The invariant\<close>

definition space_key_rows :: "tables \<Rightarrow> (string \<times> string \<times> byte list) list" where
  "space_key_rows t = map (\<lambda>s. (s_id s, s_encryption_mode s, s_encrypted_data_key s)) (t_spaces t)"

definition library_key_rows :: "tables \<Rightarrow> (string \<times> string \<times> byte list) list" where
  "library_key_rows t = map (\<lambda>l. (pl_id l, pl_encryption_mode l, pl_encrypted_data_key l)) (t_libraries t)"

definition keys_from :: "crypto \<Rightarrow> byte list \<Rightarrow> (string \<times> string \<times> byte list) list \<Rightarrow> (string \<times> byte list) list \<Rightarrow> bool" where
  "keys_from C mk rows entries = (\<forall>i k. map_of entries i = Some k \<longrightarrow>
     (\<exists>mode blob. (i, mode, blob) \<in> set rows \<and> unwrap_data_key C mk blob = Inr k))"

definition keyring_ok :: "crypto \<Rightarrow> byte list \<Rightarrow> 'z world_scheme \<Rightarrow> bool" where
  "keyring_ok C mk w = (tables_ok (tb w) \<and> keys_wf (unlocked w) \<and>
     keys_from C mk (space_key_rows (tb w)) (spaces (unlocked w)) \<and>
     keys_from C mk (library_key_rows (tb w)) (libraries (unlocked w)))"

lemma keys_from_more: "keys_from C mk rows entries \<Longrightarrow> set rows \<subseteq> set rows' \<Longrightarrow> keys_from C mk rows' entries"
  unfolding keys_from_def by blast

lemma keys_from_update:
  "keys_from C mk rows entries \<Longrightarrow> (i, mode, blob) \<in> set rows \<Longrightarrow> unwrap_data_key C mk blob = Inr k \<Longrightarrow>
   keys_from C mk rows (AList.update i k entries)"
  unfolding keys_from_def by (auto simp: update_conv')

lemma keys_from_delete:
  assumes ring: "keys_from C mk rows entries" and sub: "{r \<in> set rows. fst r \<noteq> i} \<subseteq> set rows'"
  shows "keys_from C mk rows' (AList.delete i entries)"
  unfolding keys_from_def
proof (intro allI impI)
  fix j k assume "map_of (AList.delete i entries) j = Some k"
  then have j: "j \<noteq> i" "map_of entries j = Some k" by (auto simp: delete_conv' split: if_splits)
  then obtain mode blob where "(j, mode, blob) \<in> set rows" "unwrap_data_key C mk blob = Inr k"
    using ring unfolding keys_from_def by blast
  then show "\<exists>mode blob. (j, mode, blob) \<in> set rows' \<and> unwrap_data_key C mk blob = Inr k"
    using sub j(1) by fastforce
qed

lemma no_row_no_key: "keys_from C mk rows entries \<Longrightarrow> i \<notin> fst ` set rows \<Longrightarrow> map_of entries i = None"
  unfolding keys_from_def by (cases "map_of entries i") force+

definition same_ring :: "'z world_scheme \<Rightarrow> 'z world_scheme \<Rightarrow> bool" where
  "same_ring w w' = (unlocked w' = unlocked w \<and> space_key_rows (tb w') = space_key_rows (tb w) \<and>
     library_key_rows (tb w') = library_key_rows (tb w))"

interpretation same_ring: frame_rel same_ring
  by unfold_locales (auto simp: same_ring_def)

lemma same_ring_exec:
  assumes "\<And>now t n t'. f now t = Inr (n, t') \<Longrightarrow> space_key_rows t' = space_key_rows t \<and> library_key_rows t' = library_key_rows t"
  shows "keeps same_ring (exec f)"
  using assms by (auto simp: keeps_def same_ring_def exec_def split: option.splits sum.splits)

lemma same_ring_calls: "keeps same_ring (select h)" "keeps same_ring new_uuid" "keeps same_ring (fill_bytes n)"
  by (auto simp: keeps_def same_ring_def select_def new_uuid_def fill_bytes_def split: option.splits)

lemma keyring_same_ring: "keyring_ok C mk w \<Longrightarrow> same_ring w w' \<Longrightarrow> tables_ok (tb w') \<Longrightarrow> keyring_ok C mk w'"
  by (simp add: keyring_ok_def same_ring_def)

lemmas same_ring_rules = same_ring.keeps_rules same_ring_calls keeps_sqlx

lemma space_rows_update:
  "space_key_rows (t\<lparr>t_spaces := update_where P (\<lambda>s. s\<lparr>s_name := n\<rparr>) (t_spaces t)\<rparr>) = space_key_rows t"
  by (simp add: space_key_rows_def update_where_def)

lemma same_ring_spaces:
  "keeps same_ring (grant_user_access a sid name p)" "keeps same_ring (grant_group_access a sid gid p)"
  "keeps same_ring (revoke_access a sid gt gid)" "keeps same_ring (update_access_permission a sid gt gid p)"
  "keeps same_ring (update_space a sid name)"
  unfolding grant_user_access_def grant_group_access_def revoke_access_def update_access_permission_def update_space_def
    require_permission_def resolve_user_permission_def user_find_by_username_def find_user_def group_find_by_id_def
    access_grant_def access_revoke_def access_update_permission_def access_find_def space_update_def space_find_by_id_def
  by ((intro same_ring_rules same_ring_exec),
      (auto simp: insert_access_def space_rows_update library_key_rows_def space_key_rows_def update_where_def split: if_splits))+

lemma keeps_ok_spaces:
  "keeps keeps_ok (grant_user_access a sid name p)" "keeps keeps_ok (grant_group_access a sid gid p)"
  "keeps keeps_ok (revoke_access a sid gt gid)" "keeps keeps_ok (update_access_permission a sid gt gid p)"
  "keeps keeps_ok (update_space a sid name)"
  unfolding grant_user_access_def grant_group_access_def revoke_access_def update_access_permission_def update_space_def
    require_permission_def resolve_user_permission_def user_find_by_username_def find_user_def group_find_by_id_def
    access_grant_def access_revoke_def access_update_permission_def access_find_def space_update_def space_find_by_id_def
  by ((intro keeps_ok_rules keeps_ok_exec),
      (auto simp: insert_access_def tables_ok_defs distinct_map_filter_rows map_update_where image_update_where access_key_def
        split: if_splits))+

section \<open>Each request keeps it\<close>

lemma keys_wf_insert_space: "keys_wf u \<Longrightarrow> length k = 32 \<Longrightarrow> keys_wf (insert_space_key i k u)"
  by (simp add: keys_wf_def insert_space_key_def entries_wf_update)

lemma keys_wf_insert_library: "keys_wf u \<Longrightarrow> length k = 32 \<Longrightarrow> keys_wf (insert_library_key i k u)"
  by (simp add: keys_wf_def insert_library_key_def entries_wf_update)

lemma with_space_ok: "tables_ok t \<Longrightarrow> s_id s \<notin> space_ids t \<Longrightarrow> tables_ok (with_space s t)"
  by (auto simp: with_space_def tables_ok_defs)

lemma space_key_rows_with [simp]:
  "space_key_rows (with_space s t) = space_key_rows t @ [(s_id s, s_encryption_mode s, s_encrypted_data_key s)]"
  "library_key_rows (with_space s t) = library_key_rows t"
  by (simp_all add: space_key_rows_def library_key_rows_def with_space_def)

lemma library_key_rows_with [simp]:
  "library_key_rows (with_library l t) = library_key_rows t @ [(pl_id l, pl_encryption_mode l, pl_encrypted_data_key l)]"
  "space_key_rows (with_library l t) = space_key_rows t"
  "library_key_rows (with_setup_done uid now t) = library_key_rows t" "space_key_rows (with_setup_done uid now t) = space_key_rows t"
  by (simp_all add: space_key_rows_def library_key_rows_def with_library_def with_setup_done_def)

lemma keyring_space_row:
  "keyring_ok C mk w \<Longrightarrow> unlocked w' = unlocked w \<Longrightarrow> s_id s \<notin> space_ids (tb w) \<Longrightarrow> tb w' = with_space s (tb w) \<Longrightarrow>
   keyring_ok C mk w'"
  by (auto simp: keyring_ok_def with_space_ok elim: keys_from_more)

lemma keyring_nothing_made:
  assumes "keyring_ok C mk w" "nothing_made config n w w'"
  shows "keyring_ok C mk w'"
  using keyring_space_row [OF assms(1) nothing_made_tables(1) [OF assms(2)]] nothing_made_tables [OF assms(2)] assms(1)
  by (auto simp: keyring_ok_def)

lemma keyring_space_made:
  assumes "keyring_ok C mk w" "space_made C config mk ot owner name w s w'"
  shows "keyring_ok C mk w'"
proof -
  obtain k where k: "length k = 32" "unwrap_data_key C mk (s_encrypted_data_key s) = Inr k"
    "unlocked w' = insert_space_key (s_id s) k (unlocked w)" and t: "s_id s \<notin> space_ids (tb w)" "tb w' = with_space s (tb w)"
    using assms(2) by (auto simp: space_made_def)
  have "keys_from C mk (space_key_rows (tb w')) (spaces (unlocked w))"
    using assms(1) t by (auto simp: keyring_ok_def elim: keys_from_more)
  then have "keys_from C mk (space_key_rows (tb w')) (AList.update (s_id s) k (spaces (unlocked w)))"
    by (rule keys_from_update [where mode = "s_encryption_mode s" and blob = "s_encrypted_data_key s"]) (simp_all add: t k)
  then show ?thesis
    using assms(1) k(1) t by (auto simp: keyring_ok_def k(3) keys_wf_insert_space with_space_ok)
      (auto simp: insert_space_key_def)
qed

lemma keyring_create_owned:
  assumes C: "crypto_ok C" and ok: "keyring_ok C mk w" and run: "create_owned_space C config mk ot owner name w = (r, w')"
  shows "keyring_ok C mk w'"
  using create_owned_space_cases [OF C _ run] ok keyring_nothing_made [OF ok, of config "Suc (ticks w)"] keyring_space_made [OF ok]
  by (auto simp: keyring_ok_def split: sum.splits)

lemma with_library_ok:
  "tables_ok t \<Longrightarrow> library_of t (pl_id l) = None \<Longrightarrow> library_of_user t (pl_user_id l) = None \<Longrightarrow>
   pl_user_id l \<in> user_ids t \<Longrightarrow> tables_ok (with_library l t)"
  using library_of_iff [of "pl_id l" t] library_of_user_iff [of "pl_user_id l" t]
  by (clarsimp simp: with_library_def tables_ok_defs)

lemma with_setup_done_ok: "tables_ok t \<Longrightarrow> tables_ok (with_setup_done uid now t)"
  unfolding with_setup_done_def by (rule update_users_ok) auto

lemma keeps_ok_realm: "keeps keeps_ok (create_realm_directory kind dir i)" "keeps keeps_ok (fs_remove_dir_all dir)"
  using keeps_ok_same [OF same_db_realm_directory] keeps_ok_same [OF same_db_mutate]
  by (simp_all add: fs_remove_dir_all_def)

lemma keeps_ok_keys: "keeps keeps_ok (keep_library_key i k)" "keeps keeps_ok (drop_library_key i)"
  "keeps keeps_ok (keep_space_key i k)" "keeps keeps_ok (drop_space_key i)"
  by (simp_all add: keeps_def keeps_ok_def keep_library_key_def drop_library_key_def keep_space_key_def drop_space_key_def modify_def)

lemma keeps_ok_wrap: "keeps keeps_ok generate_data_key" "keeps keeps_ok (wrap_data_key C mk k)"
  unfolding generate_data_key_def wrap_data_key_def aes_gcm_wrap_def by (intro keeps_ok_rules)+

lemma keeps_ok_setup_library: "keeps keeps_ok (setup_library C config mk uid)"
  unfolding setup_library_def undo_library_def create_library_directory_def Let_def library_find_by_user_def
  by (intro keeps_ok_rules keeps_ok_find_users keeps_ok_wrap keeps_ok_library_create keeps_ok_library_delete keeps_ok_realm
      keeps_ok_keys keeps_ok_mark_setup_complete)

lemma keyring_setup_library:
  assumes C: "crypto_ok C" and ok: "keyring_ok C mk w" and run: "setup_library C config mk uid w = (r, w')"
  shows "keyring_ok C mk w'"
proof -
  have tables: "tables_ok (tb w')"
    using keepsD [OF keeps_ok_setup_library run] ok by (simp add: keeps_ok_def keyring_ok_def)
  have ring: "keys_from C mk (library_key_rows (tb w)) (libraries (unlocked w))"
    "keys_from C mk (space_key_rows (tb w)) (spaces (unlocked w))" "keys_wf (unlocked w)"
    using ok by (simp_all add: keyring_ok_def)
  have keys: "map_of (libraries (unlocked w)) i = None" if "library_of (tb w) i = None" for i
    using no_row_no_key [OF ring(1), of i] that library_of_iff [of i "tb w"] by (simp add: library_key_rows_def image_image)
  show ?thesis
  proof (cases r)
    case (Inl e)
    then have "no_library_made config uid w w'" using setup_library_cases [OF C run keys] by simp
    then show ?thesis using no_library_tables [of config uid w w'] tables ring by (auto simp: keyring_ok_def elim: keys_from_more)
  next
    case (Inr l)
    then have "library_made C config mk uid w l w'" using setup_library_cases [OF C run keys] by simp
    then obtain k now where k: "length k = 32" "unwrap_data_key C mk (pl_encrypted_data_key l) = Inr k"
      "unlocked w' = insert_library_key (pl_id l) k (unlocked w)" "tb w' = with_setup_done uid now (with_library l (tb w))"
      by (auto simp: library_made_def)
    have "keys_from C mk (library_key_rows (tb w')) (libraries (unlocked w))"
      using ring(1) k(4) by (auto elim: keys_from_more)
    then have "keys_from C mk (library_key_rows (tb w')) (AList.update (pl_id l) k (libraries (unlocked w)))"
      by (rule keys_from_update [where mode = "pl_encryption_mode l" and blob = "pl_encrypted_data_key l"]) (simp_all add: k)
    then show ?thesis
      using ring tables k by (simp add: keyring_ok_def keys_wf_insert_library) (simp add: insert_library_key_def)
  qed
qed


section \<open>Deleting a space\<close>

lemma delete_rows_ok: "tables_ok t \<Longrightarrow> tables_ok (snd (delete_space_rows sid t))"
  by (auto simp: delete_space_rows_def tables_ok_defs distinct_map_filter_rows)

lemma delete_no_space:
  assumes "tables_ok t" "space_of t sid = None"
  shows "snd (delete_space_rows sid t) = t"
proof -
  have "sid \<notin> space_ids t" using assms(2) space_of_iff by blast
  moreover have "sa_space_id ` set (t_space_access t) \<subseteq> space_ids t" using assms(1) by (simp add: tables_ok_def spaces_ok_def)
  ultimately have "\<forall>x \<in> set (t_spaces t). s_id x \<noteq> sid" "\<forall>a \<in> set (t_space_access t). sa_space_id a \<noteq> sid"
    by (auto simp: space_ids_def image_subset_iff rev_image_eqI)
  then have "filter (\<lambda>x. s_id x \<noteq> sid) (t_spaces t) = t_spaces t"
    "filter (\<lambda>a. sa_space_id a \<noteq> sid) (t_space_access t) = t_space_access t" by (simp_all add: filter_id_conv)
  then show ?thesis by (simp add: delete_space_rows_def)
qed

lemma space_delete_Inl:
  assumes run: "space_delete_by_id sid w = (Inl e, w')" and ok: "tables_ok (tb w)"
  shows "tb w' = tb w"
  using run delete_no_space [OF ok, of sid] count_space [of sid "tb w"]
  by (auto simp: space_delete_by_id_def run_rules delete_space_rows_def split: option.splits if_splits)

lemma space_delete_Inr:
  "space_delete_by_id sid w = (Inr u, w') \<Longrightarrow> tb w' = snd (delete_space_rows sid (tb w))"
  by (drule implements_Inr [OF implements_space_delete]) simp

lemma same_keys_require: "keeps same_keys (require_permission a sid p)"
  unfolding require_permission_def resolve_user_permission_def by (intro same_keys_rules)

lemma delete_space_run:
  fixes w :: "'z world_scheme"
  assumes ok: "tables_ok (tb w)" and run: "delete_space config a sid w = (r, w')"
  shows "(isl r \<and> unlocked w' = unlocked w \<and> tb w' = tb w) \<or>
    (\<exists>w2. r = Inr () \<and> admin_of (tb w) a sid \<and> tb w' = snd (delete_space_rows sid (tb w)) \<and>
      unlocked w' = snd (remove_space_key sid (unlocked w)) \<and> faults w2 = faults w \<and> tree w2 = tree w \<and>
      w' = snd (fs_remove_dir_all (space_dir config sid) w2))"
  using reads_admin same_keys_require run [unfolded delete_space_def]
proof (rule reads_bindE)
  fix e assume "r = Inl e" "same_all w w'"
  then show ?thesis by (simp add: same_all_def same_world_def)
next
  fix x w1
  assume adm: "allowed (tb w) a sid Admin = Inr x" and w1: "same_all w w1"
    and rest: "bind (space_delete_by_id sid) (\<lambda>_. bind (drop_space_key sid) (\<lambda>_. ignore (fs_remove_dir_all (space_dir config sid)))) w1 = (r, w')"
  have eqs: "tb w1 = tb w" "unlocked w1 = unlocked w" "faults w1 = faults w" "tree w1 = tree w"
    using w1 by (simp_all add: same_all_def same_world_def)
  obtain y w2 where del: "space_delete_by_id sid w1 = (y, w2)" by fastforce
  have eqs2: "unlocked w2 = unlocked w" "faults w2 = faults w" "tree w2 = tree w"
    using keepsD [OF same_keys_space_delete del] implements_run(1) [OF implements_space_delete del] eqs by (simp_all add: same_keys_def)
  show ?thesis
  proof (cases y)
    case (Inl e)
    then have "r = Inl e" "w' = w2" using rest del by (simp_all add: bind_def)
    then show ?thesis using space_delete_Inl [OF del [unfolded Inl]] ok eqs eqs2 by simp
  next
    case (Inr u)
    let ?w = "w2\<lparr>unlocked := snd (remove_space_key sid (unlocked w2))\<rparr>"
    have out: "r = Inr ()" "w' = snd (fs_remove_dir_all (space_dir config sid) ?w)"
      using rest del Inr by (auto simp: bind_def drop_space_key_def modify_def ignore_def)
    have "same_db ?w w'" "same_keys ?w w'"
      using same_db_mutate same_keys_calls(2) unfolding out(2) fs_remove_dir_all_def keeps_def by blast+
    then have "tb w' = tb ?w" "unlocked w' = unlocked ?w" by (simp_all add: same_db_def same_keys_def)
    then show ?thesis
      using out eqs eqs2 adm space_delete_Inr [OF del [unfolded Inr]] allowed_admin [of "tb w" a sid]
      by (intro disjI2 exI [of _ ?w]) simp
  qed
qed

lemma holds_deleted:
  assumes other: "s \<noteq> sid"
  shows "holds (snd (delete_space_rows sid t)) u s p \<longleftrightarrow> holds t u s p"
proof
  assume "holds (snd (delete_space_rows sid t)) u s p"
  then show "holds t u s p"
    by (induction rule: holds.induct) (auto simp: delete_space_rows_def intro: holds.intros)
next
  assume "holds t u s p"
  then show "holds (snd (delete_space_rows sid t)) u s p"
    using other by (induction rule: holds.induct) (auto simp: delete_space_rows_def intro: holds.intros)
qed

lemma effective_deleted:
  assumes "tables_ok t"
  shows "effective (snd (delete_space_rows sid t)) u s = (if s = sid then None else effective t u s)"
proof (cases "s = sid")
  case True
  have "sid \<notin> space_ids (snd (delete_space_rows sid t))" by (auto simp: delete_space_rows_def space_ids_def)
  then show ?thesis using True holds_space [OF delete_rows_ok [OF assms]] by (auto simp: effective_def)
next
  case False
  then have "holds (snd (delete_space_rows sid t)) u s = holds t u s" by (intro ext holds_deleted)
  then have "effective (snd (delete_space_rows sid t)) u s = effective t u s" by (simp add: effective_def)
  then show ?thesis by (simp only: False if_False)
qed

lemma remove_canonical_dir:
  assumes "calm w" "wf_tree (tree w)" "lookup (tree w) p = Some Dir" "p \<noteq> []"
  shows "tree (snd (fs_remove_dir_all p w)) = remove_subtree p (tree w)"
proof -
  have parent: "lookup (tree w) (butlast p) = Some Dir" "name_ok (last p)"
    using assms by (simp_all add: wf_tree_def)
  then have "canon_path (tree w) (butlast p) = Inr (butlast p)"
    by (intro canon_path_canon canon_dir assms)
  then have "lstat_inode (tree w) p = Inr (p, Dir)"
    using parent assms by (auto simp: lstat_inode_def resolve_parent_def name_ok_def)
  then show ?thesis using assms by (simp add: fs_remove_dir_all_def mutate_calm)
qed

text \<open>
  C27. Deleting a space needs an admin of it and leaves nothing of it: no row, no permission of
  anybody, no key, and on a server whose calls succeed no file, while every other space keeps its
  permissions, its key and its files. A refused or failed deletion changes neither tables nor keys.
\<close>

theorem delete_space_leaves_nothing:
  fixes w :: "'z world_scheme"
  assumes ok: "tables_ok (tb w)" "keys_wf (unlocked w)" and run: "delete_space config a sid w = (r, w')"
  defines "dir \<equiv> space_dir config sid"
  shows "case r of Inl e \<Rightarrow> tb w' = tb w \<and> unlocked w' = unlocked w
    | Inr _ \<Rightarrow> admin_of (tb w) a sid \<and> space_of (tb w') sid = None \<and>
       (\<forall>u s. effective (tb w') u s = (if s = sid then None else effective (tb w) u s)) \<and>
       (\<forall>i. get_space_key (unlocked w') i = (if i = sid then None else get_space_key (unlocked w) i)) \<and>
       (calm w \<and> wf_tree (tree w) \<and> lookup (tree w) dir = Some Dir \<and> dir \<noteq> [] \<longrightarrow>
          (\<forall>q. lookup (tree w') q = (if is_prefix dir q then None else lookup (tree w) q)))"
  using delete_space_run [OF ok(1) run]
proof (elim disjE exE conjE)
  fix w2 :: "'z world_scheme"
  assume r: "r = Inr ()" and adm: "admin_of (tb w) a sid" and t: "tb w' = snd (delete_space_rows sid (tb w))"
    and u: "unlocked w' = snd (remove_space_key sid (unlocked w))"
    and w2: "faults w2 = faults w" "tree w2 = tree w" "w' = snd (fs_remove_dir_all (space_dir config sid) w2)"
  have "space_of (tb w') sid = None"
    by (auto simp: t space_of_def delete_space_rows_def intro: find_filter_out)
  moreover have "get_space_key (unlocked w') i = (if i = sid then None else get_space_key (unlocked w) i)" for i
    using ok(2) by (simp add: u space_keys.get_remove)
  moreover have "lookup (tree w') q = (if is_prefix dir q then None else lookup (tree w) q)"
    if "calm w" "wf_tree (tree w)" "lookup (tree w) dir = Some Dir" "dir \<noteq> []" for q
    using remove_canonical_dir [of w2 dir] that w2 by (auto simp: calm_def dir_def lookup_remove_subtree is_prefix_Nil_right)
  ultimately show ?thesis using adm by (simp add: r t effective_deleted [OF ok(1)])
qed (auto split: sum.splits)

lemma space_rows_deleted: "space_key_rows (snd (delete_space_rows sid t)) = filter (\<lambda>r. fst r \<noteq> sid) (space_key_rows t)"
  by (simp add: space_key_rows_def delete_space_rows_def filter_map comp_def)

lemma keyring_delete_space:
  assumes ok: "keyring_ok C mk w" and run: "delete_space config a sid w = (r, w')"
  shows "keyring_ok C mk w'"
proof -
  have t: "tables_ok (tb w)" using ok by (simp add: keyring_ok_def)
  from delete_space_run [OF t run] show ?thesis
  proof (elim disjE exE conjE)
    assume "tb w' = snd (delete_space_rows sid (tb w))" "unlocked w' = snd (remove_space_key sid (unlocked w))"
    moreover have "keys_from C mk (space_key_rows (snd (delete_space_rows sid (tb w)))) (AList.delete sid (spaces (unlocked w)))"
    proof (rule keys_from_delete)
      show "keys_from C mk (space_key_rows (tb w)) (spaces (unlocked w))" using ok by (simp add: keyring_ok_def)
      show "{r \<in> set (space_key_rows (tb w)). fst r \<noteq> sid} \<subseteq> set (space_key_rows (snd (delete_space_rows sid (tb w))))"
        by (simp add: space_rows_deleted)
    qed
    moreover have "library_key_rows (snd (delete_space_rows sid (tb w))) = library_key_rows (tb w)"
      by (simp add: library_key_rows_def delete_space_rows_def)
    moreover have "keys_wf (snd (remove_space_key sid (unlocked w)))"
      using ok by (simp add: keyring_ok_def space_keys.inv_remove)
    ultimately show ?thesis
      using ok delete_rows_ok [OF t] by (simp add: keyring_ok_def remove_space_key_def)
  qed (use ok in \<open>simp add: keyring_ok_def\<close>)
qed

end
