(* ===== verification/Boot.thy ===== *)
theory Boot
  imports Realms ChunkService
begin

text \<open>
  The start of the server (\<open>setup_database\<close> of \<open>src/src/main.rs\<close>) and the runs of a server: boots,
  requests, and a world that changes around them. A panic (\<open>expect\<close>, \<open>panic!\<close>) is an error that
  ends the boot. The tables are those of an
  up-to-date schema: opening the pool and the migrations (see \<open>Migrations\<close>) leave them as they are.
\<close>

section \<open>The boot\<close>

definition ensure_data_directories :: "path \<Rightarrow> ('z, unit) app" where
  "ensure_data_directories dir =
     for_each [''libraries'', ''spaces'', ''.chunks''] (\<lambda>name. io (fs_create_dir_all (path_join dir name)))"

definition ensure_db_directory :: "path \<Rightarrow> ('z, unit) app" where
  "ensure_db_directory dir = io (fs_create_dir_all dir)"

definition setup_database :: "crypto \<Rightarrow> app_config \<Rightarrow> ('z world_scheme, app_error, byte list) act" where
  "setup_database C config =
     bind (ensure_data_directories (data_dir config)) (\<lambda>_.
     bind (ensure_db_directory (db_dir config)) (\<lambda>_.
     bind (bootstrap_master_key C (secret_key config)) (\<lambda>master_key.
     bind (modify (\<lambda>w. w\<lparr>unlocked := new_unlock_state\<rparr>)) (\<lambda>_.
     bind (load_server_mode_library_keys C master_key) (\<lambda>loaded.
     bind (load_server_mode_space_keys C master_key) (\<lambda>space_loaded.
     bind (ignore (cleanup_expired_uploads config)) (\<lambda>_.
     ret master_key)))))))"

section \<open>Loading the keys\<close>

fun load_entries :: "crypto \<Rightarrow> byte list \<Rightarrow> (string \<times> string \<times> byte list) list \<Rightarrow> (string \<times> byte list) list \<Rightarrow> (string \<times> byte list) list" where
  "load_entries C mk [] es = es"
| "load_entries C mk ((i, mode, blob) # rows) es =
     load_entries C mk rows (case unwrap_data_key C mk blob of Inr k \<Rightarrow> AList.update i k es | Inl e \<Rightarrow> es)"

lemma load_space_keys_run:
  "load_space_keys C mk ss n w = (Inr (n + length (filter (\<lambda>s. \<not> isl (unwrap_data_key C mk (s_encrypted_data_key s))) ss)), w\<lparr>unlocked := (unlocked w)\<lparr>spaces :=
     load_entries C mk (map (\<lambda>s. (s_id s, s_encryption_mode s, s_encrypted_data_key s)) ss) (spaces (unlocked w))\<rparr>\<rparr>)"
  by (induction ss arbitrary: n w)
    (auto simp: keep_space_key_def bind_def modify_def insert_space_key_def split: sum.splits)

lemma load_library_keys_run:
  "load_library_keys C mk ls n w = (Inr (n + length (filter (\<lambda>l. \<not> isl (unwrap_data_key C mk (pl_encrypted_data_key l))) ls)), w\<lparr>unlocked := (unlocked w)\<lparr>libraries :=
     load_entries C mk (map (\<lambda>l. (pl_id l, pl_encryption_mode l, pl_encrypted_data_key l)) ls) (libraries (unlocked w))\<rparr>\<rparr>)"
  by (induction ls arbitrary: n w)
    (auto simp: keep_library_key_def bind_def modify_def insert_library_key_def split: sum.splits)

lemma unwrap_length: "unwrap_data_key C mk blob = Inr k \<Longrightarrow> length k = 32"
  by (auto simp: unwrap_data_key_def aes_gcm_unwrap_def KEY_LEN_def split: if_splits option.splits)

lemma load_entries_wf: "entries_wf es \<Longrightarrow> entries_wf (load_entries C mk rows es)"
proof (induction C mk rows es rule: load_entries.induct)
  case (2 C mk i mode blob rows es)
  then show ?case
    using entries_wf_update [OF 2(2) unwrap_length] by (cases "unwrap_data_key C mk blob") auto
qed simp

text \<open>What a restart makes of the rows: the key of each row that unwraps.\<close>

definition restored :: "crypto \<Rightarrow> byte list \<Rightarrow> (string \<times> string \<times> byte list) list \<Rightarrow> string \<Rightarrow> byte list option" where
  "restored C mk rows i = (case map_of rows i of None \<Rightarrow> None
     | Some (mode, blob) \<Rightarrow> if mode = ''server'' then (case unwrap_data_key C mk blob of Inr k \<Rightarrow> Some k | Inl e \<Rightarrow> None) else None)"

lemma map_of_load_entries:
  "distinct (map fst rows) \<Longrightarrow> map_of (load_entries C mk rows es) i =
    (case map_of rows i of None \<Rightarrow> map_of es i
     | Some (mode, blob) \<Rightarrow> (case unwrap_data_key C mk blob of Inr k \<Rightarrow> Some k | Inl e \<Rightarrow> map_of es i))"
proof (induction C mk rows es rule: load_entries.induct)
  case (2 C mk j mode blob rows es)
  have "map_of rows j = None" using 2(2) by (simp add: map_of_eq_None_iff)
  then show ?case using 2 by (auto simp: update_conv' split: option.splits sum.splits)
qed simp

lemma map_of_filter_mode:
  "distinct (map fst rows) \<Longrightarrow> map_of (filter (\<lambda>(i, mode, blob). mode = m) rows) i =
    (case map_of rows i of None \<Rightarrow> None | Some (mode, blob) \<Rightarrow> if mode = m then Some (mode, blob) else None)"
proof (induction rows)
  case (Cons r rows)
  have "map_of rows (fst r) = None" using Cons(2) by (simp add: map_of_eq_None_iff)
  then show ?case using Cons by (auto split: option.splits)
qed simp

lemma load_entries_restored:
  assumes "distinct (map fst rows)"
  shows "map_of (load_entries C mk (filter (\<lambda>(i, mode, blob). mode = ''server'') rows) []) i = restored C mk rows i"
proof -
  have "distinct (map fst (filter (\<lambda>(i, mode, blob). mode = ''server'') rows))"
    using assms by (rule distinct_map_filter_rows)
  then show ?thesis using assms
    by (simp add: map_of_load_entries map_of_filter_mode restored_def split: option.splits sum.splits)
qed

section \<open>What the rest of the boot keeps\<close>

definition same_rows :: "'z world_scheme \<Rightarrow> 'z world_scheme \<Rightarrow> bool" where
  "same_rows w w' = (space_key_rows (tb w') = space_key_rows (tb w) \<and> library_key_rows (tb w') = library_key_rows (tb w) \<and>
     unlocked w' = unlocked w \<and> keeps_master w w' \<and> keeps_ok w w')"

interpretation same_rows: frame_rel same_rows
  by unfold_locales (auto simp: same_rows_def keeps_master_def keeps_ok_def)

lemma same_rows_os: "keeps same_rows (syscall f)" "keeps same_rows (select g)" "keeps same_rows (fill_bytes n)"
  by (auto simp: keeps_def same_rows_def keeps_master_def master_row_def keeps_ok_def syscall_def select_def fill_bytes_def
      split: option.splits sum.splits)

lemma same_rows_query: "keeps same_rows (query f)" "keeps same_rows (mutate g)"
  by (simp_all add: query_def mutate_def same_rows_os)

lemma same_rows_exec:
  assumes "\<And>now t n t'. f now t = Inr (n, t') \<Longrightarrow> space_key_rows t' = space_key_rows t \<and> library_key_rows t' = library_key_rows t \<and>
    (map_of (t_config t) MASTER_KEY_DB_KEY \<noteq> None \<longrightarrow> t_config t' = t_config t) \<and> (tables_ok t \<longrightarrow> tables_ok t')"
  shows "keeps same_rows (exec f)"
  unfolding keeps_def
proof
  fix w
  have "f (datetime_text w (clock w)) (tb w) = Inr (n, t') \<Longrightarrow> same_rows w (tick (w\<lparr>tb := t'\<rparr>))" for n t'
    using assms [of "datetime_text w (clock w)" "tb w" n t'] by (simp add: same_rows_def keeps_master_def master_row_def keeps_ok_def)
  then show "same_rows w (snd (exec f w))"
    using same_rows.R_refl by (auto simp: exec_def same_rows_def keeps_master_def keeps_ok_def split: option.splits sum.splits)
qed

lemmas same_rows_rules = same_rows.keeps_rules same_rows_os same_rows_query keeps_sqlx

lemma same_rows_directories: "keeps same_rows (ensure_data_directories dir)" "keeps same_rows (ensure_db_directory dir)"
  unfolding ensure_data_directories_def ensure_db_directory_def io_def fs_create_dir_all_def by (intro same_rows_rules)+

lemma master_insert_ok:
  "tables_ok t \<Longrightarrow> map_of (t_config t) k = None \<Longrightarrow> tables_ok (t\<lparr>t_config := t_config t @ [(k, blob)]\<rparr>)"
  by (simp add: tables_ok_defs map_of_eq_None_iff)

lemma same_rows_bootstrap: "keeps same_rows (bootstrap_master_key C sk)"
  unfolding bootstrap_master_key_def store_encrypted_master_key_def load_encrypted_master_key_def
    generate_master_key_def aes_gcm_wrap_def
  by (intro same_rows_rules same_rows_exec)
    (auto simp: space_key_rows_def library_key_rows_def master_insert_ok split: if_splits)

lemma delete_upload_ok: "tables_ok t \<Longrightarrow> tables_ok (t\<lparr>t_uploads := filter P (t_uploads t)\<rparr>)"
  by (auto simp: tables_ok_defs distinct_map_filter_rows)

lemma same_rows_cleanup: "keeps same_rows (cleanup_expired_uploads config)"
proof -
  have row: "keeps same_rows (delete_upload_row i)" for i
    unfolding delete_upload_row_def
    by (intro same_rows_exec) (auto simp: space_key_rows_def library_key_rows_def delete_upload_ok)
  have exists: "keeps same_rows (exists_or_false p)" for p
    unfolding exists_or_false_def fs_try_exists_def by (intro same_rows_rules)
  have "keeps same_rows (cleanup_loop config ids n)" for ids n
  proof (induction ids arbitrary: n)
    case (Cons i ids)
    then show ?case unfolding cleanup_loop.simps Let_def fs_remove_dir_all_def
      by (intro same_rows_rules exists row) auto
  qed (simp add: same_rows.keeps_ret)
  then show ?thesis unfolding cleanup_expired_uploads_def by (intro same_rows_rules)
qed

lemma load_libraries_Inr:
  "load_server_mode_library_keys C mk w = (Inr n, w') \<Longrightarrow> w' = (tick w)\<lparr>unlocked := (unlocked w)\<lparr>libraries :=
     load_entries C mk (filter (\<lambda>(i, mode, blob). mode = ''server'') (library_key_rows (tb w))) (libraries (unlocked w))\<rparr>\<rparr>"
  by (auto simp: load_server_mode_library_keys_def bind_select load_library_keys_run library_key_rows_def filter_map comp_def
      split: option.splits)

lemma load_spaces_Inr:
  "load_server_mode_space_keys C mk w = (Inr n, w') \<Longrightarrow> w' = (tick w)\<lparr>unlocked := (unlocked w)\<lparr>spaces :=
     load_entries C mk (filter (\<lambda>(i, mode, blob). mode = ''server'') (space_key_rows (tb w))) (spaces (unlocked w))\<rparr>\<rparr>"
  by (auto simp: load_server_mode_space_keys_def space_find_all_server_mode_def bind_select load_space_keys_run
      space_key_rows_def filter_map comp_def split: option.splits)

lemma setup_database_Inr:
  fixes w :: "'z world_scheme"
  assumes run: "setup_database C config w = (Inr mk, w')"
  obtains w1 w2 :: "'z world_scheme" where
    "bootstrap_master_key C (secret_key config) w1 = (Inr mk, w2)" "same_rows w w1"
    "same_rows (w2\<lparr>unlocked := \<lparr>
        libraries = load_entries C mk (filter (\<lambda>(i, mode, blob). mode = ''server'') (library_key_rows (tb w))) [],
        spaces = load_entries C mk (filter (\<lambda>(i, mode, blob). mode = ''server'') (space_key_rows (tb w))) []\<rparr>\<rparr>) w'"
proof -
  let ?libs = "load_entries C mk (filter (\<lambda>(i, mode, blob). mode = ''server'') (library_key_rows (tb w))) []"
  let ?spaces = "load_entries C mk (filter (\<lambda>(i, mode, blob). mode = ''server'') (space_key_rows (tb w))) []"
  obtain w0 w1 w2 w3 w4 :: "'z world_scheme" and n m where
    dirs: "ensure_data_directories (data_dir config) w = (Inr (), w0)" "ensure_db_directory (db_dir config) w0 = (Inr (), w1)"
    and boot: "bootstrap_master_key C (secret_key config) w1 = (Inr mk, w2)"
    and libs: "load_server_mode_library_keys C mk (w2\<lparr>unlocked := new_unlock_state\<rparr>) = (Inr n, w3)"
    and sps: "load_server_mode_space_keys C mk w3 = (Inr m, w4)"
    and clean: "w' = snd (cleanup_expired_uploads config w4)"
    using run unfolding setup_database_def
    by (elim bind_InrE) (auto simp: modify_def ignore_def bind_def split: prod.splits sum.splits)
  have 1: "same_rows w w1" using keepsD [OF same_rows_directories(1) dirs(1)] keepsD [OF same_rows_directories(2) dirs(2)]
    by (rule same_rows.R_trans)
  have rows: "space_key_rows (tb w2) = space_key_rows (tb w)" "library_key_rows (tb w2) = library_key_rows (tb w)"
    using 1 keepsD [OF same_rows_bootstrap boot] by (simp_all add: same_rows_def)
  have "same_rows w4 w'" unfolding clean using same_rows_cleanup unfolding keeps_def by blast
  moreover have "same_rows (w2\<lparr>unlocked := \<lparr>libraries = ?libs, spaces = ?spaces\<rparr>\<rparr>) w4"
    using load_libraries_Inr [OF libs] load_spaces_Inr [OF sps] rows
    by (simp add: same_rows_def keeps_master_def master_row_def keeps_ok_def new_unlock_state_def)
  ultimately have "same_rows (w2\<lparr>unlocked := \<lparr>libraries = ?libs, spaces = ?spaces\<rparr>\<rparr>) w'"
    by (rule same_rows.R_trans [rotated])
  then show thesis using that boot 1 by blast
qed

lemma restored_keys:
  assumes ok: "tables_ok t" and u: "u = \<lparr>
      libraries = load_entries C mk (filter (\<lambda>(i, mode, blob). mode = ''server'') (library_key_rows t)) [],
      spaces = load_entries C mk (filter (\<lambda>(i, mode, blob). mode = ''server'') (space_key_rows t)) []\<rparr>"
  shows "keys_wf u" "map_of (spaces u) i = restored C mk (space_key_rows t) i"
    "map_of (libraries u) i = restored C mk (library_key_rows t) i"
proof -
  have "distinct (map fst (space_key_rows t))" "distinct (map fst (library_key_rows t))"
    using ok by (simp_all add: space_key_rows_def library_key_rows_def comp_def tables_ok_defs)
  then show "map_of (spaces u) i = restored C mk (space_key_rows t) i" "map_of (libraries u) i = restored C mk (library_key_rows t) i"
    by (simp_all add: u load_entries_restored)
  have "entries_wf []" by (simp add: entries_wf_def)
  then show "keys_wf u" by (simp add: u keys_wf_def load_entries_wf)
qed

lemma keys_from_restored: "(\<And>i. map_of es i = restored C mk rows i) \<Longrightarrow> keys_from C mk rows es"
  unfolding keys_from_def restored_def by (force split: option.splits if_splits sum.splits dest: map_of_SomeD)

lemma boot_restores:
  fixes w :: "'z world_scheme"
  assumes ok: "tables_ok (tb w)" and run: "setup_database C config w = (Inr mk, w')"
  shows "keyring_ok C mk w'" "map_of (spaces (unlocked w')) i = restored C mk (space_key_rows (tb w)) i"
    "map_of (libraries (unlocked w')) i = restored C mk (library_key_rows (tb w)) i"
    "space_key_rows (tb w') = space_key_rows (tb w)" "library_key_rows (tb w') = library_key_rows (tb w)"
    "\<exists>v v' :: 'z world_scheme. bootstrap_master_key C (secret_key config) v = (Inr mk, v') \<and> same_rows w v \<and> keeps_master v' w'"
proof -
  let ?u = "\<lparr>libraries = load_entries C mk (filter (\<lambda>(i, mode, blob). mode = ''server'') (library_key_rows (tb w))) [],
      spaces = load_entries C mk (filter (\<lambda>(i, mode, blob). mode = ''server'') (space_key_rows (tb w))) []\<rparr>"
  obtain v v' :: "'z world_scheme" where boot: "bootstrap_master_key C (secret_key config) v = (Inr mk, v')" "same_rows w v"
    "same_rows (v'\<lparr>unlocked := ?u\<rparr>) w'"
    using setup_database_Inr [OF run] by blast
  note 2 = keepsD [OF same_rows_bootstrap boot(1)]
  show rows: "space_key_rows (tb w') = space_key_rows (tb w)" "library_key_rows (tb w') = library_key_rows (tb w)"
    using boot 2 by (simp_all add: same_rows_def)
  have u: "unlocked w' = ?u" and ok': "tables_ok (tb w')"
    using boot 2 ok by (simp_all add: same_rows_def keeps_ok_def)
  note keys = restored_keys [OF ok refl, of C mk]
  show "map_of (spaces (unlocked w')) i = restored C mk (space_key_rows (tb w)) i"
    "map_of (libraries (unlocked w')) i = restored C mk (library_key_rows (tb w)) i" by (simp_all only: u keys)
  show "keyring_ok C mk w'"
    using rows ok' keys(1) keys_from_restored [of "spaces ?u" C mk, OF keys(2)] keys_from_restored [of "libraries ?u" C mk, OF keys(3)]
    by (simp only: keyring_ok_def u)
  have "keeps_master v' w'" using boot(3) by (simp add: same_rows_def keeps_master_def master_row_def)
  then show "\<exists>v v' :: 'z world_scheme. bootstrap_master_key C (secret_key config) v = (Inr mk, v') \<and> same_rows w v \<and> keeps_master v' w'"
    using boot by blast
qed

lemma keyring_boot: "tables_ok (tb w) \<Longrightarrow> setup_database C config w = (Inr mk, w') \<Longrightarrow> keyring_ok C mk w'"
  by (rule boot_restores(1))

text \<open>
  C28. A restart restores the keys. When the boot succeeds, a space (library) has a key in memory
  exactly when its row is a server-mode row whose blob unwraps under the master key, and it is that
  key; the rows are as before; and any later boot that finds the stored master key gets the same
  one, so it restores the same keys again.
\<close>

theorem restart_restores_keys:
  fixes w w2 :: "'z world_scheme"
  assumes C: "crypto_ok C" and ok: "tables_ok (tb w)" and run: "setup_database C config w = (Inr mk, w')"
  shows "(\<forall>i. get_space_key (unlocked w') i = restored C mk (space_key_rows (tb w)) i) \<and>
    (\<forall>i. get_library_key (unlocked w') i = restored C mk (library_key_rows (tb w)) i) \<and>
    space_key_rows (tb w') = space_key_rows (tb w) \<and> library_key_rows (tb w') = library_key_rows (tb w) \<and>
    keyring_ok C mk w' \<and>
    (master_row w2 = master_row w' \<and> setup_database C config w2 = (Inr mk2, w3) \<longrightarrow> mk2 = mk)"
proof -
  note boot = boot_restores [OF ok run]
  have "mk2 = mk" if m: "master_row w2 = master_row w'" "setup_database C config w2 = (Inr mk2, w3)"
  proof -
    obtain v v' :: "'z world_scheme" where v: "bootstrap_master_key C (secret_key config) v = (Inr mk, v')" "keeps_master v' w'"
      using boot(6) by blast
    obtain wk blob where blob: "decode_secret_key C (secret_key config) = Inr wk" "master_row v' = Some blob" "aes_gcm_unwrap C wk blob = Inr mk"
      using bootstrap_Inr [OF C v(1)] by blast
    then have "master_row w2 = Some blob" using m(1) v(2) by (simp add: keeps_master_def)
    moreover obtain y y' :: "'z world_scheme" where boot2: "bootstrap_master_key C (secret_key config) y = (Inr mk2, y')" "same_rows w2 y"
      using setup_database_Inr [OF m(2)] by blast
    ultimately have "master_row y' = Some blob"
      using keepsD [OF keeps_master_bootstrap boot2(1)] by (simp add: same_rows_def keeps_master_def)
    then show ?thesis using bootstrap_Inr [OF C boot2(1)] blob by auto
  qed
  then show ?thesis
    using boot(1-5) by (simp add: get_space_key_wf get_library_key_wf keyring_ok_def)
qed

section \<open>A running server\<close>

text \<open>
  A server that booted with master key \<open>mk\<close>: requests on spaces, libraries and groups, in any
  order and with any failures, and everything else that happens to a server, which keeps the
  constraints of the tables, the key material of the rows and the keys in memory.
\<close>

inductive server_run :: "crypto \<Rightarrow> app_config \<Rightarrow> byte list \<Rightarrow> 'z world_scheme \<Rightarrow> bool" for C config where
  boot: "tables_ok (tb w) \<Longrightarrow> setup_database C config w = (Inr mk, w') \<Longrightarrow> server_run C config mk w'"
| set_up: "server_run C config mk w \<Longrightarrow> setup_library C config mk uid w = (r, w') \<Longrightarrow> server_run C config mk w'"
| create: "server_run C config mk w \<Longrightarrow> create_space C config mk uid name w = (r1, w') \<Longrightarrow> server_run C config mk w'"
| create_group: "server_run C config mk w \<Longrightarrow> create_group_space C config mk gid name w = (r1, w') \<Longrightarrow> server_run C config mk w'"
| delete: "server_run C config mk w \<Longrightarrow> delete_space config uid sid w = (r2, w') \<Longrightarrow> server_run C config mk w'"
| space: "server_run C config mk w \<Longrightarrow> serve_space q w = (r2, w') \<Longrightarrow> server_run C config mk w'"
| group: "server_run C config mk w \<Longrightarrow> serve_group gq w = (r2, w') \<Longrightarrow> server_run C config mk w'"
| other: "server_run C config mk w \<Longrightarrow> same_ring w w' \<Longrightarrow> tables_ok (tb w') \<Longrightarrow> server_run C config mk w'"

lemma same_ring_group: "keeps same_ring (serve_group gq)"
proof -
  have find: "keeps same_ring (group_find_by_id g)" "keeps same_ring (group_find_by_name n)" "keeps same_ring (member_find g u)"
    "keeps same_ring (user_find_by_username n)" "keeps same_ring (is_member g u)" for g n u
    unfolding group_find_by_id_def group_find_by_name_def member_find_def user_find_by_username_def find_user_def is_member_def
    by (intro same_ring_rules)+
  have manage: "keeps same_ring (require_manager_or_owner g a)" "keeps same_ring (require_member g a)" for g a
    unfolding require_manager_or_owner_def require_member_def by (intro same_ring_rules find)+
  have change: "keeps same_ring (group_update g p)" "keeps same_ring (group_delete_by_id g)" "keeps same_ring (member_add g u r)"
    "keeps same_ring (member_remove g u)" "keeps same_ring (member_update_role g u r)" for g p u r
    unfolding group_update_def group_delete_by_id_def member_add_def member_remove_def member_update_role_def
    by ((intro same_ring_rules same_ring_exec find),
        (auto simp: update_group_row_def delete_group_rows_def insert_member_def space_key_rows_def library_key_rows_def split: if_splits))+
  show ?thesis
    by (cases gq; simp add: unit_of_def update_group_def delete_group_def add_member_def remove_member_def update_member_role_def Let_def)
      (intro conjI impI same_ring_rules find manage change)+
qed

lemma same_ring_space: "keeps same_ring (serve_space q)"
  by (cases q) (simp_all add: unit_of_def same_ring_spaces same_ring.keeps_bind same_ring.keeps_ret)

lemma keeps_ok_space: "keeps keeps_ok (serve_space q)"
  by (cases q) (simp_all add: unit_of_def keeps_ok_spaces keeps_ok.keeps_bind keeps_ok.keeps_ret)

lemma keyring_create_spaces:
  fixes w :: "'z world_scheme"
  assumes C: "crypto_ok C" and ok: "keyring_ok C mk w"
  shows "create_space C config mk uid name w = (r, w') \<Longrightarrow> keyring_ok C mk w'"
    and "create_group_space C config mk gid name w = (r, w') \<Longrightarrow> keyring_ok C mk w'"
proof -
  have owned: "keyring_ok C mk v'" if "create_owned_space C config mk ot owner n v = (x, v')" "same_all w v" for ot owner n x
    and v v' :: "'z world_scheme"
    using keyring_create_owned [OF C _ that(1)] ok that(2) by (simp add: keyring_ok_def same_all_def same_world_def)
  have refl: "same_all w w" by (simp add: same_all_def same_world_def)
  show "create_space C config mk uid name w = (r, w') \<Longrightarrow> keyring_ok C mk w'"
    using owned [OF _ refl] ok by (auto simp: create_space_def bind_def split: sum.splits)
  assume run: "create_group_space C config mk gid name w = (r, w')"
  show "keyring_ok C mk w'"
  proof (cases "validate_space_name name")
    case (Inl e)
    then show ?thesis using run ok by (auto simp: create_group_space_def bind_def)
  next
    case (Inr n)
    have find: "keeps same_keys (group_find_by_id gid)" unfolding group_find_by_id_def by (intro same_keys_rules)
    have "bind (group_find_by_id gid) (\<lambda>found. bind (ok_or NotFound found) (\<lambda>_.
        create_owned_space C config mk ''group'' gid n)) w = (r, w')"
      using run Inr by (simp add: create_group_space_def bind_def)
    with group_reads(1) find show ?thesis
    proof (rule reads_bindE)
      fix e assume "r = Inl e" "same_all w w'"
      then show ?thesis using ok by (simp add: keyring_ok_def same_all_def same_world_def)
    next
      fix x w1 assume "same_all w w1" "bind (ok_or NotFound x) (\<lambda>_. create_owned_space C config mk ''group'' gid n) w1 = (r, w')"
      then show ?thesis using owned ok
        by (auto simp: bind_def ok_or_def keyring_ok_def same_all_def same_world_def split: option.splits)
    qed
  qed
qed

lemma space_row_found:
  assumes "tables_ok t" "(i, mode, blob) \<in> set (space_key_rows t)"
  shows "\<exists>s. space_of t i = Some s \<and> s_encrypted_data_key s = blob"
  using assms find_by_key [of s_id "t_spaces t"] by (auto simp: space_key_rows_def space_of_def tables_ok_defs)

lemma library_row_found:
  assumes "tables_ok t" "(i, mode, blob) \<in> set (library_key_rows t)"
  shows "\<exists>l. library_of t i = Some l \<and> pl_encrypted_data_key l = blob"
  using assms find_by_key [of pl_id "t_libraries t"] by (auto simp: library_key_rows_def library_of_def tables_ok_defs)

text \<open>
  C29. On a running server the keys in memory are those of the rows: whatever requests were served,
  in whatever order, and whatever calls failed on the way, a key found under an identifier is the one
  wrapped in the row of the space or library with that identifier, so the files of a space are only
  ever read and written with its own key, and no key outlives its space.
\<close>

theorem keys_in_memory_match_rows:
  fixes w :: "'z world_scheme"
  assumes C: "crypto_ok C" and run: "server_run C config mk w"
  shows "keyring_ok C mk w \<and>
    (\<forall>i k. get_space_key (unlocked w) i = Some k \<longrightarrow>
       (\<exists>s. space_of (tb w) i = Some s \<and> unwrap_data_key C mk (s_encrypted_data_key s) = Inr k)) \<and>
    (\<forall>i k. get_library_key (unlocked w) i = Some k \<longrightarrow>
       (\<exists>l. library_of (tb w) i = Some l \<and> unwrap_data_key C mk (pl_encrypted_data_key l) = Inr k))"
proof -
  from run have ok: "keyring_ok C mk w"
  proof (induction rule: server_run.induct)
    case (boot w mk w')
    then show ?case by (rule keyring_boot)
  next
    case (space mk w q r w')
    then have "tables_ok (tb w')" using keepsD [OF keeps_ok_space] by (fastforce simp: keeps_ok_def keyring_ok_def)
    then show ?case using space keyring_same_ring keepsD [OF same_ring_space] by blast
  next
    case (group mk w gq r w')
    then have "tables_ok (tb w')" using serve_group_ok by (auto simp: keyring_ok_def)
    then show ?case using group keyring_same_ring keepsD [OF same_ring_group] by blast
  next
    case (set_up mk w uid r w')
    show ?case by (rule keyring_setup_library [OF C set_up.IH set_up.hyps(2)])
  next
    case (create mk w uid name r w')
    show ?case by (rule keyring_create_spaces(1) [OF C create.IH create.hyps(2)])
  next
    case (create_group mk w gid name r w')
    show ?case by (rule keyring_create_spaces(2) [OF C create_group.IH create_group.hyps(2)])
  next
    case (delete mk w uid sid r w')
    show ?case by (rule keyring_delete_space [OF delete.IH delete.hyps(2)])
  next
    case (other mk w w')
    show ?case by (rule keyring_same_ring [OF other.IH other.hyps(2,3)])
  qed
  moreover have "\<exists>s. space_of (tb w) i = Some s \<and> unwrap_data_key C mk (s_encrypted_data_key s) = Inr k"
    if "get_space_key (unlocked w) i = Some k" for i k
    using ok that space_row_found by (fastforce simp: keyring_ok_def get_space_key_wf keys_from_def)
  moreover have "\<exists>l. library_of (tb w) i = Some l \<and> unwrap_data_key C mk (pl_encrypted_data_key l) = Inr k"
    if "get_library_key (unlocked w) i = Some k" for i k
    using ok that library_row_found by (fastforce simp: keyring_ok_def get_library_key_wf keys_from_def)
  ultimately show ?thesis by blast
qed

section \<open>A boot that nothing prevents succeeds\<close>

fun make_dirs :: "path list \<Rightarrow> tree \<Rightarrow> io_error + tree" where
  "make_dirs [] t = Inr t"
| "make_dirs (p # ps) t = (case mkdirs t [] p of Inl e \<Rightarrow> Inl e | Inr t' \<Rightarrow> make_dirs ps t')"

definition boot_paths :: "app_config \<Rightarrow> path list" where
  "boot_paths config = map (path_join (data_dir config)) [''libraries'', ''spaces'', ''.chunks'']"

lemma make_dirs_append: "make_dirs (ps @ qs) t = (case make_dirs ps t of Inl e \<Rightarrow> Inl e | Inr t' \<Rightarrow> make_dirs qs t')"
  by (induction ps arbitrary: t) (auto split: sum.splits)

lemma create_dir_calm:
  "calm w \<Longrightarrow> mkdirs (tree w) [] p = Inr t \<Longrightarrow> io (fs_create_dir_all p) w = (Inr (), tick (w\<lparr>tree := t\<rparr>))"
  by (simp add: fs_create_dir_all_def mutate_calm)

lemma dirs_calm:
  fixes w :: "'z world_scheme"
  assumes "calm w" "make_dirs (map (path_join dir) names) (tree w) = Inr t"
  shows "\<exists>w' :: 'z world_scheme. for_each names (\<lambda>name. io (fs_create_dir_all (path_join dir name))) w = (Inr (), w') \<and> calm w' \<and> tb w' = tb w \<and> tree w' = t"
  using assms
proof (induction names arbitrary: w)
  case (Cons n names)
  then obtain t1 where t1: "mkdirs (tree w) [] (path_join dir n) = Inr t1" "make_dirs (map (path_join dir) names) t1 = Inr t"
    by (auto split: sum.splits)
  let ?w = "tick (w\<lparr>tree := t1\<rparr>)"
  have "calm ?w" "tree ?w = t1" "tb ?w = tb w" using Cons.prems(1) by (simp_all add: calm_def)
  then show ?case
    using Cons.IH [of ?w] t1 create_dir_calm [OF Cons.prems(1) t1(1)] by (auto simp: bind_InrI)
qed simp

lemma bootstrap_calm:
  fixes w :: "'z db_scheme"
  assumes calm: "calm w" and wk: "decode_secret_key C sk = Inr wk"
    and row: "case master_row w of Some blob \<Rightarrow> \<not> isl (aes_gcm_unwrap C wk blob) | None \<Rightarrow> \<forall>n p. gcm_encrypt C wk n p \<noteq> None"
  shows "\<exists>mk (w' :: 'z db_scheme). bootstrap_master_key C sk w = (Inr mk, w') \<and> calm w'"
proof (cases "master_row w")
  case (Some blob)
  then have "load_encrypted_master_key w = (Inr (Some blob), tick w)"
    using calm by (simp add: load_encrypted_master_key_def select_calm master_row_def)
  moreover obtain mk where "aes_gcm_unwrap C wk blob = Inr mk" using row Some by (cases "aes_gcm_unwrap C wk blob") auto
  ultimately show ?thesis using wk calm by (simp add: bootstrap_master_key_def bind_InrI)
next
  case None
  let ?k = "map (\<lambda>i. rng w (rng_pos w + i)) [0..<KEY_LEN]"
  let ?w1 = "(tick w)\<lparr>rng_pos := rng_pos w + KEY_LEN + NONCE_LEN\<rparr>"
  let ?n = "map (\<lambda>i. rng w (rng_pos w + KEY_LEN + i)) [0..<NONCE_LEN]"
  obtain c t where ct: "gcm_encrypt C wk ?n ?k = Some (c, t)" using row None by fastforce
  let ?blob = "?n @ c @ t"
  have load: "load_encrypted_master_key w = (Inr None, tick w)"
    using calm None by (simp add: load_encrypted_master_key_def select_calm master_row_def)
  have key: "generate_master_key (tick w) = (Inr ?k, (tick w)\<lparr>rng_pos := rng_pos w + KEY_LEN\<rparr>)"
    by (simp add: generate_master_key_def fill_bytes_def tick_def)
  have wrap: "aes_gcm_wrap C wk ?k ((tick w)\<lparr>rng_pos := rng_pos w + KEY_LEN\<rparr>) = (Inr ?blob, ?w1)"
    using ct by (simp add: aes_gcm_wrap_def fill_bytes_def bind_def tick_def add.assoc)
  have "\<exists>w2 :: 'z db_scheme. store_encrypted_master_key ?blob ?w1 = (Inr (), w2) \<and> calm w2"
    using calm None by (simp add: store_encrypted_master_key_def load_encrypted_master_key_def bind_def exec_calm select_calm
        sqlx_def map_err_def master_row_def calm_def ok_or_def reject_if_def exec_def select_def tick_def map_add_def)
  then show ?thesis
    using wk load key wrap by (auto simp: bootstrap_master_key_def bind_InrI)
qed

lemma calm_boot:
  fixes w :: "'z world_scheme"
  assumes calm: "calm w" and dirs: "make_dirs (boot_paths config @ [db_dir config]) (tree w) = Inr t"
    and wk: "decode_secret_key C (secret_key config) = Inr wk"
    and row: "case master_row w of Some blob \<Rightarrow> \<not> isl (aes_gcm_unwrap C wk blob) | None \<Rightarrow> \<forall>n p. gcm_encrypt C wk n p \<noteq> None"
  shows "\<exists>mk w'. setup_database C config w = (Inr mk, w')"
proof -
  obtain t1 where t1: "make_dirs (map (path_join (data_dir config)) [''libraries'', ''spaces'', ''.chunks'']) (tree w) = Inr t1"
    "mkdirs t1 [] (db_dir config) = Inr t"
    using dirs by (auto simp: make_dirs_append boot_paths_def split: sum.splits)
  obtain w1 :: "'z world_scheme" where w1: "ensure_data_directories (data_dir config) w = (Inr (), w1)" "calm w1" "tb w1 = tb w" "tree w1 = t1"
    using dirs_calm [OF calm t1(1)] unfolding ensure_data_directories_def by blast
  have w2: "ensure_db_directory (db_dir config) w1 = (Inr (), tick (w1\<lparr>tree := t\<rparr>))"
    using create_dir_calm [of w1] w1 t1(2) by (simp add: ensure_db_directory_def)
  have c1: "calm (tick (w1\<lparr>tree := t\<rparr>))" and m1: "master_row (tick (w1\<lparr>tree := t\<rparr>)) = master_row w"
    using w1 by (simp_all add: calm_def master_row_def)
  have row1: "case master_row (tick (w1\<lparr>tree := t\<rparr>)) of Some blob \<Rightarrow> \<not> isl (aes_gcm_unwrap C wk blob)
      | None \<Rightarrow> \<forall>n p. gcm_encrypt C wk n p \<noteq> None"
    unfolding m1 by (rule row)
  obtain mk and w3 :: "'z world_scheme" where w3: "bootstrap_master_key C (secret_key config) (tick (w1\<lparr>tree := t\<rparr>)) = (Inr mk, w3)" "calm w3"
    using bootstrap_calm [OF c1 wk row1] by blast
  have libs: "\<exists>n w'. load_server_mode_library_keys C mk v = (Inr n, w') \<and> calm w'" if "calm v" for v :: "'z world_scheme"
    using that by (auto simp: load_server_mode_library_keys_def bind_select calm_def load_library_keys_run tick_def)
  have sps: "\<exists>n w'. load_server_mode_space_keys C mk v = (Inr n, w')" if "calm v" for v :: "'z world_scheme"
    using that by (auto simp: load_server_mode_space_keys_def space_find_all_server_mode_def bind_select calm_def load_space_keys_run)
  have "calm (w3\<lparr>unlocked := new_unlock_state\<rparr>)" using w3(2) by (simp add: calm_def)
  then obtain n and w4 :: "'z world_scheme" and m and w5 :: "'z world_scheme" where
    "load_server_mode_library_keys C mk (w3\<lparr>unlocked := new_unlock_state\<rparr>) = (Inr n, w4)"
    "load_server_mode_space_keys C mk w4 = (Inr m, w5)"
    using libs sps by metis
  then show ?thesis
    using w1(1) w2 w3(1) by (simp add: setup_database_def bind_InrI modify_def ignore_def)
qed

text \<open>
  C30. A boot that nothing prevents succeeds: if no call fails, the directories can be made, the
  secret decodes, and the stored master key unwraps under it (or there is none and encryption
  works), then the server comes up, with the keys of the rows.
\<close>

theorem boot_succeeds:
  assumes calm: "calm w" and ok: "tables_ok (tb w)"
    and dirs: "make_dirs (boot_paths config @ [db_dir config]) (tree w) = Inr t"
    and wk: "decode_secret_key C (secret_key config) = Inr wk"
    and row: "case master_row w of Some blob \<Rightarrow> \<not> isl (aes_gcm_unwrap C wk blob) | None \<Rightarrow> \<forall>n p. gcm_encrypt C wk n p \<noteq> None"
  shows "\<exists>mk w'. setup_database C config w = (Inr mk, w') \<and> keyring_ok C mk w' \<and>
    (\<forall>i. get_space_key (unlocked w') i = restored C mk (space_key_rows (tb w)) i)"
proof -
  obtain mk w' where run: "setup_database C config w = (Inr mk, w')" using calm_boot [OF calm dirs wk row] by blast
  then show ?thesis
    using boot_restores(1,2) [OF ok run] by (auto simp: get_space_key_wf keyring_ok_def)
qed

section \<open>A small server\<close>

declare bind_def [code_unfold] Let_def [code_unfold]

definition live_config :: app_config where
  "live_config = \<lparr>secret_key = replicate 32 (CHR ''k''), data_dir = [''srv''], db_dir = [''db''], default_quota_bytes = 1000,
     max_upload_bytes = 1000, session_expiry_hours = 24, chunk_size_bytes = 4, chunk_upload_expiry_hours = 24,
     max_parallel_chunks = 4, integrity_scan_enabled = False, integrity_scan_interval_hours = 1\<rparr>"

definition live :: "tables \<Rightarrow> world" where
  "live tabs = \<lparr>tree = [], ticks = 0, faults = (\<lambda>n. None), caps = (\<lambda>n. 4096), mtimes = (\<lambda>p. None),
     clock = 1000, rng = (\<lambda>n. word_of_nat n), rng_pos = 0, uuids = (\<lambda>n. show_nat n), uuid_pos = 0,
     tb = tabs, datetime_text = toy_text, parse_datetime = toy_parse, unlocked = new_unlock_state\<rparr>"

definition new_users :: tables where
  "new_users = two_users\<lparr>t_users := map (\<lambda>u. u\<lparr>u_setup_complete := False\<rparr>) (t_users two_users)\<rparr>"

lemma new_users_ok: "tables_ok new_users"
  using two_users_ok by (simp add: new_users_def two_users_def no_tables_def tables_ok_defs sample_user_def)

lemma live_simps [simp]: "tb (live t) = t" "unlocked (live t) = new_unlock_state"
  by (simp_all add: live_def)

lemma live_keyring: "tables_ok t \<Longrightarrow> keyring_ok toy_crypto mk (live t)"
  by (simp add: keyring_ok_def keys_wf_new) (simp add: new_unlock_state_def keys_from_def)

theorem create_space_all_or_nothing_witness:
  "\<exists>m w'. create_space toy_crypto live_config toy_key ''alice'' ''photos'' (live two_users) = (Inr m, w') \<and>
     space_made toy_crypto live_config toy_key ''user'' ''alice'' ''photos'' (live two_users) (sw_space m) w'"
proof -
  let ?m = "create_space toy_crypto live_config toy_key ''alice'' ''photos'' (live two_users)"
  have "\<not> isl (fst ?m)" by code_simp
  then obtain m where run: "?m = (Inr m, snd ?m)" by (metis prod.collapse sum.collapse(2))
  have "validate_space_name ''photos'' = Inr ''photos''" by code_simp
  moreover have "(if False then create_group_space toy_crypto live_config toy_key ''alice'' ''photos''
      else create_space toy_crypto live_config toy_key ''alice'' ''photos'') (live two_users) = (Inr m, snd ?m)"
    using run by simp
  note create_space_all_or_nothing [OF toy_crypto_ok _ this]
  ultimately show ?thesis using two_users_ok run by auto
qed


theorem delete_space_leaves_nothing_witness:
  "\<exists>w'. delete_space live_config ''alice'' ''s'' (live shared_space) = (Inr (), w') \<and>
     effective shared_space ''bob'' ''s'' = Some Read \<and> effective (tb w') ''bob'' ''s'' = None"
proof -
  let ?m = "delete_space live_config ''alice'' ''s'' (live shared_space)"
  have "\<not> isl (fst ?m)" by code_simp
  then obtain w' where run: "?m = (Inr (), w')" by (metis prod.collapse sum.collapse(2) old.unit.exhaust)
  have "effective shared_space ''bob'' ''s'' = Some Read" by code_simp
  then show ?thesis
    using delete_space_leaves_nothing [OF _ _ run] shared_space_ok run by (auto simp: keys_wf_new)
qed

text \<open>A server that has stored its master key and the space \<open>s\<close>.\<close>

definition stored_space :: tables where
  "stored_space = two_users\<lparr>
     t_config := [(MASTER_KEY_DB_KEY, replicate 12 0 @ toy_key @ toy_tag (replicate 32 107))],
     t_spaces := [new_space ''s'' \<lparr>csp_name = ''photos'', csp_owner_type = ''user'', csp_owner_id = ''alice'',
       csp_encryption_mode = ''server'', csp_encrypted_data_key = replicate 12 0 @ replicate 32 9 @ toy_tag toy_key\<rparr> ''0'']\<rparr>"

lemma stored_space_ok: "tables_ok stored_space"
  using two_users_ok by (simp add: stored_space_def tables_ok_defs two_users_def no_tables_def new_space_def sample_user_def)

lemma stored_boot: "\<exists>mk w'. setup_database toy_crypto live_config (live stored_space) = (Inr mk, w')"
proof (rule calm_boot)
  show "calm (live stored_space)" by (simp add: live_def calm_def)
  show "make_dirs (boot_paths live_config @ [db_dir live_config]) (tree (live stored_space)) =
      Inr (projr (make_dirs (boot_paths live_config @ [db_dir live_config]) []))" by code_simp
  show "decode_secret_key toy_crypto (secret_key live_config) = Inr (replicate 32 107)" by code_simp
  have "\<not> isl (aes_gcm_unwrap toy_crypto (replicate 32 107) (replicate 12 0 @ toy_key @ toy_tag (replicate 32 107)))" by code_simp
  then show "case master_row (live stored_space) of Some blob \<Rightarrow> \<not> isl (aes_gcm_unwrap toy_crypto (replicate 32 107) blob)
      | None \<Rightarrow> \<forall>n p. gcm_encrypt toy_crypto (replicate 32 107) n p \<noteq> None"
    by (simp add: master_row_def stored_space_def)
qed

lemma stored_master_key:
  assumes run: "setup_database toy_crypto live_config (live stored_space) = (Inr mk, w')"
  shows "mk = toy_key"
proof -
  obtain v v' :: world where v: "bootstrap_master_key toy_crypto (secret_key live_config) v = (Inr mk, v')" "same_rows (live stored_space) v"
    using boot_restores(6) [OF _ run] stored_space_ok by auto
  have "master_row v' = Some (replicate 12 0 @ toy_key @ toy_tag (replicate 32 107))"
    using v(2) keepsD [OF keeps_master_bootstrap v(1)]
    by (simp add: same_rows_def keeps_master_def master_row_def stored_space_def)
  moreover have "decode_secret_key toy_crypto (secret_key live_config) = Inr (replicate 32 107)"
    "aes_gcm_unwrap toy_crypto (replicate 32 107) (replicate 12 0 @ toy_key @ toy_tag (replicate 32 107)) = Inr toy_key" by code_simp+
  ultimately show ?thesis using bootstrap_Inr [OF toy_crypto_ok v(1)] by auto
qed

lemma stored_key: "restored toy_crypto toy_key (space_key_rows stored_space) ''s'' = Some (replicate 32 9)"
  by code_simp

theorem restart_restores_keys_witness:
  "\<exists>mk w'. setup_database toy_crypto live_config (live stored_space) = (Inr mk, w') \<and>
     get_space_key (unlocked w') ''s'' = Some (replicate 32 9)"
proof -
  obtain mk w' where run: "setup_database toy_crypto live_config (live stored_space) = (Inr mk, w')" using stored_boot by blast
  then show ?thesis
    using restart_restores_keys [OF toy_crypto_ok _ run] stored_space_ok stored_key stored_master_key by auto
qed

theorem boot_succeeds_witness:
  "\<exists>mk w'. setup_database toy_crypto live_config (live two_users) = (Inr mk, w') \<and> keyring_ok toy_crypto mk w'"
proof -
  have "\<exists>t. make_dirs (boot_paths live_config @ [db_dir live_config]) [] = Inr t"
    by (rule exI [of _ "projr (make_dirs (boot_paths live_config @ [db_dir live_config]) [])"]) code_simp
  then obtain t where "make_dirs (boot_paths live_config @ [db_dir live_config]) (tree (live two_users)) = Inr t"
    by (auto simp: live_def)
  moreover have "decode_secret_key toy_crypto (secret_key live_config) = Inr (replicate 32 107)" by code_simp
  moreover have "calm (live two_users)" "tables_ok (tb (live two_users))"
    by (simp_all add: live_def calm_def two_users_ok)
  moreover have "case master_row (live two_users) of Some blob \<Rightarrow> \<not> isl (aes_gcm_unwrap toy_crypto (replicate 32 107) blob)
      | None \<Rightarrow> \<forall>n p. gcm_encrypt toy_crypto (replicate 32 107) n p \<noteq> None"
    by (simp add: master_row_def two_users_def no_tables_def toy_gcm)
  ultimately have "\<exists>mk w'. setup_database toy_crypto live_config (live two_users) = (Inr mk, w') \<and> keyring_ok toy_crypto mk w' \<and>
      (\<forall>i. get_space_key (unlocked w') i = restored toy_crypto mk (space_key_rows (tb (live two_users))) i)"
    by (intro boot_succeeds)
  then show ?thesis by blast
qed

theorem keys_in_memory_match_rows_witness:
  "\<exists>mk w k s. server_run toy_crypto live_config mk (w :: world) \<and> get_space_key (unlocked w) ''s'' = Some k \<and>
     space_of (tb w) ''s'' = Some s \<and> unwrap_data_key toy_crypto mk (s_encrypted_data_key s) = Inr k"
proof -
  obtain mk w' where run: "setup_database toy_crypto live_config (live stored_space) = (Inr mk, w')" using stored_boot by blast
  have "map_of (spaces (unlocked w')) ''s'' = Some (replicate 32 9)"
    using boot_restores(2) [OF _ run] stored_space_ok stored_key stored_master_key [OF run] by simp
  moreover have "keyring_ok toy_crypto mk w'" using keyring_boot [OF _ run] stored_space_ok by simp
  ultimately have key: "get_space_key (unlocked w') ''s'' = Some (replicate 32 9)" by (simp add: get_space_key_wf keyring_ok_def)
  have srv: "server_run toy_crypto live_config mk w'"
    by (rule server_run.boot [OF _ run]) (simp add: stored_space_ok)
  then show ?thesis using keys_in_memory_match_rows [OF toy_crypto_ok srv] key by blast
qed

end
