(* ===== verification/AuthService.thy ===== *)
theory AuthService
  imports Users ChunkService
begin

text \<open>
  Accounts and sessions: \<open>src/src/services/auth_service.rs\<close> and the password functions of
  \<open>src/src/utils/crypto.rs\<close>. Argon2 is a parameter: hashing a password with a salt gives a PHC
  string or an error, and a check of a password against a PHC string has one of the outcomes of
  \<open>PasswordHash::new\<close> and \<open>verify_password\<close>. The delay of \<open>timing_safe_delay\<close> has no effect on
  the state. Expiry times are within the range of chrono (some 262,000 years), beyond which adding
  hours panics.
\<close>

section \<open>Passwords\<close>

datatype phc_check = MalformedHash string | PasswordMatches | PasswordDiffers | CheckFailed string

record argon2 =
  argon2_hash :: "byte list \<Rightarrow> byte list \<Rightarrow> string + string"
  argon2_check :: "byte list \<Rightarrow> string \<Rightarrow> phc_check"

text \<open>Documented: a hash verifies the password it was made from.\<close>

definition argon2_ok :: "argon2 \<Rightarrow> bool" where
  "argon2_ok A = (\<forall>password salt h. argon2_hash A password salt = Inr h \<longrightarrow> argon2_check A password h = PasswordMatches)"

definition SALT_LEN :: nat where "SALT_LEN = 16"

definition hash_password :: "argon2 \<Rightarrow> string \<Rightarrow> ('z os_scheme, string, string) act" where
  "hash_password A password =
     bind (fill_bytes SALT_LEN) (\<lambda>salt.
     lift (case argon2_hash A (as_bytes password) salt of
         Inl e \<Rightarrow> Inl (''Failed to hash password: '' @ e) | Inr h \<Rightarrow> Inr h))"

definition verify_password :: "argon2 \<Rightarrow> string \<Rightarrow> string \<Rightarrow> string + bool" where
  "verify_password A password h =
     (case argon2_check A (as_bytes password) h of
        MalformedHash e \<Rightarrow> Inl (''Failed to parse password hash: '' @ e)
      | PasswordMatches \<Rightarrow> Inr True
      | PasswordDiffers \<Rightarrow> Inr False
      | CheckFailed e \<Rightarrow> Inl (''Password verification failed: '' @ e))"

definition timing_safe_delay :: "('w, 'e, unit) act" where
  "timing_safe_delay = ret ()"

section \<open>Validation\<close>

definition USERNAME_MIN_LEN :: nat where "USERNAME_MIN_LEN = 3"
definition USERNAME_MAX_LEN :: nat where "USERNAME_MAX_LEN = 32"
definition PASSWORD_MIN_LEN :: nat where "PASSWORD_MIN_LEN = 8"
definition PASSWORD_MAX_LEN :: nat where "PASSWORD_MAX_LEN = 1024"
definition EMAIL_MAX_LEN :: nat where "EMAIL_MAX_LEN = 254"

definition username_char :: "char \<Rightarrow> bool" where
  "username_char c = (ascii_alphanumeric c \<or> c = CHR ''-'' \<or> c = CHR ''_'')"

definition normalize_username :: "string \<Rightarrow> app_error + string" where
  "normalize_username username =
     (let trimmed = trim username in
      if length trimmed < USERNAME_MIN_LEN then
        Inl (Validation (''Username must be at least '' @ show_nat USERNAME_MIN_LEN @ '' characters.''))
      else if length trimmed > USERNAME_MAX_LEN then
        Inl (Validation (''Username must be at most '' @ show_nat USERNAME_MAX_LEN @ '' characters.''))
      else if \<not> list_all username_char trimmed then
        Inl (Validation ''Username may only contain letters, numbers, hyphens, and underscores.'')
      else if (case trimmed of first # rest \<Rightarrow> \<not> ascii_alphanumeric first | [] \<Rightarrow> False) then
        Inl (Validation ''Username must start with a letter or number.'')
      else Inr trimmed)"

text \<open>\<open>s.find('@')\<close> splits the address; the position must be neither the first nor the last.\<close>

definition split_at_sign :: "string \<Rightarrow> (string \<times> string) option" where
  "split_at_sign s =
     (let pos = length (takeWhile (\<lambda>c. c \<noteq> CHR ''@'') s) in
      if pos < length s \<and> 0 < pos \<and> pos < length s - 1 then Some (take pos s, drop (pos + 1) s) else None)"

definition normalize_email :: "string \<Rightarrow> app_error + string" where
  "normalize_email email =
     (let trimmed = trim email in
      if trimmed = [] then Inl (Validation ''Email is required.'')
      else if length trimmed > EMAIL_MAX_LEN then
        Inl (Validation (''Email must be at most '' @ show_nat EMAIL_MAX_LEN @ '' characters.''))
      else (case split_at_sign trimmed of
          None \<Rightarrow> Inl (Validation ''Email must be a valid email address.'')
        | Some (local_part, domain) \<Rightarrow>
            if CHR ''.'' \<notin> set domain then Inl (Validation ''Email must be a valid email address.'')
            else Inr (to_ascii_lowercase local_part @ ''@'' @ to_ascii_lowercase domain)))"

definition validate_password :: "string \<Rightarrow> app_error + unit" where
  "validate_password password =
     (if length password < PASSWORD_MIN_LEN then
        Inl (Validation (''Password must be at least '' @ show_nat PASSWORD_MIN_LEN @ '' characters.''))
      else if length password > PASSWORD_MAX_LEN then
        Inl (Validation (''Password must be at most '' @ show_nat PASSWORD_MAX_LEN @ '' characters.''))
      else Inr ())"

section \<open>Tokens\<close>

definition hash_token :: "ext \<Rightarrow> crypto \<Rightarrow> string \<Rightarrow> string" where
  "hash_token E C token = hex_encode E (sha256 C (as_bytes token))"

definition generate_session_token :: "tools \<Rightarrow> ('z os_scheme, 'e, string) act" where
  "generate_session_token T = bind (fill_bytes 32) (\<lambda>bytes. ret (url64_encode T bytes))"

section \<open>The service\<close>

definition is_first_user :: "('z, bool) svc" where
  "is_first_user = sqlx (select (\<lambda>t. t_users t = []))"

definition register :: "argon2 \<Rightarrow> app_config \<Rightarrow> string \<Rightarrow> string \<Rightarrow> string \<Rightarrow> ('z, user) svc" where
  "register A config username0 email0 password =
     bind (lift (normalize_username username0)) (\<lambda>username.
     bind (lift (normalize_email email0)) (\<lambda>email.
     bind (lift (validate_password password)) (\<lambda>_.
     bind (map_err Internal (hash_password A password)) (\<lambda>password_hash.
     bind is_first_user (\<lambda>first.
     let role = if first then ''admin'' else ''user'' in
     user_create \<lparr>cup_username = username, cup_email = email, cup_password_hash = password_hash,
       cup_role = role, cup_quota_bytes = as_i64 (default_quota_bytes config)\<rparr>)))))"

record login_result =
  lr_token :: string
  lr_setup_complete :: bool
  lr_user :: user

definition login ::
  "ext \<Rightarrow> crypto \<Rightarrow> tools \<Rightarrow> argon2 \<Rightarrow> app_config \<Rightarrow> string \<Rightarrow> string \<Rightarrow> ('z, login_result) svc"
where
  "login E C T A config username0 password =
     bind (lift (normalize_username username0)) (\<lambda>username.
     bind (get_password_hash username) (\<lambda>found. case found of
         None \<Rightarrow> bind timing_safe_delay (\<lambda>_. throw Unauthorized)
       | Some (user_id, stored_hash) \<Rightarrow>
           bind (map_err Internal (lift (verify_password A password stored_hash))) (\<lambda>is_valid.
           bind (reject_if (\<not> is_valid) Unauthorized) (\<lambda>_.
           bind (user_find_by_id user_id) (\<lambda>found_user.
           bind (ok_or (Internal ''User found by hash but not by ID'') found_user) (\<lambda>user.
           bind (reject_if (\<not> u_is_active user) Unauthorized) (\<lambda>_.
           bind (generate_session_token T) (\<lambda>raw_token.
           bind (gets clock) (\<lambda>now.
           let expires_at = now + 3600 * as_i64 (session_expiry_hours config) in
           bind (sqlx (session_create (u_id user) (hash_token E C raw_token) expires_at)) (\<lambda>_.
           ret \<lparr>lr_token = raw_token, lr_setup_complete = u_setup_complete user, lr_user = user\<rparr>))))))))))"

definition logout :: "string \<Rightarrow> string \<Rightarrow> ('z, unit) svc" where
  "logout user_id session_token_hash =
     bind (sqlx (delete_by_user_and_token user_id session_token_hash)) (\<lambda>deleted. ret ())"

end
