(* ===== verification/Guards.thy ===== *)
theory Guards
  imports AuthService SpaceService
begin

text \<open>
  The request guards of \<open>src/src/guards/\<close>: a guard either refuses a request, with a status and an
  error, or gives the handler the user (and the space) it has established. A request is what the
  guards read of it: its headers, its cookies and its path. The database pool is always managed
  state (\<open>main.rs\<close>), so its absence is no case.
\<close>

section \<open>Requests\<close>

record request =
  rq_headers :: "(string \<times> string) list"
  rq_cookies :: "(string \<times> string) list"
  rq_path :: string

text \<open>Header names are compared without regard to case; the first value counts.\<close>

definition get_header :: "request \<Rightarrow> string \<Rightarrow> string option" where
  "get_header rq name =
     map_option snd (List.find (\<lambda>h. to_ascii_lowercase (fst h) = to_ascii_lowercase name) (rq_headers rq))"

definition get_cookie :: "request \<Rightarrow> string \<Rightarrow> string option" where
  "get_cookie rq name = map_of (rq_cookies rq) name"

type_synonym ('z, 'a) guard = "('z db_scheme, nat \<times> app_error, 'a) act"

definition refuse :: "app_error \<Rightarrow> nat \<times> app_error" where
  "refuse e = (status e, e)"

section \<open>Tokens\<close>

definition TOKEN_MIN_LEN :: nat where "TOKEN_MIN_LEN = 32"
definition TOKEN_MAX_LEN :: nat where "TOKEN_MAX_LEN = 512"

text \<open>\<open>splitn(2, char::is_whitespace)\<close>: the text before the first white space, and after it.\<close>

fun split_whitespace_once :: "string \<Rightarrow> string \<times> string option" where
  "split_whitespace_once [] = ([], None)"
| "split_whitespace_once (c # cs) =
     (case match_any ws_encodings (c # cs) of
        Suc k \<Rightarrow> ([], Some (drop k cs))
      | 0 \<Rightarrow> (case split_whitespace_once cs of (a, b) \<Rightarrow> (c # a, b)))"

definition extract_bearer_token :: "request \<Rightarrow> string option" where
  "extract_bearer_token rq =
     (case get_header rq ''Authorization'' of None \<Rightarrow> None
      | Some header_value \<Rightarrow>
          (case split_whitespace_once (trim header_value) of (scheme, rest) \<Rightarrow>
             if to_ascii_lowercase scheme \<noteq> ''bearer'' then None
             else (let token = trim (case rest of None \<Rightarrow> [] | Some r \<Rightarrow> r) in
                   if token = [] then None else Some token)))"

definition token_char :: "char \<Rightarrow> bool" where
  "token_char b = (ascii_alphanumeric b \<or> b \<in> set ''-_.+/='')"

definition is_valid_token_format :: "string \<Rightarrow> bool" where
  "is_valid_token_format token =
     (TOKEN_MIN_LEN \<le> length token \<and> length token \<le> TOKEN_MAX_LEN \<and> list_all token_char token)"

definition COOKIE_NAME :: string where "COOKIE_NAME = ''irondrive_session''"

definition extract_cookie_token :: "request \<Rightarrow> string option" where
  "extract_cookie_token rq =
     (case get_cookie rq COOKIE_NAME of None \<Rightarrow> None
      | Some v \<Rightarrow> (let token = trim v in if token = [] then None else Some token))"

section \<open>Who is asking\<close>

text \<open>From the token on, \<open>AuthenticatedUser\<close> and \<open>validate_session_cookie\<close> do the same.\<close>

definition token_user :: "ext \<Rightarrow> crypto \<Rightarrow> string \<Rightarrow> ('z, user) guard" where
  "token_user E C token =
     bind (reject_if (\<not> is_valid_token_format token) (refuse Unauthorized)) (\<lambda>_.
     bind (map_err (\<lambda>e. refuse (Internal ''Session validation failed'')) (session_validate (hash_token E C token))) (\<lambda>found.
     bind (ok_or (refuse Unauthorized) found) (\<lambda>session.
     bind (map_err (\<lambda>e. refuse (Internal ''User lookup failed'')) (user_find_by_id (se_user_id session))) (\<lambda>found_user.
     case found_user of
         None \<Rightarrow> bind (ignore (session_delete (se_id session))) (\<lambda>_. throw (refuse Unauthorized))
       | Some user \<Rightarrow>
           bind (reject_if (\<not> u_is_active user) (refuse Forbidden)) (\<lambda>_. ret user)))))"

definition authenticated_user :: "ext \<Rightarrow> crypto \<Rightarrow> request \<Rightarrow> ('z, user) guard" where
  "authenticated_user E C rq =
     bind (ok_or (refuse Unauthorized) (extract_bearer_token rq)) (\<lambda>token. token_user E C token)"

definition session_user :: "ext \<Rightarrow> crypto \<Rightarrow> request \<Rightarrow> ('z, user) guard" where
  "session_user E C rq =
     bind (ok_or (refuse Unauthorized) (extract_cookie_token rq)) (\<lambda>token. token_user E C token)"

definition setup_complete_user :: "ext \<Rightarrow> crypto \<Rightarrow> request \<Rightarrow> ('z, user) guard" where
  "setup_complete_user E C rq =
     bind (authenticated_user E C rq) (\<lambda>user.
     bind (reject_if (\<not> u_setup_complete user)
       (403, Validation ''Setup is not complete. Please complete library setup first.'')) (\<lambda>_. ret user))"

definition session_setup_complete :: "ext \<Rightarrow> crypto \<Rightarrow> request \<Rightarrow> ('z, user) guard" where
  "session_setup_complete E C rq =
     bind (session_user E C rq) (\<lambda>user.
     bind (reject_if (\<not> u_setup_complete user) (403, Validation ''Setup not complete.'')) (\<lambda>_. ret user))"

definition admin_user :: "ext \<Rightarrow> crypto \<Rightarrow> request \<Rightarrow> ('z, user) guard" where
  "admin_user E C rq =
     bind (authenticated_user E C rq) (\<lambda>user.
     bind (reject_if (\<not> is_admin user) (refuse Forbidden)) (\<lambda>_. ret user))"

section \<open>Space permissions\<close>

definition LEVEL_READ :: "8 word" where "LEVEL_READ = 1"
definition LEVEL_WRITE :: "8 word" where "LEVEL_WRITE = 2"
definition LEVEL_ADMIN :: "8 word" where "LEVEL_ADMIN = 3"

definition guard_permission_level :: "string \<Rightarrow> 8 word" where
  "guard_permission_level perm =
     (if perm = ''read'' then LEVEL_READ else if perm = ''write'' then LEVEL_WRITE
      else if perm = ''admin'' then LEVEL_ADMIN else 0)"

fun space_segment :: "string list \<Rightarrow> string option" where
  "space_segment [] = None"
| "space_segment [seg] = None"
| "space_segment (seg # i # rest) =
     (if seg = ''spaces'' then (if i \<noteq> [] then Some i else space_segment rest) else space_segment (i # rest))"

definition extract_space_id :: "request \<Rightarrow> string option" where
  "extract_space_id rq = space_segment (split_on path_sep (rq_path rq))"

definition check_space_permission :: "request \<Rightarrow> string \<Rightarrow> 8 word \<Rightarrow> ('z, space_with_meta) guard" where
  "check_space_permission rq user_id required_level =
     bind (ok_or (400, Validation ''Missing space ID in request path.'') (extract_space_id rq)) (\<lambda>space_id.
     bind (map_err (\<lambda>e. refuse (Internal ''Failed to load space.'')) (space_find_for_user user_id space_id)) (\<lambda>found.
     bind (ok_or (refuse NotFound) found) (\<lambda>space_meta.
     bind (reject_if (guard_permission_level (sw_user_permission space_meta) < required_level) (refuse Forbidden)) (\<lambda>_.
     ret space_meta))))"

text \<open>\<open>SpaceReader\<close>, \<open>SpaceWriter\<close> and \<open>SpaceAdmin\<close> differ in the level only.\<close>

definition space_guard :: "ext \<Rightarrow> crypto \<Rightarrow> request \<Rightarrow> 8 word \<Rightarrow> ('z, user \<times> space_with_meta) guard" where
  "space_guard E C rq level =
     bind (setup_complete_user E C rq) (\<lambda>user.
     bind (check_space_permission rq (u_id user) level) (\<lambda>s. ret (user, s)))"

definition session_space_guard :: "ext \<Rightarrow> crypto \<Rightarrow> request \<Rightarrow> 8 word \<Rightarrow> ('z, user \<times> space_with_meta) guard" where
  "session_space_guard E C rq level =
     bind (session_setup_complete E C rq) (\<lambda>user.
     bind (check_space_permission rq (u_id user) level) (\<lambda>s. ret (user, s)))"

definition space_reader :: "ext \<Rightarrow> crypto \<Rightarrow> request \<Rightarrow> ('z, user \<times> space_with_meta) guard" where
  "space_reader E C rq = space_guard E C rq LEVEL_READ"

definition space_writer :: "ext \<Rightarrow> crypto \<Rightarrow> request \<Rightarrow> ('z, user \<times> space_with_meta) guard" where
  "space_writer E C rq = space_guard E C rq LEVEL_WRITE"

definition space_admin :: "ext \<Rightarrow> crypto \<Rightarrow> request \<Rightarrow> ('z, user \<times> space_with_meta) guard" where
  "space_admin E C rq = space_guard E C rq LEVEL_ADMIN"

section \<open>Cross-site request forgery\<close>

definition CSRF_COOKIE :: string where "CSRF_COOKIE = ''csrf_token''"
definition TOKEN_LEN :: nat where "TOKEN_LEN = 64"

definition xor_diff :: "byte list \<Rightarrow> byte list \<Rightarrow> byte" where
  "xor_diff a b = foldl (\<lambda>diff (x, y). or diff (xor x y)) 0 (zip a b)"

definition constant_time_eq :: "byte list \<Rightarrow> byte list \<Rightarrow> bool" where
  "constant_time_eq a b = (if length a \<noteq> length b then False else xor_diff a b = 0)"

text \<open>\<open>alnum\<close>: the distribution \<open>Alphanumeric\<close>, from a random byte.\<close>

definition generate_csrf_token :: "(byte \<Rightarrow> char) \<Rightarrow> ('z os_scheme, 'e, string) act" where
  "generate_csrf_token alnum = bind (fill_bytes TOKEN_LEN) (\<lambda>bytes. ret (map alnum bytes))"

text \<open>The result is the token and the cookie to set, if a new one is needed.\<close>

definition ensure_csrf_token ::
  "(byte \<Rightarrow> char) \<Rightarrow> request \<Rightarrow> ('z os_scheme, 'e, string \<times> (string \<times> string) option) act"
where
  "ensure_csrf_token alnum rq =
     (let keep = (case get_cookie rq CSRF_COOKIE of
          Some v \<Rightarrow> if length v = TOKEN_LEN \<and> list_all ascii_alphanumeric v then Some v else None | None \<Rightarrow> None)
      in case keep of
          Some v \<Rightarrow> ret (v, None)
        | None \<Rightarrow> bind (generate_csrf_token alnum) (\<lambda>token. ret (token, Some (CSRF_COOKIE, token))))"

definition validate_csrf :: "request \<Rightarrow> string \<Rightarrow> app_error + unit" where
  "validate_csrf rq submitted =
     (let cookie_val = (case get_cookie rq CSRF_COOKIE of None \<Rightarrow> [] | Some v \<Rightarrow> v) in
      if cookie_val = [] \<or> submitted = [] \<or> \<not> constant_time_eq (as_bytes cookie_val) (as_bytes submitted)
      then Inl Forbidden else Inr ())"

definition csrf_xhr :: "request \<Rightarrow> (nat \<times> app_error) + unit" where
  "csrf_xhr rq =
     (let header_token = (case get_header rq ''X-CSRF-Token'' of None \<Rightarrow> [] | Some v \<Rightarrow> v);
          cookie_token = (case get_cookie rq CSRF_COOKIE of None \<Rightarrow> [] | Some v \<Rightarrow> v) in
      if header_token = [] \<or> cookie_token = [] \<or> \<not> constant_time_eq (as_bytes header_token) (as_bytes cookie_token)
      then Inl (refuse Forbidden) else Inr ())"

end
