(* ===== verification/AuthFacts.thy ===== *)
theory AuthFacts
  imports Guards LibraryFacts
begin

text \<open>
  Accounts and sessions: who a token stands for, what a login, a registration and a guard decide,
  and that a session lasts exactly from its login to its expiry or logout.
\<close>

section \<open>Text\<close>

lemma match_any_0: "(\<And>p. p \<in> set ps \<Longrightarrow> p \<noteq> [] \<and> hd p \<noteq> c) \<Longrightarrow> match_any ps (c # cs) = 0"
proof (induction ps)
  case (Cons p ps)
  then have "p \<noteq> []" "hd p \<noteq> c" by auto
  then have "\<not> is_prefix p (c # cs)" by (cases p) auto
  with Cons show ?case by simp
qed simp

definition plain :: "char \<Rightarrow> bool" where
  "plain c = (32 < char_code c \<and> char_code c < 128)"

lemma ws_bytes: "p \<in> set ws_encodings \<Longrightarrow> p \<noteq> [] \<and> (\<forall>x \<in> set p. \<not> plain x)"
proof -
  have "list_all (\<lambda>p. p \<noteq> [] \<and> list_all (\<lambda>x. \<not> plain x) p) ws_encodings" by code_simp
  then show "p \<in> set ws_encodings \<Longrightarrow> p \<noteq> [] \<and> (\<forall>x \<in> set p. \<not> plain x)" by (auto simp: list_all_iff)
qed

lemma match_plain: "plain c \<Longrightarrow> match_any ws_encodings (c # cs) = 0" "plain c \<Longrightarrow> match_any (map rev ws_encodings) (c # cs) = 0"
proof -
  show "plain c \<Longrightarrow> match_any ws_encodings (c # cs) = 0"
    by (rule match_any_0) (metis ws_bytes list.set_sel(1))
  show "plain c \<Longrightarrow> match_any (map rev ws_encodings) (c # cs) = 0"
  proof (rule match_any_0)
    fix p assume "plain c" "p \<in> set (map rev ws_encodings)"
    then obtain q where q: "p = rev q" "q \<in> set ws_encodings" by auto
    with ws_bytes have "p \<noteq> []" by auto
    moreover from this have "hd p \<in> set q" using q by (metis list.set_sel(1) set_rev)
    ultimately show "p \<noteq> [] \<and> hd p \<noteq> c" using ws_bytes [OF q(2)] \<open>plain c\<close> by auto
  qed
qed

lemma trim_plain: "s \<noteq> [] \<Longrightarrow> plain (hd s) \<Longrightarrow> plain (last s) \<Longrightarrow> trim s = s"
proof -
  assume s: "s \<noteq> []" "plain (hd s)" "plain (last s)"
  from s have "match_any ws_encodings s = 0" by (cases s) (simp_all add: match_plain)
  then have start: "trim_start s = s" using s(1) by (cases "length s") (simp_all add: trim_start_def)
  have "match_any (map rev ws_encodings) (rev s) = 0"
    using s by (cases s rule: rev_cases) (simp_all add: match_plain)
  then have "trim_end s = s" using s(1) by (cases "length s") (simp_all add: trim_end_def)
  then show ?thesis by (simp add: trim_def start)
qed

lemma plain_alphanumeric: "ascii_alphanumeric c \<Longrightarrow> plain c"
  by (auto simp: ascii_alphanumeric_def ascii_upper_def ascii_lower_def ascii_digit_def plain_def)

lemma plain_username: "username_char c \<Longrightarrow> plain c"
proof -
  have "plain (CHR ''-'')" "plain (CHR ''_'')" by code_simp+
  then show "username_char c \<Longrightarrow> plain c" by (auto simp: username_char_def plain_alphanumeric)
qed

lemma plain_token: "token_char c \<Longrightarrow> plain c"
proof -
  have "list_all plain ''-_.+/=''" by code_simp
  then show "token_char c \<Longrightarrow> plain c" by (auto simp: token_char_def plain_alphanumeric list_all_iff)
qed

lemma normalize_username_idem:
  assumes "normalize_username s = Inr n"
  shows "normalize_username n = Inr n"
proof -
  have n: "n = trim s" "list_all username_char n" "n \<noteq> []"
    using assms by (auto simp: normalize_username_def Let_def USERNAME_MIN_LEN_def split: if_splits)
  then have "trim n = n" by (intro trim_plain) (auto simp: list_all_iff plain_username)
  then show ?thesis using assms n(1) by (auto simp: normalize_username_def Let_def split: if_splits)
qed

lemma to_lower_idem: "to_lower (to_lower c) = to_lower c"
proof -
  have "char_code (char_of (char_code c + 32)) = char_code c + 32" if "char_code c \<le> 90"
    using that by (simp add: char_code_def)
  then show ?thesis by (auto simp: to_lower_def ascii_upper_def)
qed

lemma lowercase_idem [simp]: "to_ascii_lowercase (to_ascii_lowercase s) = to_ascii_lowercase s"
  by (simp add: to_ascii_lowercase_def to_lower_idem)

lemma normalize_email_lowercase: "normalize_email s = Inr e \<Longrightarrow> to_ascii_lowercase e = e"
proof -
  have "to_lower (CHR ''@'') = CHR ''@''" by code_simp
  then have "to_ascii_lowercase (a @ CHR ''@'' # b) = to_ascii_lowercase a @ CHR ''@'' # to_ascii_lowercase b" for a b
    by (simp add: to_ascii_lowercase_def)
  then show "normalize_email s = Inr e \<Longrightarrow> to_ascii_lowercase e = e"
    by (auto simp: normalize_email_def Let_def split: if_splits option.splits)
qed

subsection \<open>The token of a request\<close>

lemma split_plain: "list_all plain s \<Longrightarrow> split_whitespace_once (s @ CHR '' '' # t) = (s, Some t)"
proof (induction s)
  case Nil
  have "match_any ws_encodings (CHR '' '' # t) = 1" by (simp add: ws_encodings_def)
  then show ?case by simp
next
  case (Cons c s)
  then show ?case by (simp add: match_plain)
qed

definition bearer :: "string \<Rightarrow> request" where
  "bearer token = \<lparr>rq_headers = [(''Authorization'', ''Bearer '' @ token)], rq_cookies = [], rq_path = ''/''\<rparr>"

lemma valid_token_plain: "is_valid_token_format tok \<Longrightarrow> tok \<noteq> [] \<and> list_all plain tok"
  by (auto simp: is_valid_token_format_def TOKEN_MIN_LEN_def list_all_iff plain_token)

lemma extract_bearer:
  assumes "get_header rq ''Authorization'' = Some (''Bearer '' @ tok)" "is_valid_token_format tok"
  shows "extract_bearer_token rq = Some tok"
proof -
  note tok = valid_token_plain [OF assms(2)]
  have b: "list_all plain ''Bearer''" "to_ascii_lowercase ''Bearer'' = ''bearer''" by code_simp+
  then have "plain (CHR ''B'')" by simp
  then have "trim (''Bearer '' @ tok) = ''Bearer '' @ tok"
    using tok by (intro trim_plain) (auto simp: list_all_iff)
  moreover have "trim tok = tok" using tok by (intro trim_plain) (auto simp: list_all_iff)
  moreover have "split_whitespace_once (''Bearer'' @ CHR '' '' # tok) = (''Bearer'', Some tok)" using b(1) by (rule split_plain)
  ultimately show ?thesis using tok assms(1) b(2) by (simp add: extract_bearer_token_def Let_def)
qed

lemma extract_cookie:
  assumes "get_cookie rq COOKIE_NAME = Some tok" "is_valid_token_format tok"
  shows "extract_cookie_token rq = Some tok"
proof -
  note tok = valid_token_plain [OF assms(2)]
  then have "trim tok = tok" by (intro trim_plain) (auto simp: list_all_iff)
  then show ?thesis using tok assms(1) by (simp add: extract_cookie_token_def Let_def)
qed

lemma bind_map_errD: "bind (map_err f m) k w = out \<Longrightarrow> m w = (Inr x, w1) \<Longrightarrow> k x w1 = out"
  by (simp add: bind_map_err_InrI)

section \<open>Accounts and sessions in the tables\<close>

definition session_of :: "tables \<Rightarrow> string \<Rightarrow> session option" where
  "session_of t h = List.find (\<lambda>r. se_token_hash r = h) (t_sessions t)"

definition with_user :: "user_row \<Rightarrow> tables \<Rightarrow> tables" where
  "with_user u t = t\<lparr>t_users := t_users t @ [u]\<rparr>"

definition with_session :: "session \<Rightarrow> tables \<Rightarrow> tables" where
  "with_session s t = t\<lparr>t_sessions := t_sessions t @ [s]\<rparr>"

definition without_sessions :: "(session \<Rightarrow> bool) \<Rightarrow> tables \<Rightarrow> tables" where
  "without_sessions P t = t\<lparr>t_sessions := filter (\<lambda>r. \<not> P r) (t_sessions t)\<rparr>"

definition same_env :: "'z db_scheme \<Rightarrow> 'z db_scheme \<Rightarrow> bool" where
  "same_env w w' = (clock w' = clock w \<and> datetime_text w' = datetime_text w \<and> parse_datetime w' = parse_datetime w \<and>
     faults w' = faults w)"

interpretation same_env: frame_rel same_env
  by unfold_locales (auto simp: same_env_def)

lemma same_env_os: "keeps same_env (sqlx (select g))" "keeps same_env (select g)" "keeps same_env (fill_bytes n)" "keeps same_env new_uuid"
  by (auto simp: keeps_def same_env_def sqlx_def map_err_def select_def fill_bytes_def new_uuid_def tick_def split: option.splits)

lemma same_env_exec: "keeps same_env (exec f)" "keeps same_env (exec_returning f')"
  by (auto simp: keeps_def same_env_def exec_def exec_returning_def tick_def split: option.splits sum.splits)

lemmas same_env_rules = same_env.keeps_rules keeps_sqlx same_env_os same_env_exec

lemma same_env_auth:
  "keeps same_env (register A config n e p)" "keeps same_env (login E C T A config n p)"
  "keeps same_env (logout uid h)" "keeps same_env (token_user E C tok)" "keeps same_env (mark_setup_complete uid)"
  "keeps same_env delete_expired"
  unfolding register_def login_def logout_def token_user_def mark_setup_complete_def hash_password_def is_first_user_def
    user_create_def user_find_by_username_def user_find_by_email_def user_find_by_id_def find_user_def get_password_hash_def
    generate_session_token_def session_create_def timing_safe_delay_def delete_by_user_and_token_def delete_sessions_def
    session_validate_def find_by_token_hash_def session_is_expired_def session_delete_def delete_expired_def Let_def
  by (intro same_env_rules)+

lemma delete_sessions_run:
  "delete_sessions P w = (r, w') \<Longrightarrow> same_env w w' \<and>
     (tb w' = without_sessions P (tb w) \<or> \<not> calm w \<and> isl r \<and> tb w' = tb w)"
  by (auto simp: delete_sessions_def exec_def same_env_def without_sessions_def calm_def tick_def split: option.splits)

lemma session_of_without: "(\<And>r. se_token_hash r = h \<Longrightarrow> P r \<Longrightarrow> session_of t h \<noteq> Some r) \<Longrightarrow>
    distinct (map se_token_hash (t_sessions t)) \<Longrightarrow> session_of (without_sessions P t) h = session_of t h"
proof -
  have "List.find (\<lambda>r. se_token_hash r = h) (filter (\<lambda>r. \<not> P r) rows) = List.find (\<lambda>r. se_token_hash r = h) rows"
    if "\<And>r. se_token_hash r = h \<Longrightarrow> P r \<Longrightarrow> List.find (\<lambda>r. se_token_hash r = h) rows \<noteq> Some r"
      "distinct (map se_token_hash rows)" for rows
    using that
  proof (induction rows)
    case (Cons x rows)
    show ?case
    proof (cases "se_token_hash x = h")
      case True
      then show ?thesis using Cons.prems(1) [of x] by auto
    next
      case False
      then show ?thesis using Cons by auto
    qed
  qed simp
  then show "(\<And>r. se_token_hash r = h \<Longrightarrow> P r \<Longrightarrow> session_of t h \<noteq> Some r) \<Longrightarrow>
    distinct (map se_token_hash (t_sessions t)) \<Longrightarrow> session_of (without_sessions P t) h = session_of t h"
    by (simp add: session_of_def without_sessions_def)
qed

lemma session_gone: "session_of (without_sessions (\<lambda>r. se_token_hash r = h) t) h = None"
  by (simp add: session_of_def without_sessions_def find_filter_out)

section \<open>What a token stands for\<close>

definition expired :: "'z db_scheme \<Rightarrow> session \<Rightarrow> bool" where
  "expired w s = (case parse_datetime w (se_expires_at s) of Some e \<Rightarrow> clock w \<ge> e | None \<Rightarrow> True)"

text \<open>The decision on a token, as a function of the state.\<close>

definition token_owner :: "ext \<Rightarrow> crypto \<Rightarrow> 'z db_scheme \<Rightarrow> string \<Rightarrow> nat \<times> app_error + user" where
  "token_owner E C w token =
     (if \<not> is_valid_token_format token then Inl (refuse Unauthorized)
      else case session_of (tb w) (hash_token E C token) of
        None \<Rightarrow> Inl (refuse Unauthorized)
      | Some s \<Rightarrow> if expired w s then Inl (refuse Unauthorized)
          else case user_of (tb w) (se_user_id s) of
            None \<Rightarrow> Inl (refuse Unauthorized)
          | Some u \<Rightarrow> if u_is_active u then Inr u else Inl (refuse Forbidden))"

text \<open>The rows a check of a token may drop: the session it is about, when it is dead.\<close>

definition dead_session :: "ext \<Rightarrow> crypto \<Rightarrow> 'z db_scheme \<Rightarrow> string \<Rightarrow> session \<Rightarrow> bool" where
  "dead_session E C w token s = (is_valid_token_format token \<and>
     (case session_of (tb w) (hash_token E C token) of None \<Rightarrow> False | Some r \<Rightarrow>
       se_id s = se_id r \<and> (expired w r \<or> user_of (tb w) (se_user_id r) = None)))"

lemma run_expired [simp]: "session_is_expired s w = (Inr (expired w s), w)"
  by (simp add: session_is_expired_def expired_def)

lemma expired_tick [simp]: "expired (tick w) s = expired w s"
  by (simp add: expired_def tick_def split: option.splits)

lemma validate_run:
  assumes run: "session_validate h w = (r, w')"
  shows "same_env w w' \<and> (case session_of (tb w) h of
      None \<Rightarrow> tb w' = tb w \<and> (r = Inr None \<or> \<not> calm w \<and> isl r)
    | Some s \<Rightarrow> if expired w s
        then (tb w' = without_sessions (\<lambda>x. se_id x = se_id s) (tb w) \<or> \<not> calm w \<and> tb w' = tb w) \<and>
          (r = Inr None \<or> \<not> calm w \<and> isl r)
        else tb w' = tb w \<and> (r = Inr (Some s) \<or> \<not> calm w \<and> isl r))"
proof (cases "faults w (ticks w)")
  case (Some m)
  then show ?thesis using run
    by (auto simp: session_validate_def find_by_token_hash_def select_def bind_def calm_def same_env_def tick_def split: option.splits)
next
  case None
  define w1 where "w1 = tick w"
  have w1: "same_env w w1" "tb w1 = tb w" "calm w1 = calm w" by (simp_all add: w1_def tick_def same_env_def calm_def)
  have look: "find_by_token_hash h w = (Inr (session_of (tb w) h), w1)"
    using None by (simp add: find_by_token_hash_def select_def session_of_def w1_def)
  show ?thesis
  proof (cases "session_of (tb w) h")
    case none: None
    then show ?thesis using run look w1 by (auto simp: session_validate_def bind_def)
  next
    case (Some s)
    have e: "expired w1 s = expired w s" by (simp add: w1_def)
    show ?thesis
    proof (cases "expired w s")
      case False
      then show ?thesis using run look e Some w1 by (auto simp: session_validate_def bind_def)
    next
      case True
      obtain x w2 where del: "delete_sessions (\<lambda>r. se_id r = se_id s) w1 = (x, w2)" by fastforce
      have "r = Inr None" "w' = w2"
        using run look e Some True del
        by (auto simp: session_validate_def bind_def session_delete_def ignore_def split: sum.splits)
      then show ?thesis using delete_sessions_run [OF del] Some True w1 same_env.R_trans [OF w1(1)] by auto
    qed
  qed
qed

lemma no_dead [simp]: "without_sessions (\<lambda>s. False) t = t"
  by (simp add: without_sessions_def)

lemma reads_user: "reads (\<lambda>t. Inr (user_of t uid)) (user_find_by_id uid)"
  by (rule library_reads)

definition drop_dead :: "ext \<Rightarrow> crypto \<Rightarrow> 'z db_scheme \<Rightarrow> string \<Rightarrow> tables" where
  "drop_dead E C w token = without_sessions (dead_session E C w token) (tb w)"

lemma drop_dead_cases:
  "drop_dead E C w token = (if \<not> is_valid_token_format token then tb w else
     case session_of (tb w) (hash_token E C token) of None \<Rightarrow> tb w
     | Some s \<Rightarrow> if expired w s \<or> user_of (tb w) (se_user_id s) = None then without_sessions (\<lambda>x. se_id x = se_id s) (tb w) else tb w)"
  by (auto simp: drop_dead_def dead_session_def [abs_def] split: option.splits)

definition session_owner :: "session \<Rightarrow> ('z, user) guard" where
  "session_owner s = bind (map_err (\<lambda>e. refuse (Internal ''User lookup failed'')) (user_find_by_id (se_user_id s)))
     (\<lambda>found_user. case found_user of
         None \<Rightarrow> bind (ignore (session_delete (se_id s))) (\<lambda>_. throw (refuse Unauthorized))
       | Some user \<Rightarrow> bind (reject_if (\<not> u_is_active user) (refuse Forbidden)) (\<lambda>_. ret user))"

lemma token_user_run:
  assumes run: "token_user E C tok w = (r, w')"
  shows "(r = token_owner E C w tok \<or> \<not> calm w \<and> isl r) \<and>
    (tb w' = drop_dead E C w tok \<or> \<not> calm w \<and> tb w' = tb w)"
proof (cases "is_valid_token_format tok")
  case False
  then show ?thesis using run by (auto simp: token_user_def token_owner_def drop_dead_cases)
next
  case True
  let ?h = "hash_token E C tok"
  have checked: "bind (map_err (\<lambda>e. refuse (Internal ''Session validation failed'')) (session_validate ?h))
      (\<lambda>found. bind (ok_or (refuse Unauthorized) found) session_owner) w = (r, w')"
    using run True by (simp add: token_user_def session_owner_def [abs_def])
  obtain v w1 where v: "session_validate ?h w = (v, w1)" by fastforce
  note val = validate_run [OF v]
  have calm: "calm w1 = calm w" using val by (simp add: same_env_def calm_def)
  show ?thesis
  proof (cases v)
    case (Inl e)
    then have "isl r" "w' = w1" using run v True by (auto simp: token_user_def bind_def map_err_def)
    then show ?thesis using val Inl True by (auto simp: drop_dead_cases split: option.splits if_splits)
  next
    case (Inr found)
    show ?thesis
    proof (cases found)
      case None
      then have "r = Inl (refuse Unauthorized)" "w' = w1" using run v True Inr by (auto simp: token_user_def bind_def map_err_def)
      then show ?thesis using val Inr None True by (auto simp: drop_dead_cases token_owner_def split: option.splits if_splits)
    next
      case (Some s)
      then have s: "session_of (tb w) ?h = Some s" "\<not> expired w s" "tb w1 = tb w"
        using val Inr by (auto split: option.splits if_splits)
      obtain f w2 where f: "user_find_by_id (se_user_id s) w1 = (f, w2)" by fastforce
      have u: "tb w2 = tb w" "calm w2 = calm w" "f = Inr (user_of (tb w) (se_user_id s)) \<or> \<not> calm w \<and> isl f"
        using reads_run [OF reads_user f] s(3) calm by (auto simp: same_world_def calm_def)
      have step: "session_owner s w1 = (r, w')"
        using bind_map_errD [OF checked v [unfolded Inr Some]] by simp
      show ?thesis
      proof (cases f)
        case (Inl e)
        then have "isl r" "w' = w2" using step [unfolded session_owner_def] f by (auto simp: bind_def map_err_def)
        then show ?thesis using u Inl True s by (auto simp: drop_dead_cases token_owner_def)
      next
        case user: (Inr fu)
        show ?thesis
        proof (cases fu)
          case None
          obtain x w3 where del: "delete_sessions (\<lambda>r. se_id r = se_id s) w2 = (x, w3)" by fastforce
          have "r = Inl (refuse Unauthorized)" "w' = w3"
            using step [unfolded session_owner_def] f user None del by (auto simp: bind_def map_err_def session_delete_def ignore_def split: sum.splits)
          then show ?thesis using delete_sessions_run [OF del] u user None s True
            by (auto simp: drop_dead_cases token_owner_def)
        next
          case (Some user)
          then have "r = (if u_is_active user then Inr user else Inl (refuse Forbidden))" "w' = w2"
            using step [unfolded session_owner_def] f \<open>f = Inr fu\<close> by (auto simp: bind_def map_err_def split: if_splits)
          moreover have "user_of (tb w) (se_user_id s) = Some user" using u(3) \<open>f = Inr fu\<close> Some by auto
          ultimately show ?thesis using u(1) s True by (auto simp: drop_dead_cases token_owner_def)
        qed
      qed
    qed
  qed
qed

section \<open>Logging in\<close>

definition credentials :: "argon2 \<Rightarrow> string \<Rightarrow> string \<Rightarrow> tables \<Rightarrow> app_error + user" where
  "credentials A username0 password t =
     (case normalize_username username0 of Inl e \<Rightarrow> Inl e | Inr n \<Rightarrow>
      case List.find (\<lambda>u. u_username u = n) (t_users t) of
        None \<Rightarrow> Inl Unauthorized
      | Some row \<Rightarrow> case verify_password A password (u_password_hash row) of
            Inl e \<Rightarrow> Inl (Internal e)
          | Inr matches \<Rightarrow> if \<not> matches then Inl Unauthorized
              else case user_of t (u_id row) of
                  None \<Rightarrow> Inl (Internal ''User found by hash but not by ID'')
                | Some u \<Rightarrow> if u_is_active u then Inr u else Inl Unauthorized)"

definition login_check :: "argon2 \<Rightarrow> string \<Rightarrow> string \<Rightarrow> ('z, user) svc" where
  "login_check A username0 password =
     bind (lift (normalize_username username0)) (\<lambda>username.
     bind (get_password_hash username) (\<lambda>found. case found of
         None \<Rightarrow> bind timing_safe_delay (\<lambda>_. throw Unauthorized)
       | Some (user_id, stored_hash) \<Rightarrow>
           bind (lift (case verify_password A password stored_hash of Inl e \<Rightarrow> Inl (Internal e) | Inr v \<Rightarrow> Inr v)) (\<lambda>is_valid.
           bind (reject_if (\<not> is_valid) Unauthorized) (\<lambda>_.
           bind (user_find_by_id user_id) (\<lambda>found_user.
           bind (ok_or (Internal ''User found by hash but not by ID'') found_user) (\<lambda>user.
           bind (reject_if (\<not> u_is_active user) Unauthorized) (\<lambda>_. ret user)))))))"

lemma reads_hash: "reads (\<lambda>t. Inr (map_option (\<lambda>u. (u_id u, u_password_hash u)) (List.find (\<lambda>u. u_username u = n) (t_users t)))) (get_password_hash n)"
  unfolding get_password_hash_def by (rule reads_select)

lemma reads_case_option:
  "reads f m \<Longrightarrow> (\<And>x. reads (g x) (k x)) \<Longrightarrow> reads (case r of None \<Rightarrow> f | Some x \<Rightarrow> g x) (case r of None \<Rightarrow> m | Some x \<Rightarrow> k x)"
  by (simp split: option.splits)

lemma reads_case_prod: "(\<And>a b. reads (g a b) (k a b)) \<Longrightarrow> reads (case r of (a, b) \<Rightarrow> g a b) (case r of (a, b) \<Rightarrow> k a b)"
  by (simp split: prod.splits)

lemma reads_login_check: "reads (credentials A n p) (login_check A n p)"
  unfolding login_check_def timing_safe_delay_def
  by (rule reads_eq, (rule reads_hash reads_user reads_case_option reads_case_prod reads_rules)+)
    (auto simp: fun_eq_iff then_read_def credentials_def split: option.splits sum.splits)

definition open_session :: "ext \<Rightarrow> crypto \<Rightarrow> tools \<Rightarrow> app_config \<Rightarrow> user \<Rightarrow> ('z, login_result) svc" where
  "open_session E C T config user =
     bind (generate_session_token T) (\<lambda>raw_token.
     bind (gets clock) (\<lambda>now.
     bind (sqlx (session_create (u_id user) (hash_token E C raw_token) (now + 3600 * as_i64 (session_expiry_hours config)))) (\<lambda>_.
     ret \<lparr>lr_token = raw_token, lr_setup_complete = u_setup_complete user, lr_user = user\<rparr>)))"

lemma map_err_lift: "map_err f (lift r) = lift (case r of Inl e \<Rightarrow> Inl (f e) | Inr x \<Rightarrow> Inr x)"
  by (rule ext) (simp add: map_err_def split: sum.splits)

lemma login_split: "login E C T A config n p = bind (login_check A n p) (open_session E C T config)"
  unfolding login_def login_check_def open_session_def Let_def bind_assoc map_err_lift
  by (intro arg_cong2 [where f = bind] refl ext) (auto simp: bind_assoc split: option.splits)

definition session_row :: "ext \<Rightarrow> crypto \<Rightarrow> string \<Rightarrow> string \<Rightarrow> string \<Rightarrow> string \<Rightarrow> string \<Rightarrow> session" where
  "session_row E C i uid token expires now = \<lparr>se_id = i, se_user_id = uid, se_token_hash = hash_token E C token,
     se_expires_at = expires, se_created_at = now\<rparr>"

definition session_end :: "app_config \<Rightarrow> 'z os_scheme \<Rightarrow> int" where
  "session_end config w = clock w + 3600 * as_i64 (session_expiry_hours config)"

definition session_outcome ::
  "ext \<Rightarrow> crypto \<Rightarrow> tools \<Rightarrow> app_config \<Rightarrow> user \<Rightarrow> 'z db_scheme \<Rightarrow> app_error + login_result \<Rightarrow> 'z db_scheme \<Rightarrow>
   byte list \<Rightarrow> string \<Rightarrow> string \<Rightarrow> bool"
where
  "session_outcome E C T config u w r w' bytes i now = (length bytes = 32 \<and>
    (let tok = url64_encode T bytes; s = session_row E C i (u_id u) tok (datetime_text w (session_end config w)) now in
     case r of
       Inl e \<Rightarrow> tb w' = tb w \<and> (\<not> calm w \<or> (\<exists>x. insert_session s (tb w) = Inl x \<and> e = Sqlx x))
     | Inr lr \<Rightarrow> lr = \<lparr>lr_token = tok, lr_setup_complete = u_setup_complete u, lr_user = u\<rparr> \<and>
         insert_session s (tb w) = Inr (s, with_session s (tb w)) \<and> tb w' = with_session s (tb w)))"

lemma open_session_run:
  assumes run: "open_session E C T config u w = (r, w')"
  shows "\<exists>bytes i now. session_outcome E C T config u w r w' bytes i now"
proof -
  define bytes where "bytes = map (\<lambda>i. rng w (rng_pos w + i)) [0..<32]"
  define s where "s = session_row E C (uuids w (uuid_pos w)) (u_id u) (url64_encode T bytes)
    (datetime_text w (session_end config w)) (datetime_text w (clock w))"
  have ins: "insert_session s (tb w) = (case insert_session s (tb w) of Inl e \<Rightarrow> Inl e | Inr x \<Rightarrow> Inr (s, with_session s (tb w)))"
    by (simp add: insert_session_def with_session_def)
  have "length bytes = 32" by (simp add: bytes_def)
  moreover have "let tok = url64_encode T bytes in case r of
       Inl e \<Rightarrow> tb w' = tb w \<and> (\<not> calm w \<or> (\<exists>x. insert_session s (tb w) = Inl x \<and> e = Sqlx x))
     | Inr lr \<Rightarrow> lr = \<lparr>lr_token = tok, lr_setup_complete = u_setup_complete u, lr_user = u\<rparr> \<and>
         insert_session s (tb w) = Inr (s, with_session s (tb w)) \<and> tb w' = with_session s (tb w)"
    using run ins
    by (auto simp: open_session_def generate_session_token_def fill_bytes_def bind_def session_create_def new_uuid_def
      sqlx_def map_err_def exec_returning_def bytes_def [symmetric] session_end_def [symmetric]
      s_def [unfolded session_row_def, symmetric] tick_def calm_def split: option.splits sum.splits)
  ultimately have out: "session_outcome E C T config u w r w' bytes (uuids w (uuid_pos w)) (datetime_text w (clock w))"
    unfolding session_outcome_def s_def by (simp add: Let_def)
  show ?thesis by (rule exI, rule exI, rule exI, rule out)
qed

lemma user_of_ids: "user_of t i = Some u \<Longrightarrow> i \<in> user_ids t"
proof -
  assume "user_of t i = Some u"
  then obtain v where "List.find (\<lambda>u. u_id u = i) (t_users t) = Some v" by (auto simp: user_of_def)
  from find_Some_mem [OF this] show ?thesis unfolding user_ids_def by (auto intro: rev_image_eqI)
qed

lemma credentials_user:
  assumes "credentials A n p t = Inr u"
  shows "user_of t (u_id u) = Some u \<and> u_is_active u"
proof -
  from assms obtain i where u: "user_of t i = Some u" and act: "u_is_active u"
    by (auto simp: credentials_def split: sum.splits option.splits if_splits)
  then obtain v where v: "List.find (\<lambda>u. u_id u = i) (t_users t) = Some v" "u = user.truncate v" by (auto simp: user_of_def)
  then have "u_id u = i" using find_Some_mem [OF v(1)] by (simp add: user.truncate_def)
  with u act show ?thesis by simp
qed

text \<open>A login that fails although the credentials are right has drawn an identifier or a token twice.\<close>

definition drawn_twice :: "tables \<Rightarrow> app_error \<Rightarrow> bool" where
  "drawn_twice t e = (t_sessions t \<noteq> [] \<and> (e = Sqlx (unique_failed ''sessions.id'') \<or> e = Sqlx (unique_failed ''sessions.token_hash'')))"

lemma login_run:
  assumes run: "login E C T A config n p w = (r, w')"
  shows "case r of
      Inl e \<Rightarrow> tb w' = tb w \<and> (credentials A n p (tb w) = Inl e \<or> \<not> calm w \<or> \<not> isl (credentials A n p (tb w)) \<and> drawn_twice (tb w) e)
    | Inr lr \<Rightarrow> credentials A n p (tb w) = Inr (lr_user lr) \<and>
        lr_setup_complete lr = u_setup_complete (lr_user lr) \<and>
        (\<exists>bytes i now. length bytes = 32 \<and> lr_token lr = url64_encode T bytes \<and>
          (let s = session_row E C i (u_id (lr_user lr)) (lr_token lr) (datetime_text w (session_end config w)) now in
           insert_session s (tb w) = Inr (s, with_session s (tb w)) \<and> tb w' = with_session s (tb w)))"
proof -
  obtain y w1 where check: "login_check A n p w = (y, w1)" by fastforce
  note c = reads_run [OF reads_login_check check]
  have same: "tb w1 = tb w" "calm w1 = calm w" "session_end config w1 = session_end config w" "datetime_text w1 = datetime_text w"
    using c(1) by (simp_all add: same_world_def calm_def session_end_def)
  show ?thesis
  proof (cases y)
    case (Inl e)
    then have "r = Inl e" "w' = w1" using run check by (simp_all add: login_split bind_def)
    then show ?thesis using c(2) Inl same by auto
  next
    case (Inr u)
    then have "open_session E C T config u w1 = (r, w')" using run check by (simp add: login_split bind_def)
    from open_session_run [OF this] obtain bytes i now where "session_outcome E C T config u w1 r w' bytes i now" by blast
    note out = this [unfolded session_outcome_def same]
    have u: "credentials A n p (tb w) = Inr u" using c(2) Inr by auto
    then have known: "u_id u \<in> user_ids (tb w)" using credentials_user [OF u] user_of_ids by blast
    have "drawn_twice (tb w) e" if "insert_session s (tb w) = Inl x" "e = Sqlx x" "se_user_id s = u_id u" for s x e
      using that known by (auto simp: insert_session_def drawn_twice_def split: if_splits)
    with out u show ?thesis by (cases r) (auto simp: Let_def session_row_def)
  qed
qed

section \<open>The life of a session\<close>

text \<open>The text of a time is ordered like the time within the four-digit years.\<close>

definition in_years :: "int \<Rightarrow> bool" where
  "in_years n = (0 \<le> n \<and> n < 253402300800)"

definition calendar_ok :: "'z db_scheme \<Rightarrow> bool" where
  "calendar_ok w = (\<forall>m n. in_years m \<and> in_years n \<longrightarrow> parse_datetime w (datetime_text w m) = Some m \<and>
     (datetime_text w m \<le> datetime_text w n \<longrightarrow> m \<le> n))"

text \<open>An account is never renamed, demoted or deactivated.\<close>

definition same_account :: "user \<Rightarrow> user \<Rightarrow> bool" where
  "same_account u v = (u_id v = u_id u \<and> u_username v = u_username u \<and> u_email v = u_email u \<and> u_role v = u_role u \<and>
     u_is_active v = u_is_active u \<and> (u_setup_complete u \<longrightarrow> u_setup_complete v))"

definition users_kept :: "tables \<Rightarrow> tables \<Rightarrow> bool" where
  "users_kept t t' = (\<forall>i u. user_of t i = Some u \<longrightarrow> (\<exists>v. user_of t' i = Some v \<and> same_account u v))"

lemma users_kept_refl [simp]: "users_kept t t"
  by (auto simp: users_kept_def same_account_def)

lemma users_kept_same: "t_users t' = t_users t \<Longrightarrow> users_kept t t'"
  by (auto simp: users_kept_def same_account_def user_of_def)

lemma users_kept_trans: "users_kept t t1 \<Longrightarrow> users_kept t1 t2 \<Longrightarrow> users_kept t t2"
  unfolding users_kept_def same_account_def by metis

text \<open>What the steps of other requests may do around the session of the token hash \<open>h\<close>.\<close>

definition life :: "string \<Rightarrow> 'z db_scheme \<Rightarrow> 'z db_scheme \<Rightarrow> bool" where
  "life h w w' = (tables_ok (tb w) \<longrightarrow> tables_ok (tb w') \<and> same_env w w' \<and> users_kept (tb w) (tb w') \<and>
     (\<forall>s. session_of (tb w) h = Some s \<and> \<not> expired w s \<longrightarrow> session_of (tb w') h = Some s) \<and>
     (\<forall>s. session_of (tb w') h = Some s \<longrightarrow> session_of (tb w) h = Some s))"

lemma expired_env: "same_env w w' \<Longrightarrow> expired w' s = expired w s"
  by (simp add: expired_def same_env_def split: option.splits)

interpretation life: frame_rel "life h"
proof
  show "life h w w" for w :: "'z db_scheme" by (simp add: life_def same_env.R_refl)
  fix w1 w2 w3 :: "'z db_scheme"
  assume steps: "life h w1 w2" "life h w2 w3"
  show "life h w1 w3"
  proof (cases "tables_ok (tb w1)")
    case True
    then have 12: "same_env w1 w2" "tables_ok (tb w2)" "users_kept (tb w1) (tb w2)"
        "\<And>s. session_of (tb w1) h = Some s \<Longrightarrow> \<not> expired w1 s \<Longrightarrow> session_of (tb w2) h = Some s"
        "\<And>s. session_of (tb w2) h = Some s \<Longrightarrow> session_of (tb w1) h = Some s"
      using steps(1) unfolding life_def by blast+
    then have 23: "same_env w2 w3" "tables_ok (tb w3)" "users_kept (tb w2) (tb w3)"
        "\<And>s. session_of (tb w2) h = Some s \<Longrightarrow> \<not> expired w2 s \<Longrightarrow> session_of (tb w3) h = Some s"
        "\<And>s. session_of (tb w3) h = Some s \<Longrightarrow> session_of (tb w2) h = Some s"
      using steps(2) 12(2) unfolding life_def by blast+
    have "session_of (tb w3) h = Some s" if "session_of (tb w1) h = Some s" "\<not> expired w1 s" for s
      by (rule 23(4) [OF 12(4) [OF that]]) (simp add: expired_env [OF 12(1)] that)
    then show ?thesis
      using same_env.R_trans [OF 12(1) 23(1)] users_kept_trans [OF 12(3) 23(3)] 23(2) 12(5) 23(5)
      unfolding life_def by blast
  qed (simp add: life_def)
qed

lemma life_same_db: "same_env w w' \<Longrightarrow> tb w' = tb w \<Longrightarrow> life h w w'"
  by (simp add: life_def)

lemma life_os: "keeps (life h) (sqlx (select g))" "keeps (life h) (fill_bytes n)" "keeps (life h) new_uuid"
  by (auto simp: keeps_def same_env_def sqlx_def select_def fill_bytes_def new_uuid_def tick_def
    intro!: life_same_db split: option.splits)

lemma life_exec:
  assumes "\<And>now t n t'. tables_ok t \<Longrightarrow> f now t = Inr (n, t') \<Longrightarrow>
    tables_ok t' \<and> users_kept t t' \<and> t_sessions t' = t_sessions t"
  shows "keeps (life h) (exec f)"
  unfolding keeps_def
proof
  fix w :: "'z db_scheme"
  have env: "same_env w (snd (exec f w))" by (rule same_env_exec(1) [unfolded keeps_def, rule_format])
  show "life h w (snd (exec f w))"
  proof (cases "tb (snd (exec f w)) = tb w")
    case True
    then show ?thesis using env by (intro life_same_db)
  next
    case False
    then obtain n t' where "f (datetime_text w (clock w)) (tb w) = Inr (n, t')" "tb (snd (exec f w)) = t'"
      by (auto simp: exec_def tick_def split: option.splits sum.splits)
    then show ?thesis using env assms by (simp add: life_def session_of_def)
  qed
qed

lemma find_session: "tables_ok t \<Longrightarrow> r \<in> set (t_sessions t) \<Longrightarrow> session_of t (se_token_hash r) = Some r"
  by (simp add: session_of_def tables_ok_defs find_by_key)

lemma session_of_mem: "session_of t h = Some s \<Longrightarrow> s \<in> set (t_sessions t) \<and> se_token_hash s = h"
  using find_Some_mem unfolding session_of_def by fastforce

lemma without_sessions_ok: "tables_ok t \<Longrightarrow> tables_ok (without_sessions P t)"
  by (auto simp: tables_ok_defs without_sessions_def distinct_map_filter_rows)

lemma session_of_without_Some:
  assumes "tables_ok t" "session_of (without_sessions P t) h = Some s"
  shows "session_of t h = Some s"
proof -
  have "s \<in> set (t_sessions t)" "se_token_hash s = h"
    using session_of_mem [OF assms(2)] by (auto simp: without_sessions_def)
  then show ?thesis using find_session [OF assms(1)] by auto
qed

lemma life_without:
  assumes "same_env w w'" "tb w' = without_sessions P (tb w)"
    and "\<And>s. tables_ok (tb w) \<Longrightarrow> session_of (tb w) h = Some s \<Longrightarrow> \<not> expired w s \<Longrightarrow> \<not> P s"
  shows "life h w w'"
proof -
  have "session_of (tb w') h = Some s" if "tables_ok (tb w)" "session_of (tb w) h = Some s" "\<not> expired w s" for s
  proof -
    have "session_of (without_sessions P (tb w)) h = session_of (tb w) h"
      using assms(3) [OF that] that by (intro session_of_without) (auto simp: tables_ok_defs)
    then show ?thesis using assms(2) that by simp
  qed
  moreover have "users_kept (tb w) (tb w')" using assms(2) by (simp add: users_kept_same without_sessions_def)
  moreover have "tables_ok (tb w')" "session_of (tb w') h = Some s \<Longrightarrow> session_of (tb w) h = Some s"
    if "tables_ok (tb w)" for s
    using assms(2) without_sessions_ok [OF that] session_of_without_Some [OF that] by simp_all
  ultimately show ?thesis using assms(1) unfolding life_def by blast
qed

lemma life_delete_sessions:
  assumes "delete_sessions P w = (r, w')"
    and "\<And>s. tables_ok (tb w) \<Longrightarrow> session_of (tb w) h = Some s \<Longrightarrow> \<not> expired w s \<Longrightarrow> \<not> P s"
  shows "life h w w'"
proof (cases "tb w' = tb w")
  case True
  then show ?thesis using delete_sessions_run [OF assms(1)] by (intro life_same_db) simp_all
next
  case False
  then have "same_env w w'" "tb w' = without_sessions P (tb w)" using delete_sessions_run [OF assms(1)] by auto
  then show ?thesis by (rule life_without) (rule assms(2))
qed

lemma user_of_with: "user_of (with_user u t) i = (case user_of t i of None \<Rightarrow> if u_id u = i then Some (user.truncate u) else None | Some v \<Rightarrow> Some v)"
  by (simp add: user_of_def with_user_def find_snoc split: option.splits)

lemma insert_user_life: "insert_user i params now t = Inr (n, t') \<Longrightarrow> users_kept t t' \<and> t_sessions t' = t_sessions t"
  by (auto simp: insert_user_def users_kept_def user_of_def find_snoc same_account_def split: if_splits)

lemma user_of_update:
  "(\<And>u. u_id (f u) = u_id u) \<Longrightarrow> user_of (t\<lparr>t_users := update_where P f (t_users t)\<rparr>) i =
     map_option user.truncate (map_option (\<lambda>u. if P u then f u else u) (List.find (\<lambda>u. u_id u = i) (t_users t)))"
proof -
  assume f: "\<And>u. u_id (f u) = u_id u"
  have "List.find (\<lambda>u. u_id u = i) (update_where P f rows) =
    map_option (\<lambda>u. if P u then f u else u) (List.find (\<lambda>u. u_id u = i) rows)" for rows
    by (induction rows) (auto simp: update_where_def f)
  then show ?thesis by (simp add: user_of_def)
qed

definition setup_mark :: "string \<Rightarrow> string \<Rightarrow> user_row \<Rightarrow> user_row" where
  "setup_mark uid now u = (if u_id u = uid then u\<lparr>u_setup_complete := True, u_updated_at := now\<rparr> else u)"

lemma setup_mark_account: "same_account (user.truncate u) (user.truncate (setup_mark uid now u))"
  by (simp add: setup_mark_def same_account_def user.truncate_def)

lemma mark_setup_life: "users_kept t (t\<lparr>t_users := update_where (\<lambda>u. u_id u = uid)
    (\<lambda>u. u\<lparr>u_setup_complete := True, u_updated_at := now\<rparr>) (t_users t)\<rparr>)"
  (is "users_kept t ?t")
proof -
  have "user_of ?t i = map_option user.truncate (map_option (setup_mark uid now) (List.find (\<lambda>u. u_id u = i) (t_users t)))" for i
    unfolding setup_mark_def by (rule user_of_update) simp
  then show ?thesis using setup_mark_account by (auto simp: users_kept_def user_of_def)
qed

lemma life_user_create: "keeps (life h) (user_create params)"
  unfolding user_create_def user_find_by_id_def user_find_by_username_def user_find_by_email_def find_user_def
  by (intro life.keeps_rules life_os life_exec) (blast intro: insert_user_ok dest: insert_user_life)

lemma life_register: "keeps (life h) (register A config n e p)"
  unfolding register_def hash_password_def is_first_user_def Let_def
  by (intro life.keeps_rules life_os life_user_create)

lemma life_mark_setup: "keeps (life h) (mark_setup_complete uid)"
  unfolding mark_setup_complete_def
  by (intro life.keeps_rules keeps_sqlx life_exec) (auto intro: update_users_ok mark_setup_life)

lemma session_has_user: "tables_ok t \<Longrightarrow> s \<in> set (t_sessions t) \<Longrightarrow> user_of t (se_user_id s) \<noteq> None"
proof -
  assume "tables_ok t" "s \<in> set (t_sessions t)"
  then have "se_user_id s \<in> u_id ` set (t_users t)" by (auto simp: tables_ok_def sessions_ok_def user_ids_def)
  then show ?thesis using find_some_iff [of "\<lambda>u. u_id u = se_user_id s" "t_users t"] by (auto simp: user_of_def)
qed

lemma life_token_user:
  assumes run: "token_user E C tok w = (r, w')"
  shows "life h w w'"
proof -
  have env: "same_env w w'" by (rule keepsD [OF same_env_auth(4) run])
  show ?thesis
  proof (cases "tb w' = tb w")
    case True
    then show ?thesis by (rule life_same_db [OF env])
  next
    case False
    then have "tb w' = without_sessions (dead_session E C w tok) (tb w)"
      using token_user_run [OF run] by (auto simp: drop_dead_def)
    then show ?thesis
    proof (rule life_without [OF env])
      fix s assume s: "tables_ok (tb w)" "session_of (tb w) h = Some s" "\<not> expired w s"
      show "\<not> dead_session E C w tok s"
      proof
        assume "dead_session E C w tok s"
        then obtain r where r: "session_of (tb w) (hash_token E C tok) = Some r" "se_id s = se_id r"
            "expired w r \<or> user_of (tb w) (se_user_id r) = None"
          by (auto simp: dead_session_def split: option.splits)
        have mem: "s \<in> set (t_sessions (tb w))" "r \<in> set (t_sessions (tb w))"
          using session_of_mem [OF s(2)] session_of_mem [OF r(1)] by auto
        then have "r = s" using key_unique [of se_id "t_sessions (tb w)" r s] r(2) s(1) by (simp add: tables_ok_defs)
        moreover have "user_of (tb w) (se_user_id s) \<noteq> None"
          using session_has_user [OF s(1) mem(1)] .
        ultimately show False using r(3) s(3) by auto
      qed
    qed
  qed
qed

lemma life_login:
  assumes run: "login E C T A config n p w = (r, w')"
    and other: "\<And>lr. r = Inr lr \<Longrightarrow> hash_token E C (lr_token lr) \<noteq> h"
  shows "life h w w'"
proof -
  have env: "same_env w w'" by (rule keepsD [OF same_env_auth(2) run])
  show ?thesis
  proof (cases r)
    case (Inl e)
    then show ?thesis using login_run [OF run] by (simp add: life_same_db [OF env])
  next
    case (Inr lr)
    then obtain s where s: "insert_session s (tb w) = Inr (s, with_session s (tb w))" "tb w' = with_session s (tb w)"
        "se_token_hash s = hash_token E C (lr_token lr)"
      using login_run [OF run] by (auto simp: Let_def session_row_def)
    then have "tables_ok (tb w) \<Longrightarrow> tables_ok (tb w')"
      by (auto simp: insert_session_def with_session_def tables_ok_defs split: if_splits)
    moreover have "session_of (tb w') h = session_of (tb w) h"
      using s(2,3) other [OF Inr] by (simp add: session_of_def with_session_def find_snoc split: option.splits)
    moreover have "users_kept (tb w) (tb w')" using s(2) by (simp add: users_kept_same with_session_def)
    ultimately show ?thesis using env by (simp add: life_def)
  qed
qed

lemma life_logout:
  assumes "logout uid h' w = (r, w')" "h' \<noteq> h"
  shows "life h w w'"
proof -
  obtain x w1 where del: "delete_sessions (\<lambda>r. se_user_id r = uid \<and> se_token_hash r = h') w = (x, w1)" by fastforce
  have "w' = w1" using assms(1) del
    by (auto simp: logout_def delete_by_user_and_token_def sqlx_def map_err_def bind_def split: sum.splits)
  then show ?thesis
    using assms(2) by (auto intro: life_delete_sessions [OF del] dest!: session_of_mem)
qed

text \<open>
  What may happen between two uses of a token with the hash \<open>h\<close>: any requests on accounts and
  sessions, with whatever failures, that neither log this session out nor draw the same random token
  again; the sweep of the background task; other requests, which leave accounts and sessions alone;
  the passage of time.
\<close>

inductive auth_run :: "ext \<Rightarrow> crypto \<Rightarrow> tools \<Rightarrow> argon2 \<Rightarrow> app_config \<Rightarrow> string \<Rightarrow> 'z db_scheme \<Rightarrow> 'z db_scheme \<Rightarrow> bool"
  for E C T A config h w0 where
  started: "auth_run E C T A config h w0 w0"
| registered: "auth_run E C T A config h w0 w \<Longrightarrow> register A config n e p w = (r1, w') \<Longrightarrow> auth_run E C T A config h w0 w'"
| logged_in: "auth_run E C T A config h w0 w \<Longrightarrow> login E C T A config n p w = (r2, w') \<Longrightarrow>
    (\<forall>lr. r2 = Inr lr \<longrightarrow> hash_token E C (lr_token lr) \<noteq> h) \<Longrightarrow> auth_run E C T A config h w0 w'"
| checked: "auth_run E C T A config h w0 w \<Longrightarrow> token_user E C tok w = (r3, w') \<Longrightarrow> auth_run E C T A config h w0 w'"
| logged_out: "auth_run E C T A config h w0 w \<Longrightarrow> logout uid h' w = (r4, w') \<Longrightarrow> h' \<noteq> h \<Longrightarrow> auth_run E C T A config h w0 w'"
| set_up: "auth_run E C T A config h w0 w \<Longrightarrow> mark_setup_complete uid w = (r4, w') \<Longrightarrow> auth_run E C T A config h w0 w'"
| swept: "auth_run E C T A config h w0 w \<Longrightarrow> delete_expired w = (r5, w') \<Longrightarrow> auth_run E C T A config h w0 w'"
| other: "auth_run E C T A config h w0 w \<Longrightarrow> same_env w w' \<Longrightarrow> keeps_ok w w' \<Longrightarrow>
    t_users (tb w') = t_users (tb w) \<Longrightarrow> t_sessions (tb w') = t_sessions (tb w) \<Longrightarrow> auth_run E C T A config h w0 w'"
| time: "auth_run E C T A config h w0 w \<Longrightarrow> clock w \<le> now \<Longrightarrow> in_years now \<Longrightarrow> auth_run E C T A config h w0 (w\<lparr>clock := now\<rparr>)"

text \<open>The session \<open>s\<close> with hash \<open>h\<close>, valid until \<open>e\<close>, of the account \<open>u\<close>, on the calendar of \<open>w0\<close>.\<close>

definition session_lives :: "'z db_scheme \<Rightarrow> string \<Rightarrow> session \<Rightarrow> int \<Rightarrow> user \<Rightarrow> 'z db_scheme \<Rightarrow> bool" where
  "session_lives w0 h s e u w = (tables_ok (tb w) \<and> datetime_text w = datetime_text w0 \<and> parse_datetime w = parse_datetime w0 \<and>
     in_years (clock w) \<and> (\<exists>v. user_of (tb w) (u_id u) = Some v \<and> same_account u v) \<and>
     (clock w < e \<longrightarrow> session_of (tb w) h = Some s) \<and> (session_of (tb w) h = None \<or> session_of (tb w) h = Some s))"

lemma expired_at:
  assumes "calendar_ok w0" "parse_datetime w = parse_datetime w0" "in_years e" "se_expires_at s = datetime_text w0 e"
  shows "expired w s \<longleftrightarrow> e \<le> clock w"
  using assms by (simp add: expired_def calendar_ok_def)

lemma lives_life:
  assumes "session_lives w0 h s e u w" "life h w w'" "calendar_ok w0" "in_years e" "se_expires_at s = datetime_text w0 e"
  shows "session_lives w0 h s e u w'"
proof -
  have w: "tables_ok (tb w)" "parse_datetime w = parse_datetime w0" using assms(1) by (simp_all add: session_lives_def)
  then have l: "tables_ok (tb w')" "same_env w w'" "users_kept (tb w) (tb w')"
      "\<And>s. session_of (tb w) h = Some s \<Longrightarrow> \<not> expired w s \<Longrightarrow> session_of (tb w') h = Some s"
      "\<And>s. session_of (tb w') h = Some s \<Longrightarrow> session_of (tb w) h = Some s"
    using assms(2) unfolding life_def by blast+
  obtain v where v: "user_of (tb w) (u_id u) = Some v" "same_account u v" using assms(1) by (auto simp: session_lives_def)
  then obtain v' where "user_of (tb w') (u_id u) = Some v'" "same_account v v'"
    using l(3) unfolding users_kept_def by blast
  then have "\<exists>v. user_of (tb w') (u_id u) = Some v \<and> same_account u v"
    using v(2) by (auto simp: same_account_def)
  moreover have "clock w < e \<longrightarrow> session_of (tb w') h = Some s"
    using l(4) [of s] expired_at [OF assms(3) w(2) assms(4,5)] assms(1) unfolding session_lives_def by auto
  moreover have "session_of (tb w') h = None \<or> session_of (tb w') h = Some s"
    using l(5) assms(1) unfolding session_lives_def by (cases "session_of (tb w') h") auto
  ultimately show ?thesis using assms(1) l(1,2) unfolding session_lives_def same_env_def by simp
qed

lemma life_other:
  "same_env w w' \<Longrightarrow> keeps_ok w w' \<Longrightarrow> t_users (tb w') = t_users (tb w) \<Longrightarrow> t_sessions (tb w') = t_sessions (tb w) \<Longrightarrow> life h w w'"
  by (simp add: life_def keeps_ok_def users_kept_same session_of_def)

lemma life_swept:
  assumes run: "delete_expired w = (r, w')" and lives: "session_lives w0 h s e u w"
    and cal: "calendar_ok w0" and e: "in_years e" "se_expires_at s = datetime_text w0 e"
  shows "life h w w'"
proof (rule life_delete_sessions)
  show "delete_sessions (\<lambda>r. se_expires_at r \<le> datetime_text w (clock w)) w = (r, w')"
    using run by (simp add: delete_expired_def)
  fix x assume "session_of (tb w) h = Some x" "\<not> expired w x"
  moreover have "x = s" using lives calculation(1) by (auto simp: session_lives_def)
  ultimately have x: "x = s" "\<not> e \<le> clock w"
    using lives expired_at [OF cal _ e, of w] by (auto simp: session_lives_def)
  have "in_years (clock w)" "datetime_text w = datetime_text w0" using lives by (simp_all add: session_lives_def)
  then show "\<not> se_expires_at x \<le> datetime_text w (clock w)"
    using cal e x unfolding calendar_ok_def by auto
qed

lemma session_lives_run:
  assumes "auth_run E C T A config h w1 w"
    and "session_lives w0 h s e u w1" "calendar_ok w0" "in_years e" "se_expires_at s = datetime_text w0 e"
  shows "session_lives w0 h s e u w"
  using assms(1)
proof induction
  case started
  show ?case by (rule assms(2))
next
  case (time w now)
  then show ?case by (auto simp: session_lives_def)
next
  case (swept w r5 w')
  show ?case by (rule lives_life [OF swept.IH life_swept [OF swept(2) swept.IH assms(3-5)] assms(3-5)])
next
  case (registered w n e p r1 w')
  show ?case by (rule lives_life [OF registered.IH keepsD [OF life_register registered.hyps(2)] assms(3-5)])
next
  case (logged_in w n p r2 w')
  have "life h w w'" by (rule life_login [OF logged_in.hyps(2)]) (use logged_in.hyps(3) in blast)
  then show ?case by (rule lives_life [OF logged_in.IH _ assms(3-5)])
next
  case (checked w tok r3 w')
  show ?case by (rule lives_life [OF checked.IH life_token_user [OF checked.hyps(2)] assms(3-5)])
next
  case (logged_out w uid h' r4 w')
  show ?case by (rule lives_life [OF logged_out.IH life_logout [OF logged_out.hyps(2,3)] assms(3-5)])
next
  case (set_up w uid r4 w')
  show ?case by (rule lives_life [OF set_up.IH keepsD [OF life_mark_setup set_up.hyps(2)] assms(3-5)])
next
  case (other w w')
  show ?case by (rule lives_life [OF other.IH life_other [OF other.hyps(2-5)] assms(3-5)])
qed

section \<open>A login authenticates until it ends\<close>

text \<open>Documented: 32 bytes have a URL-safe form of 43 characters.\<close>

definition tokens_ok :: "tools \<Rightarrow> bool" where
  "tokens_ok T = (\<forall>b. length b = 32 \<longrightarrow> is_valid_token_format (url64_encode T b))"

definition login_session :: "ext \<Rightarrow> crypto \<Rightarrow> app_config \<Rightarrow> 'z db_scheme \<Rightarrow> login_result \<Rightarrow> session \<Rightarrow> bool" where
  "login_session E C config w lr s = (se_user_id s = u_id (lr_user lr) \<and> se_token_hash s = hash_token E C (lr_token lr) \<and>
     se_expires_at s = datetime_text w (session_end config w))"

lemma login_starts:
  assumes run: "login E C T A config n p w0 = (Inr lr, w1)"
    and ok: "tables_ok (tb w0)" "calendar_ok w0" "in_years (clock w0)" "tokens_ok T"
  obtains s where "login_session E C config w0 lr s" "is_valid_token_format (lr_token lr)"
    "session_lives w0 (hash_token E C (lr_token lr)) s (session_end config w0) (lr_user lr) w1"
    "u_is_active (lr_user lr)"
proof -
  let ?h = "hash_token E C (lr_token lr)"
  note l = login_run [OF run, simplified]
  then obtain bytes i now where b: "length bytes = 32" "lr_token lr = url64_encode T bytes"
    and s: "let s = session_row E C i (u_id (lr_user lr)) (lr_token lr) (datetime_text w0 (session_end config w0)) now in
           insert_session s (tb w0) = Inr (s, with_session s (tb w0)) \<and> tb w1 = with_session s (tb w0)" by blast
  define s where "s = session_row E C i (u_id (lr_user lr)) (lr_token lr) (datetime_text w0 (session_end config w0)) now"
  have ins: "insert_session s (tb w0) = Inr (s, with_session s (tb w0))" "tb w1 = with_session s (tb w0)"
    using s by (simp_all add: s_def Let_def)
  have sh: "se_token_hash s = ?h" by (simp add: s_def session_row_def)
  have u: "user_of (tb w0) (u_id (lr_user lr)) = Some (lr_user lr)" "u_is_active (lr_user lr)"
    using l credentials_user by blast+
  have env: "same_env w0 w1" by (rule keepsD [OF same_env_auth(2) run])
  have "session_of (tb w0) ?h = None"
    using ins(1) sh session_of_mem [of "tb w0" ?h]
    by (cases "session_of (tb w0) ?h") (auto simp: insert_session_def rev_image_eqI split: if_splits)
  then have "session_of (tb w1) ?h = Some s" using ins(2) sh by (simp add: session_of_def with_session_def find_snoc)
  moreover have "tables_ok (tb w1)" using ins ok(1) by (auto simp: insert_session_def with_session_def tables_ok_defs split: if_splits)
  moreover have "user_of (tb w1) (u_id (lr_user lr)) = Some (lr_user lr)"
    using u(1) ins(2) by (simp add: user_of_def with_session_def)
  ultimately have "session_lives w0 ?h s (session_end config w0) (lr_user lr) w1"
    using env ok(3) by (auto simp: session_lives_def same_env_def same_account_def)
  moreover have "login_session E C config w0 lr s" by (simp add: s_def login_session_def session_row_def)
  ultimately show thesis using that b ok(4) u(2) by (simp add: tokens_ok_def)
qed

text \<open>
  C31. A login gives a token with which requests are authenticated as the account that logged in -
  in an \<open>Authorization\<close> header or in the session cookie - from then until the configured hours have
  passed, whatever other requests, failures and sweeps happen in between; from the second of its
  expiry on the token is refused.
\<close>

theorem login_token_authenticates:
  fixes w0 :: "'z db_scheme"
  assumes ok: "tables_ok (tb w0)" "calendar_ok w0" "in_years (clock w0)" "in_years (session_end config w0)" "tokens_ok T"
    and login: "login E C T A config n p w0 = (Inr lr, w1)"
    and run: "auth_run E C T A config (hash_token E C (lr_token lr)) w1 w"
    and rq: "get_header rq ''Authorization'' = Some (''Bearer '' @ lr_token lr) \<and> authenticated_user E C rq w = (r, w') \<or>
      get_cookie rq COOKIE_NAME = Some (lr_token lr) \<and> session_user E C rq w = (r, w')"
  shows "if clock w < session_end config w0
    then \<exists>u. user_of (tb w) (u_id (lr_user lr)) = Some u \<and> same_account (lr_user lr) u \<and> (r = Inr u \<or> \<not> calm w \<and> isl r)
    else isl r"
proof -
  let ?h = "hash_token E C (lr_token lr)"
  obtain s where s: "login_session E C config w0 lr s" "is_valid_token_format (lr_token lr)"
    "session_lives w0 ?h s (session_end config w0) (lr_user lr) w1" "u_is_active (lr_user lr)"
    using login_starts [OF login ok(1-3,5)] by blast
  have e: "se_expires_at s = datetime_text w0 (session_end config w0)" "se_user_id s = u_id (lr_user lr)"
    using s(1) by (simp_all add: login_session_def)
  have lives: "session_lives w0 ?h s (session_end config w0) (lr_user lr) w"
    by (rule session_lives_run [OF run s(3) ok(2,4) e(1)])
  have "token_user E C (lr_token lr) w = (r, w')"
    using rq
  proof
    assume "get_header rq ''Authorization'' = Some (''Bearer '' @ lr_token lr) \<and> authenticated_user E C rq w = (r, w')"
    then show ?thesis using extract_bearer [of rq, OF _ s(2)] by (simp add: authenticated_user_def)
  next
    assume "get_cookie rq COOKIE_NAME = Some (lr_token lr) \<and> session_user E C rq w = (r, w')"
    then show ?thesis using extract_cookie [of rq, OF _ s(2)] by (simp add: session_user_def)
  qed
  then have r: "r = token_owner E C w (lr_token lr) \<or> \<not> calm w \<and> isl r" using token_user_run by blast
  obtain v where v: "user_of (tb w) (u_id (lr_user lr)) = Some v" "same_account (lr_user lr) v"
    using lives by (auto simp: session_lives_def)
  have x: "expired w s \<longleftrightarrow> session_end config w0 \<le> clock w"
    using lives by (intro expired_at [OF ok(2) _ ok(4) e(1)]) (simp add: session_lives_def)
  show ?thesis
  proof (cases "clock w < session_end config w0")
    case True
    then have "session_of (tb w) ?h = Some s" using lives by (simp add: session_lives_def)
    then have "token_owner E C w (lr_token lr) = Inr v"
      using x True s(2,4) v e(2) by (simp add: token_owner_def same_account_def)
    then show ?thesis using True v r by auto
  next
    case False
    then have "isl (token_owner E C w (lr_token lr))"
      using x lives by (auto simp: token_owner_def session_lives_def)
    then show ?thesis using False r by auto
  qed
qed

end
