(* ===== verification/Access.thy ===== *)
theory Access
  imports AuthFacts
begin

text \<open>
  What the guards let through: a logged-out token never, the others as the account and the
  permission they stand for; the protection against forged forms; and the accounts themselves.
\<close>

section \<open>Logging out\<close>

lemma logout_run:
  "logout uid h w = (r, w') \<Longrightarrow> same_env w w' \<and>
     (r = Inr () \<and> tb w' = without_sessions (\<lambda>s. se_user_id s = uid \<and> se_token_hash s = h) (tb w) \<or> \<not> calm w \<and> isl r \<and> tb w' = tb w)"
  by (auto simp: logout_def delete_by_user_and_token_def delete_sessions_def sqlx_def map_err_def bind_def exec_def
    same_env_def without_sessions_def calm_def tick_def split: option.splits)

lemma no_session_run:
  assumes "auth_run E C T A config h w0 w" "tables_ok (tb w0)" "session_of (tb w0) h = None"
  shows "tables_ok (tb w) \<and> session_of (tb w) h = None"
  using assms(1)
proof induction
  case started
  show ?case using assms(2,3) by simp
next
  case (swept w r5 w')
  then have "delete_sessions (\<lambda>r. se_expires_at r \<le> datetime_text w (clock w)) w = (r5, w')" by (simp add: delete_expired_def)
  note d = delete_sessions_run [OF this]
  have "session_of (without_sessions P (tb w)) h = None" for P
    using session_of_without_Some [of "tb w" P h] swept.IH by (cases "session_of (without_sessions P (tb w)) h") auto
  then show ?case using d swept.IH by (auto simp: without_sessions_ok)
next
  case (time w now)
  then show ?case by simp
qed (metis life_def life_login life_token_user life_logout life_other keepsD life_register life_mark_setup not_None_eq)+

text \<open>
  C32. Once its account has logged a token out, no request with it is authenticated, by header or
  by cookie, whatever happens afterwards; a logout that fails changes nothing, and one with another
  account's identifier leaves the session as it is.
\<close>

theorem logout_ends_session:
  fixes w0 :: "'z db_scheme"
  assumes ok: "tables_ok (tb w0)" and out: "logout uid (hash_token E C tok) w0 = (r0, w1)"
  shows "(isl r0 \<longrightarrow> tb w1 = tb w0) \<and>
    (\<forall>s. session_of (tb w0) (hash_token E C tok) = Some s \<and> se_user_id s \<noteq> uid \<longrightarrow> session_of (tb w1) (hash_token E C tok) = Some s) \<and>
    ((\<forall>s. session_of (tb w0) (hash_token E C tok) = Some s \<longrightarrow> se_user_id s = uid) \<and> r0 = Inr () \<longrightarrow>
       (\<forall>w rq r w'. auth_run E C T A config (hash_token E C tok) w1 w \<and>
          (extract_bearer_token rq = Some tok \<and> authenticated_user E C rq w = (r, w') \<or>
           extract_cookie_token rq = Some tok \<and> session_user E C rq w = (r, w')) \<longrightarrow> isl r))"
proof (intro conjI impI allI; (elim conjE)?)
  let ?h = "hash_token E C tok" and ?P = "\<lambda>s. se_user_id s = uid \<and> se_token_hash s = hash_token E C tok"
  note l = logout_run [OF out]
  show "isl r0 \<Longrightarrow> tb w1 = tb w0" using l by auto
  fix s assume "session_of (tb w0) ?h = Some s" "se_user_id s \<noteq> uid"
  then have "session_of (without_sessions ?P (tb w0)) ?h = Some s"
    using ok session_of_without [of ?h ?P "tb w0"] by (auto simp: tables_ok_defs)
  then show "session_of (tb w1) ?h = Some s" using l \<open>session_of (tb w0) ?h = Some s\<close> by auto
next
  let ?h = "hash_token E C tok" and ?P = "\<lambda>s. se_user_id s = uid \<and> se_token_hash s = hash_token E C tok"
  fix w w' :: "'z db_scheme" and rq r
  assume mine: "\<forall>s. session_of (tb w0) ?h = Some s \<longrightarrow> se_user_id s = uid" and "r0 = Inr ()"
    and run: "auth_run E C T A config ?h w1 w"
    and ask: "extract_bearer_token rq = Some tok \<and> authenticated_user E C rq w = (r, w') \<or>
           extract_cookie_token rq = Some tok \<and> session_user E C rq w = (r, w')"
  then have w1: "tb w1 = without_sessions ?P (tb w0)" using logout_run [OF out] by auto
  have "session_of (tb w1) ?h \<noteq> Some s" for s
  proof
    assume s: "session_of (tb w1) ?h = Some s"
    then have "session_of (tb w0) ?h = Some s" "s \<in> set (t_sessions (tb w1))" "se_token_hash s = ?h"
      using session_of_without_Some [OF ok, of ?P ?h s] session_of_mem [OF s] w1 by simp_all
    then show False using mine w1 by (simp add: without_sessions_def)
  qed
  then have "session_of (tb w1) ?h = None" by (cases "session_of (tb w1) ?h") auto
  then have "session_of (tb w) ?h = None"
    using no_session_run [OF run] w1 without_sessions_ok [OF ok] by simp
  then have "isl (token_owner E C w tok)" by (simp add: token_owner_def)
  moreover have "token_user E C tok w = (r, w')" using ask by (auto simp: authenticated_user_def session_user_def)
  ultimately show "isl r" using token_user_run by blast
qed

section \<open>The guards\<close>

definition caller :: "ext \<Rightarrow> crypto \<Rightarrow> 'z db_scheme \<Rightarrow> string option \<Rightarrow> nat \<times> app_error + user" where
  "caller E C w token = (case token of None \<Rightarrow> Inl (refuse Unauthorized) | Some tok \<Rightarrow> token_owner E C w tok)"

text \<open>\<open>decides f m\<close>: the guard \<open>m\<close> decides as \<open>f\<close> says, unless the environment makes it refuse; passing changes no table.\<close>

definition decides :: "('z db_scheme \<Rightarrow> nat \<times> app_error + 'a) \<Rightarrow> ('z, 'a) guard \<Rightarrow> bool" where
  "decides f m = (\<forall>w r w'. m w = (r, w') \<longrightarrow> (r = f w \<or> \<not> calm w \<and> isl r) \<and> same_env w w' \<and> (\<not> isl r \<longrightarrow> tb w' = tb w))"

lemma decidesD: "decides f m \<Longrightarrow> m w = (r, w') \<Longrightarrow> (r = f w \<or> \<not> calm w \<and> isl r) \<and> same_env w w' \<and> (\<not> isl r \<longrightarrow> tb w' = tb w)"
  by (auto simp: decides_def)

lemma owner_keeps: "token_owner E C w tok = Inr u \<Longrightarrow> drop_dead E C w tok = tb w"
  by (auto simp: token_owner_def drop_dead_cases split: option.splits if_splits)

lemma decides_token: "decides (\<lambda>w. token_owner E C w tok) (token_user E C tok)"
  unfolding decides_def
proof (intro allI impI)
  fix w w' r assume run: "token_user E C tok w = (r, w')"
  note t = token_user_run [OF run]
  have "tb w' = tb w" if "\<not> isl r"
  proof -
    from that obtain u where "r = Inr u" by (cases r) auto
    then show ?thesis using t owner_keeps [of E C w tok u] by auto
  qed
  then show "(r = token_owner E C w tok \<or> \<not> calm w \<and> isl r) \<and> same_env w w' \<and> (\<not> isl r \<longrightarrow> tb w' = tb w)"
    using t keepsD [OF same_env_auth(4) run] by blast
qed

lemma decides_refuse: "decides (\<lambda>w. Inl e) (throw e)"
  by (simp add: decides_def same_env.R_refl)

lemma decides_caller:
  "decides (\<lambda>w. caller E C w (extract_bearer_token rq)) (authenticated_user E C rq)"
  "decides (\<lambda>w. caller E C w (extract_cookie_token rq)) (session_user E C rq)"
  unfolding authenticated_user_def session_user_def caller_def ok_or_def
  by (auto intro: decides_token decides_refuse split: option.splits)

text \<open>A read of the tables, as a decision.\<close>

lemma decides_reads: "reads f m \<Longrightarrow> decides (\<lambda>w. f (tb w)) m"
  by (auto simp: decides_def same_env_def same_world_def dest: reads_run)

lemma decides_bind:
  assumes m: "decides f m" and k: "\<And>x. decides (\<lambda>w. g x (tb w)) (k x)"
  shows "decides (\<lambda>w. case f w of Inl e \<Rightarrow> Inl e | Inr x \<Rightarrow> g x (tb w)) (bind m k)"
  unfolding decides_def
proof (intro allI impI)
  fix w w' r assume run: "bind m k w = (r, w')"
  obtain y w1 where y: "m w = (y, w1)" by fastforce
  note 1 = decidesD [OF m y]
  show "(r = (case f w of Inl e \<Rightarrow> Inl e | Inr x \<Rightarrow> g x (tb w)) \<or> \<not> calm w \<and> isl r) \<and> same_env w w' \<and> (\<not> isl r \<longrightarrow> tb w' = tb w)"
  proof (cases y)
    case (Inl e)
    then have "r = Inl e" "w' = w1" using run y by (simp_all add: bind_def)
    then show ?thesis using 1 Inl by (cases "f w") auto
  next
    case (Inr x)
    then have "k x w1 = (r, w')" using run y by (simp add: bind_def)
    note 2 = decidesD [OF k this]
    have "tb w1 = tb w" "f w = Inr x" "calm w1 = calm w" using 1 Inr by (auto simp: same_env_def calm_def)
    then show ?thesis using 2 1 same_env.R_trans [of w w1 w'] by auto
  qed
qed

definition setup_caller :: "nat \<times> app_error \<Rightarrow> nat \<times> app_error + user \<Rightarrow> nat \<times> app_error + user" where
  "setup_caller e r = (case r of Inl e' \<Rightarrow> Inl e' | Inr u \<Rightarrow> if u_setup_complete u then Inr u else Inl e)"

definition incomplete :: "nat \<times> app_error" where
  "incomplete = (403, Validation ''Setup is not complete. Please complete library setup first.'')"

definition incomplete_page :: "nat \<times> app_error" where
  "incomplete_page = (403, Validation ''Setup not complete.'')"

lemma decides_eq: "decides f m \<Longrightarrow> (\<And>w. f w = g w) \<Longrightarrow> decides g m"
  by (simp add: decides_def)

lemma reads_after_check: "reads (\<lambda>t. if b then Inl e else Inr x) (bind (reject_if b e) (\<lambda>_. ret x))"
  by (rule reads_eq [OF reads_bind [OF reads_pure(4) reads_pure(1)]]) (auto simp: fun_eq_iff then_read_def)

lemma decides_setup:
  "decides (\<lambda>w. setup_caller incomplete (caller E C w (extract_bearer_token rq))) (setup_complete_user E C rq)"
  "decides (\<lambda>w. setup_caller incomplete_page (caller E C w (extract_cookie_token rq))) (session_setup_complete E C rq)"
  unfolding setup_complete_user_def session_setup_complete_def incomplete_def [symmetric] incomplete_page_def [symmetric]
  by (rule decides_eq [OF decides_bind [OF decides_caller(1) decides_reads [OF reads_after_check]]],
      simp add: setup_caller_def split: sum.splits,
      rule decides_eq [OF decides_bind [OF decides_caller(2) decides_reads [OF reads_after_check]]],
      simp add: setup_caller_def split: sum.splits)

section \<open>Permissions on spaces\<close>

text \<open>What the guard for a level decides about a user: the space of the path, as the user sees it.\<close>

definition space_decision :: "request \<Rightarrow> string \<Rightarrow> 8 word \<Rightarrow> tables \<Rightarrow> nat \<times> app_error + space_with_meta" where
  "space_decision rq uid level t =
     (case extract_space_id rq of
        None \<Rightarrow> Inl (400, Validation ''Missing space ID in request path.'')
      | Some sid \<Rightarrow> case space_view t uid sid of
          None \<Rightarrow> Inl (refuse NotFound)
        | Some m \<Rightarrow> if guard_permission_level (sw_user_permission m) < level then Inl (refuse Forbidden) else Inr m)"

lemma reads_map_err:
  assumes "reads f m"
  shows "reads (\<lambda>t. case f t of Inl e \<Rightarrow> Inl (h e) | Inr x \<Rightarrow> Inr x) (map_err h m)"
  unfolding reads_def
proof
  fix w
  obtain r w' where m: "m w = (r, w')" by fastforce
  note run = reads_run [OF assms m]
  show "same_world w (snd (map_err h m w)) \<and> (fst (map_err h m w) = (case f (tb w) of Inl e \<Rightarrow> Inl (h e) | Inr x \<Rightarrow> Inr x) \<or>
      \<not> calm w \<and> isl (fst (map_err h m w)))"
    using run m by (cases r) (auto simp: map_err_def dest: sym)
qed

lemma reads_check_space: "reads (space_decision rq uid level) (check_space_permission rq uid level)"
  unfolding check_space_permission_def
  by (rule reads_eq, (rule reads_find_for_user reads_map_err reads_rules)+)
    (auto simp: fun_eq_iff then_read_def space_decision_def split: option.splits)

definition space_caller :: "nat \<times> app_error + user \<Rightarrow> request \<Rightarrow> 8 word \<Rightarrow> tables \<Rightarrow> nat \<times> app_error + user \<times> space_with_meta" where
  "space_caller who rq level t = (case who of Inl e \<Rightarrow> Inl e
     | Inr u \<Rightarrow> (case space_decision rq (u_id u) level t of Inl e \<Rightarrow> Inl e | Inr m \<Rightarrow> Inr (u, m)))"

lemma reads_check_pair:
  "reads (\<lambda>t. case space_decision rq (u_id u) level t of Inl e \<Rightarrow> Inl e | Inr m \<Rightarrow> Inr (u, m))
     (bind (check_space_permission rq (u_id u) level) (\<lambda>s. ret (u, s)))"
  by (rule reads_eq [OF reads_bind [OF reads_check_space reads_pure(1)]]) (auto simp: fun_eq_iff then_read_def)

lemma decides_space:
  "decides (\<lambda>w. space_caller (setup_caller incomplete (caller E C w (extract_bearer_token rq))) rq level (tb w)) (space_guard E C rq level)"
  "decides (\<lambda>w. space_caller (setup_caller incomplete_page (caller E C w (extract_cookie_token rq))) rq level (tb w)) (session_space_guard E C rq level)"
  unfolding space_guard_def session_space_guard_def
  by (rule decides_eq [OF decides_bind [OF decides_setup(1) decides_reads [OF reads_check_pair]]],
      simp add: space_caller_def split: sum.splits,
      rule decides_eq [OF decides_bind [OF decides_setup(2) decides_reads [OF reads_check_pair]]],
      simp add: space_caller_def split: sum.splits)

definition level_of :: "permission \<Rightarrow> 8 word" where
  "level_of p = (case p of NoPermission \<Rightarrow> 0 | Read \<Rightarrow> LEVEL_READ | Write \<Rightarrow> LEVEL_WRITE | Admin \<Rightarrow> LEVEL_ADMIN)"

lemma guard_level_label: "guard_permission_level (label q) < level_of p \<longleftrightarrow> q < p"
  by (cases q; cases p) (simp_all add: guard_permission_level_def level_of_def less_permission_def LEVEL_READ_def LEVEL_WRITE_def LEVEL_ADMIN_def)

lemma guard_level_le: "level_of p \<le> guard_permission_level (label q) \<longleftrightarrow> p \<le> q"
  using guard_level_label [of q p] by (simp add: not_less [symmetric])

text \<open>The users the token of a request may stand for.\<close>

definition identified :: "ext \<Rightarrow> crypto \<Rightarrow> 'z db_scheme \<Rightarrow> string option \<Rightarrow> user \<Rightarrow> bool" where
  "identified E C w token u = (\<exists>tok s. token = Some tok \<and> is_valid_token_format tok \<and>
     session_of (tb w) (hash_token E C tok) = Some s \<and> \<not> expired w s \<and>
     user_of (tb w) (se_user_id s) = Some u \<and> u_is_active u)"

lemma caller_iff: "caller E C w token = Inr u \<longleftrightarrow> identified E C w token u"
  by (auto simp: caller_def token_owner_def identified_def split: option.splits if_splits)

lemma space_caller_iff:
  "space_caller (setup_caller e (caller E C w token)) rq (level_of p) (tb w) = Inr (u, m) \<longleftrightarrow>
   identified E C w token u \<and> u_setup_complete u \<and>
   (\<exists>sid q. extract_space_id rq = Some sid \<and> effective (tb w) (u_id u) sid = Some q \<and> p \<le> q \<and> space_view (tb w) (u_id u) sid = Some m)"
proof -
  have "space_decision rq (u_id u) (level_of p) (tb w) = Inr m \<longleftrightarrow>
      (\<exists>sid q. extract_space_id rq = Some sid \<and> effective (tb w) (u_id u) sid = Some q \<and> p \<le> q \<and> space_view (tb w) (u_id u) sid = Some m)"
    by (auto simp: space_decision_def space_view_def guard_level_label guard_level_le split: option.splits if_splits)
  moreover have "setup_caller e (caller E C w token) = Inr u \<longleftrightarrow> identified E C w token u \<and> u_setup_complete u"
    by (auto simp: setup_caller_def caller_iff [symmetric] split: sum.splits if_splits)
  ultimately show ?thesis by (auto simp: space_caller_def split: sum.splits)
qed

definition admits :: "('a \<Rightarrow> bool) \<Rightarrow> nat \<times> app_error + 'a \<Rightarrow> 'z db_scheme \<Rightarrow> bool" where
  "admits P r w = (\<forall>x. (r = Inr x \<longrightarrow> P x) \<and> (calm w \<and> P x \<longrightarrow> r = Inr x))"

lemma decides_admits:
  assumes "decides f m" "m w = (r, w')" "\<And>x. f w = Inr x \<longleftrightarrow> P x"
  shows "admits P r w"
  using decidesD [OF assms(1,2)] by (auto simp: admits_def assms(3) [symmetric])

lemma decides_admin:
  "decides (\<lambda>w. case caller E C w (extract_bearer_token rq) of Inl e \<Rightarrow> Inl e
     | Inr u \<Rightarrow> if \<not> is_admin u then Inl (refuse Forbidden) else Inr u) (admin_user E C rq)"
  unfolding admin_user_def by (rule decides_bind [OF decides_caller(1) decides_reads [OF reads_after_check]])

text \<open>
  C33. A guard lets a request through exactly as the active account whose unexpired session its
  token names - in the header for the API, in the cookie for pages - with setup complete or as an
  administrator where the guard says so; a failing call only makes it refuse. Nothing else in a
  request matters.
\<close>

theorem guards_identify:
  fixes w :: "'z db_scheme"
  shows "(authenticated_user E C rq w = (r, w') \<longrightarrow> admits (identified E C w (extract_bearer_token rq)) r w) \<and>
    (session_user E C rq w = (r, w') \<longrightarrow> admits (identified E C w (extract_cookie_token rq)) r w) \<and>
    (setup_complete_user E C rq w = (r, w') \<longrightarrow>
       admits (\<lambda>u. identified E C w (extract_bearer_token rq) u \<and> u_setup_complete u) r w) \<and>
    (session_setup_complete E C rq w = (r, w') \<longrightarrow>
       admits (\<lambda>u. identified E C w (extract_cookie_token rq) u \<and> u_setup_complete u) r w) \<and>
    (admin_user E C rq w = (r, w') \<longrightarrow>
       admits (\<lambda>u. identified E C w (extract_bearer_token rq) u \<and> is_admin u) r w)"
proof (intro conjI impI)
  assume "authenticated_user E C rq w = (r, w')"
  then show "admits (identified E C w (extract_bearer_token rq)) r w"
    by (rule decides_admits [OF decides_caller(1)]) (rule caller_iff)
next
  assume "session_user E C rq w = (r, w')"
  then show "admits (identified E C w (extract_cookie_token rq)) r w"
    by (rule decides_admits [OF decides_caller(2)]) (rule caller_iff)
next
  assume "setup_complete_user E C rq w = (r, w')"
  then show "admits (\<lambda>u. identified E C w (extract_bearer_token rq) u \<and> u_setup_complete u) r w"
    by (rule decides_admits [OF decides_setup(1)]) (auto simp: setup_caller_def caller_iff [symmetric] split: sum.splits)
next
  assume "session_setup_complete E C rq w = (r, w')"
  then show "admits (\<lambda>u. identified E C w (extract_cookie_token rq) u \<and> u_setup_complete u) r w"
    by (rule decides_admits [OF decides_setup(2)]) (auto simp: setup_caller_def caller_iff [symmetric] split: sum.splits)
next
  assume "admin_user E C rq w = (r, w')"
  then show "admits (\<lambda>u. identified E C w (extract_bearer_token rq) u \<and> is_admin u) r w"
    by (rule decides_admits [OF decides_admin]) (auto simp: caller_iff [symmetric] split: sum.splits)
qed

lemma allowed_iff: "allowed t uid sid p = Inr () \<longleftrightarrow> (\<exists>q. effective t uid sid = Some q \<and> p \<le> q)"
  by (auto simp: allowed_def not_less split: option.splits)

text \<open>
  C34. The guard of a space and the service behind it agree: the guard for a level lets a request
  through exactly when its user is identified, has completed the setup, sees the space its path
  names, and holds the level on it - the permission the service checks again for the same user and
  space.
\<close>

theorem space_guard_matches_service:
  fixes w :: "'z db_scheme"
  assumes run: "space_guard E C rq (level_of p) w = (r, w') \<and> token = extract_bearer_token rq \<or>
    session_space_guard E C rq (level_of p) w = (r, w') \<and> token = extract_cookie_token rq"
  shows "admits (\<lambda>(u, m). identified E C w token u \<and> u_setup_complete u \<and>
      (\<exists>sid. extract_space_id rq = Some sid \<and> space_view (tb w) (u_id u) sid = Some m \<and>
         allowed (tb w) (u_id u) sid p = Inr ())) r w \<and>
    (\<forall>u m sid x w2. r = Inr (u, m) \<and> extract_space_id rq = Some sid \<and>
       require_permission (u_id u) sid (label p) w' = (x, w2) \<longrightarrow> x = Inr () \<or> \<not> calm w)"
proof
  let ?P = "\<lambda>(u, m). identified E C w token u \<and> u_setup_complete u \<and>
      (\<exists>sid. extract_space_id rq = Some sid \<and> space_view (tb w) (u_id u) sid = Some m \<and> allowed (tb w) (u_id u) sid p = Inr ())"
  have iff: "space_caller (setup_caller e (caller E C w token)) rq (level_of p) (tb w) = Inr x \<longleftrightarrow> ?P x" for e x
    using space_caller_iff [of e E C w token rq p "fst x" "snd x"] by (cases x) (auto simp: allowed_iff)
  have g: "admits ?P r w \<and> same_env w w' \<and> (\<not> isl r \<longrightarrow> tb w' = tb w)"
    using run
  proof
    assume "space_guard E C rq (level_of p) w = (r, w') \<and> token = extract_bearer_token rq"
    then have g: "space_guard E C rq (level_of p) w = (r, w')" and t: "token = extract_bearer_token rq" by auto
    have "admits ?P r w" by (rule decides_admits [OF decides_space(1) g]) (simp only: t [symmetric] iff)
    then show ?thesis using decidesD [OF decides_space(1) g] by blast
  next
    assume "session_space_guard E C rq (level_of p) w = (r, w') \<and> token = extract_cookie_token rq"
    then have g: "session_space_guard E C rq (level_of p) w = (r, w')" and t: "token = extract_cookie_token rq" by auto
    have "admits ?P r w" by (rule decides_admits [OF decides_space(2) g]) (simp only: t [symmetric] iff)
    then show ?thesis using decidesD [OF decides_space(2) g] by blast
  qed
  then have d: "admits ?P r w" and same: "\<not> isl r \<longrightarrow> tb w' = tb w" and env: "same_env w w'" by blast+
  show "admits ?P r w" by (rule d)
  show "\<forall>u m sid x w2. r = Inr (u, m) \<and> extract_space_id rq = Some sid \<and>
       require_permission (u_id u) sid (label p) w' = (x, w2) \<longrightarrow> x = Inr () \<or> \<not> calm w"
  proof (intro allI impI; elim conjE)
    fix u m sid x w2
    assume r: "r = Inr (u, m)" and sid: "extract_space_id rq = Some sid" and req: "require_permission (u_id u) sid (label p) w' = (x, w2)"
    have "?P (u, m)" using d r unfolding admits_def by blast
    then have "allowed (tb w) (u_id u) sid p = Inr ()" using sid by auto
    moreover have "x = allowed (tb w') (u_id u) sid p \<or> \<not> calm w' \<and> isl x"
      by (rule reads_run(2) [OF reads_require_permission req])
    moreover have "tb w' = tb w" using same r by simp
    moreover have "calm w' = calm w" using env by (simp add: same_env_def calm_def)
    ultimately show "x = Inr () \<or> \<not> calm w" by auto
  qed
qed

section \<open>Cross-site request forgery\<close>

lemma or_zero_iff: "or a b = (0 :: byte) \<longleftrightarrow> a = 0 \<and> b = 0"
  by (auto simp: bit_eq_iff bit_or_iff)

lemma xor_zero_iff: "xor a b = (0 :: byte) \<longleftrightarrow> a = b"
  by (auto simp: bit_eq_iff bit_xor_iff)

lemma xor_fold: "foldl (\<lambda>diff (x, y). or diff (xor x y)) (d :: byte) (zip a b) = 0 \<longleftrightarrow>
    d = 0 \<and> take (min (length a) (length b)) a = take (min (length a) (length b)) b"
  by (induction a b arbitrary: d rule: list_induct2') (auto simp: or_zero_iff xor_zero_iff)

lemma constant_time_eq: "constant_time_eq a b \<longleftrightarrow> a = b"
  by (auto simp: constant_time_eq_def xor_diff_def xor_fold)

lemma as_bytes_inject: "as_bytes s = as_bytes t \<longleftrightarrow> s = t"
proof -
  have "inj (of_char :: char \<Rightarrow> byte)"
  proof (rule injI)
    fix c d :: char assume "of_char c = (of_char d :: byte)"
    then have "unat (of_char c :: byte) = unat (of_char d :: byte)" by simp
    then have "char_code c = char_code d"
      using unat_of_nat [of "of_char c", where ?'a = 8] unat_of_nat [of "of_char d", where ?'a = 8]
        nat_of_char_less_256 [of c] nat_of_char_less_256 [of d]
      by (simp only: of_nat_of_char char_code_def) simp
    then show "c = d" by (simp add: char_code_def)
  qed
  then show ?thesis unfolding as_bytes_def by (simp add: inj_map_eq_map)
qed

lemma validate_csrf_iff: "validate_csrf rq tok = Inr () \<longleftrightarrow> tok \<noteq> [] \<and> get_cookie rq CSRF_COOKIE = Some tok"
  by (auto simp: validate_csrf_def Let_def constant_time_eq as_bytes_inject split: option.splits)

lemma csrf_xhr_iff:
  "csrf_xhr rq = Inr () \<longleftrightarrow> (\<exists>tok. tok \<noteq> [] \<and> get_header rq ''X-CSRF-Token'' = Some tok \<and> get_cookie rq CSRF_COOKIE = Some tok)"
  by (auto simp: csrf_xhr_def Let_def constant_time_eq as_bytes_inject split: option.splits)

text \<open>
  C35. The comparison that always looks at every byte is equality, so a form is accepted exactly
  when it submits the token of its cookie, and a script request when its header does; a page served
  with the token that \<open>ensure_csrf_token\<close> gave is accepted with it, and the next page keeps it.
\<close>

theorem csrf_accepts_own_token:
  "constant_time_eq a b = (a = b) \<and>
   (validate_csrf rq submitted = Inr () \<longleftrightarrow> submitted \<noteq> [] \<and> get_cookie rq CSRF_COOKIE = Some submitted) \<and>
   (csrf_xhr rq = Inr () \<longleftrightarrow> (\<exists>tok. tok \<noteq> [] \<and> get_header rq ''X-CSRF-Token'' = Some tok \<and> get_cookie rq CSRF_COOKIE = Some tok)) \<and>
   ((\<forall>x. ascii_alphanumeric (alnum x)) \<and> ensure_csrf_token alnum rq w = (Inr (tok, set_cookie), w') \<longrightarrow>
      (let rq' = rq\<lparr>rq_cookies := (case set_cookie of None \<Rightarrow> rq_cookies rq | Some c \<Rightarrow> c # rq_cookies rq)\<rparr>
       in validate_csrf rq' tok = Inr () \<and> ensure_csrf_token alnum rq' w2 = (Inr (tok, None), w2)))"
proof (intro conjI impI)
  show "constant_time_eq a b = (a = b)" by (rule constant_time_eq)
  show "validate_csrf rq submitted = Inr () \<longleftrightarrow> submitted \<noteq> [] \<and> get_cookie rq CSRF_COOKIE = Some submitted"
    by (rule validate_csrf_iff)
  show "csrf_xhr rq = Inr () \<longleftrightarrow> (\<exists>tok. tok \<noteq> [] \<and> get_header rq ''X-CSRF-Token'' = Some tok \<and> get_cookie rq CSRF_COOKIE = Some tok)"
    by (rule csrf_xhr_iff)
  assume ensured: "(\<forall>x. ascii_alphanumeric (alnum x)) \<and> ensure_csrf_token alnum rq w = (Inr (tok, set_cookie), w')"
  define rq' where "rq' = rq\<lparr>rq_cookies := (case set_cookie of None \<Rightarrow> rq_cookies rq | Some c \<Rightarrow> c # rq_cookies rq)\<rparr>"
  have tok: "get_cookie rq' CSRF_COOKIE = Some tok" "length tok = TOKEN_LEN" "list_all ascii_alphanumeric tok"
    using ensured
    by (auto simp: rq'_def ensure_csrf_token_def generate_csrf_token_def fill_bytes_def bind_def get_cookie_def Let_def list_all_iff
      split: option.splits if_splits)
  then have "validate_csrf rq' tok = Inr ()" by (auto simp: validate_csrf_iff TOKEN_LEN_def)
  moreover have "ensure_csrf_token alnum rq' w2 = (Inr (tok, None), w2)" using tok by (simp add: ensure_csrf_token_def)
  ultimately show "let rq' = rq\<lparr>rq_cookies := (case set_cookie of None \<Rightarrow> rq_cookies rq | Some c \<Rightarrow> c # rq_cookies rq)\<rparr>
       in validate_csrf rq' tok = Inr () \<and> ensure_csrf_token alnum rq' w2 = (Inr (tok, None), w2)"
    by (simp add: rq'_def Let_def)
qed

end
