(* ===== verification/Accounts.thy ===== *)
theory Accounts
  imports Access
begin

text \<open>
  Registration: what it stores, that the first account is the one administrator, and that an
  account can log in with its password and with no other.
\<close>

section \<open>Registration\<close>

definition new_account :: "string \<Rightarrow> create_user_params \<Rightarrow> string \<Rightarrow> user_row" where
  "new_account i params now = \<lparr>u_id = i, u_username = cup_username params, u_email = cup_email params, u_role = cup_role params,
     u_quota_bytes = cup_quota_bytes params, u_is_active = True, u_setup_complete = False,
     u_created_at = now, u_updated_at = now, u_password_hash = cup_password_hash params\<rparr>"

definition taken :: "(user_row \<Rightarrow> string) \<Rightarrow> string \<Rightarrow> tables \<Rightarrow> bool" where
  "taken col x t = (x \<in> col ` set (t_users t))"

lemma find_taken: "List.find (\<lambda>u. col u = x) (t_users t) = None \<longleftrightarrow> \<not> taken col x t"
  using find_some_iff [of "\<lambda>u. col u = x" "t_users t"] by (auto simp: taken_def)

lemma find_id_taken: "List.find (\<lambda>u. u_id u = i) (t_users t) = Some x \<Longrightarrow> taken u_id i t"
  using find_taken [of u_id i t] by auto

lemma reads_find_user: "reads (\<lambda>t. Inr (map_option user.truncate (List.find P (t_users t)))) (find_user P)"
  unfolding find_user_def by (rule reads_select)

lemma implements_user_create:
  "implements (\<lambda>now i t.
     if taken u_username (cup_username params) t then (Inl (Conflict ''A user with that username already exists.''), t)
     else if taken u_email (cup_email params) t then (Inl (Conflict ''A user with that email already exists.''), t)
     else if taken u_id i t then (Inl (Conflict ''A user with that username or email already exists.''), t)
     else (Inr (user.truncate (new_account i params now)), with_user (new_account i params now) t)) (user_create params)"
  unfolding user_create_def user_find_by_username_def user_find_by_email_def user_find_by_id_def
  by (rule implements_eq, (rule implements_rules reads_find_user reads_rules)+)
    (auto simp: fun_eq_iff then_read_def insert_user_def find_taken find_snoc user_ids_def taken_def [symmetric]
      with_user_def new_account_def conflict_or_sqlx_def dest: find_id_taken split: option.splits)

definition account_for :: "argon2 \<Rightarrow> app_config \<Rightarrow> string \<Rightarrow> string \<Rightarrow> string \<Rightarrow> tables \<Rightarrow> user_row \<Rightarrow> bool" where
  "account_for A config n e p t u =
     (normalize_username n = Inr (u_username u) \<and> normalize_email e = Inr (u_email u) \<and> validate_password p = Inr () \<and>
      (\<exists>salt. length salt = SALT_LEN \<and> argon2_hash A (as_bytes p) salt = Inr (u_password_hash u)) \<and>
      u_role u = (if t_users t = [] then ''admin'' else ''user'') \<and> u_quota_bytes u = as_i64 (default_quota_bytes config) \<and>
      u_is_active u \<and> \<not> u_setup_complete u \<and>
      \<not> taken u_id (u_id u) t \<and> \<not> taken u_username (u_username u) t \<and> \<not> taken u_email (u_email u) t)"

lemma register_run:
  assumes run: "register A config n e p w = (r, w')"
  shows "case r of
      Inr v \<Rightarrow> \<exists>u. account_for A config n e p (tb w) u \<and> v = user.truncate u \<and> tb w' = with_user u (tb w)
    | Inl x \<Rightarrow> tb w' = tb w \<or> \<not> calm w \<and> (\<exists>u. account_for A config n e p (tb w) u \<and> tb w' = with_user u (tb w))"
proof (cases "normalize_username n")
  case (Inl x)
  then show ?thesis using run by (auto simp: register_def)
next
  case name: (Inr username)
  show ?thesis
  proof (cases "normalize_email e")
    case (Inl x)
    then show ?thesis using run name by (auto simp: register_def)
  next
    case email: (Inr mail)
    show ?thesis
    proof (cases "validate_password p")
      case (Inl x)
      then show ?thesis using run name email by (auto simp: register_def)
    next
      case valid: (Inr x)
      define salt where "salt = map (\<lambda>i. rng w (rng_pos w + i)) [0..<SALT_LEN]"
      define w1 where "w1 = w\<lparr>rng_pos := rng_pos w + SALT_LEN\<rparr>"
      have w1: "tb w1 = tb w" "calm w1 = calm w" by (simp_all add: w1_def calm_def)
      have bytes: "fill_bytes SALT_LEN w = (Inr salt, w1)" by (simp add: fill_bytes_def salt_def w1_def)
      show ?thesis
      proof (cases "argon2_hash A (as_bytes p) salt")
        case (Inl x)
        then show ?thesis using run name email valid w1
          by (auto simp: register_def hash_password_def bind_def map_err_def fill_bytes_def salt_def [symmetric] w1_def [symmetric])
      next
        case hash: (Inr h)
        define params where "params first = \<lparr>cup_username = username, cup_email = mail, cup_password_hash = h,
          cup_role = (if first then ''admin'' else ''user''), cup_quota_bytes = as_i64 (default_quota_bytes config)\<rparr>" for first
        have made: "account_for A config n e p (tb w) (new_account i (params (t_users (tb w) = [])) now)"
          if "\<not> taken u_username username (tb w)" "\<not> taken u_email mail (tb w)" "\<not> taken u_id i (tb w)" for i now
          using name email valid hash that salt_def
          by (auto simp: account_for_def new_account_def params_def intro!: exI [of _ salt])
        have rest: "bind is_first_user (\<lambda>first. user_create (params first)) w1 = (r, w')"
          using run name email valid hash
          by (simp add: register_def hash_password_def bind_def map_err_def fill_bytes_def salt_def [symmetric] w1_def [symmetric] params_def Let_def)
        obtain f w2 where first: "is_first_user w1 = (f, w2)" by fastforce
        have "reads (\<lambda>t. Inr (t_users t = [])) is_first_user" unfolding is_first_user_def by (rule reads_select)
        note f = reads_run [OF this first]
        then have w2: "tb w2 = tb w" "calm w2 = calm w" using w1 by (auto simp: same_world_def calm_def)
        show ?thesis
        proof (cases f)
          case (Inl x)
          then show ?thesis using rest first w2 by (auto simp: bind_def)
        next
          case (Inr b)
          then have "b = (t_users (tb w) = [])" using f(2) w1 by auto
          then have "user_create (params (t_users (tb w) = [])) w2 = (r, w')" using rest first Inr by (simp add: bind_def)
          from implements_either [OF implements_user_create this] show ?thesis
            using made w2 by (cases r) (auto simp: params_def split: if_splits)
        qed
      qed
    qed
  qed
qed

section \<open>Accounts in order\<close>

text \<open>
  The steps that touch accounts: registrations, the completion of a setup, whatever fails in them;
  every other request leaves the table of users alone.
\<close>

inductive account_steps :: "argon2 \<Rightarrow> app_config \<Rightarrow> 'z db_scheme \<Rightarrow> 'z db_scheme \<Rightarrow> bool" for A config w0 where
  started: "account_steps A config w0 w0"
| registered: "account_steps A config w0 w \<Longrightarrow> register A config n e p w = (r, w') \<Longrightarrow> account_steps A config w0 w'"
| set_up: "account_steps A config w0 w \<Longrightarrow> mark_setup_complete uid w = (r1, w') \<Longrightarrow> account_steps A config w0 w'"
| other: "account_steps A config w0 w \<Longrightarrow> t_users (tb w') = t_users (tb w) \<Longrightarrow> account_steps A config w0 w'"

definition stored_account :: "argon2 \<Rightarrow> user_row \<Rightarrow> bool" where
  "stored_account A u = (normalize_username (u_username u) = Inr (u_username u) \<and> to_ascii_lowercase (u_email u) = u_email u \<and>
     (\<exists>p salt. validate_password p = Inr () \<and> length salt = SALT_LEN \<and> argon2_hash A (as_bytes p) salt = Inr (u_password_hash u)))"

definition accounts_ok :: "argon2 \<Rightarrow> user_row list \<Rightarrow> bool" where
  "accounts_ok A us = ((\<forall>u \<in> set us. stored_account A u) \<and> distinct (map u_username us) \<and> distinct (map u_email us) \<and>
     (case us of [] \<Rightarrow> True | u # rest \<Rightarrow> u_role u = ''admin'' \<and> (\<forall>v \<in> set rest. u_role v = ''user'')))"

lemma accounts_ok_with:
  assumes "accounts_ok A (t_users t)" "account_for A config n e p t u"
  shows "accounts_ok A (t_users (with_user u t))"
proof -
  have "stored_account A u"
    using assms(2) normalize_username_idem normalize_email_lowercase by (auto simp: account_for_def stored_account_def)
  then show ?thesis
    using assms by (auto simp: accounts_ok_def with_user_def account_for_def taken_def split: list.splits)
qed

lemma accounts_ok_mark: "accounts_ok A us \<Longrightarrow> accounts_ok A (map (setup_mark uid now) us)"
proof -
  have same: "u_username (setup_mark uid now u) = u_username u" "u_email (setup_mark uid now u) = u_email u"
    "u_role (setup_mark uid now u) = u_role u" "u_password_hash (setup_mark uid now u) = u_password_hash u" for u
    by (simp_all add: setup_mark_def)
  assume "accounts_ok A us"
  then show ?thesis
    by (cases us) (simp_all add: accounts_ok_def stored_account_def same comp_def image_iff)
qed

lemma mark_setup_users:
  assumes "mark_setup_complete uid w = (r, w')"
  shows "t_users (tb w') = t_users (tb w) \<or> (\<exists>now. t_users (tb w') = map (setup_mark uid now) (t_users (tb w)))"
  using implements_either [OF implements_mark_setup assms]
  by (auto simp: with_setup_done_def update_where_def setup_mark_def [abs_def])

text \<open>
  C36. From an empty server on, whatever is registered, marked and failing: the first account is the
  administrator and every other an ordinary user; names are in normal form and unique, addresses
  are lower-case and unique, and the stored hashes are those of valid passwords.
\<close>

theorem accounts_in_order:
  assumes "account_steps A config w0 w" "t_users (tb w0) = []"
  shows "accounts_ok A (t_users (tb w))"
  using assms(1)
proof induction
  case started
  show ?case using assms(2) by (simp add: accounts_ok_def)
next
  case (registered w n e p r w')
  then show ?case using register_run [OF registered.hyps(2)] accounts_ok_with by (cases r) auto
next
  case (set_up w uid r1 w')
  then show ?case using mark_setup_users [OF set_up.hyps(2)] accounts_ok_mark by auto
next
  case (other w w')
  then show ?case by simp
qed

section \<open>Registering, then logging in\<close>

lemma find_map_kept: "(\<And>u. Q (f u) = Q u) \<Longrightarrow> List.find Q (map f us) = map_option f (List.find Q us)"
  by (induction us) auto

definition same_login :: "user_row \<Rightarrow> user_row \<Rightarrow> bool" where
  "same_login u v = (same_account (user.truncate u) (user.truncate v) \<and> u_password_hash v = u_password_hash u)"

lemma same_login_simps [simp]:
  "same_login u u" "same_login u (setup_mark uid now u)" "same_login u v \<Longrightarrow> same_login v x \<Longrightarrow> same_login u x"
  by (auto simp: same_login_def same_account_def user.truncate_def setup_mark_def)

lemma setup_mark_fields [simp]:
  "u_username (setup_mark uid now u) = u_username u" "u_id (setup_mark uid now u) = u_id u"
  by (simp_all add: setup_mark_def)

lemma account_kept:
  assumes "account_steps A config w0 w" and key: "\<And>u uid now. Q (setup_mark uid now u) = Q u"
    and row: "List.find Q (t_users (tb w0)) = Some u"
  shows "\<exists>v. List.find Q (t_users (tb w)) = Some v \<and> same_login u v"
  using assms(1)
proof induction
  case started
  show ?case using row by simp
next
  case (registered w n e p r w')
  then obtain v where v: "List.find Q (t_users (tb w)) = Some v" "same_login u v" by blast
  have "tb w' = tb w \<or> (\<exists>x. tb w' = with_user x (tb w))" using register_run [OF registered.hyps(2)] by (cases r) auto
  then show ?case using v by (auto simp: with_user_def find_snoc)
next
  case (set_up w uid r1 w')
  then obtain v where v: "List.find Q (t_users (tb w)) = Some v" "same_login u v" by blast
  then show ?case using mark_setup_users [OF set_up.hyps(2)] key by (auto simp: find_map_kept intro: same_login_simps(3))
next
  case (other w w')
  then show ?case by simp
qed

lemma unknown_name: "normalize_username n = Inr m \<Longrightarrow> \<not> taken u_username m t \<Longrightarrow> credentials A n p t = Inl Unauthorized"
  using find_taken [of u_username m t] by (simp add: credentials_def)

lemma registered_credentials:
  fixes w0 :: "'z db_scheme"
  assumes A: "argon2_ok A" and reg: "register A config n e p w0 = (Inr u, w1)" and steps: "account_steps A config w1 w"
  shows "\<exists>name salt h u'. normalize_username n = Inr name \<and> argon2_hash A (as_bytes p) salt = Inr h \<and> same_account u u' \<and>
    (\<forall>n' p'. normalize_username n' = Inr name \<longrightarrow>
      (p' = p \<longrightarrow> credentials A n' p' (tb w) = Inr u') \<and>
      (argon2_check A (as_bytes p') h = PasswordDiffers \<longrightarrow> credentials A n' p' (tb w) = Inl Unauthorized))"
proof -
  obtain row where row: "account_for A config n e p (tb w0) row" "u = user.truncate row" "tb w1 = with_user row (tb w0)"
    using register_run [OF reg] by auto
  then obtain name salt where name: "normalize_username n = Inr name" "u_username row = name"
      and hash: "argon2_hash A (as_bytes p) salt = Inr (u_password_hash row)"
      and fresh: "\<not> taken u_id (u_id row) (tb w0)" "\<not> taken u_username name (tb w0)" and act: "u_is_active row"
    by (auto simp: account_for_def)
  have "List.find (\<lambda>x. u_username x = name) (t_users (tb w1)) = Some row" "List.find (\<lambda>x. u_id x = u_id row) (t_users (tb w1)) = Some row"
    using row(3) name fresh find_taken [of u_username name "tb w0"] find_taken [of u_id "u_id row" "tb w0"]
    by (auto simp: with_user_def find_snoc)
  then have kept: "\<exists>v. List.find (\<lambda>x. u_username x = name) (t_users (tb w)) = Some v \<and> same_login row v"
      "\<exists>v. List.find (\<lambda>x. u_id x = u_id row) (t_users (tb w)) = Some v \<and> same_login row v"
    using account_kept [OF steps, of "\<lambda>x. u_username x = name" row] account_kept [OF steps, of "\<lambda>x. u_id x = u_id row" row]
    by simp_all
  obtain v where v: "List.find (\<lambda>x. u_username x = name) (t_users (tb w)) = Some v" "same_login row v" using kept(1) by blast
  obtain v2 where v2: "List.find (\<lambda>x. u_id x = u_id row) (t_users (tb w)) = Some v2" "same_login row v2" using kept(2) by blast
  have user: "user_of (tb w) (u_id v) = Some (user.truncate v2)" "u_is_active v2" "same_account u (user.truncate v2)"
    using v v2 row(2) act by (auto simp: user_of_def same_login_def same_account_def user.truncate_def)
  have stored: "u_password_hash v = u_password_hash row" using v(2) by (simp add: same_login_def)
  have "credentials A n' p (tb w) = Inr (user.truncate v2)" if "normalize_username n' = Inr name" for n'
    using that v(1) user stored hash A
    by (auto simp: credentials_def verify_password_def argon2_ok_def user.truncate_def)
  moreover have "credentials A n' p' (tb w) = Inl Unauthorized"
    if "normalize_username n' = Inr name" "argon2_check A (as_bytes p') (u_password_hash row) = PasswordDiffers" for n' p'
    using that v(1) stored by (auto simp: credentials_def verify_password_def)
  ultimately show ?thesis using name(1) hash user(3) by blast
qed

text \<open>
  C37. An account that was registered can log in from then on with its name, spaces around it
  ignored, and its password - unless the identifier or the token drawn for the session is already in
  use -, and gets its own identity; another password and an unknown name are refused in the same
  way, with no trace in the tables.
\<close>

theorem register_then_login:
  fixes w0 :: "'z db_scheme"
  assumes A: "argon2_ok A" and reg: "register A config n e p w0 = (Inr u, w1)" and steps: "account_steps A config w1 w"
    and calm: "calm w" and login: "login E C T A config n' p' w = (r, w')"
  shows "(normalize_username n' = normalize_username n \<and> p' = p \<longrightarrow>
      (case r of Inr lr \<Rightarrow> same_account u (lr_user lr) | Inl x \<Rightarrow> drawn_twice (tb w) x \<and> tb w' = tb w)) \<and>
    (normalize_username n' = normalize_username n \<and>
      (\<forall>salt h. argon2_hash A (as_bytes p) salt = Inr h \<longrightarrow> argon2_check A (as_bytes p') h = PasswordDiffers) \<or>
     (\<exists>m. normalize_username n' = Inr m \<and> \<not> taken u_username m (tb w)) \<longrightarrow> r = Inl Unauthorized \<and> tb w' = tb w)"
proof -
  obtain name salt h u' where name: "normalize_username n = Inr name" and hash: "argon2_hash A (as_bytes p) salt = Inr h"
    and u': "same_account u u'" and c: "\<forall>n' p'. normalize_username n' = Inr name \<longrightarrow>
      (p' = p \<longrightarrow> credentials A n' p' (tb w) = Inr u') \<and>
      (argon2_check A (as_bytes p') h = PasswordDiffers \<longrightarrow> credentials A n' p' (tb w) = Inl Unauthorized)"
    using registered_credentials [OF A reg steps] by (elim exE conjE) (rule that)
  note l = login_run [OF login]
  show ?thesis
  proof (intro conjI impI)
    assume "normalize_username n' = normalize_username n \<and> p' = p"
    then show "case r of Inr lr \<Rightarrow> same_account u (lr_user lr) | Inl x \<Rightarrow> drawn_twice (tb w) x \<and> tb w' = tb w"
      using l calm u' c name by (cases r) auto
  next
    assume "normalize_username n' = normalize_username n \<and>
      (\<forall>salt h. argon2_hash A (as_bytes p) salt = Inr h \<longrightarrow> argon2_check A (as_bytes p') h = PasswordDiffers) \<or>
     (\<exists>m. normalize_username n' = Inr m \<and> \<not> taken u_username m (tb w))"
    then have refused: "credentials A n' p' (tb w) = Inl Unauthorized"
    proof (elim disjE exE conjE)
      assume "normalize_username n' = normalize_username n"
        "\<forall>salt h. argon2_hash A (as_bytes p) salt = Inr h \<longrightarrow> argon2_check A (as_bytes p') h = PasswordDiffers"
      then show ?thesis using c name hash by simp
    qed (rule unknown_name)
    show "r = Inl Unauthorized" "tb w' = tb w" using l calm refused by (cases r; auto)+
  qed
qed

end
