(* ===== verification/SampleLogin.thy ===== *)
theory SampleLogin
  imports Accounts ChunkFacts
begin

text \<open>
  A concrete server on which the properties of accounts, sessions and guards are evaluated: a calendar
  of big-endian digits, and a password hash that shows the password.
\<close>

section \<open>A calendar\<close>

fun digits :: "nat \<Rightarrow> nat \<Rightarrow> string" where
  "digits 0 n = []"
| "digits (Suc k) n = char_of (n div 256 ^ k) # digits k (n mod 256 ^ k)"

fun digits_value :: "string \<Rightarrow> nat" where
  "digits_value [] = 0"
| "digits_value (c # cs) = char_code c * 256 ^ length cs + digits_value cs"

lemma length_digits [simp]: "length (digits k n) = k"
  by (induction k arbitrary: n) simp_all

lemma code_of_digit: "n < 256 \<Longrightarrow> char_code (char_of n) = n"
  by (simp add: char_code_def)

lemma value_digits: "n < 256 ^ k \<Longrightarrow> digits_value (digits k n) = n"
proof (induction k arbitrary: n)
  case (Suc k)
  then have "n div 256 ^ k < 256" by (simp add: less_mult_imp_div_less mult.commute)
  moreover have "digits_value (digits k (n mod 256 ^ k)) = n mod 256 ^ k" using Suc.IH by simp
  ultimately show ?case using div_mult_mod_eq [of n "256 ^ k"] by (simp add: code_of_digit)
qed simp

lemma value_bound: "digits_value s < 256 ^ length s"
proof (induction s)
  case (Cons c s)
  have "char_code c + 1 \<le> 256" using nat_of_char_less_256 [of c] unfolding char_code_def by linarith
  then have "(char_code c + 1) * 256 ^ length s \<le> 256 * 256 ^ length s" by (rule mult_right_mono) simp
  then have "char_code c * 256 ^ length s + 256 ^ length s \<le> 256 * 256 ^ length s" by (simp only: add_mult_distrib mult_1)
  then show ?case using Cons.IH by (simp only: digits_value.simps length_Cons power_Suc)
qed simp

lemma value_mono: "length s = length t \<Longrightarrow> s \<le> t \<Longrightarrow> digits_value s \<le> digits_value t"
proof (induction s t rule: list_induct2')
  case (4 c s d t)
  then consider "c < d" | "c = d" "s \<le> t" by (auto simp: Cons_le_Cons)
  then show ?case
  proof cases
    case 1
    then have "char_code c + 1 \<le> char_code d" by (simp add: less_char_def char_code_def)
    then have "(char_code c + 1) * 256 ^ length s \<le> char_code d * 256 ^ length s" by (rule mult_right_mono) simp
    then show ?thesis using value_bound [of s] 4 by simp
  next
    case 2
    then show ?thesis using 4 by simp
  qed
qed simp_all

definition date_text :: "int \<Rightarrow> string" where "date_text n = digits 5 (nat n)"
definition date_parse :: "string \<Rightarrow> int option" where "date_parse s = Some (int (digits_value s))"

lemma date_ok: "in_years m \<Longrightarrow> date_parse (date_text m) = Some m"
  by (simp add: in_years_def date_text_def date_parse_def value_digits nat_less_iff)

lemma date_mono: "in_years m \<Longrightarrow> in_years n \<Longrightarrow> date_text m \<le> date_text n \<Longrightarrow> m \<le> n"
  using value_mono [of "date_text m" "date_text n"] value_digits [of "nat m" 5] value_digits [of "nat n" 5]
    nat_le_eq_zle [of m n]
  by (simp add: in_years_def date_text_def nat_less_iff)

section \<open>The server\<close>

definition plain_argon2 :: argon2 where
  "plain_argon2 = \<lparr>argon2_hash = (\<lambda>p salt. Inr (map (\<lambda>b. char_of (unat b)) p)),
     argon2_check = (\<lambda>p h. if h = map (\<lambda>b. char_of (unat b)) p then PasswordMatches else PasswordDiffers)\<rparr>"

lemma plain_argon2_ok: "argon2_ok plain_argon2"
  by (simp add: argon2_ok_def plain_argon2_def)

definition hall :: "tables \<Rightarrow> db" where
  "hall t = (server [] t)\<lparr>datetime_text := date_text, parse_datetime := date_parse\<rparr>"

lemma hall_simps [simp]: "tb (hall t) = t" "clock (hall t) = 1000" "calm (hall t)" "datetime_text (hall t) = date_text" "calendar_ok (hall t)"
  using date_ok date_mono by (simp_all add: hall_def server_def calm_def calendar_ok_def)

definition tool :: tools where "tool = toy_tools toy_payload"

lemma tool_tokens: "tokens_ok tool"
proof -
  have "length (toy_hex b) = 2 * length b" for b by (induction b) (simp_all add: toy_hex_def)
  moreover have "token_char c" if "letter c" for c
    using that by (auto simp: letter_def token_char_def ascii_alphanumeric_def ascii_lower_def)
  ultimately show ?thesis
    using toy_hex_letters by (auto simp: tokens_ok_def tool_def toy_tools_def is_valid_token_format_def TOKEN_MIN_LEN_def TOKEN_MAX_LEN_def list_all_iff)
qed

declare bind_def [code_unfold] Let_def [code_unfold]

definition ann_tables :: tables where
  "ann_tables = no_tables\<lparr>t_users := [(sample_user ''ann'' ''admin'')\<lparr>u_password_hash := ''password1''\<rparr>]\<rparr>"

lemma ann_ok: "tables_ok ann_tables"
  by (simp add: ann_tables_def no_tables_def tables_ok_defs)

lemma ann_login: "\<exists>lr w1. login toy_ext toy_crypto tool plain_argon2 toy_config '' ann '' ''password1'' (hall ann_tables) = (Inr lr, w1)"
proof -
  obtain r w1 where l: "login toy_ext toy_crypto tool plain_argon2 toy_config '' ann '' ''password1'' (hall ann_tables) = (r, w1)"
    by fastforce
  have "\<not> isl (credentials plain_argon2 '' ann '' ''password1'' ann_tables)" by code_simp
  moreover have "t_sessions ann_tables = []" by (simp add: ann_tables_def no_tables_def)
  ultimately show ?thesis using login_run [OF l] l by (cases r) (auto simp: drawn_twice_def)
qed

lemma ann_expiry: "in_years (session_end toy_config (hall ann_tables))" "1000 < session_end toy_config (hall ann_tables)"
  "session_end toy_config (hall ann_tables) < 253402300000"
  by (simp_all add: session_end_def toy_config_def as_i64_def in_years_def)

theorem login_token_authenticates_witness:
  "\<exists>lr w1 r w2. login toy_ext toy_crypto tool plain_argon2 toy_config '' ann '' ''password1'' (hall ann_tables) = (Inr lr, w1) \<and>
     authenticated_user toy_ext toy_crypto (bearer (lr_token lr)) w1 = (r, w2) \<and>
     (\<exists>u. same_account (lr_user lr) u \<and> (r = Inr u \<or> \<not> calm w1 \<and> isl r)) \<and>
     isl (fst (authenticated_user toy_ext toy_crypto (bearer (lr_token lr)) (w1\<lparr>clock := 253402300000\<rparr>)))"
proof -
  obtain lr w1 where l: "login toy_ext toy_crypto tool plain_argon2 toy_config '' ann '' ''password1'' (hall ann_tables) = (Inr lr, w1)"
    using ann_login by blast
  let ?h = "hash_token toy_ext toy_crypto (lr_token lr)" and ?late = "w1\<lparr>clock := 253402300000\<rparr>"
  obtain r w2 where a: "authenticated_user toy_ext toy_crypto (bearer (lr_token lr)) w1 = (r, w2)" by fastforce
  obtain x w3 where b: "authenticated_user toy_ext toy_crypto (bearer (lr_token lr)) ?late = (x, w3)" by fastforce
  have clk: "clock w1 = 1000" using keepsD [OF same_env_auth(2) l] by (simp add: same_env_def)
  have rq: "get_header (bearer tok) ''Authorization'' = Some (''Bearer '' @ tok)" for tok by (simp add: get_header_def bearer_def)
  have start: "auth_run toy_ext toy_crypto tool plain_argon2 toy_config ?h w1 w1" by (rule auth_run.started)
  have late: "auth_run toy_ext toy_crypto tool plain_argon2 toy_config ?h w1 ?late"
    by (rule auth_run.time [OF start]) (simp_all add: clk in_years_def)
  have ok: "tables_ok (tb (hall ann_tables))" "calendar_ok (hall ann_tables)" "in_years (clock (hall ann_tables))"
    "in_years (session_end toy_config (hall ann_tables))" "tokens_ok tool"
    using ann_ok tool_tokens ann_expiry(1) by (simp_all add: in_years_def)
  note claim = login_token_authenticates [OF ok l]
  have "\<exists>u. same_account (lr_user lr) u \<and> (r = Inr u \<or> \<not> calm w1 \<and> isl r)"
    using claim [OF start, of "bearer (lr_token lr)" r w2] a rq clk ann_expiry by auto
  moreover have "isl x" using claim [OF late, of "bearer (lr_token lr)" x w3] b rq ann_expiry by simp
  ultimately show ?thesis using l a b by auto
qed

theorem logout_ends_session_witness:
  "\<exists>lr w1 w2. login toy_ext toy_crypto tool plain_argon2 toy_config '' ann '' ''password1'' (hall ann_tables) = (Inr lr, w1) \<and>
     logout (u_id (lr_user lr)) (hash_token toy_ext toy_crypto (lr_token lr)) w1 = (Inr (), w2) \<and>
     isl (fst (authenticated_user toy_ext toy_crypto (bearer (lr_token lr)) w2))"
proof -
  let ?l = "login toy_ext toy_crypto tool plain_argon2 toy_config '' ann '' ''password1'' (hall ann_tables)"
  obtain lr w1 where l: "?l = (Inr lr, w1)" using ann_login by blast
  let ?h = "hash_token toy_ext toy_crypto (lr_token lr)"
  have ok: "tables_ok (tb (hall ann_tables))" "calendar_ok (hall ann_tables)" "in_years (clock (hall ann_tables))" "tokens_ok tool"
    using ann_ok tool_tokens by (simp_all add: in_years_def)
  obtain s where s: "login_session toy_ext toy_crypto toy_config (hall ann_tables) lr s" "is_valid_token_format (lr_token lr)"
    "session_lives (hall ann_tables) ?h s (session_end toy_config (hall ann_tables)) (lr_user lr) w1"
    using login_starts [OF l ok] by blast
  obtain r0 w2 where o: "logout (u_id (lr_user lr)) ?h w1 = (r0, w2)" by fastforce
  have calm: "calm w1" using keepsD [OF same_env_auth(2) l] by (simp add: same_env_def calm_def hall_def server_def)
  then have r0: "r0 = Inr ()" using logout_run [OF o] by auto
  have mine: "\<forall>x. session_of (tb w1) ?h = Some x \<longrightarrow> se_user_id x = u_id (lr_user lr)"
    using s(1,3) by (auto simp: session_lives_def login_session_def)
  obtain x w3 where b: "authenticated_user toy_ext toy_crypto (bearer (lr_token lr)) w2 = (x, w3)" by fastforce
  have "extract_bearer_token (bearer (lr_token lr)) = Some (lr_token lr)"
    by (rule extract_bearer [OF _ s(2)]) (simp add: get_header_def bearer_def)
  moreover have "tables_ok (tb w1)" using s(3) by (simp add: session_lives_def)
  ultimately have "isl x"
    using logout_ends_session [OF _ o, where T = tool and A = plain_argon2 and config = toy_config]
      auth_run.started mine r0 b by blast
  then show ?thesis using l o r0 b by auto
qed

section \<open>Guards\<close>

definition bob_token :: string where "bob_token = replicate 43 (CHR ''b'')"

definition bob_row :: session where
  "bob_row = session_row toy_ext toy_crypto ''1'' ''bob'' bob_token (date_text 2000) ''0''"

text \<open>Bob has a session and may read alice's space \<open>s\<close>.\<close>

definition bob_tables :: tables where
  "bob_tables = with_session bob_row shared_space"

definition bob_request :: request where
  "bob_request = \<lparr>rq_headers = [(''authorization'', ''bearer '' @ bob_token)], rq_cookies = [], rq_path = ''/api/v1/spaces/s/files''\<rparr>"

lemma bob_asks: "extract_bearer_token bob_request = Some bob_token" "extract_space_id bob_request = Some ''s''"
  by code_simp+

lemma bob_valid: "is_valid_token_format bob_token" "date_parse (date_text 2000) = Some 2000"
  by (code_simp, rule date_ok) (simp add: in_years_def)

lemma bob_user: "user_of shared_space ''bob'' = Some (user.truncate (sample_user ''bob'' ''user''))"
  by (simp add: user_of_def shared_space_def with_access_def one_space_def one_group_def two_users_def sample_user_def)

lemma bob_identified:
  "identified toy_ext toy_crypto (hall bob_tables) (Some bob_token) (user.truncate (sample_user ''bob'' ''user''))"
proof -
  have "t_sessions shared_space = []" by (simp add: shared_space_def with_access_def one_space_def one_group_def two_users_def no_tables_def)
  then have "session_of bob_tables (hash_token toy_ext toy_crypto bob_token) = Some bob_row"
    by (simp add: session_of_def bob_tables_def with_session_def bob_row_def session_row_def)
  moreover have "\<not> expired (hall bob_tables) bob_row"
    using bob_valid(2) by (simp add: expired_def bob_row_def session_row_def hall_def server_def)
  moreover have "user_of bob_tables (se_user_id bob_row) = Some (user.truncate (sample_user ''bob'' ''user''))"
    using bob_user by (simp add: bob_tables_def with_session_def user_of_def bob_row_def session_row_def)
  ultimately show ?thesis using bob_valid(1) by (simp add: identified_def sample_user_def user.truncate_def)
qed

lemma effective_session [simp]: "effective (with_session s t) u i = effective t u i"
  by (simp add: effective_code perms_on_def with_session_def group_owns_def granted_to_group_def user_groups_def)

lemma bob_reads: "effective shared_space ''bob'' ''s'' = Some Read" "space_of shared_space ''s'' \<noteq> None"
  by code_simp+

theorem guards_identify_witness:
  "\<exists>w'. authenticated_user toy_ext toy_crypto bob_request (hall bob_tables) = (Inr (user.truncate (sample_user ''bob'' ''user'')), w')"
proof -
  obtain r w' where run: "authenticated_user toy_ext toy_crypto bob_request (hall bob_tables) = (r, w')" by fastforce
  have "admits (identified toy_ext toy_crypto (hall bob_tables) (extract_bearer_token bob_request)) r (hall bob_tables)"
    by (rule mp [OF conjunct1 [OF guards_identify] run])
  then have "r = Inr (user.truncate (sample_user ''bob'' ''user''))"
    using bob_identified hall_simps(3) unfolding admits_def bob_asks(1) by blast
  then show ?thesis using run by blast
qed

theorem space_guard_matches_service_witness:
  "\<exists>u m w' x w2. space_guard toy_ext toy_crypto bob_request (level_of Read) (hall bob_tables) = (Inr (u, m), w') \<and>
     require_permission (u_id u) ''s'' (label Read) w' = (Inr x, w2) \<and>
     isl (fst (space_guard toy_ext toy_crypto bob_request (level_of Write) (hall bob_tables)))"
proof -
  let ?bob = "user.truncate (sample_user ''bob'' ''user'')" and ?w = "hall bob_tables"
  obtain r w' where run: "space_guard toy_ext toy_crypto bob_request (level_of Read) ?w = (r, w')" by fastforce
  obtain r2 w2 where run2: "space_guard toy_ext toy_crypto bob_request (level_of Write) ?w = (r2, w2)" by fastforce
  have bob: "identified toy_ext toy_crypto ?w (Some bob_token) ?bob" "u_setup_complete ?bob" "u_id ?bob = ''bob''"
    using bob_identified by (simp_all add: sample_user_def user.truncate_def)
  have eff: "effective bob_tables ''bob'' ''s'' = Some Read" using bob_reads by (simp add: bob_tables_def)
  have "space_view bob_tables ''bob'' ''s'' \<noteq> None"
    using eff bob_reads(2) by (auto simp: space_view_def space_of_def bob_tables_def with_session_def)
  then obtain m where m: "space_view bob_tables ''bob'' ''s'' = Some m" by blast
  note claim = space_guard_matches_service [of toy_ext toy_crypto bob_request, OF disjI1, OF conjI, OF _ refl]
  let ?P = "\<lambda>p (u, m). identified toy_ext toy_crypto ?w (Some bob_token) u \<and> u_setup_complete u \<and>
      (\<exists>sid. extract_space_id bob_request = Some sid \<and> space_view (tb ?w) (u_id u) sid = Some m \<and> allowed (tb ?w) (u_id u) sid p = Inr ())"
  have admit: "admits (?P Read) r ?w" "admits (?P Write) r2 ?w"
    using claim [OF run] claim [OF run2] unfolding bob_asks(1) by blast+
  have "?P Read (?bob, m)" using bob m eff bob_asks(2) by (simp add: allowed_def)
  then have r: "r = Inr (?bob, m)" using admit(1) hall_simps(3) unfolding admits_def by blast
  obtain x w3 where req: "require_permission ''bob'' ''s'' (label Read) w' = (x, w3)" by fastforce
  then have x: "x = Inr ()" using claim [OF run] r bob(3) bob_asks(2) hall_simps(3) by metis
  have "isl r2"
  proof (rule ccontr)
    assume "\<not> isl r2"
    then obtain u k where "r2 = Inr (u, k)" by (cases r2) auto
    then have "?P Write (u, k)" using admit(2) unfolding admits_def by blast
    then have "identified toy_ext toy_crypto ?w (Some bob_token) u" "allowed bob_tables (u_id u) ''s'' Write = Inr ()"
      unfolding bob_asks(2) hall_simps(1) prod.case by blast+
    then show False using bob(1,3) eff by (auto simp: identified_def allowed_def less_permission_def)
  qed
  then have "isl (fst (space_guard toy_ext toy_crypto bob_request (level_of Write) ?w))" by (simp only: run2 fst_conv)
  moreover have "require_permission (u_id ?bob) ''s'' (label Read) w' = (Inr (), w3)" by (simp only: req x bob(3))
  moreover have "space_guard toy_ext toy_crypto bob_request (level_of Read) ?w = (Inr (?bob, m), w')" by (simp only: run r)
  ultimately show ?thesis by blast
qed

theorem csrf_accepts_own_token_witness:
  "\<exists>tok c w'. ensure_csrf_token (\<lambda>x. CHR ''c'') bob_request (hall bob_tables) = (Inr (tok, Some c) :: app_error + _, w') \<and>
     validate_csrf (bob_request\<lparr>rq_cookies := [c]\<rparr>) tok = Inr ()"
proof -
  let ?tok = "replicate 64 (CHR ''c'')" and ?w = "(hall bob_tables)\<lparr>rng_pos := 64\<rparr>"
  have no: "rq_cookies bob_request = []" by (simp add: bob_request_def)
  then have run: "ensure_csrf_token (\<lambda>x. CHR ''c'') bob_request (hall bob_tables) =
      (Inr (?tok, Some (CSRF_COOKIE, ?tok)) :: app_error + _, ?w)"
    by (simp add: ensure_csrf_token_def generate_csrf_token_def fill_bytes_def bind_def get_cookie_def comp_def
      TOKEN_LEN_def map_replicate_const hall_def server_def)
  have "\<forall>x :: byte. ascii_alphanumeric (CHR ''c'')" by code_simp
  note claim = csrf_accepts_own_token [of "[]" "[]" bob_request "[]" "\<lambda>x. CHR ''c''" "hall bob_tables" ?tok "Some (CSRF_COOKIE, ?tok)" ?w ?w,
      THEN conjunct2, THEN conjunct2, THEN conjunct2, THEN mp, OF conjI, OF this run]
  show ?thesis using run conjunct1 [OF claim [unfolded Let_def no option.case]] by blast
qed

section \<open>Registering\<close>

lemma ann_registers: "\<exists>u w1. register plain_argon2 toy_config ''ann'' ''Ann@Example.com'' ''password1'' (hall no_tables) = (Inr u, w1)"
proof -
  have "normalize_username ''ann'' = Inr ''ann''" "normalize_email ''Ann@Example.com'' = Inr ''ann@example.com''"
    "validate_password ''password1'' = Inr ()" by code_simp+
  then show ?thesis
    by (simp add: register_def hash_password_def plain_argon2_def is_first_user_def user_create_def user_find_by_username_def
      user_find_by_email_def user_find_by_id_def find_user_def bind_def sqlx_def map_err_def select_def exec_def tick_def
      new_uuid_def insert_user_def fill_bytes_def hall_def server_def no_tables_def user_ids_def)
qed

theorem accounts_in_order_witness:
  "\<exists>u w1. register plain_argon2 toy_config ''ann'' ''Ann@Example.com'' ''password1'' (hall no_tables) = (Inr u, w1) \<and>
     accounts_ok plain_argon2 (t_users (tb w1))"
proof -
  obtain u w1 where run: "register plain_argon2 toy_config ''ann'' ''Ann@Example.com'' ''password1'' (hall no_tables) = (Inr u, w1)"
    using ann_registers by blast
  then have "account_steps plain_argon2 toy_config (hall no_tables) w1" by (rule account_steps.registered [OF account_steps.started])
  moreover have "t_users (tb (hall no_tables)) = []" by (simp add: no_tables_def)
  ultimately show ?thesis using accounts_in_order run by blast
qed

theorem register_then_login_witness:
  "\<exists>u w1 r w'. register plain_argon2 toy_config ''ann'' ''Ann@Example.com'' ''password1'' (hall no_tables) = (Inr u, w1) \<and>
     login toy_ext toy_crypto tool plain_argon2 toy_config '' ann '' ''password1'' w1 = (r, w') \<and>
     (case r of Inr lr \<Rightarrow> same_account u (lr_user lr) | Inl x \<Rightarrow> drawn_twice (tb w1) x) \<and>
     fst (login toy_ext toy_crypto tool plain_argon2 toy_config ''ann'' ''password2'' w1) = Inl Unauthorized"
proof -
  obtain u w1 where reg: "register plain_argon2 toy_config ''ann'' ''Ann@Example.com'' ''password1'' (hall no_tables) = (Inr u, w1)"
    using ann_registers by blast
  have calm: "calm w1" using keepsD [OF same_env_auth(1) reg] by (simp add: same_env_def calm_def hall_def server_def)
  obtain r w' where l: "login toy_ext toy_crypto tool plain_argon2 toy_config '' ann '' ''password1'' w1 = (r, w')" by fastforce
  obtain r2 w2 where l2: "login toy_ext toy_crypto tool plain_argon2 toy_config ''ann'' ''password2'' w1 = (r2, w2)" by fastforce
  have n: "normalize_username '' ann '' = normalize_username ''ann''" by code_simp
  have "map (\<lambda>b. char_of (unat b)) (as_bytes ''password1'') \<noteq> map (\<lambda>b. char_of (unat b)) (as_bytes ''password2'')"
    unfolding char_of_bytes by simp
  then have differ: "\<forall>salt h. argon2_hash plain_argon2 (as_bytes ''password1'') salt = Inr h \<longrightarrow>
      argon2_check plain_argon2 (as_bytes ''password2'') h = PasswordDiffers"
    by (simp add: plain_argon2_def)
  note claim = register_then_login [OF plain_argon2_ok reg account_steps.started calm]
  have "case r of Inr lr \<Rightarrow> same_account u (lr_user lr) | Inl x \<Rightarrow> drawn_twice (tb w1) x"
    using claim [OF l] n by (auto split: sum.splits)
  moreover have "r2 = Inl Unauthorized" using claim [OF l2] differ by auto
  ultimately show ?thesis using reg l l2 by auto
qed

end
