(* ===== verification/IntegrityService.thy ===== *)
theory IntegrityService
  imports World ChunkService
begin

text \<open>
  Integrity events and scans (\<open>src/src/services/integrity_service.rs\<close>) and one round of each
  background worker (\<open>src/src/services/background/\<close>; the workers repeat their round forever, with
  sleeps between). A walk takes one unit of fuel per directory; \<open>None\<close> is a walk that has not
  ended. The counters are 64-bit; a scan that counts beyond them would need as many files.
\<close>

section \<open>Events\<close>

definition insert_event :: "integrity_event \<Rightarrow> tables \<Rightarrow> sqlx_error + (integrity_event \<times> tables)" where
  "insert_event e t =
     (if ie_id e \<in> ie_id ` set (t_events t) then Inl (unique_failed ''integrity_events.id'')
      else Inr (e, t\<lparr>t_events := t_events t @ [e]\<rparr>))"

definition record_event ::
  "string \<Rightarrow> string \<Rightarrow> string \<Rightarrow> string \<Rightarrow> string option \<Rightarrow> string \<Rightarrow> ('z, integrity_event) svc"
where
  "record_event target_type target_id file_path event_type details detected_by =
     bind new_uuid (\<lambda>i.
     sqlx (exec_returning (\<lambda>now. insert_event
       \<lparr>ie_id = i, ie_target_type = target_type, ie_target_id = target_id, ie_file_path = file_path,
        ie_event_type = event_type, ie_details = details, ie_detected_by = detected_by, ie_acknowledged = 0,
        ie_created_at = now\<rparr>)))"

text \<open>\<open>ORDER BY created_at DESC\<close>; rows of the same second come in either order, here the later first.\<close>

definition newest_first :: "integrity_event list \<Rightarrow> integrity_event list" where
  "newest_first es = rev (sort_key ie_created_at es)"

definition list_events :: "string \<Rightarrow> string \<Rightarrow> ('z, integrity_event list) svc" where
  "list_events target_type target_id = sqlx (select (\<lambda>t.
     sort_key (\<lambda>e. sint (ie_acknowledged e)) (newest_first
       (filter (\<lambda>e. ie_target_type e = target_type \<and> ie_target_id e = target_id) (t_events t)))))"

definition list_unacknowledged :: "string \<Rightarrow> string \<Rightarrow> ('z, integrity_event list) svc" where
  "list_unacknowledged target_type target_id = sqlx (select (\<lambda>t. newest_first
     (filter (\<lambda>e. ie_target_type e = target_type \<and> ie_target_id e = target_id \<and> ie_acknowledged e = 0) (t_events t))))"

definition acknowledge_event :: "string \<Rightarrow> ('z, bool) svc" where
  "acknowledge_event event_id =
     bind (sqlx (exec (\<lambda>now t.
       let P = (\<lambda>e. ie_id e = event_id \<and> ie_acknowledged e = 0)
       in Inr (count_where P (t_events t), t\<lparr>t_events := update_where P (\<lambda>e. e\<lparr>ie_acknowledged := 1\<rparr>) (t_events t)\<rparr>))))
     (\<lambda>rows_affected. ret (rows_affected > 0))"

section \<open>Scans\<close>

record scan_result =
  sr_files_scanned :: nat
  sr_failures_found :: nat

definition scan_root :: "app_config \<Rightarrow> string \<Rightarrow> string \<Rightarrow> path" where
  "scan_root config kind target_id = path_join (path_join (data_dir config) kind) target_id"

definition relative_path :: "path \<Rightarrow> path \<Rightarrow> string" where
  "relative_path root full =
     map (\<lambda>c. if c = CHR 0x5C then CHR ''/'' else c)
       (if is_prefix root full then join_with (CHR ''/'') (drop (length root) full) else display_path full)"

text \<open>The event for a status, if it calls for one.\<close>

definition scan_finding :: "integrity_status \<Rightarrow> (string \<times> string) option" where
  "scan_finding st = (case st of
       StatusOk \<Rightarrow> None
     | FileHashMismatch \<Rightarrow> Some (''checksum_mismatch'', ''File hash mismatch detected during background scan'')
     | DecryptionFailed msg \<Rightarrow>
         Some (if contains msg ''truncated'' \<or> contains msg ''too small'' then ''file_truncated'' else ''decrypt_failed'', msg))"

definition scan_file ::
  "crypto \<Rightarrow> string \<Rightarrow> string \<Rightarrow> path \<Rightarrow> byte list option \<Rightarrow> path \<Rightarrow> nat \<times> nat \<Rightarrow> ('z, nat \<times> nat) svc"
where
  "scan_file C target_type target_id root data_key file_path = (\<lambda>(files_scanned, failures_found).
     bind (verify_file_integrity_async C data_key file_path) (\<lambda>st. case scan_finding st of
         None \<Rightarrow> ret (files_scanned + 1, failures_found)
       | Some (event_type, details) \<Rightarrow>
           bind (ignore (record_event target_type target_id (relative_path root file_path) event_type (Some details)
             ''background_scan'')) (\<lambda>_. ret (files_scanned + 1, failures_found + 1))))"

fun scan_entries ::
  "crypto \<Rightarrow> string \<Rightarrow> string \<Rightarrow> path \<Rightarrow> byte list option \<Rightarrow> (string \<times> path) list \<Rightarrow> path list \<Rightarrow> nat \<times> nat
    \<Rightarrow> ('z, path list \<times> (nat \<times> nat)) svc"
where
  "scan_entries C target_type target_id root data_key [] stack counts = bind (attempt next_entry) (\<lambda>_. ret (stack, counts))"
| "scan_entries C target_type target_id root data_key ((name, entry_path) # rest) stack counts =
     bind (attempt next_entry) (\<lambda>n. case n of
         Inl _ \<Rightarrow> ret (stack, counts)
       | Inr _ \<Rightarrow>
           if name = META_FILENAME \<or> starts_with name ''.'' then
             scan_entries C target_type target_id root data_key rest stack counts
           else
             bind (attempt (fs_symlink_metadata entry_path)) (\<lambda>m. case m of
                 Inl _ \<Rightarrow> scan_entries C target_type target_id root data_key rest stack counts
               | Inr entry_meta \<Rightarrow>
                   if is_dir entry_meta then
                     scan_entries C target_type target_id root data_key rest (entry_path # stack) counts
                   else if is_file entry_meta then
                     bind (scan_file C target_type target_id root data_key entry_path counts) (\<lambda>counts'.
                     scan_entries C target_type target_id root data_key rest stack counts')
                   else scan_entries C target_type target_id root data_key rest stack counts))"

fun scan_loop ::
  "nat \<Rightarrow> crypto \<Rightarrow> string \<Rightarrow> string \<Rightarrow> path \<Rightarrow> byte list option \<Rightarrow> path list \<Rightarrow> nat \<times> nat \<Rightarrow> ('z, (nat \<times> nat) option) svc"
where
  "scan_loop fuel C target_type target_id root data_key [] counts = ret (Some counts)"
| "scan_loop 0 C target_type target_id root data_key (d # stack) counts = ret None"
| "scan_loop (Suc fuel) C target_type target_id root data_key (d # stack) counts =
     bind (attempt (fs_read_dir d)) (\<lambda>r. case r of
         Inl _ \<Rightarrow> scan_loop fuel C target_type target_id root data_key stack counts
       | Inr entries \<Rightarrow>
           bind (scan_entries C target_type target_id root data_key entries stack counts) (\<lambda>(stack', counts').
           scan_loop fuel C target_type target_id root data_key stack' counts'))"

definition scan_directory ::
  "crypto \<Rightarrow> string \<Rightarrow> string \<Rightarrow> path \<Rightarrow> path \<Rightarrow> byte list option \<Rightarrow> ('z, scan_result option) svc"
where
  "scan_directory C target_type target_id root start data_key =
     bind (gets (\<lambda>w. Suc (length (tree w)))) (\<lambda>fuel.
     bind (scan_loop fuel C target_type target_id root data_key [start] (0, 0)) (\<lambda>r.
     ret (map_option (\<lambda>(n, f). \<lparr>sr_files_scanned = n, sr_failures_found = f\<rparr>) r)))"

definition scan_library ::
  "crypto \<Rightarrow> app_config \<Rightarrow> string \<Rightarrow> ('z world_scheme, app_error, scan_result option) act"
where
  "scan_library C config library_id =
     (let root = scan_root config ''libraries'' library_id
      in bind (gets (\<lambda>w. get_library_key (unlocked w) library_id)) (\<lambda>data_key.
         scan_directory C ''library'' library_id root root data_key))"

definition scan_space ::
  "crypto \<Rightarrow> app_config \<Rightarrow> string \<Rightarrow> ('z world_scheme, app_error, scan_result option) act"
where
  "scan_space C config space_id =
     (let root = scan_root config ''spaces'' space_id
      in bind (gets (\<lambda>w. get_space_key (unlocked w) space_id)) (\<lambda>data_key.
         scan_directory C ''space'' space_id root root data_key))"

section \<open>Background workers\<close>

definition run_scan :: "crypto \<Rightarrow> app_config \<Rightarrow> ('z world_scheme, app_error, unit) act" where
  "run_scan C config =
     bind (attempt (sqlx (select (\<lambda>t. map pl_id (t_libraries t))))) (\<lambda>r. case r of
         Inl e \<Rightarrow> ret ()
       | Inr libs \<Rightarrow> for_each libs (\<lambda>i. ignore (scan_library C config i)))"

definition integrity_scan_round :: "crypto \<Rightarrow> app_config \<Rightarrow> ('z world_scheme, app_error, unit) act" where
  "integrity_scan_round C config = (if \<not> integrity_scan_enabled config then ret () else run_scan C config)"

definition session_cleanup_round :: "('z db_scheme, app_error, unit) act" where
  "session_cleanup_round = ignore delete_expired"

definition chunk_cleanup_round :: "app_config \<Rightarrow> ('z db_scheme, app_error, unit) act" where
  "chunk_cleanup_round config = ignore (cleanup_expired_uploads config)"

end
