(* ===== verification/Http.thy ===== *)
theory Http
  imports Guards IntegrityService LibraryService
begin

text \<open>
  What the API routes of \<open>src/src/routes/\<close> share: the state the server manages, the answer of a
  route, the body of a request, the responders that send a file, and the headers \<open>main.rs\<close> adds to
  every response and the error bodies of its catchers. Routing, the parsing of paths, queries and
  JSON bodies and the rendering of JSON are Rocket's and serde's: a route takes the parsed values
  and gives the value to render. A body is a parameter too: what \<open>open(limit).into_bytes()\<close> gives
  for a limit, an error or the bytes read and whether they are all of them.
\<close>

section \<open>Routes\<close>

text \<open>The managed state: the libraries the program calls, the configuration and the master key.\<close>

record server_env =
  env_crypto :: crypto
  env_ext :: ext
  env_tools :: tools
  env_argon2 :: argon2
  env_config :: app_config
  env_master_key :: "byte list"

text \<open>A refusal is the status and the error, from a guard or from the handler's result.\<close>

type_synonym ('z, 'a) route = "('z world_scheme, nat \<times> app_error, 'a) act"

definition by_handler :: "('w, app_error, 'a) act \<Rightarrow> ('w, nat \<times> app_error, 'a) act" where
  "by_handler m = map_err refuse m"

definition with_guard ::
  "('w, nat \<times> app_error, 'u) act \<Rightarrow> ('u \<Rightarrow> ('w, app_error, 'a) act) \<Rightarrow> ('w, nat \<times> app_error, 'a) act"
where
  "with_guard guard handler = bind guard (\<lambda>u. by_handler (handler u))"

text \<open>\<open>CsrfXhr\<close> as a further guard of a route.\<close>

definition csrf_guard :: "request \<Rightarrow> ('w, nat \<times> app_error, unit) act" where
  "csrf_guard rq = lift (csrf_xhr rq)"

section \<open>Bodies\<close>

type_synonym body_stream = "nat \<Rightarrow> string + byte list \<times> bool"

definition read_body :: "body_stream \<Rightarrow> nat \<Rightarrow> string \<Rightarrow> app_error \<Rightarrow> app_error + byte list" where
  "read_body data allowed failure too_big =
     (case data allowed of
        Inl e \<Rightarrow> Inl (Internal (failure @ e))
      | Inr (bytes, is_complete) \<Rightarrow> if \<not> is_complete then Inl too_big else Inr bytes)"

definition hard_cap_bytes :: nat where "hard_cap_bytes = 50 * 1024 * 1024"

definition read_upload :: "app_config \<Rightarrow> body_stream \<Rightarrow> app_error + byte list" where
  "read_upload config data =
     (let allowed_bytes = min (max_upload_bytes config) hard_cap_bytes
      in read_body data allowed_bytes ''Failed to read upload data: ''
           (Validation (''Upload exceeds the maximum allowed size of '' @ format_bytes allowed_bytes @ ''.'')))"

text \<open>The limit of a chunk wraps at 64 bits, as a release build does.\<close>

definition read_chunk :: "app_config \<Rightarrow> body_stream \<Rightarrow> app_error + byte list" where
  "read_chunk config data =
     read_body data ((chunk_size_bytes config + 1) mod 2 ^ 64) ''Failed to read chunk data: ''
       (Validation (''Chunk exceeds the maximum chunk size of '' @ show_nat (chunk_size_bytes config) @ '' bytes.''))"

section \<open>Responses\<close>

record http_response =
  hr_status :: nat
  hr_headers :: "(string \<times> string) list"
  hr_body :: "byte list"

definition same_header :: "string \<Rightarrow> string \<Rightarrow> bool" where
  "same_header a b = (to_ascii_lowercase a = to_ascii_lowercase b)"

definition set_header :: "string \<Rightarrow> string \<Rightarrow> http_response \<Rightarrow> http_response" where
  "set_header name v res = res\<lparr>hr_headers := filter (\<lambda>h. \<not> same_header (fst h) name) (hr_headers res) @ [(name, v)]\<rparr>"

definition header_of :: "http_response \<Rightarrow> string \<Rightarrow> string option" where
  "header_of res name = map_option snd (List.find (\<lambda>h. same_header (fst h) name) (hr_headers res))"

datatype content_type = BinaryContent | ContentType string string

fun show_content_type :: "content_type \<Rightarrow> string" where
  "show_content_type BinaryContent = ''application/octet-stream''"
| "show_content_type (ContentType main sub) = main @ ''/'' @ sub"

text \<open>\<open>m.splitn(2, '/')\<close>: two parts when there is a slash.\<close>

definition parse_content_type :: "string option \<Rightarrow> content_type" where
  "parse_content_type mime =
     (case mime of None \<Rightarrow> BinaryContent
      | Some m \<Rightarrow>
          (let main = takeWhile (\<lambda>c. \<not> path_sep c) m in
           if length main < length m then ContentType main (drop (length main + 1) m) else BinaryContent))"

record file_download =
  fd_data :: "byte list"
  fd_filename :: string
  fd_content_type :: content_type
  fd_checksum_sha256 :: string

definition escape_quotes :: "string \<Rightarrow> string" where
  "escape_quotes s = concat (map (\<lambda>c. if c = CHR 0x22 then [CHR 0x5C, CHR 0x22] else [c]) s)"

definition file_response :: "file_download \<Rightarrow> http_response" where
  "file_response d =
     set_header ''Content-Disposition'' (''attachment; filename='' @ CHR 0x22 # escape_quotes (fd_filename d) @ [CHR 0x22])
    (set_header ''X-IronDrive-Integrity'' (fd_checksum_sha256 d)
    (set_header ''Content-Type'' (show_content_type (fd_content_type d))
      \<lparr>hr_status = 200, hr_headers = [], hr_body = fd_data d\<rparr>))"

record file_chunk_download =
  fc_data :: "byte list"
  fc_content_type :: content_type
  fc_checksum_sha256 :: string
  fc_chunk_index :: "32 word"
  fc_total_chunks :: "32 word"
  fc_total_bytes :: nat

definition chunk_response :: "file_chunk_download \<Rightarrow> http_response" where
  "chunk_response d =
     set_header ''X-IronDrive-Total-Bytes'' (show_nat (fc_total_bytes d))
    (set_header ''X-IronDrive-Chunk-Total'' (show_nat (unat (fc_total_chunks d)))
    (set_header ''X-IronDrive-Chunk-Index'' (show_nat (unat (fc_chunk_index d)))
    (set_header ''X-IronDrive-Integrity'' (fc_checksum_sha256 d)
    (set_header ''Content-Type'' (show_content_type (fc_content_type d))
      \<lparr>hr_status = 200, hr_headers = [], hr_body = fc_data d\<rparr>))))"

section \<open>Fairings and catchers\<close>

definition content_security_policy :: string where
  "content_security_policy =
     ''default-src '' @ quoted ''self'' @ ''; script-src '' @ quoted ''self'' @
     ''; style-src '' @ quoted ''self'' @ '' '' @ quoted ''unsafe-inline'' @ '' https://fonts.googleapis.com; img-src '' @ quoted ''self'' @
     '' data:; font-src '' @ quoted ''self'' @ '' https://fonts.gstatic.com; connect-src '' @ quoted ''self'' @
     ''; frame-ancestors '' @ quoted ''none'' @ ''; base-uri '' @ quoted ''self'' @ ''; form-action '' @ quoted ''self''"

definition security_headers_fairing :: "http_response \<Rightarrow> http_response" where
  "security_headers_fairing res =
     set_header ''Content-Security-Policy'' content_security_policy
    (set_header ''Permissions-Policy'' ''camera=(), microphone=(), geolocation=()''
    (set_header ''Referrer-Policy'' ''strict-origin-when-cross-origin''
    (set_header ''X-Frame-Options'' ''DENY''
    (set_header ''X-Content-Type-Options'' ''nosniff'' res))))"

definition cache_control_fairing :: "request \<Rightarrow> http_response \<Rightarrow> http_response" where
  "cache_control_fairing rq res =
     (if starts_with (rq_path rq) ''/static/'' then set_header ''Cache-Control'' ''public, max-age=31536000, immutable'' res
      else set_header ''Cache-Control'' ''no-cache, no-store, must-revalidate'' res)"

text \<open>The catchers: the description for a status, and the template a browser gets instead.\<close>

definition catcher_description :: "nat \<Rightarrow> string option" where
  "catcher_description = map_of [
     (400, ''The request was invalid.''),
     (401, ''Authentication required.''),
     (403, ''You do not have permission to perform this action.''),
     (404, ''The requested resource was not found.''),
     (409, ''The request conflicts with existing data.''),
     (422, ''The request body could not be processed.''),
     (500, ''An internal server error occurred.'')]"

definition catcher_template :: "nat \<Rightarrow> string" where
  "catcher_template code = (if code = 403 then ''errors/403'' else if code = 404 then ''errors/404'' else ''errors/500'')"

end
