(* ===== verification/LibraryRoutes.thy ===== *)
theory LibraryRoutes
  imports Http
begin

text \<open>
  The JSON API of a personal library: \<open>src/src/routes/library.rs\<close>. Every route asks for a user who
  has completed setup and, but for serving a chunk, works on the library of that user.
\<close>

section \<open>Requests and responses\<close>

record mkdir_response =
  mk_path :: string
  mk_message :: string

record rename_response =
  rr_old_path :: string
  rr_new_path :: string
  rr_message :: string

record list_response =
  lr_path :: string
  lr_entries :: "fs_entry list"

record upload_response =
  ur_path :: string
  ur_size :: nat
  ur_disk_size :: nat
  ur_checksum_sha256 :: string
  ur_mime_type :: "string option"
  ur_message :: string

record usage_response =
  ug_disk_bytes :: nat
  ug_file_count :: nat
  ug_dir_count :: nat

record init_chunk_upload_request =
  iq_path :: string
  iq_total_chunks :: "32 word"
  iq_total_bytes :: nat
  iq_checksum_sha256 :: "string option"

record init_chunk_upload_response =
  ir_upload_id :: string
  ir_chunk_size_bytes :: nat
  ir_total_chunks :: "32 word"
  ir_total_bytes :: nat
  ir_expires_at :: string
  ir_message :: string

record chunk_upload_response =
  cr_upload_id :: string
  cr_chunk_index :: "32 word"
  cr_received_chunks :: "32 word"
  cr_total_chunks :: "32 word"
  cr_message :: string

record cancel_chunk_upload_response =
  cc_upload_id :: string
  cc_message :: string

definition upload_response_of :: "upload_result \<Rightarrow> string \<Rightarrow> upload_response" where
  "upload_response_of result message =
     \<lparr>ur_path = up_path result, ur_size = up_size result, ur_disk_size = up_disk_size result,
      ur_checksum_sha256 = up_checksum_sha256 result, ur_mime_type = up_mime_type result, ur_message = message\<rparr>"

definition usage_response_of :: "usage_result \<Rightarrow> usage_response" where
  "usage_response_of result =
     \<lparr>ug_disk_bytes = us_disk_bytes result, ug_file_count = us_file_count result, ug_dir_count = us_dir_count result\<rparr>"

definition file_download_of :: "download_result \<Rightarrow> file_download" where
  "file_download_of result =
     \<lparr>fd_data = dl_data result, fd_filename = dl_filename result,
      fd_content_type = parse_content_type (dl_mime_type result), fd_checksum_sha256 = dl_checksum_sha256 result\<rparr>"

section \<open>Helpers\<close>

definition require_library :: "string \<Rightarrow> ('z, personal_library) svc" where
  "require_library user_id = bind (library_find_by_user user_id) (\<lambda>found. ok_or NotFound found)"

definition library_handler ::
  "server_env \<Rightarrow> request \<Rightarrow> (user \<Rightarrow> personal_library \<Rightarrow> unlock_state \<Rightarrow> ('z world_scheme, app_error, 'a) act) \<Rightarrow> ('z, 'a) route"
where
  "library_handler V rq handler =
     with_guard (setup_complete_user (env_ext V) (env_crypto V) rq) (\<lambda>user.
     bind (require_library (u_id user)) (\<lambda>lib.
     bind (gets unlocked) (\<lambda>u. handler user lib u)))"

section \<open>Files\<close>

definition library_list :: "server_env \<Rightarrow> request \<Rightarrow> string option \<Rightarrow> bool option \<Rightarrow> ('z, list_response) route" where
  "library_list V rq path integrity =
     library_handler V rq (\<lambda>user lib u.
     let user_path = (case path of None \<Rightarrow> [] | Some p \<Rightarrow> p); check_integrity = (integrity = Some True) in
     bind (list_directory (env_crypto V) (env_ext V) (env_config V) u (pl_id lib) user_path check_integrity) (\<lambda>entries.
     ret \<lparr>lr_path = user_path, lr_entries = entries\<rparr>))"

definition library_mkdir :: "server_env \<Rightarrow> request \<Rightarrow> string \<Rightarrow> ('z, mkdir_response) route" where
  "library_mkdir V rq body_path =
     library_handler V rq (\<lambda>user lib u.
     bind (create_directory (env_config V) (pl_id lib) body_path) (\<lambda>path.
     ret \<lparr>mk_path = path, mk_message = ''Directory created successfully.''\<rparr>))"

definition library_upload ::
  "server_env \<Rightarrow> request \<Rightarrow> string \<Rightarrow> bool option \<Rightarrow> body_stream \<Rightarrow> ('z, upload_response) route"
where
  "library_upload V rq path verify data =
     library_handler V rq (\<lambda>user lib u.
     bind (lift (read_upload (env_config V) data)) (\<lambda>bytes.
     bind (upload_file (env_crypto V) (env_ext V) (env_config V) u (pl_id lib) path bytes (verify = Some True)) (\<lambda>result.
     ret (upload_response_of result ''File uploaded successfully.''))))"

definition library_download :: "server_env \<Rightarrow> request \<Rightarrow> string \<Rightarrow> ('z, http_response) route" where
  "library_download V rq path =
     library_handler V rq (\<lambda>user lib u.
     bind (download_file (env_crypto V) (env_ext V) (env_config V) u (pl_id lib) path) (\<lambda>result.
     ret (file_response (file_download_of result))))"

definition library_delete :: "server_env \<Rightarrow> request \<Rightarrow> string \<Rightarrow> ('z, string) route" where
  "library_delete V rq path =
     library_handler V rq (\<lambda>user lib u.
     bind (delete_entry (env_config V) (pl_id lib) path) (\<lambda>_. ret ''Entry deleted successfully.''))"

definition library_rename :: "server_env \<Rightarrow> request \<Rightarrow> string \<Rightarrow> string \<Rightarrow> ('z, rename_response) route" where
  "library_rename V rq old_path new_path =
     library_handler V rq (\<lambda>user lib u.
     bind (rename_entry (env_config V) (pl_id lib) old_path new_path) (\<lambda>result.
     ret \<lparr>rr_old_path = rn_old_path result, rr_new_path = rn_new_path result, rr_message = ''Entry renamed successfully.''\<rparr>))"

definition library_info :: "server_env \<Rightarrow> request \<Rightarrow> string option \<Rightarrow> bool option \<Rightarrow> ('z, fs_entry) route" where
  "library_info V rq path integrity =
     library_handler V rq (\<lambda>user lib u.
     get_entry_info (env_crypto V) (env_ext V) (env_config V) u (pl_id lib)
       (case path of None \<Rightarrow> [] | Some p \<Rightarrow> p) (integrity = Some True))"

definition library_usage :: "server_env \<Rightarrow> request \<Rightarrow> string option \<Rightarrow> ('z, usage_response option) route" where
  "library_usage V rq path =
     library_handler V rq (\<lambda>user lib u.
     bind (calculate_usage (env_config V) (pl_id lib) (case path of None \<Rightarrow> [] | Some p \<Rightarrow> p)) (\<lambda>result.
     ret (map_option usage_response_of result)))"

section \<open>Chunked transfers\<close>

definition chunked_init_upload ::
  "server_env \<Rightarrow> request \<Rightarrow> init_chunk_upload_request \<Rightarrow> ('z, init_chunk_upload_response) route"
where
  "chunked_init_upload V rq body =
     library_handler V rq (\<lambda>user lib u.
     bind (init_upload (env_config V)
       \<lparr>ip_user_id = u_id user, ip_target_id = pl_id lib, ip_target_type = ''library'', ip_target_path = iq_path body,
        ip_total_chunks = iq_total_chunks body, ip_total_bytes = iq_total_bytes body,
        ip_checksum_sha256 = iq_checksum_sha256 body\<rparr>) (\<lambda>result.
     ret \<lparr>ir_upload_id = iu_upload_id result, ir_chunk_size_bytes = iu_chunk_size_bytes result,
          ir_total_chunks = iu_total_chunks result, ir_total_bytes = iu_total_bytes result,
          ir_expires_at = iu_expires_at result, ir_message = ''Chunked upload initialized.''\<rparr>))"

definition chunked_receive_chunk ::
  "server_env \<Rightarrow> request \<Rightarrow> string \<Rightarrow> 32 word \<Rightarrow> body_stream \<Rightarrow> ('z, chunk_upload_response) route"
where
  "chunked_receive_chunk V rq upload_id chunk_index data =
     library_handler V rq (\<lambda>user lib u.
     bind (lift (read_chunk (env_config V) data)) (\<lambda>bytes.
     bind (receive_chunk (env_tools V) (env_config V) (u_id user) (pl_id lib) ''library'' upload_id chunk_index bytes) (\<lambda>result.
     ret \<lparr>cr_upload_id = rc_upload_id result, cr_chunk_index = rc_chunk_index result,
          cr_received_chunks = rc_received_chunks result, cr_total_chunks = rc_total_chunks result,
          cr_message = ''Chunk received.''\<rparr>)))"

definition chunked_complete_upload ::
  "server_env \<Rightarrow> request \<Rightarrow> string \<Rightarrow> bool option \<Rightarrow> ('z, upload_response) route"
where
  "chunked_complete_upload V rq upload_id verify =
     library_handler V rq (\<lambda>user lib u.
     bind (complete_upload (env_crypto V) (env_ext V) (env_tools V) (env_config V) u (u_id user) (pl_id lib) ''library''
       upload_id (verify = Some True)) (\<lambda>result.
     ret (upload_response_of result ''Chunked upload completed successfully.'')))"

definition chunked_cancel_upload :: "server_env \<Rightarrow> request \<Rightarrow> string \<Rightarrow> ('z, cancel_chunk_upload_response) route" where
  "chunked_cancel_upload V rq upload_id =
     library_handler V rq (\<lambda>user lib u.
     bind (cancel_upload (env_tools V) (env_config V) (u_id user) (pl_id lib) ''library'' upload_id) (\<lambda>_.
     ret \<lparr>cc_upload_id = upload_id, cc_message = ''Chunked upload canceled and cleaned up.''\<rparr>))"

definition chunked_init_download :: "server_env \<Rightarrow> request \<Rightarrow> string \<Rightarrow> ('z, init_download_result) route" where
  "chunked_init_download V rq path =
     library_handler V rq (\<lambda>user lib u.
     init_download (env_crypto V) (env_ext V) (env_tools V) (env_config V) u (u_id user) (pl_id lib) ''library'' path)"

definition chunked_download_chunk :: "server_env \<Rightarrow> request \<Rightarrow> string \<Rightarrow> 32 word \<Rightarrow> ('z, http_response) route" where
  "chunked_download_chunk V rq token index =
     with_guard (setup_complete_user (env_ext V) (env_crypto V) rq) (\<lambda>user.
     bind (gets unlocked) (\<lambda>u.
     bind (serve_chunk (env_crypto V) (env_ext V) (env_tools V) (env_config V) u (u_id user) token index) (\<lambda>result.
     ret (chunk_response
       \<lparr>fc_data = cd_data result, fc_content_type = parse_content_type (cd_mime_type result),
        fc_checksum_sha256 = cd_checksum_sha256 result, fc_chunk_index = cd_chunk_index result,
        fc_total_chunks = cd_total_chunks result, fc_total_bytes = cd_total_bytes result\<rparr>))))"

end
