(* ===== verification/SpaceRoutes.thy ===== *)
theory SpaceRoutes
  imports LibraryRoutes
begin

text \<open>
  The JSON API of spaces: \<open>src/src/routes/spaces.rs\<close>. The guard of a route establishes the user and
  the space named by the path, with at least the level the route needs; the handler works on them.
\<close>

section \<open>Requests and responses\<close>

record create_space_request =
  csr_name :: string
  csr_owner_type :: string
  csr_group_id :: "string option"

definition default_owner_type :: string where "default_owner_type = ''user''"

record space_response =
  srs_id :: string
  srs_name :: string
  srs_owner_type :: string
  srs_owner_id :: string
  srs_encryption_mode :: string
  srs_created_at :: string
  srs_grantee_count :: int
  srs_user_permission :: string

definition space_response_of :: "space_with_meta \<Rightarrow> space_response" where
  "space_response_of s =
     \<lparr>srs_id = s_id (sw_space s), srs_name = s_name (sw_space s), srs_owner_type = s_owner_type (sw_space s),
      srs_owner_id = s_owner_id (sw_space s), srs_encryption_mode = s_encryption_mode (sw_space s),
      srs_created_at = s_created_at (sw_space s), srs_grantee_count = sw_grantee_count s,
      srs_user_permission = sw_user_permission s\<rparr>"

definition by_reader ::
  "server_env \<Rightarrow> request \<Rightarrow> (user \<Rightarrow> space_with_meta \<Rightarrow> ('z world_scheme, app_error, 'a) act) \<Rightarrow> ('z, 'a) route"
where
  "by_reader V rq handler = with_guard (space_reader (env_ext V) (env_crypto V) rq) (\<lambda>(user, space). handler user space)"

definition by_writer ::
  "server_env \<Rightarrow> request \<Rightarrow> (user \<Rightarrow> space_with_meta \<Rightarrow> ('z world_scheme, app_error, 'a) act) \<Rightarrow> ('z, 'a) route"
where
  "by_writer V rq handler = with_guard (space_writer (env_ext V) (env_crypto V) rq) (\<lambda>(user, space). handler user space)"

definition by_admin ::
  "server_env \<Rightarrow> request \<Rightarrow> (user \<Rightarrow> space_with_meta \<Rightarrow> ('z world_scheme, app_error, 'a) act) \<Rightarrow> ('z, 'a) route"
where
  "by_admin V rq handler = with_guard (space_admin (env_ext V) (env_crypto V) rq) (\<lambda>(user, space). handler user space)"

section \<open>Spaces\<close>

definition api_create_space :: "server_env \<Rightarrow> request \<Rightarrow> create_space_request \<Rightarrow> ('z, space_response) route" where
  "api_create_space V rq body =
     with_guard (setup_complete_user (env_ext V) (env_crypto V) rq) (\<lambda>user.
     bind (if csr_owner_type body = ''group'' then
             bind (ok_or (Validation (''group_id is required when owner_type is '' @ quoted ''group'' @ ''.'')) (csr_group_id body)) (\<lambda>group_id.
             create_group_space (env_crypto V) (env_config V) (env_master_key V) group_id (csr_name body))
           else if csr_owner_type body = ''user'' \<or> csr_owner_type body = [] then
             create_space (env_crypto V) (env_config V) (env_master_key V) (u_id user) (csr_name body)
           else throw (Validation (''Invalid owner_type '' @ quoted (csr_owner_type body) @ ''. Must be '' @
             quoted ''user'' @ '' or '' @ quoted ''group'' @ ''.''))) (\<lambda>result.
     ret (space_response_of result)))"

definition api_list_spaces :: "server_env \<Rightarrow> request \<Rightarrow> ('z, space_response list) route" where
  "api_list_spaces V rq =
     with_guard (setup_complete_user (env_ext V) (env_crypto V) rq) (\<lambda>user.
     bind (list_user_spaces (u_id user)) (\<lambda>spaces. ret (map space_response_of spaces)))"

definition api_get_space :: "server_env \<Rightarrow> request \<Rightarrow> ('z, space_response) route" where
  "api_get_space V rq = by_reader V rq (\<lambda>user space. ret (space_response_of space))"

definition api_update_space :: "server_env \<Rightarrow> request \<Rightarrow> string \<Rightarrow> ('z, space_response) route" where
  "api_update_space V rq name =
     by_admin V rq (\<lambda>user space.
     bind (update_space (u_id user) (s_id (sw_space space)) name) (\<lambda>_.
     bind (get_space (u_id user) (s_id (sw_space space))) (\<lambda>refreshed.
     ret (space_response_of refreshed))))"

definition api_delete_space :: "server_env \<Rightarrow> request \<Rightarrow> ('z, string) route" where
  "api_delete_space V rq =
     by_admin V rq (\<lambda>user space.
     bind (delete_space (env_config V) (u_id user) (s_id (sw_space space))) (\<lambda>_.
     ret ''Space deleted successfully.''))"

section \<open>Access\<close>

definition api_list_access :: "server_env \<Rightarrow> request \<Rightarrow> ('z, space_access_detail list) route" where
  "api_list_access V rq = by_reader V rq (\<lambda>user space. list_access (u_id user) (s_id (sw_space space)))"

definition api_grant_user_access :: "server_env \<Rightarrow> request \<Rightarrow> string \<Rightarrow> string \<Rightarrow> ('z, space_access) route" where
  "api_grant_user_access V rq username permission =
     by_admin V rq (\<lambda>user space. grant_user_access (u_id user) (s_id (sw_space space)) username permission)"

definition api_grant_group_access :: "server_env \<Rightarrow> request \<Rightarrow> string \<Rightarrow> string \<Rightarrow> ('z, space_access) route" where
  "api_grant_group_access V rq group_id permission =
     by_admin V rq (\<lambda>user space. grant_group_access (u_id user) (s_id (sw_space space)) group_id permission)"

definition api_update_access :: "server_env \<Rightarrow> request \<Rightarrow> string \<Rightarrow> string \<Rightarrow> string \<Rightarrow> ('z, space_access) route" where
  "api_update_access V rq grantee_type grantee_id permission =
     by_admin V rq (\<lambda>user space.
       update_access_permission (u_id user) (s_id (sw_space space)) grantee_type grantee_id permission)"

definition api_revoke_access :: "server_env \<Rightarrow> request \<Rightarrow> string \<Rightarrow> string \<Rightarrow> ('z, string) route" where
  "api_revoke_access V rq grantee_type grantee_id =
     by_admin V rq (\<lambda>user space.
     bind (revoke_access (u_id user) (s_id (sw_space space)) grantee_type grantee_id) (\<lambda>_.
     ret ''Access revoked successfully.''))"

section \<open>Files\<close>

definition api_list_files :: "server_env \<Rightarrow> request \<Rightarrow> string option \<Rightarrow> bool option \<Rightarrow> ('z, list_response) route" where
  "api_list_files V rq path integrity =
     by_reader V rq (\<lambda>user space.
     let user_path = (case path of None \<Rightarrow> [] | Some p \<Rightarrow> p); check_integrity = (integrity = Some True) in
     bind (gets unlocked) (\<lambda>u.
     bind (list_space_directory (env_crypto V) (env_ext V) (env_config V) u (s_id (sw_space space)) user_path
       check_integrity) (\<lambda>entries.
     ret \<lparr>lr_path = user_path, lr_entries = entries\<rparr>)))"

definition api_mkdir :: "server_env \<Rightarrow> request \<Rightarrow> string \<Rightarrow> ('z, mkdir_response) route" where
  "api_mkdir V rq body_path =
     by_writer V rq (\<lambda>user space.
     bind (create_space_directory (env_config V) (s_id (sw_space space)) body_path) (\<lambda>path.
     ret \<lparr>mk_path = path, mk_message = ''Directory created successfully.''\<rparr>))"

definition api_upload ::
  "server_env \<Rightarrow> request \<Rightarrow> string \<Rightarrow> bool option \<Rightarrow> body_stream \<Rightarrow> ('z, upload_response) route"
where
  "api_upload V rq path verify data =
     by_writer V rq (\<lambda>user space.
     bind (lift (read_upload (env_config V) data)) (\<lambda>bytes.
     bind (gets unlocked) (\<lambda>u.
     bind (upload_space_file (env_crypto V) (env_ext V) (env_config V) u (s_id (sw_space space)) path bytes
       (verify = Some True)) (\<lambda>result.
     ret (upload_response_of result ''File uploaded successfully.'')))))"

definition api_download :: "server_env \<Rightarrow> request \<Rightarrow> string \<Rightarrow> ('z, http_response) route" where
  "api_download V rq path =
     by_reader V rq (\<lambda>user space.
     bind (gets unlocked) (\<lambda>u.
     bind (download_space_file (env_crypto V) (env_ext V) (env_config V) u (s_id (sw_space space)) path) (\<lambda>result.
     ret (file_response (file_download_of result)))))"

definition api_delete_file :: "server_env \<Rightarrow> request \<Rightarrow> string \<Rightarrow> ('z, string) route" where
  "api_delete_file V rq path =
     by_writer V rq (\<lambda>user space.
     bind (delete_space_entry (env_config V) (s_id (sw_space space)) path) (\<lambda>_. ret ''Entry deleted successfully.''))"

definition api_rename_file :: "server_env \<Rightarrow> request \<Rightarrow> string \<Rightarrow> string \<Rightarrow> ('z, rename_response) route" where
  "api_rename_file V rq old_path new_path =
     by_writer V rq (\<lambda>user space.
     bind (rename_space_entry (env_config V) (s_id (sw_space space)) old_path new_path) (\<lambda>result.
     ret \<lparr>rr_old_path = rn_old_path result, rr_new_path = rn_new_path result,
          rr_message = ''Entry renamed successfully.''\<rparr>))"

definition api_file_info :: "server_env \<Rightarrow> request \<Rightarrow> string option \<Rightarrow> bool option \<Rightarrow> ('z, fs_entry) route" where
  "api_file_info V rq path integrity =
     by_reader V rq (\<lambda>user space.
     bind (gets unlocked) (\<lambda>u.
     get_space_entry_info (env_crypto V) (env_ext V) (env_config V) u (s_id (sw_space space))
       (case path of None \<Rightarrow> [] | Some p \<Rightarrow> p) (integrity = Some True)))"

definition api_file_usage :: "server_env \<Rightarrow> request \<Rightarrow> string option \<Rightarrow> ('z, usage_response option) route" where
  "api_file_usage V rq path =
     by_reader V rq (\<lambda>user space.
     bind (calculate_space_usage (env_config V) (s_id (sw_space space)) (case path of None \<Rightarrow> [] | Some p \<Rightarrow> p)) (\<lambda>result.
     ret (map_option usage_response_of result)))"

end
