(* ===== verification/AccountRoutes.thy ===== *)
theory AccountRoutes
  imports Http GroupService
begin

text \<open>
  The JSON API of accounts (\<open>src/src/routes/auth.rs\<close>), groups (\<open>src/src/routes/groups.rs\<close>) and
  integrity events (\<open>src/src/routes/integrity.rs\<close>), and the health check.
\<close>

section \<open>Accounts\<close>

record register_response =
  rg_user_id :: string
  rg_username :: string
  rg_role :: string
  rg_setup_complete :: bool

record login_user_info =
  li_id :: string
  li_username :: string
  li_email :: string
  li_role :: string

record login_response =
  lg_token :: string
  lg_setup_complete :: bool
  lg_user :: login_user_info

record setup_library_response =
  sl_library_id :: string
  sl_encryption_mode :: string
  sl_message :: string

definition raw_bearer_token :: "request \<Rightarrow> ('w, nat \<times> app_error, string) act" where
  "raw_bearer_token rq = ok_or (refuse Unauthorized) (extract_bearer_token rq)"

definition api_register :: "server_env \<Rightarrow> string \<Rightarrow> string \<Rightarrow> string \<Rightarrow> ('z, register_response) route" where
  "api_register V username email password =
     by_handler (bind (register (env_argon2 V) (env_config V) username email password) (\<lambda>user.
     ret \<lparr>rg_user_id = u_id user, rg_username = u_username user, rg_role = u_role user,
          rg_setup_complete = u_setup_complete user\<rparr>))"

definition api_login :: "server_env \<Rightarrow> string \<Rightarrow> string \<Rightarrow> ('z, login_response) route" where
  "api_login V username password =
     by_handler (bind (login (env_ext V) (env_crypto V) (env_tools V) (env_argon2 V) (env_config V) username password) (\<lambda>result.
     ret \<lparr>lg_token = lr_token result, lg_setup_complete = lr_setup_complete result,
          lg_user = \<lparr>li_id = u_id (lr_user result), li_username = u_username (lr_user result),
                     li_email = u_email (lr_user result), li_role = u_role (lr_user result)\<rparr>\<rparr>))"

definition api_logout :: "server_env \<Rightarrow> request \<Rightarrow> ('z, string) route" where
  "api_logout V rq =
     bind (authenticated_user (env_ext V) (env_crypto V) rq) (\<lambda>user.
     bind (raw_bearer_token rq) (\<lambda>raw_token.
     by_handler (bind (logout (u_id user) (hash_token (env_ext V) (env_crypto V) raw_token)) (\<lambda>_.
     ret ''Logged out successfully.''))))"

definition api_setup_library :: "server_env \<Rightarrow> request \<Rightarrow> ('z, setup_library_response) route" where
  "api_setup_library V rq =
     with_guard (authenticated_user (env_ext V) (env_crypto V) rq) (\<lambda>user.
     bind (setup_library (env_crypto V) (env_config V) (env_master_key V) (u_id user)) (\<lambda>library.
     ret \<lparr>sl_library_id = pl_id library, sl_encryption_mode = pl_encryption_mode library,
          sl_message = ''Personal library created successfully.''\<rparr>))"

definition api_health :: "string \<Rightarrow> string \<times> string" where
  "api_health version = (''ok'', version)"

section \<open>Groups\<close>

record group_response =
  gr_id :: string
  gr_name :: string
  gr_description :: "string option"
  gr_created_by :: string
  gr_created_at :: string
  gr_member_count :: int
  gr_user_role :: string

record member_response =
  mr_user_id :: string
  mr_username :: string
  mr_email :: string
  mr_role :: string
  mr_joined_at :: string

definition default_member_role :: string where "default_member_role = ''member''"

definition group_response_of :: "group_with_meta \<Rightarrow> group_response" where
  "group_response_of g =
     \<lparr>gr_id = g_id (gw_group g), gr_name = g_name (gw_group g), gr_description = g_description (gw_group g),
      gr_created_by = g_created_by (gw_group g), gr_created_at = g_created_at (gw_group g),
      gr_member_count = gw_member_count g, gr_user_role = gw_user_role g\<rparr>"

definition member_response_of :: "group_member_detail \<Rightarrow> member_response" where
  "member_response_of m =
     \<lparr>mr_user_id = gm_user_id m, mr_username = gmd_username m, mr_email = gmd_email m, mr_role = gm_role m,
      mr_joined_at = gm_joined_at m\<rparr>"

definition by_user :: "server_env \<Rightarrow> request \<Rightarrow> (string \<Rightarrow> ('z world_scheme, app_error, 'a) act) \<Rightarrow> ('z, 'a) route" where
  "by_user V rq handler = with_guard (setup_complete_user (env_ext V) (env_crypto V) rq) (\<lambda>user. handler (u_id user))"

definition api_create_group :: "server_env \<Rightarrow> request \<Rightarrow> string \<Rightarrow> string option \<Rightarrow> ('z, group_response) route" where
  "api_create_group V rq name description =
     by_user V rq (\<lambda>uid. bind (create_group uid name description) (\<lambda>result. ret (group_response_of result)))"

definition api_list_groups :: "server_env \<Rightarrow> request \<Rightarrow> ('z, group_response list) route" where
  "api_list_groups V rq =
     by_user V rq (\<lambda>uid. bind (list_user_groups uid) (\<lambda>groups. ret (map group_response_of groups)))"

definition api_get_group :: "server_env \<Rightarrow> request \<Rightarrow> string \<Rightarrow> ('z, group_response) route" where
  "api_get_group V rq i = by_user V rq (\<lambda>uid. bind (get_group uid i) (\<lambda>g. ret (group_response_of g)))"

definition api_update_group :: "server_env \<Rightarrow> request \<Rightarrow> string \<Rightarrow> string \<Rightarrow> string option \<Rightarrow> ('z, group_response) route" where
  "api_update_group V rq i name description =
     by_user V rq (\<lambda>uid.
     bind (update_group uid i name description) (\<lambda>group.
     bind (get_group uid (g_id group)) (\<lambda>g. ret (group_response_of g))))"

definition api_delete_group :: "server_env \<Rightarrow> request \<Rightarrow> string \<Rightarrow> ('z, string) route" where
  "api_delete_group V rq i =
     by_user V rq (\<lambda>uid. bind (delete_group uid i) (\<lambda>_. ret ''Group deleted successfully.''))"

definition api_list_members :: "server_env \<Rightarrow> request \<Rightarrow> string \<Rightarrow> ('z, member_response list) route" where
  "api_list_members V rq i =
     by_user V rq (\<lambda>uid. bind (list_members uid i) (\<lambda>members. ret (map member_response_of members)))"

definition api_add_member :: "server_env \<Rightarrow> request \<Rightarrow> string \<Rightarrow> string \<Rightarrow> string \<Rightarrow> ('z, member_response) route" where
  "api_add_member V rq i username role =
     by_user V rq (\<lambda>uid.
     bind (add_member uid i username role) (\<lambda>member.
     bind (list_members uid i) (\<lambda>members.
     bind (ok_or (Internal ''Added member not found in list'')
       (List.find (\<lambda>m. gm_user_id m = gm_user_id member) members)) (\<lambda>detail.
     ret (member_response_of detail)))))"

definition api_remove_member :: "server_env \<Rightarrow> request \<Rightarrow> string \<Rightarrow> string \<Rightarrow> ('z, string) route" where
  "api_remove_member V rq i user_id =
     by_user V rq (\<lambda>uid. bind (remove_member uid i user_id) (\<lambda>_. ret ''Member removed successfully.''))"

definition api_update_member_role :: "server_env \<Rightarrow> request \<Rightarrow> string \<Rightarrow> string \<Rightarrow> string \<Rightarrow> ('z, member_response) route" where
  "api_update_member_role V rq i user_id role =
     by_user V rq (\<lambda>uid.
     bind (update_member_role uid i user_id role) (\<lambda>_.
     bind (list_members uid i) (\<lambda>members.
     bind (ok_or (Internal ''Updated member not found in list'') (List.find (\<lambda>m. gm_user_id m = user_id) members)) (\<lambda>detail.
     ret (member_response_of detail)))))"

section \<open>Integrity events\<close>

record acknowledge_response =
  ak_acknowledged :: bool
  ak_message :: string

record notifications_response =
  nr_count :: nat
  nr_events :: "integrity_event list"

record scan_response =
  sn_result :: scan_result
  sn_message :: string

definition own_library :: "string \<Rightarrow> ('z, personal_library) svc" where
  "own_library user_id = bind (library_find_by_user user_id) (\<lambda>found. ok_or NotFound found)"

definition api_list_events :: "server_env \<Rightarrow> request \<Rightarrow> ('z, integrity_event list) route" where
  "api_list_events V rq =
     by_user V rq (\<lambda>uid. bind (own_library uid) (\<lambda>lib. list_events ''library'' (pl_id lib)))"

definition api_acknowledge_event :: "server_env \<Rightarrow> request \<Rightarrow> string \<Rightarrow> ('z, acknowledge_response) route" where
  "api_acknowledge_event V rq i =
     bind (setup_complete_user (env_ext V) (env_crypto V) rq) (\<lambda>user.
     bind (csrf_guard rq) (\<lambda>_.
     by_handler (bind (own_library (u_id user)) (\<lambda>lib.
       bind (list_events ''library'' (pl_id lib)) (\<lambda>events.
       bind (reject_if (\<not> list_ex (\<lambda>e. ie_id e = i) events) NotFound) (\<lambda>_.
       bind (acknowledge_event i) (\<lambda>acked.
       ret \<lparr>ak_acknowledged = acked,
            ak_message = (if acked then ''Event acknowledged.''
                          else ''Event was already acknowledged or not found.'')\<rparr>)))))))"

definition api_notifications :: "server_env \<Rightarrow> request \<Rightarrow> ('z, notifications_response) route" where
  "api_notifications V rq =
     by_user V rq (\<lambda>uid. bind (own_library uid) (\<lambda>lib.
     bind (list_unacknowledged ''library'' (pl_id lib)) (\<lambda>events.
     ret \<lparr>nr_count = length events, nr_events = events\<rparr>)))"

definition api_admin_list_events ::
  "server_env \<Rightarrow> request \<Rightarrow> string option \<Rightarrow> string option \<Rightarrow> ('z, integrity_event list) route"
where
  "api_admin_list_events V rq target_type target_id =
     with_guard (admin_user (env_ext V) (env_crypto V) rq) (\<lambda>admin.
     let t_type = (case target_type of None \<Rightarrow> ''library'' | Some t \<Rightarrow> t);
         t_id = (case target_id of None \<Rightarrow> [] | Some i \<Rightarrow> i) in
     bind (reject_if (t_id = []) (Validation ''target_id is required'')) (\<lambda>_. list_events t_type t_id))"

definition api_admin_scan ::
  "server_env \<Rightarrow> request \<Rightarrow> string option \<Rightarrow> string option \<Rightarrow> ('z, scan_response option) route"
where
  "api_admin_scan V rq target_type target_id =
     bind (admin_user (env_ext V) (env_crypto V) rq) (\<lambda>admin.
     bind (csrf_guard rq) (\<lambda>_.
     by_handler (
       let t_type = (case target_type of None \<Rightarrow> ''library'' | Some t \<Rightarrow> t) in
       bind (ok_or (Validation ''target_id is required'')
         (case target_id of None \<Rightarrow> None | Some s \<Rightarrow> if s = [] then None else Some s)) (\<lambda>t_id.
       bind (if t_type = ''library'' then scan_library (env_crypto V) (env_config V) t_id
             else if t_type = ''space'' then scan_space (env_crypto V) (env_config V) t_id
             else throw (Validation (''target_type must be '' @ quoted ''library'' @ '' or '' @ quoted ''space''))) (\<lambda>result.
       ret (map_option (\<lambda>r. \<lparr>sn_result = r, sn_message = ''Scan complete: '' @ show_nat (sr_files_scanned r) @
         '' files scanned, '' @ show_nat (sr_failures_found r) @ '' failures found.''\<rparr>) result))))))"

end
