(* ===== verification/Api.thy ===== *)
theory Api
  imports SpaceRoutes AccountRoutes GroupFacts
begin

text \<open>
  The whole JSON API: the calls of \<open>src/src/routes/\<close> that \<open>all_routes\<close> mounts (\<open>mod.rs\<close>), one
  constructor for each, and the route that serves each. The values the routes answer with are
  dropped here; what a call does to the state is kept.
\<close>

section \<open>Calls\<close>

datatype account_call =
    RegisterCall string string string
  | LoginCall string string
  | LogoutCall
  | SetupLibraryCall

fun serve_account :: "server_env \<Rightarrow> request \<Rightarrow> account_call \<Rightarrow> ('z, unit) route" where
  "serve_account V rq (RegisterCall username email password) = unit_of (api_register V username email password)"
| "serve_account V rq (LoginCall username password) = unit_of (api_login V username password)"
| "serve_account V rq LogoutCall = unit_of (api_logout V rq)"
| "serve_account V rq SetupLibraryCall = unit_of (api_setup_library V rq)"

datatype library_call =
    LibraryList "string option" "bool option"
  | LibraryMkdir string
  | LibraryUpload string "bool option" body_stream
  | LibraryDownload string
  | LibraryDelete string
  | LibraryRename string string
  | LibraryInfo "string option" "bool option"
  | LibraryUsage "string option"

fun serve_library :: "server_env \<Rightarrow> request \<Rightarrow> library_call \<Rightarrow> ('z, unit) route" where
  "serve_library V rq (LibraryList path integrity) = unit_of (library_list V rq path integrity)"
| "serve_library V rq (LibraryMkdir path) = unit_of (library_mkdir V rq path)"
| "serve_library V rq (LibraryUpload path verify data) = unit_of (library_upload V rq path verify data)"
| "serve_library V rq (LibraryDownload path) = unit_of (library_download V rq path)"
| "serve_library V rq (LibraryDelete path) = unit_of (library_delete V rq path)"
| "serve_library V rq (LibraryRename old new) = unit_of (library_rename V rq old new)"
| "serve_library V rq (LibraryInfo path integrity) = unit_of (library_info V rq path integrity)"
| "serve_library V rq (LibraryUsage path) = unit_of (library_usage V rq path)"

datatype chunk_call =
    ChunkInit init_chunk_upload_request
  | ChunkReceive string "32 word" body_stream
  | ChunkComplete string "bool option"
  | ChunkCancel string
  | DownloadInit string
  | DownloadChunk string "32 word"

fun serve_chunked :: "server_env \<Rightarrow> request \<Rightarrow> chunk_call \<Rightarrow> ('z, unit) route" where
  "serve_chunked V rq (ChunkInit body) = unit_of (chunked_init_upload V rq body)"
| "serve_chunked V rq (ChunkReceive upload_id index data) = unit_of (chunked_receive_chunk V rq upload_id index data)"
| "serve_chunked V rq (ChunkComplete upload_id verify) = unit_of (chunked_complete_upload V rq upload_id verify)"
| "serve_chunked V rq (ChunkCancel upload_id) = unit_of (chunked_cancel_upload V rq upload_id)"
| "serve_chunked V rq (DownloadInit path) = unit_of (chunked_init_download V rq path)"
| "serve_chunked V rq (DownloadChunk token index) = unit_of (chunked_download_chunk V rq token index)"

datatype integrity_call =
    ListEventsCall
  | AcknowledgeCall string
  | NotificationsCall
  | AdminEventsCall "string option" "string option"
  | AdminScanCall "string option" "string option"

fun serve_integrity :: "server_env \<Rightarrow> request \<Rightarrow> integrity_call \<Rightarrow> ('z, unit) route" where
  "serve_integrity V rq ListEventsCall = unit_of (api_list_events V rq)"
| "serve_integrity V rq (AcknowledgeCall i) = unit_of (api_acknowledge_event V rq i)"
| "serve_integrity V rq NotificationsCall = unit_of (api_notifications V rq)"
| "serve_integrity V rq (AdminEventsCall t i) = unit_of (api_admin_list_events V rq t i)"
| "serve_integrity V rq (AdminScanCall t i) = unit_of (api_admin_scan V rq t i)"

datatype group_call =
    CreateGroupCall string "string option"
  | ListGroupsCall
  | GetGroupCall string
  | UpdateGroupCall string string "string option"
  | DeleteGroupCall string
  | ListMembersCall string
  | AddMemberCall string string string
  | RemoveMemberCall string string
  | UpdateRoleCall string string string

fun serve_groups :: "server_env \<Rightarrow> request \<Rightarrow> group_call \<Rightarrow> ('z, unit) route" where
  "serve_groups V rq (CreateGroupCall name description) = unit_of (api_create_group V rq name description)"
| "serve_groups V rq ListGroupsCall = unit_of (api_list_groups V rq)"
| "serve_groups V rq (GetGroupCall i) = unit_of (api_get_group V rq i)"
| "serve_groups V rq (UpdateGroupCall i name description) = unit_of (api_update_group V rq i name description)"
| "serve_groups V rq (DeleteGroupCall i) = unit_of (api_delete_group V rq i)"
| "serve_groups V rq (ListMembersCall i) = unit_of (api_list_members V rq i)"
| "serve_groups V rq (AddMemberCall i username role) = unit_of (api_add_member V rq i username role)"
| "serve_groups V rq (RemoveMemberCall i uid) = unit_of (api_remove_member V rq i uid)"
| "serve_groups V rq (UpdateRoleCall i uid role) = unit_of (api_update_member_role V rq i uid role)"

datatype space_call =
    CreateSpaceCall create_space_request
  | ListSpacesCall
  | GetSpaceCall
  | UpdateSpaceCall string
  | DeleteSpaceCall
  | ListAccessCall
  | GrantUserCall string string
  | GrantGroupCall string string
  | UpdateAccessCall string string string
  | RevokeAccessCall string string

fun serve_spaces :: "server_env \<Rightarrow> request \<Rightarrow> space_call \<Rightarrow> ('z, unit) route" where
  "serve_spaces V rq (CreateSpaceCall body) = unit_of (api_create_space V rq body)"
| "serve_spaces V rq ListSpacesCall = unit_of (api_list_spaces V rq)"
| "serve_spaces V rq GetSpaceCall = unit_of (api_get_space V rq)"
| "serve_spaces V rq (UpdateSpaceCall name) = unit_of (api_update_space V rq name)"
| "serve_spaces V rq DeleteSpaceCall = unit_of (api_delete_space V rq)"
| "serve_spaces V rq ListAccessCall = unit_of (api_list_access V rq)"
| "serve_spaces V rq (GrantUserCall username p) = unit_of (api_grant_user_access V rq username p)"
| "serve_spaces V rq (GrantGroupCall i p) = unit_of (api_grant_group_access V rq i p)"
| "serve_spaces V rq (UpdateAccessCall t i p) = unit_of (api_update_access V rq t i p)"
| "serve_spaces V rq (RevokeAccessCall t i) = unit_of (api_revoke_access V rq t i)"

datatype file_call =
    ListFiles "string option" "bool option"
  | MakeDir string
  | UploadFile string "bool option" body_stream
  | DownloadFile string
  | DeleteFile string
  | RenameFile string string
  | FileInfo "string option" "bool option"
  | FileUsage "string option"

fun serve_space_files :: "server_env \<Rightarrow> request \<Rightarrow> file_call \<Rightarrow> ('z, unit) route" where
  "serve_space_files V rq (ListFiles path integrity) = unit_of (api_list_files V rq path integrity)"
| "serve_space_files V rq (MakeDir path) = unit_of (api_mkdir V rq path)"
| "serve_space_files V rq (UploadFile path verify data) = unit_of (api_upload V rq path verify data)"
| "serve_space_files V rq (DownloadFile path) = unit_of (api_download V rq path)"
| "serve_space_files V rq (DeleteFile path) = unit_of (api_delete_file V rq path)"
| "serve_space_files V rq (RenameFile old new) = unit_of (api_rename_file V rq old new)"
| "serve_space_files V rq (FileInfo path integrity) = unit_of (api_file_info V rq path integrity)"
| "serve_space_files V rq (FileUsage path) = unit_of (api_file_usage V rq path)"

datatype api_call =
    AccountCall account_call
  | LibraryCall library_call
  | ChunkCall chunk_call
  | IntegrityCall integrity_call
  | GroupCall group_call
  | SpaceCall space_call
  | FileCall file_call

fun serve_api :: "server_env \<Rightarrow> request \<Rightarrow> api_call \<Rightarrow> ('z, unit) route" where
  "serve_api V rq (AccountCall c) = serve_account V rq c"
| "serve_api V rq (LibraryCall c) = serve_library V rq c"
| "serve_api V rq (ChunkCall c) = serve_chunked V rq c"
| "serve_api V rq (IntegrityCall c) = serve_integrity V rq c"
| "serve_api V rq (GroupCall c) = serve_groups V rq c"
| "serve_api V rq (SpaceCall c) = serve_spaces V rq c"
| "serve_api V rq (FileCall c) = serve_space_files V rq c"

end
