(* ===== verification/Walks.thy ===== *)
theory Walks
  imports FsFacts "HOL-Library.Multiset"
begin

text \<open>
  Walks over a directory tree with a stack of directories still to read, as \<open>calculate_usage\<close> and
  \<open>scan_directory\<close> do them. The interface \<open>dir_walk\<close> is what the loop relies on: handling the
  entries of a directory changes no file and pushes some of the directories among them. From it:
  the walk ends, whatever fails on the way, within as many rounds as the tree has directories.
\<close>

section \<open>Entries of a directory\<close>

definition entries_of :: "tree \<Rightarrow> path \<Rightarrow> io_error + (string \<times> path) list" where
  "entries_of t d = (case stat_inode t d of Inl e \<Rightarrow> Inl e
      | Inr (q, Dir) \<Rightarrow> Inr (map (\<lambda>(n, i). (n, d @ [n])) (children t q))
      | Inr _ \<Rightarrow> Inl IoNotADirectory)"

lemma read_dir_entries: "fs_read_dir d = query (\<lambda>t. entries_of t d)"
  by (simp add: fs_read_dir_def entries_of_def)

lemma entries_of_Inr:
  "entries_of t d = Inr es \<Longrightarrow> \<exists>q. canon_path t d = Inr q \<and> lookup t q = Some Dir \<and> es = map (\<lambda>(n, i). (n, d @ [n])) (children t q)"
  by (auto simp: entries_of_def stat_inode_def split: sum.splits option.splits inode.splits)

text \<open>The entry is a directory itself, not a link to one.\<close>

definition real_dir :: "tree \<Rightarrow> path \<Rightarrow> bool" where
  "real_dir t p = (\<exists>q. lstat_inode t p = Inr (q, Dir))"

lemma walk_Cons: "walk n t cur (c # cs) = Inr (True, q) \<Longrightarrow> c \<noteq> [] \<Longrightarrow> c \<noteq> ''.'' \<Longrightarrow> c \<noteq> ''..'' \<Longrightarrow>
    lookup t (cur @ [c]) = Some Dir \<and> walk n t (cur @ [c]) cs = Inr (True, q) \<or>
    (\<exists>d. lookup t (cur @ [c]) = Some (Reg d) \<and> cs = [] \<and> q = cur @ [c]) \<or>
    (\<exists>s m. lookup t (cur @ [c]) = Some (Link s) \<and> n = Suc m \<and>
       walk m t (if starts_with s ''/'' then [] else cur) (split_on path_sep s @ cs) = Inr (True, q))"
  by (auto split: option.splits inode.splits nat.splits if_splits)

lemma walk_snoc:
  "walk n t cur cs = Inr (True, q) \<Longrightarrow> lookup t q = Some Dir \<Longrightarrow> name_ok c \<Longrightarrow> lookup t (q @ [c]) = Some Dir \<Longrightarrow>
   walk n t cur (cs @ [c]) = Inr (True, q @ [c])"
proof (induction n t cur cs rule: walk.induct)
  case (1 n t cur)
  then show ?case by (auto simp: name_ok_def)
next
  case (2 n t cur c' cs)
  consider "c' = [] \<or> c' = ''.''" | "c' = ''..''" | "c' \<noteq> []" "c' \<noteq> ''.''" "c' \<noteq> ''..''" by blast
  then show ?case
  proof cases
    case 3
    from walk_Cons [OF 2(5) 3] show ?thesis
    proof (elim disjE exE conjE)
      assume d: "lookup t (cur @ [c']) = Some Dir" "walk n t (cur @ [c']) cs = Inr (True, q)"
      then have "walk n t (cur @ [c']) (cs @ [c]) = Inr (True, q @ [c])" using 2(3) 3 2(6-8) by simp
      then show ?thesis using 3 d by simp
    next
      fix x assume "lookup t (cur @ [c']) = Some (Reg x)" "q = cur @ [c']"
      then show ?thesis using 2(6) by simp
    next
      fix s m assume l: "lookup t (cur @ [c']) = Some (Link s)" "n = Suc m"
        "walk m t (if starts_with s ''/'' then [] else cur) (split_on path_sep s @ cs) = Inr (True, q)"
      then have "walk m t (if starts_with s ''/'' then [] else cur) ((split_on path_sep s @ cs) @ [c]) = Inr (True, q @ [c])"
        using 2(4) 3 2(6-8) by blast
      then show ?thesis using 3 l by simp
    qed
  qed (use 2 in auto)
qed

lemma canon_path_snoc:
  assumes "canon_path t d = Inr q" "lookup t q = Some Dir" "name_ok c" "lookup t (q @ [c]) = Some Dir"
  shows "canon_path t (d @ [c]) = Inr (q @ [c])"
  using assms walk_snoc [of max_symlinks t "[]" d q c] by (auto simp: canon_path_def resolve_def split: sum.splits prod.splits bool.splits)

lemma lstat_entry:
  assumes "canon_path t d = Inr q" "lookup t q = Some Dir" "name_ok c" "lookup t (q @ [c]) = Some i"
  shows "lstat_inode t (d @ [c]) = Inr (q @ [c], i)"
  using assms by (auto simp: lstat_inode_def resolve_parent_def name_ok_def)

lemma children_iff: "(n, i) \<in> set (children t q) \<longleftrightarrow> (q @ [n], i) \<in> set t"
proof
  assume "(n, i) \<in> set (children t q)"
  then obtain p where "(p, i) \<in> set t" "p \<noteq> []" "butlast p = q" "last p = n" by (auto simp: children_def)
  then show "(q @ [n], i) \<in> set t" by (metis append_butlast_last_id)
next
  assume "(q @ [n], i) \<in> set t"
  then show "(n, i) \<in> set (children t q)" by (force simp: children_def)
qed

section \<open>The work left\<close>

definition subdirs :: "tree \<Rightarrow> path \<Rightarrow> path set" where
  "subdirs t q = {p. (p, Dir) \<in> set t \<and> is_prefix q p \<and> p \<noteq> q}"

definition work :: "tree \<Rightarrow> path \<Rightarrow> nat" where
  "work t d = Suc (case canon_path t d of Inl e \<Rightarrow> 0 | Inr q \<Rightarrow> card (subdirs t q))"

lemma finite_subdirs [simp]: "finite (subdirs t q)"
  by (rule finite_subset [of _ "fst ` set t"]) (force simp: subdirs_def)+

lemma work_bound: "work t d \<le> Suc (length t)"
proof -
  have "card (subdirs t q) \<le> length t" for q
  proof -
    have "card (subdirs t q) \<le> card (fst ` set t)" by (rule card_mono) (force simp: subdirs_def)+
    also have "\<dots> \<le> length t" by (metis card_length length_map list.set_map)
    finally show ?thesis .
  qed
  then show ?thesis by (simp add: work_def split: sum.splits)
qed

text \<open>A tree that lists every path once.\<close>

definition tidy :: "tree \<Rightarrow> bool" where
  "tidy t = (wf_tree t \<and> distinct (map fst t))"

lemma tidy_child:
  assumes "tidy t" "(n, i) \<in> set (children t q)"
  shows "lookup t (q @ [n]) = Some i \<and> name_ok n"
proof -
  have "(q @ [n], i) \<in> set t" using assms(2) by (simp add: children_iff)
  then have "lookup t (q @ [n]) = Some i" using assms(1) by (simp add: tidy_def lookup_def)
  then show ?thesis using assms(1) wf_name [of t q n] by (simp add: tidy_def)
qed

lemma tidy_children:
  assumes "tidy t"
  shows "distinct (map fst (children t q))"
proof -
  have "inj_on fst (set t)" "distinct t" using assms by (auto simp: tidy_def distinct_map)
  have "inj_on (\<lambda>x. last (fst x)) (set (filter (\<lambda>(p, i). p \<noteq> [] \<and> butlast p = q) t))"
  proof (rule inj_onI)
    fix x y assume h: "x \<in> set (filter (\<lambda>(p, i). p \<noteq> [] \<and> butlast p = q) t)"
      "y \<in> set (filter (\<lambda>(p, i). p \<noteq> [] \<and> butlast p = q) t)" "last (fst x) = last (fst y)"
    then have "fst x \<noteq> []" "butlast (fst x) = q" "fst y \<noteq> []" "butlast (fst y) = q" by (auto simp: split_def)
    then have "fst x = q @ [last (fst x)]" "fst y = q @ [last (fst y)]" by (metis append_butlast_last_id)+
    then have "fst x = fst y" using h(3) by simp
    then show "x = y" using h(1,2) \<open>inj_on fst (set t)\<close> by (simp add: inj_on_eq_iff)
  qed
  moreover have "map fst (map (\<lambda>(p, i). (last p, i)) xs) = map (\<lambda>x. last (fst x)) xs" for xs :: tree
    by (simp add: comp_def split_def)
  ultimately show ?thesis
    using \<open>distinct t\<close> by (simp only: children_def distinct_map distinct_filter)
qed

definition child_dirs :: "tree \<Rightarrow> path \<Rightarrow> string set" where
  "child_dirs t q = {n. lookup t (q @ [n]) = Some Dir}"

lemma child_dirs_work:
  assumes "tidy t" "finite N" "N \<subseteq> child_dirs t q"
  shows "(\<Sum>n\<in>N. Suc (card (subdirs t (q @ [n])))) \<le> card (subdirs t q)"
proof -
  let ?D = "\<lambda>n. insert (q @ [n]) (subdirs t (q @ [n]))"
  have "q @ [n] \<notin> subdirs t (q @ [n])" for n by (simp add: subdirs_def)
  then have "(\<Sum>n\<in>N. Suc (card (subdirs t (q @ [n])))) = (\<Sum>n\<in>N. card (?D n))" by simp
  also have "\<dots> = card (\<Union>n\<in>N. ?D n)"
  proof (rule card_UN_disjoint [symmetric])
    show "\<forall>m\<in>N. \<forall>n\<in>N. m \<noteq> n \<longrightarrow> ?D m \<inter> ?D n = {}"
      by (auto simp: subdirs_def is_prefix_iff)
  qed (use assms(2) in auto)
  also have "\<dots> \<le> card (subdirs t q)"
  proof (rule card_mono)
    have "(q @ [n], Dir) \<in> set t" if "n \<in> N" for n
      using assms(3) that by (auto simp: child_dirs_def lookup_def dest: map_of_SomeD)
    then show "(\<Union>n\<in>N. ?D n) \<subseteq> subdirs t q" by (auto simp: subdirs_def is_prefix_iff)
  qed simp
  finally show ?thesis .
qed

lemma sum_mset_le: "A \<subseteq># B \<Longrightarrow> sum_mset (image_mset f A) \<le> sum_mset (image_mset (f :: 'b \<Rightarrow> nat) B)"
  by (auto simp: subset_mset.le_iff_add)

lemma pushed_work:
  assumes t: "tidy t" and es: "entries_of t d = Inr es" and ds: "mset ds \<subseteq># mset (map snd (filter (\<lambda>e. real_dir t (snd e)) es))"
  shows "sum_list (map (work t) ds) < work t d"
proof -
  obtain q where q: "canon_path t d = Inr q" "lookup t q = Some Dir" "es = map (\<lambda>(n, i). (n, d @ [n])) (children t q)"
    using entries_of_Inr [OF es] by blast
  define ns where "ns = map fst (filter (\<lambda>(n, i). real_dir t (d @ [n])) (children t q))"
  have names: "map snd (filter (\<lambda>e. real_dir t (snd e)) es) = map (\<lambda>n. d @ [n]) ns"
    by (simp add: q(3) ns_def filter_map comp_def split_def)
  have dist: "distinct ns"
    using tidy_children [OF t, of q] by (simp add: ns_def distinct_map_filter)
  have dir: "lookup t (q @ [n]) = Some Dir \<and> name_ok n" if "n \<in> set ns" for n
  proof -
    obtain i where i: "(n, i) \<in> set (children t q)" "real_dir t (d @ [n])" using \<open>n \<in> set ns\<close> by (auto simp: ns_def)
    then have "lookup t (q @ [n]) = Some i" "name_ok n" using tidy_child [OF t] by blast+
    then show ?thesis using lstat_entry [OF q(1,2)] i(2) by (auto simp: real_dir_def)
  qed
  then have w: "work t (d @ [n]) = Suc (card (subdirs t (q @ [n])))" if "n \<in> set ns" for n
    using canon_path_snoc [OF q(1,2)] that by (simp add: work_def)
  have "sum_list (map (work t) ds) = sum_mset (image_mset (work t) (mset ds))" by (simp add: sum_mset_sum_list flip: mset_map)
  also have "\<dots> \<le> sum_mset (image_mset (work t) (mset (map (\<lambda>n. d @ [n]) ns)))"
    using ds names by (simp only: sum_mset_le)
  also have "\<dots> = sum_list (map (\<lambda>n. work t (d @ [n])) ns)" by (simp only: mset_map [symmetric] sum_mset_sum_list map_map comp_def)
  also have "\<dots> = (\<Sum>n\<in>set ns. Suc (card (subdirs t (q @ [n]))))"
    using dist w by (simp add: sum_list_distinct_conv_sum_set)
  also have "\<dots> \<le> card (subdirs t q)"
    using dir by (intro child_dirs_work [OF t]) (auto simp: child_dirs_def)
  finally show ?thesis by (simp add: work_def q(1))
qed

section \<open>The interface of a walk\<close>

text \<open>The outcome \<open>r\<close> of handling \<open>es\<close>: the stack, with some of their directories on top.\<close>

definition pushes :: "tree \<Rightarrow> (string \<times> path) list \<Rightarrow> path list \<Rightarrow> 'e + path list \<times> 'c \<Rightarrow> bool" where
  "pushes t es stack r = (\<exists>ds c. r = Inr (ds @ stack, c) \<and> mset ds \<subseteq># mset (map snd (filter (\<lambda>e. real_dir t (snd e)) es)))"

lemma pushes_none: "pushes t es stack (Inr (stack, c))"
  by (simp add: pushes_def)

lemma subset_add: "A \<subseteq># B \<Longrightarrow> A \<subseteq># add_mset x B"
  by (metis add_mset_add_single mset_subset_eq_add_left subset_mset.order_trans)

lemma pushes_skip: "pushes t es stack r \<Longrightarrow> pushes t (e # es) stack r"
  by (auto simp: pushes_def intro: subset_add)

lemma pushes_dir:
  assumes "pushes t es (p # stack) r" "real_dir t p"
  shows "pushes t ((n, p) # es) stack r"
proof -
  obtain ds c where ds: "r = Inr (ds @ p # stack, c)" "mset ds \<subseteq># mset (map snd (filter (\<lambda>e. real_dir t (snd e)) es))"
    using assms(1) by (auto simp: pushes_def)
  then have "r = Inr ((ds @ [p]) @ stack, c)" by simp
  moreover have "mset (ds @ [p]) \<subseteq># mset (map snd (filter (\<lambda>e. real_dir t (snd e)) ((n, p) # es)))"
    using ds(2) assms(2) by simp
  ultimately show ?thesis unfolding pushes_def by blast
qed

locale dir_walk =
  fixes step :: "(string \<times> path) list \<Rightarrow> path list \<Rightarrow> 'c \<Rightarrow> ('z os_scheme, 'e, path list \<times> 'c) act"
    and loop :: "nat \<Rightarrow> path list \<Rightarrow> 'c \<Rightarrow> ('z os_scheme, 'e, 'c option) act"
  assumes step_run: "step es stack c w = (r, w') \<Longrightarrow> tree w' = tree w \<and> pushes (tree w) es stack r"
    and loop_Nil: "loop fuel [] c = ret (Some c)"
    and loop_Cons: "loop (Suc fuel) (d # stack) c = bind (attempt (fs_read_dir d)) (\<lambda>r. case r of
         Inl _ \<Rightarrow> loop fuel stack c
       | Inr es \<Rightarrow> bind (step es stack c) (\<lambda>(stack', c'). loop fuel stack' c'))"
begin

lemma loop_ends:
  assumes "tidy (tree w)" "sum_list (map (work (tree w)) stack) \<le> fuel"
  shows "\<exists>c' w'. loop fuel stack c w = (Inr (Some c'), w') \<and> tree w' = tree w"
  using assms
proof (induction fuel arbitrary: stack c w)
  case 0
  then have "stack = []" by (cases stack) (simp_all add: work_def)
  then show ?case by (simp add: loop_Nil)
next
  case (Suc fuel)
  show ?case
  proof (cases stack)
    case Nil
    then show ?thesis by (simp add: loop_Nil)
  next
    case (Cons d rest)
    have pos: "0 < work (tree w) d" by (simp add: work_def)
    obtain r w1 where rd: "fs_read_dir d w = (r, w1)" by fastforce
    then have t1: "tree w1 = tree w" by (metis read_dir_entries tree_query snd_conv)
    show ?thesis
    proof (cases r)
      case (Inl e)
      then have "loop (Suc fuel) stack c w = loop fuel rest c w1" using rd Cons by (simp add: loop_Cons)
      then show ?thesis using Suc.IH [of w1 rest c] Suc.prems t1 Cons pos by simp
    next
      case (Inr es)
      then have es: "entries_of (tree w) d = Inr es" using rd query_Inr [of "\<lambda>t. entries_of t d" w es w1] by (simp add: read_dir_entries)
      obtain s w2 where st: "step es rest c w1 = (s, w2)" by fastforce
      then obtain ds c' where ds: "s = Inr (ds @ rest, c')" "tree w2 = tree w"
          "mset ds \<subseteq># mset (map snd (filter (\<lambda>e. real_dir (tree w) (snd e)) es))"
        using step_run [OF st] t1 by (auto simp: pushes_def)
      have "loop (Suc fuel) stack c w = loop fuel (ds @ rest) c' w2"
        using rd Cons Inr st ds(1) by (simp add: loop_Cons bind_def attempt_def)
      moreover have "sum_list (map (work (tree w2)) (ds @ rest)) \<le> fuel"
        using pushed_work [OF Suc.prems(1) es ds(3)] Suc.prems(2) Cons ds(2) by simp
      ultimately show ?thesis using Suc.IH [of w2 "ds @ rest" c'] Suc.prems(1) ds(2) by simp
    qed
  qed
qed

end


text \<open>Handling one entry, for the proofs of \<open>step_run\<close>.\<close>

lemma tree_next_entry: "tree (snd (next_entry w)) = tree w"
  by (simp add: next_entry_def)

lemma symlink_metadata_run:
  assumes "fs_symlink_metadata p w = (r, w')"
  shows "tree w' = tree w \<and> (\<forall>m. r = Inr m \<longrightarrow> is_dir m \<longrightarrow> real_dir (tree w) p)"
  using assms readonlyD [OF readonly_calls(3) assms]
  by (auto simp: fs_symlink_metadata_def with_meta_def bind_def real_dir_def inode_meta_def
      split: prod.splits sum.splits inode.splits dest!: query_Inr)

section \<open>The usage walk\<close>

lemma usage_entries_run:
  "usage_entries es stack u w = (r, w') \<Longrightarrow> tree w' = tree w \<and> pushes (tree w) es stack r"
proof (induction es arbitrary: stack u w r w')
  case Nil
  then show ?case by (cases u) (auto simp: tree_next_entry intro: pushes_none)
next
  case (Cons e es)
  obtain name p where e: "e = (name, p)" by fastforce
  obtain b f d where u: "u = (b, f, d)" by (cases u)
  obtain n w1 where n: "next_entry w = (n, w1)" by fastforce
  obtain m w2 where m: "fs_symlink_metadata p w1 = (m, w2)" by fastforce
  note t = tree_next_entry [of w, unfolded n snd_conv] symlink_metadata_run [OF m]
  have skip: "tree w' = tree w \<and> pushes (tree w) (e # es) stack r"
    if "usage_entries es stack u' v = (r, w')" "tree v = tree w" for u' v
    using Cons.IH [OF that(1)] that(2) by (simp add: pushes_skip)
  have dir: "tree w' = tree w \<and> pushes (tree w) (e # es) stack r"
    if "usage_entries es (p # stack) u' v = (r, w')" "tree v = tree w" "real_dir (tree w) p" for u' v
    using Cons.IH [OF that(1)] that(2,3) e by (simp add: pushes_dir)
  show ?case
  proof (cases n)
    case (Inl x)
    then show ?thesis using Cons.prems n t e u by (auto intro: pushes_none)
  next
    case (Inr x)
    note run = Cons.prems [unfolded e u, simplified, unfolded n, simplified, unfolded Inr m, simplified]
    then show ?thesis
      using t skip dir by (auto simp: n Inr m split: if_splits sum.splits)
  qed
qed

interpretation usage_walk: dir_walk usage_entries usage_loop
proof unfold_locales
  show "usage_entries es stack c w = (r, w') \<Longrightarrow> tree w' = tree w \<and> pushes (tree w) es stack r" for es stack c w r w'
    by (rule usage_entries_run)
qed simp_all

end
