(* ===== verification/IntegrityFacts.thy ===== *)
theory IntegrityFacts
  imports Walks IntegrityService Boot
begin

text \<open>
  The scan as a walk, and the end of every walk over a library or a space.
\<close>

section \<open>The scan of a file\<close>

text \<open>An action that always has a result.\<close>

definition total :: "('w, 'e, 'a) act \<Rightarrow> bool" where
  "total m = (\<forall>w. \<exists>x. fst (m w) = Inr x)"

lemma total_basic: "total (ret x)" "total (attempt m)" "total (gets f)" "total (ignore m)"
  by (simp_all add: total_def ret_def attempt_def gets_def ignore_def split: prod.splits)

lemma total_bind: "total m \<Longrightarrow> (\<And>x. total (k x)) \<Longrightarrow> total (bind m k)"
  by (simp add: total_def bind_def split: prod.splits sum.splits) (metis fst_conv Inr_inject sum.simps(4) old.sum.exhaust)

lemma total_is_stream: "total (is_stream_format p)"
  unfolding is_stream_format_def by (intro total_bind total_basic) (auto intro!: total_bind total_basic split: sum.splits)

lemma total_verify_async: "total (verify_file_integrity_async C key p)"
  unfolding verify_file_integrity_async_def
  by (intro total_bind total_basic) (auto intro!: total_bind total_basic total_is_stream split: sum.splits option.splits)

lemma total_scan_file: "total (scan_file C ty i root key p counts)"
  unfolding scan_file_def
  by (auto intro!: total_bind total_basic total_verify_async split: option.splits prod.splits)

lemma readonly_verify_segments: "keeps readonly (verify_segments C k n send pos h ctr pending)"
proof (induction C k n send pos h ctr pending rule: verify_segments.induct)
  case (1 C k n send pos h ctr pending)
  show ?case
  proof (cases pending)
    case None
    then show ?thesis
      by (subst verify_segments.simps, unfold Let_def None option.case, intro readonly_rules) (rule 1(1); simp)
  next
    case (Some prev)
    then show ?thesis
      by (cases "stream_open C k n ctr False prev"; subst verify_segments.simps;
          simp only: Let_def Some option.case; intro readonly_rules) (rule 1(2); simp)
  qed
qed

lemma readonly_verify_async: "keeps readonly (verify_file_integrity_async C key p)"
  unfolding verify_file_integrity_async_def stream_verify_decryption_def Let_def
  by (intro readonly_rules readonly_verify_file_hash readonly_decrypted(2) readonly_verify_segments)

lemma readonly_scan_file: "keeps readonly (scan_file C ty i root key p counts)"
  unfolding scan_file_def record_event_def split_def
  by (intro readonly_rules readonly_verify_async readonly_sqlx readonly_exec_returning)

lemma scan_entries_run:
  "scan_entries C ty i root key es stack counts w = (r, w') \<Longrightarrow> tree w' = tree w \<and> pushes (tree w) es stack r"
proof (induction es arbitrary: stack counts w r w')
  case Nil
  then show ?case by (auto simp: tree_next_entry intro: pushes_none)
next
  case (Cons e es)
  obtain name p where e: "e = (name, p)" by fastforce
  obtain n w1 where n: "next_entry w = (n, w1)" by fastforce
  obtain m w2 where m: "fs_symlink_metadata p w1 = (m, w2)" by fastforce
  obtain c w3 where s: "scan_file C ty i root key p counts w2 = (Inr c, w3)"
    using total_scan_file [unfolded total_def] by (metis prod.collapse)
  have scanned: "bind (scan_file C ty i root key p counts) k w2 = k c w3" for k using s by (simp add: bind_def)
  note t = tree_next_entry [of w, unfolded n snd_conv] symlink_metadata_run [OF m] readonlyD [OF readonly_scan_file s]
  have skip: "tree w' = tree w \<and> pushes (tree w) (e # es) stack r"
    if "scan_entries C ty i root key es stack c' v = (r, w')" "tree v = tree w" for c' v
    using Cons.IH [OF that(1)] that(2) by (simp add: pushes_skip)
  have dir: "tree w' = tree w \<and> pushes (tree w) (e # es) stack r"
    if "scan_entries C ty i root key es (p # stack) c' v = (r, w')" "tree v = tree w" "real_dir (tree w) p" for c' v
    using Cons.IH [OF that(1)] that(2,3) e by (simp add: pushes_dir)
  show ?case
  proof (cases n)
    case (Inl x)
    then show ?thesis using Cons.prems n t e by (auto intro: pushes_none)
  next
    case (Inr x)
    note run = Cons.prems [unfolded e, simplified, unfolded n, simplified, unfolded Inr m, simplified]
    then show ?thesis
      using t skip dir by (auto simp: n Inr m scanned split: if_splits sum.splits)
  qed
qed

interpretation scan_walk: dir_walk "scan_entries C ty i root key" "\<lambda>fuel. scan_loop fuel C ty i root key"
  for C ty i root key
proof unfold_locales
  show "scan_entries C ty i root key es stack c w = (r, w') \<Longrightarrow> tree w' = tree w \<and> pushes (tree w) es stack r"
    for es stack c w r w'
    by (rule scan_entries_run)
qed simp_all

section \<open>Every walk ends\<close>

lemma never_None_after:
  assumes "keeps readonly m" "\<And>x v. tree v = tree w \<Longrightarrow> fst (k x v) \<noteq> Inr None"
  shows "fst (bind m k w) \<noteq> Inr None"
proof -
  obtain r v where m: "m w = (r, v)" by fastforce
  then show ?thesis using assms(2) readonlyD [OF assms(1) m] by (cases r) (simp_all add: bind_def)
qed

lemma usage_ends:
  assumes t: "tidy (tree w)"
  shows "fst (calculate_usage config i up w) \<noteq> Inr None" "fst (calculate_space_usage config i up w) \<noteq> Inr None"
proof -
  have loop: "fst (bind (gets (\<lambda>w. Suc (length (tree w)))) (\<lambda>fuel. bind (usage_loop fuel [d] (0, 0, 0)) (\<lambda>r. case r of
       None \<Rightarrow> ret None | Some (b, f, n) \<Rightarrow> ret (Some \<lparr>us_disk_bytes = b, us_file_count = f, us_dir_count = n\<rparr>))) v) \<noteq> Inr None"
    if "tree v = tree w" for d and v :: "'b os_scheme"
  proof -
    have "tidy (tree v)" "sum_list (map (work (tree v)) [d]) \<le> Suc (length (tree v))" using t that work_bound by simp_all
    from usage_walk.loop_ends [OF this, of "(0, 0, 0)"]
    obtain c v' where "usage_loop (Suc (length (tree v))) [d] (0, 0, 0) v = (Inr (Some c), v')" by blast
    then show ?thesis by (simp add: bind_def gets_def split: prod.splits)
  qed
  have whole: "fst (bind (if up = [] then canonicalize_async root else safe_join_async root up) (\<lambda>target.
         bind (map_err (not_found_or ''Cannot read entry metadata'') (fs_metadata target)) (\<lambda>meta.
         if \<not> is_dir meta then
           ret (Some \<lparr>us_disk_bytes = len meta, us_file_count = 1, us_dir_count = 0\<rparr>)
         else bind (gets (\<lambda>w. Suc (length (tree w)))) (\<lambda>fuel. bind (usage_loop fuel [target] (0, 0, 0)) (\<lambda>r. case r of
       None \<Rightarrow> ret None | Some (b, f, n) \<Rightarrow> ret (Some \<lparr>us_disk_bytes = b, us_file_count = f, us_dir_count = n\<rparr>))))) w) \<noteq> Inr None" for root
    by (intro never_None_after readonly_rules readonly_safe_join_async readonly_canonicalize_async)
      (split if_split, intro conjI impI, simp, rule loop, simp)
  show "fst (calculate_usage config i up w) \<noteq> Inr None" "fst (calculate_space_usage config i up w) \<noteq> Inr None"
    unfolding calculate_usage_def calculate_space_usage_def Let_def by (rule whole)+
qed

lemma scan_ends:
  assumes "tidy (tree w)"
  shows "\<exists>r w'. scan_directory C ty i root start key w = (Inr (Some r), w') \<and> tree w' = tree w"
proof -
  have "sum_list (map (work (tree w)) [start]) \<le> Suc (length (tree w))" using work_bound by simp
  from scan_walk.loop_ends [OF assms this, of C ty i root key "(0, 0)"]
  show ?thesis by (auto simp: scan_directory_def bind_def gets_def ret_def split: prod.splits)
qed

text \<open>
  C38. Walks end. In a tree that lists every path once, whatever calls fail on the way and whatever
  the links in it, the walk of a usage request and of a scan ends within the fuel the model gives
  it (one round for each entry of the tree, and one for the start): a usage request has a result or
  an error, and a scan of a library or a space always has a result and changes no file.
\<close>

theorem walks_end:
  fixes w :: "'z world_scheme"
  assumes tidy: "tidy (tree w)"
  shows "fst (calculate_usage config i up w) \<noteq> Inr None \<and> fst (calculate_space_usage config i up w) \<noteq> Inr None \<and>
    (\<exists>r w'. scan_library C config i w = (Inr (Some r), w') \<and> tree w' = tree w) \<and>
    (\<exists>r w'. scan_space C config i w = (Inr (Some r), w') \<and> tree w' = tree w)"
  using usage_ends [OF tidy] scan_ends [OF tidy]
  by (simp add: scan_library_def scan_space_def Let_def)

definition shelf :: world where
  "shelf = (live no_tables)\<lparr>tree := realm_tree @ [([''srv'', ''libraries'', ''L'', ''a''], Dir),
     ([''srv'', ''libraries'', ''L'', ''a'', ''b''], Dir), ([''srv'', ''libraries'', ''L'', ''a'', ''c''], Reg [1])]\<rparr>"

theorem walks_end_witness:
  "\<exists>r w'. scan_library toy_crypto live_config ''L'' shelf = (Inr (Some r), w') \<and> tree w' = tree shelf"
proof -
  have "wf_tree (tree shelf)" unfolding shelf_def by simp (rule wf_treeI, code_simp)
  moreover have "distinct (map fst (tree shelf))" by code_simp
  ultimately have "tidy (tree shelf)" by (simp add: tidy_def)
  from walks_end [OF this] show ?thesis by blast
qed

end
