(* ===== verification/FileFrames.thy ===== *)
theory FileFrames
  imports IntegrityFacts
begin

text \<open>
  What the file operations cannot touch. The interface \<open>os_frame\<close> is a relation that no call of
  the operating system breaks: one that changes the tree, the tick, the random generator and the
  identifiers only. From it: no file operation breaks the relation, whatever it does.
\<close>

section \<open>The interface\<close>

locale os_frame = frame_rel R
  for R :: "'z os_scheme \<Rightarrow> 'z os_scheme \<Rightarrow> bool" +
  assumes R_tree: "R w (tick (w\<lparr>tree := t\<rparr>))"
    and R_tick: "R w (tick w)"
    and R_rng: "R w (w\<lparr>rng_pos := n\<rparr>)"
    and R_uuid: "R w (w\<lparr>uuid_pos := n\<rparr>)"
begin

lemma os_syscall: "keeps R (syscall f)"
  by (simp add: keeps_def syscall_def R_tree R_tick split: option.splits sum.splits)

lemma os_query: "keeps R (query f)"
  by (simp add: query_def os_syscall)

lemma os_mutate: "keeps R (mutate f)"
  by (simp add: mutate_def os_syscall)

lemma os_read_some: "keeps R (fs_read_some k h)"
  using os_query by (fastforce simp: keeps_def fs_read_some_def Let_def)

lemma os_random: "keeps R (fill_bytes n)" "keeps R new_uuid"
  by (simp_all add: keeps_def fill_bytes_def new_uuid_def R_rng R_uuid)

lemma os_with_meta: "keeps R (with_meta f)"
  unfolding with_meta_def by (intro keeps_rules os_query)

lemma os_calls:
  "keeps R (fs_canonicalize p)" "keeps R (fs_metadata p)" "keeps R (fs_symlink_metadata p)" "keeps R (fs_try_exists p)"
  "keeps R (fs_read_dir p)" "keeps R (fs_read p)" "keeps R (fs_open p)" "keeps R (fs_flush p)" "keeps R (fs_sync_data p)"
  "keeps R (fs_read_exact k h)" "keeps R (fs_create_dir_all p)" "keeps R (fs_create p)" "keeps R (fs_create_new p)"
  "keeps R (fs_write_all p d)" "keeps R (fs_remove_file p)" "keeps R (fs_remove_dir_all p)" "keeps R (fs_rename p q)"
  "keeps R next_entry"
  by (simp_all add: fs_canonicalize_def fs_metadata_def fs_symlink_metadata_def fs_try_exists_def fs_read_dir_def fs_read_def
      fs_open_def fs_flush_def fs_sync_data_def fs_read_exact_def fs_create_dir_all_def fs_create_def fs_create_new_def
      fs_write_all_def fs_remove_file_def fs_remove_dir_all_def fs_rename_def next_entry_def os_query os_mutate os_syscall os_with_meta)

lemma os_exists: "keeps R (exists_or_false p)"
  unfolding exists_or_false_def by (intro keeps_rules os_calls)

lemmas os_rules = keeps_rules os_calls os_random os_read_some os_exists

section \<open>File operations\<close>

lemma os_safe_walk: "keeps R (safe_walk root cur cs)"
proof (induction cs arbitrary: cur)
  case (Cons c cs)
  show ?case
    unfolding safe_walk.simps Let_def by (intro os_rules) (auto intro!: os_rules Cons split: io_error.splits)
qed (simp add: keeps_ret)

lemma os_paths: "keeps R (safe_join_async root u)" "keeps R (canonicalize_async p)" "keeps R (ensure_parent m p)"
  unfolding safe_join_async_def safe_join_def canonicalize_async_def ensure_parent_def
  by (intro os_rules os_safe_walk)+

lemma os_keys: "keeps R (require_data_key u i)" "keeps R (require_space_key u i)"
  unfolding require_data_key_def require_space_key_def by (intro os_rules)+

lemma os_verify_loop: "keeps R (verify_loop n h acc)"
proof (induction n h acc rule: verify_loop.induct)
  case (1 remaining h acc)
  show ?case by (subst verify_loop.simps) (intro os_rules; auto intro: 1)
qed

lemma os_verify_hash: "keeps R (verify_file_hash C p)"
  unfolding verify_file_hash_def Let_def by (intro os_rules os_verify_loop)

lemma os_verify_segments: "keeps R (verify_segments C k n send pos h ctr pending)"
proof (induction C k n send pos h ctr pending rule: verify_segments.induct)
  case (1 C k n send pos h ctr pending)
  show ?case
  proof (cases pending)
    case None
    then show ?thesis
      by (subst verify_segments.simps, unfold Let_def None option.case, intro os_rules) (rule 1(1); simp)
  next
    case (Some prev)
    then show ?thesis
      by (cases "stream_open C k n ctr False prev"; subst verify_segments.simps;
          simp only: Let_def Some option.case; intro os_rules) (rule 1(2); simp)
  qed
qed

lemma os_read_files:
  "keeps R (is_stream_format p)" "keeps R (read_and_decrypt_file C k p)" "keeps R (verify_file_integrity_async C key p)"
  unfolding is_stream_format_def read_and_decrypt_file_def stream_decrypt_file_def verify_file_integrity_async_def
    stream_verify_decryption_def Let_def
  by (intro os_rules os_verify_hash os_verify_segments)+

lemma os_stream_chunks: "keeps R (stream_chunks C k n out m i ps br h)"
  by (induction ps arbitrary: i br h) (auto intro!: os_rules)

lemma os_write_files:
  "keeps R (encrypt_and_write_file_owned C k d p v)" "keeps R (stream_encrypt_chunks_to_file C k ps sz p v)"
  unfolding encrypt_and_write_file_owned_def stream_encrypt_chunks_to_file_def Let_def
  by (intro os_rules os_verify_hash os_stream_chunks)+

lemma os_list_entries: "keeps R (list_entries C E root b key es acc)"
proof (induction es arbitrary: acc)
  case (Cons e es)
  then show ?case by (cases e) (auto intro!: os_rules os_read_files simp: Let_def)
qed (auto intro!: os_rules)

lemma os_usage_entries: "keeps R (usage_entries es stack u)"
proof (induction es arbitrary: stack u)
  case Nil
  show ?case by (cases u) (simp only: usage_entries.simps, intro os_rules)
next
  case (Cons e es)
  then show ?case by (cases e; cases u) (simp only: usage_entries.simps, intro os_rules)
qed

lemma os_usage_loop: "keeps R (usage_loop fuel stack u)"
proof (induction fuel arbitrary: stack u)
  case 0
  show ?case by (cases stack) (simp_all only: usage_loop.simps keeps_ret)
next
  case (Suc fuel)
  then show ?case by (cases stack) (simp_all only: usage_loop.simps, (intro os_rules os_usage_entries)+)
qed

lemmas os_parts = os_paths os_keys os_read_files os_write_files os_list_entries os_usage_loop

lemma os_library_files:
  "keeps R (list_directory C E config u i p b)" "keeps R (create_directory config i p)"
  "keeps R (upload_file C E config u i p d v)" "keeps R (upload_file_streaming C E config u i p ps sz v)"
  "keeps R (download_file C E config u i p)" "keeps R (delete_entry config i p)" "keeps R (rename_entry config i p q)"
  "keeps R (get_entry_info C E config u i p b)" "keeps R (calculate_usage config i p)"
  unfolding list_directory_def create_directory_def upload_file_def upload_file_owned_def upload_file_streaming_def
    download_file_def delete_entry_def rename_entry_def get_entry_info_def calculate_usage_def Let_def
  by (intro os_rules os_parts)+

lemma os_space_files:
  "keeps R (list_space_directory C E config u i p b)" "keeps R (create_space_directory config i p)"
  "keeps R (upload_space_file C E config u i p d v)" "keeps R (upload_space_file_streaming C E config u i p ps sz v)"
  "keeps R (download_space_file C E config u i p)" "keeps R (delete_space_entry config i p)" "keeps R (rename_space_entry config i p q)"
  "keeps R (get_space_entry_info C E config u i p b)" "keeps R (calculate_space_usage config i p)"
  unfolding list_space_directory_def create_space_directory_def upload_space_file_def upload_space_file_streaming_def
    download_space_file_def delete_space_entry_def rename_space_entry_def get_space_entry_info_def calculate_space_usage_def Let_def
  by (intro os_rules os_parts)+

section \<open>Chunks\<close>

lemma os_count_chunks: "keeps R (count_chunks es n)"
proof (induction es arbitrary: n)
  case (Cons e es)
  then show ?case by (cases e) (auto intro!: os_rules)
qed (auto intro!: os_rules)

lemma os_chunks: "keeps R (count_uploaded_chunks config i)" "keeps R (require_chunks n ps)"
proof -
  show "keeps R (count_uploaded_chunks config i)"
    unfolding count_uploaded_chunks_def Let_def by (intro os_rules os_count_chunks)
  show "keeps R (require_chunks n ps)" by (induction ps arbitrary: n) (auto intro!: os_rules)
qed

end

end
