(* ===== verification/RowTypes.thy ===== *)
theory RowTypes
  imports Api FileFrames AuthFacts
begin

text \<open>
  What the columns of the tables hold. SQLite checks keys and references but no value: that a role is
  one of three words, that a name is not empty and not too long, that a checksum is one, is for the
  program to see to before it writes (\<open>validate_*\<close> and \<open>normalize_*\<close> of the services, the constants
  of the routes). \<open>rows_typed\<close> states it of every row, without the program's own checks. The
  interface \<open>row_invariant\<close> is what a property of the tables must survive to survive every request:
  each statement the program executes, on values it has checked. The constraints of the schema and
  the types of the columns are two such properties.
\<close>

section \<open>Types of rows\<close>

definition user_typed :: "user_row \<Rightarrow> bool" where
  "user_typed u = (3 \<le> length (u_username u) \<and> length (u_username u) \<le> 32 \<and> list_all username_char (u_username u) \<and>
     to_ascii_lowercase (u_email u) = u_email u \<and> u_role u \<in> {''admin'', ''user''})"

definition library_typed :: "personal_library \<Rightarrow> bool" where
  "library_typed l = (pl_encryption_mode l = ''server'' \<and> pl_salt l = None \<and> pl_verify_blob l = None \<and> pl_recovery_blob l = None)"

definition group_typed :: "group_row \<Rightarrow> bool" where
  "group_typed g = (g_name g \<noteq> [] \<and> length (g_name g) \<le> 100 \<and>
     (case g_description g of None \<Rightarrow> True | Some d \<Rightarrow> d \<noteq> [] \<and> length d \<le> 500))"

definition member_typed :: "group_member \<Rightarrow> bool" where
  "member_typed m = (gm_role m \<in> {''owner'', ''manager'', ''member''})"

definition space_typed :: "space \<Rightarrow> bool" where
  "space_typed s = (s_name s \<noteq> [] \<and> length (s_name s) \<le> 100 \<and>
     list_all (\<lambda>b. 0x20 \<le> b \<and> b \<noteq> 0x7F) (as_bytes (s_name s)) \<and>
     s_owner_type s \<in> {''user'', ''group''} \<and> s_encryption_mode s = ''server'' \<and>
     s_salt s = None \<and> s_verify_blob s = None \<and> s_recovery_blob s = None)"

definition access_typed :: "space_access \<Rightarrow> bool" where
  "access_typed a = (sa_grantee_type a \<in> {''user'', ''group''} \<and> sa_permission a \<in> {''read'', ''write'', ''admin''})"

definition checksum_typed :: "string \<Rightarrow> bool" where
  "checksum_typed h = (length h = 64 \<and> list_all ascii_hexdigit h \<and> to_ascii_lowercase h = h)"

definition upload_typed :: "upload_row \<Rightarrow> bool" where
  "upload_typed r = (cu_target_type r \<in> {''library'', ''space''} \<and> trim (cu_target_path r) \<noteq> [] \<and>
     \<not> ends_with (cu_target_path r) ''/'' \<and> 0 < cu_total_chunks r \<and> cu_total_chunks r < 2 ^ 32 \<and>
     0 \<le> cu_received_chunks r \<and> cu_received_chunks r < 2 ^ 32 \<and> (case cu_checksum r of None \<Rightarrow> True | Some h \<Rightarrow> checksum_typed h))"

definition event_typed :: "integrity_event \<Rightarrow> bool" where
  "event_typed e = (ie_target_type e \<in> {''library'', ''space''} \<and>
     ie_event_type e \<in> {''checksum_mismatch'', ''decrypt_failed'', ''file_truncated''} \<and> ie_details e \<noteq> None \<and>
     ie_detected_by e = ''background_scan'' \<and> ie_acknowledged e \<in> {0, 1})"

definition rows_typed :: "tables \<Rightarrow> bool" where
  "rows_typed t = (list_all user_typed (t_users t) \<and> list_all library_typed (t_libraries t) \<and>
     list_all group_typed (t_groups t) \<and> list_all member_typed (t_group_members t) \<and> list_all space_typed (t_spaces t) \<and>
     list_all access_typed (t_space_access t) \<and> list_all upload_typed (t_uploads t) \<and> list_all event_typed (t_events t))"

text \<open>What the services' checks establish.\<close>

lemma username_checked: "normalize_username s = Inr n \<Longrightarrow> 3 \<le> length n \<and> length n \<le> 32 \<and> list_all username_char n"
  by (auto simp: normalize_username_def Let_def USERNAME_MIN_LEN_def USERNAME_MAX_LEN_def split: if_splits)

lemma group_name_checked: "validate_group_name s = Inr n \<Longrightarrow> n \<noteq> [] \<and> length n \<le> 100"
  by (auto simp: validate_group_name_def Let_def NAME_MIN_LEN_def NAME_MAX_LEN_def split: if_splits)

lemma description_checked: "validate_description d0 = Inr d \<Longrightarrow> d = Some s \<Longrightarrow> s \<noteq> [] \<and> length s \<le> 500"
  by (auto simp: validate_description_def Let_def DESCRIPTION_MAX_LEN_def split: option.splits if_splits)

lemma role_checked: "validate_role r = Inr u \<Longrightarrow> r \<in> {''owner'', ''manager'', ''member''}"
  by (auto simp: validate_role_def ROLE_OWNER_def ROLE_MANAGER_def ROLE_MEMBER_def split: if_splits)

lemma space_name_checked:
  "validate_space_name s = Inr n \<Longrightarrow> n \<noteq> [] \<and> length n \<le> 100 \<and> list_all (\<lambda>b. 0x20 \<le> b \<and> b \<noteq> 0x7F) (as_bytes n)"
  by (auto simp: validate_space_name_def Let_def NAME_MIN_LEN_def NAME_MAX_LEN_def list_all_iff list_ex_iff not_less split: if_splits)

lemma permission_checked: "validate_permission p = Inr u \<Longrightarrow> p \<in> {''read'', ''write'', ''admin''}"
  by (auto simp: validate_permission_def PERM_READ_def PERM_WRITE_def PERM_ADMIN_def split: if_splits)

lemma checksum_checked: "is_valid_sha256_hex s \<Longrightarrow> checksum_typed (normalize_hex s)"
  by (simp add: is_valid_sha256_hex_def checksum_typed_def normalize_hex_def Let_def)

lemma finding_checked: "scan_finding st = Some p \<Longrightarrow> fst p \<in> {''checksum_mismatch'', ''decrypt_failed'', ''file_truncated''}"
  by (auto simp: scan_finding_def split: integrity_status.splits if_splits)

section \<open>Invariants of the tables\<close>

definition keeps_inv :: "(tables \<Rightarrow> bool) \<Rightarrow> 'z db_scheme \<Rightarrow> 'z db_scheme \<Rightarrow> bool" where
  "keeps_inv I w w' = (I (tb w) \<longrightarrow> I (tb w'))"

abbreviation kept :: "(tables \<Rightarrow> bool) \<Rightarrow> ('z db_scheme, 'e, 'a) act \<Rightarrow> bool" where
  "kept I \<equiv> keeps (keeps_inv I)"

interpretation inv: os_frame "keeps_inv I" for I
  by unfold_locales (simp_all add: keeps_inv_def)

lemma kept_same: "keeps same_db m \<Longrightarrow> kept I m"
  by (simp add: keeps_def same_db_def keeps_inv_def)

lemma kept_select: "kept I (select g)"
  by (rule kept_same [OF same_db_select])

lemma kept_exec: "(\<And>now t n t'. I t \<Longrightarrow> f now t = Inr (n, t') \<Longrightarrow> I t') \<Longrightarrow> kept I (exec f)"
  by (auto simp: keeps_def keeps_inv_def exec_def split: option.splits sum.splits)

lemma kept_exec_returning: "(\<And>now t x t'. I t \<Longrightarrow> f now t = Inr (x, t') \<Longrightarrow> I t') \<Longrightarrow> kept I (exec_returning f)"
  by (auto simp: keeps_def keeps_inv_def exec_returning_def split: option.splits sum.splits)

lemma kept_set: "(\<And>now t. I t \<Longrightarrow> I (g now t)) \<Longrightarrow> kept I (exec (\<lambda>now t. Inr (n t, g now t)))"
  by (rule kept_exec) auto

text \<open>What a step has computed or checked is at the disposal of what follows it.\<close>

lemma kept_bind:
  assumes m: "kept I m" and k: "\<And>w x w'. m w = (Inr x, w') \<Longrightarrow> kept I (k x)"
  shows "kept I (bind m k)"
  unfolding keeps_def
proof
  fix w
  obtain r w1 where run: "m w = (r, w1)" by fastforce
  show "keeps_inv I w (snd (bind m k w))"
    using keepsD [OF m run] k [of w _ w1] run by (cases r) (auto simp: bind_def keeps_def keeps_inv_def)
qed

lemma kept_case_option:
  "\<lbrakk>r = None \<Longrightarrow> kept I m; \<And>x. r = Some x \<Longrightarrow> kept I (k x)\<rbrakk> \<Longrightarrow> kept I (case r of None \<Rightarrow> m | Some x \<Rightarrow> k x)"
  by (simp split: option.splits)

lemma checked_Inr [simp]:
  "lift r w = (Inr x, w') \<longleftrightarrow> r = Inr x \<and> w' = w" "reject_if b e w = (Inr u, w') \<longleftrightarrow> \<not> b \<and> w' = w"
  by (auto simp: lift_def reject_if_def ret_def throw_def)

lemmas kept_rules = kept_bind kept_case_option inv.keeps_ret inv.keeps_throw inv.keeps_lift inv.keeps_gets inv.keeps_reject_if
  inv.keeps_ok_or inv.keeps_attempt inv.keeps_map_err inv.keeps_ignore inv.keeps_for_each inv.keeps_if inv.keeps_case_sum
  inv.keeps_case_prod inv.keeps_Let inv.os_calls inv.os_random inv.os_read_some inv.os_exists keeps_sqlx kept_select

lemma kept_unit: "kept I m \<Longrightarrow> kept I (unit_of m)"
  unfolding unit_of_def by (intro kept_rules)

section \<open>The interface\<close>

locale row_invariant =
  fixes I :: "tables \<Rightarrow> bool"
  assumes user_added: "\<lbrakk>I t; insert_user i ups now t = Inr (n, t'); user_typed (last (t_users t'))\<rbrakk> \<Longrightarrow> I t'"
    and setup_marked: "I t \<Longrightarrow> I (t\<lparr>t_users := update_where P (\<lambda>u. u\<lparr>u_setup_complete := True, u_updated_at := now\<rparr>) (t_users t)\<rparr>)"
    and session_added: "\<lbrakk>I t; insert_session r t = Inr (r', t')\<rbrakk> \<Longrightarrow> I t'"
    and sessions_dropped: "I t \<Longrightarrow> I (t\<lparr>t_sessions := filter Q (t_sessions t)\<rparr>)"
    and library_added: "\<lbrakk>I t; insert_library i lps now t = Inr (n, t'); library_typed (last (t_libraries t'))\<rbrakk> \<Longrightarrow> I t'"
    and library_dropped: "I t \<Longrightarrow> I (snd (delete_library_rows i t))"
    and group_added: "\<lbrakk>I t; insert_group i gps now t = Inr (n, t'); group_typed (last (t_groups t'))\<rbrakk> \<Longrightarrow> I t'"
    and group_renamed: "\<lbrakk>I t; update_group_row i nps t = Inr (n, t');
      \<And>g. group_typed (g\<lparr>g_name := ugp_name nps, g_description := ugp_description nps\<rparr>)\<rbrakk> \<Longrightarrow> I t'"
    and group_dropped: "I t \<Longrightarrow> I (snd (delete_group_rows i t))"
    and member_added: "\<lbrakk>I t; insert_member m t = Inr (n, t'); member_typed m\<rbrakk> \<Longrightarrow> I t'"
    and members_dropped: "I t \<Longrightarrow> I (t\<lparr>t_group_members := filter M (t_group_members t)\<rparr>)"
    and role_changed: "\<lbrakk>I t; \<And>m. member_typed (m\<lparr>gm_role := role\<rparr>)\<rbrakk> \<Longrightarrow>
      I (t\<lparr>t_group_members := update_where M (\<lambda>m. m\<lparr>gm_role := role\<rparr>) (t_group_members t)\<rparr>)"
    and space_added: "\<lbrakk>I t; insert_space i sps now t = Inr (n, t'); space_typed (last (t_spaces t'))\<rbrakk> \<Longrightarrow> I t'"
    and space_renamed: "\<lbrakk>I t; \<And>s. space_typed s \<Longrightarrow> space_typed (s\<lparr>s_name := name\<rparr>)\<rbrakk> \<Longrightarrow>
      I (t\<lparr>t_spaces := update_where S (\<lambda>s. s\<lparr>s_name := name\<rparr>) (t_spaces t)\<rparr>)"
    and space_dropped: "I t \<Longrightarrow> I (snd (delete_space_rows i t))"
    and access_added: "\<lbrakk>I t; insert_access a t = Inr (n, t'); access_typed a\<rbrakk> \<Longrightarrow> I t'"
    and access_dropped: "I t \<Longrightarrow> I (t\<lparr>t_space_access := filter A (t_space_access t)\<rparr>)"
    and permission_changed: "\<lbrakk>I t; \<And>a. access_typed a \<Longrightarrow> access_typed (a\<lparr>sa_permission := p\<rparr>)\<rbrakk> \<Longrightarrow>
      I (t\<lparr>t_space_access := update_where A (\<lambda>a. a\<lparr>sa_permission := p\<rparr>) (t_space_access t)\<rparr>)"
    and upload_added: "\<lbrakk>I t; cu_id r0 \<notin> cu_id ` set (t_uploads t); cu_user_id r0 \<in> user_ids t; upload_typed r0\<rbrakk> \<Longrightarrow>
      I (t\<lparr>t_uploads := t_uploads t @ [r0]\<rparr>)"
    and uploads_dropped: "I t \<Longrightarrow> I (t\<lparr>t_uploads := filter U (t_uploads t)\<rparr>)"
    and upload_counted: "\<lbrakk>I t; \<And>r. upload_typed r \<Longrightarrow> upload_typed (r\<lparr>cu_received_chunks := c\<rparr>)\<rbrakk> \<Longrightarrow>
      I (t\<lparr>t_uploads := update_where U (\<lambda>r. r\<lparr>cu_received_chunks := c\<rparr>) (t_uploads t)\<rparr>)"
    and event_added: "\<lbrakk>I t; insert_event e t = Inr (e', t'); event_typed e\<rbrakk> \<Longrightarrow> I t'"
    and events_marked: "I t \<Longrightarrow> I (t\<lparr>t_events := update_where E (\<lambda>e. e\<lparr>ie_acknowledged := 1\<rparr>) (t_events t)\<rparr>)"

lemma insert_space_ok: "tables_ok t \<Longrightarrow> insert_space i params now t = Inr (n, t') \<Longrightarrow> tables_ok t'"
  using with_space_ok [of t "new_space i params now"]
  by (auto simp: insert_space_def with_space_def new_space_def space_ids_def split: if_splits)

lemma delete_space_rows_ok: "tables_ok t \<Longrightarrow> tables_ok (snd (delete_space_rows i t))"
  by (auto simp: delete_space_rows_def tables_ok_defs distinct_map_filter_rows)

lemma event_added_ok: "tables_ok t \<Longrightarrow> insert_event e t = Inr (e', t') \<Longrightarrow> tables_ok t'"
  by (clarsimp simp: insert_event_def tables_ok_defs split: if_splits)

lemma access_added_ok: "tables_ok t \<Longrightarrow> insert_access a t = Inr (n, t') \<Longrightarrow> tables_ok t'"
  by (clarsimp simp: insert_access_def tables_ok_defs split: if_splits)

lemma session_added_ok: "tables_ok t \<Longrightarrow> insert_session r t = Inr (r', t') \<Longrightarrow> tables_ok t'"
  by (clarsimp simp: insert_session_def tables_ok_defs split: if_splits)

lemma group_added_ok: "tables_ok t \<Longrightarrow> insert_group i params now t = Inr (n, t') \<Longrightarrow> tables_ok t'"
  by (auto simp: insert_group_def tables_ok_defs image_subset_iff split: if_splits)

lemmas row_sets = distinct_map_filter_rows map_update_where image_update_where

lemma rows_dropped_ok:
  assumes "tables_ok t"
  shows "tables_ok (t\<lparr>t_sessions := filter Q (t_sessions t)\<rparr>)" "tables_ok (t\<lparr>t_group_members := filter M (t_group_members t)\<rparr>)"
    "tables_ok (t\<lparr>t_space_access := filter A (t_space_access t)\<rparr>)" "tables_ok (t\<lparr>t_uploads := filter U (t_uploads t)\<rparr>)"
  using assms by (auto simp: tables_ok_defs row_sets)

lemma rows_changed_ok:
  assumes "tables_ok t"
  shows "tables_ok (t\<lparr>t_group_members := update_where M (\<lambda>m. m\<lparr>gm_role := role\<rparr>) (t_group_members t)\<rparr>)"
    "tables_ok (t\<lparr>t_spaces := update_where S (\<lambda>s. s\<lparr>s_name := name\<rparr>) (t_spaces t)\<rparr>)"
    "tables_ok (t\<lparr>t_space_access := update_where A (\<lambda>a. a\<lparr>sa_permission := p\<rparr>) (t_space_access t)\<rparr>)"
    "tables_ok (t\<lparr>t_uploads := update_where U (\<lambda>r. r\<lparr>cu_received_chunks := c\<rparr>) (t_uploads t)\<rparr>)"
    "tables_ok (t\<lparr>t_events := update_where E (\<lambda>e. e\<lparr>ie_acknowledged := 1\<rparr>) (t_events t)\<rparr>)"
  using assms by (simp_all add: tables_ok_defs row_sets access_key_def member_key_def)

lemma upload_added_ok:
  "tables_ok t \<Longrightarrow> cu_id r \<notin> cu_id ` set (t_uploads t) \<Longrightarrow> cu_user_id r \<in> user_ids t \<Longrightarrow> tables_ok (t\<lparr>t_uploads := t_uploads t @ [r]\<rparr>)"
  by (clarsimp simp: tables_ok_defs)

interpretation constraints: row_invariant tables_ok
  by unfold_locales
    (erule (1) insert_user_ok insert_library_ok group_added_ok update_group_row_ok insert_member_ok insert_space_ok
        session_added_ok access_added_ok event_added_ok |
      erule delete_library_ok delete_group_rows_ok delete_space_rows_ok rows_dropped_ok rows_changed_ok |
      (rule update_users_ok; simp) | erule (2) upload_added_ok)+

lemma typed_update: "list_all T xs \<Longrightarrow> (\<And>x. T x \<Longrightarrow> T (f x)) \<Longrightarrow> list_all T (update_where P f xs)"
  by (auto simp: update_where_def list_all_iff)

lemma typed_filter: "list_all T xs \<Longrightarrow> list_all T (filter P xs)"
  by (simp add: list_all_iff)

interpretation types: row_invariant rows_typed
proof (unfold_locales, goal_cases)
  case (2 t P now)
  then show ?case by (auto simp: rows_typed_def user_typed_def intro!: typed_update)
next
  case (18 t p A)
  then show ?case by (auto simp: rows_typed_def intro!: typed_update)
next
  case (21 t c U)
  then show ?case by (auto simp: rows_typed_def intro!: typed_update)
next
  case (23 t E)
  then show ?case by (auto simp: rows_typed_def event_typed_def intro!: typed_update)
next
  case (14 t name S)
  then show ?case by (auto simp: rows_typed_def intro!: typed_update)
next
  case (12 t role M)
  then show ?case by (auto simp: rows_typed_def intro!: typed_update)
next
  case (8 t i nps n t')
  then show ?case by (auto simp: rows_typed_def update_group_row_def intro!: typed_update split: if_splits)
qed (auto simp: rows_typed_def insert_user_def insert_session_def insert_library_def delete_library_rows_def insert_group_def
    delete_group_rows_def insert_member_def insert_space_def delete_space_rows_def insert_access_def insert_event_def
    intro!: typed_filter split: if_splits)

end
