(* ===== verification/ApiFacts.thy ===== *)
theory ApiFacts
  imports RowTypes
begin

text \<open>
  What survives every call of the API and every round of a worker, whoever makes the call and
  whatever fails: each property of the tables that is an instance of the interface \<open>row_invariant\<close>.
\<close>

section \<open>Reading\<close>

lemma kept_handler: "kept I m \<Longrightarrow> kept I (by_handler m)"
  unfolding by_handler_def by (intro kept_rules)

lemma kept_guarded: "kept I g \<Longrightarrow> (\<And>u. kept I (h u)) \<Longrightarrow> kept I (with_guard g h)"
  unfolding with_guard_def by (intro kept_rules kept_handler)

lemma kept_find_users:
  "kept I (user_find_by_id i)" "kept I (user_find_by_username n)" "kept I (user_find_by_email e)" "kept I is_first_user"
  unfolding user_find_by_id_def user_find_by_username_def user_find_by_email_def find_user_def is_first_user_def
  by (intro kept_rules)+

lemma kept_group_reads:
  "kept I (list_user_groups uid)" "kept I (get_group uid i)" "kept I (list_members uid i)" "kept I (group_find_by_id i)"
  "kept I (group_find_by_name n)" "kept I (member_find i uid)" "kept I (require_member i uid)" "kept I (require_manager_or_owner i uid)"
  unfolding list_user_groups_def group_find_all_for_user_def get_group_def group_find_for_user_def list_members_def require_member_def
    is_member_def member_list_with_details_def group_find_by_id_def group_find_by_name_def member_find_def require_manager_or_owner_def
  by (intro kept_rules)+

lemma kept_permission: "kept I (require_permission uid sid p)"
  unfolding require_permission_def resolve_user_permission_def by (intro kept_rules)

lemma kept_space_reads:
  "kept I (list_user_spaces uid)" "kept I (get_space uid sid)" "kept I (list_access uid sid)" "kept I (space_find_by_id sid)"
  "kept I (access_find sid gt gid)"
  unfolding list_user_spaces_def space_find_all_for_user_def get_space_def space_find_for_user_def list_access_def
    access_list_with_details_def space_find_by_id_def access_find_def
  by (intro kept_rules kept_permission)+

lemma kept_library_reads:
  "kept I (library_find_by_user uid)" "kept I (library_find_by_id i)" "kept I (require_library uid)" "kept I (own_library uid)"
  unfolding library_find_by_user_def library_find_by_id_def require_library_def own_library_def by (intro kept_rules)+

lemma kept_own_row: "kept I (load_own_row T uid tid ty sid)" "kept I (is_expired e)"
  unfolding load_own_row_def load_upload_row_def is_expired_def by (intro kept_rules)+

lemma kept_downloads:
  "kept I (init_download C E T config u uid tid ty p)" "kept I (serve_chunk C E T config u uid tok n)"
  unfolding init_download_def serve_chunk_def build_download_token_def verify_download_token_def Let_def
  by (intro kept_rules inv.os_library_files inv.os_space_files)+

lemma kept_event_reads: "kept I (list_events ty i)" "kept I (list_unacknowledged ty i)"
  unfolding list_events_def list_unacknowledged_def by (intro kept_rules)+

lemma kept_keys: "kept I (keep_library_key i k)" "kept I (drop_library_key i)" "kept I (keep_space_key i k)" "kept I (drop_space_key i)"
  by (simp_all add: keeps_def keeps_inv_def keep_library_key_def drop_library_key_def keep_space_key_def drop_space_key_def modify_def)

lemma kept_realm: "kept I generate_data_key" "kept I (wrap_data_key C mk k)" "kept I (create_realm_directory kind dir i)"
  unfolding generate_data_key_def wrap_data_key_def aes_gcm_wrap_def
  by (intro kept_rules kept_same [OF same_db_realm_directory])+

lemmas kept_reads = kept_find_users kept_group_reads kept_permission kept_space_reads kept_library_reads kept_own_row kept_downloads
  kept_event_reads kept_keys kept_realm

section \<open>Writing\<close>

context row_invariant
begin

lemma kept_sessions: "kept I (delete_sessions P)" "kept I (session_create uid h e)"
  unfolding delete_sessions_def session_create_def
  by (intro kept_set sessions_dropped; assumption) (intro kept_rules kept_exec_returning, erule (1) session_added)

lemma kept_session_deletes:
  "kept I (session_delete i)" "kept I (delete_by_user_and_token uid h)" "kept I delete_expired" "kept I (session_validate h)"
  unfolding session_delete_def delete_by_user_and_token_def delete_expired_def session_validate_def find_by_token_hash_def
    session_is_expired_def session_delete_def
  by (intro kept_rules kept_sessions)+

lemma kept_user_create:
  assumes "\<And>u. u_username u = cup_username p \<Longrightarrow> u_email u = cup_email p \<Longrightarrow> u_role u = cup_role p \<Longrightarrow> user_typed u"
  shows "kept I (user_create p)"
  unfolding user_create_def
  by (intro kept_rules kept_find_users kept_exec, erule (1) user_added) (rule assms; auto simp: insert_user_def split: if_splits)

lemma kept_accounts:
  "kept I (register A config n e p)" "kept I (login E C T A config n p)" "kept I (logout uid h)" "kept I (mark_setup_complete uid)"
proof -
  show "kept I (register A config n e p)"
    unfolding register_def hash_password_def Let_def
    by (intro kept_rules kept_find_users kept_user_create)
      (auto simp: user_typed_def dest: username_checked normalize_email_lowercase split: if_splits)
  show "kept I (login E C T A config n p)" "kept I (logout uid h)"
    unfolding login_def get_password_hash_def generate_session_token_def timing_safe_delay_def logout_def Let_def
    by (intro kept_rules kept_find_users kept_sessions kept_session_deletes)+
  show "kept I (mark_setup_complete uid)"
    unfolding mark_setup_complete_def by (intro kept_rules kept_set) (erule setup_marked)
qed

lemma kept_library_rows:
  "kept I (library_delete_by_id i)"
  "clp_encryption_mode p = ''server'' \<Longrightarrow> clp_salt p = None \<Longrightarrow> clp_verify_blob p = None \<Longrightarrow> clp_recovery_blob p = None \<Longrightarrow>
   kept I (library_create p)"
proof -
  show "kept I (library_delete_by_id i)"
    unfolding library_delete_by_id_def by (intro kept_rules kept_exec) (auto dest: library_dropped [of _ i])
  assume "clp_encryption_mode p = ''server''" "clp_salt p = None" "clp_verify_blob p = None" "clp_recovery_blob p = None"
  then have typed: "library_typed (new_library i p now)" for i now by (simp add: new_library_def library_typed_def)
  show "kept I (library_create p)"
    unfolding library_create_def
    by (intro kept_rules kept_library_reads kept_exec, erule (1) library_added)
      (auto simp: insert_library_def typed split: if_splits)
qed

lemma kept_setup_library: "kept I (setup_library C config mk uid)"
  unfolding setup_library_def undo_library_def create_library_directory_def Let_def
  by (intro kept_rules kept_find_users kept_library_reads kept_library_rows kept_realm kept_keys kept_accounts; simp)

lemma kept_group_rows:
  "(\<And>g. g_name g = cgp_name p \<Longrightarrow> g_description g = cgp_description p \<Longrightarrow> group_typed g) \<Longrightarrow> kept I (group_create p)"
  "(\<And>g. g_name g = ugp_name q \<Longrightarrow> g_description g = ugp_description q \<Longrightarrow> group_typed g) \<Longrightarrow> kept I (group_update i q)"
  "kept I (group_delete_by_id i)"
proof -
  show "kept I (group_create p)"
    if "\<And>g. g_name g = cgp_name p \<Longrightarrow> g_description g = cgp_description p \<Longrightarrow> group_typed g"
    unfolding group_create_def
    by (intro kept_rules kept_group_reads kept_exec, erule (1) group_added) (rule that; auto simp: insert_group_def split: if_splits)
  show "kept I (group_update i q)"
    if "\<And>g. g_name g = ugp_name q \<Longrightarrow> g_description g = ugp_description q \<Longrightarrow> group_typed g"
    unfolding group_update_def by (intro kept_rules kept_group_reads kept_exec, erule (1) group_renamed) (rule that; simp)
  show "kept I (group_delete_by_id i)"
    unfolding group_delete_by_id_def by (intro kept_rules kept_exec) (auto dest: group_dropped [of _ i])
qed

lemma kept_members:
  "role \<in> {''owner'', ''manager'', ''member''} \<Longrightarrow> kept I (member_add gid uid role)"
  "role \<in> {''owner'', ''manager'', ''member''} \<Longrightarrow> kept I (member_update_role gid uid role)"
  "kept I (member_remove gid uid)"
  unfolding member_add_def member_update_role_def member_remove_def
  by (intro kept_rules kept_group_reads kept_exec, erule (1) member_added, simp add: member_typed_def)
    (intro kept_rules kept_group_reads kept_set role_changed members_dropped; simp add: member_typed_def)+

lemma kept_groups:
  "kept I (create_group uid name d)" "kept I (update_group uid gid name d)" "kept I (delete_group uid gid)"
  "kept I (add_member a gid n role)" "kept I (remove_member a gid x)" "kept I (update_member_role a gid x role)"
proof -
  show "kept I (create_group uid name d)" "kept I (update_group uid gid name d)"
    unfolding create_group_def update_group_def
    by (intro kept_rules kept_group_reads kept_group_rows kept_members; auto simp: ROLE_OWNER_def group_typed_def dest: group_name_checked description_checked split: option.splits)+
  show "kept I (delete_group uid gid)"
    unfolding delete_group_def by (intro kept_rules kept_group_reads kept_group_rows)
  show "kept I (add_member a gid n role)"
    unfolding add_member_def by (intro kept_rules kept_group_reads kept_find_users kept_members; auto dest: role_checked)
  show "kept I (remove_member a gid x)"
    unfolding remove_member_def Let_def by (intro kept_rules kept_group_reads kept_members)
  show "kept I (update_member_role a gid x role)"
    unfolding update_member_role_def by (intro kept_rules kept_group_reads kept_members; auto dest: role_checked)
qed

lemma kept_space_rows:
  "(\<And>i now. space_typed (new_space i p now)) \<Longrightarrow> kept I (space_create p)"
  "(\<And>s. space_typed s \<Longrightarrow> space_typed (s\<lparr>s_name := usp_name q\<rparr>)) \<Longrightarrow> kept I (space_update i q)"
  "kept I (space_delete_by_id i)"
proof -
  show "kept I (space_create p)" if "\<And>i now. space_typed (new_space i p now)"
    unfolding space_create_def
    by (intro kept_rules kept_space_reads kept_exec, erule (1) space_added) (auto simp: insert_space_def that split: if_splits)
  show "kept I (space_update i q)" if "\<And>s. space_typed s \<Longrightarrow> space_typed (s\<lparr>s_name := usp_name q\<rparr>)"
    unfolding space_update_def by (intro kept_rules kept_space_reads kept_set space_renamed; (assumption | erule that))
  show "kept I (space_delete_by_id i)"
    unfolding space_delete_by_id_def by (intro kept_rules kept_exec) (auto dest: space_dropped [of _ i])
qed

lemma kept_owned_space:
  "validate_space_name name0 = Inr name \<Longrightarrow> ot \<in> {''user'', ''group''} \<Longrightarrow> kept I (create_owned_space C config mk ot owner name)"
  unfolding create_owned_space_def create_space_dir_def Let_def
  by (intro kept_rules kept_realm kept_keys kept_space_rows)
    (use space_name_checked [of name0 name] in \<open>auto simp: space_typed_def new_space_def\<close>)

lemma kept_access_rows:
  "gt \<in> {''user'', ''group''} \<Longrightarrow> p \<in> {''read'', ''write'', ''admin''} \<Longrightarrow> kept I (access_grant sid gt gid p)"
  "p \<in> {''read'', ''write'', ''admin''} \<Longrightarrow> kept I (access_update_permission sid gt gid p)"
  "kept I (access_revoke sid gt gid)"
  unfolding access_grant_def access_update_permission_def access_revoke_def
  by (intro kept_rules kept_space_reads kept_exec, erule (1) access_added, simp add: access_typed_def)
    (intro kept_rules kept_space_reads kept_set permission_changed access_dropped; simp add: access_typed_def)+

lemma kept_spaces:
  "kept I (create_space C config mk uid name)" "kept I (create_group_space C config mk gid name)"
  "kept I (delete_space config uid sid)" "kept I (update_space uid sid name)"
  "kept I (grant_user_access a sid n p)" "kept I (grant_group_access a sid gid p)"
  "kept I (revoke_access a sid gt gid)" "kept I (update_access_permission a sid gt gid p)"
proof -
  show "kept I (create_space C config mk uid name)" "kept I (create_group_space C config mk gid name)"
    unfolding create_space_def create_group_space_def by (intro kept_rules kept_group_reads kept_owned_space; auto)+
  show "kept I (delete_space config uid sid)"
    unfolding delete_space_def by (intro kept_rules kept_permission kept_space_rows kept_keys)
  show "kept I (update_space uid sid name)"
    unfolding update_space_def
    by (intro kept_rules kept_permission kept_space_rows) (auto simp: space_typed_def dest: space_name_checked)
  show "kept I (grant_user_access a sid n p)" "kept I (grant_group_access a sid gid p)"
    "kept I (revoke_access a sid gt gid)" "kept I (update_access_permission a sid gt gid p)"
    unfolding grant_user_access_def grant_group_access_def revoke_access_def update_access_permission_def
    by (intro kept_rules kept_permission kept_find_users kept_group_reads kept_access_rows; (auto dest: permission_checked)?)+
qed

lemma kept_upload_rows: "kept I (delete_upload_row i)"
  "kept I (exec (\<lambda>now t. Inr (n t, t\<lparr>t_uploads := update_where U (\<lambda>r. r\<lparr>cu_received_chunks := int (unat (c :: 32 word))\<rparr>) (t_uploads t)\<rparr>)))"
  unfolding delete_upload_row_def
  by (intro kept_set uploads_dropped; assumption)
    (intro kept_set upload_counted; (assumption | simp add: upload_typed_def unsigned_less [of c, simplified]))

lemma some_chunks: "c \<noteq> 0 \<Longrightarrow> 0 < uint (c :: 32 word)"
  by (metis order_le_less uint_nonnegative unsigned_eq_0_iff)

lemma kept_init_upload: "ip_target_type p \<in> {''library'', ''space''} \<Longrightarrow> kept I (init_upload config p)"
  unfolding init_upload_def Let_def
  by (intro kept_rules kept_exec)
    (auto simp: upload_typed_def user_ids_def checksum_checked some_chunks unsigned_less [of "ip_total_chunks p", simplified]
      intro!: upload_added split: if_splits option.splits)

lemma kept_init_uploads:
  "kept I (init_upload config \<lparr>ip_user_id = uid, ip_target_id = i, ip_target_type = ''library'', ip_target_path = p,
     ip_total_chunks = n, ip_total_bytes = b, ip_checksum_sha256 = h\<rparr>)"
  "kept I (init_upload config \<lparr>ip_user_id = uid, ip_target_id = i, ip_target_type = ''space'', ip_target_path = p,
     ip_total_chunks = n, ip_total_bytes = b, ip_checksum_sha256 = h\<rparr>)"
  by (simp_all add: kept_init_upload)

lemma kept_uploads:
  "kept I (receive_chunk T config uid tid ty sid n d)"
  "kept I (complete_upload C E T config u uid tid ty sid v)" "kept I (cancel_upload T config uid tid ty sid)"
  unfolding receive_chunk_def complete_upload_def cancel_upload_def Let_def
  by (intro kept_rules kept_own_row kept_upload_rows inv.os_chunks inv.os_library_files inv.os_space_files)+

lemma kept_events:
  "ty \<in> {''library'', ''space''} \<Longrightarrow> e \<in> {''checksum_mismatch'', ''decrypt_failed'', ''file_truncated''} \<Longrightarrow>
   kept I (record_event ty i p e (Some d) ''background_scan'')"
  "kept I (acknowledge_event i)"
  unfolding record_event_def acknowledge_event_def Let_def
  by (intro kept_rules kept_exec_returning, erule (1) event_added, simp add: event_typed_def)
    (intro kept_rules kept_set, erule events_marked)

lemma kept_scan_file: "ty \<in> {''library'', ''space''} \<Longrightarrow> kept I (scan_file C ty i root key p counts)"
  unfolding scan_file_def split_def
  by (intro kept_rules kept_events inv.os_read_files; (assumption | erule finding_checked)?)

lemma kept_scan_entries: "ty \<in> {''library'', ''space''} \<Longrightarrow> kept I (scan_entries C ty i root key es stack counts)"
proof (induction es arbitrary: stack counts)
  case Nil
  show ?case by (simp only: scan_entries.simps, intro kept_rules)
next
  case (Cons e es)
  then show ?case by (cases e) (simp only: scan_entries.simps, intro kept_rules kept_scan_file; simp)
qed

lemma kept_scan_loop: "ty \<in> {''library'', ''space''} \<Longrightarrow> kept I (scan_loop fuel C ty i root key stack counts)"
proof (induction fuel arbitrary: stack counts)
  case 0
  show ?case by (cases stack) (simp_all only: scan_loop.simps inv.keeps_ret)
next
  case (Suc fuel)
  then show ?case by (cases stack) (simp_all only: scan_loop.simps, (intro kept_rules kept_scan_entries; simp)+)
qed

lemma kept_scans: "kept I (scan_library C config i)" "kept I (scan_space C config i)"
  unfolding scan_library_def scan_space_def scan_directory_def Let_def by (intro kept_rules kept_scan_loop; simp)+

lemmas kept_services = kept_reads kept_accounts kept_setup_library kept_groups kept_spaces kept_init_uploads kept_uploads kept_events
  kept_scans inv.os_library_files inv.os_space_files

section \<open>The guards\<close>

lemma kept_token: "kept I (token_user E C tok)"
  unfolding token_user_def by (intro kept_rules kept_session_deletes kept_find_users)

lemma kept_guards:
  "kept I (authenticated_user E C rq)" "kept I (setup_complete_user E C rq)" "kept I (admin_user E C rq)"
  "kept I (space_reader E C rq)" "kept I (space_writer E C rq)" "kept I (space_admin E C rq)"
  unfolding setup_complete_user_def admin_user_def space_reader_def space_writer_def space_admin_def space_guard_def
    authenticated_user_def check_space_permission_def space_find_for_user_def Let_def
  by (intro kept_rules kept_token)+

section \<open>The routes\<close>

lemma kept_library_handler:
  "(\<And>user lib u. kept I (h user lib u)) \<Longrightarrow> kept I (library_handler V rq h)"
  unfolding library_handler_def by (intro kept_rules kept_guarded kept_guards kept_library_reads)

lemma kept_space_handlers:
  "(\<And>user space. kept I (h user space)) \<Longrightarrow> kept I (by_reader V rq h)"
  "(\<And>user space. kept I (h user space)) \<Longrightarrow> kept I (by_writer V rq h)"
  "(\<And>user space. kept I (h user space)) \<Longrightarrow> kept I (by_admin V rq h)"
  unfolding by_reader_def by_writer_def by_admin_def by (intro kept_rules kept_guarded kept_guards; assumption?)+

lemma kept_user_handler: "(\<And>uid. kept I (h uid)) \<Longrightarrow> kept I (by_user V rq h)"
  unfolding by_user_def by (intro kept_guarded kept_guards)

lemmas route_rules = kept_rules kept_handler kept_guarded kept_guards kept_library_handler kept_space_handlers
  kept_user_handler kept_library_reads kept_unit

lemma kept_library_routes:
  "kept I (serve_library V rq lc)" "kept I (serve_chunked V rq cc)"
proof -
  show "kept I (serve_library V rq lc)"
    by (cases lc; simp only: serve_library.simps library_list_def library_mkdir_def library_upload_def library_download_def
        library_delete_def library_rename_def library_info_def library_usage_def Let_def) (intro route_rules kept_services)+
  show "kept I (serve_chunked V rq cc)"
    by (cases cc; simp only: serve_chunked.simps chunked_init_upload_def chunked_receive_chunk_def chunked_complete_upload_def
        chunked_cancel_upload_def chunked_init_download_def chunked_download_chunk_def Let_def) (intro route_rules kept_services)+
qed

lemma kept_account_routes: "kept I (serve_account V rq ac)"
  by (cases ac; simp only: serve_account.simps api_register_def api_login_def api_logout_def api_setup_library_def
      raw_bearer_token_def Let_def) (intro route_rules kept_services)+

lemma kept_integrity_routes: "kept I (serve_integrity V rq ic)"
  by (cases ic; simp only: serve_integrity.simps api_list_events_def api_acknowledge_event_def api_notifications_def
      api_admin_list_events_def api_admin_scan_def csrf_guard_def Let_def) (intro route_rules kept_services)+

lemma kept_group_routes: "kept I (serve_groups V rq gc)"
  by (cases gc; simp only: serve_groups.simps api_create_group_def api_list_groups_def api_get_group_def api_update_group_def
      api_delete_group_def api_list_members_def api_add_member_def api_remove_member_def api_update_member_role_def Let_def)
    (intro route_rules kept_services)+

lemma kept_space_routes: "kept I (serve_spaces V rq sc)" "kept I (serve_space_files V rq fc)"
proof -
  show "kept I (serve_spaces V rq sc)"
    by (cases sc; simp only: serve_spaces.simps api_create_space_def api_list_spaces_def api_get_space_def api_update_space_def
        api_delete_space_def api_list_access_def api_grant_user_access_def api_grant_group_access_def api_update_access_def
        api_revoke_access_def Let_def) (intro route_rules kept_services)+
  show "kept I (serve_space_files V rq fc)"
    by (cases fc; simp only: serve_space_files.simps api_list_files_def api_mkdir_def api_upload_def api_download_def
        api_delete_file_def api_rename_file_def api_file_info_def api_file_usage_def Let_def) (intro route_rules kept_services)+
qed

lemma kept_cleanup_loop: "kept I (cleanup_loop config ids n)"
  by (induction ids arbitrary: n) (simp_all only: cleanup_loop.simps Let_def, (intro kept_rules kept_upload_rows)+)

lemma kept_rounds:
  "kept I (integrity_scan_round C config)" "kept I session_cleanup_round" "kept I (chunk_cleanup_round config)"
  unfolding integrity_scan_round_def run_scan_def session_cleanup_round_def chunk_cleanup_round_def cleanup_expired_uploads_def
  by (intro kept_rules kept_scans kept_session_deletes kept_cleanup_loop)+

lemma kept_api: "kept I (serve_api V rq call)"
  by (cases call) (simp_all add: kept_library_routes kept_account_routes kept_integrity_routes
      kept_group_routes kept_space_routes)

end

end
