(* ===== verification/Isolation.thy ===== *)
theory Isolation
  imports Access ApiFacts
begin

text \<open>
  Whose files a call can touch: guards, services and the confinement of the file operations put
  together.
\<close>

section \<open>Touched entries\<close>

definition touched :: "('z os_scheme, 'e, 'a) act \<Rightarrow> 'z os_scheme \<Rightarrow> path \<Rightarrow> bool" where
  "touched m w q = (lookup (tree (snd (m w))) q \<noteq> lookup (tree w) q)"

lemma touched_unit [simp]: "touched (unit_of m) w q = touched m w q"
  by (simp add: touched_def unit_of_def bind_def split: prod.splits sum.splits)

lemma touched_handler [simp]: "touched (by_handler m) w q = touched m w q"
  by (simp add: touched_def by_handler_def)

lemma touched_bind:
  assumes "keeps readonly m" "touched (bind m k) w q"
  shows "\<exists>x w1. m w = (Inr x, w1) \<and> tree w1 = tree w \<and> touched (k x) w1 q"
proof -
  obtain r w1 where m: "m w = (r, w1)" by fastforce
  have t: "tree w1 = tree w" by (rule readonlyD [OF assms(1) m])
  show ?thesis
  proof (cases r)
    case (Inl e)
    then show ?thesis using assms(2) m t by (simp add: touched_def bind_def)
  next
    case (Inr x)
    then show ?thesis using assms(2) m t by (auto simp: touched_def bind_def)
  qed
qed

lemma changes_then_ret: "changes_only_under root m \<Longrightarrow> changes_only_under root (bind m (\<lambda>x. ret (f x)))"
proof -
  have "snd (bind m (\<lambda>x. ret (f x)) w) = snd (m w)" for w by (simp add: bind_def split: prod.splits sum.splits)
  then show "changes_only_under root m \<Longrightarrow> ?thesis" by (simp add: changes_only_under_def)
qed

definition within_root :: "'z os_scheme \<Rightarrow> path \<Rightarrow> path \<Rightarrow> bool" where
  "within_root w root q = (\<exists>r. canon_path (tree w) root = Inr r \<and> is_prefix r q)"

lemma changes_touched: "changes_only_under root m \<Longrightarrow> wf_tree (tree w) \<Longrightarrow> touched m w q \<Longrightarrow> within_root w root q"
  by (auto simp: changes_only_under_def touched_def within_root_def)

section \<open>Callers\<close>

lemma setup_caller_iff: "setup_caller e (caller E C w token) = Inr u \<longleftrightarrow> identified E C w token u \<and> u_setup_complete u"
  by (auto simp: setup_caller_def caller_iff [symmetric] split: sum.splits if_splits)

text \<open>The user of a request, and one of the libraries of that user.\<close>

definition library_owner :: "server_env \<Rightarrow> request \<Rightarrow> 'z db_scheme \<Rightarrow> user \<Rightarrow> personal_library \<Rightarrow> bool" where
  "library_owner V rq w u lib = (identified (env_ext V) (env_crypto V) w (extract_bearer_token rq) u \<and> u_setup_complete u \<and>
     lib \<in> set (t_libraries (tb w)) \<and> pl_user_id lib = u_id u)"

text \<open>The user of a request, who holds a permission on the space its path names.\<close>

definition space_holder :: "server_env \<Rightarrow> request \<Rightarrow> 'z db_scheme \<Rightarrow> permission \<Rightarrow> user \<Rightarrow> string \<Rightarrow> bool" where
  "space_holder V rq w p u sid = (identified (env_ext V) (env_crypto V) w (extract_bearer_token rq) u \<and> u_setup_complete u \<and>
     extract_space_id rq = Some sid \<and> (\<exists>q. effective (tb w) (u_id u) sid = Some q \<and> p \<le> q))"

lemma space_holder_weaker: "space_holder V rq w p u sid \<Longrightarrow> p' \<le> p \<Longrightarrow> space_holder V rq w p' u sid"
  unfolding space_holder_def by (meson order_trans)

lemma setup_user_run:
  assumes "setup_complete_user E C rq w = (Inr u, w1)"
  shows "identified E C w (extract_bearer_token rq) u \<and> u_setup_complete u \<and> tb w1 = tb w"
proof -
  have "setup_caller incomplete (caller E C w (extract_bearer_token rq)) = Inr u" "tb w1 = tb w"
    using decidesD [OF decides_setup(1) assms] by auto
  then show ?thesis unfolding setup_caller_iff by blast
qed

lemma library_run:
  assumes "require_library uid w = (Inr lib, w1)"
  shows "lib \<in> set (t_libraries (tb w)) \<and> pl_user_id lib = uid \<and> tb w1 = tb w"
  using assms find_Some_mem [of "\<lambda>l. pl_user_id l = uid" "t_libraries (tb w)" lib]
  by (auto simp: require_library_def library_find_by_user_def bind_select split: option.splits)

lemma space_guard_run:
  assumes "space_guard E C rq (level_of p) w = (Inr (u, m), w1)"
  shows "identified E C w (extract_bearer_token rq) u \<and> u_setup_complete u \<and> tb w1 = tb w \<and>
    (\<exists>q. extract_space_id rq = Some (s_id (sw_space m)) \<and> effective (tb w) (u_id u) (s_id (sw_space m)) = Some q \<and> p \<le> q)"
proof -
  have d: "space_caller (setup_caller incomplete (caller E C w (extract_bearer_token rq))) rq (level_of p) (tb w) = Inr (u, m)"
    "tb w1 = tb w"
    using decidesD [OF decides_space(1) assms] by auto
  obtain sid q where sid: "extract_space_id rq = Some sid" "effective (tb w) (u_id u) sid = Some q" "p \<le> q"
    "space_view (tb w) (u_id u) sid = Some m"
    using d(1) unfolding space_caller_iff by blast
  moreover have "s_id (sw_space m) = sid"
    using sid(4) find_Some_mem [of "\<lambda>s. s_id s = sid" "t_spaces (tb w)"]
    by (auto simp: space_view_def space_of_def split: option.splits if_splits)
  ultimately show ?thesis using d unfolding space_caller_iff by auto
qed

lemma readonly_token: "keeps readonly (token_user E C tok)"
  unfolding token_user_def session_validate_def session_delete_def delete_sessions_def user_find_by_id_def find_user_def
    find_by_token_hash_def session_is_expired_def Let_def
  by (intro readonly_rules readonly_sqlx readonly_select readonly_exec)

lemma readonly_setup_user: "keeps readonly (setup_complete_user E C rq)"
  unfolding setup_complete_user_def authenticated_user_def by (intro readonly_rules readonly_token)

lemma readonly_space_guard: "keeps readonly (space_guard E C rq level)"
  unfolding space_guard_def check_space_permission_def space_find_for_user_def
  by (intro readonly_rules readonly_setup_user readonly_sqlx readonly_select)

lemma readonly_require_library: "keeps readonly (require_library uid)"
  unfolding require_library_def library_find_by_user_def by (intro readonly_rules readonly_sqlx readonly_select)

section \<open>File calls on a library\<close>

lemma library_handler_touches:
  assumes h: "\<And>user lib u. changes_only_under (library_root (env_config V) (pl_id lib)) (h user lib u)"
    and wf: "wf_tree (tree w)" and t: "touched (library_handler V rq h) w q"
  shows "\<exists>u lib. library_owner V rq w u lib \<and> within_root w (library_root (env_config V) (pl_id lib)) q"
proof -
  obtain u w1 where u: "setup_complete_user (env_ext V) (env_crypto V) rq w = (Inr u, w1)" "tree w1 = tree w"
    and t1: "touched (bind (require_library (u_id u)) (\<lambda>lib. bind (gets unlocked) (\<lambda>s. h u lib s))) w1 q"
    using touched_bind [OF readonly_setup_user t [unfolded library_handler_def with_guard_def]] by auto
  obtain lib w2 where lib: "require_library (u_id u) w1 = (Inr lib, w2)" "tree w2 = tree w"
    and t2: "touched (h u lib (unlocked w2)) w2 q"
    using touched_bind [OF readonly_require_library t1] u(2) by (auto simp: touched_def)
  have "within_root w2 (library_root (env_config V) (pl_id lib)) q"
    by (rule changes_touched [OF h _ t2]) (simp add: wf lib(2))
  moreover have "library_owner V rq w u lib"
    using setup_user_run [OF u(1)] library_run [OF lib(1)] by (simp add: library_owner_def)
  ultimately show ?thesis using lib(2) by (auto simp: within_root_def)
qed

lemma library_handler_served:
  assumes "unit_of (library_handler V rq h) w = (Inr (), w')"
  shows "\<exists>u lib. library_owner V rq w u lib"
proof -
  obtain u w1 where u: "setup_complete_user (env_ext V) (env_crypto V) rq w = (Inr u, w1)"
    and "\<exists>y v. bind (require_library (u_id u)) (\<lambda>lib. bind (gets unlocked) (\<lambda>s. h u lib s)) w1 = (Inr y, v)"
    using assms by (auto simp: unit_of_def library_handler_def with_guard_def by_handler_def bind_Inr_iff)
  then obtain lib w2 where lib: "require_library (u_id u) w1 = (Inr lib, w2)" by (auto simp: bind_Inr_iff)
  show ?thesis using setup_user_run [OF u] library_run [OF lib] by (auto simp: library_owner_def)
qed

lemma readonly_list_entries: "keeps readonly (list_entries C E root b key es acc)"
proof (induction es arbitrary: acc)
  case Nil
  show ?case by (simp only: list_entries.simps next_entry_def, intro readonly_rules)
next
  case (Cons e es)
  then show ?case
    by (cases e) (simp only: list_entries.simps next_entry_def Let_def, intro readonly_rules readonly_verify_async)
qed

lemma readonly_usage: "keeps readonly (usage_entries es stack u)" "keeps readonly (usage_loop fuel stack u)"
proof -
  show entries: "keeps readonly (usage_entries es stack u)" for es stack u
  proof (induction es arbitrary: stack u)
    case Nil
    show ?case by (cases u) (simp only: usage_entries.simps next_entry_def, intro readonly_rules)
  next
    case (Cons e es)
    then show ?case by (cases e; cases u) (simp only: usage_entries.simps next_entry_def, intro readonly_rules)
  qed
  show "keeps readonly (usage_loop fuel stack u)"
  proof (induction fuel arbitrary: stack u)
    case 0
    show ?case by (cases stack) (simp_all only: usage_loop.simps readonly.keeps_ret)
  next
    case (Suc fuel)
    then show ?case by (cases stack) (simp_all only: usage_loop.simps, (intro readonly_rules entries)+)
  qed
qed

lemma readonly_reading_files:
  "keeps readonly (list_directory C E config u i p b)" "keeps readonly (download_file C E config u i p)"
  "keeps readonly (get_entry_info C E config u i p b)" "keeps readonly (calculate_usage config i p)"
  "keeps readonly (list_space_directory C E config u i p b)" "keeps readonly (download_space_file C E config u i p)"
  "keeps readonly (get_space_entry_info C E config u i p b)" "keeps readonly (calculate_space_usage config i p)"
  unfolding list_directory_def download_file_def get_entry_info_def calculate_usage_def list_space_directory_def
    download_space_file_def get_space_entry_info_def calculate_space_usage_def require_data_key_def require_space_key_def Let_def
  by (intro readonly_rules readonly_safe_join_async readonly_canonicalize_async readonly_verify_async readonly_decrypted(3)
      readonly_list_entries readonly_usage)+

lemma library_call_touches:
  assumes wf: "wf_tree (tree w)" and t: "touched (serve_library V rq lc) w q"
  shows "\<exists>u lib. library_owner V rq w u lib \<and> within_root w (library_root (env_config V) (pl_id lib)) q"
  using t
  by (cases lc; simp only: serve_library.simps touched_unit library_list_def library_mkdir_def library_upload_def library_download_def
        library_delete_def library_rename_def library_info_def library_usage_def Let_def)
    (erule library_handler_touches [OF _ wf, rotated],
      (intro changes_then_ret changes_create_directory changes_upload [folded upload_file_def] changes_delete changes_rename
         changes_bind_readonly [OF readonly.keeps_lift] changes_readonly readonly_rules readonly_reading_files)[1])+

section \<open>File calls on a space\<close>

lemma space_handler_touches:
  assumes h: "\<And>user m. changes_only_under (space_root (env_config V) (s_id (sw_space m))) (h user m)"
    and wf: "wf_tree (tree w)"
    and t: "touched (with_guard (space_guard (env_ext V) (env_crypto V) rq (level_of p)) (\<lambda>(user, m). h user m)) w q"
  shows "\<exists>u sid. space_holder V rq w p u sid \<and> within_root w (space_root (env_config V) sid) q"
proof -
  obtain x w1 where u: "space_guard (env_ext V) (env_crypto V) rq (level_of p) w = (Inr x, w1)" "tree w1 = tree w"
    and t1: "touched (case x of (user, m) \<Rightarrow> h user m) w1 q"
    using touched_bind [OF readonly_space_guard t [unfolded with_guard_def]] by auto
  obtain user m where x: "x = (user, m)" by fastforce
  have "within_root w1 (space_root (env_config V) (s_id (sw_space m))) q"
    by (rule changes_touched [OF h]) (use wf u(2) t1 x in simp_all)
  moreover have "space_holder V rq w p user (s_id (sw_space m))"
    using space_guard_run [OF u(1) [unfolded x]] by (simp add: space_holder_def)
  ultimately show ?thesis using u(2) by (auto simp: within_root_def)
qed

lemma space_handler_reads:
  assumes "\<And>user m. keeps readonly (h user m)"
  shows "\<not> touched (with_guard (space_guard (env_ext V) (env_crypto V) rq level) (\<lambda>(user, m). h user m)) w q"
proof -
  have "keeps readonly (with_guard (space_guard (env_ext V) (env_crypto V) rq level) (\<lambda>(user, m). h user m))"
    unfolding with_guard_def by_handler_def by (intro readonly_rules readonly_space_guard assms)
  then show ?thesis by (simp add: touched_def keeps_def readonly_def)
qed

lemma space_handler_served:
  assumes "unit_of (with_guard (space_guard (env_ext V) (env_crypto V) rq (level_of p)) (\<lambda>(user, m). h user m)) w = (Inr (), w')"
  shows "\<exists>u sid. space_holder V rq w p u sid"
proof -
  obtain u m w1 where u: "space_guard (env_ext V) (env_crypto V) rq (level_of p) w = (Inr (u, m), w1)"
    using assms by (auto simp: unit_of_def with_guard_def bind_Inr_iff)
  show ?thesis using space_guard_run [OF u] by (auto simp: space_holder_def)
qed

lemma by_level:
  "by_reader V rq h = with_guard (space_guard (env_ext V) (env_crypto V) rq (level_of Read)) (\<lambda>(user, m). h user m)"
  "by_writer V rq h = with_guard (space_guard (env_ext V) (env_crypto V) rq (level_of Write)) (\<lambda>(user, m). h user m)"
  by (simp_all add: by_reader_def by_writer_def space_reader_def space_writer_def level_of_def)

fun writes :: "file_call \<Rightarrow> bool" where
  "writes (MakeDir p) = True"
| "writes (UploadFile p v d) = True"
| "writes (DeleteFile p) = True"
| "writes (RenameFile p q) = True"
| "writes c = False"

lemma space_call_touches:
  assumes wf: "wf_tree (tree w)" and t: "touched (serve_space_files V rq fc) w q"
  shows "\<exists>u sid. space_holder V rq w Write u sid \<and> within_root w (space_root (env_config V) sid) q"
proof (cases "writes fc")
  case True
  then show ?thesis using t
    by (cases fc; simp only: writes.simps serve_space_files.simps touched_unit api_mkdir_def api_upload_def api_delete_file_def api_rename_file_def by_level)
      (erule space_handler_touches [OF _ wf, rotated],
        (intro changes_then_ret changes_create_space_directory changes_space_upload changes_space_delete changes_space_rename
           changes_bind_readonly [OF readonly.keeps_lift] changes_bind_readonly [OF readonly.keeps_gets])[1])+
next
  case False
  then show ?thesis using t
    by (cases fc; simp only: writes.simps serve_space_files.simps touched_unit api_list_files_def api_download_def api_file_info_def
        api_file_usage_def by_level Let_def)
      (erule notE [OF space_handler_reads, rotated], (intro readonly_rules readonly_reading_files)[1])+
qed

section \<open>Served calls\<close>

interpretation db_files: os_frame same_db
  by unfold_locales (simp_all add: same_db_def)

lemma served_tables:
  assumes d: "decides f g" and h: "\<And>u. keeps same_db (h u)" and run: "unit_of (with_guard g h) w = (Inr (), w')"
  shows "tb w' = tb w"
proof -
  obtain u w1 where g: "g w = (Inr u, w1)" using run by (auto simp: unit_of_def with_guard_def bind_Inr_iff)
  then have "snd (h u w1) = w'"
    using run by (auto simp: unit_of_def with_guard_def by_handler_def bind_def map_err_def split: prod.splits sum.splits)
  then have "same_db w1 w'" using h [of u] by (auto simp: keeps_def)
  then show ?thesis using decidesD [OF d g] by (simp add: same_db_def)
qed

lemma library_tables:
  assumes "\<And>user lib u. keeps same_db (h user lib u)" "unit_of (library_handler V rq h) w = (Inr (), w')"
  shows "tb w' = tb w"
  using served_tables [OF decides_setup(1) _ assms(2) [unfolded library_handler_def]] assms(1)
  unfolding require_library_def library_find_by_user_def by (blast intro: same_db_rules)

lemma library_call_served:
  assumes "serve_library V rq lc w = (Inr (), w')"
  shows "(\<exists>u lib. library_owner V rq w u lib) \<and> tb w' = tb w"
proof
  show "\<exists>u lib. library_owner V rq w u lib"
    using assms
    by (cases lc; simp only: serve_library.simps library_list_def library_mkdir_def library_upload_def library_download_def
        library_delete_def library_rename_def library_info_def library_usage_def) (erule library_handler_served)+
  show "tb w' = tb w"
    using assms
    by (cases lc; simp only: serve_library.simps library_list_def library_mkdir_def library_upload_def library_download_def
        library_delete_def library_rename_def library_info_def library_usage_def Let_def)
      (erule library_tables [rotated], (intro same_db_rules db_files.os_library_files)[1])+
qed

lemma space_call_served:
  assumes "serve_space_files V rq fc w = (Inr (), w')"
  shows "(\<exists>u sid. space_holder V rq w (if writes fc then Write else Read) u sid) \<and> tb w' = tb w"
proof
  show "\<exists>u sid. space_holder V rq w (if writes fc then Write else Read) u sid"
    using assms
    by (cases fc; simp only: writes.simps if_True if_False serve_space_files.simps api_mkdir_def api_upload_def api_delete_file_def
        api_rename_file_def api_list_files_def api_download_def api_file_info_def api_file_usage_def by_level)
      (erule space_handler_served)+
  show "tb w' = tb w"
    using assms
    by (cases fc; simp only: serve_space_files.simps api_mkdir_def api_upload_def api_delete_file_def api_rename_file_def
        api_list_files_def api_download_def api_file_info_def api_file_usage_def by_level Let_def)
      (erule served_tables [OF decides_space(1), rotated], (intro same_db_rules db_files.os_space_files)[1])+
qed

text \<open>
  C40. Files stay with their owners. A file call on a library is served only to a user who has
  completed setup, on a library of that user, and whether it is served or fails, every entry of the
  file system it changed lies under the root of that library. A file call on a space is served only
  to a user who holds read on the space its path names - write, for a call that changes files - and
  every entry it changed lies under the root of a space on which the caller holds write. A served
  call changes no row of the database.
\<close>

theorem files_stay_with_owners:
  fixes w :: "'z world_scheme"
  assumes wf: "wf_tree (tree w)"
    and lib: "serve_library V rq lc w = (r1, w1)" and spc: "serve_space_files V rq fc w = (r2, w2)"
  shows "(r1 = Inr () \<longrightarrow> (\<exists>u lib. library_owner V rq w u lib) \<and> tb w1 = tb w) \<and>
    (lookup (tree w1) q \<noteq> lookup (tree w) q \<longrightarrow>
      (\<exists>u lib. library_owner V rq w u lib \<and> within_root w (library_root (env_config V) (pl_id lib)) q)) \<and>
    (r2 = Inr () \<longrightarrow> (\<exists>u sid. space_holder V rq w (if writes fc then Write else Read) u sid) \<and> tb w2 = tb w) \<and>
    (lookup (tree w2) q \<noteq> lookup (tree w) q \<longrightarrow>
      (\<exists>u sid. space_holder V rq w Write u sid \<and> within_root w (space_root (env_config V) sid) q))"
proof (intro conjI impI)
  assume "r1 = Inr ()"
  then show "\<exists>u lib. library_owner V rq w u lib" "tb w1 = tb w" using library_call_served lib by blast+
next
  assume "lookup (tree w1) q \<noteq> lookup (tree w) q"
  then have "touched (serve_library V rq lc) w q" by (simp add: touched_def lib)
  then show "\<exists>u lib. library_owner V rq w u lib \<and> within_root w (library_root (env_config V) (pl_id lib)) q"
    by (rule library_call_touches [OF wf])
next
  assume "r2 = Inr ()"
  then show "\<exists>u sid. space_holder V rq w (if writes fc then Write else Read) u sid" "tb w2 = tb w"
    using space_call_served spc by blast+
next
  assume "lookup (tree w2) q \<noteq> lookup (tree w) q"
  then have "touched (serve_space_files V rq fc) w q" by (simp add: touched_def spc)
  then show "\<exists>u sid. space_holder V rq w Write u sid \<and> within_root w (space_root (env_config V) sid) q"
    by (rule space_call_touches [OF wf])
qed

end
