(* ===== verification/SampleApi.thy ===== *)
theory SampleApi
  imports SampleLogin Isolation
begin

text \<open>
  The API on the server of \<open>SampleLogin\<close>, whose bob may read alice's space \<open>s\<close> and no more.
\<close>

definition sample_env :: server_env where
  "sample_env = \<lparr>env_crypto = toy_crypto, env_ext = toy_ext, env_tools = tool, env_argon2 = plain_argon2,
     env_config = live_config, env_master_key = toy_key\<rparr>"

definition house :: world where
  "house = (live bob_tables)\<lparr>tree := [([''srv''], Dir), ([''srv'', ''spaces''], Dir), ([''srv'', ''spaces'', ''s''], Dir)],
     datetime_text := date_text, parse_datetime := date_parse\<rparr>"

lemma house_tables: "tb house = bob_tables" "clock house = 1000" "parse_datetime house = date_parse"
  by (simp_all add: house_def) (simp add: live_def)

lemma house_identified: "identified toy_ext toy_crypto house t u = identified toy_ext toy_crypto (hall bob_tables) t u"
proof -
  have "parse_datetime (hall bob_tables) = date_parse" by (simp add: hall_def)
  then show ?thesis by (simp add: identified_def expired_def house_tables cong: option.case_cong)
qed

lemma bob_tables_ok: "tables_ok bob_tables"
proof -
  have "tables_ok shared_space" by (rule shared_space_ok)
  moreover have "t_sessions shared_space = []" "se_user_id bob_row \<in> user_ids shared_space"
    by (simp_all add: shared_space_def with_access_def one_space_def one_group_def two_users_def no_tables_def bob_row_def
        session_row_def user_ids_def sample_user_def)
  ultimately show ?thesis by (simp add: bob_tables_def with_session_def tables_ok_defs)
qed

theorem files_stay_with_owners_witness:
  "isl (fst (serve_space_files sample_env bob_request (MakeDir ''d'') house)) \<and>
   lookup (tree (snd (serve_space_files sample_env bob_request (MakeDir ''d'') house))) [''srv'', ''spaces'', ''s'', ''d''] = None"
proof -
  let ?m = "serve_space_files sample_env bob_request (MakeDir ''d'') house" and ?q = "[''srv'', ''spaces'', ''s'', ''d'']"
  have wf: "wf_tree (tree house)" unfolding house_def by simp (rule wf_treeI, code_simp)
  have none: "\<not> space_holder sample_env bob_request house Write u sid" for u sid
  proof
    assume "space_holder sample_env bob_request house Write u sid"
    then have u: "identified toy_ext toy_crypto (hall bob_tables) (Some bob_token) u" "sid = ''s''"
      and e: "\<exists>q. effective bob_tables (u_id u) ''s'' = Some q \<and> Write \<le> q"
      unfolding space_holder_def house_tables house_identified by (auto simp: sample_env_def bob_asks house_identified)
    have "u_id u = ''bob''" using u(1) bob_identified by (auto simp: identified_def sample_user_def user.truncate_def)
    moreover have "effective bob_tables ''bob'' ''s'' = Some Read" using bob_reads(1) by (simp add: bob_tables_def)
    ultimately show False using e by (auto simp: less_eq_permission_def)
  qed
  obtain r w' where run: "?m = (r, w')" by fastforce
  obtain r1 w1 where lib: "serve_library sample_env bob_request (LibraryMkdir ''d'') house = (r1, w1)" by fastforce
  note claim = files_stay_with_owners [OF wf lib run, of ?q]
  have "isl r" using claim none by (cases r) auto
  moreover have "lookup (tree w') ?q = lookup (tree house) ?q" using claim none by blast
  moreover have "lookup (tree house) ?q = None" by (simp add: house_def lookup_def)
  ultimately show ?thesis by (simp only: run fst_conv snd_conv)
qed

end
