(* ===== verification/Floats.thy ===== *)
theory Floats
  imports Prelude "HOL-Library.Log_Nat"
begin

text \<open>
  Rust's \<open>f64\<close> as far as the program uses it: positive rational numbers, each operation rounded to
  the nearest number with a mantissa of 53 bits, ties to even. The exponent has no bounds here;
  the users say why theirs does not reach them.
\<close>

definition round_half_even :: "rat \<Rightarrow> int" where
  "round_half_even q =
     (let f = \<lfloor>q\<rfloor>; r = q - of_int f in
      if r < 1/2 then f else if r > 1/2 then f + 1 else if even f then f else f + 1)"

definition pow2 :: "int \<Rightarrow> rat" where
  "pow2 k = (if 0 \<le> k then 2 ^ nat k else 1 / 2 ^ nat (- k))"

definition f64_exponent :: "rat \<Rightarrow> int" where
  "f64_exponent q =
     (let (n, d) = quotient_of q; k = int (floorlog 2 (nat n)) - int (floorlog 2 (nat d))
      in (if q < pow2 k then k - 1 else k) - 52)"

definition f64 :: "rat \<Rightarrow> rat" where
  "f64 q = (if q = 0 then 0 else of_int (round_half_even (q / pow2 (f64_exponent q))) * pow2 (f64_exponent q))"

definition f64_of_u64 :: "nat \<Rightarrow> rat" where "f64_of_u64 n = f64 (of_nat n)"
definition f64_div :: "rat \<Rightarrow> rat \<Rightarrow> rat" where "f64_div x y = f64 (x / y)"
definition f64_mul :: "rat \<Rightarrow> rat \<Rightarrow> rat" where "f64_mul x y = f64 (x * y)"

text \<open>\<open>q as u64\<close> of a number that is not negative: truncation, saturating.\<close>

definition f64_to_u64 :: "rat \<Rightarrow> nat" where "f64_to_u64 q = min u64_max (nat \<lfloor>q\<rfloor>)"

section \<open>Whole numbers below \<open>2 ^ 53\<close> are exact\<close>

lemma pow2_pos [simp]: "0 < pow2 k" "pow2 k \<noteq> 0"
  by (simp_all add: pow2_def)

lemma round_half_even_int [simp]: "round_half_even (of_int n) = n"
  by (simp add: round_half_even_def)

lemma pow2_nat: "0 \<le> k \<Longrightarrow> pow2 k = of_int (2 ^ nat k)"
  by (simp add: pow2_def)

lemma f64_exponent_nat:
  assumes "0 < n"
  shows "f64_exponent (of_nat n) = int (floorlog 2 n) - 53"
proof -
  have q: "quotient_of (of_nat n :: rat) = (int n, 1)"
    using quotient_of_int [of "int n"] by (simp add: Fract_of_int_quotient [symmetric])
  have l: "floorlog 2 (Suc 0) = 1" by (simp add: floorlog_def)
  have "0 < floorlog 2 n" using assms by (simp add: floorlog_def)
  moreover have "2 ^ (floorlog 2 n - 1) \<le> n \<and> n < 2 ^ floorlog 2 n"
    using floorlog_bounds [of n 2] assms by simp
  ultimately have "n < 2 ^ floorlog 2 n" "2 ^ (floorlog 2 n - 1) \<le> n" "0 < floorlog 2 n" by auto
  then have le: "(2::rat) ^ (floorlog 2 n - 1) \<le> of_nat n"
    by (metis of_nat_le_iff of_nat_numeral of_nat_power)
  have e: "nat (int (floorlog 2 n) - 1) = floorlog 2 n - 1" by simp
  show ?thesis
    using le \<open>0 < floorlog 2 n\<close> by (simp add: f64_exponent_def q l Let_def pow2_def e)
qed

lemma f64_shifted:
  assumes "n < 2 ^ 53"
  shows "f64 (of_nat (n * 2 ^ k)) = of_nat (n * 2 ^ k)"
proof (cases "n = 0")
  case False
  then have n: "0 < n" "0 < n * 2 ^ k" by simp_all
  have len: "floorlog 2 n \<le> 53" using assms floorlog_le_iff [of 2 n 53] by simp
  define e where "e = f64_exponent (of_nat (n * 2 ^ k))"
  have e: "e = int (floorlog 2 n) + int k - 53"
    using f64_exponent_nat [OF n(2)] n(1) by (simp add: e_def floorlog_power)
  have "\<exists>m. of_nat (n * 2 ^ k) = of_int m * pow2 e"
  proof (cases "0 \<le> e")
    case True
    then have "k = (53 - floorlog 2 n) + nat e" using e len by linarith
    then have "n * 2 ^ k = n * 2 ^ (53 - floorlog 2 n) * 2 ^ nat e"
      by (metis power_add mult.assoc)
    then have "of_nat (n * 2 ^ k) = of_int (int (n * 2 ^ (53 - floorlog 2 n))) * pow2 e"
    proof -
      assume "n * 2 ^ k = n * 2 ^ (53 - floorlog 2 n) * 2 ^ nat e"
      then have "(of_nat (n * 2 ^ k) :: rat) = of_nat (n * 2 ^ (53 - floorlog 2 n) * 2 ^ nat e)" by (rule arg_cong)
      then show ?thesis using True by (simp add: pow2_def)
    qed
    then show ?thesis by blast
  next
    case neg: False
    then have "of_nat (n * 2 ^ k) = of_int (int (n * 2 ^ k * 2 ^ nat (- e))) * pow2 e"
      by (simp add: pow2_def)
    then show ?thesis by blast
  qed
  then obtain m where m: "of_nat (n * 2 ^ k) = of_int m * pow2 e" ..
  then have "of_nat (n * 2 ^ k) / pow2 e = of_int m" by simp
  then show ?thesis using n(2) m by (simp add: f64_def e_def)
qed (simp add: f64_def)

lemma f64_nat: "n < 2 ^ 53 \<Longrightarrow> f64 (of_nat n) = of_nat n"
  using f64_shifted [of n 0] by simp

end
