(* ===== verification/Pages.thy ===== *)
theory Pages
  imports LibraryRoutes Floats
begin

text \<open>
  What the pages of \<open>src/src/routes/pages.rs\<close> share: the state and the answers of a page route, the
  cookies it sets, the form check, and the functions that prepare values for display. The templates
  themselves are files a template engine renders: an answer names its template and gives the values
  it is rendered with. The target of a redirect is the page and its arguments.
\<close>

section \<open>Answers\<close>

text \<open>The calendar functions of \<open>chrono\<close> (parse with a format, print with a format), on an encoding of
  the date as a number, and the distribution \<open>Alphanumeric\<close> of \<open>rand\<close>.\<close>

record page_env =
  srv :: server_env
  naive_parse :: "string \<Rightarrow> string \<Rightarrow> int option"
  naive_format :: "int \<Rightarrow> string \<Rightarrow> string"
  alphanumeric :: "byte \<Rightarrow> char"

datatype json =
    JNull | JBool bool | JNum int | JStr string | JArr "json list" | JObj "(string \<times> json) list"

datatype page_uri =
    IndexUri | LoginUri | RegisterUri | SetupUri | FilesUri "string option" | GroupsUri | GroupUri string
  | SpacesUri | TextUri string

datatype same_site = Lax | Strict

record cookie =
  ck_name :: string
  ck_value :: string
  ck_http_only :: bool
  ck_same_site :: same_site
  ck_path :: string

datatype cookie_change = AddCookie cookie | RemoveCookie string

datatype reply =
    Rendered string "(string \<times> json) list"
  | RedirectTo page_uri
  | Flashed page_uri string string
  | JsonReply nat json
  | FileReply http_response
  | StatusReply nat

record page =
  pg_cookies :: "cookie_change list"
  pg_reply :: reply

type_synonym 'z page_route = "('z, page) route"

definition answer :: "reply \<Rightarrow> page" where
  "answer r = \<lparr>pg_cookies = [], pg_reply = r\<rparr>"

definition flash_error :: "page_uri \<Rightarrow> string \<Rightarrow> page" where
  "flash_error target msg = answer (Flashed target ''error'' msg)"

definition flash_success :: "page_uri \<Rightarrow> string \<Rightarrow> page" where
  "flash_success target msg = answer (Flashed target ''success'' msg)"

definition json_error :: "nat \<Rightarrow> string \<Rightarrow> page" where
  "json_error code msg = answer (JsonReply code (JObj [(''error'', JStr msg)]))"

text \<open>\<open>(e.status(), json!({"error": e.to_string()}))\<close>.\<close>

definition json_refusal :: "app_error \<Rightarrow> page" where
  "json_refusal e = json_error (status e) (display_error e)"

definition json_ok :: "(string \<times> json) list \<Rightarrow> page" where
  "json_ok members = answer (JsonReply 200 (JObj members))"

definition dquoted :: "string \<Rightarrow> string" where
  "dquoted s = CHR 0x22 # s @ [CHR 0x22]"

section \<open>Guards, cookies and forms\<close>

definition page_user :: "page_env \<Rightarrow> request \<Rightarrow> ('z world_scheme, nat \<times> app_error, user) act" where
  "page_user P rq = session_setup_complete (env_ext (srv P)) (env_crypto (srv P)) rq"

text \<open>A page for whoever has a session: \<open>SessionUser\<close>, and \<open>Option<SessionUser>\<close>.\<close>

definition page_session :: "page_env \<Rightarrow> request \<Rightarrow> ('z world_scheme, nat \<times> app_error, user) act" where
  "page_session P rq = session_user (env_ext (srv P)) (env_crypto (srv P)) rq"

definition optional_session :: "page_env \<Rightarrow> request \<Rightarrow> ('z world_scheme, nat \<times> app_error, user option) act" where
  "optional_session P rq =
     bind (attempt (page_session P rq)) (\<lambda>r. ret (case r of Inl _ \<Rightarrow> None | Inr u \<Rightarrow> Some u))"

definition session_cookie :: "string \<Rightarrow> cookie" where
  "session_cookie token =
     \<lparr>ck_name = COOKIE_NAME, ck_value = token, ck_http_only = True, ck_same_site = Lax, ck_path = ''/''\<rparr>"

definition set_session_cookie :: "string \<Rightarrow> cookie_change" where
  "set_session_cookie token = AddCookie (session_cookie token)"

definition clear_session_cookie :: cookie_change where
  "clear_session_cookie = RemoveCookie COOKIE_NAME"

definition csrf_cookie :: "string \<Rightarrow> string \<Rightarrow> cookie" where
  "csrf_cookie name token =
     \<lparr>ck_name = name, ck_value = token, ck_http_only = False, ck_same_site = Strict, ck_path = ''/''\<rparr>"

text \<open>A page with forms carries the token of the session, a new one if there is none.\<close>

definition render_with_token ::
  "page_env \<Rightarrow> request \<Rightarrow> string \<Rightarrow> (string \<Rightarrow> (string \<times> json) list) \<Rightarrow> ('z world_scheme, 'e, page) act"
where
  "render_with_token P rq template context =
     bind (ensure_csrf_token (alphanumeric P) rq) (\<lambda>(token, fresh).
     ret \<lparr>pg_cookies = (case fresh of None \<Rightarrow> [] | Some (name, v) \<Rightarrow> [AddCookie (csrf_cookie name v)]),
          pg_reply = Rendered template (context token)\<rparr>)"

text \<open>The start of a form handler: without the token of the cookie it goes back.\<close>

definition checked_form ::
  "request \<Rightarrow> string \<Rightarrow> page_uri \<Rightarrow> ('w, 'e, page) act \<Rightarrow> ('w, 'e, page) act"
where
  "checked_form rq csrf_token target act =
     (case validate_csrf rq csrf_token of
        Inl _ \<Rightarrow> ret (flash_error target ''Invalid request. Please try again.'')
      | Inr _ \<Rightarrow> act)"

text \<open>Handlers that work on the library of the user answer \<open>missing\<close> when it cannot be looked up.\<close>

definition on_library ::
  "user \<Rightarrow> 'a \<Rightarrow> (personal_library \<Rightarrow> ('z world_scheme, 'e, 'a) act) \<Rightarrow> ('z world_scheme, 'e, 'a) act"
where
  "on_library user missing handler =
     bind (attempt (require_library (u_id user))) (\<lambda>found. case found of
         Inl _ \<Rightarrow> ret missing
       | Inr lib \<Rightarrow> handler lib)"

text \<open>A form on the library: the token, then the library.\<close>

definition library_form ::
  "page_env \<Rightarrow> request \<Rightarrow> string \<Rightarrow> page_uri \<Rightarrow> (personal_library \<Rightarrow> ('z world_scheme, nat \<times> app_error, page) act) \<Rightarrow> 'z page_route"
where
  "library_form P rq csrf_token back handler =
     bind (page_user P rq) (\<lambda>user.
     checked_form rq csrf_token back (on_library user (flash_error back ''Library not found.'') handler))"

text \<open>A script's request on the library: the token of the header first.\<close>

definition library_xhr ::
  "page_env \<Rightarrow> request \<Rightarrow> page \<Rightarrow> (user \<Rightarrow> personal_library \<Rightarrow> ('z world_scheme, nat \<times> app_error, page) act) \<Rightarrow> 'z page_route"
where
  "library_xhr P rq missing handler =
     bind (csrf_guard rq) (\<lambda>_.
     bind (page_user P rq) (\<lambda>user.
     on_library user missing (handler user)))"

definition no_library_json :: page where
  "no_library_json = json_error 404 ''Library not found.''"

text \<open>\<open>.map_err(|e| (e.status(), Json(..)))?\<close> around a call.\<close>

definition json_result ::
  "('w, app_error, 'a) act \<Rightarrow> ('a \<Rightarrow> page) \<Rightarrow> ('w, 'e, page) act"
where
  "json_result act show_it =
     bind (attempt act) (\<lambda>r. ret (case r of Inl e \<Rightarrow> json_refusal e | Inr x \<Rightarrow> show_it x))"

text \<open>The body of a script's request: what was read, or the answer to a failed or cut off reading.\<close>

definition with_body ::
  "body_stream \<Rightarrow> nat \<Rightarrow> string \<Rightarrow> string \<Rightarrow> (byte list \<Rightarrow> ('w, 'e, page) act) \<Rightarrow> ('w, 'e, page) act"
where
  "with_body data allowed failure too_big handler =
     (case data allowed of
        Inl e \<Rightarrow> ret (json_error 500 (failure @ e))
      | Inr (bytes, is_complete) \<Rightarrow> if \<not> is_complete then ret (json_error 413 too_big) else handler bytes)"

definition with_chunk :: "page_env \<Rightarrow> body_stream \<Rightarrow> (byte list \<Rightarrow> ('w, 'e, page) act) \<Rightarrow> ('w, 'e, page) act" where
  "with_chunk P data handler =
     (let config = env_config (srv P) in
      with_body data ((chunk_size_bytes config + 1) mod 2 ^ 64) ''Failed to read chunk data: ''
        (''Chunk exceeds the maximum chunk size of '' @ show_nat (chunk_size_bytes config) @ '' bytes.'') handler)"

section \<open>Text for display\<close>

text \<open>\<open>{:.1}\<close>.\<close>

definition show_tenths :: "rat \<Rightarrow> string" where
  "show_tenths q = (let t = nat (round_half_even (10 * q)) in show_nat (t div 10) @ ''.'' @ show_nat (t mod 10))"

definition page_format_bytes :: "nat \<Rightarrow> string" where
  "page_format_bytes bytes =
     (let KB = 1024; MB = 1024 * 1024; GB = 1024 * 1024 * 1024 in
      if GB \<le> bytes then show_tenths (f64_div (f64_of_u64 bytes) (f64_of_u64 GB)) @ '' GB''
      else if MB \<le> bytes then show_tenths (f64_div (f64_of_u64 bytes) (f64_of_u64 MB)) @ '' MB''
      else if KB \<le> bytes then show_tenths (f64_div (f64_of_u64 bytes) (f64_of_u64 KB)) @ '' KB''
      else show_nat bytes @ '' B'')"

text \<open>\<open>(disk as f64 / quota as f64 * 100.0).min(100.0) as u64\<close>, 0 without a positive quota.\<close>

definition usage_pct :: "nat \<Rightarrow> int \<Rightarrow> int" where
  "usage_pct disk_bytes quota_bytes =
     (if 0 < quota_bytes
      then \<lfloor>min (f64_mul (f64_div (f64_of_u64 disk_bytes) (f64 (of_int quota_bytes))) 100) 100\<rfloor> else 0)"

definition format_timestamp :: "page_env \<Rightarrow> string \<Rightarrow> string" where
  "format_timestamp P ts =
     (case naive_parse P ts ''%Y-%m-%dT%H:%M:%S%.f'' of
        Some dt \<Rightarrow> naive_format P dt ''%b %d, %Y %H:%M''
      | None \<Rightarrow>
         (case naive_parse P ts ''%Y-%m-%d %H:%M:%S'' of
            Some dt \<Rightarrow> naive_format P dt ''%b %d, %Y %H:%M''
          | None \<Rightarrow> ts))"

definition icon_by_extension :: "string \<Rightarrow> string" where
  "icon_by_extension ext =
     (if ext = ''pdf'' then ''pdf''
      else if ext \<in> set [''doc'', ''docx'', ''odt''] then ''document''
      else if ext \<in> set [''xls'', ''xlsx'', ''ods'', ''csv''] then ''spreadsheet''
      else if ext \<in> set [''ppt'', ''pptx'', ''odp''] then ''presentation''
      else if ext \<in> set [''zip'', ''tar'', ''gz'', ''bz2'', ''xz'', ''7z'', ''rar''] then ''archive''
      else if ext \<in> set [''rs'', ''py'', ''js'', ''ts'', ''go'', ''c'', ''cpp'', ''h'', ''java'', ''rb'', ''php'', ''sh'',
                       ''toml'', ''yaml'', ''yml'', ''json'', ''xml'', ''html'', ''css''] then ''code''
      else ''file'')"

definition file_icon :: "string \<Rightarrow> bool \<Rightarrow> string option \<Rightarrow> string" where
  "file_icon name dir mime =
     (let by_name = icon_by_extension (to_ascii_lowercase (last (split_on (\<lambda>c. c = CHR 0x2E) name))) in
      if dir then ''folder'' else
      case mime of None \<Rightarrow> by_name
      | Some m \<Rightarrow>
         if starts_with m ''image/'' then ''image''
         else if starts_with m ''video/'' then ''video''
         else if starts_with m ''audio/'' then ''audio''
         else if starts_with m ''text/'' then ''text''
         else if m = ''application/pdf'' then ''pdf''
         else if contains m ''zip'' \<or> contains m ''tar'' \<or> contains m ''compress'' then ''archive''
         else by_name)"

section \<open>Paths of forms\<close>

text \<open>Everything before the last slash; nothing when there is none.\<close>

definition parent_path :: "string \<Rightarrow> string" where
  "parent_path p =
     (if list_ex path_sep p then rev (drop 1 (dropWhile (\<lambda>c. \<not> path_sep c) (rev p))) else [])"

definition trim_slashes :: "string \<Rightarrow> string" where
  "trim_slashes s = rev (dropWhile path_sep (rev (dropWhile path_sep s)))"

definition normalize_dir_path :: "string \<Rightarrow> string" where
  "normalize_dir_path p = trim_slashes (trim p)"

definition file_name_from_path :: "string \<Rightarrow> string" where
  "file_name_from_path p = last (split_on path_sep p)"

definition join_dir_and_name :: "string \<Rightarrow> string \<Rightarrow> string" where
  "join_dir_and_name dir name = (if dir = [] then name else dir @ ''/'' @ name)"

fun crumbs_from :: "string \<Rightarrow> string list \<Rightarrow> json list" where
  "crumbs_from acc [] = []"
| "crumbs_from acc (seg # segs) =
     (if seg = [] then crumbs_from acc segs
      else let acc' = (if acc \<noteq> [] then acc @ ''/'' else acc) @ seg
           in JObj [(''name'', JStr seg), (''path'', JStr acc')] # crumbs_from acc' segs)"

definition build_space_breadcrumbs :: "string \<Rightarrow> string \<Rightarrow> json list" where
  "build_space_breadcrumbs space_name p =
     JObj [(''name'', JStr space_name), (''path'', JStr [])] #
     (if p \<noteq> [] then crumbs_from [] (split_on path_sep p) else [])"

definition build_breadcrumbs :: "string \<Rightarrow> json list" where
  "build_breadcrumbs p =
     JObj [(''name'', JStr ''Files''), (''path'', JStr [])] #
     (if p \<noteq> [] then crumbs_from [] (split_on path_sep p) else [])"

section \<open>Values for templates\<close>

definition jopt :: "('a \<Rightarrow> json) \<Rightarrow> 'a option \<Rightarrow> json" where
  "jopt f r = (case r of None \<Rightarrow> JNull | Some x \<Rightarrow> f x)"

abbreviation jnat :: "nat \<Rightarrow> json" where
  "jnat n \<equiv> JNum (int n)"

definition display_entry :: "page_env \<Rightarrow> fs_entry \<Rightarrow> json" where
  "display_entry P e =
     JObj [(''name'', JStr (e_name e)), (''path'', JStr (e_path e)), (''is_dir'', JBool (e_is_dir e)),
           (''size'', jopt (\<lambda>n. JStr (page_format_bytes n)) (e_size e)),
           (''raw_size'', jnat (case e_size e of None \<Rightarrow> 0 | Some n \<Rightarrow> n)),
           (''disk_size'', jopt (\<lambda>n. JStr (page_format_bytes n)) (e_disk_size e)),
           (''mime_type'', jopt JStr (e_mime_type e)),
           (''modified'', jopt (\<lambda>m. JStr (format_timestamp P m)) (e_modified e)),
           (''raw_modified'', jopt JStr (e_modified e)),
           (''icon'', JStr (file_icon (e_name e) (e_is_dir e) (e_mime_type e)))]"

definition folder_entry :: "fs_entry \<Rightarrow> json" where
  "folder_entry e = JObj [(''name'', JStr (e_name e)), (''path'', JStr (e_path e))]"

text \<open>A flash message, kind and text, that the browser carries over from the redirect before.\<close>

type_synonym flash = "(string \<times> string) option"

definition flash_fields :: "flash \<Rightarrow> (string \<times> json) list" where
  "flash_fields fl = [(''flash_kind'', jopt (\<lambda>f. JStr (fst f)) fl), (''flash_msg'', jopt (\<lambda>f. JStr (snd f)) fl)]"

definition upload_json :: "upload_result \<Rightarrow> (string \<times> json) list" where
  "upload_json r =
     [(''success'', JBool True), (''path'', JStr (up_path r)), (''size'', jnat (up_size r)),
      (''disk_size'', jnat (up_disk_size r)), (''checksum_sha256'', JStr (up_checksum_sha256 r)),
      (''mime_type'', jopt JStr (up_mime_type r))]"

definition init_upload_json :: "init_upload_result \<Rightarrow> (string \<times> json) list" where
  "init_upload_json r =
     [(''upload_id'', JStr (iu_upload_id r)), (''chunk_size_bytes'', jnat (iu_chunk_size_bytes r)),
      (''total_chunks'', jnat (unat (iu_total_chunks r))), (''total_bytes'', jnat (iu_total_bytes r)),
      (''expires_at'', JStr (iu_expires_at r))]"

definition receive_chunk_json :: "receive_chunk_result \<Rightarrow> (string \<times> json) list" where
  "receive_chunk_json r =
     [(''upload_id'', JStr (rc_upload_id r)), (''chunk_index'', jnat (unat (rc_chunk_index r))),
      (''received_chunks'', jnat (unat (rc_received_chunks r))), (''total_chunks'', jnat (unat (rc_total_chunks r)))]"

definition init_download_json :: "init_download_result \<Rightarrow> (string \<times> json) list" where
  "init_download_json r =
     [(''token'', JStr (id_token r)), (''filename'', JStr (id_filename r)),
      (''mime_type'', jopt JStr (id_mime_type r)), (''chunk_size_bytes'', jnat (id_chunk_size_bytes r)),
      (''total_chunks'', jnat (unat (id_total_chunks r))), (''total_bytes'', jnat (id_total_bytes r)),
      (''expires_at'', JStr (id_expires_at r))]"

definition chunk_download_of :: "chunk_download_result \<Rightarrow> file_chunk_download" where
  "chunk_download_of r =
     \<lparr>fc_data = cd_data r, fc_content_type = parse_content_type (cd_mime_type r),
      fc_checksum_sha256 = cd_checksum_sha256 r, fc_chunk_index = cd_chunk_index r,
      fc_total_chunks = cd_total_chunks r, fc_total_bytes = cd_total_bytes r\<rparr>"

text \<open>The number of paths in a message of a bulk request holds a dash.\<close>

definition en_dash :: string where
  "en_dash = [CHR 0xE2, CHR 0x80, CHR 0x93]"

end
