(* ===== verification/AccountPages.thy ===== *)
theory AccountPages
  imports Pages RateLimit
begin

text \<open>
  The pages of accounts: the start page, login, registration, logout, the setup wizard, usage and
  settings (\<open>src/src/routes/pages.rs\<close>). Login and registration are limited per client address; the
  limiter is part of the state, and the monotonic clock it reads is a parameter \<open>now\<close>.
\<close>

record web = world +
  attempts :: limiter

definition rate_check :: "string \<Rightarrow> 32 word \<Rightarrow> nat \<Rightarrow> nat \<Rightarrow> ('z web_scheme, 'e, bool) act" where
  "rate_check key max_attempts window_secs now =
     (\<lambda>w. let (ok, a) = check (attempts w) key max_attempts window_secs now in (Inr ok, w\<lparr>attempts := a\<rparr>))"

record login_form =
  lf_username :: string
  lf_password :: string
  lf_csrf_token :: string

record register_form =
  rf_username :: string
  rf_email :: string
  rf_password :: string
  rf_password_confirm :: string
  rf_csrf_token :: string

section \<open>Login and registration\<close>

definition index_page :: "page_env \<Rightarrow> request \<Rightarrow> 'z page_route" where
  "index_page P rq =
     bind (optional_session P rq) (\<lambda>user.
     ret (answer (RedirectTo (case user of None \<Rightarrow> LoginUri
       | Some u \<Rightarrow> if u_setup_complete u then FilesUri None else SetupUri))))"

definition login_page :: "page_env \<Rightarrow> request \<Rightarrow> flash \<Rightarrow> 'z page_route" where
  "login_page P rq fl =
     bind (optional_session P rq) (\<lambda>user.
     if user \<noteq> None then ret (answer (RedirectTo IndexUri))
     else render_with_token P rq ''auth/login'' (\<lambda>token. (''csrf_token'', JStr token) # flash_fields fl))"

definition login_submit ::
  "page_env \<Rightarrow> request \<Rightarrow> string \<Rightarrow> nat \<Rightarrow> login_form \<Rightarrow> ('z web_scheme, nat \<times> app_error, page) act"
where
  "login_submit P rq client_ip now form =
     checked_form rq (lf_csrf_token form) LoginUri (
     bind (rate_check (''login:'' @ client_ip) 10 900 now) (\<lambda>ok.
     if \<not> ok then ret (flash_error LoginUri ''Too many login attempts. Please wait 15 minutes.'') else
     bind (attempt (login (env_ext (srv P)) (env_crypto (srv P)) (env_tools (srv P)) (env_argon2 (srv P))
       (env_config (srv P)) (lf_username form) (lf_password form))) (\<lambda>result.
     ret (case result of
         Inr r \<Rightarrow> \<lparr>pg_cookies = [set_session_cookie (lr_token r)],
                  pg_reply = RedirectTo (if lr_setup_complete r then FilesUri None else SetupUri)\<rparr>
       | Inl e \<Rightarrow> flash_error LoginUri ''Invalid username or password.''))))"

definition register_page :: "page_env \<Rightarrow> request \<Rightarrow> flash \<Rightarrow> 'z page_route" where
  "register_page P rq fl =
     bind (optional_session P rq) (\<lambda>user.
     if user \<noteq> None then ret (answer (RedirectTo IndexUri))
     else render_with_token P rq ''auth/register'' (\<lambda>token. (''csrf_token'', JStr token) # flash_fields fl))"

definition register_submit ::
  "page_env \<Rightarrow> request \<Rightarrow> string \<Rightarrow> nat \<Rightarrow> register_form \<Rightarrow> ('z web_scheme, nat \<times> app_error, page) act"
where
  "register_submit P rq client_ip now form =
     checked_form rq (rf_csrf_token form) RegisterUri (
     bind (rate_check (''register:'' @ client_ip) 5 900 now) (\<lambda>ok.
     if \<not> ok then ret (flash_error RegisterUri ''Too many registration attempts. Please wait 15 minutes.'') else
     if rf_password form \<noteq> rf_password_confirm form then ret (flash_error RegisterUri ''Passwords do not match.'') else
     bind (attempt (register (env_argon2 (srv P)) (env_config (srv P)) (rf_username form) (rf_email form)
       (rf_password form))) (\<lambda>result.
     ret (case result of
         Inr _ \<Rightarrow> flash_success LoginUri ''Account created! Please log in.''
       | Inl (Conflict msg) \<Rightarrow> flash_error RegisterUri msg
       | Inl (Validation msg) \<Rightarrow> flash_error RegisterUri msg
       | Inl _ \<Rightarrow> flash_error RegisterUri ''Registration failed. Please try again.''))))"

definition logout_submit :: "page_env \<Rightarrow> request \<Rightarrow> string \<Rightarrow> 'z page_route" where
  "logout_submit P rq csrf_token =
     bind (optional_session P rq) (\<lambda>user.
     case validate_csrf rq csrf_token of
         Inl _ \<Rightarrow> ret (answer (RedirectTo LoginUri))
       | Inr _ \<Rightarrow>
           bind (case user of None \<Rightarrow> ret ()
             | Some logged_in \<Rightarrow>
                 (case get_cookie rq COOKIE_NAME of None \<Rightarrow> ret ()
                  | Some v \<Rightarrow> ignore (logout (u_id logged_in) (hash_token (env_ext (srv P)) (env_crypto (srv P)) v)))) (\<lambda>_.
           ret \<lparr>pg_cookies = [clear_session_cookie], pg_reply = RedirectTo LoginUri\<rparr>))"

section \<open>Setup\<close>

definition setup_page :: "page_env \<Rightarrow> request \<Rightarrow> flash \<Rightarrow> 'z page_route" where
  "setup_page P rq fl =
     bind (page_session P rq) (\<lambda>user.
     if u_setup_complete user then ret (answer (RedirectTo (FilesUri None)))
     else render_with_token P rq ''setup/wizard'' (\<lambda>token.
       [(''user'', JStr (u_username user)), (''csrf_token'', JStr token)] @ flash_fields fl))"

definition setup_submit :: "page_env \<Rightarrow> request \<Rightarrow> string \<Rightarrow> 'z page_route" where
  "setup_submit P rq csrf_token =
     bind (page_session P rq) (\<lambda>user.
     checked_form rq csrf_token SetupUri (
     if u_setup_complete user then ret (answer (RedirectTo (FilesUri None))) else
     bind (attempt (setup_library (env_crypto (srv P)) (env_config (srv P)) (env_master_key (srv P)) (u_id user))) (\<lambda>result.
     ret (case result of
         Inr _ \<Rightarrow> answer (RedirectTo (FilesUri None))
       | Inl _ \<Rightarrow> flash_error SetupUri ''Library setup failed. Please try again.''))))"

section \<open>Usage and settings\<close>

definition no_usage :: usage_result where
  "no_usage = \<lparr>us_disk_bytes = 0, us_file_count = 0, us_dir_count = 0\<rparr>"

text \<open>\<open>calculate_usage(..).unwrap_or(..)\<close>; \<open>None\<close> is a walk that has not ended.\<close>

definition library_usage_or_none :: "page_env \<Rightarrow> string \<Rightarrow> ('z world_scheme, nat \<times> app_error, usage_result option) act" where
  "library_usage_or_none P library_id =
     bind (attempt (calculate_usage (env_config (srv P)) library_id [])) (\<lambda>r.
     ret (case r of Inl _ \<Rightarrow> Some no_usage | Inr u \<Rightarrow> u))"

definition quota_text :: "int \<Rightarrow> string" where
  "quota_text quota_bytes = page_format_bytes (as_u64 quota_bytes)"

definition usage_sidebar :: "page_env \<Rightarrow> request \<Rightarrow> ('z, page option) route" where
  "usage_sidebar P rq =
     bind (page_user P rq) (\<lambda>user.
     on_library user (Some (answer (StatusReply 404))) (\<lambda>lib.
           bind (library_usage_or_none P (pl_id lib)) (\<lambda>r.
           ret (map_option (\<lambda>usage. answer (Rendered ''partials/sidebar_usage''
             [(''disk_bytes_fmt'', JStr (page_format_bytes (us_disk_bytes usage))),
              (''quota_bytes_fmt'', JStr (quota_text (u_quota_bytes user))),
              (''usage_pct'', JNum (usage_pct (us_disk_bytes usage) (u_quota_bytes user)))])) r))))"

definition usage_page :: "page_env \<Rightarrow> request \<Rightarrow> ('z, page option) route" where
  "usage_page P rq =
     bind (page_user P rq) (\<lambda>user.
     on_library user (Some (answer (RedirectTo SetupUri))) (\<lambda>lib.
           bind (library_usage_or_none P (pl_id lib)) (\<lambda>r. case r of
               None \<Rightarrow> ret None
             | Some usage \<Rightarrow>
                 bind (render_with_token P rq ''files/usage'' (\<lambda>token.
                   [(''user'', JStr (u_username user)), (''csrf_token'', JStr token),
                    (''disk_bytes'', jnat (us_disk_bytes usage)),
                    (''disk_bytes_fmt'', JStr (page_format_bytes (us_disk_bytes usage))),
                    (''file_count'', jnat (us_file_count usage)), (''dir_count'', jnat (us_dir_count usage)),
                    (''quota_bytes'', JNum (u_quota_bytes user)),
                    (''quota_bytes_fmt'', JStr (quota_text (u_quota_bytes user))),
                    (''usage_pct'', JNum (usage_pct (us_disk_bytes usage) (u_quota_bytes user)))])) (\<lambda>p.
                 ret (Some p)))))"

definition settings_page :: "page_env \<Rightarrow> request \<Rightarrow> 'z page_route" where
  "settings_page P rq =
     bind (page_user P rq) (\<lambda>user.
     bind (attempt (library_find_by_user (u_id user))) (\<lambda>r.
     let lib = (case r of Inl _ \<Rightarrow> None | Inr found \<Rightarrow> found) in
     render_with_token P rq ''settings/index'' (\<lambda>token.
       [(''user_id'', JStr (u_id user)), (''username'', JStr (u_username user)), (''csrf_token'', JStr token),
        (''email'', JStr (u_email user)), (''role'', JStr (u_role user)), (''created_at'', JStr (u_created_at user)),
        (''library_id'', jopt (\<lambda>l. JStr (pl_id l)) lib),
        (''encryption_mode'', jopt (\<lambda>l. JStr (pl_encryption_mode l)) lib),
        (''library_created'', jopt (\<lambda>l. JStr (pl_created_at l)) lib)])))"

end
