(* ===== verification/FilePages.thy ===== *)
theory FilePages
  imports Pages
begin

text \<open>
  The file browser of the personal library (\<open>src/src/routes/pages.rs\<close>): its pages, its forms, and
  the requests of its scripts, chunked transfers included.
\<close>

record mkdir_form =
  mf_name :: string
  mf_path :: string
  mf_csrf_token :: string

record rename_form =
  nf_old_path :: string
  nf_new_name :: string
  nf_csrf_token :: string

record move_form =
  vf_old_path :: string
  vf_target_dir :: string
  vf_return_path :: "string option"
  vf_csrf_token :: string

record delete_form =
  df_path :: string
  df_csrf_token :: string

record bulk_delete_request =
  bd_paths :: "string list"

record bulk_move_request =
  bm_paths :: "string list"
  bm_target_dir :: string

record chunked_init_request =
  ci_path :: string
  ci_total_chunks :: "32 word"
  ci_total_bytes :: nat
  ci_checksum_sha256 :: "string option"

record chunked_complete_request =
  cq_upload_id :: string
  cq_verify :: "bool option"

section \<open>Pages\<close>

text \<open>\<open>list_directory(..).await.unwrap_or_default()\<close>.\<close>

definition listing_or_empty :: "page_env \<Rightarrow> string \<Rightarrow> string \<Rightarrow> ('z world_scheme, 'e, fs_entry list) act" where
  "listing_or_empty P library_id user_path =
     bind (gets unlocked) (\<lambda>u.
     bind (attempt (list_directory (env_crypto (srv P)) (env_ext (srv P)) (env_config (srv P)) u library_id user_path False))
       (\<lambda>r. ret (case r of Inl _ \<Rightarrow> [] | Inr entries \<Rightarrow> entries)))"

definition browser_fields :: "page_env \<Rightarrow> string \<Rightarrow> fs_entry list \<Rightarrow> (string \<times> json) list" where
  "browser_fields P user_path entries =
     [(''path'', JStr user_path), (''entries'', JArr (map (display_entry P) entries)),
      (''breadcrumbs'', JArr (build_breadcrumbs user_path)), (''is_root'', JBool (user_path = []))]"

definition files_page :: "page_env \<Rightarrow> request \<Rightarrow> string option \<Rightarrow> flash \<Rightarrow> 'z page_route" where
  "files_page P rq path fl =
     bind (page_user P rq) (\<lambda>user.
     on_library user (answer (RedirectTo SetupUri)) (\<lambda>lib.
     let user_path = (case path of None \<Rightarrow> [] | Some p \<Rightarrow> p); config = env_config (srv P) in
     bind (listing_or_empty P (pl_id lib) user_path) (\<lambda>entries.
     render_with_token P rq ''files/browser'' (\<lambda>token.
       [(''user'', JStr (u_username user)), (''csrf_token'', JStr token),
        (''chunk_size_bytes'', jnat (chunk_size_bytes config)),
        (''max_parallel_chunks'', jnat (max_parallel_chunks config))] @
       browser_fields P user_path entries @ flash_fields fl))))"

definition files_partial :: "page_env \<Rightarrow> request \<Rightarrow> string option \<Rightarrow> 'z page_route" where
  "files_partial P rq path =
     bind (page_user P rq) (\<lambda>user.
     on_library user (answer (StatusReply 404)) (\<lambda>lib.
     let user_path = (case path of None \<Rightarrow> [] | Some p \<Rightarrow> p) in
     bind (listing_or_empty P (pl_id lib) user_path) (\<lambda>entries.
     ret (answer (Rendered ''partials/file_list'' (browser_fields P user_path entries))))))"

definition folders_json :: "string \<Rightarrow> fs_entry list \<Rightarrow> page" where
  "folders_json user_path entries =
     json_ok [(''path'', JStr user_path), (''entries'', JArr (map folder_entry (filter e_is_dir entries)))]"

definition files_folders :: "page_env \<Rightarrow> request \<Rightarrow> string option \<Rightarrow> 'z page_route" where
  "files_folders P rq path =
     bind (page_user P rq) (\<lambda>user.
     on_library user no_library_json (\<lambda>lib.
     let user_path = (case path of None \<Rightarrow> [] | Some p \<Rightarrow> p) in
     bind (gets unlocked) (\<lambda>u.
     json_result (list_directory (env_crypto (srv P)) (env_ext (srv P)) (env_config (srv P)) u (pl_id lib) user_path False)
       (folders_json user_path))))"

section \<open>Forms\<close>

definition mkdir_submit :: "page_env \<Rightarrow> request \<Rightarrow> mkdir_form \<Rightarrow> 'z page_route" where
  "mkdir_submit P rq form =
     (let back = FilesUri (Some (mf_path form));
          full_path = (if mf_path form = [] then mf_name form else mf_path form @ ''/'' @ mf_name form) in
      library_form P rq (mf_csrf_token form) back (\<lambda>lib.
      bind (attempt (create_directory (env_config (srv P)) (pl_id lib) full_path)) (\<lambda>r.
      ret (case r of
          Inr _ \<Rightarrow> flash_success back (''Folder '' @ dquoted (mf_name form) @ '' created.'')
        | Inl (Conflict msg) \<Rightarrow> flash_error back msg
        | Inl (Validation msg) \<Rightarrow> flash_error back msg
        | Inl _ \<Rightarrow> flash_error back ''Failed to create folder.''))))"

definition dir_uri :: "string \<Rightarrow> page_uri" where
  "dir_uri p = FilesUri (if p = [] then None else Some p)"

definition rename_submit :: "page_env \<Rightarrow> request \<Rightarrow> rename_form \<Rightarrow> 'z page_route" where
  "rename_submit P rq form =
     library_form P rq (nf_csrf_token form) (FilesUri None) (\<lambda>lib.
     let parent = parent_path (nf_old_path form);
         new_path = (if parent = [] then nf_new_name form else parent @ ''/'' @ nf_new_name form) in
     bind (attempt (rename_entry (env_config (srv P)) (pl_id lib) (nf_old_path form) new_path)) (\<lambda>r.
     ret (case r of
         Inr _ \<Rightarrow> flash_success (dir_uri parent) (''Renamed to '' @ dquoted (nf_new_name form) @ ''.'')
       | Inl (Validation msg) \<Rightarrow> flash_error (dir_uri parent) msg
       | Inl _ \<Rightarrow> flash_error (dir_uri parent) ''Rename failed.'')))"

definition move_submit :: "page_env \<Rightarrow> request \<Rightarrow> move_form \<Rightarrow> 'z page_route" where
  "move_submit P rq form =
     library_form P rq (vf_csrf_token form) (FilesUri None) (\<lambda>lib.
     let name = file_name_from_path (vf_old_path form) in
     if name = [] then ret (flash_error (FilesUri None) ''Invalid source path.'') else
     let target_dir = normalize_dir_path (vf_target_dir form);
         new_path = join_dir_and_name target_dir name;
         return_dir = normalize_dir_path (case vf_return_path form of None \<Rightarrow> [] | Some p \<Rightarrow> p) in
     bind (attempt (rename_entry (env_config (srv P)) (pl_id lib) (vf_old_path form) new_path)) (\<lambda>r.
     ret (case r of
         Inr _ \<Rightarrow> flash_success (dir_uri return_dir) ''Moved successfully.''
       | Inl (Validation msg) \<Rightarrow> flash_error (FilesUri None) msg
       | Inl (Conflict msg) \<Rightarrow> flash_error (FilesUri None) msg
       | Inl _ \<Rightarrow> flash_error (FilesUri None) ''Move failed.'')))"

definition delete_submit :: "page_env \<Rightarrow> request \<Rightarrow> delete_form \<Rightarrow> 'z page_route" where
  "delete_submit P rq form =
     library_form P rq (df_csrf_token form) (FilesUri None) (\<lambda>lib.
     let parent = parent_path (df_path form) in
     bind (attempt (delete_entry (env_config (srv P)) (pl_id lib) (df_path form))) (\<lambda>r.
     ret (case r of
         Inr _ \<Rightarrow> flash_success (dir_uri parent) ''Deleted successfully.''
       | Inl _ \<Rightarrow> flash_error (dir_uri parent) ''Delete failed.'')))"

section \<open>Requests of scripts\<close>

text \<open>The loop over the paths of a bulk request: how many succeeded, and the errors in order.\<close>

fun bulk ::
  "(string \<Rightarrow> ('w, app_error, 'a) act) \<Rightarrow> string list \<Rightarrow> nat \<Rightarrow> string list \<Rightarrow> ('w, 'e, nat \<times> string list) act"
where
  "bulk step [] n errors = ret (n, errors)"
| "bulk step (p # ps) n errors =
     bind (attempt (step p)) (\<lambda>r. case r of
         Inr _ \<Rightarrow> bulk step ps (n + 1) errors
       | Inl e \<Rightarrow> bulk step ps n (errors @ [p @ '': '' @ display_error e]))"

text \<open>A move refuses a path without a name; \<open>no_name\<close> is the text of that error.\<close>

fun bulk_moves ::
  "(string \<Rightarrow> string \<Rightarrow> ('w, app_error, 'a) act) \<Rightarrow> string \<Rightarrow> string \<Rightarrow> string list \<Rightarrow> nat \<Rightarrow> string list \<Rightarrow>
   ('w, 'e, nat \<times> string list) act"
where
  "bulk_moves move no_name target_dir [] n errors = ret (n, errors)"
| "bulk_moves move no_name target_dir (p # ps) n errors =
     (let name = file_name_from_path p in
      if name = [] then bulk_moves move no_name target_dir ps n (errors @ [p @ '': '' @ no_name]) else
      bind (attempt (move p (join_dir_and_name target_dir name))) (\<lambda>r. case r of
          Inr _ \<Rightarrow> bulk_moves move no_name target_dir ps (n + 1) errors
        | Inl e \<Rightarrow> bulk_moves move no_name target_dir ps n (errors @ [p @ '': '' @ display_error e])))"

definition bulk_json :: "string \<Rightarrow> nat \<times> string list \<Rightarrow> page" where
  "bulk_json counted r = json_ok [(counted, jnat (fst r)), (''errors'', JArr (map JStr (snd r)))]"

definition bulk_limit_msg :: string where
  "bulk_limit_msg = ''Invalid number of paths (1'' @ en_dash @ ''500).''"

definition bulk_delete :: "page_env \<Rightarrow> request \<Rightarrow> bulk_delete_request \<Rightarrow> 'z page_route" where
  "bulk_delete P rq body =
     library_xhr P rq (bulk_json ''deleted'' (0, [''Library not found.''])) (\<lambda>user lib.
     if bd_paths body = [] \<or> length (bd_paths body) > 500 then ret (bulk_json ''deleted'' (0, [bulk_limit_msg])) else
     bind (bulk (delete_entry (env_config (srv P)) (pl_id lib)) (bd_paths body) 0 []) (\<lambda>r.
     ret (bulk_json ''deleted'' r)))"

definition bulk_move :: "page_env \<Rightarrow> request \<Rightarrow> bulk_move_request \<Rightarrow> 'z page_route" where
  "bulk_move P rq body =
     library_xhr P rq (bulk_json ''moved'' (0, [''Library not found.''])) (\<lambda>user lib.
     if bm_paths body = [] \<or> length (bm_paths body) > 500 then ret (bulk_json ''moved'' (0, [bulk_limit_msg])) else
     let target_dir = normalize_dir_path (bm_target_dir body) in
     bind (bulk_moves (rename_entry (env_config (srv P)) (pl_id lib)) ''Invalid source path.'' target_dir
       (bm_paths body) 0 []) (\<lambda>r.
     ret (bulk_json ''moved'' r)))"

definition page_upload_file :: "page_env \<Rightarrow> request \<Rightarrow> string \<Rightarrow> body_stream \<Rightarrow> 'z page_route" where
  "page_upload_file P rq path data =
     library_xhr P rq no_library_json (\<lambda>user lib.
     let allowed = min (max_upload_bytes (env_config (srv P))) (50 * 1024 * 1024) in
     with_body data allowed ''Read failed: '' (''File exceeds maximum size of '' @ show_nat allowed @ '' bytes.'') (\<lambda>bytes.
     bind (gets unlocked) (\<lambda>u.
     json_result (upload_file (env_crypto (srv P)) (env_ext (srv P)) (env_config (srv P)) u (pl_id lib) path bytes False)
       (\<lambda>r. json_ok (upload_json r)))))"

definition page_init_upload :: "page_env \<Rightarrow> request \<Rightarrow> chunked_init_request \<Rightarrow> 'z page_route" where
  "page_init_upload P rq body =
     library_xhr P rq no_library_json (\<lambda>user lib.
     json_result (init_upload (env_config (srv P))
       \<lparr>ip_user_id = u_id user, ip_target_id = pl_id lib, ip_target_type = ''library'', ip_target_path = ci_path body,
        ip_total_chunks = ci_total_chunks body, ip_total_bytes = ci_total_bytes body,
        ip_checksum_sha256 = ci_checksum_sha256 body\<rparr>)
       (\<lambda>r. json_ok (init_upload_json r)))"

definition page_receive_chunk :: "page_env \<Rightarrow> request \<Rightarrow> string \<Rightarrow> 32 word \<Rightarrow> body_stream \<Rightarrow> 'z page_route" where
  "page_receive_chunk P rq upload_id chunk_index data =
     library_xhr P rq no_library_json (\<lambda>user lib.
     with_chunk P data (\<lambda>bytes.
     json_result (receive_chunk (env_tools (srv P)) (env_config (srv P)) (u_id user) (pl_id lib) ''library'' upload_id
       chunk_index bytes) (\<lambda>r. json_ok (receive_chunk_json r))))"

definition page_complete_upload :: "page_env \<Rightarrow> request \<Rightarrow> chunked_complete_request \<Rightarrow> 'z page_route" where
  "page_complete_upload P rq body =
     library_xhr P rq no_library_json (\<lambda>user lib.
     bind (gets unlocked) (\<lambda>u.
     json_result (complete_upload (env_crypto (srv P)) (env_ext (srv P)) (env_tools (srv P)) (env_config (srv P)) u
       (u_id user) (pl_id lib) ''library'' (cq_upload_id body) (cq_verify body = Some True))
       (\<lambda>r. json_ok (upload_json r))))"

definition page_cancel_upload :: "page_env \<Rightarrow> request \<Rightarrow> string \<Rightarrow> 'z page_route" where
  "page_cancel_upload P rq upload_id =
     library_xhr P rq no_library_json (\<lambda>user lib.
     json_result (cancel_upload (env_tools (srv P)) (env_config (srv P)) (u_id user) (pl_id lib) ''library'' upload_id)
       (\<lambda>_. json_ok [(''success'', JBool True), (''upload_id'', JStr upload_id)]))"

definition page_init_download :: "page_env \<Rightarrow> request \<Rightarrow> string \<Rightarrow> 'z page_route" where
  "page_init_download P rq path =
     bind (page_user P rq) (\<lambda>user.
     on_library user no_library_json (\<lambda>lib.
     bind (gets unlocked) (\<lambda>u.
     json_result (init_download (env_crypto (srv P)) (env_ext (srv P)) (env_tools (srv P)) (env_config (srv P)) u
       (u_id user) (pl_id lib) ''library'' path) (\<lambda>r. json_ok (init_download_json r)))))"

definition page_download_chunk :: "page_env \<Rightarrow> request \<Rightarrow> string \<Rightarrow> 32 word \<Rightarrow> 'z page_route" where
  "page_download_chunk P rq token index =
     bind (page_user P rq) (\<lambda>user.
     bind (gets unlocked) (\<lambda>u.
     json_result (serve_chunk (env_crypto (srv P)) (env_ext (srv P)) (env_tools (srv P)) (env_config (srv P)) u
       (u_id user) token index) (\<lambda>r. answer (FileReply (chunk_response (chunk_download_of r))))))"

definition page_download_file :: "page_env \<Rightarrow> request \<Rightarrow> string \<Rightarrow> 'z page_route" where
  "page_download_file P rq path =
     bind (page_user P rq) (\<lambda>user.
     on_library user (flash_error (FilesUri None) ''Library not found.'') (\<lambda>lib.
     bind (gets unlocked) (\<lambda>u.
     bind (attempt (download_file (env_crypto (srv P)) (env_ext (srv P)) (env_config (srv P)) u (pl_id lib) path)) (\<lambda>r.
     ret (case r of
         Inl _ \<Rightarrow> flash_error (FilesUri None) ''Download failed.''
       | Inr result \<Rightarrow> answer (FileReply (file_response (file_download_of result))))))))"

end
