(* ===== verification/GroupPages.thy ===== *)
theory GroupPages
  imports Pages GroupService
begin

text \<open>
  The pages and forms of groups, and the search for users and groups to share with
  (\<open>src/src/routes/pages.rs\<close>).
\<close>

record create_group_form =
  gf_name :: string
  gf_description :: "string option"
  gf_csrf_token :: string

record edit_group_form =
  ef_name :: string
  ef_description :: "string option"
  ef_csrf_token :: string

record add_member_form =
  af_username :: string
  af_role :: string
  af_csrf_token :: string

record update_member_role_form =
  uf_role :: string
  uf_csrf_token :: string

text \<open>A form of a user whose setup is complete.\<close>

definition user_form ::
  "page_env \<Rightarrow> request \<Rightarrow> string \<Rightarrow> page_uri \<Rightarrow> (string \<Rightarrow> ('z world_scheme, nat \<times> app_error, page) act) \<Rightarrow> 'z page_route"
where
  "user_form P rq csrf_token back handler =
     bind (page_user P rq) (\<lambda>user. checked_form rq csrf_token back (handler (u_id user)))"

section \<open>Pages\<close>

definition group_entry :: "page_env \<Rightarrow> group_with_meta \<Rightarrow> json" where
  "group_entry P g =
     JObj [(''id'', JStr (g_id (gw_group g))), (''name'', JStr (g_name (gw_group g))),
           (''description'', jopt JStr (g_description (gw_group g))), (''created_by'', JStr (g_created_by (gw_group g))),
           (''created_at'', JStr (format_timestamp P (g_created_at (gw_group g)))),
           (''member_count'', JNum (gw_member_count g)), (''user_role'', JStr (gw_user_role g))]"

definition groups_page :: "page_env \<Rightarrow> request \<Rightarrow> flash \<Rightarrow> 'z page_route" where
  "groups_page P rq fl =
     bind (page_user P rq) (\<lambda>user.
     bind (attempt (list_user_groups (u_id user))) (\<lambda>r.
     let groups = (case r of Inl _ \<Rightarrow> [] | Inr gs \<Rightarrow> gs) in
     render_with_token P rq ''groups/index'' (\<lambda>token.
       [(''user'', JStr (u_username user)), (''csrf_token'', JStr token), (''current_path'', JStr ''groups''),
        (''groups'', JArr (map (group_entry P) groups))] @ flash_fields fl)))"

definition member_entry :: "page_env \<Rightarrow> group_member_detail \<Rightarrow> json" where
  "member_entry P m =
     JObj [(''user_id'', JStr (gm_user_id m)), (''username'', JStr (gmd_username m)), (''email'', JStr (gmd_email m)),
           (''role'', JStr (gm_role m)), (''joined_at'', JStr (format_timestamp P (gm_joined_at m)))]"

definition group_header :: "page_env \<Rightarrow> group_row \<Rightarrow> json" where
  "group_header P g =
     JObj [(''id'', JStr (g_id g)), (''name'', JStr (g_name g)), (''description'', jopt JStr (g_description g)),
           (''created_by'', JStr (g_created_by g)), (''created_at'', JStr (format_timestamp P (g_created_at g)))]"

definition group_detail_page :: "page_env \<Rightarrow> request \<Rightarrow> string \<Rightarrow> flash \<Rightarrow> 'z page_route" where
  "group_detail_page P rq i fl =
     bind (page_user P rq) (\<lambda>user.
     bind (attempt (get_group (u_id user) i)) (\<lambda>found. case found of
         Inl _ \<Rightarrow> ret (flash_error GroupsUri ''Group not found or you are not a member.'')
       | Inr g \<Rightarrow>
           bind (attempt (list_members (u_id user) i)) (\<lambda>r.
           let members = (case r of Inl _ \<Rightarrow> [] | Inr ms \<Rightarrow> ms) in
           render_with_token P rq ''groups/detail'' (\<lambda>token.
             [(''user'', JStr (u_username user)), (''csrf_token'', JStr token), (''current_path'', JStr ''groups''),
              (''group'', group_header P (gw_group g)), (''group_id'', JStr (g_id (gw_group g))),
              (''user_role'', JStr (gw_user_role g)), (''member_count'', JNum (gw_member_count g)),
              (''is_owner'', JBool (gw_user_role g = ''owner'')), (''is_manager'', JBool (gw_user_role g = ''manager'')),
              (''members'', JArr (map (member_entry P) members))] @ flash_fields fl))))"

section \<open>Forms\<close>

definition groups_create_submit :: "page_env \<Rightarrow> request \<Rightarrow> create_group_form \<Rightarrow> 'z page_route" where
  "groups_create_submit P rq form =
     user_form P rq (gf_csrf_token form) GroupsUri (\<lambda>uid.
     bind (attempt (create_group uid (gf_name form) (gf_description form))) (\<lambda>r.
     ret (case r of
         Inr g \<Rightarrow> flash_success GroupsUri (''Group '' @ dquoted (g_name (gw_group g)) @ '' created.'')
       | Inl (Conflict msg) \<Rightarrow> flash_error GroupsUri msg
       | Inl (Validation msg) \<Rightarrow> flash_error GroupsUri msg
       | Inl _ \<Rightarrow> flash_error GroupsUri ''Failed to create group. Please try again.'')))"

definition group_edit_submit :: "page_env \<Rightarrow> request \<Rightarrow> string \<Rightarrow> edit_group_form \<Rightarrow> 'z page_route" where
  "group_edit_submit P rq i form =
     user_form P rq (ef_csrf_token form) (GroupUri i) (\<lambda>uid.
     bind (attempt (update_group uid i (ef_name form) (ef_description form))) (\<lambda>r.
     ret (case r of
         Inr _ \<Rightarrow> flash_success (GroupUri i) ''Group updated.''
       | Inl Forbidden \<Rightarrow> flash_error (GroupUri i) (''You don'' @ [CHR 0x27] @ ''t have permission to edit this group.'')
       | Inl (Validation msg) \<Rightarrow> flash_error (GroupUri i) msg
       | Inl (Conflict msg) \<Rightarrow> flash_error (GroupUri i) msg
       | Inl _ \<Rightarrow> flash_error (GroupUri i) ''Failed to update group.'')))"

definition group_delete_submit :: "page_env \<Rightarrow> request \<Rightarrow> string \<Rightarrow> string \<Rightarrow> 'z page_route" where
  "group_delete_submit P rq i csrf_token =
     user_form P rq csrf_token GroupsUri (\<lambda>uid.
     bind (attempt (delete_group uid i)) (\<lambda>r.
     ret (case r of
         Inr _ \<Rightarrow> flash_success GroupsUri ''Group deleted.''
       | Inl Forbidden \<Rightarrow> flash_error GroupsUri ''Only the group owner can delete the group.''
       | Inl _ \<Rightarrow> flash_error GroupsUri ''Failed to delete group.'')))"

definition group_add_member_submit :: "page_env \<Rightarrow> request \<Rightarrow> string \<Rightarrow> add_member_form \<Rightarrow> 'z page_route" where
  "group_add_member_submit P rq i form =
     user_form P rq (af_csrf_token form) (GroupUri i) (\<lambda>uid.
     bind (attempt (add_member uid i (af_username form) (af_role form))) (\<lambda>r.
     ret (case r of
         Inr _ \<Rightarrow> flash_success (GroupUri i) (''Added '' @ af_username form @ '' to the group.'')
       | Inl NotFound \<Rightarrow> flash_error (GroupUri i) (''User '' @ dquoted (af_username form) @ '' not found.'')
       | Inl (Conflict msg) \<Rightarrow> flash_error (GroupUri i) msg
       | Inl (Validation msg) \<Rightarrow> flash_error (GroupUri i) msg
       | Inl Forbidden \<Rightarrow> flash_error (GroupUri i) (''You don'' @ [CHR 0x27] @ ''t have permission to add members.'')
       | Inl _ \<Rightarrow> flash_error (GroupUri i) ''Failed to add member.'')))"

definition group_remove_member_submit :: "page_env \<Rightarrow> request \<Rightarrow> string \<Rightarrow> string \<Rightarrow> string \<Rightarrow> 'z page_route" where
  "group_remove_member_submit P rq i user_id csrf_token =
     user_form P rq csrf_token (GroupUri i) (\<lambda>uid.
     bind (attempt (remove_member uid i user_id)) (\<lambda>r.
     ret (case r of
         Inr _ \<Rightarrow> flash_success (GroupUri i) ''Member removed.''
       | Inl (Validation msg) \<Rightarrow> flash_error (GroupUri i) msg
       | Inl Forbidden \<Rightarrow> flash_error (GroupUri i) (''You don'' @ [CHR 0x27] @ ''t have permission to remove members.'')
       | Inl _ \<Rightarrow> flash_error (GroupUri i) ''Failed to remove member.'')))"

definition group_update_member_role_submit ::
  "page_env \<Rightarrow> request \<Rightarrow> string \<Rightarrow> string \<Rightarrow> update_member_role_form \<Rightarrow> 'z page_route"
where
  "group_update_member_role_submit P rq i user_id form =
     user_form P rq (uf_csrf_token form) (GroupUri i) (\<lambda>uid.
     bind (attempt (update_member_role uid i user_id (uf_role form))) (\<lambda>r.
     ret (case r of
         Inr _ \<Rightarrow> flash_success (GroupUri i) ''Role updated.''
       | Inl (Validation msg) \<Rightarrow> flash_error (GroupUri i) msg
       | Inl Forbidden \<Rightarrow> flash_error (GroupUri i) ''Only the group owner can change roles.''
       | Inl _ \<Rightarrow> flash_error (GroupUri i) ''Failed to update role.'')))"

section \<open>Search\<close>

definition grantee_json :: "string \<Rightarrow> string \<Rightarrow> string \<Rightarrow> json" where
  "grantee_json kind i name = JObj [(''type'', JStr kind), (''id'', JStr i), (''name'', JStr name)]"

definition search_grantees :: "page_env \<Rightarrow> request \<Rightarrow> string \<Rightarrow> 'z page_route" where
  "search_grantees P rq q0 =
     bind (page_user P rq) (\<lambda>user.
     let q = trim q0 in
     if q = [] \<or> length q > 100 then ret (json_ok [(''results'', JArr [])]) else
     bind (attempt (user_search_by_prefix q 5)) (\<lambda>us.
     bind (attempt (group_search_by_name_prefix q 5)) (\<lambda>gs.
     let users = (case us of Inl _ \<Rightarrow> [] | Inr x \<Rightarrow> x); groups = (case gs of Inl _ \<Rightarrow> [] | Inr x \<Rightarrow> x) in
     ret (json_ok [(''results'', JArr (map (\<lambda>u. grantee_json ''user'' (u_id u) (u_username u)) users @
                                       map (\<lambda>g. grantee_json ''group'' (g_id g) (g_name g)) groups))]))))"

end
