(* ===== verification/SpacePages.thy ===== *)
theory SpacePages
  imports FilePages GroupPages
begin

text \<open>
  The pages of spaces (\<open>src/src/routes/pages.rs\<close>): their list, the browser and the settings of one
  space, its forms and the requests of its scripts. The guard reads the space from the path of the
  request; the handler takes its identifier \<open>space_id\<close> from the route's parameter, which Rocket fills
  from the same segment.
\<close>

record create_space_form =
  sf_name :: string
  sf_csrf_token :: string

record rename_space_form =
  sr_name :: string
  sr_csrf_token :: string

record grant_access_form =
  ga_grantee_type :: string
  ga_grantee_id :: string
  ga_permission :: string
  ga_csrf_token :: string

record update_access_form =
  ua_grantee_type :: string
  ua_grantee_id :: string
  ua_permission :: string
  ua_csrf_token :: string

record revoke_access_form =
  ra_grantee_type :: string
  ra_grantee_id :: string
  ra_csrf_token :: string

definition page_space ::
  "page_env \<Rightarrow> request \<Rightarrow> 8 word \<Rightarrow> ('z world_scheme, nat \<times> app_error, user \<times> space_with_meta) act"
where
  "page_space P rq level = session_space_guard (env_ext (srv P)) (env_crypto (srv P)) rq level"

text \<open>A form, and a script's request, of someone with a level on the space.\<close>

definition space_form ::
  "page_env \<Rightarrow> request \<Rightarrow> 8 word \<Rightarrow> string \<Rightarrow> page_uri \<Rightarrow>
   (string \<Rightarrow> ('z world_scheme, nat \<times> app_error, page) act) \<Rightarrow> 'z page_route"
where
  "space_form P rq level csrf_token back handler =
     bind (page_space P rq level) (\<lambda>(user, space). checked_form rq csrf_token back (handler (u_id user)))"

definition space_xhr ::
  "page_env \<Rightarrow> request \<Rightarrow> (string \<Rightarrow> ('z world_scheme, nat \<times> app_error, page) act) \<Rightarrow> 'z page_route"
where
  "space_xhr P rq handler =
     bind (csrf_guard rq) (\<lambda>_. bind (page_space P rq LEVEL_WRITE) (\<lambda>(user, space). handler (u_id user)))"

section \<open>Pages\<close>

definition space_entry :: "page_env \<Rightarrow> space_with_meta \<Rightarrow> json" where
  "space_entry P s =
     JObj [(''id'', JStr (s_id (sw_space s))), (''name'', JStr (s_name (sw_space s))),
           (''owner_type'', JStr (s_owner_type (sw_space s))), (''owner_id'', JStr (s_owner_id (sw_space s))),
           (''created_at'', JStr (format_timestamp P (s_created_at (sw_space s)))),
           (''grantee_count'', JNum (sw_grantee_count s)), (''user_permission'', JStr (sw_user_permission s))]"

definition spaces_page :: "page_env \<Rightarrow> request \<Rightarrow> flash \<Rightarrow> 'z page_route" where
  "spaces_page P rq fl =
     bind (page_user P rq) (\<lambda>user.
     bind (attempt (list_user_spaces (u_id user))) (\<lambda>r.
     let spaces = (case r of Inl _ \<Rightarrow> [] | Inr ss \<Rightarrow> ss) in
     render_with_token P rq ''spaces/index'' (\<lambda>token.
       [(''user'', JStr (u_username user)), (''csrf_token'', JStr token), (''current_path'', JStr ''spaces''),
        (''spaces'', JArr (map (space_entry P) spaces))] @ flash_fields fl)))"

definition space_listing_or_empty :: "page_env \<Rightarrow> string \<Rightarrow> string \<Rightarrow> ('z world_scheme, 'e, fs_entry list) act" where
  "space_listing_or_empty P space_id user_path =
     bind (gets unlocked) (\<lambda>u.
     bind (attempt (list_space_directory (env_crypto (srv P)) (env_ext (srv P)) (env_config (srv P)) u space_id user_path False))
       (\<lambda>r. ret (case r of Inl _ \<Rightarrow> [] | Inr entries \<Rightarrow> entries)))"

definition space_browser_page :: "page_env \<Rightarrow> request \<Rightarrow> string \<Rightarrow> string option \<Rightarrow> flash \<Rightarrow> 'z page_route" where
  "space_browser_page P rq space_id path fl =
     bind (page_space P rq LEVEL_READ) (\<lambda>(user, meta).
     let user_path = (case path of None \<Rightarrow> [] | Some p \<Rightarrow> p); config = env_config (srv P) in
     bind (space_listing_or_empty P space_id user_path) (\<lambda>entries.
     render_with_token P rq ''spaces/browser'' (\<lambda>token.
       [(''user'', JStr (u_username user)), (''csrf_token'', JStr token),
        (''chunk_size_bytes'', jnat (chunk_size_bytes config)),
        (''max_parallel_chunks'', jnat (max_parallel_chunks config)),
        (''space_id'', JStr space_id), (''space_name'', JStr (s_name (sw_space meta))), (''path'', JStr user_path),
        (''entries'', JArr (map (display_entry P) entries)),
        (''breadcrumbs'', JArr (build_space_breadcrumbs (s_name (sw_space meta)) user_path)),
        (''is_root'', JBool (user_path = [])),
        (''can_write'', JBool (sw_user_permission meta = ''write'' \<or> sw_user_permission meta = ''admin'')),
        (''is_admin'', JBool (sw_user_permission meta = ''admin'')),
        (''current_path'', JStr ''spaces'')] @ flash_fields fl)))"

definition space_browser_partial :: "page_env \<Rightarrow> request \<Rightarrow> string \<Rightarrow> string option \<Rightarrow> 'z page_route" where
  "space_browser_partial P rq space_id path =
     bind (page_space P rq LEVEL_READ) (\<lambda>(user, meta).
     let user_path = (case path of None \<Rightarrow> [] | Some p \<Rightarrow> p) in
     bind (space_listing_or_empty P space_id user_path) (\<lambda>entries.
     ret (answer (Rendered ''partials/space_file_list''
       [(''space_id'', JStr space_id), (''path'', JStr user_path),
        (''entries'', JArr (map (display_entry P) entries)),
        (''breadcrumbs'', JArr (build_space_breadcrumbs (s_name (sw_space meta)) user_path)),
        (''is_root'', JBool (user_path = [])),
        (''can_write'', JBool (sw_user_permission meta = ''write'' \<or> sw_user_permission meta = ''admin'')),
        (''is_admin'', JBool (sw_user_permission meta = ''admin''))]))))"

definition space_folders :: "page_env \<Rightarrow> request \<Rightarrow> string \<Rightarrow> string option \<Rightarrow> 'z page_route" where
  "space_folders P rq space_id path =
     bind (page_space P rq LEVEL_READ) (\<lambda>_.
     let user_path = (case path of None \<Rightarrow> [] | Some p \<Rightarrow> p) in
     bind (gets unlocked) (\<lambda>u.
     bind (attempt (list_space_directory (env_crypto (srv P)) (env_ext (srv P)) (env_config (srv P)) u space_id user_path False))
       (\<lambda>r. ret (case r of
           Inl _ \<Rightarrow> json_error 500 ''Failed to list directory.''
         | Inr entries \<Rightarrow> folders_json user_path entries))))"

definition access_entry :: "page_env \<Rightarrow> space_access_detail \<Rightarrow> json" where
  "access_entry P a =
     JObj [(''grantee_type'', JStr (sa_grantee_type a)), (''grantee_id'', JStr (sa_grantee_id a)),
           (''grantee_name'', JStr (sad_grantee_name a)), (''permission'', JStr (sa_permission a)),
           (''granted_at'', JStr (format_timestamp P (sa_granted_at a)))]"

definition space_settings_page :: "page_env \<Rightarrow> request \<Rightarrow> string \<Rightarrow> flash \<Rightarrow> 'z page_route" where
  "space_settings_page P rq space_id fl =
     bind (page_space P rq LEVEL_ADMIN) (\<lambda>(user, meta).
     bind (attempt (list_access (u_id user) space_id)) (\<lambda>r.
     let entries = (case r of Inl _ \<Rightarrow> [] | Inr es \<Rightarrow> es); s = sw_space meta in
     render_with_token P rq ''spaces/settings'' (\<lambda>token.
       [(''user'', JStr (u_username user)), (''csrf_token'', JStr token), (''current_path'', JStr ''spaces''),
        (''space'', JObj [(''id'', JStr (s_id s)), (''name'', JStr (s_name s)), (''owner_type'', JStr (s_owner_type s)),
           (''owner_id'', JStr (s_owner_id s)), (''created_at'', JStr (format_timestamp P (s_created_at s))),
           (''grantee_count'', JNum (sw_grantee_count meta))]),
        (''space_id'', JStr space_id), (''user_permission'', JStr (sw_user_permission meta)), (''is_admin'', JBool True),
        (''access_entries'', JArr (map (access_entry P) entries))] @ flash_fields fl)))"

section \<open>Forms of a space\<close>

definition space_uri :: "string \<Rightarrow> page_uri" where
  "space_uri space_id = TextUri (''/spaces/'' @ space_id)"

definition space_dir_uri :: "string \<Rightarrow> string \<Rightarrow> page_uri" where
  "space_dir_uri space_id p =
     (if p = [] then space_uri space_id else TextUri (''/spaces/'' @ space_id @ ''?path='' @ p))"

definition settings_uri :: "string \<Rightarrow> page_uri" where
  "settings_uri space_id = TextUri (''/spaces/'' @ space_id @ ''/settings'')"

definition spaces_create_submit :: "page_env \<Rightarrow> request \<Rightarrow> create_space_form \<Rightarrow> 'z page_route" where
  "spaces_create_submit P rq form =
     user_form P rq (sf_csrf_token form) SpacesUri (\<lambda>uid.
     bind (attempt (create_space (env_crypto (srv P)) (env_config (srv P)) (env_master_key (srv P)) uid (sf_name form))) (\<lambda>r.
     ret (case r of
         Inr s \<Rightarrow> flash_success (space_uri (s_id (sw_space s))) (''Space '' @ dquoted (s_name (sw_space s)) @ '' created.'')
       | Inl (Validation msg) \<Rightarrow> flash_error SpacesUri msg
       | Inl _ \<Rightarrow> flash_error SpacesUri ''Failed to create space. Please try again.'')))"

definition space_rename_submit :: "page_env \<Rightarrow> request \<Rightarrow> string \<Rightarrow> rename_space_form \<Rightarrow> 'z page_route" where
  "space_rename_submit P rq space_id form =
     (let redir = settings_uri space_id in
      space_form P rq LEVEL_ADMIN (sr_csrf_token form) redir (\<lambda>uid.
      bind (attempt (update_space uid space_id (sr_name form))) (\<lambda>r.
      ret (case r of
          Inr s \<Rightarrow> flash_success redir (''Space renamed to '' @ dquoted (s_name s) @ ''.'')
        | Inl (Validation msg) \<Rightarrow> flash_error redir msg
        | Inl _ \<Rightarrow> flash_error redir ''Failed to rename space.''))))"

definition space_delete_submit :: "page_env \<Rightarrow> request \<Rightarrow> string \<Rightarrow> string \<Rightarrow> 'z page_route" where
  "space_delete_submit P rq space_id csrf_token =
     space_form P rq LEVEL_ADMIN csrf_token (settings_uri space_id) (\<lambda>uid.
     bind (attempt (delete_space (env_config (srv P)) uid space_id)) (\<lambda>r.
     ret (case r of
         Inr _ \<Rightarrow> flash_success SpacesUri ''Space deleted.''
       | Inl _ \<Rightarrow> flash_error (settings_uri space_id) ''Failed to delete space.'')))"

definition grant_to :: "string \<Rightarrow> string \<Rightarrow> grant_access_form \<Rightarrow> ('z, space_access) svc" where
  "grant_to uid space_id form =
     (if ga_grantee_type form = ''user'' then
        bind (user_find_by_id (ga_grantee_id form)) (\<lambda>found. case found of
            Some target \<Rightarrow> grant_user_access uid space_id (u_username target) (ga_permission form)
          | None \<Rightarrow> throw NotFound)
      else grant_group_access uid space_id (ga_grantee_id form) (ga_permission form))"

definition space_grant_access_submit :: "page_env \<Rightarrow> request \<Rightarrow> string \<Rightarrow> grant_access_form \<Rightarrow> 'z page_route" where
  "space_grant_access_submit P rq space_id form =
     (let redir = settings_uri space_id in
      space_form P rq LEVEL_ADMIN (ga_csrf_token form) redir (\<lambda>uid.
      if ga_grantee_type form \<noteq> ''user'' \<and> ga_grantee_type form \<noteq> ''group''
      then ret (flash_error redir ''Invalid grantee type.'') else
      bind (attempt (grant_to uid space_id form)) (\<lambda>r.
      ret (case r of
          Inr _ \<Rightarrow> flash_success redir ''Access granted.''
        | Inl NotFound \<Rightarrow> flash_error redir ''User or group not found.''
        | Inl (Validation msg) \<Rightarrow> flash_error redir msg
        | Inl _ \<Rightarrow> flash_error redir ''Failed to grant access.''))))"

definition space_update_access_submit :: "page_env \<Rightarrow> request \<Rightarrow> string \<Rightarrow> update_access_form \<Rightarrow> 'z page_route" where
  "space_update_access_submit P rq space_id form =
     (let redir = settings_uri space_id in
      space_form P rq LEVEL_ADMIN (ua_csrf_token form) redir (\<lambda>uid.
      bind (attempt (update_access_permission uid space_id (ua_grantee_type form) (ua_grantee_id form)
        (ua_permission form))) (\<lambda>r.
      ret (case r of
          Inr _ \<Rightarrow> flash_success redir ''Permission updated.''
        | Inl (Validation msg) \<Rightarrow> flash_error redir msg
        | Inl _ \<Rightarrow> flash_error redir ''Failed to update permission.''))))"

definition space_revoke_access_submit :: "page_env \<Rightarrow> request \<Rightarrow> string \<Rightarrow> revoke_access_form \<Rightarrow> 'z page_route" where
  "space_revoke_access_submit P rq space_id form =
     (let redir = settings_uri space_id in
      space_form P rq LEVEL_ADMIN (ra_csrf_token form) redir (\<lambda>uid.
      bind (attempt (revoke_access uid space_id (ra_grantee_type form) (ra_grantee_id form))) (\<lambda>r.
      ret (case r of
          Inr _ \<Rightarrow> flash_success redir ''Access revoked.''
        | Inl _ \<Rightarrow> flash_error redir ''Failed to revoke access.''))))"

section \<open>Forms on the files of a space\<close>

definition space_mkdir_submit :: "page_env \<Rightarrow> request \<Rightarrow> string \<Rightarrow> mkdir_form \<Rightarrow> 'z page_route" where
  "space_mkdir_submit P rq space_id form =
     (let redir = space_dir_uri space_id (mf_path form);
          full_path = (if mf_path form = [] then mf_name form else mf_path form @ ''/'' @ mf_name form) in
      space_form P rq LEVEL_WRITE (mf_csrf_token form) redir (\<lambda>uid.
      bind (attempt (create_space_directory (env_config (srv P)) space_id full_path)) (\<lambda>r.
      ret (case r of
          Inr _ \<Rightarrow> flash_success redir (''Folder '' @ dquoted (mf_name form) @ '' created.'')
        | Inl (Conflict msg) \<Rightarrow> flash_error redir msg
        | Inl (Validation msg) \<Rightarrow> flash_error redir msg
        | Inl _ \<Rightarrow> flash_error redir ''Failed to create folder.''))))"

definition space_rename_entry_submit :: "page_env \<Rightarrow> request \<Rightarrow> string \<Rightarrow> rename_form \<Rightarrow> 'z page_route" where
  "space_rename_entry_submit P rq space_id form =
     (let parent = parent_path (nf_old_path form);
          redir = space_dir_uri space_id parent;
          new_path = (if parent = [] then nf_new_name form else parent @ ''/'' @ nf_new_name form) in
      space_form P rq LEVEL_WRITE (nf_csrf_token form) redir (\<lambda>uid.
      bind (attempt (rename_space_entry (env_config (srv P)) space_id (nf_old_path form) new_path)) (\<lambda>r.
      ret (case r of
          Inr _ \<Rightarrow> flash_success redir (''Renamed to '' @ dquoted (nf_new_name form) @ ''.'')
        | Inl (Validation msg) \<Rightarrow> flash_error redir msg
        | Inl _ \<Rightarrow> flash_error redir ''Rename failed.''))))"

definition space_move_entry_submit :: "page_env \<Rightarrow> request \<Rightarrow> string \<Rightarrow> move_form \<Rightarrow> 'z page_route" where
  "space_move_entry_submit P rq space_id form =
     (let redir = space_uri space_id in
      space_form P rq LEVEL_WRITE (vf_csrf_token form) redir (\<lambda>uid.
      let name = file_name_from_path (vf_old_path form) in
      if name = [] then ret (flash_error redir ''Invalid source path.'') else
      let target_dir = normalize_dir_path (vf_target_dir form);
          new_path = join_dir_and_name target_dir name in
      bind (attempt (rename_space_entry (env_config (srv P)) space_id (vf_old_path form) new_path)) (\<lambda>r.
      ret (case r of
          Inr _ \<Rightarrow> flash_success redir ''Moved successfully.''
        | Inl (Validation msg) \<Rightarrow> flash_error redir msg
        | Inl (Conflict msg) \<Rightarrow> flash_error redir msg
        | Inl _ \<Rightarrow> flash_error redir ''Move failed.''))))"

definition space_delete_entry_submit :: "page_env \<Rightarrow> request \<Rightarrow> string \<Rightarrow> delete_form \<Rightarrow> 'z page_route" where
  "space_delete_entry_submit P rq space_id form =
     (let redir = space_dir_uri space_id (parent_path (df_path form)) in
      space_form P rq LEVEL_WRITE (df_csrf_token form) redir (\<lambda>uid.
      bind (attempt (delete_space_entry (env_config (srv P)) space_id (df_path form))) (\<lambda>r.
      ret (case r of
          Inr _ \<Rightarrow> flash_success redir ''Deleted successfully.''
        | Inl _ \<Rightarrow> flash_error redir ''Delete failed.''))))"

section \<open>Requests of scripts\<close>

definition space_bulk_delete :: "page_env \<Rightarrow> request \<Rightarrow> string \<Rightarrow> bulk_delete_request \<Rightarrow> 'z page_route" where
  "space_bulk_delete P rq space_id body =
     space_xhr P rq (\<lambda>uid.
     bind (bulk (delete_space_entry (env_config (srv P)) space_id) (bd_paths body) 0 []) (\<lambda>r.
     ret (bulk_json ''deleted'' r)))"

definition space_bulk_move :: "page_env \<Rightarrow> request \<Rightarrow> string \<Rightarrow> bulk_move_request \<Rightarrow> 'z page_route" where
  "space_bulk_move P rq space_id body =
     space_xhr P rq (\<lambda>uid.
     let target_dir = normalize_dir_path (bm_target_dir body) in
     bind (bulk_moves (rename_space_entry (env_config (srv P)) space_id) ''invalid path'' target_dir (bm_paths body) 0 []) (\<lambda>r.
     ret (bulk_json ''moved'' r)))"

definition page_space_upload :: "page_env \<Rightarrow> request \<Rightarrow> string \<Rightarrow> string \<Rightarrow> body_stream \<Rightarrow> 'z page_route" where
  "page_space_upload P rq space_id path data =
     space_xhr P rq (\<lambda>uid.
     let config = env_config (srv P) in
     with_body data ((max_upload_bytes config + 1) mod 2 ^ 64) ''Failed to read upload data: ''
       (''Upload exceeds the maximum size of '' @ show_nat (max_upload_bytes config) @ '' bytes.'') (\<lambda>bytes.
     bind (gets unlocked) (\<lambda>u.
     json_result (upload_space_file (env_crypto (srv P)) (env_ext (srv P)) config u space_id path bytes True)
       (\<lambda>r. json_ok (upload_json r)))))"

definition page_space_download :: "page_env \<Rightarrow> request \<Rightarrow> string \<Rightarrow> string \<Rightarrow> 'z page_route" where
  "page_space_download P rq space_id path =
     bind (page_space P rq LEVEL_READ) (\<lambda>_.
     bind (gets unlocked) (\<lambda>u.
     bind (attempt (download_space_file (env_crypto (srv P)) (env_ext (srv P)) (env_config (srv P)) u space_id path)) (\<lambda>r.
     ret (case r of
         Inl _ \<Rightarrow> flash_error (space_uri space_id) ''Download failed.''
       | Inr result \<Rightarrow> answer (FileReply (file_response (file_download_of result)))))))"

definition space_init_upload :: "page_env \<Rightarrow> request \<Rightarrow> string \<Rightarrow> chunked_init_request \<Rightarrow> 'z page_route" where
  "space_init_upload P rq space_id body =
     space_xhr P rq (\<lambda>uid.
     json_result (init_upload (env_config (srv P))
       \<lparr>ip_user_id = uid, ip_target_id = space_id, ip_target_type = ''space'', ip_target_path = ci_path body,
        ip_total_chunks = ci_total_chunks body, ip_total_bytes = ci_total_bytes body,
        ip_checksum_sha256 = ci_checksum_sha256 body\<rparr>)
       (\<lambda>r. json_ok (init_upload_json r)))"

definition space_receive_chunk :: "page_env \<Rightarrow> request \<Rightarrow> string \<Rightarrow> string \<Rightarrow> 32 word \<Rightarrow> body_stream \<Rightarrow> 'z page_route" where
  "space_receive_chunk P rq space_id upload_id chunk_index data =
     space_xhr P rq (\<lambda>uid.
     with_chunk P data (\<lambda>bytes.
     json_result (receive_chunk (env_tools (srv P)) (env_config (srv P)) uid space_id ''space'' upload_id chunk_index bytes)
       (\<lambda>r. json_ok (receive_chunk_json r))))"

definition space_complete_upload :: "page_env \<Rightarrow> request \<Rightarrow> string \<Rightarrow> chunked_complete_request \<Rightarrow> 'z page_route" where
  "space_complete_upload P rq space_id body =
     space_xhr P rq (\<lambda>uid.
     bind (gets unlocked) (\<lambda>u.
     json_result (complete_upload (env_crypto (srv P)) (env_ext (srv P)) (env_tools (srv P)) (env_config (srv P)) u
       uid space_id ''space'' (cq_upload_id body) (cq_verify body = Some True))
       (\<lambda>r. json_ok (upload_json r))))"

definition space_cancel_upload :: "page_env \<Rightarrow> request \<Rightarrow> string \<Rightarrow> string \<Rightarrow> 'z page_route" where
  "space_cancel_upload P rq space_id upload_id =
     space_xhr P rq (\<lambda>uid.
     json_result (cancel_upload (env_tools (srv P)) (env_config (srv P)) uid space_id ''space'' upload_id)
       (\<lambda>_. json_ok [(''success'', JBool True), (''upload_id'', JStr upload_id)]))"

definition space_init_download :: "page_env \<Rightarrow> request \<Rightarrow> string \<Rightarrow> string \<Rightarrow> 'z page_route" where
  "space_init_download P rq space_id path =
     bind (page_space P rq LEVEL_READ) (\<lambda>(user, meta).
     bind (gets unlocked) (\<lambda>u.
     json_result (init_download (env_crypto (srv P)) (env_ext (srv P)) (env_tools (srv P)) (env_config (srv P)) u
       (u_id user) space_id ''space'' path) (\<lambda>r. json_ok (init_download_json r))))"

definition space_download_chunk :: "page_env \<Rightarrow> request \<Rightarrow> string \<Rightarrow> 32 word \<Rightarrow> 'z page_route" where
  "space_download_chunk P rq token index =
     bind (page_space P rq LEVEL_READ) (\<lambda>(user, meta).
     bind (gets unlocked) (\<lambda>u.
     json_result (serve_chunk (env_crypto (srv P)) (env_ext (srv P)) (env_tools (srv P)) (env_config (srv P)) u
       (u_id user) token index) (\<lambda>r. answer (FileReply (chunk_response (chunk_download_of r))))))"

end
