(* ===== verification/PageCalls.thy ===== *)
theory PageCalls
  imports AccountPages SpacePages
begin

text \<open>
  The web interface as one dispatcher: the routes that \<open>routes\<close> of \<open>src/src/routes/pages.rs\<close>
  collects, one constructor each, and the handler that serves each. The answer is kept; it is
  \<open>None\<close> for a walk that has not ended.
\<close>

definition some_page :: "('w, 'e, page) act \<Rightarrow> ('w, 'e, page option) act" where
  "some_page m = bind m (\<lambda>p. ret (Some p))"

type_synonym 'z served = "('z web_scheme, nat \<times> app_error, page option) act"

datatype account_page =
    IndexPage
  | LoginPage flash
  | LoginSubmit string nat login_form
  | RegisterPage flash
  | RegisterSubmit string nat register_form
  | LogoutSubmit string
  | SetupPage flash
  | SetupSubmit string
  | UsageSidebar
  | UsagePage
  | SettingsPage

fun serve_account_page :: "page_env \<Rightarrow> request \<Rightarrow> account_page \<Rightarrow> 'z served" where
  "serve_account_page P rq IndexPage = some_page (index_page P rq)"
| "serve_account_page P rq (LoginPage fl) = some_page (login_page P rq fl)"
| "serve_account_page P rq (LoginSubmit ip now form) = some_page (login_submit P rq ip now form)"
| "serve_account_page P rq (RegisterPage fl) = some_page (register_page P rq fl)"
| "serve_account_page P rq (RegisterSubmit ip now form) = some_page (register_submit P rq ip now form)"
| "serve_account_page P rq (LogoutSubmit tok) = some_page (logout_submit P rq tok)"
| "serve_account_page P rq (SetupPage fl) = some_page (setup_page P rq fl)"
| "serve_account_page P rq (SetupSubmit tok) = some_page (setup_submit P rq tok)"
| "serve_account_page P rq UsageSidebar = usage_sidebar P rq"
| "serve_account_page P rq UsagePage = usage_page P rq"
| "serve_account_page P rq SettingsPage = some_page (settings_page P rq)"

datatype file_page =
    FilesPage "string option" flash
  | FilesPartial "string option"
  | FilesFolders "string option"
  | FileDownload string
  | FileInitDownload string
  | FileDownloadChunk string "32 word"

fun serve_file_page :: "page_env \<Rightarrow> request \<Rightarrow> file_page \<Rightarrow> 'z served" where
  "serve_file_page P rq (FilesPage path fl) = some_page (files_page P rq path fl)"
| "serve_file_page P rq (FilesPartial path) = some_page (files_partial P rq path)"
| "serve_file_page P rq (FilesFolders path) = some_page (files_folders P rq path)"
| "serve_file_page P rq (FileDownload path) = some_page (page_download_file P rq path)"
| "serve_file_page P rq (FileInitDownload path) = some_page (page_init_download P rq path)"
| "serve_file_page P rq (FileDownloadChunk token index) = some_page (page_download_chunk P rq token index)"

datatype file_submit =
    MkdirSubmit mkdir_form
  | RenameSubmit rename_form
  | MoveSubmit move_form
  | DeleteSubmit delete_form
  | BulkDelete bulk_delete_request
  | BulkMove bulk_move_request
  | UploadRequest string body_stream
  | InitUploadRequest chunked_init_request
  | ReceiveChunkRequest string "32 word" body_stream
  | CompleteUploadRequest chunked_complete_request
  | CancelUploadRequest string

fun serve_file_submit :: "page_env \<Rightarrow> request \<Rightarrow> file_submit \<Rightarrow> 'z served" where
  "serve_file_submit P rq (MkdirSubmit form) = some_page (mkdir_submit P rq form)"
| "serve_file_submit P rq (RenameSubmit form) = some_page (rename_submit P rq form)"
| "serve_file_submit P rq (MoveSubmit form) = some_page (move_submit P rq form)"
| "serve_file_submit P rq (DeleteSubmit form) = some_page (delete_submit P rq form)"
| "serve_file_submit P rq (BulkDelete body) = some_page (bulk_delete P rq body)"
| "serve_file_submit P rq (BulkMove body) = some_page (bulk_move P rq body)"
| "serve_file_submit P rq (UploadRequest path data) = some_page (page_upload_file P rq path data)"
| "serve_file_submit P rq (InitUploadRequest body) = some_page (page_init_upload P rq body)"
| "serve_file_submit P rq (ReceiveChunkRequest i n data) = some_page (page_receive_chunk P rq i n data)"
| "serve_file_submit P rq (CompleteUploadRequest body) = some_page (page_complete_upload P rq body)"
| "serve_file_submit P rq (CancelUploadRequest i) = some_page (page_cancel_upload P rq i)"

datatype group_page =
    GroupsPage flash
  | GroupDetailPage string flash
  | SearchGrantees string
  | GroupCreateSubmit create_group_form
  | GroupEditSubmit string edit_group_form
  | GroupDeleteSubmit string string
  | AddMemberSubmit string add_member_form
  | RemoveMemberSubmit string string string
  | MemberRoleSubmit string string update_member_role_form

fun serve_group_page :: "page_env \<Rightarrow> request \<Rightarrow> group_page \<Rightarrow> 'z served" where
  "serve_group_page P rq (GroupsPage fl) = some_page (groups_page P rq fl)"
| "serve_group_page P rq (GroupDetailPage i fl) = some_page (group_detail_page P rq i fl)"
| "serve_group_page P rq (SearchGrantees q) = some_page (search_grantees P rq q)"
| "serve_group_page P rq (GroupCreateSubmit form) = some_page (groups_create_submit P rq form)"
| "serve_group_page P rq (GroupEditSubmit i form) = some_page (group_edit_submit P rq i form)"
| "serve_group_page P rq (GroupDeleteSubmit i tok) = some_page (group_delete_submit P rq i tok)"
| "serve_group_page P rq (AddMemberSubmit i form) = some_page (group_add_member_submit P rq i form)"
| "serve_group_page P rq (RemoveMemberSubmit i uid tok) = some_page (group_remove_member_submit P rq i uid tok)"
| "serve_group_page P rq (MemberRoleSubmit i uid form) = some_page (group_update_member_role_submit P rq i uid form)"

datatype space_page =
    SpacesPage flash
  | SpaceBrowserPage string "string option" flash
  | SpaceBrowserPartial string "string option"
  | SpaceFolders string "string option"
  | SpaceSettingsPage string flash
  | SpaceDownload string string
  | SpaceInitDownload string string
  | SpaceDownloadChunk string "32 word"

fun serve_space_page :: "page_env \<Rightarrow> request \<Rightarrow> space_page \<Rightarrow> 'z served" where
  "serve_space_page P rq (SpacesPage fl) = some_page (spaces_page P rq fl)"
| "serve_space_page P rq (SpaceBrowserPage i path fl) = some_page (space_browser_page P rq i path fl)"
| "serve_space_page P rq (SpaceBrowserPartial i path) = some_page (space_browser_partial P rq i path)"
| "serve_space_page P rq (SpaceFolders i path) = some_page (space_folders P rq i path)"
| "serve_space_page P rq (SpaceSettingsPage i fl) = some_page (space_settings_page P rq i fl)"
| "serve_space_page P rq (SpaceDownload i path) = some_page (page_space_download P rq i path)"
| "serve_space_page P rq (SpaceInitDownload i path) = some_page (space_init_download P rq i path)"
| "serve_space_page P rq (SpaceDownloadChunk token index) = some_page (space_download_chunk P rq token index)"

datatype space_submit =
    SpaceCreateSubmit create_space_form
  | SpaceRenameSubmit string rename_space_form
  | SpaceDeleteSubmit string string
  | SpaceGrantSubmit string grant_access_form
  | SpaceUpdateAccessSubmit string update_access_form
  | SpaceRevokeSubmit string revoke_access_form

fun serve_space_submit :: "page_env \<Rightarrow> request \<Rightarrow> space_submit \<Rightarrow> 'z served" where
  "serve_space_submit P rq (SpaceCreateSubmit form) = some_page (spaces_create_submit P rq form)"
| "serve_space_submit P rq (SpaceRenameSubmit i form) = some_page (space_rename_submit P rq i form)"
| "serve_space_submit P rq (SpaceDeleteSubmit i tok) = some_page (space_delete_submit P rq i tok)"
| "serve_space_submit P rq (SpaceGrantSubmit i form) = some_page (space_grant_access_submit P rq i form)"
| "serve_space_submit P rq (SpaceUpdateAccessSubmit i form) = some_page (space_update_access_submit P rq i form)"
| "serve_space_submit P rq (SpaceRevokeSubmit i form) = some_page (space_revoke_access_submit P rq i form)"

datatype space_file_submit =
    SpaceMkdirSubmit mkdir_form
  | SpaceRenameEntrySubmit rename_form
  | SpaceMoveSubmit move_form
  | SpaceDeleteEntrySubmit delete_form
  | SpaceBulkDelete bulk_delete_request
  | SpaceBulkMove bulk_move_request
  | SpaceUploadRequest string body_stream
  | SpaceInitUploadRequest chunked_init_request
  | SpaceReceiveChunkRequest string "32 word" body_stream
  | SpaceCompleteUploadRequest chunked_complete_request
  | SpaceCancelUploadRequest string

fun serve_space_file_submit :: "page_env \<Rightarrow> request \<Rightarrow> string \<Rightarrow> space_file_submit \<Rightarrow> 'z served" where
  "serve_space_file_submit P rq i (SpaceMkdirSubmit form) = some_page (space_mkdir_submit P rq i form)"
| "serve_space_file_submit P rq i (SpaceRenameEntrySubmit form) = some_page (space_rename_entry_submit P rq i form)"
| "serve_space_file_submit P rq i (SpaceMoveSubmit form) = some_page (space_move_entry_submit P rq i form)"
| "serve_space_file_submit P rq i (SpaceDeleteEntrySubmit form) = some_page (space_delete_entry_submit P rq i form)"
| "serve_space_file_submit P rq i (SpaceBulkDelete body) = some_page (space_bulk_delete P rq i body)"
| "serve_space_file_submit P rq i (SpaceBulkMove body) = some_page (space_bulk_move P rq i body)"
| "serve_space_file_submit P rq i (SpaceUploadRequest path data) = some_page (page_space_upload P rq i path data)"
| "serve_space_file_submit P rq i (SpaceInitUploadRequest body) = some_page (space_init_upload P rq i body)"
| "serve_space_file_submit P rq i (SpaceReceiveChunkRequest up n data) = some_page (space_receive_chunk P rq i up n data)"
| "serve_space_file_submit P rq i (SpaceCompleteUploadRequest body) = some_page (space_complete_upload P rq i body)"
| "serve_space_file_submit P rq i (SpaceCancelUploadRequest up) = some_page (space_cancel_upload P rq i up)"

datatype page_call =
    AccountPageCall account_page
  | FilePageCall file_page
  | FileSubmitCall file_submit
  | GroupPageCall group_page
  | SpacePageCall space_page
  | SpaceSubmitCall space_submit
  | SpaceFileSubmitCall string space_file_submit

fun serve_page :: "page_env \<Rightarrow> request \<Rightarrow> page_call \<Rightarrow> 'z served" where
  "serve_page P rq (AccountPageCall c) = serve_account_page P rq c"
| "serve_page P rq (FilePageCall c) = serve_file_page P rq c"
| "serve_page P rq (FileSubmitCall c) = serve_file_submit P rq c"
| "serve_page P rq (GroupPageCall c) = serve_group_page P rq c"
| "serve_page P rq (SpacePageCall c) = serve_space_page P rq c"
| "serve_page P rq (SpaceSubmitCall c) = serve_space_submit P rq c"
| "serve_page P rq (SpaceFileSubmitCall i c) = serve_space_file_submit P rq i c"

section \<open>The token of a call\<close>

text \<open>What a call submits against forgery: the token of its form, the header of a script's request, or
  nothing (a page that is only looked at).\<close>

fun account_token :: "account_page \<Rightarrow> string option" where
  "account_token (LoginSubmit ip now form) = Some (lf_csrf_token form)"
| "account_token (RegisterSubmit ip now form) = Some (rf_csrf_token form)"
| "account_token (LogoutSubmit tok) = Some tok"
| "account_token (SetupSubmit tok) = Some tok"
| "account_token c = None"

fun file_token :: "request \<Rightarrow> file_submit \<Rightarrow> string option" where
  "file_token rq (MkdirSubmit form) = Some (mf_csrf_token form)"
| "file_token rq (RenameSubmit form) = Some (nf_csrf_token form)"
| "file_token rq (MoveSubmit form) = Some (vf_csrf_token form)"
| "file_token rq (DeleteSubmit form) = Some (df_csrf_token form)"
| "file_token rq c = get_header rq ''X-CSRF-Token''"

fun group_token :: "group_page \<Rightarrow> string option" where
  "group_token (GroupCreateSubmit form) = Some (gf_csrf_token form)"
| "group_token (GroupEditSubmit i form) = Some (ef_csrf_token form)"
| "group_token (GroupDeleteSubmit i tok) = Some tok"
| "group_token (AddMemberSubmit i form) = Some (af_csrf_token form)"
| "group_token (RemoveMemberSubmit i uid tok) = Some tok"
| "group_token (MemberRoleSubmit i uid form) = Some (uf_csrf_token form)"
| "group_token c = None"

fun space_token :: "space_submit \<Rightarrow> string option" where
  "space_token (SpaceCreateSubmit form) = Some (sf_csrf_token form)"
| "space_token (SpaceRenameSubmit i form) = Some (sr_csrf_token form)"
| "space_token (SpaceDeleteSubmit i tok) = Some tok"
| "space_token (SpaceGrantSubmit i form) = Some (ga_csrf_token form)"
| "space_token (SpaceUpdateAccessSubmit i form) = Some (ua_csrf_token form)"
| "space_token (SpaceRevokeSubmit i form) = Some (ra_csrf_token form)"

fun space_file_token :: "request \<Rightarrow> space_file_submit \<Rightarrow> string option" where
  "space_file_token rq (SpaceMkdirSubmit form) = Some (mf_csrf_token form)"
| "space_file_token rq (SpaceRenameEntrySubmit form) = Some (nf_csrf_token form)"
| "space_file_token rq (SpaceMoveSubmit form) = Some (vf_csrf_token form)"
| "space_file_token rq (SpaceDeleteEntrySubmit form) = Some (df_csrf_token form)"
| "space_file_token rq c = get_header rq ''X-CSRF-Token''"

fun submitted_token :: "request \<Rightarrow> page_call \<Rightarrow> string option" where
  "submitted_token rq (AccountPageCall c) = account_token c"
| "submitted_token rq (FileSubmitCall c) = file_token rq c"
| "submitted_token rq (GroupPageCall c) = group_token c"
| "submitted_token rq (SpaceSubmitCall c) = space_token c"
| "submitted_token rq (SpaceFileSubmitCall i c) = space_file_token rq c"
| "submitted_token rq c = None"

end
