(* ===== verification/PageFacts.thy ===== *)
theory PageFacts
  imports PageCalls Isolation
begin

text \<open>
  What holds of the web interface: looking at pages and forged submissions change nothing.
\<close>

section \<open>Nothing but a spent session\<close>

text \<open>
  The rows a guard may drop: the session that the browser's cookie names, once it is expired or its
  account is gone.
\<close>

definition spent_session :: "page_env \<Rightarrow> request \<Rightarrow> 'z db_scheme \<Rightarrow> session \<Rightarrow> bool" where
  "spent_session P rq w s = (\<exists>tok r. extract_cookie_token rq = Some tok \<and> r \<in> set (t_sessions (tb w)) \<and> se_id r = se_id s \<and>
     se_token_hash r = hash_token (env_ext (srv P)) (env_crypto (srv P)) tok \<and>
     (expired w r \<or> user_of (tb w) (se_user_id r) = None))"

definition same_web :: "'z web_scheme \<Rightarrow> 'z web_scheme \<Rightarrow> bool" where
  "same_web w w' = (unlocked w' = unlocked w \<and> attempts w' = attempts w \<and> clock w' = clock w \<and> parse_datetime w' = parse_datetime w)"

text \<open>Keys, limiter and tables stay, but for a spent session.\<close>

definition settled :: "page_env \<Rightarrow> request \<Rightarrow> 'z web_scheme \<Rightarrow> 'z web_scheme \<Rightarrow> bool" where
  "settled P rq w w' = (same_web w w' \<and>
     (\<exists>keep. tb w' = (tb w)\<lparr>t_sessions := filter keep (t_sessions (tb w))\<rparr> \<and>
        (\<forall>s \<in> set (t_sessions (tb w)). \<not> keep s \<longrightarrow> spent_session P rq w s)))"

lemma settled_same: "\<lbrakk>same_web w w'; tb w' = tb w\<rbrakk> \<Longrightarrow> settled P rq w w'"
  unfolding settled_def by (auto intro!: exI [of _ "\<lambda>_. True"])

lemma spent_before:
  assumes "same_web w w'" "tb w' = (tb w)\<lparr>t_sessions := filter keep (t_sessions (tb w))\<rparr>" "spent_session P rq w' s"
  shows "spent_session P rq w s"
proof -
  obtain tok r where r: "extract_cookie_token rq = Some tok" "r \<in> set (t_sessions (tb w'))" "se_id r = se_id s"
      "se_token_hash r = hash_token (env_ext (srv P)) (env_crypto (srv P)) tok" "expired w' r \<or> user_of (tb w') (se_user_id r) = None"
    using assms(3) unfolding spent_session_def by blast
  have "expired w' r = expired w r" "user_of (tb w') (se_user_id r) = user_of (tb w) (se_user_id r)" "r \<in> set (t_sessions (tb w))"
    using r(2) assms(1) by (simp_all add: assms(2) same_web_def expired_def user_of_def split: option.split)
  then show ?thesis using r unfolding spent_session_def by auto
qed

interpretation same_web: os_frame same_web
  by unfold_locales (auto simp: same_web_def tick_def)

interpretation calm: os_frame "settled P rq" for P rq
proof
  fix w1 w2 w3 :: "'z web_scheme"
  assume 12: "settled P rq w1 w2" and 23: "settled P rq w2 w3"
  obtain k where k: "same_web w1 w2" "tb w2 = (tb w1)\<lparr>t_sessions := filter k (t_sessions (tb w1))\<rparr>"
      "\<forall>s \<in> set (t_sessions (tb w1)). \<not> k s \<longrightarrow> spent_session P rq w1 s"
    using 12 unfolding settled_def by blast
  obtain l where l: "same_web w2 w3" "tb w3 = (tb w2)\<lparr>t_sessions := filter l (t_sessions (tb w2))\<rparr>"
      "\<forall>s \<in> set (t_sessions (tb w2)). \<not> l s \<longrightarrow> spent_session P rq w2 s"
    using 23 unfolding settled_def by blast
  have "tb w3 = (tb w1)\<lparr>t_sessions := filter (\<lambda>s. k s \<and> l s) (t_sessions (tb w1))\<rparr>" using k(2) l(2) by simp
  moreover have "\<forall>s \<in> set (t_sessions (tb w1)). \<not> (k s \<and> l s) \<longrightarrow> spent_session P rq w1 s"
    using k(3) l(3) spent_before [OF k(1,2)] by (auto simp: k(2))
  ultimately show "settled P rq w1 w3"
    using same_web.R_trans [OF k(1) l(1)] unfolding settled_def by blast
qed (auto simp: tick_def same_web_def intro: settled_same)

lemma same_web_rows: "keeps same_web (select g)" "keeps same_web (delete_sessions Q)"
  by (auto simp: keeps_def same_web_def select_def delete_sessions_def exec_def tick_def split: option.splits sum.splits)

lemma calm_select: "keeps (settled P rq) (select g)"
  by (auto simp: keeps_def select_def tick_def same_web_def intro!: settled_same split: option.splits)

lemmas calm_rules = calm.os_rules keeps_sqlx calm_select

lemma same_web_token: "keeps same_web (token_user E C tok)"
  unfolding token_user_def session_validate_def session_delete_def user_find_by_id_def find_user_def
    find_by_token_hash_def session_is_expired_def Let_def
  by (intro same_web.os_rules keeps_sqlx same_web_rows)

lemma calm_session: "keeps (settled P rq) (page_session P rq)"
proof (cases "extract_cookie_token rq")
  case None
  then show ?thesis by (simp add: page_session_def session_user_def keeps_def calm.R_refl)
next
  case (Some tok)
  let ?E = "env_ext (srv P)" and ?C = "env_crypto (srv P)"
  have session: "page_session P rq = token_user ?E ?C tok"
    using Some by (simp add: page_session_def session_user_def fun_eq_iff)
  have "settled P rq w w'" if run: "token_user ?E ?C tok w = (r, w')" for r w w'
  proof -
    have same: "same_web w w'" by (rule keepsD [OF same_web_token run])
    have "dead_session ?E ?C w tok s \<Longrightarrow> spent_session P rq w s" for s
      using Some unfolding dead_session_def spent_session_def session_of_def
      by (clarsimp split: option.splits) (blast dest: find_Some_mem)
    then have dropped: "settled P rq w w'" if "tb w' = drop_dead ?E ?C w tok"
      using that same by (auto simp: settled_def drop_dead_def without_sessions_def intro!: exI [of _ "\<lambda>s. \<not> dead_session ?E ?C w tok s"])
    show ?thesis using token_user_run [OF run] dropped settled_same [OF same] by blast
  qed
  then show ?thesis unfolding session keeps_def by (metis prod.collapse)
qed

lemma calm_guards:
  "keeps (settled P rq) (page_session P rq)" "keeps (settled P rq) (page_user P rq)"
  "keeps (settled P rq) (optional_session P rq)" "keeps (settled P rq) (page_space P rq level)"
proof -
  show session: "keeps (settled P rq) (page_session P rq)" by (rule calm_session)
  show user: "keeps (settled P rq) (page_user P rq)"
    unfolding page_user_def session_setup_complete_def using session [unfolded page_session_def] by (intro calm_rules)
  show "keeps (settled P rq) (optional_session P rq)" unfolding optional_session_def by (intro calm_rules session)
  show "keeps (settled P rq) (page_space P rq level)"
    unfolding page_space_def session_space_guard_def check_space_permission_def space_find_for_user_def
    using user [unfolded page_user_def] by (intro calm_rules)
qed

lemma readonly_guards:
  "keeps readonly (page_session P rq)" "keeps readonly (page_user P rq)" "keeps readonly (optional_session P rq)"
  "keeps readonly (page_space P rq level)"
proof -
  show session: "keeps readonly (page_session P rq)"
    unfolding page_session_def session_user_def by (intro readonly_rules readonly_token)
  show user: "keeps readonly (page_user P rq)"
    unfolding page_user_def session_setup_complete_def using session [unfolded page_session_def] by (intro readonly_rules)
  show "keeps readonly (optional_session P rq)" unfolding optional_session_def by (intro readonly_rules session)
  show "keeps readonly (page_space P rq level)"
    unfolding page_space_def session_space_guard_def check_space_permission_def space_find_for_user_def
    using user [unfolded page_user_def] by (intro readonly_rules readonly_sqlx readonly_select)
qed

section \<open>Looking at pages\<close>

lemma calm_reads:
  "keeps (settled P rq) (require_library uid)" "keeps (settled P rq) (library_find_by_user uid)" "keeps (settled P rq) (list_user_groups uid)"
  "keeps (settled P rq) (get_group uid i)" "keeps (settled P rq) (list_members uid i)" "keeps (settled P rq) (user_search_by_prefix q n)"
  "keeps (settled P rq) (group_search_by_name_prefix q n)" "keeps (settled P rq) (list_user_spaces uid)" "keeps (settled P rq) (list_access uid sid)"
  unfolding require_library_def library_find_by_user_def list_user_groups_def group_find_all_for_user_def get_group_def
    group_find_for_user_def list_members_def require_member_def is_member_def member_find_def member_list_with_details_def
    user_search_by_prefix_def group_search_by_name_prefix_def list_user_spaces_def space_find_all_for_user_def list_access_def
    require_permission_def resolve_user_permission_def access_list_with_details_def
  by (intro calm_rules)+

lemma readonly_reads:
  "keeps readonly (require_library uid)" "keeps readonly (library_find_by_user uid)" "keeps readonly (list_user_groups uid)"
  "keeps readonly (get_group uid i)" "keeps readonly (list_members uid i)" "keeps readonly (user_search_by_prefix q n)"
  "keeps readonly (group_search_by_name_prefix q n)" "keeps readonly (list_user_spaces uid)" "keeps readonly (list_access uid sid)"
  unfolding require_library_def library_find_by_user_def list_user_groups_def group_find_all_for_user_def get_group_def
    group_find_for_user_def list_members_def require_member_def is_member_def member_find_def member_list_with_details_def
    user_search_by_prefix_def group_search_by_name_prefix_def list_user_spaces_def space_find_all_for_user_def list_access_def
    require_permission_def resolve_user_permission_def access_list_with_details_def
  by (intro readonly_rules readonly_sqlx readonly_select)+

lemma calm_downloads:
  "keeps (settled P rq) (init_download C E T config u uid tid ty p)" "keeps (settled P rq) (serve_chunk C E T config u uid tok n)"
  unfolding init_download_def serve_chunk_def build_download_token_def verify_download_token_def Let_def
  by (intro calm_rules calm.os_library_files calm.os_space_files)+

lemma readonly_downloads:
  "keeps readonly (init_download C E T config u uid tid ty p)" "keeps readonly (serve_chunk C E T config u uid tok n)"
  unfolding init_download_def serve_chunk_def build_download_token_def verify_download_token_def Let_def
  by (intro readonly_rules readonly_reading_files)+

lemma calm_csrf: "keeps (settled P rq) (ensure_csrf_token alnum rq)"
  unfolding ensure_csrf_token_def generate_csrf_token_def Let_def by (intro calm_rules)

lemma readonly_csrf: "keeps readonly (ensure_csrf_token alnum rq)"
  unfolding ensure_csrf_token_def generate_csrf_token_def Let_def by (intro readonly_rules)

text \<open>Both at once: the files stay, and \<open>settled\<close>.\<close>

definition quiet :: "page_env \<Rightarrow> request \<Rightarrow> 'z web_scheme \<Rightarrow> 'z web_scheme \<Rightarrow> bool" where
  "quiet P rq w w' = (readonly w w' \<and> settled P rq w w')"

interpretation quiet: frame_rel "quiet P rq" for P rq
  by unfold_locales (auto simp: quiet_def intro: readonly.R_refl calm.R_refl readonly.R_trans calm.R_trans)

lemma quietI: "keeps readonly m \<Longrightarrow> keeps (settled P rq) m \<Longrightarrow> keeps (quiet P rq) m"
  by (simp add: keeps_def quiet_def)

lemmas quiet_guards = quietI [OF readonly_guards(1) calm_guards(1)] quietI [OF readonly_guards(2) calm_guards(2)]
  quietI [OF readonly_guards(3) calm_guards(3)] quietI [OF readonly_guards(4) calm_guards(4)]

lemmas quiet_reads = quietI [OF readonly_reads(1) calm_reads(1)] quietI [OF readonly_reads(2) calm_reads(2)]
  quietI [OF readonly_reads(3) calm_reads(3)] quietI [OF readonly_reads(4) calm_reads(4)]
  quietI [OF readonly_reads(5) calm_reads(5)] quietI [OF readonly_reads(6) calm_reads(6)]
  quietI [OF readonly_reads(7) calm_reads(7)] quietI [OF readonly_reads(8) calm_reads(8)]
  quietI [OF readonly_reads(9) calm_reads(9)]

lemmas quiet_files = quietI [OF readonly_reading_files(1) calm.os_library_files(1)]
  quietI [OF readonly_reading_files(2) calm.os_library_files(5)] quietI [OF readonly_reading_files(4) calm.os_library_files(9)]
  quietI [OF readonly_reading_files(5) calm.os_space_files(1)] quietI [OF readonly_reading_files(6) calm.os_space_files(5)]
  quietI [OF readonly_downloads(1) calm_downloads(1)] quietI [OF readonly_downloads(2) calm_downloads(2)]

lemma quiet_on_library: "(\<And>lib. keeps (quiet P rq) (h lib)) \<Longrightarrow> keeps (quiet P rq) (on_library user missing h)"
  unfolding on_library_def by (intro quiet.keeps_rules quiet_reads)

lemma quiet_render: "keeps (quiet P rq) (render_with_token P rq template context)"
  unfolding render_with_token_def by (intro quiet.keeps_rules quietI [OF readonly_csrf calm_csrf])

lemma quiet_json: "keeps (quiet P rq) m \<Longrightarrow> keeps (quiet P rq) (json_result m f)"
  unfolding json_result_def by (intro quiet.keeps_rules)

lemma quiet_listings: "keeps (quiet P rq) (listing_or_empty P i p)" "keeps (quiet P rq) (space_listing_or_empty P i p)"
  "keeps (quiet P rq) (library_usage_or_none P i)"
  unfolding listing_or_empty_def space_listing_or_empty_def library_usage_or_none_def
  by (intro quiet.keeps_rules quiet_files)+

lemma quiet_some: "keeps (quiet P rq) m \<Longrightarrow> keeps (quiet P rq) (some_page m)"
  unfolding some_page_def by (intro quiet.keeps_rules)

lemmas quiet_rules = quiet_some quiet_on_library quiet_render quiet_json quiet_listings quiet_guards quiet_reads quiet_files
  quiet.keeps_rules

lemma looks_account: "account_token c = None \<Longrightarrow> keeps (quiet P rq) (serve_account_page P rq c)"
  by (cases c; simp only: account_token.simps option.distinct serve_account_page.simps index_page_def login_page_def register_page_def
      setup_page_def usage_sidebar_def usage_page_def settings_page_def Let_def)
    (intro quiet_rules)+

lemma looks_file: "keeps (quiet P rq) (serve_file_page P rq c)"
  by (cases c; simp only: serve_file_page.simps files_page_def files_partial_def files_folders_def page_download_file_def
      page_init_download_def page_download_chunk_def Let_def)
    (intro quiet_rules)+

lemma looks_group: "group_token c = None \<Longrightarrow> keeps (quiet P rq) (serve_group_page P rq c)"
  by (cases c; simp only: group_token.simps option.distinct serve_group_page.simps groups_page_def group_detail_page_def
      search_grantees_def Let_def)
    (intro quiet_rules)+

lemma looks_space: "keeps (quiet P rq) (serve_space_page P rq c)"
  by (cases c; simp only: serve_space_page.simps spaces_page_def space_browser_page_def space_browser_partial_def space_folders_def
      space_settings_page_def page_space_download_def space_init_download_def space_download_chunk_def Let_def)
    (intro quiet_rules)+

section \<open>Forged submissions\<close>

definition forged :: "request \<Rightarrow> string \<Rightarrow> bool" where
  "forged rq tok = (tok = [] \<or> get_cookie rq CSRF_COOKIE \<noteq> Some tok)"

lemma forged_form: "forged rq tok \<Longrightarrow> checked_form rq tok target act = ret (flash_error target ''Invalid request. Please try again.'')"
  using validate_csrf_iff [of rq tok] by (cases "validate_csrf rq tok") (auto simp: forged_def checked_form_def)

lemma forged_xhr: "(\<forall>tok. get_header rq ''X-CSRF-Token'' = Some tok \<longrightarrow> forged rq tok) \<Longrightarrow> \<exists>e. csrf_xhr rq = Inl e"
  using csrf_xhr_iff [of rq] by (cases "csrf_xhr rq") (auto simp: forged_def)

text \<open>An answer that refuses: an error, a flashed error, or the way back to the login, and no cookie.\<close>

definition turned_away :: "nat \<times> app_error + page option \<Rightarrow> bool" where
  "turned_away r = (case r of Inl _ \<Rightarrow> True | Inr None \<Rightarrow> False
     | Inr (Some p) \<Rightarrow> pg_cookies p = [] \<and>
         (case pg_reply p of Flashed u kind msg \<Rightarrow> kind = ''error'' | RedirectTo u \<Rightarrow> u = LoginUri | _ \<Rightarrow> False))"

lemma turned_away_Inl [simp]: "turned_away (Inl e)"
  by (simp add: turned_away_def)

definition refuses :: "page_env \<Rightarrow> request \<Rightarrow> 'z served \<Rightarrow> bool" where
  "refuses P rq m = (keeps (quiet P rq) m \<and> (\<forall>w. turned_away (fst (m w))))"

lemma refuses_bind: "keeps (quiet P rq) g \<Longrightarrow> (\<And>x. refuses P rq (some_page (k x))) \<Longrightarrow> refuses P rq (some_page (bind g k))"
proof -
  assume g: "keeps (quiet P rq) g" and k: "\<And>x. refuses P rq (some_page (k x))"
  have "some_page (bind g k) = bind g (\<lambda>x. some_page (k x))"
    by (auto simp: some_page_def bind_def fun_eq_iff split: prod.splits sum.splits)
  moreover have "keeps (quiet P rq) (bind g (\<lambda>x. some_page (k x)))"
    using k by (intro quiet.keeps_bind g) (auto simp: refuses_def)
  moreover have "turned_away (fst (bind g (\<lambda>x. some_page (k x)) w))" for w
  proof (cases "g w")
    case (Pair r w1)
    then show ?thesis using k unfolding refuses_def by (cases r) (auto simp: bind_def)
  qed
  ultimately show ?thesis by (simp add: refuses_def)
qed

lemma refuses_ret: "turned_away (Inr (Some p)) \<Longrightarrow> refuses P rq (some_page (ret p))"
  unfolding refuses_def some_page_def bind_simps by (simp add: quiet.keeps_ret del: ret_apply) simp

lemma refuses_flash: "refuses P rq (some_page (ret (flash_error target msg)))"
  by (rule refuses_ret) (simp add: turned_away_def flash_error_def answer_def)

lemma refuses_login: "refuses P rq (some_page (ret (answer (RedirectTo LoginUri))))"
  by (rule refuses_ret) (simp add: turned_away_def answer_def)

lemma refuses_prod: "(\<And>a b. refuses P rq (some_page (f a b))) \<Longrightarrow> refuses P rq (some_page (case x of (a, b) \<Rightarrow> f a b))"
  by (cases x) simp

lemma refuses_xhr: "\<exists>e. csrf_xhr rq = Inl e \<Longrightarrow> refuses P rq (some_page (bind (csrf_guard rq) k))"
  unfolding refuses_def some_page_def csrf_guard_def by (elim exE) (simp only: bind_simps quiet.keeps_throw throw_apply fst_conv turned_away_Inl simp_thms)

lemmas refuses_rules = refuses_flash refuses_login refuses_prod refuses_bind [OF quiet_guards(1)] refuses_bind [OF quiet_guards(2)]
  refuses_bind [OF quiet_guards(3)] refuses_bind [OF quiet_guards(4)]

lemma refuses_form: "forged rq tok \<Longrightarrow> refuses P rq (some_page (checked_form rq tok target act))"
  by (simp add: forged_form refuses_flash)

lemma forged_account: "account_token c = Some tok \<Longrightarrow> forged rq tok \<Longrightarrow> refuses P rq (serve_account_page P rq c)"
proof -
  assume c: "account_token c = Some tok" and f: "forged rq tok"
  have "validate_csrf rq tok = Inl Forbidden"
    using f validate_csrf_iff [of rq tok] by (auto simp: forged_def validate_csrf_def Let_def split: if_splits)
  then have logout: "logout_submit P rq tok = bind (optional_session P rq) (\<lambda>user. ret (answer (RedirectTo LoginUri)))"
    by (simp add: logout_submit_def)
  have "refuses P rq (some_page (logout_submit P rq tok))" unfolding logout by (intro refuses_rules)
  then show ?thesis using c f
    by (cases c) (auto simp: login_submit_def register_submit_def setup_submit_def intro!: refuses_rules refuses_form)
qed

lemma forged_file:
  "(\<forall>tok. file_token rq c = Some tok \<longrightarrow> forged rq tok) \<Longrightarrow> refuses P rq (serve_file_submit P rq c)"
  by (cases c; simp only: file_token.simps option.inject serve_file_submit.simps mkdir_submit_def rename_submit_def move_submit_def
      delete_submit_def bulk_delete_def bulk_move_def page_upload_file_def page_init_upload_def page_receive_chunk_def
      page_complete_upload_def page_cancel_upload_def library_form_def library_xhr_def Let_def)
    (auto intro!: refuses_rules refuses_form refuses_xhr forged_xhr)

lemma forged_group: "group_token c = Some tok \<Longrightarrow> forged rq tok \<Longrightarrow> refuses P rq (serve_group_page P rq c)"
  by (cases c; simp only: group_token.simps option.inject option.distinct serve_group_page.simps groups_create_submit_def
      group_edit_submit_def group_delete_submit_def group_add_member_submit_def group_remove_member_submit_def
      group_update_member_role_submit_def user_form_def)
    (auto intro!: refuses_rules refuses_form)

lemma forged_space: "space_token c = Some tok \<Longrightarrow> forged rq tok \<Longrightarrow> refuses P rq (serve_space_submit P rq c)"
  by (cases c; simp only: space_token.simps option.inject serve_space_submit.simps spaces_create_submit_def space_rename_submit_def
      space_delete_submit_def space_grant_access_submit_def space_update_access_submit_def space_revoke_access_submit_def
      user_form_def space_form_def Let_def)
    (auto intro!: refuses_rules refuses_form)

lemma forged_space_file:
  "(\<forall>tok. space_file_token rq c = Some tok \<longrightarrow> forged rq tok) \<Longrightarrow> refuses P rq (serve_space_file_submit P rq i c)"
  by (cases c; simp only: space_file_token.simps option.inject serve_space_file_submit.simps space_mkdir_submit_def
      space_rename_entry_submit_def space_move_entry_submit_def space_delete_entry_submit_def space_bulk_delete_def space_bulk_move_def
      page_space_upload_def space_init_upload_def space_receive_chunk_def space_complete_upload_def space_cancel_upload_def
      space_form_def space_xhr_def Let_def)
    (auto intro!: refuses_rules refuses_form refuses_xhr forged_xhr)

lemma refuses_quiet: "refuses P rq m \<Longrightarrow> keeps (quiet P rq) m"
  by (simp add: refuses_def)

lemma space_token_given: "\<exists>tok. space_token c = Some tok"
  by (cases c) simp_all

text \<open>The calls that submit something, as opposed to the pages that are looked at.\<close>

fun submits :: "page_call \<Rightarrow> bool" where
  "submits (AccountPageCall c) = (account_token c \<noteq> None)"
| "submits (FilePageCall c) = False"
| "submits (FileSubmitCall c) = True"
| "submits (GroupPageCall c) = (group_token c \<noteq> None)"
| "submits (SpacePageCall c) = False"
| "submits (SpaceSubmitCall c) = True"
| "submits (SpaceFileSubmitCall i c) = True"

lemma unasked_call:
  assumes "\<forall>tok. submitted_token rq c = Some tok \<longrightarrow> forged rq tok"
  shows "keeps (quiet P rq) (serve_page P rq c)" "submits c \<Longrightarrow> refuses P rq (serve_page P rq c)"
proof -
  show refused: "refuses P rq (serve_page P rq c)" if "submits c"
    using that assms space_token_given
    by (cases c) (auto simp: forged_account forged_group forged_file forged_space_file, metis forged_space)
  show "keeps (quiet P rq) (serve_page P rq c)"
  proof (cases "submits c")
    case True
    then show ?thesis by (rule refuses_quiet [OF refused])
  next
    case False
    then show ?thesis by (cases c) (simp_all add: looks_account looks_file looks_group looks_space)
  qed
qed

text \<open>
  C12. The web interface changes nothing unasked. A page that is looked at, and a form or a script's
  request that does not carry the token of the browser's cookie, change no file, no key in memory, no
  counter of the rate limiter and no row of the database, whoever asks and whatever fails, but one:
  the session that the browser's own cookie names is dropped when it is expired or its account is
  gone. The forged submission is answered by an error or the way back to the login, and sets no cookie.
\<close>

theorem pages_change_nothing_unasked:
  assumes "\<forall>tok. submitted_token rq c = Some tok \<longrightarrow> tok = [] \<or> get_cookie rq CSRF_COOKIE \<noteq> Some tok"
    and "serve_page P rq c w = (r, w')"
  shows "tree w' = tree w \<and> unlocked w' = unlocked w \<and> attempts w' = attempts w \<and>
    (\<exists>keep. tb w' = (tb w)\<lparr>t_sessions := filter keep (t_sessions (tb w))\<rparr> \<and>
       (\<forall>s \<in> set (t_sessions (tb w)). \<not> keep s \<longrightarrow> spent_session P rq w s)) \<and>
    (submits c \<longrightarrow> turned_away r)"
proof -
  have none: "\<forall>tok. submitted_token rq c = Some tok \<longrightarrow> forged rq tok" using assms(1) by (simp add: forged_def)
  have "quiet P rq w w'" by (rule keepsD [OF unasked_call(1) [OF none] assms(2)])
  moreover have "submits c \<longrightarrow> turned_away r"
    using unasked_call(2) [OF none, of P] assms(2) unfolding refuses_def by (metis fst_conv)
  ultimately show ?thesis by (auto simp: quiet_def settled_def same_web_def readonly_def)
qed

end
