(* ===== verification/Unseen.thy ===== *)
theory Unseen
  imports AccountPages SpaceFacts
begin

text \<open>
  What a service does not see of the state: a request runs alike on two states that differ in a part
  it does not look at. The login does not see the limiter of the web interface, and on a server whose
  calls succeed no service sees how many calls were made before.
\<close>

section \<open>The interface\<close>

definition unseen :: "('w \<Rightarrow> 'w) \<Rightarrow> ('w \<Rightarrow> bool) \<Rightarrow> ('w, 'e, 'a) act \<Rightarrow> bool" where
  "unseen U Q m = (\<forall>w. Q w \<longrightarrow> Q (snd (m w)) \<and> m (U w) = (fst (m w), U (snd (m w))))"

lemma unseenD: "unseen U Q m \<Longrightarrow> Q w \<Longrightarrow> m w = (r, w') \<Longrightarrow> m (U w) = (r, U w') \<and> Q w'"
  by (auto simp: unseen_def dest!: spec [of _ w])

lemma unseen_bind:
  assumes "unseen U Q m" "\<And>x. unseen U Q (k x)"
  shows "unseen U Q (bind m k)"
  unfolding unseen_def
proof (intro allI impI)
  fix w assume q: "Q w"
  obtain r w1 where m: "m w = (r, w1)" by fastforce
  note m1 = unseenD [OF assms(1) q m]
  show "Q (snd (bind m k w)) \<and> bind m k (U w) = (fst (bind m k w), U (snd (bind m k w)))"
  proof (cases r)
    case (Inr x)
    obtain r2 w2 where k: "k x w1 = (r2, w2)" by fastforce
    then show ?thesis using unseenD [OF assms(2), of w1 x r2 w2] m m1 Inr by (simp add: bind_def)
  qed (use m m1 in \<open>simp add: bind_def\<close>)
qed

lemma unseen_pure:
  "unseen U Q (ret x)" "unseen U Q (throw e)" "unseen U Q (lift r)" "unseen U Q (reject_if b e)" "unseen U Q (ok_or e found)"
  by (auto simp: unseen_def split: option.splits)

lemma unseen_gets: "(\<And>w. f (U w) = f w) \<Longrightarrow> unseen U Q (gets f)"
  by (simp add: unseen_def)

lemma unseen_map_err: "unseen U Q m \<Longrightarrow> unseen U Q (map_err f m)"
  unfolding unseen_def
proof (intro allI impI)
  fix w assume "\<forall>w. Q w \<longrightarrow> Q (snd (m w)) \<and> m (U w) = (fst (m w), U (snd (m w)))" "Q w"
  then have "Q (snd (m w))" "m (U w) = (fst (m w), U (snd (m w)))" by auto
  then show "Q (snd (map_err f m w)) \<and> map_err f m (U w) = (fst (map_err f m w), U (snd (map_err f m w)))"
    by (cases "m w"; cases "fst (m w)") (simp_all add: map_err_def)
qed

lemma unseen_sqlx: "unseen U Q m \<Longrightarrow> unseen U Q (sqlx m)"
  unfolding sqlx_def by (rule unseen_map_err)

lemma unseen_option: "unseen U Q a \<Longrightarrow> (\<And>x. unseen U Q (b x)) \<Longrightarrow> unseen U Q (case found of None \<Rightarrow> a | Some x \<Rightarrow> b x)"
  by (cases found) simp_all

lemma unseen_pair: "(\<And>x y. unseen U Q (a x y)) \<Longrightarrow> unseen U Q (case p of (x, y) \<Rightarrow> a x y)"
  by (cases p) simp

lemma unseen_if: "unseen U Q a \<Longrightarrow> unseen U Q b \<Longrightarrow> unseen U Q (if c then a else b)"
  by simp

lemmas unseen_rules = unseen_bind unseen_pure unseen_map_err unseen_sqlx unseen_option unseen_pair unseen_if

text \<open>A part of the state that no statement of the database looks at.\<close>

locale unseen_part =
  fixes U :: "'z db_scheme \<Rightarrow> 'z db_scheme" and Q :: "'z db_scheme \<Rightarrow> bool"
  assumes same: "tb (U w) = tb w" "clock (U w) = clock w" "datetime_text (U w) = datetime_text w"
      "uuids (U w) = uuids w" "uuid_pos (U w) = uuid_pos w" "rng (U w) = rng w" "rng_pos (U w) = rng_pos w"
    and fault: "Q w \<Longrightarrow> faults (U w) (ticks (U w)) = faults w (ticks w)"
    and steps: "U (tick w) = tick (U w)" "U (w\<lparr>tb := t\<rparr>) = (U w)\<lparr>tb := t\<rparr>" "U (w\<lparr>uuid_pos := n\<rparr>) = (U w)\<lparr>uuid_pos := n\<rparr>"
      "U (w\<lparr>rng_pos := m\<rparr>) = (U w)\<lparr>rng_pos := m\<rparr>"
    and kept: "Q w \<Longrightarrow> Q (tick w)" "Q w \<Longrightarrow> Q (w\<lparr>tb := t\<rparr>)" "Q w \<Longrightarrow> Q (w\<lparr>uuid_pos := n\<rparr>)" "Q w \<Longrightarrow> Q (w\<lparr>rng_pos := m\<rparr>)"
begin

lemma statements:
  "unseen U Q (select g)" "unseen U Q (exec f)" "unseen U Q (exec_returning h)" "unseen U Q new_uuid" "unseen U Q (fill_bytes k)"
  by (auto simp: unseen_def select_def exec_def exec_returning_def new_uuid_def fill_bytes_def same fault steps kept
      split: option.splits sum.splits)

lemmas part_rules = unseen_rules statements

lemma user_statements:
  "unseen U Q (find_user P)" "unseen U Q (user_create params)" "unseen U Q (get_password_hash n)" "unseen U Q (session_create u h e)"
  unfolding find_user_def user_create_def get_password_hash_def session_create_def Let_def user_find_by_id_def user_find_by_username_def
    user_find_by_email_def
  by (intro part_rules unseen_gets; simp add: same)+

lemma account_requests:
  "unseen U Q (login E C T A config n p)" "unseen U Q (register A config n em p)"
  unfolding login_def register_def hash_password_def timing_safe_delay_def is_first_user_def generate_session_token_def Let_def
    user_find_by_id_def
  by (intro part_rules user_statements unseen_gets; simp add: same)+

lemma granting: "unseen U Q (grant_user_access a sid n p)"
  unfolding grant_user_access_def require_permission_def resolve_user_permission_def access_grant_def access_find_def user_find_by_username_def
  by (intro part_rules user_statements)

end

interpretation limiter: unseen_part "\<lambda>w :: 'z web_scheme. w\<lparr>attempts := a\<rparr>" "\<lambda>w. True" for a
  by unfold_locales (simp_all add: tick_def)

interpretation calls: unseen_part tick calm
  by unfold_locales (simp_all add: tick_def calm_def)

end
