(* ===== verification/PageMirror.thy ===== *)
theory PageMirror
  imports PageFacts Unseen
begin

text \<open>
  The two interfaces of the server agree: what a form or a script of the web interface asks for is
  what a call of the API does, with the caller of the session cookie in place of the bearer token.
\<close>

section \<open>The call behind a page\<close>

fun mirror_account_page :: "account_page \<Rightarrow> api_call option" where
  "mirror_account_page (LoginSubmit ip now form) = Some (AccountCall (LoginCall (lf_username form) (lf_password form)))"
| "mirror_account_page (RegisterSubmit ip now form) =
     Some (AccountCall (RegisterCall (rf_username form) (rf_email form) (rf_password form)))"
| "mirror_account_page (LogoutSubmit tok) = Some (AccountCall LogoutCall)"
| "mirror_account_page (SetupSubmit tok) = Some (AccountCall SetupLibraryCall)"
| "mirror_account_page c = None"

fun mirror_file_page :: "file_page \<Rightarrow> api_call option" where
  "mirror_file_page (FilesFolders path) = Some (LibraryCall (LibraryList path None))"
| "mirror_file_page (FileDownload path) = Some (LibraryCall (LibraryDownload path))"
| "mirror_file_page (FileInitDownload path) = Some (ChunkCall (DownloadInit path))"
| "mirror_file_page (FileDownloadChunk token n) = Some (ChunkCall (DownloadChunk token n))"
| "mirror_file_page c = None"

definition new_dir_path :: "mkdir_form \<Rightarrow> string" where
  "new_dir_path form = (if mf_path form = [] then mf_name form else mf_path form @ ''/'' @ mf_name form)"

definition renamed_path :: "rename_form \<Rightarrow> string" where
  "renamed_path form = (let parent = parent_path (nf_old_path form) in
     if parent = [] then nf_new_name form else parent @ ''/'' @ nf_new_name form)"

definition moved_path :: "move_form \<Rightarrow> string option" where
  "moved_path form = (let name = file_name_from_path (vf_old_path form) in
     if name = [] then None else Some (join_dir_and_name (normalize_dir_path (vf_target_dir form)) name))"

fun mirror_file_submit :: "file_submit \<Rightarrow> api_call option" where
  "mirror_file_submit (MkdirSubmit form) = Some (LibraryCall (LibraryMkdir (new_dir_path form)))"
| "mirror_file_submit (RenameSubmit form) = Some (LibraryCall (LibraryRename (nf_old_path form) (renamed_path form)))"
| "mirror_file_submit (MoveSubmit form) = map_option (\<lambda>p. LibraryCall (LibraryRename (vf_old_path form) p)) (moved_path form)"
| "mirror_file_submit (DeleteSubmit form) = Some (LibraryCall (LibraryDelete (df_path form)))"
| "mirror_file_submit (UploadRequest path data) = Some (LibraryCall (LibraryUpload path None data))"
| "mirror_file_submit (InitUploadRequest body) = Some (ChunkCall (ChunkInit
     \<lparr>iq_path = ci_path body, iq_total_chunks = ci_total_chunks body, iq_total_bytes = ci_total_bytes body,
      iq_checksum_sha256 = ci_checksum_sha256 body\<rparr>))"
| "mirror_file_submit (ReceiveChunkRequest i n data) = Some (ChunkCall (ChunkReceive i n data))"
| "mirror_file_submit (CompleteUploadRequest body) = Some (ChunkCall (ChunkComplete (cq_upload_id body) (cq_verify body)))"
| "mirror_file_submit (CancelUploadRequest i) = Some (ChunkCall (ChunkCancel i))"
| "mirror_file_submit c = None"

fun mirror_group_page :: "group_page \<Rightarrow> api_call option" where
  "mirror_group_page (GroupCreateSubmit form) = Some (GroupCall (CreateGroupCall (gf_name form) (gf_description form)))"
| "mirror_group_page (GroupEditSubmit i form) = Some (GroupCall (UpdateGroupCall i (ef_name form) (ef_description form)))"
| "mirror_group_page (GroupDeleteSubmit i tok) = Some (GroupCall (DeleteGroupCall i))"
| "mirror_group_page (AddMemberSubmit i form) = Some (GroupCall (AddMemberCall i (af_username form) (af_role form)))"
| "mirror_group_page (RemoveMemberSubmit i uid tok) = Some (GroupCall (RemoveMemberCall i uid))"
| "mirror_group_page (MemberRoleSubmit i uid form) = Some (GroupCall (UpdateRoleCall i uid (uf_role form)))"
| "mirror_group_page c = None"

fun mirror_space_page :: "space_page \<Rightarrow> api_call option" where
  "mirror_space_page (SpaceFolders i path) = Some (FileCall (ListFiles path None))"
| "mirror_space_page (SpaceDownload i path) = Some (FileCall (DownloadFile path))"
| "mirror_space_page c = None"

text \<open>The form that grants access names an account by its identifier, the API by its user name.\<close>

fun mirror_space_submit :: "tables \<Rightarrow> space_submit \<Rightarrow> api_call option" where
  "mirror_space_submit t (SpaceCreateSubmit form) =
     Some (SpaceCall (CreateSpaceCall \<lparr>csr_name = sf_name form, csr_owner_type = ''user'', csr_group_id = None\<rparr>))"
| "mirror_space_submit t (SpaceRenameSubmit i form) = Some (SpaceCall (UpdateSpaceCall (sr_name form)))"
| "mirror_space_submit t (SpaceDeleteSubmit i tok) = Some (SpaceCall DeleteSpaceCall)"
| "mirror_space_submit t (SpaceGrantSubmit i form) =
     (if ga_grantee_type form = ''group'' then Some (SpaceCall (GrantGroupCall (ga_grantee_id form) (ga_permission form)))
      else if ga_grantee_type form = ''user'' then
        map_option (\<lambda>u. SpaceCall (GrantUserCall (u_username u) (ga_permission form))) (user_of t (ga_grantee_id form))
      else None)"
| "mirror_space_submit t (SpaceUpdateAccessSubmit i form) =
     Some (SpaceCall (UpdateAccessCall (ua_grantee_type form) (ua_grantee_id form) (ua_permission form)))"
| "mirror_space_submit t (SpaceRevokeSubmit i form) = Some (SpaceCall (RevokeAccessCall (ra_grantee_type form) (ra_grantee_id form)))"

fun mirror_space_file_submit :: "space_file_submit \<Rightarrow> api_call option" where
  "mirror_space_file_submit (SpaceMkdirSubmit form) = Some (FileCall (MakeDir (new_dir_path form)))"
| "mirror_space_file_submit (SpaceRenameEntrySubmit form) = Some (FileCall (RenameFile (nf_old_path form) (renamed_path form)))"
| "mirror_space_file_submit (SpaceMoveSubmit form) = map_option (\<lambda>p. FileCall (RenameFile (vf_old_path form) p)) (moved_path form)"
| "mirror_space_file_submit (SpaceDeleteEntrySubmit form) = Some (FileCall (DeleteFile (df_path form)))"
| "mirror_space_file_submit (SpaceUploadRequest path data) = Some (FileCall (UploadFile path (Some True) data))"
| "mirror_space_file_submit c = None"

fun mirror :: "tables \<Rightarrow> page_call \<Rightarrow> api_call option" where
  "mirror t (AccountPageCall c) = mirror_account_page c"
| "mirror t (FilePageCall c) = mirror_file_page c"
| "mirror t (FileSubmitCall c) = mirror_file_submit c"
| "mirror t (GroupPageCall c) = mirror_group_page c"
| "mirror t (SpacePageCall c) = mirror_space_page c"
| "mirror t (SpaceSubmitCall c) = mirror_space_submit t c"
| "mirror t (SpaceFileSubmitCall i c) = mirror_space_file_submit c"

text \<open>
  Where a page asks for more than the API. Logins and registrations of the web interface are limited
  per address, and a registration repeats the password. A cookie with white space around the token
  would not be found by the logout. An upload to a space passes the page, but not the API, beyond
  50 MiB. Looking up the account of a grant is a call more, so the environment could make it fail.
\<close>

definition admitted :: "page_env \<Rightarrow> request \<Rightarrow> 'z web_scheme \<Rightarrow> page_call \<Rightarrow> bool" where
  "admitted P rq w pc = (case pc of
     AccountPageCall (LoginSubmit ip now form) \<Rightarrow> fst (check (attempts w) (''login:'' @ ip) 10 900 now)
   | AccountPageCall (RegisterSubmit ip now form) \<Rightarrow>
       fst (check (attempts w) (''register:'' @ ip) 5 900 now) \<and> rf_password form = rf_password_confirm form
   | AccountPageCall (LogoutSubmit tok) \<Rightarrow> (case get_cookie rq COOKIE_NAME of None \<Rightarrow> True | Some v \<Rightarrow> trim v = v)
   | SpaceSubmitCall (SpaceGrantSubmit i form) \<Rightarrow> (ga_grantee_type form = ''user'' \<longrightarrow> calm w)
   | SpaceFileSubmitCall i (SpaceUploadRequest path data) \<Rightarrow>
       (\<exists>body. data = (\<lambda>n. Inr (take n body, length body \<le> n)) \<and> length body \<le> max_upload_bytes (env_config (srv P)) \<and>
          length body \<le> hard_cap_bytes \<and> max_upload_bytes (env_config (srv P)) + 1 < 2 ^ 64)
   | _ \<Rightarrow> True)"

text \<open>The pages that count an attempt.\<close>

fun counted :: "page_call \<Rightarrow> bool" where
  "counted (AccountPageCall (LoginSubmit ip now form)) = True"
| "counted (AccountPageCall (RegisterSubmit ip now form)) = True"
| "counted c = False"

text \<open>The space a call names in its path.\<close>

fun named_space :: "page_call \<Rightarrow> string option" where
  "named_space (SpacePageCall (SpaceFolders i path)) = Some i"
| "named_space (SpacePageCall (SpaceDownload i path)) = Some i"
| "named_space (SpaceSubmitCall (SpaceRenameSubmit i form)) = Some i"
| "named_space (SpaceSubmitCall (SpaceDeleteSubmit i tok)) = Some i"
| "named_space (SpaceSubmitCall (SpaceGrantSubmit i form)) = Some i"
| "named_space (SpaceSubmitCall (SpaceUpdateAccessSubmit i form)) = Some i"
| "named_space (SpaceSubmitCall (SpaceRevokeSubmit i form)) = Some i"
| "named_space (SpaceFileSubmitCall i c) = Some i"
| "named_space c = None"

section \<open>Mirrored actions\<close>

text \<open>An answer that grants what was asked for.\<close>

definition grants :: "page \<Rightarrow> bool" where
  "grants p = (case pg_reply p of Flashed u kind msg \<Rightarrow> kind = ''success'' | JsonReply code j \<Rightarrow> code = 200
     | FileReply r \<Rightarrow> True | _ \<Rightarrow> False)"

text \<open>The account's own forms answer a success with the way on, or back to the login without the session.\<close>

definition granted :: "page_call \<Rightarrow> page \<Rightarrow> bool" where
  "granted pc p = (case pc of
     AccountPageCall c \<Rightarrow> (case pg_reply p of Flashed u kind msg \<Rightarrow> kind = ''success''
       | RedirectTo u \<Rightarrow> u = FilesUri None \<or> u = SetupUri \<or> pg_cookies p = [clear_session_cookie] | _ \<Rightarrow> False)
   | _ \<Rightarrow> grants p)"

definition granted_page :: "'e + page \<Rightarrow> bool" where
  "granted_page r = (\<exists>p. r = Inr p \<and> grants p)"

text \<open>The same state, but that more calls of the environment may have been made.\<close>

definition alike :: "'z os_scheme \<Rightarrow> 'z os_scheme \<Rightarrow> bool" where
  "alike w w' = (w'\<lparr>ticks := 0\<rparr> = w\<lparr>ticks := 0\<rparr>)"

interpretation alike: frame_rel alike
  by unfold_locales (auto simp: alike_def)

lemma alike_select: "keeps alike (select g)"
  by (auto simp: keeps_def alike_def select_def tick_def split: option.splits)

lemmas alike_rules = alike.keeps_rules keeps_sqlx alike_select

text \<open>
  The page \<open>m\<close> does what the call \<open>m'\<close> does, and grants it exactly when the call succeeds; a call that
  looks its result up again may fail in that (\<open>again\<close>).
\<close>

definition mirrors :: "bool \<Rightarrow> ('z os_scheme, 'e, page) act \<Rightarrow> ('z os_scheme, 'f, 'a) act \<Rightarrow> bool" where
  "mirrors again m m' = (\<forall>w. alike (snd (m w)) (snd (m' w)) \<and>
     ((\<exists>x. fst (m' w) = Inr x) \<longrightarrow> granted_page (fst (m w))) \<and>
     (granted_page (fst (m w)) \<and> \<not> again \<longrightarrow> (\<exists>x. fst (m' w) = Inr x)))"

lemma grants_simps [simp]:
  "\<not> grants (flash_error u msg)" "grants (flash_success u msg)" "grants (json_ok members)" "grants (answer (FileReply res))"
  "\<not> grants (json_refusal e)" "\<not> grants no_library_json" "code \<noteq> 200 \<Longrightarrow> \<not> grants (json_error code msg)"
  by (cases e; simp add: grants_def flash_error_def flash_success_def json_ok_def answer_def json_refusal_def json_error_def
      no_library_json_def)+

lemma handler_result:
  "snd (by_handler m w) = snd (m w)" "(\<exists>x. fst (by_handler m w) = Inr x) \<longleftrightarrow> (\<exists>x. fst (m w) = Inr x)"
  by (auto simp: by_handler_def map_err_def split: prod.splits sum.splits)

lemma mirrors_handler: "mirrors b m m' \<Longrightarrow> mirrors b m (by_handler m')"
  by (simp add: mirrors_def handler_result)

text \<open>Two guards that let the same through.\<close>

definition same_guard :: "('w, 'e, 'u) act \<Rightarrow> ('w, 'f, 'u) act \<Rightarrow> bool" where
  "same_guard g g' = (\<forall>w. snd (g w) = snd (g' w) \<and> (\<forall>x. fst (g w) = Inr x \<longleftrightarrow> fst (g' w) = Inr x))"

lemma same_guard_refl: "same_guard g g"
  by (simp add: same_guard_def)

lemma same_guardE:
  assumes "same_guard g g'"
  obtains (refused) e e' w1 where "g w = (Inl e, w1)" "g' w = (Inl e', w1)"
        | (passed) x w1 where "g w = (Inr x, w1)" "g' w = (Inr x, w1)"
proof -
  obtain r w1 r' where run: "g w = (r, w1)" "g' w = (r', w1)" and r: "\<forall>x. r = Inr x \<longleftrightarrow> r' = Inr x"
    using assms unfolding same_guard_def by (metis prod.collapse)
  show ?thesis
  proof (cases r)
    case (Inl e)
    then show ?thesis using r run refused by (cases r') auto
  next
    case (Inr x)
    then show ?thesis using r run passed by auto
  qed
qed

lemma same_guard_bind:
  assumes "same_guard g g'" "\<And>x. same_guard (k x) (k' x)"
  shows "same_guard (bind g k) (bind g' k')"
proof -
  have "snd (bind g k w) = snd (bind g' k' w) \<and> (\<forall>x. fst (bind g k w) = Inr x \<longleftrightarrow> fst (bind g' k' w) = Inr x)" for w
    using assms(2) unfolding same_guard_def by (cases rule: same_guardE [OF assms(1), of w]) (auto simp: bind_def)
  then show ?thesis by (simp add: same_guard_def)
qed

lemma same_guard_reject: "same_guard (reject_if b e) (reject_if b e')"
  by (simp add: same_guard_def)

lemma mirrors_guarded:
  assumes g: "same_guard g g'" and k: "\<And>x w w1. g' w = (Inr x, w1) \<Longrightarrow> mirrors b (k x) (k' x)"
  shows "mirrors b (bind g k) (with_guard g' k')"
proof -
  have "alike (snd (bind g k w)) (snd (with_guard g' k' w)) \<and>
    ((\<exists>x. fst (with_guard g' k' w) = Inr x) \<longrightarrow> granted_page (fst (bind g k w))) \<and>
    (granted_page (fst (bind g k w)) \<and> \<not> b \<longrightarrow> (\<exists>x. fst (with_guard g' k' w) = Inr x))" for w
    using g
  proof (cases rule: same_guardE [where w = w])
    case refused
    then show ?thesis by (simp add: bind_def with_guard_def granted_page_def alike.R_refl)
  next
    case (passed x w1)
    then have "mirrors b (k x) (by_handler (k' x))" using k mirrors_handler by blast
    then show ?thesis using passed by (simp add: bind_def with_guard_def mirrors_def)
  qed
  then show ?thesis by (simp add: mirrors_def)
qed

lemma mirrors_attempt:
  "(\<And>r. grants (f r) \<longleftrightarrow> (\<exists>x. r = Inr x)) \<Longrightarrow> mirrors b (bind (attempt m) (\<lambda>r. ret (f r))) m"
  by (auto simp: mirrors_def granted_page_def alike.R_refl)

lemma mirrors_attempt_ret:
  "(\<And>r. grants (f r) \<longleftrightarrow> (\<exists>x. r = Inr x)) \<Longrightarrow> mirrors b (bind (attempt m) (\<lambda>r. ret (f r))) (bind m (\<lambda>x. ret (g x)))"
  by (auto simp: mirrors_def granted_page_def alike.R_refl bind_def attempt_def split: prod.splits sum.splits)

lemma mirrors_again:
  assumes "\<And>r. grants (f r) \<longleftrightarrow> (\<exists>x. r = Inr x)" "\<And>x. keeps alike (k x)"
  shows "mirrors True (bind (attempt m) (\<lambda>r. ret (f r))) (bind m k)"
  using assms unfolding mirrors_def keeps_def
  by (auto simp: granted_page_def alike.R_refl bind_def attempt_def split: prod.splits sum.splits)

lemma mirrors_json: "(\<And>x. grants (f x)) \<Longrightarrow> mirrors b (json_result m f) m"
  unfolding json_result_def by (rule mirrors_attempt) (simp split: sum.splits)

lemma mirrors_json_ret: "(\<And>x. grants (f x)) \<Longrightarrow> mirrors b (json_result m f) (bind m (\<lambda>x. ret (g x)))"
  unfolding json_result_def by (rule mirrors_attempt_ret) (simp split: sum.splits)

lemma mirrors_gets: "(\<And>x. mirrors b (k x) (k' x)) \<Longrightarrow> mirrors b (bind (gets f) k) (bind (gets f) k')"
  by (simp add: mirrors_def)

lemma mirrors_gets_right: "(\<And>x. mirrors b m (k' x)) \<Longrightarrow> mirrors b m (bind (gets f) k')"
  by (simp add: mirrors_def)

lemma mirrors_library:
  assumes "\<And>lib. mirrors b (h lib) (h' lib)" "\<not> grants missing"
  shows "mirrors b (on_library user missing h) (bind (require_library (u_id user)) h')"
proof -
  have "alike (snd (on_library user missing h w)) (snd (bind (require_library (u_id user)) h' w)) \<and>
    ((\<exists>x. fst (bind (require_library (u_id user)) h' w) = Inr x) \<longrightarrow> granted_page (fst (on_library user missing h w))) \<and>
    (granted_page (fst (on_library user missing h w)) \<and> \<not> b \<longrightarrow> (\<exists>x. fst (bind (require_library (u_id user)) h' w) = Inr x))" for w
    using assms by (cases "require_library (u_id user) w"; cases "fst (require_library (u_id user) w)")
      (auto simp: on_library_def bind_def attempt_def mirrors_def granted_page_def alike.R_refl)
  then show ?thesis by (simp add: mirrors_def)
qed

lemma with_body_gets:
  "with_body data n failure big (\<lambda>bytes. bind (gets g) (k bytes)) = bind (gets g) (\<lambda>u. with_body data n failure big (\<lambda>bytes. k bytes u))"
  by (auto simp: with_body_def fun_eq_iff split: sum.splits)

lemma mirrors_body:
  "(\<And>bytes. mirrors b (h bytes) (h' bytes)) \<Longrightarrow>
    mirrors b (with_body data n failure big h) (bind (lift (read_body data n failure' e)) h')"
  by (auto simp: with_body_def read_body_def mirrors_def granted_page_def alike.R_refl split: sum.splits)

lemma mirrors_form: "validate_csrf rq tok = Inr () \<Longrightarrow> mirrors b act m \<Longrightarrow> mirrors b (checked_form rq tok back act) m"
  by (simp add: checked_form_def)

lemma mirrors_xhr: "csrf_xhr rq = Inr () \<Longrightarrow> mirrors b (k ()) m \<Longrightarrow> mirrors b (bind (csrf_guard rq) k) m"
  by (simp add: csrf_guard_def)

section \<open>Callers\<close>

text \<open>The request of a page and the request of the API come from the same caller, about the same space.\<close>

definition same_caller :: "request \<Rightarrow> request \<Rightarrow> bool" where
  "same_caller rq rq' = (extract_cookie_token rq = extract_bearer_token rq' \<and> extract_space_id rq = extract_space_id rq')"

lemma same_user: "same_caller rq rq' \<Longrightarrow>
    same_guard (page_user P rq) (setup_complete_user (env_ext (srv P)) (env_crypto (srv P)) rq')"
  unfolding page_user_def session_setup_complete_def setup_complete_user_def session_user_def authenticated_user_def same_caller_def
  by (intro same_guard_bind) (simp_all add: same_guard_refl same_guard_reject)

lemma same_space:
  "same_caller rq rq' \<Longrightarrow> same_guard (page_space P rq level) (space_guard (env_ext (srv P)) (env_crypto (srv P)) rq' level)"
  unfolding page_space_def session_space_guard_def space_guard_def page_user_def [symmetric]
  by (intro same_guard_bind same_user) (simp_all add: same_guard_refl check_space_permission_def same_caller_def)

lemma mirrors_user_form:
  assumes "same_caller rq rq'" "validate_csrf rq tok = Inr ()" "\<And>uid. mirrors b (h uid) (h' uid)"
  shows "mirrors b (user_form P rq tok back h) (by_user (srv P) rq' h')"
  unfolding user_form_def by_user_def by (intro mirrors_guarded same_user mirrors_form assms)

lemma mirrors_library_page:
  assumes "same_caller rq rq'" "\<not> grants missing"
  shows "(\<And>user lib u. mirrors b (h user lib) (h' user lib u)) \<Longrightarrow>
      mirrors b (bind (page_user P rq) (\<lambda>user. on_library user missing (h user))) (library_handler (srv P) rq' h')"
    "(\<And>user lib u. mirrors b (k user lib u) (h' user lib u)) \<Longrightarrow>
      mirrors b (bind (page_user P rq) (\<lambda>user. on_library user missing (\<lambda>lib. bind (gets unlocked) (k user lib))))
        (library_handler (srv P) rq' h')"
  unfolding library_handler_def
  by (intro mirrors_guarded same_user mirrors_library mirrors_gets_right assms; assumption)
    (intro mirrors_guarded same_user mirrors_library mirrors_gets assms; assumption)

lemma mirrors_library_form:
  assumes "same_caller rq rq'" "validate_csrf rq tok = Inr ()" "\<And>user lib u. mirrors b (h lib) (h' user lib u)"
  shows "mirrors b (library_form P rq tok back h) (library_handler (srv P) rq' h')"
  unfolding library_form_def library_handler_def
  by (intro mirrors_guarded same_user mirrors_form mirrors_library mirrors_gets_right grants_simps(1) assms)

lemma mirrors_library_xhr:
  assumes "same_caller rq rq'" "csrf_xhr rq = Inr ()" "\<not> grants missing"
  shows "(\<And>user lib u. mirrors b (h user lib) (h' user lib u)) \<Longrightarrow>
      mirrors b (library_xhr P rq missing h) (library_handler (srv P) rq' h')"
    "(\<And>user lib u. mirrors b (k user lib u) (h' user lib u)) \<Longrightarrow>
      mirrors b (library_xhr P rq missing (\<lambda>user lib. bind (gets unlocked) (k user lib))) (library_handler (srv P) rq' h')"
  unfolding library_xhr_def
  by (intro mirrors_xhr mirrors_library_page(1) assms; assumption)
    (intro mirrors_xhr mirrors_library_page(2) assms; assumption)

lemma mirrors_space_page:
  assumes "same_caller rq rq'" "extract_space_id rq = Some i"
    and "\<And>user m. s_id (sw_space m) = i \<Longrightarrow> mirrors b (h user m) (h' user m)"
  shows "mirrors b (bind (page_space P rq (level_of p)) (\<lambda>(user, m). h user m))
    (with_guard (space_guard (env_ext (srv P)) (env_crypto (srv P)) rq' (level_of p)) (\<lambda>(user, m). h' user m))"
proof (intro mirrors_guarded same_space assms(1))
  fix x and w w1 :: "'a world_scheme"
  assume run: "space_guard (env_ext (srv P)) (env_crypto (srv P)) rq' (level_of p) w = (Inr x, w1)"
  obtain user m where x: "x = (user, m)" by fastforce
  have "s_id (sw_space m) = i"
    using space_guard_run [OF run [unfolded x]] assms(1,2) by (auto simp: same_caller_def)
  then show "mirrors b (case x of (user, m) \<Rightarrow> h user m) (case x of (user, m) \<Rightarrow> h' user m)"
    using assms(3) by (simp add: x)
qed

lemma mirrors_space_form:
  assumes "same_caller rq rq'" "extract_space_id rq = Some i" "validate_csrf rq tok = Inr ()"
    and "\<And>user m. s_id (sw_space m) = i \<Longrightarrow> mirrors b (h (u_id user)) (h' user m)"
  shows "mirrors b (space_form P rq (level_of p) tok back h)
    (with_guard (space_guard (env_ext (srv P)) (env_crypto (srv P)) rq' (level_of p)) (\<lambda>(user, m). h' user m))"
  unfolding space_form_def by (rule mirrors_space_page [OF assms(1,2)]) (intro mirrors_form assms(3,4))

lemma level_names: "LEVEL_READ = level_of Read" "LEVEL_WRITE = level_of Write" "LEVEL_ADMIN = level_of Admin"
  by (simp_all add: level_of_def)

lemma by_admin_level:
  "by_admin V rq h = with_guard (space_guard (env_ext V) (env_crypto V) rq (level_of Admin)) (\<lambda>(user, m). h user m)"
  by (simp add: by_admin_def space_admin_def level_of_def)

section \<open>Every mirrored call\<close>

definition mirrored :: "bool \<Rightarrow> 'z served \<Rightarrow> ('z web_scheme, nat \<times> app_error, unit) act \<Rightarrow> bool" where
  "mirrored again s m = (\<forall>w. alike (snd (s w)) (snd (m w)) \<and>
     (fst (m w) = Inr () \<longrightarrow> (\<exists>p. fst (s w) = Inr (Some p) \<and> grants p)) \<and>
     (\<not> again \<and> (\<exists>p. fst (s w) = Inr (Some p) \<and> grants p) \<longrightarrow> fst (m w) = Inr ()))"

lemma mirroredI:
  assumes "mirrors b m m'"
  shows "mirrored b (some_page m) (unit_of m')"
proof -
  have "snd (some_page m w) = snd (m w)" "snd (unit_of m' w) = snd (m' w)"
    "(\<exists>p. fst (some_page m w) = Inr (Some p) \<and> grants p) \<longleftrightarrow> granted_page (fst (m w))"
    "fst (unit_of m' w) = Inr () \<longleftrightarrow> (\<exists>x. fst (m' w) = Inr x)" for w
    by (auto simp: some_page_def unit_of_def granted_page_def bind_def split: prod.splits sum.splits)
  then show ?thesis using assms by (simp add: mirrored_def mirrors_def)
qed

lemmas mirror_rules = mirroredI mirrors_json mirrors_json_ret mirrors_attempt mirrors_attempt_ret mirrors_again mirrors_body

lemma grants_no_library [simp]: "\<not> grants no_library_json"
  by (simp add: no_library_json_def)

lemma mirrored_file_page:
  assumes c: "same_caller rq rq'" and "mirror_file_page fc \<noteq> None"
  shows "mirrored False (serve_file_page P rq fc) (serve_api (srv P) rq' (the (mirror_file_page fc)))"
  using assms(2)
proof (cases fc)
  case (FilesFolders path)
  show ?thesis
    unfolding FilesFolders mirror_file_page.simps option.sel serve_file_page.simps serve_api.simps serve_library.simps files_folders_def
      library_list_def Let_def
    by (intro mirroredI mirrors_library_page(2) c; simp; intro mirrors_json_ret; simp add: folders_json_def)
next
  case (FileDownload path)
  show ?thesis
    unfolding FileDownload mirror_file_page.simps option.sel serve_file_page.simps serve_api.simps serve_library.simps
      page_download_file_def library_download_def
    by (intro mirroredI mirrors_library_page(2) c mirrors_attempt_ret) (simp_all split: sum.splits)
next
  case (FileInitDownload path)
  show ?thesis
    unfolding FileInitDownload mirror_file_page.simps option.sel serve_file_page.simps serve_api.simps serve_chunked.simps
      page_init_download_def chunked_init_download_def
    by (intro mirroredI mirrors_library_page(2) c mirrors_json) simp_all
next
  case (FileDownloadChunk tok n)
  show ?thesis
    unfolding FileDownloadChunk mirror_file_page.simps option.sel serve_file_page.simps serve_api.simps serve_chunked.simps
      page_download_chunk_def chunked_download_chunk_def
    by (intro mirroredI mirrors_guarded same_user c mirrors_gets mirrors_json_ret) simp
qed simp_all

text \<open>A call that carries the token of the browser's cookie.\<close>

definition honest :: "request \<Rightarrow> string option \<Rightarrow> bool" where
  "honest rq given = (\<exists>tok. given = Some tok \<and> tok \<noteq> [] \<and> get_cookie rq CSRF_COOKIE = Some tok)"

lemma honest_form: "honest rq (Some tok) \<Longrightarrow> validate_csrf rq tok = Inr ()"
  by (simp add: honest_def validate_csrf_iff)

lemma honest_xhr: "honest rq (get_header rq ''X-CSRF-Token'') \<Longrightarrow> csrf_xhr rq = Inr ()"
  by (auto simp: honest_def csrf_xhr_iff)

lemma moved_pathD: "moved_path form = Some p \<Longrightarrow> file_name_from_path (vf_old_path form) \<noteq> [] \<and>
    p = join_dir_and_name (normalize_dir_path (vf_target_dir form)) (file_name_from_path (vf_old_path form))"
  by (auto simp: moved_path_def Let_def split: if_splits)

lemma mirrored_move:
  assumes "same_caller rq rq'" "moved_path form = Some p" "honest rq (Some (vf_csrf_token form))"
  shows "mirrored False (some_page (move_submit P rq form)) (unit_of (library_rename (srv P) rq' (vf_old_path form) p))"
  unfolding move_submit_def library_rename_def Let_def if_not_P [OF conjunct1 [OF moved_pathD [OF assms(2)]]]
    conjunct2 [OF moved_pathD [OF assms(2)]]
  by (intro mirroredI mirrors_library_form assms(1) honest_form [OF assms(3)] mirrors_attempt_ret)
    (simp split: sum.splits app_error.splits)

lemma mirrored_file_submit:
  assumes c: "same_caller rq rq'" and "mirror_file_submit fc = Some a" and t: "honest rq (file_token rq fc)"
  shows "mirrored False (serve_file_submit P rq fc) (serve_api (srv P) rq' a)"
proof (cases "\<exists>form. fc = MoveSubmit form")
  case True
  then show ?thesis using assms mirrored_move by auto
next
  case False
  note start = c honest_form honest_xhr grants_no_library mirroredI mirrors_library_form mirrors_library_xhr(2,1) mirrors_body
  show ?thesis using False assms(2) t
    by (cases fc; (simp; fail)?; simp only: mirror_file_submit.simps option.inject option.distinct file_token.simps; hypsubst?;
        simp only: serve_file_submit.simps serve_api.simps serve_library.simps serve_chunked.simps mkdir_submit_def library_mkdir_def
          new_dir_path_def rename_submit_def library_rename_def renamed_path_def delete_submit_def library_delete_def
          page_upload_file_def library_upload_def with_body_gets read_upload_def hard_cap_bytes_def
          page_init_upload_def chunked_init_upload_def init_chunk_upload_request.simps page_receive_chunk_def chunked_receive_chunk_def
          with_chunk_def read_chunk_def page_complete_upload_def chunked_complete_upload_def page_cancel_upload_def
          chunked_cancel_upload_def Let_def option.distinct;
        intro start; (intro mirrors_json_ret mirrors_attempt_ret)?; simp split: sum.splits app_error.splits)
qed

lemma alike_group_reads: "keeps alike (get_group uid i)" "keeps alike (list_members uid i)"
  unfolding get_group_def group_find_for_user_def list_members_def require_member_def is_member_def member_find_def
    member_list_with_details_def
  by (intro alike_rules)+

lemma alike_get_space: "keeps alike (get_space uid sid)"
  unfolding get_space_def space_find_for_user_def by (intro alike_rules)

text \<open>
  The calls whose page may report success when the call fails: those that look their result up again
  before they answer, the logout, after which the page forgets the session in any case, and the setup
  of an account that is set up, which the page takes for done.
\<close>

fun looks_again :: "api_call \<Rightarrow> bool" where
  "looks_again (GroupCall (UpdateGroupCall i name d)) = True"
| "looks_again (GroupCall (AddMemberCall i name role)) = True"
| "looks_again (GroupCall (UpdateRoleCall i uid role)) = True"
| "looks_again (SpaceCall (UpdateSpaceCall name)) = True"
| "looks_again (AccountCall LogoutCall) = True"
| "looks_again (AccountCall SetupLibraryCall) = True"
| "looks_again c = False"

lemma mirrored_group_page:
  assumes c: "same_caller rq rq'" and "mirror_group_page gc = Some a" and t: "honest rq (group_token gc)"
  shows "mirrored (looks_again a) (serve_group_page P rq gc) (serve_api (srv P) rq' a)"
proof -
  note start = c honest_form mirroredI mirrors_user_form and reads = alike_rules alike_group_reads
  show ?thesis using assms(2) t
    by (cases gc; simp only: mirror_group_page.simps option.inject option.distinct group_token.simps; hypsubst?;
        simp only: looks_again.simps serve_group_page.simps serve_api.simps serve_groups.simps groups_create_submit_def api_create_group_def
          group_edit_submit_def api_update_group_def group_delete_submit_def api_delete_group_def group_add_member_submit_def api_add_member_def
          group_remove_member_submit_def api_remove_member_def group_update_member_role_submit_def api_update_member_role_def;
        intro start; (intro mirrors_attempt_ret | intro mirrors_again reads)?; simp split: sum.splits app_error.splits)
qed

section \<open>Spaces\<close>

lemma mirrors_space_look:
  assumes "same_caller rq rq'" "extract_space_id rq = Some i" "\<And>user m. s_id (sw_space m) = i \<Longrightarrow> mirrors b h (h' user m)"
  shows "mirrors b (bind (page_space P rq (level_of p)) (\<lambda>_. h))
    (with_guard (space_guard (env_ext (srv P)) (env_crypto (srv P)) rq' (level_of p)) (\<lambda>(user, m). h' user m))"
  using mirrors_space_page [OF assms(1,2), of b "\<lambda>_ _. h" h' P p] assms(3) by (simp add: case_prod_beta')

lemma grants_folders [simp]: "grants (folders_json p es)"
  by (simp add: folders_json_def)

text \<open>On a space named in the path, the guard's space is the one of the handler.\<close>

lemma space_form_steps:
  assumes "same_caller rq rq'" "extract_space_id rq = Some i" "honest rq (Some tok)"
    and "\<And>user m. s_id (sw_space m) = i \<Longrightarrow> mirrors b (h (u_id user)) (h' user m)"
  shows "mirrored b (some_page (space_form P rq LEVEL_ADMIN tok back h)) (unit_of (by_admin (srv P) rq' h'))"
    "mirrored b (some_page (space_form P rq LEVEL_WRITE tok back h)) (unit_of (by_writer (srv P) rq' h'))"
  unfolding by_admin_level by_level level_names
  by (rule mirroredI, rule mirrors_space_form, rule assms, rule assms, rule honest_form, rule assms, rule assms, assumption)+

lemma space_look_steps:
  assumes "same_caller rq rq'" "extract_space_id rq = Some i" "\<And>user m. s_id (sw_space m) = i \<Longrightarrow> mirrors b h (h' user m)"
  shows "mirrored b (some_page (bind (page_space P rq LEVEL_READ) (\<lambda>_. h))) (unit_of (by_reader (srv P) rq' h'))"
  unfolding by_level level_names by (rule mirroredI, rule mirrors_space_look, rule assms, rule assms, rule assms, assumption)

lemma mirrored_space_page:
  assumes "same_caller rq rq'" "mirror_space_page sc = Some a" "\<forall>i. named_space (SpacePageCall sc) = Some i \<longrightarrow> extract_space_id rq = Some i"
  shows "mirrored False (serve_space_page P rq sc) (serve_api (srv P) rq' a)"
proof (cases sc)
  case (SpaceFolders i path)
  then have a: "a = FileCall (ListFiles path None)" and i: "extract_space_id rq = Some i" using assms by simp_all
  show ?thesis unfolding SpaceFolders a serve_space_page.simps serve_api.simps serve_space_files.simps space_folders_def api_list_files_def Let_def
    by (rule space_look_steps [OF assms(1) i]) (simp, intro mirrors_gets mirrors_attempt_ret, simp split: sum.splits)
next
  case (SpaceDownload i path)
  then have a: "a = FileCall (DownloadFile path)" and i: "extract_space_id rq = Some i" using assms by simp_all
  show ?thesis unfolding SpaceDownload a serve_space_page.simps serve_api.simps serve_space_files.simps page_space_download_def api_download_def
    by (rule space_look_steps [OF assms(1) i]) (simp, intro mirrors_gets mirrors_attempt_ret, simp split: sum.splits)
qed (use assms in simp_all)

lemma mirrored_create_space:
  assumes "same_caller rq rq'" "honest rq (Some (sf_csrf_token form))"
  shows "mirrored False (some_page (spaces_create_submit P rq form))
    (unit_of (api_create_space (srv P) rq' \<lparr>csr_name = sf_name form, csr_owner_type = ''user'', csr_group_id = None\<rparr>))"
  unfolding spaces_create_submit_def api_create_space_def user_form_def
  by (intro mirroredI mirrors_guarded same_user mirrors_form honest_form assms; simp; intro mirrors_attempt_ret;
      simp split: sum.splits app_error.splits)

lemma mirrored_space_submit:
  assumes c: "same_caller rq rq'" and a: "mirror_space_submit ts sc = Some a" and t: "honest rq (space_token sc)"
    and no_user: "\<forall>i form. sc = SpaceGrantSubmit i form \<longrightarrow> ga_grantee_type form \<noteq> ''user''"
    and i: "\<forall>i. named_space (SpaceSubmitCall sc) = Some i \<longrightarrow> extract_space_id rq = Some i"
  shows "mirrored (looks_again a) (serve_space_submit P rq sc) (serve_api (srv P) rq' a)"
proof (cases sc)
  case (SpaceCreateSubmit form)
  then show ?thesis using mirrored_create_space [OF c] a t by auto
next
  case (SpaceRenameSubmit i form)
  then show ?thesis using assms by (auto simp: space_rename_submit_def api_update_space_def Let_def
      intro!: space_form_steps(1) [OF c _ t [unfolded SpaceRenameSubmit space_token.simps]] mirrors_again alike_rules alike_get_space
      split: sum.splits app_error.splits)
next
  case (SpaceDeleteSubmit i tok)
  then show ?thesis using assms by (auto simp: space_delete_submit_def api_delete_space_def
      intro!: space_form_steps(1) [OF c _ t [unfolded SpaceDeleteSubmit space_token.simps]] mirrors_attempt_ret split: sum.splits)
next
  case (SpaceGrantSubmit i form)
  then show ?thesis using assms by (auto simp: space_grant_access_submit_def api_grant_group_access_def grant_to_def Let_def
      intro!: space_form_steps(1) [OF c _ t [unfolded SpaceGrantSubmit space_token.simps]] mirrors_attempt
      split: sum.splits app_error.splits if_splits)
next
  case (SpaceUpdateAccessSubmit i form)
  then show ?thesis using assms by (auto simp: space_update_access_submit_def api_update_access_def Let_def
      intro!: space_form_steps(1) [OF c _ t [unfolded SpaceUpdateAccessSubmit space_token.simps]] mirrors_attempt
      split: sum.splits app_error.splits)
next
  case (SpaceRevokeSubmit i form)
  then show ?thesis using assms by (auto simp: space_revoke_access_submit_def api_revoke_access_def Let_def
      intro!: space_form_steps(1) [OF c _ t [unfolded SpaceRevokeSubmit space_token.simps]] mirrors_attempt_ret split: sum.splits)
qed

lemma mirrored_space_move:
  assumes "same_caller rq rq'" "extract_space_id rq = Some i" "moved_path form = Some p" "honest rq (Some (vf_csrf_token form))"
  shows "mirrored False (some_page (space_move_entry_submit P rq i form)) (unit_of (api_rename_file (srv P) rq' (vf_old_path form) p))"
  unfolding space_move_entry_submit_def api_rename_file_def Let_def if_not_P [OF conjunct1 [OF moved_pathD [OF assms(3)]]]
    conjunct2 [OF moved_pathD [OF assms(3)]]
  by (rule space_form_steps(2) [OF assms(1,2,4)]) (simp, intro mirrors_attempt_ret, simp split: sum.splits app_error.splits)

lemma body_fits:
  assumes "data = (\<lambda>n. Inr (take n body, length body \<le> n))" "length body \<le> m" "m + 1 < 2 ^ 64" "length body \<le> hard_cap_bytes"
  shows "with_body data ((m + 1) mod 2 ^ 64) failure big h = h body"
    "max_upload_bytes config = m \<Longrightarrow> read_upload config data = Inr body"
proof -
  have "(m + 1) mod 2 ^ 64 = m + 1" using assms(3) by (rule mod_less)
  then show "with_body data ((m + 1) mod 2 ^ 64) failure big h = h body"
    using assms(2) unfolding with_body_def assms(1) by simp
  show "max_upload_bytes config = m \<Longrightarrow> read_upload config data = Inr body"
    using assms(2,4) by (simp add: read_upload_def read_body_def assms(1) Let_def)
qed

lemma mirrored_space_upload:
  assumes c: "same_caller rq rq'" and i: "extract_space_id rq = Some i" and t: "csrf_xhr rq = Inr ()"
    and fits: "admitted P rq w (SpaceFileSubmitCall i (SpaceUploadRequest path data))"
  shows "mirrored False (some_page (page_space_upload P rq i path data)) (unit_of (api_upload (srv P) rq' path (Some True) data))"
proof -
  let ?config = "env_config (srv P)"
  obtain body where "data = (\<lambda>n. Inr (take n body, length body \<le> n))" "length body \<le> max_upload_bytes ?config"
      "length body \<le> hard_cap_bytes" "max_upload_bytes ?config + 1 < 2 ^ 64"
    using fits by (auto simp: admitted_def)
  note body = body_fits [OF this(1,2,4,3)]
  show ?thesis
    unfolding page_space_upload_def api_upload_def space_xhr_def by_level level_names Let_def body(1) body(2) [OF refl]
    by (rule mirroredI, rule mirrors_xhr [OF t], rule mirrors_space_page [OF c i])
      (simp only: bind_simps simp_thms, rule mirrors_gets, rule mirrors_json_ret, simp)
qed

lemma mirrored_space_file_submit:
  assumes c: "same_caller rq rq'" and "mirror_space_file_submit fc = Some a" and t: "honest rq (space_file_token rq fc)"
    and i: "extract_space_id rq = Some i" and fits: "admitted P rq w (SpaceFileSubmitCall i fc)"
  shows "mirrored False (serve_space_file_submit P rq i fc) (serve_api (srv P) rq' a)"
proof (cases fc)
  case (SpaceUploadRequest path data)
  then show ?thesis using mirrored_space_upload [OF c i honest_xhr] fits assms(2) t by auto
next
  case (SpaceMkdirSubmit form)
  then show ?thesis using assms by (auto simp: space_mkdir_submit_def api_mkdir_def Let_def new_dir_path_def
      intro!: space_form_steps(2) [OF c i] mirrors_attempt_ret split: sum.splits app_error.splits)
next
  case (SpaceRenameEntrySubmit form)
  then show ?thesis using assms by (auto simp: space_rename_entry_submit_def api_rename_file_def Let_def renamed_path_def
      intro!: space_form_steps(2) [OF c i] mirrors_attempt_ret split: sum.splits app_error.splits)
next
  case (SpaceMoveSubmit form)
  then show ?thesis using assms mirrored_space_move [OF c i] by auto
next
  case (SpaceDeleteEntrySubmit form)
  then show ?thesis using assms by (auto simp: space_delete_entry_submit_def api_delete_file_def Let_def
      intro!: space_form_steps(2) [OF c i] mirrors_attempt_ret split: sum.splits)
qed (use assms in simp_all)

section \<open>Accounts\<close>

definition agrees :: "(page \<Rightarrow> bool) \<Rightarrow> bool \<Rightarrow> 'z web_scheme \<times> (nat \<times> app_error + page option) \<Rightarrow> 'z web_scheme \<times> (nat \<times> app_error + unit) \<Rightarrow> bool" where
  "agrees gr again s m = (alike (fst s) (fst m) \<and> (snd m = Inr () \<longrightarrow> (\<exists>p. snd s = Inr (Some p) \<and> gr p)) \<and>
     (\<not> again \<and> (\<exists>p. snd s = Inr (Some p) \<and> gr p) \<longrightarrow> snd m = Inr ()))"

lemma some_page_run: "m w = (r, w') \<Longrightarrow> some_page m w = (map_sum id Some r, w')"
  by (auto simp: some_page_def bind_def split: sum.splits)

lemma unit_of_run: "m w = (r, w') \<Longrightarrow> unit_of m w = (map_sum id (\<lambda>_. ()) r, w')"
  by (auto simp: unit_of_def bind_def split: sum.splits)

lemma by_handler_run: "m w = (r, w') \<Longrightarrow> by_handler m w = (map_sum refuse id r, w')"
  by (auto simp: by_handler_def map_err_def split: sum.splits)

lemma honest_checked: "honest rq (Some tok) \<Longrightarrow> checked_form rq tok back m = m"
  using honest_form [of rq tok] by (simp add: checked_form_def)

lemma rate_passed:
  "check (attempts w) key m win now = (True, a) \<Longrightarrow>
   bind (rate_check key m win now) (\<lambda>ok. if \<not> ok then x else k) w = k (w\<lparr>attempts := a\<rparr>)"
  by (simp add: bind_def rate_check_def split_def)

lemma login_agrees:
  fixes w :: "'z web_scheme"
  assumes t: "honest rq (Some (lf_csrf_token form))" and ok: "admitted P rq w (AccountPageCall (LoginSubmit ip now form))"
    and run: "serve_account_page P rq (LoginSubmit ip now form) w = (r, w1)"
      "serve_account (srv P) rq' (LoginCall (lf_username form) (lf_password form)) w = (r', w2)"
  shows "agrees (granted (AccountPageCall (LoginSubmit ip now form))) False (w1\<lparr>attempts := attempts w\<rparr>, r) (w2, r')"
proof -
  let ?login = "login (env_ext (srv P)) (env_crypto (srv P)) (env_tools (srv P)) (env_argon2 (srv P)) (env_config (srv P))
      (lf_username form) (lf_password form)"
  obtain x v where l: "?login w = (x, v)" by fastforce
  have l': "?login (w\<lparr>attempts := a\<rparr>) = (x, v\<lparr>attempts := a\<rparr>)" for a
    using unseenD [OF limiter.account_requests(1) TrueI l] by simp
  have keep: "v\<lparr>attempts := attempts w\<rparr> = v" using l' [of "attempts w"] l by simp
  obtain a where pass: "check (attempts w) (''login:'' @ ip) 10 900 now = (True, a)"
    using ok by (cases "check (attempts w) (''login:'' @ ip) 10 900 now") (simp add: admitted_def)
  have page: "login_submit P rq ip now form w = (Inr (case x of
         Inr r \<Rightarrow> \<lparr>pg_cookies = [set_session_cookie (lr_token r)],
                  pg_reply = RedirectTo (if lr_setup_complete r then FilesUri None else SetupUri)\<rparr>
       | Inl e \<Rightarrow> flash_error LoginUri ''Invalid username or password.''), v\<lparr>attempts := a\<rparr>)"
    unfolding login_submit_def honest_checked [OF t] rate_passed [OF pass] by (simp add: l')
  have api: "\<exists>y. api_login (srv P) (lf_username form) (lf_password form) w = (map_sum refuse y x, v)"
    using l by (cases x) (auto simp: api_login_def by_handler_def map_err_def bind_def)
  obtain y where y: "api_login (srv P) (lf_username form) (lf_password form) w = (map_sum refuse y x, v)" using api by blast
  show ?thesis
    using run some_page_run [where m = "login_submit P rq ip now form" and w = w, OF page] unit_of_run [where m = "api_login (srv P) (lf_username form) (lf_password form)" and w = w, OF y] keep
    by (cases x) (auto simp: agrees_def alike_def granted_def flash_error_def answer_def)
qed

lemma register_agrees:
  fixes w :: "'z web_scheme"
  assumes t: "honest rq (Some (rf_csrf_token form))" and ok: "admitted P rq w (AccountPageCall (RegisterSubmit ip now form))"
    and run: "serve_account_page P rq (RegisterSubmit ip now form) w = (r, w1)"
      "serve_account (srv P) rq' (RegisterCall (rf_username form) (rf_email form) (rf_password form)) w = (r', w2)"
  shows "agrees (granted (AccountPageCall (RegisterSubmit ip now form))) False (w1\<lparr>attempts := attempts w\<rparr>, r) (w2, r')"
proof -
  let ?register = "register (env_argon2 (srv P)) (env_config (srv P)) (rf_username form) (rf_email form) (rf_password form)"
  obtain x v where l: "?register w = (x, v)" by fastforce
  have l': "?register (w\<lparr>attempts := a\<rparr>) = (x, v\<lparr>attempts := a\<rparr>)" for a
    using unseenD [OF limiter.account_requests(2) TrueI l] by simp
  have keep: "v\<lparr>attempts := attempts w\<rparr> = v" using l' [of "attempts w"] l by simp
  obtain a where pass: "check (attempts w) (''register:'' @ ip) 5 900 now = (True, a)"
    using ok by (cases "check (attempts w) (''register:'' @ ip) 5 900 now") (simp add: admitted_def)
  have again: "rf_password form = rf_password_confirm form" using ok by (simp add: admitted_def)
  have page: "\<exists>p. register_submit P rq ip now form w = (Inr p, v\<lparr>attempts := a\<rparr>) \<and>
      granted (AccountPageCall (RegisterSubmit ip now form)) p = (\<not> isl x)"
    unfolding register_submit_def honest_checked [OF t] rate_passed [OF pass]
    using again by (cases x) (auto simp: l' [unfolded again] granted_def flash_error_def flash_success_def answer_def split: app_error.splits)
  have api: "\<exists>y. api_register (srv P) (rf_username form) (rf_email form) (rf_password form) w = (map_sum refuse y x, v)"
    using l by (cases x) (auto simp: api_register_def by_handler_def map_err_def bind_def)
  obtain p where p: "register_submit P rq ip now form w = (Inr p, v\<lparr>attempts := a\<rparr>)"
      "granted (AccountPageCall (RegisterSubmit ip now form)) p = (\<not> isl x)"
    using page by blast
  obtain y where y: "api_register (srv P) (rf_username form) (rf_email form) (rf_password form) w = (map_sum refuse y x, v)"
    using api by blast
  show ?thesis
    using run some_page_run [where m = "register_submit P rq ip now form" and w = w, OF p(1)] unit_of_run [where m = "api_register (srv P) (rf_username form) (rf_email form) (rf_password form)" and w = w, OF y] keep p(2)
    by (cases x) (auto simp: agrees_def alike_def)
qed

lemma same_session: "same_caller rq rq' \<Longrightarrow>
    same_guard (page_session P rq) (authenticated_user (env_ext (srv P)) (env_crypto (srv P)) rq')"
  unfolding page_session_def session_user_def authenticated_user_def same_caller_def
  by (intro same_guard_bind) (simp_all add: same_guard_refl)

lemma logout_agrees:
  fixes w :: "'z web_scheme"
  assumes c: "same_caller rq rq'" and t: "honest rq (Some tok)" and ok: "admitted P rq w (AccountPageCall (LogoutSubmit tok))"
    and run: "serve_account_page P rq (LogoutSubmit tok) w = (r, w1)" "serve_account (srv P) rq' LogoutCall w = (r', w2)"
  shows "agrees (granted (AccountPageCall (LogoutSubmit tok))) True (w1, r) (w2, r')"
  using same_session [OF c, of P]
proof (cases rule: same_guardE [where w = w])
  case (refused e e' v)
  then show ?thesis using run honest_form [OF t]
    by (auto simp: agrees_def alike_def logout_submit_def optional_session_def some_page_def unit_of_def api_logout_def bind_def attempt_def)
next
  case (passed u v)
  obtain raw where raw: "extract_cookie_token rq = Some raw"
    using passed(1) by (cases "extract_cookie_token rq") (auto simp: page_session_def session_user_def)
  then obtain c where cookie: "get_cookie rq COOKIE_NAME = Some c" "raw = trim c"
    by (auto simp: extract_cookie_token_def Let_def split: option.splits if_splits)
  have same: "raw = c" "extract_bearer_token rq' = Some raw"
    using cookie ok raw assms(1) by (auto simp: admitted_def same_caller_def)
  obtain x v2 where out: "logout (u_id u) (hash_token (env_ext (srv P)) (env_crypto (srv P)) c) v = (x, v2)" by fastforce
  show ?thesis using run honest_form [OF t] passed cookie same out
    by (cases x) (auto simp: agrees_def alike_def logout_submit_def optional_session_def some_page_def unit_of_def api_logout_def
        raw_bearer_token_def bind_def attempt_def by_handler_def map_err_def granted_def ignore_def)
qed

lemma alike_setup_checks: "keeps alike (setup_checks uid)"
  unfolding setup_checks_def user_find_by_id_def find_user_def library_find_by_user_def by (intro alike_rules)

lemma setup_done:
  fixes w :: "'z world_scheme"
  assumes "user_of (tb w) uid = Some u" "u_setup_complete u" "setup_library C config mk uid w = (r, w')"
  shows "isl r \<and> alike w w'"
proof -
  obtain k :: "unit \<Rightarrow> ('z world_scheme, app_error, personal_library) act" where k: "setup_library C config mk uid = bind (setup_checks uid) k"
    by (simp add: setup_library_def setup_checks_def bind_assoc has_library_def)
  obtain y v where run: "setup_checks uid w = (y, v)" by fastforce
  have "setup_allowed uid (tb w) = Inl (Conflict ''Setup has already been completed for this user.'')"
    using assms(1,2) by (simp add: setup_allowed_def)
  then have "isl y" using reads_run [OF reads_setup_checks run] by auto
  then show ?thesis using assms(3) run keepsD [OF alike_setup_checks run] by (auto simp: k bind_def isl_def)
qed

lemma session_known:
  assumes "page_session P rq w = (Inr u, w1)"
  shows "user_of (tb w1) (u_id u) = Some u"
proof -
  let ?E = "env_ext (srv P)" and ?C = "env_crypto (srv P)"
  obtain tok where run: "token_user ?E ?C tok w = (Inr u, w1)"
    using assms by (cases "extract_cookie_token rq") (auto simp: page_session_def session_user_def)
  note t = token_user_run [OF run]
  then obtain i where u: "user_of (tb w) i = Some u"
    by (auto simp: token_owner_def split: option.splits if_splits)
  then have "u_id u = i" by (auto simp: user_of_def user.truncate_def dest!: find_Some_mem)
  moreover have "t_users (tb w1) = t_users (tb w)"
    using t by (auto simp: drop_dead_def without_sessions_def)
  ultimately show ?thesis using u by (simp add: user_of_def)
qed

lemma setup_agrees:
  fixes w :: "'z web_scheme"
  assumes c: "same_caller rq rq'" and t: "honest rq (Some tok)"
    and run: "serve_account_page P rq (SetupSubmit tok) w = (r, w1)" "serve_account (srv P) rq' SetupLibraryCall w = (r', w2)"
  shows "agrees (granted (AccountPageCall (SetupSubmit tok))) True (w1, r) (w2, r')"
  using same_session [OF c, of P]
proof (cases rule: same_guardE [where w = w])
  case (refused e e' v)
  then show ?thesis using run
    by (auto simp: agrees_def alike_def setup_submit_def some_page_def unit_of_def api_setup_library_def with_guard_def bind_def)
next
  case (passed u v)
  obtain x v2 where out: "setup_library (env_crypto (srv P)) (env_config (srv P)) (env_master_key (srv P)) (u_id u) v = (x, v2)" by fastforce
  show ?thesis
  proof (cases "u_setup_complete u")
    case True
    have "isl x" "alike v v2" using setup_done [OF session_known [OF passed(1)] True out] by simp_all
    then show ?thesis using run passed out True
      by (auto simp: agrees_def setup_submit_def honest_checked [OF t] some_page_def unit_of_def api_setup_library_def with_guard_def
          by_handler_def map_err_def bind_def isl_def)
  next
    case False
    then show ?thesis using run passed out
      by (cases x) (auto simp: agrees_def alike_def granted_def setup_submit_def honest_checked [OF t] some_page_def unit_of_def answer_def
          api_setup_library_def with_guard_def by_handler_def map_err_def bind_def attempt_def)
  qed
qed

lemma account_agrees:
  fixes w :: "'z web_scheme"
  assumes c: "same_caller rq rq'" and a: "mirror_account_page ac = Some a" and t: "honest rq (account_token ac)"
    and ok: "admitted P rq w (AccountPageCall ac)"
    and run: "serve_account_page P rq ac w = (r, w1)" "serve_api (srv P) rq' a w = (r', w2)"
  shows "agrees (granted (AccountPageCall ac)) (looks_again a)
    (if counted (AccountPageCall ac) then w1\<lparr>attempts := attempts w\<rparr> else w1, r) (w2, r')"
proof (cases ac)
  case (LoginSubmit ip now form)
  then show ?thesis using login_agrees [of rq form P w ip now r w1 rq' r' w2] assms by auto
next
  case (RegisterSubmit ip now form)
  then show ?thesis using register_agrees [of rq form P w ip now r w1 rq' r' w2] assms by auto
next
  case (LogoutSubmit tok)
  then show ?thesis using logout_agrees [OF c, of tok P w r w1 r' w2] assms by auto
next
  case (SetupSubmit tok)
  then show ?thesis using setup_agrees [OF c, of tok P w r w1 r' w2] assms by auto
qed (use a in simp_all)

section \<open>Granting to an account\<close>

definition same_faults :: "'z os_scheme \<Rightarrow> 'z os_scheme \<Rightarrow> bool" where
  "same_faults w w' = (faults w' = faults w)"

interpretation same_faults: os_frame same_faults
  by unfold_locales (auto simp: same_faults_def tick_def)

lemma same_faults_rows: "keeps same_faults (select g)" "keeps same_faults (delete_sessions Q)"
  by (auto simp: keeps_def same_faults_def select_def delete_sessions_def exec_def tick_def split: option.splits sum.splits)

lemma same_faults_space: "keeps same_faults (space_guard E C rq level)"
  unfolding space_guard_def setup_complete_user_def authenticated_user_def check_space_permission_def space_find_for_user_def token_user_def
    session_validate_def session_delete_def user_find_by_id_def find_user_def find_by_token_hash_def session_is_expired_def Let_def
  by (intro same_faults.os_rules keeps_sqlx same_faults_rows)

lemma user_grant_agrees:
  fixes w :: "'z web_scheme"
  assumes c: "same_caller rq rq'" and i: "extract_space_id rq = Some i" and t: "honest rq (Some (ga_csrf_token form))"
    and user: "ga_grantee_type form = ''user''" "user_of (tb w) (ga_grantee_id form) = Some u" and calm: "calm w"
    and run: "some_page (space_grant_access_submit P rq i form) w = (r, w1)"
      "unit_of (api_grant_user_access (srv P) rq' (u_username u) (ga_permission form)) w = (r', w2)"
  shows "agrees grants False (w1, r) (w2, r')"
  using same_space [OF c, of P "level_of Admin"]
proof (cases rule: same_guardE [where w = w])
  case (refused e e' v)
  then show ?thesis using run
    by (auto simp: agrees_def alike_def space_grant_access_submit_def space_form_def some_page_def unit_of_def api_grant_user_access_def
        by_admin_level level_names Let_def with_guard_def bind_def)
next
  case (passed x v)
  obtain caller m where x: "x = (caller, m)" by fastforce
  have sid: "s_id (sw_space m) = i" and tb: "tb v = tb w"
    using space_guard_run [OF passed(2) [unfolded x]] c i by (auto simp: same_caller_def)
  have v: "calm v" using keepsD [OF same_faults_space passed(2)] calm by (simp add: same_faults_def calm_def)
  let ?G = "grant_user_access (u_id caller) i (u_username u) (ga_permission form)"
  obtain y v2 where g: "?G v = (y, v2)" by fastforce
  have "user_find_by_id (ga_grantee_id form) v = (Inr (Some u), tick v)"
    using v user(2) tb by (simp add: user_find_by_id_def find_user_def run_select calm_def user_of_def)
  then have page: "grant_to (u_id caller) i form v = (y, tick v2)"
    using unseenD [OF calls.granting v g] user(1) by (simp add: grant_to_def bind_def)
  show ?thesis using run passed x sid g page user(1)
    by (cases y) (auto simp: agrees_def alike_def tick_def space_grant_access_submit_def space_form_def some_page_def unit_of_def
        api_grant_user_access_def by_admin_level level_names Let_def with_guard_def honest_checked [OF t] bind_def attempt_def by_handler_def
        map_err_def split: app_error.splits)
qed

section \<open>Agreement\<close>

lemma mirrored_agrees:
  assumes "mirrored b s m" "s w = (r, w1)" "m w = (r', w2)"
  shows "agrees grants b (w1, r) (w2, r')"
  using assms unfolding mirrored_def agrees_def by (metis fst_conv snd_conv)

lemma agrees_call:
  fixes w :: "'z web_scheme"
  assumes c: "same_caller rq rq'" and a: "mirror (tb w) pc = Some a" and t: "submits pc \<longrightarrow> honest rq (submitted_token rq pc)"
    and i: "\<forall>i. named_space pc = Some i \<longrightarrow> extract_space_id rq = Some i" and ok: "admitted P rq w pc"
    and run: "serve_page P rq pc w = (r, w1)" "serve_api (srv P) rq' a w = (r', w2)"
  shows "agrees (granted pc) (looks_again a) (if counted pc then w1\<lparr>attempts := attempts w\<rparr> else w1, r) (w2, r')"
proof -
  have by_mirror: "agrees (granted pc) (looks_again a) (if counted pc then w1\<lparr>attempts := attempts w\<rparr> else w1, r) (w2, r')"
    if "mirrored (looks_again a) (serve_page P rq pc :: 'z served) (serve_api (srv P) rq' a)" "\<forall>ac. pc \<noteq> AccountPageCall ac"
    using mirrored_agrees [OF that(1) run] that(2) by (cases pc) (simp_all add: granted_def [abs_def])
  show ?thesis
  proof (cases pc)
    case (AccountPageCall ac)
    moreover have "submits (AccountPageCall ac)" using a AccountPageCall by (cases ac) simp_all
    ultimately show ?thesis using account_agrees [OF c, of ac a P w r w1 r' w2] a t ok run by simp
  next
    case (FilePageCall fc)
    moreover have "looks_again a = False" using a FilePageCall by (cases fc) auto
    ultimately show ?thesis using mirrored_file_page [OF c, of fc, where P = P] a by_mirror by (cases "mirror_file_page fc") auto
  next
    case (FileSubmitCall fc)
    moreover have "looks_again a = False" using a FileSubmitCall by (cases fc) auto
    ultimately show ?thesis using mirrored_file_submit [OF c, of fc a P, where 'a = 'z] a t by_mirror by simp
  next
    case (GroupPageCall gc)
    moreover have "submits (GroupPageCall gc)" using a GroupPageCall by (cases gc) simp_all
    ultimately show ?thesis using mirrored_group_page [OF c, of gc a P, where 'a = 'z] a t by_mirror by simp
  next
    case (SpacePageCall sc)
    moreover have "looks_again a = False" using a SpacePageCall by (cases sc) auto
    ultimately show ?thesis using mirrored_space_page [OF c, of sc a P, where 'a = 'z] a i by_mirror by simp
  next
    case (SpaceFileSubmitCall j fc)
    moreover have "looks_again a = False" using a SpaceFileSubmitCall by (cases fc) auto
    ultimately show ?thesis using a t i ok by_mirror mirrored_space_file_submit [OF c, of fc a j P w] by simp
  next
    case (SpaceSubmitCall sc)
    show ?thesis
    proof (cases "\<exists>j form. sc = SpaceGrantSubmit j form \<and> ga_grantee_type form = ''user''")
      case False
      then show ?thesis using mirrored_space_submit [OF c, of "tb w" sc a P] SpaceSubmitCall a t i by_mirror by simp
    next
      case True
      then obtain j form where sc: "sc = SpaceGrantSubmit j form" "ga_grantee_type form = ''user''" by blast
      then obtain u where u: "user_of (tb w) (ga_grantee_id form) = Some u"
          "a = SpaceCall (GrantUserCall (u_username u) (ga_permission form))"
        using a SpaceSubmitCall by auto
      then show ?thesis
        using user_grant_agrees [OF c, of j form w u P r w1 r' w2] SpaceSubmitCall sc i t ok run
        by (simp add: admitted_def granted_def [abs_def])
    qed
  qed
qed


end
