(* ===== verification/PageTables.thy ===== *)
theory PageTables
  imports PageFacts ApiFacts
begin

text \<open>
  The constraints of the tables and the types of their columns under every request to the server, of
  either interface, and under every round of its workers.
\<close>

context row_invariant
begin

lemma quiet_kept: "keeps (quiet P rq) m \<Longrightarrow> kept I m"
  unfolding keeps_def quiet_def settled_def keeps_inv_def using sessions_dropped by metis

lemma kept_some: "kept I m \<Longrightarrow> kept I (some_page m)"
  unfolding some_page_def by (intro kept_rules)

lemmas kept_page_guards = quiet_kept [OF quiet_guards(1)] quiet_kept [OF quiet_guards(2)]
  quiet_kept [OF quiet_guards(3)] quiet_kept [OF quiet_guards(4)]

lemma kept_checked: "kept I m \<Longrightarrow> kept I (checked_form rq tok back m)"
  unfolding checked_form_def by (intro kept_rules)

lemma kept_rate: "kept I (rate_check key m win now)"
  by (simp add: keeps_def keeps_inv_def rate_check_def split_def Let_def)

lemma kept_json: "kept I m \<Longrightarrow> kept I (json_result m f)"
  unfolding json_result_def by (intro kept_rules)

lemma kept_body: "(\<And>bytes. kept I (h bytes)) \<Longrightarrow> kept I (with_body data n failure big h)"
  unfolding with_body_def by (intro kept_rules) auto

lemma kept_on_library: "(\<And>lib. kept I (h lib)) \<Longrightarrow> kept I (on_library user missing h)"
  unfolding on_library_def by (intro kept_rules kept_library_reads)

lemma kept_forms:
  fixes h :: "personal_library \<Rightarrow> ('z web_scheme, nat \<times> app_error, page) act" and f :: "string \<Rightarrow> ('z web_scheme, nat \<times> app_error, page) act"
    and k :: "user \<Rightarrow> personal_library \<Rightarrow> ('z web_scheme, nat \<times> app_error, page) act"
  shows "(\<And>lib. kept I (h lib)) \<Longrightarrow> kept I (library_form P rq tok back h)"
  "(\<And>user lib. kept I (k user lib)) \<Longrightarrow> kept I (library_xhr P rq missing k)"
  "(\<And>uid. kept I (f uid)) \<Longrightarrow> kept I (user_form P rq tok back f)"
  "(\<And>uid. kept I (f uid)) \<Longrightarrow> kept I (space_form P rq level tok back f)"
  "(\<And>uid. kept I (f uid)) \<Longrightarrow> kept I (space_xhr P rq f)"
  unfolding library_form_def library_xhr_def user_form_def space_form_def space_xhr_def csrf_guard_def
  by (intro kept_rules kept_page_guards kept_checked kept_on_library; assumption?)+

lemma kept_bulk:
  "(\<And>p. kept I (step p)) \<Longrightarrow> kept I (bulk step ps n errors)"
  "(\<And>p q. kept I (move p q)) \<Longrightarrow> kept I (bulk_moves move no_name target ps n errors)"
proof -
  show "kept I (bulk step ps n errors)" if "\<And>p. kept I (step p)"
    by (induction ps arbitrary: n errors) (simp_all only: bulk.simps, (intro kept_rules that; assumption?)+)
  show "kept I (bulk_moves move no_name target ps n errors)" if "\<And>p q. kept I (move p q)"
    by (induction ps arbitrary: n errors) (simp_all only: bulk_moves.simps Let_def, (intro kept_rules that; assumption?)+)
qed

lemmas request_rules = kept_some kept_forms kept_checked kept_rate kept_json kept_body kept_bulk
  kept_page_guards kept_rules

lemma kept_account_page: "kept I (serve_account_page P rq c)"
proof (cases "account_token c")
  case None
  then show ?thesis by (rule quiet_kept [OF looks_account])
next
  case (Some tok)
  then show ?thesis
    by (cases c; simp only: account_token.simps option.distinct serve_account_page.simps login_submit_def register_submit_def
        logout_submit_def setup_submit_def)
      (intro request_rules kept_services)+
qed

lemma kept_group_page: "kept I (serve_group_page P rq c)"
proof (cases "group_token c")
  case None
  then show ?thesis by (rule quiet_kept [OF looks_group])
next
  case (Some tok)
  then show ?thesis
    by (cases c; simp only: group_token.simps option.distinct serve_group_page.simps groups_create_submit_def group_edit_submit_def
        group_delete_submit_def group_add_member_submit_def group_remove_member_submit_def group_update_member_role_submit_def)
      (intro request_rules kept_services)+
qed

lemma kept_file_submit: "kept I (serve_file_submit P rq c)"
  by (cases c; simp only: serve_file_submit.simps mkdir_submit_def rename_submit_def move_submit_def delete_submit_def bulk_delete_def
      bulk_move_def page_upload_file_def page_init_upload_def page_receive_chunk_def with_chunk_def page_complete_upload_def
      page_cancel_upload_def Let_def)
    (intro request_rules kept_services)+

lemma kept_space_submit: "kept I (serve_space_submit P rq c)"
  by (cases c; simp only: serve_space_submit.simps spaces_create_submit_def space_rename_submit_def space_delete_submit_def
      space_grant_access_submit_def grant_to_def space_update_access_submit_def space_revoke_access_submit_def Let_def)
    (intro request_rules kept_find_users kept_services)+

lemma kept_space_file_submit: "kept I (serve_space_file_submit P rq i c)"
  by (cases c; simp only: serve_space_file_submit.simps space_mkdir_submit_def space_rename_entry_submit_def space_move_entry_submit_def
      space_delete_entry_submit_def space_bulk_delete_def space_bulk_move_def page_space_upload_def space_init_upload_def
      space_receive_chunk_def with_chunk_def space_complete_upload_def space_cancel_upload_def Let_def)
    (intro request_rules kept_services)+

lemma kept_page: "kept I (serve_page P rq c)"
  by (cases c) (simp_all add: kept_account_page kept_file_submit kept_group_page kept_space_submit
      kept_space_file_submit quiet_kept [OF looks_file] quiet_kept [OF looks_space])

end

text \<open>
  C39. What the tables hold is of the right type, whatever call of the API or request of the web
  interface is made, by whom and with what body, whichever of its steps fail, and whatever round a
  background worker runs: an account's role is admin or user and its name and address are in normal
  form; a member is owner, manager or member; a grant is to a user or a group, for read, write or
  admin; names and descriptions keep to their bounds and a space's name has no control character; what
  is stored encrypted is under a key of the server; an upload goes to a file of a library or a space in
  at least one chunk, with a SHA-256 or none; an event is of a known kind. The database enforces none
  of this. What it does enforce stays in force: unique columns are unique and references valid.
\<close>

theorem server_keeps_constraints:
  fixes w :: "'z web_scheme"
  assumes "tables_ok (tb w)" and "rows_typed (tb w)"
    and "w' \<in> {snd (serve_api V rq call w), snd (serve_page P rq' pc w), snd (integrity_scan_round C config w),
      snd (session_cleanup_round w), snd (chunk_cleanup_round config w)}"
  shows "tables_ok (tb w') \<and> rows_typed (tb w')"
proof -
  have run: "tables_ok (tb (snd (m w))) \<and> rows_typed (tb (snd (m w)))"
    if "kept tables_ok m" "kept rows_typed m" for m :: "('z web_scheme, 'e, 'a) act"
    using that assms(1,2) by (simp add: keeps_def keeps_inv_def)
  note calls = run [OF constraints.kept_api types.kept_api] run [OF constraints.kept_page types.kept_page]
    and rounds = constraints.kept_rounds(1) [THEN run, OF types.kept_rounds(1)] constraints.kept_rounds(2) [THEN run, OF types.kept_rounds(2)]
      constraints.kept_rounds(3) [THEN run, OF types.kept_rounds(3)]
  show ?thesis using assms(3) by (elim insertE emptyE) (simp_all only: calls rounds)
qed

end
