(* ===== verification/SamplePages.thy ===== *)
theory SamplePages
  imports SampleApi PageMirror PageTables
begin

text \<open>
  The web interface on the server of \<open>SampleApi\<close>: bob's browser, with his session and a token
  against forgery in its cookies.
\<close>

definition sample_pages :: page_env where
  "sample_pages = \<lparr>srv = sample_env, naive_parse = (\<lambda>_ _. None), naive_format = (\<lambda>_ _. []), alphanumeric = (\<lambda>_. CHR ''c'')\<rparr>"

definition web_house :: web where
  "web_house = world.extend house (web.fields new_limiter)"

lemma web_house_tables: "tb web_house = bob_tables"
  by (simp add: web_house_def world.defs house_tables)

definition csrf_value :: string where "csrf_value = replicate 64 (CHR ''t'')"

definition bob_browser :: request where
  "bob_browser = \<lparr>rq_headers = [], rq_cookies = [(COOKIE_NAME, bob_token), (CSRF_COOKIE, csrf_value)], rq_path = ''/spaces/s/mkdir''\<rparr>"

definition new_folder :: "string \<Rightarrow> page_call" where
  "new_folder tok = SpaceFileSubmitCall ''s'' (SpaceMkdirSubmit \<lparr>mf_name = ''d'', mf_path = [], mf_csrf_token = tok\<rparr>)"

lemma bob_cookies: "get_cookie bob_browser CSRF_COOKIE = Some csrf_value" "extract_cookie_token bob_browser = Some bob_token"
  "extract_space_id bob_browser = Some ''s''"
  by (code_simp, code_simp, code_simp)

lemma bob_same_caller: "same_caller bob_browser bob_request"
  by (simp add: same_caller_def bob_cookies bob_asks)

lemma bob_tables_typed: "rows_typed bob_tables"
proof -
  have "rows_typed shared_space" by code_simp
  then show ?thesis by (simp add: bob_tables_def with_session_def rows_typed_def)
qed

theorem server_keeps_constraints_witness:
  "let w' = snd (serve_page sample_pages bob_browser (new_folder csrf_value) web_house) in tables_ok (tb w') \<and> rows_typed (tb w')"
  unfolding Let_def
  by (rule server_keeps_constraints [of web_house _ sample_env bob_request "GroupCall ListGroupsCall" sample_pages bob_browser
        "new_folder csrf_value" toy_crypto "env_config sample_env"])
    (simp_all add: bob_tables_ok bob_tables_typed web_house_tables)

theorem pages_change_nothing_unasked_witness:
  "tree (snd (serve_page sample_pages bob_browser (new_folder ''guess'') web_house)) = tree web_house \<and>
   turned_away (fst (serve_page sample_pages bob_browser (new_folder ''guess'') web_house))"
proof -
  have "\<forall>tok. submitted_token bob_browser (new_folder ''guess'') = Some tok \<longrightarrow> tok = [] \<or> get_cookie bob_browser CSRF_COOKIE \<noteq> Some tok"
    by (simp add: new_folder_def bob_cookies csrf_value_def numeral_eq_Suc)
  note claim = pages_change_nothing_unasked [OF this prod.collapse [symmetric], of sample_pages web_house]
  have "submits (new_folder ''guess'')" by (simp add: new_folder_def)
  then show ?thesis using claim by blast
qed


end
