(* ===== verification/Settings.thy ===== *)
theory Settings
  imports Floats World
begin

text \<open>
  \<open>src/src/config.rs\<close>: the configuration read from the environment, and the secret key, which comes
  from the environment, from a file, or is generated and written to that file.

  The host gives the environment variables (those that hold valid Unicode, after the \<open>.env\<close> file was
  loaded), the working directory, the base64 encoder (a package) and which bytes are valid UTF-8. A
  panic is an error that ends the program.
\<close>

section \<open>Numbers in text\<close>

text \<open>\<open>str::parse\<close> for unsigned integers: an optional \<open>+\<close>, digits, each step checked for overflow.\<close>

definition invalid_digit :: string where "invalid_digit = ''invalid digit found in string''"
definition too_large :: string where "too_large = ''number too large to fit in target type''"

definition digit_value :: "char \<Rightarrow> nat" where "digit_value c = char_code c - 48"

fun parse_digits :: "nat \<Rightarrow> nat \<Rightarrow> string \<Rightarrow> string + nat" where
  "parse_digits limit n [] = Inr n"
| "parse_digits limit n (c # cs) =
     (if \<not> ascii_digit c then Inl invalid_digit
      else if limit < 10 * n + digit_value c then Inl too_large
      else parse_digits limit (10 * n + digit_value c) cs)"

definition parse_uint :: "nat \<Rightarrow> string \<Rightarrow> string + nat" where
  "parse_uint limit s =
     (if s = [] then Inl ''cannot parse integer from empty string''
      else if s = ''+'' \<or> s = ''-'' then Inl invalid_digit
      else if hd s = CHR ''+'' then parse_digits limit 0 (tl s)
      else parse_digits limit 0 s)"

definition parse_bool :: "string \<Rightarrow> string + bool" where
  "parse_bool s = (if s = ''true'' then Inr True else if s = ''false'' then Inr False
     else Inl (''provided string was not `true` or `false`''))"

text \<open>
  \<open>str::parse::<f64>\<close> on a text of digits and dots, the only ones it is given: digits with at most
  one dot and at least one digit. A number beyond the range of \<open>f64\<close> is infinite in Rust and
  saturates in the end, as the number itself does here; one below the range becomes 0 in both.
\<close>

fun decimal :: "nat \<Rightarrow> string \<Rightarrow> nat" where
  "decimal n [] = n"
| "decimal n (c # cs) = decimal (10 * n + digit_value c) cs"

definition parse_f64 :: "string \<Rightarrow> rat option" where
  "parse_f64 s =
     (let whole = takeWhile ascii_digit s; rest = dropWhile ascii_digit s; frac = tl rest in
      if list_all ascii_digit frac \<and> (rest = [] \<or> hd rest = CHR ''.'') \<and> whole @ frac \<noteq> []
      then Some (f64 (of_nat (decimal 0 (whole @ frac)) / 10 ^ length frac)) else None)"

definition size_unit :: "string \<Rightarrow> nat option" where
  "size_unit u =
     (if u \<in> {'''', ''b''} then Some 1
      else if u \<in> {''kb'', ''kib'', ''k''} then Some 1024
      else if u \<in> {''mb'', ''mib'', ''m''} then Some (1024 * 1024)
      else if u \<in> {''gb'', ''gib'', ''g''} then Some (1024 * 1024 * 1024)
      else if u \<in> {''tb'', ''tib'', ''t''} then Some (1024 * 1024 * 1024 * 1024)
      else None)"

definition number_char :: "char \<Rightarrow> bool" where "number_char c = (ascii_digit c \<or> c = CHR ''.'')"

definition parse_size :: "string \<Rightarrow> nat option" where
  "parse_size text =
     (let s = trim text in
      case parse_uint u64_max s of Inr n \<Rightarrow> Some n
      | Inl _ \<Rightarrow>
          (let num_str = trim (takeWhile number_char s); unit_str = trim (dropWhile number_char s) in
           case parse_f64 num_str of None \<Rightarrow> None
           | Some num \<Rightarrow>
               if num < 0 then None
               else (case size_unit (to_ascii_lowercase unit_str) of None \<Rightarrow> None
                     | Some multiplier \<Rightarrow> Some (f64_to_u64 (f64_mul num (f64_of_u64 multiplier))))))"

section \<open>The environment\<close>

record host =
  env_var :: "string \<Rightarrow> string option"
  current_dir :: path
  base64_encode :: "byte list \<Rightarrow> string"
  valid_utf8 :: "byte list \<Rightarrow> bool"

datatype panic = Panic string

definition env_or :: "host \<Rightarrow> string \<Rightarrow> string \<Rightarrow> string" where
  "env_or H key fallback = (case env_var H key of Some v \<Rightarrow> v | None \<Rightarrow> fallback)"

definition env_parse :: "host \<Rightarrow> (string \<Rightarrow> string + 'a) \<Rightarrow> string \<Rightarrow> 'a \<Rightarrow> panic + 'a" where
  "env_parse H from_str key fallback =
     (case env_var H key of None \<Rightarrow> Inr fallback
      | Some val \<Rightarrow> (case from_str val of Inr x \<Rightarrow> Inr x
          | Inl e \<Rightarrow> Inl (Panic (key @ '' is set but could not be parsed: '' @ e))))"

definition env_size :: "host \<Rightarrow> string \<Rightarrow> nat \<Rightarrow> panic + nat" where
  "env_size H key fallback =
     (case env_var H key of None \<Rightarrow> Inr fallback
      | Some val \<Rightarrow> (case parse_size val of Some n \<Rightarrow> Inr n
          | None \<Rightarrow> Inl (Panic (key @ ''='' @ val @ '' '' @ em_dash @ '' could not parse as a size''))))"

section \<open>The secret key\<close>

definition PLACEHOLDER_KEY :: string where "PLACEHOLDER_KEY = ''CHANGE-ME-generate-a-random-256-bit-key-here''"
definition SECRET_KEY_FILENAME :: string where "SECRET_KEY_FILENAME = ''.secret_key''"

type_synonym ('z, 'a) start = "('z os_scheme, panic, 'a) act"

definition host_path :: "host \<Rightarrow> string \<Rightarrow> path" where "host_path H s = path_join (current_dir H) s"

definition key_path :: "host \<Rightarrow> string \<Rightarrow> path" where
  "key_path H dir = path_join (host_path H dir) SECRET_KEY_FILENAME"

text \<open>\<open>fs::read_to_string\<close>.\<close>

definition fs_read_to_string :: "host \<Rightarrow> path \<Rightarrow> ('z, string) io" where
  "fs_read_to_string H p = bind (fs_read p) (\<lambda>bytes.
     if valid_utf8 H bytes then ret (map (\<lambda>b. char_of (unat b)) bytes)
     else throw (IoOther ''stream did not contain valid UTF-8''))"

text \<open>\<open>fs::set_permissions\<close>; the tree has no permissions.\<close>

definition fs_set_permissions :: "path \<Rightarrow> ('z, unit) io" where
  "fs_set_permissions p = query (\<lambda>t. case stat_inode t p of Inl e \<Rightarrow> Inl e | Inr _ \<Rightarrow> Inr ())"

definition generate_secret_key :: "host \<Rightarrow> ('z, string) start" where
  "generate_secret_key H = bind (fill_bytes 32) (\<lambda>bytes. ret (base64_encode H bytes))"

definition persist_secret_key :: "host \<Rightarrow> string \<Rightarrow> string \<Rightarrow> ('z, unit) start" where
  "persist_secret_key H dir key =
     bind (map_err (\<lambda>e. Panic (''Failed to create data directory '' @ quoted dir @ '': '' @ io_display e))
       (fs_create_dir_all (host_path H dir))) (\<lambda>_.
     bind (map_err (\<lambda>e. Panic (''Failed to write secret key to '' @ quoted (display_path (key_path H dir)) @ '': '' @ io_display e))
       (fs_write (key_path H dir) (as_bytes (key @ [CHR 0x0A])))) (\<lambda>_.
     ignore (fs_set_permissions (key_path H dir))))"

definition key_of_variable :: "host \<Rightarrow> string option" where
  "key_of_variable H =
     (case env_var H ''IRONDRIVE_SECRET_KEY'' of None \<Rightarrow> None
      | Some key \<Rightarrow>
          (let trimmed = trim key in
           if trimmed \<noteq> [] \<and> trimmed \<noteq> PLACEHOLDER_KEY then Some trimmed else None))"

definition key_of_file :: "host \<Rightarrow> path \<Rightarrow> ('z, string option) start" where
  "key_of_file H p =
     bind (exists_or_false p) (\<lambda>e.
     if \<not> e then ret None
     else bind (attempt (fs_read_to_string H p)) (\<lambda>r.
       ret (case r of Inl _ \<Rightarrow> None
            | Inr contents \<Rightarrow> (let trimmed = trim contents in if trimmed \<noteq> [] then Some trimmed else None))))"

definition resolve_secret_key :: "host \<Rightarrow> string \<Rightarrow> ('z, string) start" where
  "resolve_secret_key H dir =
     (case key_of_variable H of Some key \<Rightarrow> ret key
      | None \<Rightarrow>
          bind (key_of_file H (key_path H dir)) (\<lambda>found. case found of Some key \<Rightarrow> ret key
          | None \<Rightarrow>
              bind (generate_secret_key H) (\<lambda>key.
              bind (persist_secret_key H dir key) (\<lambda>_.
              ret key))))"

section \<open>The configuration\<close>

text \<open>
  A relative directory is one of the working directory. A directory given as the empty text is left
  out: the program then mixes relative and absolute paths.
\<close>

definition env_config_of :: "host \<Rightarrow> string \<Rightarrow> panic + app_config" where
  "env_config_of H secret =
     (case env_size H ''IRONDRIVE_DEFAULT_QUOTA'' 5368709120 of Inl e \<Rightarrow> Inl e | Inr quota \<Rightarrow>
     (case env_size H ''IRONDRIVE_MAX_UPLOAD'' 5368709120 of Inl e \<Rightarrow> Inl e | Inr upload \<Rightarrow>
     (case env_parse H (parse_uint u64_max) ''IRONDRIVE_SESSION_EXPIRY_HOURS'' 168 of Inl e \<Rightarrow> Inl e | Inr session \<Rightarrow>
     (case env_size H ''IRONDRIVE_CHUNK_SIZE'' 8388608 of Inl e \<Rightarrow> Inl e | Inr chunk \<Rightarrow>
     (case env_parse H (parse_uint u64_max) ''IRONDRIVE_CHUNK_UPLOAD_EXPIRY_HOURS'' 24 of Inl e \<Rightarrow> Inl e | Inr expiry \<Rightarrow>
     (case env_parse H (parse_uint u32_max) ''IRONDRIVE_MAX_PARALLEL_CHUNKS'' 4 of Inl e \<Rightarrow> Inl e | Inr parallel \<Rightarrow>
     (case env_parse H parse_bool ''IRONDRIVE_INTEGRITY_SCAN_ENABLED'' True of Inl e \<Rightarrow> Inl e | Inr scan \<Rightarrow>
     (case env_parse H (parse_uint u64_max) ''IRONDRIVE_INTEGRITY_SCAN_INTERVAL_HOURS'' 168 of Inl e \<Rightarrow> Inl e | Inr interval \<Rightarrow>
       Inr \<lparr>secret_key = secret,
            data_dir = host_path H (env_or H ''IRONDRIVE_DATA_DIR'' ''./data''),
            db_dir = host_path H (env_or H ''IRONDRIVE_DB_DIR'' ''./db''),
            default_quota_bytes = quota, max_upload_bytes = upload, session_expiry_hours = session,
            chunk_size_bytes = chunk, chunk_upload_expiry_hours = expiry, max_parallel_chunks = parallel,
            integrity_scan_enabled = scan, integrity_scan_interval_hours = interval\<rparr>))))))))"

definition from_env :: "host \<Rightarrow> ('z, app_config) start" where
  "from_env H =
     bind (resolve_secret_key H (env_or H ''IRONDRIVE_DATA_DIR'' ''./data'')) (\<lambda>secret.
     lift (env_config_of H secret))"

section \<open>What the parsers read\<close>

definition visible :: "char \<Rightarrow> bool" where
  "visible c = (33 \<le> char_code c \<and> char_code c \<le> 126)"

lemma match_any_visible: "list_all (\<lambda>p. p \<noteq> [] \<and> \<not> visible (hd p)) ps \<Longrightarrow> visible c \<Longrightarrow> match_any ps (c # cs) = 0"
proof (induction ps)
  case (Cons p ps)
  then show ?case by (cases p) auto
qed simp

lemma spaces_invisible:
  "list_all (\<lambda>p. p \<noteq> [] \<and> \<not> visible (hd p)) ws_encodings"
  "list_all (\<lambda>p. p \<noteq> [] \<and> \<not> visible (hd p)) (map rev ws_encodings)"
  by code_simp+

lemmas no_space_starts = match_any_visible [OF spaces_invisible(1)]
  and no_space_ends = match_any_visible [OF spaces_invisible(2)]

lemma trim_start_visible: "visible c \<Longrightarrow> trim_start (c # cs) = c # cs"
  by (simp add: trim_start_def no_space_starts)

lemma trim_end_visible: "visible c \<Longrightarrow> trim_end (cs @ [c]) = cs @ [c]"
  by (simp add: trim_end_def no_space_ends)

lemma trim_visible:
  assumes "s \<noteq> []" "visible (hd s)" "visible (last s)"
  shows "trim s = s"
  using assms trim_start_visible [of "hd s" "tl s"] trim_end_visible [of "last s" "butlast s"]
  by (simp add: trim_def)

lemma trim_line:
  assumes "s \<noteq> []" "visible (hd s)" "visible (last s)"
  shows "trim (s @ [CHR 0x0A]) = s"
proof -
  have "trim_start (s @ [CHR 0x0A]) = s @ [CHR 0x0A]"
    using assms trim_start_visible [of "hd s" "tl s @ [CHR 0x0A]"] by (cases s) simp_all
  moreover have "trim_end (s @ [CHR 0x0A]) = s"
    using assms no_space_ends [of "last s" "rev (butlast s)"]
    by (cases s rule: rev_cases) (auto simp: trim_end_def ws_encodings_def)
  ultimately show ?thesis by (simp add: trim_def)
qed

lemma trim_space:
  assumes "s \<noteq> []" "visible (hd s)" "visible (last s)"
  shows "trim (CHR 0x20 # s) = s"
proof -
  have "trim_start (CHR 0x20 # s) = s"
    using assms no_space_starts [of "hd s" "tl s"]
    by (cases s) (auto simp: trim_start_def ws_encodings_def)
  then show ?thesis using assms trim_end_visible [of "last s" "butlast s"] by (simp add: trim_def)
qed

lemma digit_shown:
  assumes "d < 10"
  shows "ascii_digit (char_of (48 + d))" "digit_value (char_of (48 + d)) = d"
proof -
  have "char_code (char_of (48 + d)) = 48 + d" using assms by (simp add: char_code_def)
  then show "ascii_digit (char_of (48 + d))" "digit_value (char_of (48 + d)) = d"
    using assms by (simp_all add: ascii_digit_def digit_value_def)
qed

lemma show_nat_ascii: "list_all ascii_digit (show_nat n) \<and> show_nat n \<noteq> []"
proof (induction n rule: show_nat.induct)
  case (1 n)
  show ?case
    using 1 digit_shown(1) [of n] digit_shown(1) [of "n mod 10"] by (subst (1 2) show_nat.simps) auto
qed

lemma parse_digits_append:
  "parse_digits limit n (xs @ [c]) =
     (case parse_digits limit n xs of Inl e \<Rightarrow> Inl e
      | Inr m \<Rightarrow> if \<not> ascii_digit c then Inl invalid_digit
          else if limit < 10 * m + digit_value c then Inl too_large else Inr (10 * m + digit_value c))"
  by (induction xs arbitrary: n) auto

lemma parse_digits_shown: "n \<le> limit \<Longrightarrow> parse_digits limit 0 (show_nat n) = Inr n"
proof (induction n rule: show_nat.induct)
  case (1 n)
  show ?case
  proof (cases "n < 10")
    case True
    then show ?thesis using 1(2) digit_shown [of n] by (simp add: show_nat.simps [of n])
  next
    case False
    have "n div 10 \<le> limit" using 1(2) by linarith
    then show ?thesis
      using False 1 digit_shown [of "n mod 10"] by (simp add: show_nat.simps [of n] parse_digits_append)
  qed
qed

lemma decimal_append: "decimal n (xs @ [c]) = 10 * decimal n xs + digit_value c"
  by (induction xs arbitrary: n) auto

lemma decimal_shown: "decimal 0 (show_nat n) = n"
proof (induction n rule: show_nat.induct)
  case (1 n)
  then show ?case
    using digit_shown(2) [of n] digit_shown(2) [of "n mod 10"] by (subst show_nat.simps) (auto simp: decimal_append)
qed

lemma parse_digits_only: "parse_digits limit n s = Inr m \<Longrightarrow> list_all ascii_digit s"
  by (induction s arbitrary: n) (auto split: if_splits)

lemma digit_visible: "ascii_digit c \<Longrightarrow> visible c \<and> number_char c \<and> c \<noteq> CHR ''+'' \<and> c \<noteq> CHR ''-''"
  by (auto simp: ascii_digit_def visible_def number_char_def char_code_def)

lemma parse_uint_digits: "list_all ascii_digit s \<Longrightarrow> s \<noteq> [] \<Longrightarrow> parse_uint limit s = parse_digits limit 0 s"
  using digit_visible by (cases s) (auto simp: parse_uint_def)

lemma parse_f64_digits:
  assumes "list_all ascii_digit s" "s \<noteq> []"
  shows "parse_f64 s = Some (f64 (of_nat (decimal 0 s)))"
proof -
  have "takeWhile ascii_digit s = s" "dropWhile ascii_digit s = []" using assms(1) by (auto simp: list_all_iff takeWhile_eq_all_conv)
  then show ?thesis using assms by (simp only: parse_f64_def Let_def) simp
qed

lemma unit_letters:
  assumes "size_unit (to_ascii_lowercase u) = Some m" "u \<noteq> []"
  shows "visible (hd u) \<and> visible (last u) \<and> \<not> number_char (hd u) \<and> \<not> ascii_digit (hd u)"
proof -
  have "set (to_ascii_lowercase u) \<subseteq> set ''bikmgt''"
    using assms by (auto simp: size_unit_def split: if_splits)
  then have "\<forall>c\<in>set u. to_lower c \<in> set ''bikmgt''" by (auto simp: to_ascii_lowercase_def)
  moreover have "visible c \<and> \<not> number_char c \<and> \<not> ascii_digit c" if "to_lower c \<in> set ''bikmgt''" for c
  proof -
    have "char_code (to_lower c) \<in> set (map char_code ''bikmgt'')" using that by auto
    then have l: "98 \<le> char_code (to_lower c)" "char_code (to_lower c) \<le> 116" by (auto simp: char_code_def)
    have "65 \<le> char_code c \<and> char_code c \<le> 116"
    proof (cases "ascii_upper c")
      case True
      then show ?thesis by (simp add: ascii_upper_def)
    next
      case False
      then show ?thesis using l by (simp add: to_lower_def)
    qed
    then show ?thesis by (auto simp: visible_def number_char_def ascii_digit_def char_code_def)
  qed
  ultimately show ?thesis using assms(2) by (metis hd_in_set last_in_set)
qed

lemma size_unit_power: "size_unit u = Some m \<Longrightarrow> \<exists>k. m = 2 ^ k \<and> k \<le> 40"
proof -
  assume "size_unit u = Some m"
  then have "m \<in> {2 ^ 0, 2 ^ 10, 2 ^ 20, 2 ^ 30, 2 ^ 40}"
    by (auto simp: size_unit_def split: if_splits)
  then show ?thesis by fastforce
qed

text \<open>
  A plain number is itself; a whole number below \<open>2 ^ 53\<close> with a unit, with or without a space and in
  either case of the letters, is the number times the unit, exactly, up to the largest 64-bit number.
\<close>

theorem parse_size_exact:
  "n \<le> u64_max \<Longrightarrow> parse_size (show_nat n) = Some n"
  "n < 2 ^ 53 \<Longrightarrow> sep = [] \<or> sep = '' '' \<Longrightarrow> u \<noteq> [] \<Longrightarrow> size_unit (to_ascii_lowercase u) = Some m \<Longrightarrow>
     parse_size (show_nat n @ sep @ u) = Some (min u64_max (n * m))"
proof -
  let ?d = "show_nat n"
  have d: "list_all ascii_digit ?d" "?d \<noteq> []" using show_nat_ascii by auto
  have v: "visible (hd ?d)" "visible (last ?d)" "list_all number_char ?d"
    using d digit_visible by (auto simp: list_all_iff)
  note td = trim_visible [OF d(2) v(1,2)]
  show "parse_size ?d = Some n" if "n \<le> u64_max"
    using that by (simp add: parse_size_def td parse_uint_digits [OF d] parse_digits_shown)
  assume n: "n < 2 ^ 53" and sep: "sep = [] \<or> sep = '' ''" and u: "u \<noteq> []" and m: "size_unit (to_ascii_lowercase u) = Some m"
  note lu = unit_letters [OF m u]
  let ?s = "?d @ sep @ u"
  have ts: "trim ?s = ?s"
    using d v lu u by (intro trim_visible) (auto simp: hd_append)
  have "\<not> list_all ascii_digit (sep @ u)" using lu u by (cases u) auto
  then have "parse_digits u64_max 0 ?s \<noteq> Inr x" for x using parse_digits_only [of u64_max 0 ?s x] by auto
  moreover have "parse_uint u64_max ?s = Inr x \<Longrightarrow> parse_digits u64_max 0 ?s = Inr x" for x
    using d digit_visible by (cases ?d) (auto simp: parse_uint_def split: if_splits)
  ultimately obtain e where e: "parse_uint u64_max ?s = Inl e" by (cases "parse_uint u64_max ?s") auto
  have h: "\<not> number_char (hd (sep @ u))" using sep lu u by (auto simp: number_char_def ascii_digit_def char_code_def)
  have "takeWhile number_char ?s = ?d @ takeWhile number_char (sep @ u)" "dropWhile number_char ?s = dropWhile number_char (sep @ u)"
    using v(3) by (simp_all add: list_all_iff takeWhile_append2 dropWhile_append2)
  moreover have "takeWhile number_char (sep @ u) = []" "dropWhile number_char (sep @ u) = sep @ u"
    using h u by (cases "sep @ u"; simp)+
  moreover have "trim (sep @ u) = u"
    using sep trim_visible [OF u] trim_space [OF u] lu by auto
  moreover have "parse_f64 ?d = Some (of_nat n)"
    using parse_f64_digits [OF d] f64_nat [OF n] by (simp add: decimal_shown)
  moreover obtain k where k: "m = 2 ^ k" using size_unit_power [OF m] by blast
  moreover have "f64_of_u64 m = of_nat m" using f64_shifted [of 1 k] by (simp add: f64_of_u64_def k)
  moreover have "f64_mul (of_nat n) (of_nat m) = of_nat (n * m)"
    using f64_shifted [OF n, of k] by (simp add: f64_mul_def k)
  moreover have "f64_to_u64 (of_nat (n * m)) = min u64_max (n * m)"
    by (simp add: f64_to_u64_def del: of_nat_mult)
  ultimately show "parse_size ?s = Some (min u64_max (n * m))"
    using m by (simp add: parse_size_def ts e td)
qed

section \<open>Files that were just written\<close>

lemma walk_fills:
  "walk n t cur cs = Inr (False, q) \<Longrightarrow> q \<noteq> [] \<and> lookup t q = None \<and> walk n (put q (Reg d) t) cur cs = Inr (True, q)"
proof (induction n t cur cs arbitrary: q rule: walk.induct)
  case (2 n t cur c cs)
  consider (skip) "c = [] \<or> c = ''.''" | (up) "c = ''..''" | (down) "name_ok c"
    by (auto simp: name_ok_def)
  then show ?case
  proof cases
    case skip
    then show ?thesis using 2(1) [OF skip] 2(5) by (simp add: walk.simps(2))
  next
    case up
    then show ?thesis using 2(2) [OF _ up] 2(5) by (simp add: walk.simps(2))
  next
    case down
    then have n: "\<not> (c = [] \<or> c = ''.'')" "c \<noteq> ''..''" by (auto simp: name_ok_def)
    show ?thesis
    proof (cases "lookup t (cur @ [c])")
      case None
      then show ?thesis using 2(5) down by (auto simp: walk_down lookup_put simp del: walk.simps split: if_splits)
    next
      case (Some i)
      then show ?thesis
      proof (cases i)
        case (Reg x)
        then show ?thesis using 2(5) down Some Reg by (auto simp: walk_down simp del: walk.simps split: if_splits)
      next
        case Dir
        then have *: "walk n t (cur @ [c]) cs = Inr (False, q)" using 2(5) down Some Dir by (simp add: walk_down del: walk.simps)
        note ih = 2(3) [OF n Some Dir *]
        then have "cur @ [c] \<noteq> q" using Some by auto
        then show ?thesis using ih down Some Dir by (simp add: walk_down lookup_put del: walk.simps)
      next
        case (Link s)
        obtain m where m: "n = Suc m" using 2(5) down Some Link by (cases n) (simp_all add: walk_down del: walk.simps)
        then have *: "walk m t (if starts_with s ''/'' then [] else cur) (split_on path_sep s @ cs) = Inr (False, q)"
          using 2(5) down Some Link by (simp add: walk_down del: walk.simps)
        note ih = 2(4) [OF n Some Link m *]
        then have "cur @ [c] \<noteq> q" using Some by auto
        then show ?thesis using ih down Some Link m by (simp add: walk_down lookup_put del: walk.simps)
      qed
    qed
  qed
qed simp

lemma fs_write_Inr:
  assumes "fs_write p bs w = (Inr u, w')"
  shows "\<exists>q. stat_inode (tree w') p = Inr (q, Reg bs)"
proof -
  obtain q w1 where run: "fs_create p w = (Inr q, w1)" "fs_write_all q bs w1 = (Inr u, w')"
    using assms unfolding fs_write_def by (elim bind_InrE) blast
  have a: "tree w' = append_to q bs (tree w1)" using write_all_Inr [OF run(2)] .
  have c: "create_target (tree w) p = Inr q" "tree w1 = put q (Reg []) (tree w)"
    using run(1) by (auto simp: fs_create_def syscall_def tick_def split: option.splits sum.splits)
  have "q \<noteq> [] \<and> canon_path (put q (Reg bs) (tree w)) p = Inr q"
  proof (cases "resolve (tree w) p")
    case (Inr r)
    then obtain b where b: "resolve (tree w) p = Inr (b, q)" using c(1) by (cases r) (auto simp: create_target_def split: bool.splits option.splits inode.splits)
    show ?thesis
    proof (cases b)
      case True
      then obtain d where d: "lookup (tree w) q = Some (Reg d)" using c(1) b by (auto simp: create_target_def split: option.splits inode.splits)
      then have ne: "q \<noteq> []" by auto
      then have "grows (tree w) (put q (Reg bs) (tree w))" using d by (auto simp: grows_def lookup_put)
      moreover have "canon_path (tree w) p = Inr q" using b True by (simp add: canon_path_def)
      ultimately show ?thesis using ne grows_canon_path by blast
    next
      case False
      then show ?thesis using walk_fills [of max_symlinks "tree w" "[]" p q bs] b by (simp add: canon_path_def resolve_def)
    qed
  qed (use c(1) in \<open>simp add: create_target_def\<close>)
  then show ?thesis
    using a c(2) by (simp add: append_to_put stat_inode_def lookup_put)
qed

section \<open>The secret key is found again\<close>

text \<open>What the encoder and UTF-8 are: 44 characters of the base64 alphabet for 32 bytes; ASCII is valid.\<close>

definition base64_char :: "char \<Rightarrow> bool" where
  "base64_char c = (ascii_alphanumeric c \<or> c \<in> {CHR ''+'', CHR ''/'', CHR ''=''})"

definition host_ok :: "host \<Rightarrow> bool" where
  "host_ok H =
     ((\<forall>bs. length bs = 32 \<longrightarrow> length (base64_encode H bs) = 44 \<and> list_all base64_char (base64_encode H bs)) \<and>
      (\<forall>bs. (\<forall>b\<in>set bs. b < 128) \<longrightarrow> valid_utf8 H bs))"

text \<open>The key a key file holds.\<close>

definition file_key :: "host \<Rightarrow> tree \<Rightarrow> path \<Rightarrow> string option" where
  "file_key H t p =
     (case stat_inode t p of
        Inr (q, Reg bytes) \<Rightarrow>
          (let s = trim (map (\<lambda>b. char_of (unat b)) bytes) in if valid_utf8 H bytes \<and> s \<noteq> [] then Some s else None)
      | _ \<Rightarrow> None)"

lemma base64_visible: "base64_char c \<Longrightarrow> visible c"
  by (auto simp: base64_char_def visible_def ascii_alphanumeric_def ascii_upper_def ascii_lower_def ascii_digit_def char_code_def)

lemma unat_of_char: "unat (of_char c :: byte) = char_code c"
  using unat_of_nat [of "of_char c", where ?'a = 8] nat_of_char_less_256 [of c]
  by (simp only: of_nat_of_char char_code_def) simp

lemma text_of_bytes: "map (\<lambda>b. char_of (unat b)) (as_bytes s) = s"
  by (simp add: as_bytes_def comp_def unat_of_char char_code_def)

lemma as_bytes_small: "(\<forall>c\<in>set s. char_code c < 128) \<Longrightarrow> b \<in> set (as_bytes s) \<Longrightarrow> b < 128"
  by (auto simp: as_bytes_def word_less_nat_alt unat_of_char)

lemma file_key_written:
  assumes H: "host_ok H" and s: "list_all base64_char s" "s \<noteq> []" and t: "stat_inode t p = Inr (q, Reg (as_bytes (s @ [CHR 0x0A])))"
  shows "file_key H t p = Some s"
proof -
  have "\<forall>c\<in>set s. visible c" using s(1) base64_visible by (auto simp: list_all_iff)
  then have v: "visible (hd s)" "visible (last s)" "\<forall>c\<in>set s. char_code c < 128"
    using s(2) by (auto simp: visible_def)
  have "\<forall>b\<in>set (as_bytes (s @ [CHR 0x0A])). b < 128"
    using as_bytes_small [of "s @ [CHR 0x0A]"] v(3) by (auto simp: char_code_def)
  then have "valid_utf8 H (as_bytes (s @ [CHR 0x0A]))" using H by (simp add: host_ok_def)
  then show ?thesis
    using trim_line [OF s(2) v(1,2)] s(2) by (simp add: file_key_def t text_of_bytes)
qed

lemma readonly_key_of_file: "keeps readonly (key_of_file H p)"
  unfolding key_of_file_def fs_read_to_string_def fs_read_def by (intro readonly_rules)

lemma key_of_file_calm:
  assumes "calm w"
  shows "\<exists>w'. key_of_file H p w = (Inr (file_key H (tree w) p), w') \<and> tree w' = tree w \<and> calm w'"
proof -
  have "fst (key_of_file H p w) = Inr (file_key H (tree w) p)"
    using assms
    by (auto simp: key_of_file_def fs_read_to_string_def exists_or_false_def fs_try_exists_def fs_read_def bind_def attempt_def
        query_calm ret_def throw_def file_key_def Let_def split: sum.splits prod.splits inode.splits io_error.splits)
  then show ?thesis
    using readonlyD [OF readonly_key_of_file] readonly_calm [OF readonly_key_of_file] assms
    by (metis prod.collapse)
qed

lemma key_of_file_Some:
  assumes "key_of_file H p w = (Inr (Some key), w')"
  shows "file_key H (tree w') p = Some key"
proof -
  obtain e w1 r where w1: "exists_or_false p w = (Inr e :: panic + bool, w1)"
    and r: "fs_read_to_string H p w1 = (r, w')" "e"
    and found: "(case r of Inl _ \<Rightarrow> None | Inr contents \<Rightarrow> (let trimmed = trim contents in if trimmed \<noteq> [] then Some trimmed else None)) = Some key"
    using assms unfolding key_of_file_def
    by (auto elim!: bind_InrE simp: attempt_def split: if_splits prod.splits)
  obtain contents where c: "r = Inr contents" and key: "trim contents = key" "key \<noteq> []"
    using found by (cases r) (auto simp: Let_def split: if_splits)
  obtain bytes where b: "fs_read p w1 = (Inr bytes, w')" "valid_utf8 H bytes" "contents = map (\<lambda>b. char_of (unat b)) bytes"
    using r(1) c unfolding fs_read_to_string_def by (auto elim!: bind_InrE split: if_splits)
  obtain q where "stat_inode (tree w1) p = Inr (q, Reg bytes)"
    using query_Inr [OF b(1) [unfolded fs_read_def]] by (auto split: sum.splits prod.splits inode.splits)
  then have "file_key H (tree w1) p = Some key" using key b by (simp add: file_key_def)
  moreover have "tree w1 = tree w" using readonlyD [OF readonly_exists_or_false w1] .
  ultimately show ?thesis using readonlyD [OF readonly_key_of_file assms] by simp
qed

lemma resolved_key:
  assumes H: "host_ok H" and run: "resolve_secret_key H dir w = (Inr key, w')"
  shows "key_of_variable H = Some key \<or> key_of_variable H = None \<and> file_key H (tree w') (key_path H dir) = Some key"
proof (cases "key_of_variable H")
  case None
  let ?p = "key_path H dir"
  obtain found w1 where f: "key_of_file H ?p w = (Inr found, w1)" and
    rest: "(case found of Some key \<Rightarrow> ret key | None \<Rightarrow> bind (generate_secret_key H) (\<lambda>key.
      bind (persist_secret_key H dir key) (\<lambda>_. ret key))) w1 = (Inr key, w')"
    using run None unfolding resolve_secret_key_def by (auto elim: bind_InrE)
  show ?thesis
  proof (cases found)
    case (Some k)
    then show ?thesis using None f rest key_of_file_Some [of H ?p w] by auto
  next
    case found: None
    obtain bs w2 w3 where key: "key = base64_encode H bs" "length bs = 32" and per: "persist_secret_key H dir key w2 = (Inr (), w')"
      using rest found unfolding generate_secret_key_def
      by (auto elim!: bind_InrE simp: fill_bytes_def)
    obtain w4 w5 where wr: "fs_write ?p (as_bytes (key @ [CHR 0x0A])) w4 = (Inr (), w5)"
      and "ignore (fs_set_permissions ?p) w5 = (Inr (), w')"
      using per unfolding persist_secret_key_def by (auto elim!: bind_InrE)
    then have "tree w' = tree w5" by (auto simp: ignore_def fs_set_permissions_def)
    then obtain q where "stat_inode (tree w') ?p = Inr (q, Reg (as_bytes (key @ [CHR 0x0A])))"
      using fs_write_Inr [OF wr] by auto
    moreover have "list_all base64_char key" "key \<noteq> []" using H key by (auto simp: host_ok_def)
    ultimately show ?thesis using None file_key_written [OF H] by blast
  qed
qed (use run in \<open>simp add: resolve_secret_key_def\<close>)

lemma key_found_again:
  assumes H: "host_ok H" and run: "resolve_secret_key H dir w = (Inr key, w')" and calm: "calm v"
    and same: "file_key H (tree v) (key_path H dir) = file_key H (tree w') (key_path H dir)"
  shows "\<exists>v'. resolve_secret_key H dir v = (Inr key, v') \<and> tree v' = tree v \<and> calm v'"
proof (cases "key_of_variable H")
  case None
  then have "file_key H (tree v) (key_path H dir) = Some key" using resolved_key [OF H run] same by simp
  then show ?thesis
    using key_of_file_calm [OF calm, of H "key_path H dir"] None by (auto simp: resolve_secret_key_def bind_InrI)
qed (use resolved_key [OF H run] calm in \<open>simp add: resolve_secret_key_def\<close>)

end
