(* ===== verification/Launch.thy ===== *)
theory Launch
  imports Settings Boot Http
begin

text \<open>
  The start of the program (\<open>rocket\<close> of \<open>src/src/main.rs\<close>): the configuration, then the setup of the
  database; and the responder of its error catchers. Logging and the choice of Rocket's own settings
  are left out.
\<close>

section \<open>The start\<close>

datatype startup_failure = Panicked panic | SetupFailed app_error

definition launch :: "host \<Rightarrow> crypto \<Rightarrow> ('z world_scheme, startup_failure, app_config \<times> byte list) act" where
  "launch H C =
     bind (map_err Panicked (from_env H)) (\<lambda>config.
     bind (map_err SetupFailed (setup_database C config)) (\<lambda>master_key.
     ret (config, master_key)))"

section \<open>Error catchers\<close>

text \<open>
  The media types a request accepts come parsed; rendering a template, the reason phrase of a status
  and the JSON text are Rocket's and serde's.
\<close>

record renderer =
  render_template :: "string \<Rightarrow> http_response option"
  reason_lossy :: "nat \<Rightarrow> string"
  catcher_json :: "nat \<Rightarrow> string \<Rightarrow> string \<Rightarrow> string"

definition wants_html :: "(string \<times> string) list option \<Rightarrow> bool" where
  "wants_html accept = (case accept of None \<Rightarrow> False
     | Some types \<Rightarrow> list_ex (\<lambda>(top, sub). same_header top ''text'' \<and> same_header sub ''html'') types)"

definition catcher_respond :: "renderer \<Rightarrow> (string \<times> string) list option \<Rightarrow> nat \<Rightarrow> string \<Rightarrow> http_response" where
  "catcher_respond R accept code json =
     (case (if wants_html accept then render_template R (catcher_template code) else None) of
        Some template \<Rightarrow> template\<lparr>hr_status := code\<rparr>
      | None \<Rightarrow> set_header ''Content-Type'' ''application/json'' \<lparr>hr_status = code, hr_headers = [], hr_body = as_bytes json\<rparr>)"

definition catch_error :: "renderer \<Rightarrow> (string \<times> string) list option \<Rightarrow> nat \<Rightarrow> http_response option" where
  "catch_error R accept code =
     map_option (\<lambda>description. catcher_respond R accept code
       (catcher_json R code (reason_lossy R code) description))
     (catcher_description code)"

section \<open>The keys of a restarted server\<close>

abbreviation secret_file :: "host \<Rightarrow> path" where
  "secret_file H \<equiv> key_path H (env_or H ''IRONDRIVE_DATA_DIR'' ''./data'')"

lemma same_db_key_of_file: "keeps same_db (key_of_file H p)"
  unfolding key_of_file_def fs_read_to_string_def fs_read_def exists_or_false_def fs_try_exists_def
  by (intro same_db_rules)

lemma from_env_again:
  fixes w v :: "'z db_scheme"
  assumes H: "host_ok H" and run: "from_env H w = (Inr config, w1)" and calm: "calm v"
    and same: "file_key H (tree v) (secret_file H) = file_key H (tree w1) (secret_file H)"
  shows "\<exists>v1 :: 'z db_scheme. from_env H v = (Inr config, v1) \<and> tree v1 = tree v \<and> calm v1 \<and> tb v1 = tb v"
proof -
  let ?dir = "env_or H ''IRONDRIVE_DATA_DIR'' ''./data''"
  obtain secret where s: "resolve_secret_key H ?dir w = (Inr secret, w1)" "env_config_of H secret = Inr config"
    using run unfolding from_env_def by (auto elim!: bind_InrE simp: lift_def)
  obtain v1 :: "'z db_scheme" where v1: "resolve_secret_key H ?dir v = (Inr secret, v1)" "tree v1 = tree v" "calm v1"
    using key_found_again [OF H s(1) calm same] by blast
  have "tb v1 = tb v"
  proof (cases "key_of_variable H")
    case None
    then have "file_key H (tree v) (secret_file H) = Some secret" using resolved_key [OF H s(1)] same by simp
    then obtain u :: "'z db_scheme" where u: "key_of_file H (secret_file H) v = (Inr (Some secret), u)"
      using key_of_file_calm [OF calm, of H "secret_file H"] by auto
    then have "v1 = u" using v1(1) None by (simp add: resolve_secret_key_def bind_InrI)
    then show ?thesis using keepsD [OF same_db_key_of_file u] by (simp add: same_db_def)
  qed (use v1(1) in \<open>simp add: resolve_secret_key_def\<close>)
  then show ?thesis using v1 s(2) by (auto simp: from_env_def bind_InrI lift_def)
qed

lemma setup_master:
  fixes w :: "'z world_scheme"
  assumes C: "crypto_ok C" and run: "setup_database C config w = (Inr mk, w')"
  shows "\<exists>wk blob. decode_secret_key C (secret_key config) = Inr wk \<and> master_row w' = Some blob \<and> aes_gcm_unwrap C wk blob = Inr mk \<and>
    (\<forall>b. master_row w = Some b \<longrightarrow> b = blob)"
proof -
  let ?u = "\<lparr>libraries = load_entries C mk (filter (\<lambda>(i, mode, blob). mode = ''server'') (library_key_rows (tb w))) [],
      spaces = load_entries C mk (filter (\<lambda>(i, mode, blob). mode = ''server'') (space_key_rows (tb w))) []\<rparr>"
  obtain w1 w2 :: "'z world_scheme" where boot: "bootstrap_master_key C (secret_key config) w1 = (Inr mk, w2)" "same_rows w w1"
    and rest: "same_rows (w2\<lparr>unlocked := ?u\<rparr>) w'"
    using setup_database_Inr [OF run] by blast
  show ?thesis
    using bootstrap_Inr [OF C boot(1)] keepsD [OF keeps_master_bootstrap boot(1)] boot(2) rest
    by (auto simp: same_rows_def keeps_master_def master_row_def)
qed

text \<open>
  C15. The keys survive restarts. Once the server has started in some environment, a later start there
  that finds the key file (if the secret came from a file) and the master key's row as they were gets
  the same configuration, the secret included, and the same master key, and leaves the disk and the
  row alone; if it fails, it fails in the setup. And no boot, with whatever secret, successful or
  failing anywhere, changes a stored master key.
\<close>

theorem keys_survive_restarts:
  fixes w v :: "'z world_scheme"
  assumes C: "crypto_ok C" and H: "host_ok H"
    and first: "from_env H w = (Inr config, w1)" "setup_database C config w1 = (Inr mk, w')"
    and later: "calm v" "file_key H (tree v) (secret_file H) = file_key H (tree w1) (secret_file H)" "master_row v = master_row w'"
  shows "(\<exists>v1 :: 'z world_scheme. from_env H v = (Inr config, v1) \<and> tree v1 = tree v \<and>
      bootstrap_master_key C (secret_key config) v1 = (Inr mk, tick v1)) \<and>
    (case fst (launch H C v) of Inr (config2, mk2) \<Rightarrow> config2 = config \<and> mk2 = mk | Inl e \<Rightarrow> (\<exists>a. e = SetupFailed a)) \<and>
    (\<forall>sk (u :: 'z world_scheme) blob. master_row u = Some blob \<longrightarrow> master_row (snd (bootstrap_master_key C sk u)) = Some blob)"
proof -
  obtain v1 :: "'z world_scheme" where v1: "from_env H v = (Inr config, v1)" "tree v1 = tree v" "calm v1" "tb v1 = tb v"
    using from_env_again [OF H first(1) later(1,2)] by blast
  obtain wk blob where k: "decode_secret_key C (secret_key config) = Inr wk" "master_row v1 = Some blob" "aes_gcm_unwrap C wk blob = Inr mk"
    using setup_master [OF C first(2)] later(3) v1(4) by (auto simp: master_row_def)
  then have "load_encrypted_master_key v1 = (Inr (Some blob), tick v1)"
    using v1(3) by (simp add: load_encrypted_master_key_def select_calm master_row_def)
  then have boot: "bootstrap_master_key C (secret_key config) v1 = (Inr mk, tick v1)"
    using k by (simp add: bootstrap_master_key_def bind_InrI)
  have "mk2 = mk" if "setup_database C config v1 = (Inr mk2, v2)" for mk2 v2
    using setup_master [OF C that] k by auto
  then have "case fst (launch H C v) of Inr (config2, mk2) \<Rightarrow> config2 = config \<and> mk2 = mk | Inl e \<Rightarrow> (\<exists>a. e = SetupFailed a)"
    using v1(1) by (auto simp: launch_def bind_def map_err_def ret_def split: prod.splits sum.splits)
  then show ?thesis
    using v1(1,2) boot keeps_master_bootstrap unfolding keeps_def keeps_master_def by fastforce
qed

section \<open>A first start and a restart\<close>

definition bare_host :: host where
  "bare_host = \<lparr>env_var = (\<lambda>x. None), current_dir = [], base64_encode = (\<lambda>bs. replicate 44 (CHR ''A'')), valid_utf8 = (\<lambda>bs. True)\<rparr>"

definition key_crypto :: crypto where
  "key_crypto = toy_crypto\<lparr>base64_decode := (\<lambda>s. Inr (take 32 (as_bytes s)))\<rparr>"

lemma bare_host_ok: "host_ok bare_host"
  by (simp add: host_ok_def bare_host_def list_all_iff base64_char_def ascii_alphanumeric_def ascii_upper_def char_code_def)

lemma key_crypto_ok: "crypto_ok key_crypto"
  using toy_crypto_ok by (simp add: crypto_ok_def key_crypto_def)

abbreviation new_config :: app_config where
  "new_config \<equiv> projr (env_config_of bare_host (replicate 44 (CHR ''A'')))"

abbreviation new_disk :: world where
  "new_disk \<equiv> snd (resolve_secret_key bare_host ''./data'' (live two_users))"

lemma new_config_fields:
  "env_config_of bare_host (replicate 44 (CHR ''A'')) = Inr new_config"
  "secret_key new_config = replicate 44 (CHR ''A'')"
  "data_dir new_config = host_path bare_host ''./data''" "db_dir new_config = host_path bare_host ''./db''"
  by (simp_all add: env_config_of_def env_size_def env_parse_def env_or_def bare_host_def host_path_def)

lemma new_disk_tree:
  "tree new_disk = [([''data''], Dir), ([''data'', ''.secret_key''], Reg (as_bytes (replicate 44 (CHR ''A'') @ [CHR 0x0A])))]"
  by code_simp

lemma new_disk_rest: "calm new_disk" "tb new_disk = two_users"
proof -
  have run: "resolve_secret_key bare_host ''./data'' (live two_users) = (fst (resolve_secret_key bare_host ''./data'' (live two_users)), new_disk)"
    by simp
  have "keeps same_db (resolve_secret_key bare_host ''./data'' :: (unit world_ext db_ext, string) start)"
    unfolding resolve_secret_key_def persist_secret_key_def generate_secret_key_def fs_create_dir_all_def fs_write_def fs_create_def
      fs_write_all_def fs_set_permissions_def
    by (intro same_db_rules same_db_key_of_file)
  from keepsD [OF this run] show "tb new_disk = two_users" by (simp add: same_db_def)
  have "keeps same_keys (resolve_secret_key bare_host ''./data'' :: (unit world_ext db_ext, string) start)"
    unfolding resolve_secret_key_def persist_secret_key_def generate_secret_key_def fs_create_dir_all_def fs_write_def fs_create_def
      fs_write_all_def fs_set_permissions_def key_of_file_def fs_read_to_string_def fs_read_def exists_or_false_def fs_try_exists_def
    by (intro same_keys_rules)
  from keepsD [OF this run] show "calm new_disk" by (simp add: same_keys_def calm_def live_def)
qed

lemma first_start: "from_env bare_host (live two_users) = (Inr new_config, new_disk)"
proof -
  have "fst (resolve_secret_key bare_host ''./data'' (live two_users)) = Inr (replicate 44 (CHR ''A''))" by code_simp
  then have "resolve_secret_key bare_host ''./data'' (live two_users) = (Inr (replicate 44 (CHR ''A'')), new_disk)"
    by (metis prod.collapse)
  then show ?thesis
    using new_config_fields(1) by (simp add: from_env_def bind_InrI lift_def env_or_def bare_host_def)
qed

lemma first_setup: "\<exists>mk w'. setup_database key_crypto new_config new_disk = (Inr mk, w')"
proof (rule calm_boot [OF new_disk_rest(1)])
  let ?d = "boot_paths new_config @ [db_dir new_config]"
  have d: "?d = map (path_join (host_path bare_host ''./data'')) [''libraries'', ''spaces'', ''.chunks''] @ [host_path bare_host ''./db'']"
    by (simp only: boot_paths_def new_config_fields(3,4))
  have "\<not> isl (make_dirs ?d (tree new_disk))"
    unfolding d new_disk_tree by code_simp
  then show "make_dirs ?d (tree new_disk) = Inr (projr (make_dirs ?d (tree new_disk)))" by (metis sum.collapse(2))
  show "decode_secret_key key_crypto (secret_key new_config) = Inr (replicate 32 65)"
    unfolding new_config_fields(2) by code_simp
  show "case master_row new_disk of Some blob \<Rightarrow> \<not> isl (aes_gcm_unwrap key_crypto (replicate 32 65) blob)
      | None \<Rightarrow> \<forall>n p. gcm_encrypt key_crypto (replicate 32 65) n p \<noteq> None"
    unfolding master_row_def new_disk_rest(2) by (simp add: two_users_def no_tables_def key_crypto_def toy_gcm)
qed

theorem keys_survive_restarts_witness:
  "\<exists>config mk w1 w'. from_env bare_host (live two_users) = (Inr config, w1) \<and> setup_database key_crypto config w1 = (Inr mk, w') \<and>
     (\<exists>v1. from_env bare_host ((live (tb w'))\<lparr>tree := tree w1\<rparr>) = (Inr config, v1) \<and>
       fst (bootstrap_master_key key_crypto (secret_key config) v1) = Inr mk)"
proof -
  obtain mk w' where started: "setup_database key_crypto new_config new_disk = (Inr mk, w')"
    using first_setup by blast
  show ?thesis
    using keys_survive_restarts [OF key_crypto_ok bare_host_ok first_start started,
        of "(live (tb w'))\<lparr>tree := tree new_disk\<rparr>"] first_start started
    by (force simp: calm_def live_def master_row_def)
qed

text \<open>
  A start that cannot read the key file, though it is there, replaces it: the old secret, and with it
  the way to the master key, is gone from the disk.
\<close>

definition unreadable_once :: world where
  "unreadable_once = (live two_users)\<lparr>
     tree := [([''data''], Dir), ([''data'', ''.secret_key''], Reg (as_bytes ''old''))],
     faults := (\<lambda>n. if n = 1 then Some ''Input/output error'' else None)\<rparr>"

lemma failed_read_replaces_secret:
  "file_key bare_host (tree unreadable_once) (key_path bare_host ''./data'') = Some ''old''"
  "file_key bare_host (tree (snd (resolve_secret_key bare_host ''./data'' unreadable_once))) (key_path bare_host ''./data'') =
     Some (replicate 44 (CHR ''A''))"
proof -
  let ?p = "key_path bare_host ''./data''"
  have "stat_inode (tree unreadable_once) ?p = Inr ([''data'', ''.secret_key''], Reg (as_bytes ''old''))" by code_simp
  moreover have "trim ''old'' = ''old''" by code_simp
  ultimately show "file_key bare_host (tree unreadable_once) ?p = Some ''old''"
    by (simp add: file_key_def text_of_bytes bare_host_def)
  have "stat_inode (tree (snd (resolve_secret_key bare_host ''./data'' unreadable_once))) ?p =
      Inr ([''data'', ''.secret_key''], Reg (as_bytes (replicate 44 (CHR ''A'') @ [CHR 0x0A])))" by code_simp
  moreover have "list_all base64_char (replicate 44 (CHR ''A''))" by code_simp
  ultimately show "file_key bare_host (tree (snd (resolve_secret_key bare_host ''./data'' unreadable_once))) ?p = Some (replicate 44 (CHR ''A''))"
    using file_key_written [OF bare_host_ok] by simp
qed

end
