(* ===== verification/Migrations.thy ===== *)
theory Migrations
  imports Settings Db
begin

text \<open>
  The migration runner of \<open>src/src/db.rs\<close>: the \<open>.sql\<close> files of \<open>migrations/\<close>, in order of their
  names, each run once and recorded in the table \<open>_migrations\<close>.

  What a script does is SQLite's: \<open>scripts\<close> gives, for its text and a schema, the schema afterwards
  and the error if there is one. A script is not a transaction, so a failing one may have changed the
  schema. No script touches \<open>_migrations\<close>; the time column of that table is left out.
\<close>

section \<open>Statements\<close>

type_synonym 'd scripts = "string \<Rightarrow> 'd \<Rightarrow> sqlx_error option \<times> 'd"

record 'd schema_db = os +
  ledger :: "string list option"
  db_schema :: 'd

type_synonym ('d, 'z, 'a) sql = "(('d, 'z) schema_db_scheme, sqlx_error, 'a) act"

definition sql_call ::
  "(string list option \<times> 'd \<Rightarrow> (sqlx_error + 'a) \<times> string list option \<times> 'd) \<Rightarrow> ('d, 'z, 'a) sql"
where
  "sql_call f = (\<lambda>w. case faults w (ticks w) of
      Some m \<Rightarrow> (Inl (SqlOther m), tick w)
    | None \<Rightarrow> (case f (ledger w, db_schema w) of (r, l, d) \<Rightarrow> (r, tick (w\<lparr>ledger := l, db_schema := d\<rparr>))))"

definition no_ledger :: "sqlx_error" where "no_ledger = SqlOther ''no such table: _migrations''"

definition create_ledger :: "('d, 'z, unit) sql" where
  "create_ledger = sql_call (\<lambda>(l, d). (Inr (), Some (case l of None \<Rightarrow> [] | Some names \<Rightarrow> names), d))"

definition find_applied :: "string \<Rightarrow> ('d, 'z, bool) sql" where
  "find_applied f = sql_call (\<lambda>(l, d). case l of None \<Rightarrow> (Inl no_ledger, l, d) | Some names \<Rightarrow> (Inr (f \<in> set names), l, d))"

definition raw_sql :: "'d scripts \<Rightarrow> string \<Rightarrow> ('d, 'z, unit) sql" where
  "raw_sql S sql = sql_call (\<lambda>(l, d). case S sql d of (e, d') \<Rightarrow> (case e of None \<Rightarrow> Inr () | Some m \<Rightarrow> Inl m, l, d'))"

definition record_applied :: "string \<Rightarrow> ('d, 'z, unit) sql" where
  "record_applied f = sql_call (\<lambda>(l, d). case l of None \<Rightarrow> (Inl no_ledger, l, d)
     | Some names \<Rightarrow> if f \<in> set names then (Inl (unique_failed ''_migrations.filename''), l, d)
                    else (Inr (), Some (names @ [f]), d))"

section \<open>Files\<close>

record migration_file =
  mg_filename :: string
  mg_sql :: string

definition migrations_dir :: "host \<Rightarrow> path" where "migrations_dir H = path_join (current_dir H) ''migrations''"

definition script_name :: "host \<Rightarrow> string \<Rightarrow> bool" where
  "script_name H n = (valid_utf8 H (as_bytes n) \<and> ends_with n ''.sql'')"

fun read_scripts :: "host \<Rightarrow> string list \<Rightarrow> ('z, migration_file list) io" where
  "read_scripts H [] = ret []"
| "read_scripts H (f # fs) =
     bind (fs_read_to_string H (path_join (migrations_dir H) f)) (\<lambda>sql.
     bind (read_scripts H fs) (\<lambda>ms.
     ret (\<lparr>mg_filename = f, mg_sql = sql\<rparr> # ms)))"

definition read_migration_files :: "host \<Rightarrow> ('z, migration_file list) io" where
  "read_migration_files H =
     bind (exists_or_false (migrations_dir H)) (\<lambda>e.
     bind (reject_if (\<not> e) (IoOther (''migrations/ directory not found '' @ em_dash @ '' cannot start without schema migrations''))) (\<lambda>_.
     bind (fs_read_dir (migrations_dir H)) (\<lambda>entries.
     read_scripts H (sort (filter (script_name H) (map fst entries))))))"

section \<open>The run\<close>

fun apply_migrations :: "'d scripts \<Rightarrow> migration_file list \<Rightarrow> nat \<Rightarrow> ('d, 'z, nat) sql" where
  "apply_migrations S [] n = ret n"
| "apply_migrations S (m # ms) n =
     bind (find_applied (mg_filename m)) (\<lambda>already.
     if already then apply_migrations S ms n
     else bind (raw_sql S (mg_sql m)) (\<lambda>_.
          bind (record_applied (mg_filename m)) (\<lambda>_.
          apply_migrations S ms (n + 1))))"

definition sqlx_io :: "io_error \<Rightarrow> sqlx_error" where
  "sqlx_io e = SqlOther (''error communicating with database: '' @ io_display e)"

definition run_migrations :: "host \<Rightarrow> 'd scripts \<Rightarrow> ('d, 'z, unit) sql" where
  "run_migrations H S =
     bind create_ledger (\<lambda>_.
     bind (map_err sqlx_io (read_migration_files H)) (\<lambda>migrations.
     bind (apply_migrations S migrations 0) (\<lambda>applied_count.
     ret ())))"

section \<open>What a run is to do\<close>

text \<open>The names recorded and the schema, after the files that are not recorded yet ran in order.\<close>

fun upgraded :: "'d scripts \<Rightarrow> migration_file list \<Rightarrow> string list \<times> 'd \<Rightarrow> string list \<times> 'd" where
  "upgraded S [] s = s"
| "upgraded S (m # ms) s =
     upgraded S ms (if mg_filename m \<in> set (fst s) then s
                    else (fst s @ [mg_filename m], snd (S (mg_sql m) (snd s))))"

text \<open>A run that stopped: the files before some file are done, and its script may have run unrecorded.\<close>

definition stopped :: "'d scripts \<Rightarrow> migration_file list \<Rightarrow> string list \<times> 'd \<Rightarrow> string list \<times> 'd \<Rightarrow> bool" where
  "stopped S ms s s' = (\<exists>before m after. ms = before @ m # after \<and>
     (s' = upgraded S before s \<or>
      mg_filename m \<notin> set (fst (upgraded S before s)) \<and>
      s' = (fst (upgraded S before s), snd (S (mg_sql m) (snd (upgraded S before s))))))"

definition progress :: "('d, 'z) schema_db_scheme \<Rightarrow> string list \<times> 'd" where
  "progress w = (case ledger w of None \<Rightarrow> [] | Some names \<Rightarrow> names, db_schema w)"

text \<open>The scripts on a disk, in order; none when the directory or a script cannot be read.\<close>

definition text_at :: "host \<Rightarrow> tree \<Rightarrow> path \<Rightarrow> string option" where
  "text_at H t p = (case stat_inode t p of Inr (q, Reg bytes) \<Rightarrow>
       if valid_utf8 H bytes then Some (map (\<lambda>b. char_of (unat b)) bytes) else None | _ \<Rightarrow> None)"

definition scripts_on :: "host \<Rightarrow> tree \<Rightarrow> migration_file list \<Rightarrow> bool" where
  "scripts_on H t ms = (\<exists>q. stat_inode t (migrations_dir H) = Inr (q, Dir) \<and>
     map mg_filename ms = sort (filter (script_name H) (map fst (children t q))) \<and>
     (\<forall>m\<in>set ms. text_at H t (path_join (migrations_dir H) (mg_filename m)) = Some (mg_sql m)))"

section \<open>Reading the files\<close>

lemma readonly_read_text: "keeps readonly (fs_read_to_string H p)"
  unfolding fs_read_to_string_def fs_read_def by (intro readonly_rules)

lemma read_text_Inr:
  assumes "fs_read_to_string H p w = (Inr s, w')"
  shows "text_at H (tree w) p = Some s"
proof -
  obtain bytes where b: "fs_read p w = (Inr bytes, w')" "valid_utf8 H bytes" "s = map (\<lambda>b. char_of (unat b)) bytes"
    using assms unfolding fs_read_to_string_def by (auto elim!: bind_InrE split: if_splits)
  then show ?thesis
    using query_Inr [OF b(1) [unfolded fs_read_def]] by (auto simp: text_at_def split: sum.splits prod.splits inode.splits)
qed

lemma read_text_calm:
  assumes "calm w" "text_at H (tree w) p = Some s"
  shows "fs_read_to_string H p w = (Inr s, tick w)"
  using assms by (auto simp: fs_read_to_string_def fs_read_def bind_def query_calm text_at_def
      split: sum.splits prod.splits inode.splits if_splits)

lemma readonly_read_scripts: "keeps readonly (read_scripts H fs)"
proof (induction fs)
  case (Cons f fs)
  then show ?case unfolding read_scripts.simps by (intro readonly_rules readonly_read_text)
qed (unfold read_scripts.simps, intro readonly_rules)

lemma read_scripts_Inr:
  "read_scripts H fs w = (Inr ms, w') \<Longrightarrow> map mg_filename ms = fs \<and>
     (\<forall>m\<in>set ms. text_at H (tree w) (path_join (migrations_dir H) (mg_filename m)) = Some (mg_sql m))"
proof (induction fs arbitrary: w ms w')
  case (Cons f fs)
  obtain sql w1 ms1 where 1: "fs_read_to_string H (path_join (migrations_dir H) f) w = (Inr sql, w1)"
    "read_scripts H fs w1 = (Inr ms1, w')" "ms = \<lparr>mg_filename = f, mg_sql = sql\<rparr> # ms1"
    using Cons.prems by (auto elim!: bind_InrE)
  moreover have "tree w1 = tree w" using readonlyD [OF readonly_read_text 1(1)] .
  ultimately show ?case using Cons.IH [OF 1(2)] read_text_Inr [OF 1(1)] by auto
qed simp

lemma read_scripts_calm:
  "calm w \<Longrightarrow> (\<forall>m\<in>set ms. text_at H (tree w) (path_join (migrations_dir H) (mg_filename m)) = Some (mg_sql m)) \<Longrightarrow>
     \<exists>w'. read_scripts H (map mg_filename ms) w = (Inr ms, w')"
proof (induction ms arbitrary: w)
  case (Cons m ms)
  have "\<exists>w'. read_scripts H (map mg_filename ms) (tick w) = (Inr ms, w')" using Cons by simp
  then show ?case using Cons.prems by (auto simp: bind_InrI read_text_calm)
qed simp

lemma readonly_read_files: "keeps readonly (read_migration_files H)"
  unfolding read_migration_files_def fs_read_dir_def
  by (intro readonly_rules readonly_exists_or_false readonly_read_scripts)

lemma read_files_Inr:
  assumes "read_migration_files H w = (Inr ms, w')"
  shows "scripts_on H (tree w) ms"
proof -
  obtain e w1 entries w2 where 1: "exists_or_false (migrations_dir H) w = (Inr e :: io_error + bool, w1)"
    "fs_read_dir (migrations_dir H) w1 = (Inr entries, w2)"
    "read_scripts H (sort (filter (script_name H) (map fst entries))) w2 = (Inr ms, w')"
    using assms unfolding read_migration_files_def by (auto elim!: bind_InrE simp: reject_if_def split: if_splits)
  have t: "tree w1 = tree w" "tree w2 = tree w"
    using readonlyD [OF readonly_exists_or_false 1(1)] query_Inr [OF 1(2) [unfolded fs_read_dir_def]] by auto
  obtain q where "stat_inode (tree w) (migrations_dir H) = Inr (q, Dir)" "map fst entries = map fst (children (tree w) q)"
    using query_Inr [OF 1(2) [unfolded fs_read_dir_def]] t
    by (auto simp: comp_def split_beta split: sum.splits prod.splits inode.splits)
  then show ?thesis using read_scripts_Inr [OF 1(3)] t by (auto simp: scripts_on_def)
qed

lemma read_files_calm:
  assumes calm: "calm w" and on: "scripts_on H (tree w) ms"
  shows "\<exists>w'. read_migration_files H w = (Inr ms, w')"
proof -
  obtain q where q: "stat_inode (tree w) (migrations_dir H) = Inr (q, Dir)"
    and names: "map mg_filename ms = sort (filter (script_name H) (map fst (children (tree w) q)))"
    and texts: "\<forall>m\<in>set ms. text_at H (tree w) (path_join (migrations_dir H) (mg_filename m)) = Some (mg_sql m)"
    using on by (auto simp: scripts_on_def)
  have e: "exists_or_false (migrations_dir H) w = (Inr True :: io_error + bool, tick w)"
    using calm q by (simp add: exists_or_false_def fs_try_exists_def query_calm bind_def attempt_def ret_def)
  let ?entries = "map (\<lambda>(n, i). (n, migrations_dir H @ [n])) (children (tree w) q)"
  have d: "fs_read_dir (migrations_dir H) (tick w) = (Inr ?entries, tick (tick w))"
    using calm q by (simp add: fs_read_dir_def query_calm)
  have "map fst ?entries = map fst (children (tree w) q)" by (simp add: comp_def split_beta)
  then have "sort (filter (script_name H) (map fst ?entries)) = map mg_filename ms" by (simp only: names)
  then obtain w' where "read_scripts H (sort (filter (script_name H) (map fst ?entries))) (tick (tick w)) = (Inr ms, w')"
    using read_scripts_calm [of "tick (tick w)" ms H] calm texts by (simp only: calm_tick tree_tick) blast
  then show ?thesis using e d by (auto simp: read_migration_files_def bind_InrI reject_if_def)
qed

section \<open>Running the scripts\<close>

lemma sql_call_run:
  "sql_call f w = (r, w') \<Longrightarrow> (\<exists>m. r = Inl m \<and> w' = tick w) \<or>
     (\<exists>l d. f (ledger w, db_schema w) = (r, l, d) \<and> w' = tick (w\<lparr>ledger := l, db_schema := d\<rparr>))"
  by (auto simp: sql_call_def split: option.splits prod.splits)

lemma sql_call_calm:
  "calm w \<Longrightarrow> sql_call f w = (case f (ledger w, db_schema w) of (r, l, d) \<Rightarrow> (r, tick (w\<lparr>ledger := l, db_schema := d\<rparr>)))"
  by (simp add: sql_call_def calm_def)

lemma schema_tick [simp]: "ledger (tick w) = ledger w" "db_schema (tick w) = db_schema w"
  by (simp_all add: tick_def)

lemma calm_ledger [simp]: "calm (w\<lparr>ledger := l, db_schema := d\<rparr>) = calm w"
  by (simp add: calm_def)

lemma stopped_first: "stopped S (m # ms) s s"
  unfolding stopped_def by (rule exI [of _ "[]"]) auto

lemma stopped_script:
  "mg_filename m \<notin> set (fst s) \<Longrightarrow> stopped S (m # ms) s (fst s, snd (S (mg_sql m) (snd s)))"
  unfolding stopped_def by (rule exI [of _ "[]"]) auto

lemma stopped_later:
  assumes "stopped S ms (if mg_filename m \<in> set (fst s) then s else (fst s @ [mg_filename m], snd (S (mg_sql m) (snd s)))) s'"
  shows "stopped S (m # ms) s s'"
proof -
  let ?s = "if mg_filename m \<in> set (fst s) then s else (fst s @ [mg_filename m], snd (S (mg_sql m) (snd s)))"
  obtain before n after where *: "ms = before @ n # after"
    "s' = upgraded S before ?s \<or> mg_filename n \<notin> set (fst (upgraded S before ?s)) \<and>
      s' = (fst (upgraded S before ?s), snd (S (mg_sql n) (snd (upgraded S before ?s))))"
    using assms unfolding stopped_def by blast
  have u: "upgraded S (m # before) s = upgraded S before ?s" by simp
  show ?thesis unfolding stopped_def
    by (intro exI [of _ "m # before"] exI [of _ n] exI [of _ after]) (use * in \<open>simp only: u append_Cons simp_thms\<close>)
qed

lemma apply_run:
  fixes w :: "('d, 'z) schema_db_scheme"
  shows "apply_migrations S ms n w = (r, w') \<Longrightarrow> ledger w = Some l \<Longrightarrow>
     tree w' = tree w \<and> ledger w' \<noteq> None \<and>
     (case r of Inr k \<Rightarrow> progress w' = upgraded S ms (progress w) | Inl e \<Rightarrow> stopped S ms (progress w) (progress w'))"
proof (induction ms arbitrary: n w l)
  case (Cons m ms)
  let ?f = "mg_filename m"
  have s: "progress w = (l, db_schema w)" using Cons.prems(2) by (simp add: progress_def)
  have same: ?case if "tree w' = tree w" "ledger w' = Some l" "db_schema w' = db_schema w" "isl r"
  proof -
    have "progress w' = progress w" using that(2,3) s by (simp add: progress_def)
    then show ?thesis using that stopped_first [of S m ms "progress w"] by (cases r) auto
  qed
  obtain r1 w1 where 1: "find_applied ?f w = (r1, w1)" by fastforce
  have w1: "tree w1 = tree w" "ledger w1 = Some l" "db_schema w1 = db_schema w" and r1: "r1 = Inr (?f \<in> set l) \<or> isl r1"
    using sql_call_run [OF 1 [unfolded find_applied_def]] Cons.prems(2) by auto
  show ?case (is ?goal)
  proof (cases r1)
    case (Inl e)
    then have "r = Inl e" "w' = w1" using Cons.prems(1) 1 by (simp_all add: bind_def)
    then show ?thesis using same w1 by simp
  next
    case (Inr already)
    then have a: "already = (?f \<in> set l)" using r1 by auto
    show ?thesis
    proof (cases already)
      case True
      then have "apply_migrations S ms n w1 = (r, w')" using Cons.prems(1) 1 Inr by (simp add: bind_def)
      from Cons.IH [OF this w1(2)] have ih: "tree w' = tree w1 \<and> ledger w' \<noteq> None \<and>
        (case r of Inr k \<Rightarrow> progress w' = upgraded S ms (progress w1) | Inl e \<Rightarrow> stopped S ms (progress w1) (progress w'))" .
      have "progress w1 = (if ?f \<in> set (fst (progress w)) then progress w
          else (fst (progress w) @ [?f], snd (S (mg_sql m) (snd (progress w)))))"
        using True a w1 s by (simp add: progress_def)
      then show ?thesis using ih w1(1) stopped_later [of S ms m "progress w" "progress w'"] by (auto split: sum.splits)
    next
      case False
      obtain r2 w2 where 2: "raw_sql S (mg_sql m) w1 = (r2, w2)" by fastforce
      have w2: "tree w2 = tree w" "ledger w2 = Some l" "db_schema w2 = db_schema w \<and> isl r2 \<or> db_schema w2 = snd (S (mg_sql m) (db_schema w))"
        using sql_call_run [OF 2 [unfolded raw_sql_def]] w1 by (auto split: prod.splits)
      have halfway: ?goal if "tree w' = tree w" "ledger w' = Some l" "db_schema w' = snd (S (mg_sql m) (db_schema w))" "isl r"
      proof -
        have "progress w' = (l, snd (S (mg_sql m) (db_schema w)))" using that by (simp add: progress_def)
        moreover have "stopped S (m # ms) (l, db_schema w) (l, snd (S (mg_sql m) (db_schema w)))"
          using stopped_script [of m "(l, db_schema w)" S ms] False a by simp
        ultimately show ?thesis using that s by (cases r) auto
      qed
      show ?thesis
      proof (cases r2)
        case (Inl e)
        then have "r = Inl e" "w' = w2" using Cons.prems(1) 1 2 \<open>r1 = Inr already\<close> False by (simp_all add: bind_def)
        then have "?goal" if "db_schema w2 = db_schema w" using same w2 that by simp
        moreover have "?goal" if "db_schema w2 = snd (S (mg_sql m) (db_schema w))" using halfway w2 that \<open>r = Inl e\<close> \<open>w' = w2\<close> by simp
        ultimately show ?thesis using w2(3) by blast
      next
        case r2: (Inr u)
        then have d2: "db_schema w2 = snd (S (mg_sql m) (db_schema w))" using w2 by auto
        obtain r3 w3 where 3: "record_applied ?f w2 = (r3, w3)" by fastforce
        have w3: "tree w3 = tree w" "db_schema w3 = db_schema w2" "if isl r3 then ledger w3 = Some l else ledger w3 = Some (l @ [?f])"
          using sql_call_run [OF 3 [unfolded record_applied_def]] w2 False a by (auto split: if_splits)
        show ?thesis
        proof (cases r3)
          case (Inl e)
          then have "r = Inl e" "w' = w3" using Cons.prems(1) 1 2 3 \<open>r1 = Inr already\<close> False r2 by (simp_all add: bind_def)
          then show ?thesis using halfway w3 Inl d2 by simp
        next
          case r3: (Inr u)
          then have run: "apply_migrations S ms (n + 1) w3 = (r, w')"
            using Cons.prems(1) 1 2 3 \<open>r1 = Inr already\<close> False r2 by (simp add: bind_def)
          have l3: "ledger w3 = Some (l @ [?f])" using w3(3) r3 by simp
          note ih = Cons.IH [OF run l3]
          have "progress w3 = (if ?f \<in> set (fst (progress w)) then progress w
              else (fst (progress w) @ [?f], snd (S (mg_sql m) (snd (progress w)))))"
            using False a w3 d2 l3 s by (simp add: progress_def)
          then show ?thesis using ih w3(1) stopped_later [of S ms m "progress w" "progress w'"] by (auto split: sum.splits)
        qed
      qed
    qed
  qed
qed (auto simp: progress_def)

lemma upgraded_keeps: "set (fst s) \<subseteq> set (fst (upgraded S ms s))"
  by (induction S ms s rule: upgraded.induct) (force split: if_splits)+

lemma upgraded_records: "mg_filename ` set ms \<subseteq> set (fst (upgraded S ms s))"
proof (induction S ms s rule: upgraded.induct)
  case (2 S m ms s)
  let ?s = "if mg_filename m \<in> set (fst s) then s else (fst s @ [mg_filename m], snd (S (mg_sql m) (snd s)))"
  have "mg_filename m \<in> set (fst ?s)" by simp
  then show ?case using 2 upgraded_keeps [of ?s S ms] by auto
qed simp

lemma apply_nothing:
  fixes w :: "('d, 'z) schema_db_scheme"
  shows "calm w \<Longrightarrow> ledger w = Some l \<Longrightarrow> mg_filename ` set ms \<subseteq> set l \<Longrightarrow>
    \<exists>w' :: ('d, 'z) schema_db_scheme. apply_migrations S ms n w = (Inr n, w') \<and> ledger w' = Some l \<and> db_schema w' = db_schema w"
proof (induction ms arbitrary: w)
  case (Cons m ms)
  let ?w = "tick (w\<lparr>ledger := Some l, db_schema := db_schema w\<rparr>)"
  have "find_applied (mg_filename m) w = (Inr True, ?w)"
    using Cons.prems by (simp add: find_applied_def sql_call_calm)
  moreover have "\<exists>w' :: ('d, 'z) schema_db_scheme. apply_migrations S ms n ?w = (Inr n, w') \<and> ledger w' = Some l \<and> db_schema w' = db_schema ?w"
    using Cons.prems by (intro Cons.IH) (simp_all only: calm_tick calm_ledger, simp_all)
  ultimately show ?case by (auto simp: bind_InrI)
qed auto

definition same_ledger :: "('d, 'z) schema_db_scheme \<Rightarrow> ('d, 'z) schema_db_scheme \<Rightarrow> bool" where
  "same_ledger w w' = (ledger w' = ledger w \<and> db_schema w' = db_schema w)"

interpretation same_ledger: frame_rel same_ledger
  by unfold_locales (auto simp: same_ledger_def)

lemma same_ledger_query: "keeps same_ledger (query f)"
  by (auto simp: keeps_def same_ledger_def snd_query)

lemma keeps_same_ledger: "keeps same_ledger (fs_read_to_string H p)" "keeps same_ledger (read_scripts H fs)"
  "keeps same_ledger (read_migration_files H)"
proof -
  show plain: "keeps same_ledger (fs_read_to_string H p)" for p
    unfolding fs_read_to_string_def fs_read_def by (intro same_ledger.keeps_rules same_ledger_query)
  show scripts: "keeps same_ledger (read_scripts H fs)" for fs
  proof (induction fs)
    case (Cons f fs)
    then show ?case unfolding read_scripts.simps by (intro same_ledger.keeps_rules plain)
  qed (unfold read_scripts.simps, intro same_ledger.keeps_rules)
  show "keeps same_ledger (read_migration_files H)"
    unfolding read_migration_files_def exists_or_false_def fs_try_exists_def fs_read_dir_def
    by (intro same_ledger.keeps_rules same_ledger_query scripts)
qed

lemma same_ledger_read: "read_migration_files H w = (r, w') \<Longrightarrow> ledger w' = ledger w \<and> db_schema w' = db_schema w"
  using keepsD [OF keeps_same_ledger(3)] unfolding same_ledger_def by blast

lemma run_nothing:
  fixes v :: "('d, 'z) schema_db_scheme"
  assumes calm: "calm v" and on: "scripts_on H (tree v) ms" and l: "ledger v = Some l" "mg_filename ` set ms \<subseteq> set l"
  shows "\<exists>v' :: ('d, 'z) schema_db_scheme. run_migrations H S v = (Inr (), v') \<and> ledger v' = Some l \<and> db_schema v' = db_schema v"
proof -
  let ?v = "tick (v\<lparr>ledger := Some l, db_schema := db_schema v\<rparr>)"
  have 1: "create_ledger v = (Inr (), ?v)" using calm l by (simp add: create_ledger_def sql_call_calm)
  have c: "calm ?v" "tree ?v = tree v" using calm by (simp_all only: calm_tick calm_ledger, simp_all)
  obtain v2 where 2: "read_migration_files H ?v = (Inr ms, v2)" using read_files_calm [OF c(1)] on c(2) by auto
  have v2: "calm v2" "ledger v2 = Some l" "db_schema v2 = db_schema v"
    using readonly_calm [OF readonly_read_files 2 c(1)] same_ledger_read [OF 2] by simp_all
  obtain v3 :: "('d, 'z) schema_db_scheme" where 3: "apply_migrations S ms 0 v2 = (Inr 0, v3)" "ledger v3 = Some l" "db_schema v3 = db_schema v2"
    using apply_nothing [OF v2(1,2) l(2)] by blast
  show ?thesis using 1 2 3 v2 by (simp add: run_migrations_def bind_InrI)
qed

text \<open>
  C16. Migrations run once, in order. A run that succeeds brings the schema to what the files of
  \<open>migrations/\<close> that were not recorded make of it, each run once, in the order of the names, and
  records them all; a run that fails has done this for the files before some file and has at most run
  that file's script without recording it. Files are left alone. And after a run that succeeded the
  next one, on the same files and with no call failing, succeeds and changes nothing.
\<close>

theorem migrations_run_once:
  fixes w v :: "('d, 'z) schema_db_scheme"
  assumes run: "run_migrations H S w = (r, w')"
  shows "tree w' = tree w \<and>
    (case r of
       Inl e \<Rightarrow> progress w' = progress w \<or> (\<exists>ms. scripts_on H (tree w) ms \<and> stopped S ms (progress w) (progress w'))
     | Inr u \<Rightarrow> (\<exists>ms. scripts_on H (tree w) ms \<and> progress w' = upgraded S ms (progress w) \<and>
           mg_filename ` set ms \<subseteq> set (fst (progress w'))) \<and>
         (calm v \<and> tree v = tree w \<and> ledger v = ledger w' \<and> db_schema v = db_schema w' \<longrightarrow>
           (\<exists>v' :: ('d, 'z) schema_db_scheme. run_migrations H S v = (Inr (), v') \<and> ledger v' = ledger w' \<and> db_schema v' = db_schema w')))"
proof -
  obtain r1 w1 where 1: "create_ledger w = (r1, w1)" by fastforce
  have w1: "tree w1 = tree w" "progress w1 = progress w" and l1: "\<not> isl r1 \<Longrightarrow> ledger w1 = Some (fst (progress w))"
    using sql_call_run [OF 1 [unfolded create_ledger_def]] by (auto simp: progress_def split: option.splits)
  show ?thesis
  proof (cases r1)
    case (Inl e)
    then have "r = Inl e" "w' = w1" using run 1 by (simp_all add: run_migrations_def bind_def)
    then show ?thesis using w1 by simp
  next
    case r1: (Inr u)
    obtain r2 w2 where 2: "read_migration_files H w1 = (r2, w2)" by fastforce
    have w2: "tree w2 = tree w" "ledger w2 = Some (fst (progress w))" "progress w2 = progress w"
      using same_ledger_read [OF 2] readonlyD [OF readonly_read_files 2] w1 l1 r1 by (auto simp: progress_def)
    show ?thesis
    proof (cases r2)
      case (Inl e)
      then have "r = Inl (sqlx_io e)" "w' = w2" using run 1 2 r1 by (simp_all add: run_migrations_def bind_def map_err_def)
      then show ?thesis using w2 by simp
    next
      case (Inr ms)
      have on: "scripts_on H (tree w) ms" using read_files_Inr [of H w1 ms w2] 2 Inr w1 by simp
      obtain r3 where 3: "apply_migrations S ms 0 w2 = (r3, w')" and r: "r = (case r3 of Inl e \<Rightarrow> Inl e | Inr k \<Rightarrow> Inr ())"
        using run 1 2 r1 Inr by (auto simp: run_migrations_def bind_def map_err_def ret_def split: prod.splits sum.splits)
      note a = apply_run [OF 3 w2(2)]
      have "\<exists>v' :: ('d, 'z) schema_db_scheme. run_migrations H S v = (Inr (), v') \<and> ledger v' = ledger w' \<and> db_schema v' = db_schema w'"
        if "r3 = Inr k" and v: "calm v" "tree v = tree w" "ledger v = ledger w'" "db_schema v = db_schema w'" for k
      proof -
        have u: "progress w' = upgraded S ms (progress w)" and n: "ledger w' \<noteq> None" using a that(1) w2 by simp_all
        from n have l: "ledger w' = Some (fst (progress w'))" by (auto simp: progress_def)
        have "mg_filename ` set ms \<subseteq> set (fst (progress w'))" unfolding u by (rule upgraded_records)
        then show ?thesis
          using run_nothing [OF v(1), of H ms "fst (progress w')" S] on v l by simp
      qed
      then show ?thesis
        using a r on w2 upgraded_records [of ms S "progress w"] by (auto split: sum.splits)
    qed
  qed
qed

section \<open>Two files\<close>

text \<open>A schema is the list of the scripts it was made by; the file of another kind is passed over.\<close>

definition toy_scripts :: "string list scripts" where
  "toy_scripts sql d = (None, d @ [sql])"

definition two_files :: "string list schema_db" where
  "two_files = \<lparr>tree = [([''migrations''], Dir), ([''migrations'', ''2.sql''], Reg []), ([''migrations'', ''README''], Reg []),
       ([''migrations'', ''1.sql''], Reg [])],
     ticks = 0, faults = (\<lambda>n. None), caps = (\<lambda>n. 4096), mtimes = (\<lambda>p. None), clock = 1000,
     rng = (\<lambda>n. 0), rng_pos = 0, uuids = show_nat, uuid_pos = 0, ledger = Some [''1.sql''], db_schema = [''first'']\<rparr>"

definition plain_host :: host where
  "plain_host = \<lparr>env_var = (\<lambda>x. None), current_dir = [], base64_encode = (\<lambda>bs. []), valid_utf8 = (\<lambda>bs. True)\<rparr>"

theorem migrations_run_once_witness:
  "let w' = snd (run_migrations plain_host toy_scripts two_files); again = run_migrations plain_host toy_scripts (w'\<lparr>faults := (\<lambda>n. None)\<rparr>)
   in progress w' = ([''1.sql'', ''2.sql''], [''first'', []]) \<and> fst again = Inr () \<and> progress (snd again) = progress w'"
proof -
  let ?m = "run_migrations plain_host toy_scripts"
  let ?w = "snd (?m two_files)"
  have "(case ?m two_files of (r, w) \<Rightarrow> (r, ledger w, db_schema w)) = (Inr (), Some [''1.sql'', ''2.sql''], [''first'', []])"
    by code_simp
  then have run: "?m two_files = (Inr (), ?w)" and p: "ledger ?w = Some [''1.sql'', ''2.sql'']" "db_schema ?w = [''first'', []]"
    by (auto split: prod.splits)
  obtain v' where "?m (?w\<lparr>faults := (\<lambda>n. None)\<rparr>) = (Inr (), v')" "ledger v' = ledger ?w" "db_schema v' = db_schema ?w"
    using migrations_run_once [OF run, of "?w\<lparr>faults := (\<lambda>n. None)\<rparr>"] by (auto simp: calm_def)
  then show ?thesis by (simp add: Let_def progress_def p)
qed

end
