(* ===== verification/Spec2Isabelle.thy ===== *)
theory Spec2Isabelle
  imports ChunkSession RateLimit Boot SamplePages Launch Migrations
begin

text \<open>
  IronDrive, a self-hosted file server (Rust, Rocket, SQLite), as a verified model. Paths below are
  those of the repository, under \<open>src/\<close>.

  \<^bold>\<open>The program.\<close> An account owns at most one personal \<^emph>\<open>library\<close> and any number of shared \<^emph>\<open>spaces\<close>;
  a space may instead belong to a \<^emph>\<open>group\<close>. A library or a space is a directory of encrypted files,
  a row of a table, and a data key that the row holds wrapped under the master key and the server
  holds unwrapped in memory. A request passes a guard (who is asking, with which right), then a
  handler (limits, request and response), then a service (the rules), which uses the models (the
  queries), the file operations (path checks, encryption) and the keys in memory. Three workers run
  beside the requests: the scan of libraries, the clean-up of sessions, the clean-up of uploads.

  \<^bold>\<open>The state.\<close> \<open>Os\<close>: the machine, i.e. the file tree, the clock, the random generator and an oracle
  that decides which system calls fail and how. \<open>Db\<close>: the tables of \<open>src/migrations/\<close>, every statement
  an atomic action that may fail. \<open>World\<close>: the whole server, with the keys in memory. An operation is
  a function \<open>'w \<Rightarrow> (app_error + 'a) \<times> 'w\<close>; \<open>bind\<close> is Rust's \<open>?\<close>, \<open>attempt\<close> inspects a result and
  \<open>ignore\<close> discards it. Effects of a call that returns an error stay, as in the program. Since every
  call may fail at any time, a theorem about a run covers the error paths.

  \<^bold>\<open>Theories and sources.\<close>
  \<^item> \<open>Prelude\<close>, \<open>Os\<close>, \<open>OsFacts\<close>: the vocabulary, Rust's standard library as far as the program uses
    it (files, paths and links, strings, saturating and wrapping arithmetic), and its laws.
  \<^item> \<open>Errors\<close> (\<open>src/errors.rs\<close>), \<open>PathSafety\<close> (\<open>src/utils/path_safety.rs\<close>).
  \<^item> \<open>Crypto\<close>, \<open>CryptoFacts\<close> (\<open>src/services/crypto_service.rs\<close>): key wrapping, the single-shot and the
    chunked file format, the trailing hash, integrity checks.
  \<^item> \<open>UnlockState\<close> (\<open>src/services/unlock_state.rs\<close>), \<open>RateLimit\<close> (\<open>src/services/rate_limit.rs\<close>).
  \<^item> \<open>FsService\<close>, \<open>FsFacts\<close> (\<open>src/services/fs_service.rs\<close>): listing, upload, download, rename, delete,
    usage of libraries and spaces.
  \<^item> \<open>ChunkService\<close>, \<open>ChunkFacts\<close>, \<open>ChunkSession\<close> (\<open>src/services/chunk_service.rs\<close>): resumable uploads,
    download tokens and ranged downloads.
  \<^item> \<open>Db\<close>, \<open>Users\<close>, \<open>Tables\<close>: the schema, \<open>src/models/user.rs\<close>, \<open>src/models/session.rs\<close>, and the
    constraints of the migrations as an invariant. The other models are in the theory of their
    service: \<open>GroupService\<close>, \<open>SpaceService\<close>, \<open>LibraryService\<close>, \<open>ChunkService\<close>, \<open>IntegrityService\<close>.
  \<^item> \<open>GroupService\<close>, \<open>GroupFacts\<close> (\<open>src/services/group_service.rs\<close>); \<open>SpaceService\<close>, \<open>Permissions\<close>,
    \<open>SpaceFacts\<close> (\<open>space_service.rs\<close>); \<open>LibraryService\<close>, \<open>LibraryFacts\<close> (\<open>library_service.rs\<close>);
    \<open>Keyring\<close>, \<open>Realms\<close>: the life of a key, over both.
  \<^item> \<open>AuthService\<close> (\<open>auth_service.rs\<close>, \<open>src/utils/crypto.rs\<close>), \<open>Guards\<close> (\<open>src/guards/\<close>), \<open>AuthFacts\<close>,
    \<open>Access\<close>, \<open>Accounts\<close>.
  \<^item> \<open>Boot\<close> (\<open>setup_database\<close> of \<open>src/main.rs\<close>) and the runs of a server. \<open>Floats\<close>, \<open>Settings\<close>
    (\<open>src/config.rs\<close>): the environment, the parsing of numbers and sizes, the secret key. \<open>Migrations\<close>
    (\<open>src/db.rs\<close>): the migration runner. \<open>Launch\<close> (\<open>rocket\<close> and the catchers of \<open>src/main.rs\<close>).
  \<^item> \<open>IntegrityService\<close> (\<open>integrity_service.rs\<close>, \<open>src/services/background/\<close>), \<open>Walks\<close>, \<open>IntegrityFacts\<close>.
  \<^item> \<open>Http\<close>, \<open>LibraryRoutes\<close>, \<open>SpaceRoutes\<close>, \<open>AccountRoutes\<close>, \<open>Api\<close> (\<open>src/routes/\<close>, and the fairings
    and catchers of \<open>src/main.rs\<close>): one definition per route, and the whole API as one dispatcher.
  \<^item> \<open>Pages\<close>, \<open>AccountPages\<close>, \<open>FilePages\<close>, \<open>GroupPages\<close>, \<open>SpacePages\<close>, \<open>PageCalls\<close>
    (\<open>src/routes/pages.rs\<close>): the web interface, its forms, scripts' requests, redirects and templates.
  \<^item> \<open>FileFrames\<close>, \<open>RowTypes\<close>, \<open>ApiFacts\<close>, \<open>Isolation\<close>, \<open>PageFacts\<close>, \<open>Unseen\<close>, \<open>PageMirror\<close>, \<open>PageTables\<close>:
    what holds of every call. \<open>SampleLogin\<close>, \<open>SampleApi\<close>, \<open>SamplePages\<close>: a concrete server with accounts, on which the
    theorems are evaluated.

  \<^bold>\<open>What the theorems show.\<close>
  \<^item> Files (C1, C2, C11, C13): no path of a caller leaves the root it is joined to, whatever links the
    tree holds and whatever fails; what is uploaded is what is downloaded.
  \<^item> Encryption (C3--C8): round trips of keys and of both formats, the streaming check equals the
    check in memory, and a file can be read exactly when the integrity report calls it intact and, in
    the chunked format, it is cut into whole segments.
  \<^item> The start (C15, C16): a restarted server finds its configuration, its secret and its master key
    again; migrations run once, in order, and a run that stops says where it stands. A size with a
    unit is read exactly (\<open>parse_size_exact\<close>).
  \<^item> Transfers (C17--C19): a download token carries what was signed, the chunks served are the file,
    and a completed upload is the owner's file whatever else happens during the session.
  \<^item> Keys and limits (C9, C10, C25--C30): the keys in memory refine two maps and always match their
    rows; a creation that fails leaves no usable space or library, and what its roll-back cannot undo
    is named; deletion leaves nothing, a restart restores the keys.
  \<^item> Sharing (C20--C24): requests on groups refine a directory of rosters, titles and creators, every group with
    one owner at most, its creator; the three SQL queries of permissions
    compute the greatest permission held, grants take effect and are undone.
  \<^item> Accounts (C31--C37): a token stands for its account from login to expiry or logout, the guards
    admit whom they should, CSRF tokens, one administrator, login after registration.
  \<^item> Web pages (C12, C14): looking and forged submissions change nothing but drop the browser's own
    session when it is spent; an honest submission that passes the page's own checks does what its
    counterpart in the API does, where it has one.
  \<^item> The whole (C38--C40): every walk ends, every call and every worker keeps the types of the columns
    and the constraints of the schema, and a file changes only by a call of its owner or of a holder of \<open>write\<close>.

  \<^bold>\<open>Interfaces.\<close> The locales state what a part relies on: a frame relation that no call of a module
  leaves (\<open>frame_rel\<close>, and \<open>os_frame\<close> for those that no system call leaves), a part of the state that
  no statement looks at (\<open>unseen_part\<close>), a property of the tables that every statement keeps on the
  values the program lets through (\<open>row_invariant\<close>), the walk with a stack (\<open>dir_walk\<close>) and the store of
  keys (\<open>key_store\<close>). Each is interpreted on the definitions of the model; the
  theorems of the modules use its facts.

  \<^bold>\<open>Parameters.\<close> Code that is not in the repository is an argument of the model: AES-256-GCM, SHA-256,
  HMAC, Argon2, Base64 and hex, MIME types (the records \<open>crypto\<close>, \<open>ext\<close>, \<open>tools\<close>, \<open>argon2\<close>, \<open>page_env\<close>,
  \<open>host\<close>, \<open>renderer\<close>), what SQLite makes of a migration script (\<open>scripts\<close>), the
  calendar of \<open>chrono\<close> and the source of UUIDs (fields of the state). Theorems name what they need of it
  (an opened box is the one sealed, a hash has its length, a printed date reads back) as hypotheses,
  and their witnesses give concrete functions.

  \<^bold>\<open>Bounds and fuel.\<close> Integers keep their width (\<open>u32\<close> chunk indices and totals are words, \<open>u64\<close>
  sums saturate or wrap as the code's do). The walks take one unit of fuel per directory and start
  with one more than the entries of the tree: \<open>walks_end\<close> proves that enough, since a walk follows no
  link and every round reads another directory. Path resolution follows at most 40 links, the
  limit of Linux. Everything else is structural or has its termination proof.

  \<^bold>\<open>Not modelled.\<close> Rocket and SQLite themselves (routing, parsing of requests, rendering of JSON, the
  SQL engine: a query is its translation over the tables), the opening of the connection pool, the
  reading of a \<open>.env\<close> file, Rocket's own settings, the modes of files, logging, the endless loops and sleeps of the workers
  (one round is an operation), interleaving inside one request (a request runs as one sequence;
  other requests run before and after it), zeroization of memory. The templates and static
  files of the web interface are rendered and served by Rocket; the model names the template of an
  answer and the values it gets.
\<close>

end
